(* ===== verification/Py_Json.thy ===== *)
theory Py_Json
  imports Prelude Complex_Main
begin

text \<open>
  The JSON values the services exchange, as Python sees them after \<open>json.loads\<close>: \<open>None\<close>,
  \<open>bool\<close>, \<open>int\<close>, \<open>float\<close>, \<open>str\<close>, \<open>list\<close> and \<open>dict\<close> (an association list in insertion
  order, with text keys). Python's \<open>type(x) is int\<close> holds of \<open>JInt\<close> only, while
  \<open>isinstance(x, int)\<close> holds of \<open>JBool\<close> too; the source uses both tests and so does the
  model. The exceptions of the event pipeline and the standard-library operations that stay
  parameters (\<open>pylib\<close>) are declared here as well.
\<close>

section \<open>Values\<close>

text \<open>
  A finite float is its exact rational value; \<open>NegZero\<close> is \<open>-0.0\<close>, which prints
  differently from \<open>0.0\<close>.
\<close>

datatype pyfloat = Fin rat | NegZero | PosInf | NegInf | NaN

datatype json =
    JNull
  | JBool bool
  | JInt int
  | JFloat pyfloat
  | JStr ustr
  | JArr "json list"
  | JObj "(ustr \<times> json) list"

type_synonym obj = "(ustr \<times> json) list"

datatype pytype = TNone | TBool | TInt | TFloat | TStr | TList | TDict

fun py_type :: "json \<Rightarrow> pytype" where
  "py_type JNull = TNone"
| "py_type (JBool _) = TBool"
| "py_type (JInt _) = TInt"
| "py_type (JFloat _) = TFloat"
| "py_type (JStr _) = TStr"
| "py_type (JArr _) = TList"
| "py_type (JObj _) = TDict"

fun isfinite :: "pyfloat \<Rightarrow> bool" where
  "isfinite (Fin _) = True"
| "isfinite NegZero = True"
| "isfinite _ = False"

subsection \<open>Dictionary access\<close>

definition has_key :: "obj \<Rightarrow> string \<Rightarrow> bool" where
  "has_key d k \<longleftrightarrow> map_of d (u k) \<noteq> None"

definition get_key :: "obj \<Rightarrow> string \<Rightarrow> json option" where
  "get_key d k = map_of d (u k)"

text \<open>\<open>d.get(k, v)\<close> and \<open>d.get(k)\<close>.\<close>

definition get_or :: "obj \<Rightarrow> string \<Rightarrow> json \<Rightarrow> json" where
  "get_or d k v = (case map_of d (u k) of None \<Rightarrow> v | Some w \<Rightarrow> w)"

definition get_none :: "obj \<Rightarrow> string \<Rightarrow> json" where
  "get_none d k = get_or d k JNull"

text \<open>\<open>d[k] = v\<close> keeps the position of an existing key and appends a new one.\<close>

definition set_key :: "obj \<Rightarrow> string \<Rightarrow> json \<Rightarrow> obj" where
  "set_key d k v = AList.update (u k) v d"

definition del_key :: "obj \<Rightarrow> string \<Rightarrow> obj" where
  "del_key d k = AList.delete (u k) d"

lemmas dict_defs = has_key_def get_key_def get_or_def get_none_def

lemma get_set_key [simp]:
  "get_or (set_key d k v) k' w = (if k = k' then v else get_or d k' w)"
  "get_none (set_key d k v) k' = (if k = k' then v else get_none d k')"
  "has_key (set_key d k v) k' = (k = k' \<or> has_key d k')"
  "get_key (set_key d k v) k' = (if k = k' then Some v else get_key d k')"
  by (auto simp: dict_defs set_key_def map_of_update)

lemma get_literal [text_simps]:
  "get_or [] k w = w"
  "get_or ((u a, x) # d) k w = (if a = k then x else get_or d k w)"
  "get_none [] k = JNull"
  "get_none ((u a, x) # d) k = (if a = k then x else get_none d k)"
  "has_key [] k = False"
  "has_key ((u a, x) # d) k = (a = k \<or> has_key d k)"
  "get_key [] k = None"
  "get_key ((u a, x) # d) k = (if a = k then Some x else get_key d k)"
  by (auto simp: dict_defs)

lemma get_append:
  "get_or (d @ e) k w = (if has_key d k then get_or d k w else get_or e k w)"
  "get_none (d @ e) k = (if has_key d k then get_none d k else get_none e k)"
  "has_key (d @ e) k = (has_key d k \<or> has_key e k)"
  "get_key (d @ e) k = (if has_key d k then get_key d k else get_key e k)"
  by (auto simp: dict_defs map_add_def split: option.splits)

lemma get_none_absent: "\<not> has_key d k \<Longrightarrow> get_none d k = JNull"
  by (simp add: dict_defs)

lemma get_or_absent: "\<not> has_key d k \<Longrightarrow> get_or d k w = w"
  by (simp add: dict_defs)

lemma get_or_present: "has_key d k \<Longrightarrow> get_or d k w = get_none d k"
  by (auto simp: dict_defs)

lemma get_key_present: "has_key d k \<Longrightarrow> get_key d k = Some (get_none d k)"
  by (auto simp: dict_defs)

subsection \<open>Size of a value, for termination\<close>

fun jsize :: "json \<Rightarrow> nat" where
  "jsize (JArr xs) = Suc (sum_list (map jsize xs))"
| "jsize (JObj kvs) = Suc (sum_list (map (\<lambda>kv. jsize (snd kv)) kvs))"
| "jsize _ = 1"

lemma jsize_pos [simp]: "0 < jsize v"
  by (cases v) auto

lemma sum_list_member_le: "x \<in> set xs \<Longrightarrow> f x \<le> (sum_list (map f xs) :: nat)"
  by (simp add: member_le_sum_list)

lemma jsize_map_of: "map_of d k = Some v \<Longrightarrow> jsize v \<le> sum_list (map (\<lambda>kv. jsize (snd kv)) d)"
  using sum_list_member_le [of "(k, v)" d "\<lambda>kv. jsize (snd kv)"]
  by (auto dest: map_of_SomeD)

section \<open>Equality and truth value\<close>

text \<open>
  \<open>==\<close> compares \<open>bool\<close>, \<open>int\<close> and \<open>float\<close> by value, lists element by element and dictionaries
  as maps; elements of containers are first compared by identity, and the one NaN object
  \<open>json.loads\<close> hands out is identical to itself there.
\<close>

fun num_eq :: "pyfloat \<Rightarrow> pyfloat \<Rightarrow> bool" where
  "num_eq (Fin a) (Fin b) = (a = b)"
| "num_eq (Fin a) NegZero = (a = 0)"
| "num_eq NegZero (Fin a) = (a = 0)"
| "num_eq NegZero NegZero = True"
| "num_eq PosInf PosInf = True"
| "num_eq NegInf NegInf = True"
| "num_eq _ _ = False"

fun as_num :: "json \<Rightarrow> pyfloat option" where
  "as_num (JBool b) = Some (Fin (if b then 1 else 0))"
| "as_num (JInt i) = Some (Fin (of_int i))"
| "as_num (JFloat f) = Some f"
| "as_num _ = None"

function (sequential) py_eq :: "json \<Rightarrow> json \<Rightarrow> bool"
  and py_eq_list :: "json list \<Rightarrow> json list \<Rightarrow> bool"
  and py_eq_items :: "obj \<Rightarrow> obj \<Rightarrow> bool"
  and py_eq_elem :: "json \<Rightarrow> json \<Rightarrow> bool"
where
  "py_eq JNull y = (y = JNull)"
| "py_eq (JStr a) y = (y = JStr a)"
| "py_eq (JArr xs) y =
     (case y of JArr ys \<Rightarrow> length xs = length ys \<and> py_eq_list xs ys | _ \<Rightarrow> False)"
| "py_eq (JObj d) y =
     (case y of JObj e \<Rightarrow> length d = length e \<and> py_eq_items d e | _ \<Rightarrow> False)"
| "py_eq x y =
     (case (as_num x, as_num y) of (Some a, Some b) \<Rightarrow> num_eq a b | _ \<Rightarrow> False)"
| "py_eq_list (x # xs) (y # ys) = (py_eq_elem x y \<and> py_eq_list xs ys)"
| "py_eq_list [] [] = True"
| "py_eq_list _ _ = False"
| "py_eq_items [] e = True"
| "py_eq_items ((k, v) # d) e =
     ((case map_of e k of None \<Rightarrow> False | Some w \<Rightarrow> py_eq_elem v w) \<and> py_eq_items d e)"
| "py_eq_elem x y = ((x = JFloat NaN \<and> y = JFloat NaN) \<or> py_eq x y)"
  by pat_completeness auto
termination
  by (relation "measure (\<lambda>s. case s of
        Inl (Inl (x, y)) \<Rightarrow> 3 * jsize x
      | Inl (Inr (xs, ys)) \<Rightarrow> 3 * sum_list (map jsize xs) + 2
      | Inr (Inl (d, e)) \<Rightarrow> 3 * sum_list (map (\<lambda>kv. jsize (snd kv)) d) + 2
      | Inr (Inr (x, y)) \<Rightarrow> 3 * jsize x + 1)")
    auto

text \<open>\<open>bool(x)\<close>.\<close>

fun truthy :: "json \<Rightarrow> bool" where
  "truthy JNull = False"
| "truthy (JBool b) = b"
| "truthy (JInt i) = (i \<noteq> 0)"
| "truthy (JFloat f) = (\<not> num_eq f (Fin 0))"
| "truthy (JStr s) = (s \<noteq> [])"
| "truthy (JArr xs) = (xs \<noteq> [])"
| "truthy (JObj d) = (d \<noteq> [])"

section \<open>Standard-library operations kept as parameters\<close>

text \<open>
  \<open>float_repr\<close> is \<open>repr\<close> of a float, \<open>loads\<close> is \<open>json.loads\<close> of a text (\<open>None\<close> when it
  raises), \<open>fromiso\<close> is \<open>datetime.fromisoformat\<close> (\<open>None\<close> when it raises, \<open>Some None\<close> for a
  naive value, otherwise the timestamp), \<open>sha256\<close> the digest.
\<close>

record pylib =
  float_repr :: "pyfloat \<Rightarrow> ustr"
  loads :: "ustr \<Rightarrow> json option"
  fromiso :: "ustr \<Rightarrow> pyfloat option option"
  sha256 :: "bytes \<Rightarrow> bytes"

section \<open>Exceptions\<close>

text \<open>
  The exceptions of the pipeline. \<open>is_value_error\<close> and \<open>is_runtime_error\<close> give the class
  hierarchy the handlers rely on.
\<close>

datatype exn =
    ValueError ustr
  | IngressAuthorizationError ustr
  | RequestStatusOwnerConflict ustr
  | NotificationTargetMissing ustr
  | RuntimeError ustr
  | RoomSequenceGapError ustr
  | TypeError
  | IndexError
  | KeyError ustr
  | DataError
  | IntegrityError
  | OperationalError
  | InterfaceError
  | PoolError
  | KafkaError
  | ReplayDatabaseUnavailable
  | ReplayClaimInProgress
  | HTTPException nat ustr

fun is_value_error :: "exn \<Rightarrow> bool" where
  "is_value_error (ValueError _) = True"
| "is_value_error (IngressAuthorizationError _) = True"
| "is_value_error (RequestStatusOwnerConflict _) = True"
| "is_value_error (NotificationTargetMissing _) = True"
| "is_value_error _ = False"

fun is_runtime_error :: "exn \<Rightarrow> bool" where
  "is_runtime_error (RuntimeError _) = True"
| "is_runtime_error (RoomSequenceGapError _) = True"
| "is_runtime_error ReplayDatabaseUnavailable = True"
| "is_runtime_error ReplayClaimInProgress = True"
| "is_runtime_error _ = False"

text \<open>\<open>type(exc).__name__\<close>.\<close>

fun exn_name :: "exn \<Rightarrow> ustr" where
  "exn_name (ValueError _) = u ''ValueError''"
| "exn_name (IngressAuthorizationError _) = u ''IngressAuthorizationError''"
| "exn_name (RequestStatusOwnerConflict _) = u ''RequestStatusOwnerConflict''"
| "exn_name (NotificationTargetMissing _) = u ''NotificationTargetMissing''"
| "exn_name (RuntimeError _) = u ''RuntimeError''"
| "exn_name (RoomSequenceGapError _) = u ''RoomSequenceGapError''"
| "exn_name TypeError = u ''TypeError''"
| "exn_name IndexError = u ''IndexError''"
| "exn_name (KeyError _) = u ''KeyError''"
| "exn_name DataError = u ''DataError''"
| "exn_name IntegrityError = u ''IntegrityError''"
| "exn_name OperationalError = u ''OperationalError''"
| "exn_name InterfaceError = u ''InterfaceError''"
| "exn_name PoolError = u ''PoolError''"
| "exn_name KafkaError = u ''KafkaError''"
| "exn_name ReplayDatabaseUnavailable = u ''ReplayDatabaseUnavailable''"
| "exn_name ReplayClaimInProgress = u ''ReplayClaimInProgress''"
| "exn_name (HTTPException _ _) = u ''HTTPException''"

definition value_error :: "string \<Rightarrow> exn" where
  "value_error s = ValueError (u s)"

lemma is_value_error_value_error [simp]: "is_value_error (value_error s)"
  by (simp add: value_error_def)

section \<open>Serialised size\<close>

text \<open>
  \<open>json.dumps(v, ensure_ascii=False, separators=(',', ':'))\<close> and the length of its UTF-8
  encoding.
\<close>

definition hex_digit :: "nat \<Rightarrow> nat" where
  "hex_digit n = (if n < 10 then 48 + n else 87 + n)"

fun dumps_char :: "nat \<Rightarrow> ustr" where
  "dumps_char c =
     (if c = 34 then [92, 34]
      else if c = 92 then [92, 92]
      else if c = 10 then [92, 110]
      else if c = 13 then [92, 114]
      else if c = 9 then [92, 116]
      else if c = 12 then [92, 102]
      else if c = 8 then [92, 98]
      else if c < 32 then [92, 117, 48, 48, hex_digit (c div 16), hex_digit (c mod 16)]
      else [c])"

definition dumps_text :: "ustr \<Rightarrow> ustr" where
  "dumps_text s = 34 # concat (map dumps_char s) @ [34]"

fun join :: "ustr \<Rightarrow> ustr list \<Rightarrow> ustr" where
  "join sep [] = []"
| "join sep [x] = x"
| "join sep (x # xs) = x @ sep @ join sep xs"

text \<open>Non-finite floats print as the JavaScript names.\<close>

fun float_text :: "pylib \<Rightarrow> pyfloat \<Rightarrow> ustr" where
  "float_text L PosInf = u ''Infinity''"
| "float_text L NegInf = u ''-Infinity''"
| "float_text L NaN = u ''NaN''"
| "float_text L f = float_repr L f"

fun dumps_compact :: "pylib \<Rightarrow> json \<Rightarrow> ustr" where
  "dumps_compact L JNull = u ''null''"
| "dumps_compact L (JBool b) = (if b then u ''true'' else u ''false'')"
| "dumps_compact L (JInt i) = py_str_int i"
| "dumps_compact L (JFloat f) = float_text L f"
| "dumps_compact L (JStr s) = dumps_text s"
| "dumps_compact L (JArr xs) = [91] @ join [44] (map (dumps_compact L) xs) @ [93]"
| "dumps_compact L (JObj d) =
     [123] @ join [44] (map (\<lambda>kv. dumps_text (fst kv) @ [58] @ dumps_compact L (snd kv)) d)
     @ [125]"

definition utf8_len :: "ustr \<Rightarrow> nat" where
  "utf8_len s = sum_list (map (\<lambda>c. if c < 128 then 1 else if c < 2048 then 2
                                   else if c < 65536 then 3 else 4) s)"

definition json_bytes :: "pylib \<Rightarrow> json \<Rightarrow> nat" where
  "json_bytes L v = utf8_len (dumps_compact L v)"

end
