(* ===== verification/Event_Envelope.thy ===== *)
theory Event_Envelope
  imports Py_Json
begin

text \<open>
  \<open>portfolio/event_envelope.py\<close>: the generic event-type pattern, the NUL scan and the
  structural validation that every JSON value passes before it is published or stored. Both
  walks are the source's explicit-stack loops (the top of the stack is the head of the
  list); each is proved equal to the recursive predicate it computes. Values that come out
  of \<open>json.loads\<close> share no containers, so the identity sets of the source (visited and
  active containers) never skip or refuse a node and are not part of the state here.
\<close>

definition max_json_nesting_depth :: nat where
  "max_json_nesting_depth = 64"

definition max_json_wire_nesting_depth :: nat where
  "max_json_wire_nesting_depth = max_json_nesting_depth + 1"

section \<open>Event types\<close>

text \<open>\<open>^[A-Za-z0-9][A-Za-z0-9._:-]*$\<close> under \<open>fullmatch\<close>.\<close>

definition is_alnum :: "nat \<Rightarrow> bool" where
  "is_alnum c \<longleftrightarrow> (65 \<le> c \<and> c \<le> 90) \<or> (97 \<le> c \<and> c \<le> 122) \<or> (48 \<le> c \<and> c \<le> 57)"

definition event_type_tail_char :: "nat \<Rightarrow> bool" where
  "event_type_tail_char c \<longleftrightarrow> is_alnum c \<or> c = 46 \<or> c = 95 \<or> c = 58 \<or> c = 45"

fun is_generic_event_type :: "ustr \<Rightarrow> bool" where
  "is_generic_event_type [] = False"
| "is_generic_event_type (c # cs) = (is_alnum c \<and> list_all event_type_tail_char cs)"

section \<open>Text checks\<close>

definition contains_utf16_surrogate :: "ustr \<Rightarrow> bool" where
  "contains_utf16_surrogate s \<longleftrightarrow> (\<exists>c\<in>set s. 55296 \<le> c \<and> c \<le> 57343)"

definition has_nul :: "ustr \<Rightarrow> bool" where
  "has_nul s \<longleftrightarrow> 0 \<in> set s"

lemma has_nul_u [simp, text_simps]: "has_nul (u s) \<longleftrightarrow> CHR 0x00 \<in> set s"
proof -
  have zero: "of_char (CHR 0x00) = (0::nat)" by simp
  have "of_char c = (0::nat) \<longleftrightarrow> c = CHR 0x00" for c
    using of_char_eq_iff [of c "CHR 0x00", where 'a = nat] by (simp only: zero)
  then have eq: "(0::nat) = of_char c \<longleftrightarrow> c = CHR 0x00" for c by (metis (no_types))
  show ?thesis by (simp only: has_nul_def u_def set_map image_iff eq) blast
qed

lemma no_surrogate_u [simp, text_simps]: "\<not> contains_utf16_surrogate (u s)"
proof
  assume "contains_utf16_surrogate (u s)"
  then obtain c where "(55296::nat) \<le> of_char c"
    by (auto simp: contains_utf16_surrogate_def u_def)
  moreover have "of_char c < (256::nat)" by (rule nat_of_char_less_256)
  ultimately show False by linarith
qed

section \<open>The NUL scan\<close>

text \<open>\<open>contains_nul\<close>: pop a value; a text answers the question for itself, a dictionary pushes
  its keys and then its values, a list its items.\<close>

text \<open>Keys pushed on the stack are texts: the weight of a dictionary covers them.\<close>

fun nul_weight :: "json \<Rightarrow> nat" where
  "nul_weight (JArr xs) = Suc (sum_list (map nul_weight xs))"
| "nul_weight (JObj kvs) = Suc (sum_list (map (\<lambda>kv. Suc (nul_weight (snd kv))) kvs))"
| "nul_weight _ = 1"

lemma sum_list_rev_map: "sum_list (map f (rev xs)) = (sum_list (map f xs) :: nat)"
  by (simp add: rev_map [symmetric] sum_list_rev)

function contains_nul_loop :: "json list \<Rightarrow> bool" where
  "contains_nul_loop [] = False"
| "contains_nul_loop (v # st) =
     (case v of
        JStr s \<Rightarrow> if has_nul s then True else contains_nul_loop st
      | JObj kvs \<Rightarrow> contains_nul_loop (rev (map snd kvs) @ rev (map (JStr \<circ> fst) kvs) @ st)
      | JArr xs \<Rightarrow> contains_nul_loop (rev xs @ st)
      | _ \<Rightarrow> contains_nul_loop st)"
  by pat_completeness auto
termination
  by (relation "measure (\<lambda>st. sum_list (map nul_weight st))")
    (auto simp: sum_list_rev_map rev_map sum_list_Suc comp_def)

definition contains_nul :: "json \<Rightarrow> bool" where
  "contains_nul v = contains_nul_loop [v]"

text \<open>What the scan decides: some text of the value, a key or a string, holds a NUL.\<close>

fun some_text :: "(ustr \<Rightarrow> bool) \<Rightarrow> json \<Rightarrow> bool" where
  "some_text P (JStr s) = P s"
| "some_text P (JArr xs) = list_ex (some_text P) xs"
| "some_text P (JObj kvs) = list_ex (\<lambda>kv. P (fst kv) \<or> some_text P (snd kv)) kvs"
| "some_text P _ = False"

lemma contains_nul_loop_iff: "contains_nul_loop st \<longleftrightarrow> list_ex (some_text has_nul) st"
proof (induction st rule: contains_nul_loop.induct)
  case 1
  show ?case by simp
next
  case (2 v st)
  show ?case
  proof (cases v)
    case (JObj kvs)
    with 2 have "contains_nul_loop (v # st) \<longleftrightarrow>
        list_ex (some_text has_nul) (rev (map snd kvs) @ rev (map (JStr \<circ> fst) kvs) @ st)"
      by simp
    with JObj show ?thesis by (simp add: list_ex_iff bex_Un) blast
  next
    case (JArr xs)
    with 2 show ?thesis by (auto simp: list_ex_iff)
  qed (use 2 in auto)
qed

text \<open>
  The NUL scan answers whether some text of the value, a string or a dictionary key at
  any depth, holds a NUL.
\<close>

theorem contains_nul_correct: "contains_nul v \<longleftrightarrow> some_text has_nul v"
  by (simp add: contains_nul_def contains_nul_loop_iff)

section \<open>Structural validation\<close>

text \<open>
  \<open>validate_json_structure\<close>. The stack holds values with the depth of their parent; a
  container one level deeper than allowed, a text or key with a NUL or a surrogate and a
  non-finite float raise.
\<close>

definition nul_message :: exn where
  "nul_message = value_error ''JSON strings and object keys must not contain NUL characters''"

definition scalar_message :: exn where
  "scalar_message =
     value_error ''JSON strings and object keys must contain valid Unicode scalars''"

definition nesting_message :: "nat \<Rightarrow> exn" where
  "nesting_message md = ValueError (u ''JSON nesting must not exceed '' @ dec_nat md
     @ u '' container levels'')"

definition check_text :: "ustr \<Rightarrow> exn option" where
  "check_text s =
     (if has_nul s then Some nul_message
      else if contains_utf16_surrogate s then Some scalar_message
      else None)"

fun check_keys :: "obj \<Rightarrow> exn option" where
  "check_keys [] = None"
| "check_keys ((k, v) # kvs) =
     (case check_text k of Some e \<Rightarrow> Some e | None \<Rightarrow> check_keys kvs)"

function validate_loop :: "nat \<Rightarrow> (json \<times> nat) list \<Rightarrow> exn + unit" where
  "validate_loop md [] = Inr ()"
| "validate_loop md ((v, parent) # st) =
     (case v of
        JStr s \<Rightarrow> (case check_text s of Some e \<Rightarrow> Inl e | None \<Rightarrow> validate_loop md st)
      | JFloat f \<Rightarrow> if isfinite f then validate_loop md st
                    else Inl (value_error ''JSON numbers must be finite'')
      | JObj kvs \<Rightarrow>
          if parent + 1 > md then Inl (nesting_message md)
          else (case check_keys kvs of
                  Some e \<Rightarrow> Inl e
                | None \<Rightarrow> validate_loop md (rev (map (\<lambda>kv. (snd kv, parent + 1)) kvs) @ st))
      | JArr xs \<Rightarrow>
          if parent + 1 > md then Inl (nesting_message md)
          else validate_loop md (rev (map (\<lambda>x. (x, parent + 1)) xs) @ st)
      | _ \<Rightarrow> validate_loop md st)"
  by pat_completeness auto
termination
  by (relation "measure (\<lambda>(md, st). sum_list (map (\<lambda>e. jsize (fst e)) st))")
    (auto simp: sum_list_rev_map rev_map comp_def)

definition validate_json_structure_at :: "nat \<Rightarrow> json \<Rightarrow> exn + unit" where
  "validate_json_structure_at md v = validate_loop md [(v, 0)]"

text \<open>The default depth and the wire depth of the callers.\<close>

definition validate_json_structure :: "json \<Rightarrow> exn + unit" where
  "validate_json_structure v = validate_json_structure_at max_json_nesting_depth v"

definition validate_json_wire :: "json \<Rightarrow> exn + unit" where
  "validate_json_wire v = validate_json_structure_at max_json_wire_nesting_depth v"

subsection \<open>The predicate the walk computes\<close>

definition good_text :: "ustr \<Rightarrow> bool" where
  "good_text s \<longleftrightarrow> \<not> has_nul s \<and> \<not> contains_utf16_surrogate s"

text \<open>\<open>json_ok n v\<close>: \<open>v\<close> nests at most \<open>n\<close> containers, its texts are NUL-free scalars, its
  floats finite.\<close>

fun json_ok :: "nat \<Rightarrow> json \<Rightarrow> bool" where
  "json_ok n (JStr s) = good_text s"
| "json_ok n (JFloat f) = isfinite f"
| "json_ok n (JArr xs) = (0 < n \<and> list_all (json_ok (n - 1)) xs)"
| "json_ok n (JObj kvs) =
     (0 < n \<and> list_all (\<lambda>kv. good_text (fst kv) \<and> json_ok (n - 1) (snd kv)) kvs)"
| "json_ok n _ = True"

lemma good_text_check: "good_text s \<longleftrightarrow> check_text s = None"
  by (simp add: check_text_def good_text_def)

lemma check_keys_None: "list_all (\<lambda>kv. good_text (fst kv)) kvs \<longleftrightarrow> check_keys kvs = None"
  by (induction kvs rule: check_keys.induct) (auto simp: good_text_check split: option.splits)

lemma list_all_keys_values:
  "list_all (\<lambda>kv. good_text (fst kv) \<and> P (snd kv)) kvs
     \<longleftrightarrow> check_keys kvs = None \<and> list_all (\<lambda>kv. P (snd kv)) kvs"
  by (auto simp: check_keys_None [symmetric] list_all_iff)

lemma json_ok_mono: "json_ok n v \<Longrightarrow> n \<le> m \<Longrightarrow> json_ok m v"
proof (induction n v arbitrary: m rule: json_ok.induct)
  case (3 n xs)
  then show ?case by (auto simp: list_all_iff)
next
  case (4 n kvs)
  then show ?case by (auto simp: list_all_iff)
qed auto

lemma validate_loop_ok:
  "(validate_loop md st = Inr ()) \<longleftrightarrow> list_all (\<lambda>(v, p). json_ok (md - p) v) st"
proof (induction md st rule: validate_loop.induct)
  case (1 md)
  show ?case by simp
next
  case (2 md v parent st)
  show ?case
  proof (cases v)
    case (JStr s)
    with 2 show ?thesis by (cases "check_text s") (auto simp: good_text_check)
  next
    case (JArr xs)
    with 2 show ?thesis by (cases "parent + 1 > md") (auto simp: list_all_iff)
  next
    case (JObj kvs)
    then have split: "json_ok (md - parent) v \<longleftrightarrow> parent + 1 \<le> md \<and> check_keys kvs = None
        \<and> list_all (\<lambda>kv. json_ok (md - (parent + 1)) (snd kv)) kvs"
      by (auto simp: list_all_keys_values)
    show ?thesis
    proof (cases "parent + 1 > md \<or> check_keys kvs \<noteq> None")
      case True
      with JObj split show ?thesis by (auto split: option.splits)
    next
      case False
      with 2(7) [OF JObj] JObj split show ?thesis by (auto simp: list_all_iff)
    qed
  qed (use 2 in auto)
qed

lemma check_text_value_error: "check_text s = Some e \<Longrightarrow> is_value_error e"
  by (auto simp: check_text_def nul_message_def scalar_message_def split: if_splits)

lemma check_keys_value_error: "check_keys kvs = Some e \<Longrightarrow> is_value_error e"
  by (induction kvs rule: check_keys.induct)
    (auto split: option.splits dest: check_text_value_error)

lemma validate_loop_value_error: "validate_loop md st = Inl e \<Longrightarrow> is_value_error e"
proof (induction md st rule: validate_loop.induct)
  case (1 md)
  then show ?case by simp
next
  case (2 md v parent st)
  show ?case
  proof (cases v)
    case (JStr s)
    with 2 show ?thesis by (auto split: option.splits dest: check_text_value_error)
  next
    case (JArr xs)
    with 2 show ?thesis by (auto simp: nesting_message_def split: if_splits)
  next
    case (JObj kvs)
    with 2 show ?thesis
      by (auto simp: nesting_message_def split: if_splits option.splits dest: check_keys_value_error)
  qed (use 2 in \<open>auto split: if_splits\<close>)
qed

declare validate_loop.simps [simp del] contains_nul_loop.simps [simp del]

lemma validate_json_structure_at_ok [simp]:
  "validate_json_structure_at md v = Inr () \<longleftrightarrow> json_ok md v"
  by (simp add: validate_json_structure_at_def validate_loop_ok)

lemma validate_json_structure_ok [simp]:
  "validate_json_structure v = Inr () \<longleftrightarrow> json_ok max_json_nesting_depth v"
  "validate_json_wire v = Inr () \<longleftrightarrow> json_ok max_json_wire_nesting_depth v"
  by (simp_all add: validate_json_structure_def validate_json_wire_def)

lemma validate_json_structure_error:
  "validate_json_structure v = Inl e \<Longrightarrow> is_value_error e"
  "validate_json_wire v = Inl e \<Longrightarrow> is_value_error e"
  "validate_json_structure_at md v = Inl e \<Longrightarrow> is_value_error e"
  by (auto simp: validate_json_structure_def validate_json_wire_def
      validate_json_structure_at_def dest: validate_loop_value_error)

lemma json_ok_dict:
  "json_ok (Suc n) (JObj kvs) \<longleftrightarrow> list_all (\<lambda>kv. good_text (fst kv) \<and> json_ok n (snd kv)) kvs"
  by simp

text \<open>
  The explicit-stack walk accepts exactly the values the recursive predicate accepts,
  and everything it raises is a \<open>ValueError\<close>, which is what every caller catches.
\<close>

theorem validate_json_structure_correct:
  "case validate_json_structure_at md v of
     Inr _ \<Rightarrow> json_ok md v
   | Inl e \<Rightarrow> \<not> json_ok md v \<and> is_value_error e"
proof (cases "validate_json_structure_at md v")
  case (Inl e)
  then have "\<not> json_ok md v" using validate_json_structure_at_ok [of md v] by (metis sum.distinct(1))
  moreover from Inl have "is_value_error e" by (rule validate_json_structure_error)
  ultimately show ?thesis unfolding Inl by simp
next
  case (Inr x)
  then have "json_ok md v" by simp
  then show ?thesis unfolding Inr by simp
qed

end
