(* ===== verification/Ingress_Validation.thy ===== *)
theory Ingress_Validation
  imports Event_Envelope
begin

text \<open>
  \<open>worker/main.py\<close>, the boundary of the ingress worker: the envelope shared by every
  pipeline stage (\<open>_event_envelope\<close>), the body preview, and the validation of a consumed
  Kafka record (\<open>_validate_ingress_payload\<close>), which either raises \<open>ValueError\<close> or returns the
  normalised job with exactly the allow-listed fields. The source mutates the consumed
  dictionary while it validates; the model returns the dictionary as validation left it,
  because the dead-letter path reads it afterwards.
\<close>

section \<open>Shared checks\<close>

definition max_postgres_bigint :: int where
  "max_postgres_bigint = 9223372036854775807"

definition require :: "bool \<Rightarrow> string \<Rightarrow> (exn + 'a) \<Rightarrow> exn + 'a" where
  "require ok msg k = guard ok (value_error msg) k"

lemma require_eq_Inr: "require b msg k = Inr y \<longleftrightarrow> b \<and> k = Inr y"
  by (simp add: require_def guard_def)

lemma require_basic [simp]: "require True msg k = k" "require False msg k = Inl (value_error msg)"
  by (simp_all add: require_def)

text \<open>An \<open>int\<close> (not a \<open>bool\<close>) in \<open>1 .. 2^63 - 1\<close>, and in \<open>0 .. 2^63 - 1\<close>.\<close>

fun pos_bigint :: "json \<Rightarrow> bool" where
  "pos_bigint (JInt i) = (0 < i \<and> i \<le> max_postgres_bigint)"
| "pos_bigint _ = False"

fun nonneg_bigint :: "json \<Rightarrow> bool" where
  "nonneg_bigint (JInt i) = (0 \<le> i \<and> i \<le> max_postgres_bigint)"
| "nonneg_bigint _ = False"

text \<open>A nonempty text of at most \<open>n\<close> code points without NUL.\<close>

fun bounded_text :: "nat \<Rightarrow> json \<Rightarrow> bool" where
  "bounded_text n (JStr s) = (s \<noteq> [] \<and> length s \<le> n \<and> \<not> has_nul s)"
| "bounded_text n _ = False"

fun int_of_json :: "json \<Rightarrow> int" where
  "int_of_json (JInt i) = i"
| "int_of_json (JBool b) = (if b then 1 else 0)"
| "int_of_json _ = 0"

fun text_of_json :: "json \<Rightarrow> ustr" where
  "text_of_json (JStr s) = s"
| "text_of_json _ = []"

fun obj_of_json :: "json \<Rightarrow> obj" where
  "obj_of_json (JObj d) = d"
| "obj_of_json _ = []"

fun is_dict :: "json \<Rightarrow> bool" where
  "is_dict (JObj _) = True"
| "is_dict _ = False"

lemma pos_bigint_JInt: "pos_bigint v \<longleftrightarrow> (\<exists>i. v = JInt i \<and> 0 < i \<and> i \<le> max_postgres_bigint)"
  by (cases v) auto

lemma nonneg_bigint_JInt: "nonneg_bigint v \<longleftrightarrow> (\<exists>i. v = JInt i \<and> 0 \<le> i \<and> i \<le> max_postgres_bigint)"
  by (cases v) auto

lemma bounded_text_JStr:
  "bounded_text n v \<longleftrightarrow> (\<exists>s. v = JStr s \<and> s \<noteq> [] \<and> length s \<le> n \<and> \<not> has_nul s)"
  by (cases v) auto

lemma is_dict_JObj: "is_dict v \<longleftrightarrow> (\<exists>d. v = JObj d)"
  by (cases v) auto

section \<open>The event envelope\<close>

text \<open>
  \<open>str(route).startswith('POST:/v2/')\<close>: the text of a non-string JSON value never starts
  with \<open>P\<close>.
\<close>

fun is_v2_route_value :: "json \<Rightarrow> bool" where
  "is_v2_route_value (JStr s) = starts_with (u ''POST:/v2/'') s"
| "is_v2_route_value _ = False"

fun at_least_two :: "json \<Rightarrow> bool" where
  "at_least_two (JInt i) = (2 \<le> i)"
| "at_least_two _ = False"

definition is_generic_envelope :: "obj \<Rightarrow> bool" where
  "is_generic_envelope d \<longleftrightarrow>
     at_least_two (get_or d ''schema_version'' (JInt 1))
     \<or> is_v2_route_value (get_or d ''route'' (JStr []))"

definition envelope_event_type :: "obj \<Rightarrow> exn + json" where
  "envelope_event_type d =
     (if has_key d ''event_type'' then Inr (get_none d ''event_type'')
      else if is_generic_envelope d then Inl (value_error ''Generic envelope missing event_type'')
      else Inr (JStr (u ''legacy.message'')))"

text \<open>The metadata of a legacy record is rebuilt from its order columns.\<close>

definition legacy_metadata :: "obj \<Rightarrow> obj" where
  "legacy_metadata d =
     (let m0 = [];
          m1 = (if get_none d ''category'' \<noteq> JNull
                then set_key m0 ''classification'' (get_none d ''category'') else m0)
      in if get_none d ''payment_id'' \<noteq> JNull
         then set_key m1 ''external_references''
                (JObj [(u ''payment'', get_none d ''payment_id'')])
         else m1)"

definition envelope_payload :: "obj \<Rightarrow> exn + json \<times> json" where
  "envelope_payload d =
     (if is_generic_envelope d then
        require (has_key d ''payload'') ''Generic envelope missing payload''
          (Inr (get_none d ''payload'', get_or d ''metadata'' (JObj [])))
      else
        let p0 = get_none d ''payload'';
            p = (if p0 = JNull \<and> has_key d ''body''
                 then JObj [(u ''text'', get_none d ''body'')] else p0);
            m0 = get_none d ''metadata'';
            m = (if m0 = JNull then JObj (legacy_metadata d) else m0)
        in Inr (p, m))"

definition event_envelope :: "pylib \<Rightarrow> obj \<Rightarrow> exn + ustr \<times> obj \<times> obj" where
  "event_envelope L d =
     rbind (envelope_event_type d) (\<lambda>et.
     require (bounded_text 50 et) ''Invalid event_type'' (
     require (is_generic_envelope d \<longrightarrow> is_generic_event_type (text_of_json et))
       ''Invalid generic event_type'' (
     rbind (envelope_payload d) (\<lambda>(p, m).
     require (is_dict p) ''Invalid payload'' (
     require (is_dict m) ''Invalid metadata'' (
     rbind (validate_json_structure p) (\<lambda>_.
     rbind (validate_json_structure m) (\<lambda>_.
     require (json_bytes L p \<le> 65536) ''Payload exceeds 65536 UTF-8 JSON bytes'' (
     require (json_bytes L m \<le> 16384) ''Metadata exceeds 16384 UTF-8 JSON bytes'' (
     Inr (text_of_json et, obj_of_json p, obj_of_json m)))))))))))"

definition is_nonempty_text :: "json \<Rightarrow> bool" where
  "is_nonempty_text v \<longleftrightarrow> (case v of JStr s \<Rightarrow> s \<noteq> [] | _ \<Rightarrow> False)"

definition legacy_body_preview :: "pylib \<Rightarrow> obj \<Rightarrow> ustr" where
  "legacy_body_preview L payload =
     (case find (\<lambda>k. is_nonempty_text (get_none payload k)) [''message'', ''text'', ''description''] of
        Some k \<Rightarrow> take 1000 (text_of_json (get_none payload k))
      | None \<Rightarrow>
          (let s = take 1000 (dumps_compact L (JObj payload)) in if s = [] then u ''{}'' else s))"

section \<open>The normalised job\<close>

record job =
  j_request_id :: ustr
  j_route :: ustr
  j_room_id :: int
  j_user_id :: int
  j_room_seq :: "int option"
  j_schema_version :: int
  j_event_type :: ustr
  j_payload :: obj
  j_metadata :: obj
  j_body :: ustr
  j_idem_key :: "ustr option"
  j_retry_count :: int
  j_replay_count :: int
  j_next_retry_at :: "rat option"
  j_queued_at :: "ustr option"
  j_replayed_at :: "ustr option"
  j_payment_id :: "ustr option"

fun json_opt :: "('a \<Rightarrow> json) \<Rightarrow> 'a option \<Rightarrow> json" where
  "json_opt f None = JNull"
| "json_opt f (Some x) = f x"

text \<open>The dictionary \<open>normalized\<close>: optional keys are present only when they have a value.\<close>

definition opt_item :: "string \<Rightarrow> ustr option \<Rightarrow> obj" where
  "opt_item k x = (case x of None \<Rightarrow> [] | Some s \<Rightarrow> [(u k, JStr s)])"

definition job_obj :: "job \<Rightarrow> obj" where
  "job_obj j =
     [(u ''request_id'', JStr (j_request_id j)),
      (u ''route'', JStr (j_route j)),
      (u ''room_id'', JInt (j_room_id j)),
      (u ''user_id'', JInt (j_user_id j)),
      (u ''room_seq'', json_opt JInt (j_room_seq j)),
      (u ''schema_version'', JInt (j_schema_version j)),
      (u ''event_type'', JStr (j_event_type j)),
      (u ''payload'', JObj (j_payload j)),
      (u ''metadata'', JObj (j_metadata j)),
      (u ''body'', JStr (j_body j)),
      (u ''x_idempotency_key'', json_opt JStr (j_idem_key j)),
      (u ''retry_count'', JInt (j_retry_count j)),
      (u ''replay_count'', JInt (j_replay_count j)),
      (u ''next_retry_at'', json_opt (\<lambda>t. JFloat (Fin t)) (j_next_retry_at j))]
     @ opt_item ''queued_at'' (j_queued_at j)
     @ opt_item ''replayed_at'' (j_replayed_at j)
     @ opt_item ''payment_id'' (j_payment_id j)"

section \<open>Ingress validation\<close>

definition validate_alias_pair :: "obj \<Rightarrow> string \<Rightarrow> string \<Rightarrow> exn + unit" where
  "validate_alias_pair d canonical legacy =
     (if has_key d canonical \<and> has_key d legacy
         \<and> (py_type (get_none d canonical) \<noteq> py_type (get_none d legacy)
            \<or> \<not> py_eq (get_none d canonical) (get_none d legacy))
      then Inl (ValueError (u ''Conflicting '' @ u canonical @ u ''/'' @ u legacy))
      else Inr ())"

definition fill_alias :: "string \<Rightarrow> string \<Rightarrow> obj \<Rightarrow> obj" where
  "fill_alias legacy canonical d =
     (if \<not> has_key d legacy \<and> has_key d canonical
      then set_key d legacy (get_none d canonical) else d)"

definition fill_aliases :: "obj \<Rightarrow> obj" where
  "fill_aliases d =
     fill_alias ''room_seq'' ''stream_seq''
       (fill_alias ''user_id'' ''actor_id'' (fill_alias ''room_id'' ''stream_id'' d))"

text \<open>\<open>_INGRESS_ROUTE_RE\<close>: version, resource and stream id of a canonical route.\<close>

datatype resource = Streams | Orders

definition strip_prefix :: "ustr \<Rightarrow> ustr \<Rightarrow> ustr option" where
  "strip_prefix p s = (if starts_with p s then Some (drop (length p) s) else None)"

definition parse_route_tail :: "ustr \<Rightarrow> nat option" where
  "parse_route_tail r =
     (let ds = takeWhile is_digit r
      in if ds \<noteq> [] \<and> hd ds \<noteq> 48 \<and> dropWhile is_digit r = u ''/events''
         then Some (dec_val ds) else None)"

definition parse_route :: "ustr \<Rightarrow> (nat \<times> resource \<times> nat) option" where
  "parse_route s =
     (case strip_prefix (u ''POST:/v'') s of
        Some (c # r) \<Rightarrow>
          if c = 49 \<or> c = 50 then
            (case strip_prefix (u ''/streams/'') r of
               Some t \<Rightarrow> map_option (\<lambda>n. (c - 48, Streams, n)) (parse_route_tail t)
             | None \<Rightarrow>
                 (case strip_prefix (u ''/orders/'') r of
                    Some t \<Rightarrow> map_option (\<lambda>n. (c - 48, Orders, n)) (parse_route_tail t)
                  | None \<Rightarrow> None))
          else None
      | _ \<Rightarrow> None)"

fun schema_version_ok :: "json \<Rightarrow> bool" where
  "schema_version_ok (JInt i) = (1 \<le> i \<and> i \<le> 32767)"
| "schema_version_ok _ = False"

fun require_keys :: "obj \<Rightarrow> string list \<Rightarrow> exn + unit" where
  "require_keys d [] = Inr ()"
| "require_keys d (k # ks) =
     (if has_key d k then require_keys d ks
      else Inl (ValueError (u ''Ingress payload missing '' @ u k)))"

text \<open>Identity, route and schema version (the checks before \<open>schema_version\<close> is stored).\<close>

definition check_identity :: "obj \<Rightarrow> exn + int" where
  "check_identity d =
     rbind (require_keys d [''request_id'', ''route'', ''room_id'', ''user_id'']) (\<lambda>_.
     require (bounded_text 80 (get_none d ''request_id'')) ''Invalid request_id'' (
     require (bounded_text 500 (get_none d ''route'')) ''Invalid route'' (
     require (pos_bigint (get_none d ''room_id'')) ''Invalid room_id'' (
     require (pos_bigint (get_none d ''user_id'')) ''Invalid user_id'' (
     (case parse_route (text_of_json (get_none d ''route'')) of
        None \<Rightarrow> Inl (value_error ''Invalid ingress route'')
      | Some (version, res, stream) \<Rightarrow>
          (let sv = get_or d ''schema_version'' (JInt 1) in
           require (int stream = int_of_json (get_none d ''room_id''))
             ''Ingress route stream does not match room_id'' (
           require (version = 2 \<longrightarrow> res = Streams) ''V2 ingress route must use streams'' (
           require (version = 2 \<longrightarrow> has_key d ''schema_version'')
             ''V2 ingress missing schema_version'' (
           require (schema_version_ok sv) ''Invalid schema_version'' (
           require (version = 2 \<longrightarrow> int_of_json sv = 2) ''V2 ingress requires schema_version 2'' (
           Inr (int_of_json sv)))))))))))))"

text \<open>The payload presence checks and the envelope.\<close>

definition check_envelope :: "pylib \<Rightarrow> obj \<Rightarrow> int \<Rightarrow> exn + ustr \<times> obj \<times> obj" where
  "check_envelope L d sv =
     (if 2 \<le> sv then
        require (has_key d ''payload'') ''Generic ingress missing payload'' (event_envelope L d)
      else
        require (has_key d ''payload'' \<or> has_key d ''body'') ''Ingress payload missing payload''
          (event_envelope L d))"

definition optional :: "(json \<Rightarrow> bool) \<Rightarrow> json \<Rightarrow> bool" where
  "optional ok v \<longleftrightarrow> v = JNull \<or> ok v"

fun payment_text :: "json \<Rightarrow> bool" where
  "payment_text (JStr s) = (length s \<le> 80 \<and> \<not> has_nul s)"
| "payment_text _ = False"

text \<open>\<open>_validated_iso_timestamp\<close> of a present value: an aware ISO timestamp with a finite
  epoch value.\<close>

definition iso_timestamp :: "pylib \<Rightarrow> json \<Rightarrow> bool" where
  "iso_timestamp L v \<longleftrightarrow> bounded_text 64 v \<and>
     (case fromiso L (text_of_json v) of Some (Some t) \<Rightarrow> isfinite t | _ \<Rightarrow> False)"

fun opt_int :: "json \<Rightarrow> int option" where
  "opt_int (JInt i) = Some i"
| "opt_int _ = None"

fun opt_text :: "json \<Rightarrow> ustr option" where
  "opt_text (JStr s) = Some s"
| "opt_text _ = None"

definition check_rest :: "pylib \<Rightarrow> obj \<Rightarrow> int \<Rightarrow> ustr \<Rightarrow> obj \<Rightarrow> obj \<Rightarrow> exn + job" where
  "check_rest L d sv et p m =
     require (optional (bounded_text 128) (get_none d ''x_idempotency_key''))
       ''Invalid x_idempotency_key'' (
     require (optional pos_bigint (get_none d ''room_seq'')) ''Invalid room_seq'' (
     require (nonneg_bigint (get_or d ''retry_count'' (JInt 0))) ''Invalid retry_count'' (
     require (nonneg_bigint (get_or d ''replay_count'' (JInt 0))) ''Invalid replay_count'' (
     require (get_none d ''next_retry_at'' = JNull) ''Ingress next_retry_at must be null'' (
     require (optional (iso_timestamp L) (get_none d ''queued_at'')) ''Invalid queued_at'' (
     require (optional (iso_timestamp L) (get_none d ''replayed_at'')) ''Invalid replayed_at'' (
     require (optional payment_text (get_none d ''payment_id'')) ''Invalid payment_id'' (
     Inr \<lparr>j_request_id = text_of_json (get_none d ''request_id''),
          j_route = text_of_json (get_none d ''route''),
          j_room_id = int_of_json (get_none d ''room_id''),
          j_user_id = int_of_json (get_none d ''user_id''),
          j_room_seq = opt_int (get_none d ''room_seq''),
          j_schema_version = sv, j_event_type = et, j_payload = p, j_metadata = m,
          j_body = text_of_json (get_none d ''body''),
          j_idem_key = opt_text (get_none d ''x_idempotency_key''),
          j_retry_count = int_of_json (get_or d ''retry_count'' (JInt 0)),
          j_replay_count = int_of_json (get_or d ''replay_count'' (JInt 0)),
          j_next_retry_at = None,
          j_queued_at = opt_text (get_none d ''queued_at''),
          j_replayed_at = opt_text (get_none d ''replayed_at''),
          j_payment_id = opt_text (get_none d ''payment_id'')\<rparr>))))))))"

definition store_envelope :: "pylib \<Rightarrow> obj \<Rightarrow> ustr \<Rightarrow> obj \<Rightarrow> obj \<Rightarrow> obj" where
  "store_envelope L d et p m =
     set_key (set_key (set_key (set_key d ''event_type'' (JStr et)) ''payload'' (JObj p))
       ''metadata'' (JObj m)) ''body'' (JStr (legacy_body_preview L p))"

definition validate_ingress_payload :: "pylib \<Rightarrow> json \<Rightarrow> json \<times> (exn + job)" where
  "validate_ingress_payload L v =
     (case v of
        JObj d \<Rightarrow>
          (case rbind (validate_alias_pair d ''stream_id'' ''room_id'') (\<lambda>_.
                rbind (validate_alias_pair d ''actor_id'' ''user_id'') (\<lambda>_.
                validate_alias_pair d ''stream_seq'' ''room_seq'')) of
             Inl e \<Rightarrow> (v, Inl e)
           | Inr _ \<Rightarrow>
               (let d1 = fill_aliases d in
                case check_identity d1 of
                  Inl e \<Rightarrow> (JObj d1, Inl e)
                | Inr sv \<Rightarrow>
                    (let d2 = set_key d1 ''schema_version'' (JInt sv) in
                     case check_envelope L d2 sv of
                       Inl e \<Rightarrow> (JObj d2, Inl e)
                     | Inr (et, p, m) \<Rightarrow>
                         (let d3 = store_envelope L d2 et p m in
                          (JObj d3, check_rest L d3 sv et p m)))))
      | _ \<Rightarrow> (v, Inl (value_error ''Ingress payload must be a JSON object'')))"

section \<open>Well-formed jobs\<close>

definition job_generic :: "job \<Rightarrow> bool" where
  "job_generic j \<longleftrightarrow> 2 \<le> j_schema_version j \<or> starts_with (u ''POST:/v2/'') (j_route j)"

definition job_route_ok :: "job \<Rightarrow> bool" where
  "job_route_ok j \<longleftrightarrow>
     (case parse_route (j_route j) of
        None \<Rightarrow> False
      | Some (version, res, stream) \<Rightarrow>
          int stream = j_room_id j \<and> (version = 2 \<longrightarrow> res = Streams \<and> j_schema_version j = 2))"

definition job_identity_ok :: "job \<Rightarrow> bool" where
  "job_identity_ok j \<longleftrightarrow>
     bounded_text 80 (JStr (j_request_id j)) \<and> bounded_text 500 (JStr (j_route j))
     \<and> pos_bigint (JInt (j_room_id j)) \<and> pos_bigint (JInt (j_user_id j))
     \<and> job_route_ok j \<and> schema_version_ok (JInt (j_schema_version j))"

definition envelope_ok :: "pylib \<Rightarrow> bool \<Rightarrow> ustr \<Rightarrow> obj \<Rightarrow> obj \<Rightarrow> bool" where
  "envelope_ok L generic et p m \<longleftrightarrow>
     bounded_text 50 (JStr et) \<and> (generic \<longrightarrow> is_generic_event_type et)
     \<and> json_ok max_json_nesting_depth (JObj p) \<and> json_ok max_json_nesting_depth (JObj m)
     \<and> json_bytes L (JObj p) \<le> 65536 \<and> json_bytes L (JObj m) \<le> 16384"

definition job_rest_ok :: "pylib \<Rightarrow> job \<Rightarrow> bool" where
  "job_rest_ok L j \<longleftrightarrow>
     optional (bounded_text 128) (json_opt JStr (j_idem_key j))
     \<and> optional pos_bigint (json_opt JInt (j_room_seq j))
     \<and> nonneg_bigint (JInt (j_retry_count j)) \<and> nonneg_bigint (JInt (j_replay_count j))
     \<and> j_next_retry_at j = None
     \<and> optional (iso_timestamp L) (json_opt JStr (j_queued_at j))
     \<and> optional (iso_timestamp L) (json_opt JStr (j_replayed_at j))
     \<and> optional payment_text (json_opt JStr (j_payment_id j))"

definition job_wf :: "pylib \<Rightarrow> job \<Rightarrow> bool" where
  "job_wf L j \<longleftrightarrow> job_identity_ok j
     \<and> envelope_ok L (job_generic j) (j_event_type j) (j_payload j) (j_metadata j)
     \<and> j_body j = legacy_body_preview L (j_payload j) \<and> job_rest_ok L j"

lemma job_generic_is_v2: "job_generic j \<longleftrightarrow>
    at_least_two (JInt (j_schema_version j)) \<or> is_v2_route_value (JStr (j_route j))"
  by (simp add: job_generic_def)

subsection \<open>Accepted payloads are well formed\<close>

lemma event_envelope_Inr:
  assumes "event_envelope L d = Inr (et, p, m)"
  shows "envelope_ok L (is_generic_envelope d) et p m"
  using assms
  by (auto simp: event_envelope_def envelope_ok_def rbind_eq_Inr require_eq_Inr
      bounded_text_JStr is_dict_JObj split: prod.splits)

lemma optional_opt_text:
  "optional (bounded_text n) v \<Longrightarrow> json_opt JStr (opt_text v) = v"
  "optional (iso_timestamp L) v \<Longrightarrow> json_opt JStr (opt_text v) = v"
  "optional payment_text v \<Longrightarrow> json_opt JStr (opt_text v) = v"
  by (cases v; auto simp: optional_def iso_timestamp_def)+

lemma optional_opt_int: "optional pos_bigint v \<Longrightarrow> json_opt JInt (opt_int v) = v"
  by (cases v) (auto simp: optional_def)

lemma check_identity_Inr:
  assumes "check_identity d = Inr sv"
  obtains rid rt room user ver res where
    "get_key d ''request_id'' = Some (JStr rid)" "bounded_text 80 (JStr rid)"
    "get_key d ''route'' = Some (JStr rt)" "bounded_text 500 (JStr rt)"
    "get_key d ''room_id'' = Some (JInt room)" "pos_bigint (JInt room)"
    "get_key d ''user_id'' = Some (JInt user)" "pos_bigint (JInt user)"
    "parse_route rt = Some (ver, res, nat room)" "ver = 2 \<longrightarrow> res = Streams \<and> sv = 2"
    "get_or d ''schema_version'' (JInt 1) = JInt sv" "1 \<le> sv" "sv \<le> 32767"
proof -
  from assms obtain rid rt room user where
    keys: "has_key d ''request_id''" "has_key d ''route''" "has_key d ''room_id''"
      "has_key d ''user_id''"
    and vals: "get_none d ''request_id'' = JStr rid" "get_none d ''route'' = JStr rt"
      "get_none d ''room_id'' = JInt room" "get_none d ''user_id'' = JInt user"
    and ok: "bounded_text 80 (JStr rid)" "bounded_text 500 (JStr rt)"
      "pos_bigint (JInt room)" "pos_bigint (JInt user)"
    by (auto simp: check_identity_def rbind_eq_Inr require_eq_Inr bounded_text_JStr
        pos_bigint_JInt split: if_splits)
  have "parse_route rt \<noteq> None"
    using assms vals by (intro notI) (simp add: check_identity_def rbind_eq_Inr require_eq_Inr)
  then obtain ver res stream where pr: "parse_route rt = Some (ver, res, stream)" by auto
  from assms vals pr have st: "int stream = room"
    and v2: "ver = 2 \<longrightarrow> res = Streams"
      "ver = 2 \<longrightarrow> int_of_json (get_or d ''schema_version'' (JInt 1)) = 2"
    and sv: "schema_version_ok (get_or d ''schema_version'' (JInt 1))"
      "sv = int_of_json (get_or d ''schema_version'' (JInt 1))"
    by (simp_all add: check_identity_def rbind_eq_Inr require_eq_Inr Let_def) blast
  from sv obtain i where i: "get_or d ''schema_version'' (JInt 1) = JInt i" "1 \<le> i" "i \<le> 32767"
    by (cases "get_or d ''schema_version'' (JInt 1)") auto
  from st have "stream = nat room" by simp
  with that [of rid rt room user ver res] keys vals ok pr v2 sv i show thesis
    by (auto simp: get_key_present)
qed

lemma check_rest_Inr:
  assumes "check_rest L d sv et p m = Inr j"
  shows "job_rest_ok L j"
    and "j_request_id j = text_of_json (get_none d ''request_id'')"
    and "j_route j = text_of_json (get_none d ''route'')"
    and "j_room_id j = int_of_json (get_none d ''room_id'')"
    and "j_user_id j = int_of_json (get_none d ''user_id'')"
    and "j_schema_version j = sv" "j_event_type j = et" "j_payload j = p" "j_metadata j = m"
    and "j_body j = text_of_json (get_none d ''body'')"
  using assms
  by (auto simp: check_rest_def require_eq_Inr job_rest_ok_def optional_opt_text optional_opt_int
      nonneg_bigint_JInt)

lemma get_store_envelope:
  "get_none (store_envelope L d et p m) ''body'' = JStr (legacy_body_preview L p)"
  "k \<notin> {''event_type'', ''payload'', ''metadata'', ''body''} \<Longrightarrow>
     get_none (store_envelope L d et p m) k = get_none d k"
  by (auto simp: store_envelope_def)

lemma validate_Inr_wf:
  assumes "validate_ingress_payload L v = (w, Inr j)"
  shows "job_wf L j"
proof -
  obtain d where v: "v = JObj d"
    using assms by (cases v) (auto simp: validate_ingress_payload_def)
  let ?d1 = "fill_aliases d"
  from assms v obtain sv where sv: "check_identity ?d1 = Inr sv"
    by (auto simp: validate_ingress_payload_def Let_def split: sum.splits prod.splits)
  let ?d2 = "set_key ?d1 ''schema_version'' (JInt sv)"
  from assms v sv obtain et p m where
    env: "check_envelope L ?d2 sv = Inr (et, p, m)"
    and rest: "check_rest L (store_envelope L ?d2 et p m) sv et p m = Inr j"
    by (auto simp: validate_ingress_payload_def Let_def split: sum.splits prod.splits)
  from sv obtain rid rt room user ver res where
    ids: "get_key ?d1 ''request_id'' = Some (JStr rid)" "bounded_text 80 (JStr rid)"
      "get_key ?d1 ''route'' = Some (JStr rt)" "bounded_text 500 (JStr rt)"
      "get_key ?d1 ''room_id'' = Some (JInt room)" "pos_bigint (JInt room)"
      "get_key ?d1 ''user_id'' = Some (JInt user)" "pos_bigint (JInt user)"
      "parse_route rt = Some (ver, res, nat room)" "ver = 2 \<longrightarrow> res = Streams \<and> sv = 2"
      "1 \<le> sv" "sv \<le> 32767"
    by (rule check_identity_Inr)
  have get: "get_none ?d1 k = w" if "get_key ?d1 k = Some w" for k w
    using that by (auto simp: dict_defs)
  note fields = check_rest_Inr [OF rest]
  have j: "j_request_id j = rid" "j_route j = rt" "j_room_id j = room" "j_user_id j = user"
    "j_schema_version j = sv" "j_body j = legacy_body_preview L (j_payload j)"
    using fields get [OF ids(1)] get [OF ids(3)] get [OF ids(5)] get [OF ids(7)]
    by (simp_all add: get_store_envelope)
  have "is_generic_envelope ?d2 \<longleftrightarrow> job_generic j"
    using ids(3) by (simp add: is_generic_envelope_def job_generic_def j dict_defs set_key_def
        map_of_update)
  then have "envelope_ok L (job_generic j) et p m"
    using env event_envelope_Inr [of L ?d2 et p m]
    by (auto simp: check_envelope_def require_eq_Inr split: if_splits)
  moreover have "job_identity_ok j"
    using ids by (auto simp: job_identity_ok_def job_route_ok_def j)
  ultimately show ?thesis using fields(1,7,8,9) j by (simp add: job_wf_def)
qed

subsection \<open>Payloads that present a job\<close>

text \<open>
  \<open>presents L d j\<close>: the dictionary \<open>d\<close> carries the fields of \<open>j\<close>, under their canonical or
  legacy names. It is what producers establish (the API, the dead-letter replayer) and what
  validation reads.
\<close>

definition presents :: "pylib \<Rightarrow> obj \<Rightarrow> job \<Rightarrow> bool" where
  "presents L d j \<longleftrightarrow>
     get_key d ''request_id'' = Some (JStr (j_request_id j))
     \<and> get_key d ''route'' = Some (JStr (j_route j))
     \<and> get_key d ''room_id'' = Some (JInt (j_room_id j))
     \<and> get_key d ''user_id'' = Some (JInt (j_user_id j))
     \<and> (has_key d ''stream_id'' \<longrightarrow> get_none d ''stream_id'' = JInt (j_room_id j))
     \<and> (has_key d ''actor_id'' \<longrightarrow> get_none d ''actor_id'' = JInt (j_user_id j))
     \<and> \<not> has_key d ''stream_seq''
     \<and> get_none d ''room_seq'' = json_opt JInt (j_room_seq j)
     \<and> get_or d ''schema_version'' (JInt 1) = JInt (j_schema_version j)
     \<and> (2 \<le> j_schema_version j \<longrightarrow> has_key d ''schema_version'')
     \<and> (has_key d ''payload'' \<or> j_schema_version j < 2 \<and> has_key d ''body'')
     \<and> event_envelope L (set_key d ''schema_version'' (JInt (j_schema_version j)))
          = Inr (j_event_type j, j_payload j, j_metadata j)
     \<and> get_none d ''x_idempotency_key'' = json_opt JStr (j_idem_key j)
     \<and> get_or d ''retry_count'' (JInt 0) = JInt (j_retry_count j)
     \<and> get_or d ''replay_count'' (JInt 0) = JInt (j_replay_count j)
     \<and> get_none d ''next_retry_at'' = JNull
     \<and> get_none d ''queued_at'' = json_opt JStr (j_queued_at j)
     \<and> get_none d ''replayed_at'' = json_opt JStr (j_replayed_at j)
     \<and> get_none d ''payment_id'' = json_opt JStr (j_payment_id j)"

lemma envelope_ok_structure:
  assumes "envelope_ok L g et p m"
  shows "validate_json_structure (JObj p) = Inr ()" "validate_json_structure (JObj m) = Inr ()"
    "json_bytes L (JObj p) \<le> 65536" "json_bytes L (JObj m) \<le> 16384"
  using assms by (simp_all add: envelope_ok_def del: json_ok.simps)

lemma event_envelope_full:
  assumes "get_key d ''event_type'' = Some (JStr et)" "get_key d ''payload'' = Some (JObj p)"
    "get_key d ''metadata'' = Some (JObj m)" "envelope_ok L (is_generic_envelope d) et p m"
  shows "event_envelope L d = Inr (et, p, m)"
proof -
  from assms(1-3) have "has_key d ''event_type''" "get_none d ''event_type'' = JStr et"
    "has_key d ''payload''" "get_none d ''payload'' = JObj p"
    "has_key d ''metadata''" "get_none d ''metadata'' = JObj m"
    "get_or d ''metadata'' (JObj []) = JObj m"
    by (auto simp: dict_defs)
  then show ?thesis using assms(4) envelope_ok_structure [OF assms(4)]
    by (auto simp: event_envelope_def envelope_event_type_def envelope_payload_def envelope_ok_def
        simp del: json_ok.simps validate_json_structure_ok)
qed

lemma has_key_of_get: "get_key d k = Some v \<Longrightarrow> has_key d k"
  "get_key d k = Some v \<Longrightarrow> get_none d k = v"
  by (auto simp: dict_defs)

lemma validate_alias_pair_ok:
  "\<not> has_key d c \<or> \<not> has_key d l \<or>
     (\<exists>i. get_none d c = JInt i \<and> get_none d l = JInt i) \<Longrightarrow> validate_alias_pair d c l = Inr ()"
  by (auto simp: validate_alias_pair_def)

lemma check_rest_presents:
  assumes rest: "job_rest_ok L j"
    and "get_none d ''request_id'' = JStr (j_request_id j)" "get_none d ''route'' = JStr (j_route j)"
    "get_none d ''room_id'' = JInt (j_room_id j)" "get_none d ''user_id'' = JInt (j_user_id j)"
    "get_none d ''body'' = JStr (j_body j)"
    "get_none d ''room_seq'' = json_opt JInt (j_room_seq j)"
    "get_none d ''x_idempotency_key'' = json_opt JStr (j_idem_key j)"
    "get_or d ''retry_count'' (JInt 0) = JInt (j_retry_count j)"
    "get_or d ''replay_count'' (JInt 0) = JInt (j_replay_count j)"
    "get_none d ''next_retry_at'' = JNull"
    "get_none d ''queued_at'' = json_opt JStr (j_queued_at j)"
    "get_none d ''replayed_at'' = json_opt JStr (j_replayed_at j)"
    "get_none d ''payment_id'' = json_opt JStr (j_payment_id j)"
  shows "check_rest L d (j_schema_version j) (j_event_type j) (j_payload j) (j_metadata j) = Inr j"
proof -
  have opt: "opt_text (json_opt JStr x) = x" "opt_int (json_opt JInt y) = y" for x y
    by (cases x; simp) (cases y; simp)
  from rest show ?thesis
    by (simp add: check_rest_def job_rest_ok_def assms(2-) opt)
qed

lemma validate_presents:
  assumes wf: "job_wf L j" and pr: "presents L d j"
  shows "snd (validate_ingress_payload L (JObj d)) = Inr j"
proof -
  let ?sv = "j_schema_version j"
  let ?d2 = "set_key d ''schema_version'' (JInt ?sv)"
  let ?d3 = "store_envelope L ?d2 (j_event_type j) (j_payload j) (j_metadata j)"
  have keys: "has_key d ''request_id''" "has_key d ''route''" "has_key d ''room_id''"
      "has_key d ''user_id''"
    and gets: "get_none d ''request_id'' = JStr (j_request_id j)"
      "get_none d ''route'' = JStr (j_route j)"
      "get_none d ''room_id'' = JInt (j_room_id j)" "get_none d ''user_id'' = JInt (j_user_id j)"
    using pr by (auto simp: presents_def dest: has_key_of_get)
  have conf: "validate_alias_pair d ''stream_id'' ''room_id'' = Inr ()"
    "validate_alias_pair d ''actor_id'' ''user_id'' = Inr ()"
    "validate_alias_pair d ''stream_seq'' ''room_seq'' = Inr ()"
    using pr gets by (auto simp: presents_def intro!: validate_alias_pair_ok)
  have fill: "fill_aliases d = d"
    using keys pr by (simp add: fill_aliases_def fill_alias_def presents_def)
  obtain ver res stream where route: "parse_route (j_route j) = Some (ver, res, stream)"
      "int stream = j_room_id j" "ver = 2 \<longrightarrow> res = Streams" "ver = 2 \<longrightarrow> ?sv = 2"
    using wf by (auto simp: job_wf_def job_identity_ok_def job_route_ok_def split: option.splits)
  have sv: "get_or d ''schema_version'' (JInt 1) = JInt ?sv"
      "2 \<le> ?sv \<longrightarrow> has_key d ''schema_version''" "1 \<le> ?sv" "?sv \<le> 32767"
    using pr wf by (auto simp: presents_def job_wf_def job_identity_ok_def)
  have "check_identity d = Inr ?sv"
    using wf route keys gets sv
    by (auto simp: check_identity_def job_wf_def job_identity_ok_def Let_def)
  moreover have "check_envelope L ?d2 ?sv = Inr (j_event_type j, j_payload j, j_metadata j)"
    using pr by (auto simp: check_envelope_def presents_def)
  moreover have "check_rest L ?d3 ?sv (j_event_type j) (j_payload j) (j_metadata j) = Inr j"
    using pr gets wf
    by (intro check_rest_presents) (auto simp: presents_def job_wf_def store_envelope_def)
  ultimately show ?thesis
    using conf fill by (simp add: validate_ingress_payload_def Let_def)
qed

subsection \<open>The normalised dictionary\<close>

lemma get_opt_item [simp]:
  "has_key (opt_item a x) k \<longleftrightarrow> a = k \<and> x \<noteq> None"
  "get_none (opt_item a x) k = (if a = k then json_opt JStr x else JNull)"
  "get_or (opt_item a x) k w = (if a = k \<and> x \<noteq> None then json_opt JStr x else w)"
  by (auto simp: opt_item_def text_simps split: option.splits)

lemma job_obj_gets:
  "get_key (job_obj j) ''request_id'' = Some (JStr (j_request_id j))"
  "get_key (job_obj j) ''route'' = Some (JStr (j_route j))"
  "get_key (job_obj j) ''room_id'' = Some (JInt (j_room_id j))"
  "get_key (job_obj j) ''user_id'' = Some (JInt (j_user_id j))"
  "get_key (job_obj j) ''event_type'' = Some (JStr (j_event_type j))"
  "get_key (job_obj j) ''payload'' = Some (JObj (j_payload j))"
  "get_key (job_obj j) ''metadata'' = Some (JObj (j_metadata j))"
  "get_key (job_obj j) ''schema_version'' = Some (JInt (j_schema_version j))"
  "get_none (job_obj j) ''room_seq'' = json_opt JInt (j_room_seq j)"
  "get_none (job_obj j) ''x_idempotency_key'' = json_opt JStr (j_idem_key j)"
  "get_or (job_obj j) ''schema_version'' w = JInt (j_schema_version j)"
  "get_or (job_obj j) ''route'' w = JStr (j_route j)"
  "get_or (job_obj j) ''retry_count'' w = JInt (j_retry_count j)"
  "get_or (job_obj j) ''replay_count'' w = JInt (j_replay_count j)"
  "get_none (job_obj j) ''next_retry_at'' = json_opt (\<lambda>t. JFloat (Fin t)) (j_next_retry_at j)"
  "get_none (job_obj j) ''queued_at'' = json_opt JStr (j_queued_at j)"
  "get_none (job_obj j) ''replayed_at'' = json_opt JStr (j_replayed_at j)"
  "get_none (job_obj j) ''payment_id'' = json_opt JStr (j_payment_id j)"
  "\<not> has_key (job_obj j) ''stream_id''" "\<not> has_key (job_obj j) ''actor_id''"
  "\<not> has_key (job_obj j) ''stream_seq''" "has_key (job_obj j) ''room_seq''"
  "has_key (job_obj j) ''payload''" "has_key (job_obj j) ''schema_version''"
  by (simp_all add: job_obj_def text_simps get_append)

lemma is_generic_job_obj [simp]: "is_generic_envelope (job_obj j) = job_generic j"
  by (simp add: is_generic_envelope_def job_generic_def job_obj_gets)

lemma event_envelope_job_obj:
  assumes "job_wf L j"
  shows "event_envelope L (job_obj j) = Inr (j_event_type j, j_payload j, j_metadata j)"
  using assms by (intro event_envelope_full) (simp_all add: job_obj_gets job_wf_def)

lemma set_key_same: "get_key d k = Some v \<Longrightarrow> set_key d k v = d"
  unfolding get_key_def set_key_def by (induction d) (auto split: if_splits)

lemma presents_job_obj: "job_wf L j \<Longrightarrow> presents L (job_obj j) j"
  by (simp add: presents_def job_obj_gets event_envelope_job_obj set_key_same job_wf_def
      job_rest_ok_def)

text \<open>
  C36: whatever the ingress validation accepts is a well-formed job (bounded identifiers and
  counters, a canonical route that names the job's own stream, a v2 route only with schema
  version 2, an envelope within the size and nesting limits, the recomputed body), and the
  normalised dictionary it returns is accepted again as the very same job, which is what a
  record that travels through the dead-letter topic and back relies on.
\<close>

theorem validate_ingress_payload_normal_form:
  assumes "snd (validate_ingress_payload L v) = Inr j"
  shows "job_wf L j \<and> snd (validate_ingress_payload L (JObj (job_obj j))) = Inr j"
proof -
  have wf: "job_wf L j"
    using assms by (cases "validate_ingress_payload L v") (auto dest: validate_Inr_wf)
  then show ?thesis using validate_presents [OF wf presents_job_obj [OF wf]] by simp
qed

section \<open>A sample record\<close>

text \<open>A concrete record with a redundant canonical name and an unknown field.\<close>

definition sample_lib :: pylib where
  "sample_lib = \<lparr>float_repr = (\<lambda>_. u ''0.5''), loads = (\<lambda>_. None),
     fromiso = (\<lambda>_. Some (Some (Fin 0))), sha256 = (\<lambda>_. [])\<rparr>"

definition sample_payload :: obj where
  "sample_payload =
     [(u ''request_id'', JStr (u ''r1'')), (u ''route'', JStr (u ''POST:/v2/streams/7/events'')),
      (u ''room_id'', JInt 7), (u ''user_id'', JInt 3), (u ''stream_id'', JInt 7),
      (u ''schema_version'', JInt 2), (u ''event_type'', JStr (u ''order.created'')),
      (u ''payload'', JObj [(u ''text'', JStr (u ''hi''))]), (u ''unknown'', JBool True)]"

definition sample_job :: job where
  "sample_job = \<lparr>j_request_id = u ''r1'', j_route = u ''POST:/v2/streams/7/events'',
     j_room_id = 7, j_user_id = 3, j_room_seq = None, j_schema_version = 2,
     j_event_type = u ''order.created'', j_payload = [(u ''text'', JStr (u ''hi''))],
     j_metadata = [], j_body = u ''hi'', j_idem_key = None, j_retry_count = 0,
     j_replay_count = 0, j_next_retry_at = None, j_queued_at = None, j_replayed_at = None,
     j_payment_id = None\<rparr>"

lemma sample_texts [simp]:
  "\<not> has_nul (u ''r1'')" "\<not> has_nul (u ''POST:/v2/streams/7/events'')"
  "\<not> has_nul (u ''order.created'')" "\<not> has_nul (u ''text'')" "\<not> has_nul (u ''hi'')"
  "parse_route (u ''POST:/v2/streams/7/events'') = Some (2, Streams, 7)"
  "is_generic_event_type (u ''order.created'')"
  by (simp_all add: has_nul_def u_def parse_route_def parse_route_tail_def strip_prefix_def
      starts_with_def is_digit_def dec_val_def is_alnum_def event_type_tail_char_def)

lemma sample_body: "legacy_body_preview L [(u ''text'', JStr (u ''hi''))] = u ''hi''"
  by (simp add: legacy_body_preview_def is_nonempty_text_def text_simps)

lemma sample_envelope: "envelope_ok L g (u ''order.created'') [(u ''text'', JStr (u ''hi''))] []"
  by (simp add: envelope_ok_def max_json_nesting_depth_def good_text_def json_bytes_def
      contains_utf16_surrogate_def utf8_len_def dumps_text_def)
    (simp add: u_def)

lemma sample_job_wf: "job_wf L sample_job"
  by (simp add: job_wf_def job_identity_ok_def job_rest_ok_def sample_job_def
      job_route_ok_def sample_body sample_envelope optional_def max_postgres_bigint_def)

lemma sample_presents: "presents L sample_payload sample_job"
proof -
  let ?d = "set_key sample_payload ''schema_version'' (JInt 2)"
  have "event_envelope L ?d = Inr (u ''order.created'', [(u ''text'', JStr (u ''hi''))], [])"
    by (simp add: event_envelope_def envelope_event_type_def envelope_payload_def
        is_generic_envelope_def sample_payload_def text_simps envelope_ok_structure [OF sample_envelope]
        del: validate_json_structure_ok)
  then show ?thesis
    by (simp add: presents_def sample_job_def sample_payload_def text_simps)
qed

lemma sample_accepted: "snd (validate_ingress_payload L (JObj sample_payload)) = Inr sample_job"
  by (rule validate_presents [OF sample_job_wf sample_presents])

theorem validate_ingress_payload_normal_form_witness:
  "job_wf sample_lib sample_job
   \<and> snd (validate_ingress_payload sample_lib (JObj (job_obj sample_job))) = Inr sample_job"
  by (rule validate_ingress_payload_normal_form [OF sample_accepted])

end
