(* ===== verification/Store.thy ===== *)
theory Store
  imports Ingress_Validation
begin

text \<open>
  The PostgreSQL tables the services share (schema of \<open>alembic/versions\<close>), the transactions
  \<open>portfolio/db.py\<close> wraps around every operation, and the invariant of the tables. A
  transaction is atomic; concurrent transactions on the same rows are serialised by the row
  and advisory locks the statements take, so a run of the system is a sequence of them.
  Sequence values (\<open>BIGSERIAL\<close>) are not given back by a rollback.
\<close>

section \<open>Tables\<close>

record message =
  m_id :: int
  m_request_id :: ustr
  m_room_id :: int
  m_user_id :: int
  m_event_type :: "ustr option"
  m_category :: "ustr option"
  m_payment_id :: "ustr option"
  m_schema_version :: int
  m_payload :: "obj option"
  m_metadata :: obj
  m_body :: ustr
  m_room_seq :: int
  m_created_at :: ustr

record user_row =
  usr_id :: int
  usr_name :: ustr
  usr_password_hash :: "ustr option"

record status_row =
  s_user_id :: "int option"
  s_status :: json

record claim_row =
  c_value :: ustr
  c_created_at :: rat

record outbox_row =
  o_message_id :: int
  o_room_id :: int
  o_payload :: obj
  o_created_at :: rat
  o_next_attempt_at :: rat
  o_attempts :: nat
  o_last_error :: "ustr option"
  o_published_at :: "rat option"

record attempt_row =
  a_message_id :: int
  a_room_id :: int
  a_payload :: obj

text \<open>
  \<open>message_ids\<close>, \<open>room_ids\<close> and \<open>user_ids\<close> are the next values of the sequences. Keyed tables
  are partial maps, the other ones lists in insertion order.
\<close>

record db =
  users :: "user_row list"
  user_ids :: int
  rooms :: "(int \<times> ustr) list"
  room_ids :: int
  room_members :: "(int \<times> int) list"
  room_sequences :: "int \<rightharpoonup> int"
  messages :: "message list"
  message_ids :: int
  idempotency_keys :: "ustr \<times> ustr \<rightharpoonup> json"
  request_statuses :: "ustr \<rightharpoonup> status_row"
  intake_keys :: "ustr \<times> ustr \<rightharpoonup> claim_row"
  outbox :: "outbox_row list"
  attempts :: "attempt_row list"
  read_receipts :: "(int \<times> int) list"

definition empty_db :: db where
  "empty_db = \<lparr>users = [], user_ids = 1, rooms = [], room_ids = 1, room_members = [],
     room_sequences = Map.empty, messages = [], message_ids = 1, idempotency_keys = Map.empty,
     request_statuses = Map.empty, intake_keys = Map.empty, outbox = [], attempts = [],
     read_receipts = []\<rparr>"

definition room_exists :: "db \<Rightarrow> int \<Rightarrow> bool" where
  "room_exists db r \<longleftrightarrow> r \<in> fst ` set (rooms db)"

definition user_exists :: "db \<Rightarrow> int \<Rightarrow> bool" where
  "user_exists db i \<longleftrightarrow> i \<in> usr_id ` set (users db)"

definition is_member :: "db \<Rightarrow> int \<Rightarrow> int \<Rightarrow> bool" where
  "is_member db r i \<longleftrightarrow> (r, i) \<in> set (room_members db)"

definition find_request :: "db \<Rightarrow> ustr \<Rightarrow> message option" where
  "find_request db rid = find (\<lambda>m. m_request_id m = rid) (messages db)"

definition find_room_seq :: "db \<Rightarrow> int \<Rightarrow> int \<Rightarrow> message option" where
  "find_room_seq db r s = find (\<lambda>m. m_room_id m = r \<and> m_room_seq m = s) (messages db)"

definition room_messages :: "db \<Rightarrow> int \<Rightarrow> message list" where
  "room_messages db r = filter (\<lambda>m. m_room_id m = r) (messages db)"

definition last_seq :: "db \<Rightarrow> int \<Rightarrow> int" where
  "last_seq db r = (case room_sequences db r of None \<Rightarrow> 0 | Some n \<Rightarrow> n)"

section \<open>JSONB columns\<close>

text \<open>
  What a value reads back as after it was stored in a \<open>jsonb\<close> column is PostgreSQL's
  business (\<open>None\<close> is a data error); the model takes it as a parameter. \<open>jsonb_laws\<close> is what
  the code relies on: keys are kept, text, integers, booleans and null are kept, a nested
  object reads back as it would on its own, and a value read back is stored unchanged.
\<close>

record pg =
  jsonb :: "obj \<Rightarrow> obj option"

fun jsonb_value :: "pg \<Rightarrow> json \<Rightarrow> json \<Rightarrow> bool" where
  "jsonb_value G (JObj f) w = (\<exists>g. w = JObj g \<and> jsonb G f = Some g)"
| "jsonb_value G (JArr xs) w = True"
| "jsonb_value G (JFloat x) w = True"
| "jsonb_value G v w = (w = v)"

definition jsonb_laws :: "pg \<Rightarrow> bool" where
  "jsonb_laws G \<longleftrightarrow>
     (\<forall>d e. jsonb G d = Some e \<longrightarrow>
        (\<forall>k. (map_of d k = None \<longrightarrow> map_of e k = None)
           \<and> (\<forall>v. map_of d k = Some v \<longrightarrow> (\<exists>w. map_of e k = Some w \<and> jsonb_value G v w)))
        \<and> jsonb G e = Some e)"

lemma jsonb_identity [simp]: "jsonb_laws \<lparr>jsonb = Some\<rparr>"
proof -
  have "jsonb_value \<lparr>jsonb = Some\<rparr> v v" for v by (cases v) auto
  then show ?thesis by (auto simp: jsonb_laws_def)
qed

lemma jsonb_idem: "jsonb_laws G \<Longrightarrow> jsonb G d = Some e \<Longrightarrow> jsonb G e = Some e"
  by (simp add: jsonb_laws_def)

lemma jsonb_absent: "jsonb_laws G \<Longrightarrow> jsonb G d = Some e \<Longrightarrow> \<not> has_key d k \<Longrightarrow> \<not> has_key e k"
  by (auto simp: jsonb_laws_def has_key_def)

lemma jsonb_present:
  assumes "jsonb_laws G" "jsonb G d = Some e" "get_key d k = Some v"
  shows "\<exists>w. get_key e k = Some w \<and> jsonb_value G v w"
  using assms by (auto simp: jsonb_laws_def get_key_def)

section \<open>Transactions\<close>

text \<open>
  \<open>with get_conn() as conn: ... conn.commit()\<close>: the body may raise, the connection may be
  lost before the body runs or before the commit, and the acknowledgement of a commit that
  took effect may be lost. Every exit without an applied commit rolls back.
\<close>

datatype tx_fault = Commit_ok | Conn_lost exn | Commit_lost exn | Ack_lost exn

definition rollback :: "db \<Rightarrow> db \<Rightarrow> db" where
  "rollback before after =
     before\<lparr>user_ids := user_ids after, room_ids := room_ids after,
            message_ids := message_ids after\<rparr>"

definition run_tx :: "tx_fault \<Rightarrow> (db \<Rightarrow> db \<times> (exn + 'a)) \<Rightarrow> db \<Rightarrow> db \<times> (exn + 'a)" where
  "run_tx f body db =
     (case f of
        Conn_lost e \<Rightarrow> (db, Inl e)
      | _ \<Rightarrow>
          (case body db of
             (db', Inl e) \<Rightarrow> (rollback db db', Inl e)
           | (db', Inr x) \<Rightarrow>
               (case f of
                  Commit_lost e \<Rightarrow> (rollback db db', Inl e)
                | Ack_lost e \<Rightarrow> (db', Inl e)
                | _ \<Rightarrow> (db', Inr x))))"

lemma run_tx_cases:
  assumes "run_tx f body db = (db', r)"
  obtains (unchanged) e where "r = Inl e" "db' = db"
    | (rolled_back) mid e where "r = Inl e" "body db = (mid, Inl e)" "db' = rollback db mid"
    | (not_committed) mid x e where "r = Inl e" "body db = (mid, Inr x)" "db' = rollback db mid"
        "f = Commit_lost e"
    | (ack_lost) x e where "r = Inl e" "body db = (db', Inr x)" "f = Ack_lost e"
    | (committed) x where "r = Inr x" "body db = (db', Inr x)" "f = Commit_ok"
  using assms
  by (cases f; cases "body db"; cases "snd (body db)") (auto simp: run_tx_def)

lemma run_tx_Inr: "run_tx f body db = (db', Inr x) \<longleftrightarrow> f = Commit_ok \<and> body db = (db', Inr x)"
  by (auto simp: run_tx_def split: tx_fault.splits prod.splits sum.splits)

lemma rollback_simps [simp]:
  "users (rollback a b) = users a" "rooms (rollback a b) = rooms a"
  "room_members (rollback a b) = room_members a"
  "room_sequences (rollback a b) = room_sequences a" "messages (rollback a b) = messages a"
  "idempotency_keys (rollback a b) = idempotency_keys a"
  "request_statuses (rollback a b) = request_statuses a"
  "intake_keys (rollback a b) = intake_keys a" "outbox (rollback a b) = outbox a"
  "attempts (rollback a b) = attempts a" "read_receipts (rollback a b) = read_receipts a"
  "message_ids (rollback a b) = message_ids b" "user_ids (rollback a b) = user_ids b"
  "room_ids (rollback a b) = room_ids b"
  by (simp_all add: rollback_def)

text \<open>Sequencing of statements that may raise.\<close>

definition obind :: "db \<times> (exn + 'a) \<Rightarrow> ('a \<Rightarrow> db \<Rightarrow> db \<times> (exn + 'b)) \<Rightarrow> db \<times> (exn + 'b)" where
  "obind p k = (case p of (db, Inl e) \<Rightarrow> (db, Inl e) | (db, Inr x) \<Rightarrow> k x db)"

lemma obind_simps [simp]: "obind (db, Inl e) k = (db, Inl e)" "obind (db, Inr x) k = k x db"
  by (simp_all add: obind_def)

lemma obind_eq_Inr:
  "obind p k = (db', Inr y) \<longleftrightarrow> (\<exists>mid x. p = (mid, Inr x) \<and> k x mid = (db', Inr y))"
  by (auto simp: obind_def split: prod.splits sum.splits)

lemma obind_cases:
  assumes "obind p k = (db', r)"
  obtains (raised) e where "p = (db', Inl e)" "r = Inl e"
    | (went_on) mid x where "p = (mid, Inr x)" "k x mid = (db', r)"
  using assms by (cases p; cases "snd p") (auto simp: obind_def)

section \<open>The invariant of the tables\<close>

text \<open>
  Identifiers increase along the table, request identifiers are unique, the events of a room
  carry the sequence numbers \<open>1, 2, .., last_seq\<close> in the order of their identifiers, and the
  author of an event is a member of its room. Outbox rows and attempts name an event of the
  room they carry, at most one of each per event.
\<close>

definition messages_ok :: "db \<Rightarrow> bool" where
  "messages_ok db \<longleftrightarrow>
     sorted_wrt (<) (map m_id (messages db))
     \<and> (\<forall>m\<in>set (messages db). 0 < m_id m \<and> m_id m < message_ids db)
     \<and> 0 < message_ids db
     \<and> distinct (map m_request_id (messages db))
     \<and> (\<forall>r. map m_room_seq (room_messages db r) = [1..last_seq db r] \<and> 0 \<le> last_seq db r)
     \<and> (\<forall>m\<in>set (messages db). room_exists db (m_room_id m) \<and> is_member db (m_room_id m) (m_user_id m))"

definition has_target :: "db \<Rightarrow> int \<Rightarrow> int \<Rightarrow> bool" where
  "has_target db i r \<longleftrightarrow> (\<exists>m\<in>set (messages db). m_id m = i \<and> m_room_id m = r)"

definition notifications_ok :: "db \<Rightarrow> bool" where
  "notifications_ok db \<longleftrightarrow>
     distinct (map o_message_id (outbox db))
     \<and> (\<forall>x\<in>set (outbox db). has_target db (o_message_id x) (o_room_id x))
     \<and> distinct (map a_message_id (attempts db))
     \<and> (\<forall>a\<in>set (attempts db). has_target db (a_message_id a) (a_room_id a))"

definition db_ok :: "db \<Rightarrow> bool" where
  "db_ok db \<longleftrightarrow> messages_ok db \<and> notifications_ok db"

lemma db_ok_empty [simp]: "db_ok empty_db"
  by (simp add: db_ok_def messages_ok_def notifications_ok_def empty_db_def room_messages_def
      last_seq_def)

text \<open>What the invariant reads of a state.\<close>

lemma messages_ok_cong:
  assumes "messages db' = messages db" "message_ids db' = message_ids db"
    "room_sequences db' = room_sequences db" "rooms db' = rooms db"
    "room_members db' = room_members db"
  shows "messages_ok db' = messages_ok db"
  by (simp add: messages_ok_def room_messages_def last_seq_def room_exists_def is_member_def assms)

lemma notifications_ok_cong:
  assumes "messages db' = messages db" "outbox db' = outbox db" "attempts db' = attempts db"
  shows "notifications_ok db' = notifications_ok db"
  by (simp add: notifications_ok_def has_target_def assms)

lemma messages_ok_rollback:
  assumes "messages_ok db" "message_ids db \<le> message_ids db'"
  shows "messages_ok (rollback db db')"
  using assms by (force simp: messages_ok_def room_messages_def last_seq_def room_exists_def
      is_member_def)

lemma db_ok_rollback:
  assumes "db_ok db" "message_ids db \<le> message_ids db'"
  shows "db_ok (rollback db db')"
  using assms by (simp add: db_ok_def messages_ok_rollback
      notifications_ok_cong [of "rollback db db'" db])

lemma run_tx_preserves:
  assumes "db_ok db"
    and body: "\<And>mid r. body db = (mid, r) \<Longrightarrow> message_ids db \<le> message_ids mid"
      "\<And>mid x. body db = (mid, Inr x) \<Longrightarrow> db_ok mid"
    and "run_tx f body db = (db', r)"
  shows "db_ok db'"
  using assms(4)
  by (cases rule: run_tx_cases) (use assms(1) body in \<open>auto intro: db_ok_rollback\<close>)

lemma room_seq_bounds:
  assumes "messages_ok db" "m \<in> set (messages db)"
  shows "1 \<le> m_room_seq m \<and> m_room_seq m \<le> last_seq db (m_room_id m)"
proof -
  have "m_room_seq m \<in> set (map m_room_seq (room_messages db (m_room_id m)))"
    using assms(2) by (auto simp: room_messages_def)
  moreover have "map m_room_seq (room_messages db (m_room_id m)) = [1..last_seq db (m_room_id m)]"
    using assms(1) by (simp add: messages_ok_def)
  ultimately show ?thesis by (metis atLeastAtMost_iff set_upto)
qed

lemma room_seq_unique:
  assumes "messages_ok db" "m \<in> set (messages db)" "m' \<in> set (messages db)"
    "m_room_id m = m_room_id m'" "m_room_seq m = m_room_seq m'"
  shows "m = m'"
proof -
  let ?ms = "room_messages db (m_room_id m)"
  have "map m_room_seq ?ms = [1..last_seq db (m_room_id m)]"
    using assms(1) by (simp add: messages_ok_def)
  then have "distinct (map m_room_seq ?ms)" by (metis distinct_upto)
  moreover have "m \<in> set ?ms" "m' \<in> set ?ms" using assms by (auto simp: room_messages_def)
  ultimately show ?thesis using assms(5) by (rule distinct_map_filter_eq)
qed

lemma find_room_seq_None:
  assumes "messages_ok db" "last_seq db r < s"
  shows "find_room_seq db r s = None"
  using assms room_seq_bounds by (fastforce simp: find_room_seq_def find_None_iff)

end
