(* ===== verification/State_Store.thy ===== *)
theory State_Store
  imports Store
begin

text \<open>
  \<open>portfolio/state_store.py\<close>: the durable request statuses (one owner per request) and the
  claims that keep two publishers from replaying the same dead-letter record. A claim is a
  row keyed by request and replay generation whose value says who holds it; it can be taken
  over after a lease of 30 seconds and never after it was marked published.
\<close>

section \<open>Request statuses\<close>

definition bad_request_id :: "ustr \<Rightarrow> bool" where
  "bad_request_id rid \<longleftrightarrow> rid = [] \<or> 80 < length rid \<or> has_nul rid"

definition owner_ok :: "json \<Rightarrow> bool" where
  "owner_ok v \<longleftrightarrow> v = JNull \<or> pos_bigint v"

definition normalized_request_status :: "ustr \<Rightarrow> obj \<Rightarrow> exn + int \<times> obj" where
  "normalized_request_status rid payload =
     require (\<not> bad_request_id rid) ''Invalid request status request_id'' (
     require (get_or payload ''request_id'' (JStr rid) = JStr rid)
       ''Request status request_id mismatch'' (
     let actor = get_none payload ''actor_id''; usr = get_none payload ''user_id'' in
     require (owner_ok actor) ''Invalid request status actor_id'' (
     require (owner_ok usr) ''Invalid request status user_id'' (
     require (\<not> (actor \<noteq> JNull \<and> usr \<noteq> JNull \<and> actor \<noteq> usr))
       ''Conflicting request status actor_id/user_id'' (
     let owner = (if actor \<noteq> JNull then actor else usr) in
     require (owner \<noteq> JNull) ''Request status owner is missing'' (
     let status = set_key (set_key (set_key payload ''request_id'' (JStr rid)) ''user_id'' owner)
                    ''actor_id'' owner in
     rbind (validate_json_wire (JObj status)) (\<lambda>_. Inr (int_of_json owner, status))))))))"

text \<open>
  The upsert statement: an existing row is overwritten only when it has no owner or the same
  owner; otherwise no row is returned and the conflict is raised.
\<close>

definition upsert_request_status :: "pg \<Rightarrow> ustr \<Rightarrow> obj \<Rightarrow> db \<Rightarrow> db \<times> (exn + obj)" where
  "upsert_request_status G rid payload db =
     (case normalized_request_status rid payload of
        Inl e \<Rightarrow> (db, Inl e)
      | Inr (owner, status) \<Rightarrow>
          (case jsonb G status of
             None \<Rightarrow> (db, Inl DataError)
           | Some stored \<Rightarrow>
               (let row = \<lparr>s_user_id = Some owner, s_status = JObj stored\<rparr>;
                    db' = db\<lparr>request_statuses := (request_statuses db)(rid \<mapsto> row)\<rparr> in
                case request_statuses db rid of
                  None \<Rightarrow> (db', Inr status)
                | Some old \<Rightarrow>
                    if s_user_id old = None \<or> s_user_id old = Some owner then (db', Inr status)
                    else (db, Inl (RequestStatusOwnerConflict (u ''Request status owner conflict''))))))"

definition store_request_status :: "pg \<Rightarrow> tx_fault \<Rightarrow> ustr \<Rightarrow> obj \<Rightarrow> db \<Rightarrow> db \<times> (exn + obj)" where
  "store_request_status G f rid payload = run_tx f (upsert_request_status G rid payload)"

text \<open>\<open>load_request_status\<close>; the connection may fail, and a text column is decoded.\<close>

definition load_request_status :: "pylib \<Rightarrow> exn option \<Rightarrow> ustr \<Rightarrow> db \<Rightarrow> exn + json option" where
  "load_request_status L fail rid db =
     (case fail of
        Some e \<Rightarrow> Inl e
      | None \<Rightarrow>
          (case request_statuses db rid of
             None \<Rightarrow> Inr None
           | Some row \<Rightarrow>
               (case s_status row of
                  JStr s \<Rightarrow> (case loads L s of None \<Rightarrow> Inl (value_error ''JSONDecodeError'')
                             | Some v \<Rightarrow> Inr (Some v))
                | v \<Rightarrow> Inr (Some v))))"

subsection \<open>Lemmas\<close>

lemma owner_ok_JInt: "owner_ok v \<Longrightarrow> v \<noteq> JNull \<Longrightarrow> \<exists>i. v = JInt i \<and> 0 < i \<and> i \<le> max_postgres_bigint"
  by (auto simp: owner_ok_def pos_bigint_JInt)

lemma owner_pair:
  assumes "owner_ok a" "owner_ok b" "(if a \<noteq> JNull then a else b) \<noteq> JNull"
  shows "\<exists>i. (if a \<noteq> JNull then a else b) = JInt i \<and> 0 < i"
  using assms owner_ok_JInt [of a] owner_ok_JInt [of b] by (cases "a = JNull") auto

lemma normalized_request_status_Inr:
  assumes "normalized_request_status rid payload = Inr (owner, status)"
  shows "get_none status ''request_id'' = JStr rid" "get_none status ''user_id'' = JInt owner"
    "get_none status ''actor_id'' = JInt owner" "0 < owner" "\<not> bad_request_id rid"
    "k \<notin> {''request_id'', ''user_id'', ''actor_id''} \<Longrightarrow> get_none status k = get_none payload k"
proof -
  let ?a = "get_none payload ''actor_id''" and ?us = "get_none payload ''user_id''"
  let ?o = "if ?a \<noteq> JNull then ?a else ?us"
  have all: "\<not> bad_request_id rid \<and> owner_ok ?a \<and> owner_ok ?us \<and> ?o \<noteq> JNull \<and> owner = int_of_json ?o
      \<and> status = set_key (set_key (set_key payload ''request_id'' (JStr rid)) ''user_id'' ?o)
                    ''actor_id'' ?o"
    using assms unfolding normalized_request_status_def require_eq_Inr rbind_eq_Inr Let_def
    by (auto simp only: sum.inject prod.inject)
  then have ok: "owner_ok ?a" "owner_ok ?us" "?o \<noteq> JNull" "\<not> bad_request_id rid"
    and st: "owner = int_of_json ?o"
      "status = set_key (set_key (set_key payload ''request_id'' (JStr rid)) ''user_id'' ?o)
                    ''actor_id'' ?o"
    by simp_all
  obtain i where "?o = JInt i \<and> 0 < i"
    using owner_pair [OF ok(1-3)] by (rule exE)
  then have o: "?o = JInt i" and i: "0 < i" by - (erule conjunct1, erule conjunct2)
  have own: "owner = i"
    and status: "status = set_key (set_key (set_key payload ''request_id'' (JStr rid)) ''user_id''
        (JInt i)) ''actor_id'' (JInt i)"
    using st unfolding o by simp_all
  show "get_none status ''request_id'' = JStr rid" "get_none status ''user_id'' = JInt owner"
    "get_none status ''actor_id'' = JInt owner" "0 < owner" "\<not> bad_request_id rid"
    "k \<notin> {''request_id'', ''user_id'', ''actor_id''} \<Longrightarrow> get_none status k = get_none payload k"
    using i ok(4) by (auto simp: own status)
qed

text \<open>Either nothing happened, or exactly one status row was written.\<close>

lemma upsert_cases:
  assumes "upsert_request_status G rid payload db = (db', r)"
  obtains (failed) e where "r = Inl e" "db' = db"
    | (stored) owner status saved where "r = Inr status"
        "normalized_request_status rid payload = Inr (owner, status)" "jsonb G status = Some saved"
        "request_statuses db rid = None
          \<or> (\<exists>old. request_statuses db rid = Some old
               \<and> (s_user_id old = None \<or> s_user_id old = Some owner))"
        "db' = db\<lparr>request_statuses :=
           (request_statuses db)(rid \<mapsto> \<lparr>s_user_id = Some owner, s_status = JObj saved\<rparr>)\<rparr>"
proof (cases "normalized_request_status rid payload")
  case (Inl e)
  with assms show ?thesis by (intro failed) (auto simp: upsert_request_status_def)
next
  case (Inr p)
  obtain owner status where p: "p = (owner, status)" by (cases p)
  show ?thesis
  proof (cases "jsonb G status")
    case None
    with assms Inr p show ?thesis by (intro failed) (auto simp: upsert_request_status_def)
  next
    case (Some saved)
    let ?row = "\<lparr>s_user_id = Some owner, s_status = JObj saved\<rparr>"
    let ?db = "db\<lparr>request_statuses := (request_statuses db)(rid \<mapsto> ?row)\<rparr>"
    show ?thesis
    proof (cases "request_statuses db rid")
      case None
      with assms Inr p Some show ?thesis
        by (intro stored [of status owner saved]) (auto simp: upsert_request_status_def Let_def)
    next
      case old: (Some old)
      show ?thesis
      proof (cases "s_user_id old = None \<or> s_user_id old = Some owner")
        case True
        with assms Inr p Some old show ?thesis
          by (intro stored [of status owner saved]) (auto simp: upsert_request_status_def Let_def)
      next
        case False
        with assms Inr p Some old show ?thesis
          by (intro failed) (auto simp: upsert_request_status_def Let_def)
      qed
    qed
  qed
qed

definition owner_of :: "db \<Rightarrow> ustr \<Rightarrow> int option" where
  "owner_of db rid = (case request_statuses db rid of None \<Rightarrow> None | Some row \<Rightarrow> s_user_id row)"

lemma upsert_frame:
  assumes "upsert_request_status G rid payload db = (db', r)"
  shows "\<exists>rs. db' = db\<lparr>request_statuses := rs\<rparr>"
    "rid' \<noteq> rid \<Longrightarrow> request_statuses db' rid' = request_statuses db rid'"
    "owner_of db rid' = Some i \<Longrightarrow> owner_of db' rid' = Some i"
proof -
  show "\<exists>rs. db' = db\<lparr>request_statuses := rs\<rparr>"
    using assms by (cases rule: upsert_cases) (auto intro: exI [of _ "request_statuses db"])
  show "request_statuses db' rid' = request_statuses db rid'" if "rid' \<noteq> rid"
    using assms that by (cases rule: upsert_cases) auto
  show "owner_of db' rid' = Some i" if "owner_of db rid' = Some i"
    using assms that by (cases rule: upsert_cases) (auto simp: owner_of_def)
qed

lemma upsert_db_ok [inv_intros]:
  assumes "upsert_request_status G rid payload db = (db', r)" "db_ok db"
  shows "db_ok db'"
  using upsert_frame(1) [OF assms(1)] assms(2)
  by (auto simp: db_ok_def messages_ok_cong [of "db\<lparr>request_statuses := _\<rparr>" db]
      notifications_ok_cong [of "db\<lparr>request_statuses := _\<rparr>" db])

lemma store_status_cases:
  assumes "store_request_status G f rid payload db = (db', r)"
  shows "(\<exists>rs. db' = db\<lparr>request_statuses := rs\<rparr>)
    \<and> (\<forall>rid'. rid' \<noteq> rid \<longrightarrow> request_statuses db' rid' = request_statuses db rid')
    \<and> (\<forall>rid' i. owner_of db rid' = Some i \<longrightarrow> owner_of db' rid' = Some i)"
proof -
  have undo: "rollback db mid = db" if "upsert_request_status G rid payload db = (mid, q)" for mid q
    using upsert_frame(1) [OF that] by (auto simp: rollback_def)
  from assms show ?thesis unfolding store_request_status_def
  proof (cases rule: run_tx_cases)
    case unchanged
    then show ?thesis by (auto intro: exI [of _ "request_statuses db"])
  next
    case (rolled_back mid e)
    with undo show ?thesis by (auto intro: exI [of _ "request_statuses db"])
  next
    case (not_committed mid x e)
    with undo show ?thesis by (auto intro: exI [of _ "request_statuses db"])
  next
    case (ack_lost x e)
    from upsert_frame [OF ack_lost(2)] show ?thesis by blast
  next
    case (committed x)
    from upsert_frame [OF committed(2)] show ?thesis by blast
  qed
qed

definition status_history ::
    "pg \<Rightarrow> (tx_fault \<times> ustr \<times> obj) list \<Rightarrow> db \<Rightarrow> db" where
  "status_history G ws db = fold (\<lambda>(f, rid, p) db. fst (store_request_status G f rid p db)) ws db"

lemma status_history_owner:
  "owner_of db rid = Some i \<Longrightarrow> owner_of (status_history G ws db) rid = Some i"
proof (induction ws arbitrary: db)
  case Nil
  then show ?case by (simp add: status_history_def)
next
  case (Cons w ws)
  obtain f r p where w: "w = (f, r, p)" by (cases w)
  obtain db' q where st: "store_request_status G f r p db = (db', q)" by fastforce
  have "owner_of db' rid = Some i" using store_status_cases [OF st] Cons.prems by blast
  with Cons.IH [of db'] show ?case by (simp add: status_history_def w st)
qed

text \<open>
  The owner of a request status is decided by its first writer. Whatever status any
  component stores afterwards, for this request or another one, and whatever the transaction
  does (commit, roll back, lose its acknowledgement), a request that had an owner keeps it;
  so a caller that is authorised by the owner of the status stays the only one.
\<close>

theorem request_owner_fixed:
  assumes "snd (store_request_status G Commit_ok rid p db) = Inr status"
  shows "\<exists>i. get_none status ''user_id'' = JInt i
    \<and> owner_of (status_history G ws (fst (store_request_status G Commit_ok rid p db))) rid = Some i"
proof -
  obtain db' where st: "upsert_request_status G rid p db = (db', Inr status)"
    using assms by (cases "store_request_status G Commit_ok rid p db")
      (auto simp: store_request_status_def run_tx_Inr)
  then obtain i where "get_none status ''user_id'' = JInt i" "owner_of db' rid = Some i"
    by (cases rule: upsert_cases)
      (auto simp: owner_of_def dest: normalized_request_status_Inr(2))
  moreover have "fst (store_request_status G Commit_ok rid p db) = db'"
    by (simp add: store_request_status_def run_tx_def st)
  ultimately show ?thesis by (auto intro: status_history_owner)
qed

section \<open>Replay claims\<close>

definition dlq_replay_claim_route :: ustr where
  "dlq_replay_claim_route = u ''POST:/v1/dlq/ingress/replay''"

definition dlq_replay_claim_lease_seconds :: rat where
  "dlq_replay_claim_lease_seconds = 30"

definition validate_replay_claim_identity :: "ustr \<Rightarrow> int \<Rightarrow> exn + unit" where
  "validate_replay_claim_identity rid gen =
     require (\<not> bad_request_id rid) ''Invalid DLQ replay request_id'' (
     rbind (validate_json_structure (JStr rid)) (\<lambda>_.
     require (0 \<le> gen \<and> gen \<le> max_postgres_bigint) ''Invalid DLQ replay generation'' (Inr ())))"

definition dlq_replay_claim_key :: "ustr \<Rightarrow> int \<Rightarrow> exn + ustr" where
  "dlq_replay_claim_key rid gen =
     rbind (validate_replay_claim_identity rid gen) (\<lambda>_. Inr (rid @ [58] @ py_str_int gen))"

definition claimed_value :: "ustr \<Rightarrow> ustr \<Rightarrow> ustr" where
  "claimed_value rid owner = u ''claimed:'' @ owner @ [58] @ rid"

definition dlq_replay_claim_value :: "ustr \<Rightarrow> ustr \<Rightarrow> exn + ustr" where
  "dlq_replay_claim_value rid owner =
     rbind (validate_replay_claim_identity rid 0) (\<lambda>_.
     require (\<not> bad_request_id owner) ''Invalid DLQ replay owner token'' (
     rbind (validate_json_structure (JStr owner)) (\<lambda>_. Inr (claimed_value rid owner))))"

text \<open>Key and value are computed, and validated, before the connection is opened.\<close>

definition claim_args :: "ustr \<Rightarrow> int \<Rightarrow> ustr \<Rightarrow> exn + ustr \<times> ustr" where
  "claim_args rid gen token =
     rbind (dlq_replay_claim_key rid gen) (\<lambda>key.
     rbind (dlq_replay_claim_value rid token) (\<lambda>val. Inr (key, val)))"

datatype claim_state = Already_persisted | Claimed ustr | Already_published | In_progress

text \<open>\<open>status_payload.get('status') == 'persisted'\<close>, the column decoded when it is text.\<close>

definition says_persisted :: "json \<Rightarrow> bool" where
  "says_persisted v \<longleftrightarrow>
     (case v of JObj d \<Rightarrow> get_none d ''status'' = JStr (u ''persisted'') | _ \<Rightarrow> False)"

definition status_persisted :: "pylib \<Rightarrow> db \<Rightarrow> ustr \<Rightarrow> bool" where
  "status_persisted L db rid =
     (case request_statuses db rid of
        None \<Rightarrow> False
      | Some row \<Rightarrow>
          (case s_status row of
             JStr s \<Rightarrow> (case loads L s of None \<Rightarrow> False | Some v \<Rightarrow> says_persisted v)
           | v \<Rightarrow> says_persisted v))"

text \<open>The body of the claim transaction; \<open>now\<close> is the database clock.\<close>

definition claim_body ::
    "pylib \<Rightarrow> ustr \<Rightarrow> ustr \<Rightarrow> ustr \<Rightarrow> ustr \<Rightarrow> rat \<Rightarrow> db \<Rightarrow> db \<times> (exn + claim_state)" where
  "claim_body L rid key val token now db =
     (if status_persisted L db rid then (db, Inr Already_persisted)
      else
        let k = (dlq_replay_claim_route, key);
            db' = db\<lparr>intake_keys := (intake_keys db)(k \<mapsto> \<lparr>c_value = val, c_created_at = now\<rparr>)\<rparr> in
        case intake_keys db k of
          None \<Rightarrow> (db', Inr (Claimed token))
        | Some row \<Rightarrow>
            if starts_with (u ''published:'') (c_value row)
               \<or> \<not> starts_with (u ''claimed:'') (c_value row) then (db, Inr Already_published)
            else if c_created_at row < now - dlq_replay_claim_lease_seconds
            then (db', Inr (Claimed token))
            else (db, Inr In_progress))"

definition claim_dlq_replay ::
    "pylib \<Rightarrow> tx_fault \<Rightarrow> ustr \<Rightarrow> int \<Rightarrow> ustr \<Rightarrow> rat \<Rightarrow> db \<Rightarrow> db \<times> (exn + claim_state)" where
  "claim_dlq_replay L f rid gen token now db =
     (case claim_args rid gen token of
        Inl e \<Rightarrow> (db, Inl e)
      | Inr (key, val) \<Rightarrow> run_tx f (claim_body L rid key val token now) db)"

definition owns_claim :: "db \<Rightarrow> ustr \<Rightarrow> ustr \<Rightarrow> bool" where
  "owns_claim db key val \<longleftrightarrow>
     (case intake_keys db (dlq_replay_claim_route, key) of
        None \<Rightarrow> False | Some row \<Rightarrow> c_value row = val)"

definition mark_body :: "ustr \<Rightarrow> ustr \<Rightarrow> ustr \<Rightarrow> rat \<Rightarrow> db \<Rightarrow> db \<times> (exn + bool)" where
  "mark_body rid key val now db =
     (if owns_claim db key val
      then (db\<lparr>intake_keys := (intake_keys db)((dlq_replay_claim_route, key) \<mapsto>
               \<lparr>c_value = u ''published:'' @ rid, c_created_at = now\<rparr>)\<rparr>, Inr True)
      else (db, Inr False))"

definition mark_dlq_replay_published ::
    "tx_fault \<Rightarrow> ustr \<Rightarrow> int \<Rightarrow> ustr \<Rightarrow> rat \<Rightarrow> db \<Rightarrow> db \<times> (exn + bool)" where
  "mark_dlq_replay_published f rid gen token now db =
     (case claim_args rid gen token of
        Inl e \<Rightarrow> (db, Inl e)
      | Inr (key, val) \<Rightarrow> run_tx f (mark_body rid key val now) db)"

definition release_body :: "ustr \<Rightarrow> ustr \<Rightarrow> db \<Rightarrow> db \<times> (exn + unit)" where
  "release_body key val db =
     (if owns_claim db key val
      then (db\<lparr>intake_keys := (intake_keys db)((dlq_replay_claim_route, key) := None)\<rparr>, Inr ())
      else (db, Inr ()))"

definition release_dlq_replay_claim ::
    "tx_fault \<Rightarrow> ustr \<Rightarrow> int \<Rightarrow> ustr \<Rightarrow> db \<Rightarrow> db \<times> (exn + unit)" where
  "release_dlq_replay_claim f rid gen token db =
     (case claim_args rid gen token of
        Inl e \<Rightarrow> (db, Inl e)
      | Inr (key, val) \<Rightarrow> run_tx f (release_body key val) db)"

subsection \<open>Keys and values\<close>

lemma dec_nat_no_colon: "58 \<notin> set (dec_nat n)"
  using dec_nat_digits [of 58 n] by (auto simp: is_digit_def)

lemma split_last_colon:
  assumes "a @ [58] @ x = b @ [58] @ y" "(58 :: nat) \<notin> set x" "58 \<notin> set y"
  shows "a = b \<and> x = y"
proof -
  have "takeWhile (\<lambda>c. c \<noteq> 58) (rev (a @ [58] @ x)) = rev x"
    "takeWhile (\<lambda>c. c \<noteq> 58) (rev (b @ [58] @ y)) = rev y"
    using assms(2,3) by (simp_all add: takeWhile_append)
  with assms(1) have "x = y" by simp
  with assms(1) show ?thesis by simp
qed

lemma py_str_int_no_colon: "58 \<notin> set (py_str_int g)"
  by (simp add: py_str_int_def dec_nat_no_colon)

lemma py_str_int_inject [simp]: "py_str_int g = py_str_int g' \<longleftrightarrow> g = g'"
proof -
  have minus: "45 # x \<noteq> dec_nat n" for x n
  proof
    assume "45 # x = dec_nat n"
    then have "45 \<in> set (dec_nat n)" by (metis list.set_intros(1))
    then show False using dec_nat_digits [of 45 n] by (simp add: is_digit_def)
  qed
  show ?thesis
    using minus by (auto simp: py_str_int_def dest: sym)
qed

lemma claim_key_inject [simp]:
  "r @ 58 # py_str_int g = r' @ 58 # py_str_int g' \<longleftrightarrow> r = r' \<and> g = g'"
  using split_last_colon [of r "py_str_int g" r' "py_str_int g'"]
  by (auto simp: py_str_int_no_colon)

lemma claimed_value_inject [simp]: "claimed_value r t = claimed_value r t' \<longleftrightarrow> t = t'"
  by (simp add: claimed_value_def)

lemma claimed_value_starts [simp]:
  "starts_with (u ''claimed:'') (claimed_value r t)"
  "\<not> starts_with (u ''published:'') (claimed_value r t)"
  "starts_with (u ''published:'') (u ''published:'' @ r)"
  "u ''published:'' @ r' \<noteq> claimed_value r t"
  by (simp_all add: claimed_value_def starts_with_def u_def)

lemma claim_value_Inr: "dlq_replay_claim_value r t = Inr v \<Longrightarrow> v = claimed_value r t"
  by (auto simp: dlq_replay_claim_value_def rbind_eq_Inr require_eq_Inr)

lemma claim_args_Inr:
  assumes "claim_args r g t = Inr p"
  shows "p = (r @ [58] @ py_str_int g, claimed_value r t)"
  using assms
  by (auto simp: claim_args_def dlq_replay_claim_key_def rbind_eq_Inr dest: claim_value_Inr)

subsection \<open>Histories of claim operations\<close>

text \<open>
  Everything the replayers and the API do to the claims, each with its transaction outcome
  and the database clock.
\<close>

datatype claim_op =
    Op_claim tx_fault ustr int ustr rat
  | Op_mark tx_fault ustr int ustr rat
  | Op_release tx_fault ustr int ustr rat

fun op_time :: "claim_op \<Rightarrow> rat" where
  "op_time (Op_claim _ _ _ _ now) = now"
| "op_time (Op_mark _ _ _ _ now) = now"
| "op_time (Op_release _ _ _ _ now) = now"

fun exec_claim_op :: "pylib \<Rightarrow> claim_op \<Rightarrow> db \<Rightarrow> db" where
  "exec_claim_op L (Op_claim f r g t now) db = fst (claim_dlq_replay L f r g t now db)"
| "exec_claim_op L (Op_mark f r g t now) db = fst (mark_dlq_replay_published f r g t now db)"
| "exec_claim_op L (Op_release f r g t now) db = fst (release_dlq_replay_claim f r g t db)"

definition exec_claim_ops :: "pylib \<Rightarrow> claim_op list \<Rightarrow> db \<Rightarrow> db" where
  "exec_claim_ops L ops db = fold (exec_claim_op L) ops db"

definition claim_row_of :: "db \<Rightarrow> ustr \<Rightarrow> int \<Rightarrow> claim_row option" where
  "claim_row_of db r g = intake_keys db (dlq_replay_claim_route, r @ [58] @ py_str_int g)"

definition published_row :: "claim_row \<Rightarrow> bool" where
  "published_row row \<longleftrightarrow> starts_with (u ''published:'') (c_value row)"

text \<open>Effect of one transaction body on one key, with every outcome of the transaction.\<close>

lemma run_tx_intake:
  assumes "run_tx f body db = (db', q)"
  shows "intake_keys db' = intake_keys db
    \<or> (\<exists>mid x. body db = (mid, Inr x) \<and> intake_keys db' = intake_keys mid)"
  using assms by (cases rule: run_tx_cases) auto

lemma claim_key_Inr: "dlq_replay_claim_key r g = Inr key \<Longrightarrow> key = r @ [58] @ py_str_int g"
  by (auto simp: dlq_replay_claim_key_def rbind_eq_Inr)

definition may_claim :: "rat \<Rightarrow> claim_row option \<Rightarrow> bool" where
  "may_claim now x \<longleftrightarrow>
     (case x of None \<Rightarrow> True
      | Some row \<Rightarrow> \<not> published_row row \<and> c_created_at row < now - dlq_replay_claim_lease_seconds)"

lemma claim_effect:
  assumes "claim_dlq_replay L f r g t now db = (db', q)"
  obtains (kept) "intake_keys db' = intake_keys db" "\<forall>t'. q \<noteq> Inr (Claimed t')"
    | (taken) "may_claim now (claim_row_of db r g)"
        "intake_keys db' = (intake_keys db)((dlq_replay_claim_route, r @ [58] @ py_str_int g) \<mapsto>
            \<lparr>c_value = claimed_value r t, c_created_at = now\<rparr>)"
        "\<forall>t'. q = Inr (Claimed t') \<longrightarrow> t' = t"
proof (cases "claim_args r g t")
  case (Inl e)
  with assms show ?thesis by (intro kept) (auto simp: claim_dlq_replay_def)
next
  case (Inr p)
  then obtain key val where key: "p = (key, val)" "key = r @ [58] @ py_str_int g"
      "val = claimed_value r t"
    using claim_args_Inr by blast
  let ?body = "claim_body L r key val t now"
  have run: "run_tx f ?body db = (db', q)"
    using assms Inr key by (simp add: claim_dlq_replay_def)
  have body: "(intake_keys mid = intake_keys db \<and> (\<forall>t'. x \<noteq> Inr (Claimed t')))
     \<or> (may_claim now (claim_row_of db r g) \<and> x = Inr (Claimed t)
        \<and> intake_keys mid = (intake_keys db)((dlq_replay_claim_route, key) \<mapsto>
            \<lparr>c_value = val, c_created_at = now\<rparr>))"
    if "?body db = (mid, x)" for mid x
    using that
    by (auto simp: claim_body_def Let_def may_claim_def claim_row_of_def published_row_def key
        split: if_splits option.splits)
  from run show ?thesis
  proof (cases rule: run_tx_cases)
    case (ack_lost x e)
    with body [OF ack_lost(2)] key kept taken show ?thesis by auto
  next
    case (committed x)
    with body [OF committed(2)] key kept taken show ?thesis by auto
  qed (use kept in auto)
qed

lemma mark_effect:
  assumes "mark_dlq_replay_published f r g t now db = (db', q)"
  obtains (kept) "intake_keys db' = intake_keys db" "q \<noteq> Inr True"
    | (marked) row where "claim_row_of db r g = Some row" "c_value row = claimed_value r t"
        "intake_keys db' = (intake_keys db)((dlq_replay_claim_route, r @ [58] @ py_str_int g) \<mapsto>
            \<lparr>c_value = u ''published:'' @ r, c_created_at = now\<rparr>)"
proof (cases "claim_args r g t")
  case (Inl e)
  with assms show ?thesis by (intro kept) (auto simp: mark_dlq_replay_published_def)
next
  case (Inr p)
  then obtain key val where kv: "p = (key, val)" "key = r @ [58] @ py_str_int g"
      "val = claimed_value r t"
    using claim_args_Inr by blast
  let ?body = "mark_body r key val now"
  have run: "run_tx f ?body db = (db', q)"
    using assms Inr kv by (simp add: mark_dlq_replay_published_def)
  have body: "(intake_keys mid = intake_keys db \<and> x = Inr False)
     \<or> (\<exists>row. claim_row_of db r g = Some row \<and> c_value row = val
        \<and> intake_keys mid = (intake_keys db)((dlq_replay_claim_route, key) \<mapsto>
            \<lparr>c_value = u ''published:'' @ r, c_created_at = now\<rparr>))"
    if "?body db = (mid, x)" for mid x
    using that
    by (auto simp: mark_body_def owns_claim_def claim_row_of_def kv
        split: if_splits option.splits)
  from run show ?thesis
  proof (cases rule: run_tx_cases)
    case (ack_lost x e)
    with body [OF ack_lost(2)] kv kept marked show ?thesis by auto
  next
    case (committed x)
    with body [OF committed(2)] kv kept marked show ?thesis by auto
  qed (use kept in auto)
qed

lemma release_effect:
  assumes "release_dlq_replay_claim f r g t db = (db', q)"
  obtains (kept) "intake_keys db' = intake_keys db"
    | (released) row where "claim_row_of db r g = Some row" "c_value row = claimed_value r t"
        "intake_keys db' = (intake_keys db)((dlq_replay_claim_route, r @ [58] @ py_str_int g) := None)"
proof (cases "claim_args r g t")
  case (Inl e)
  with assms show ?thesis by (intro kept) (auto simp: release_dlq_replay_claim_def)
next
  case (Inr p)
  then obtain key val where kv: "p = (key, val)" "key = r @ [58] @ py_str_int g"
      "val = claimed_value r t"
    using claim_args_Inr by blast
  have run: "run_tx f (release_body key val) db = (db', q)"
    using assms Inr kv by (simp add: release_dlq_replay_claim_def)
  have body: "intake_keys mid = intake_keys db
     \<or> (\<exists>row. claim_row_of db r g = Some row \<and> c_value row = val
        \<and> intake_keys mid = (intake_keys db)((dlq_replay_claim_route, key) := None))"
    if "release_body key val db = (mid, x)" for mid x
    using that
    by (auto simp: release_body_def owns_claim_def claim_row_of_def kv
        split: if_splits option.splits)
  from run_tx_intake [OF run] show ?thesis
    using body kv kept released by metis
qed

subsection \<open>Exclusion\<close>

text \<open>
  \<open>claim_held a t x\<close>: the row was written at \<open>a\<close> or later by the holder \<open>t\<close>, or the replay was
  published.
\<close>

definition claim_held :: "ustr \<Rightarrow> rat \<Rightarrow> ustr \<Rightarrow> claim_row option \<Rightarrow> bool" where
  "claim_held r a t x \<longleftrightarrow>
     (\<exists>row. x = Some row \<and> (published_row row \<or> c_value row = claimed_value r t \<and> a \<le> c_created_at row))"

definition releases :: "ustr \<Rightarrow> int \<Rightarrow> ustr \<Rightarrow> claim_op \<Rightarrow> bool" where
  "releases r g t op = (case op of Op_release _ r' g' t' _ \<Rightarrow> r' = r \<and> g' = g \<and> t' = t | _ \<Rightarrow> False)"

lemma claim_row_of_upd [simp]:
  "intake_keys db' = (intake_keys db)((dlq_replay_claim_route, r' @ 58 # py_str_int g') := x) \<Longrightarrow>
     claim_row_of db' r g = (if r' = r \<and> g' = g then x else claim_row_of db r g)"
  by (simp add: claim_row_of_def)

lemma claim_row_of_same: "intake_keys db' = intake_keys db \<Longrightarrow> claim_row_of db' = claim_row_of db"
  by (simp add: claim_row_of_def fun_eq_iff)

lemma may_claim_held:
  assumes "may_claim now x" "claim_held r a t x"
  shows "a + dlq_replay_claim_lease_seconds < now"
  using assms by (auto simp: may_claim_def claim_held_def)

lemma claim_op_held:
  assumes "claim_held r a t (claim_row_of db r g)" "\<not> releases r g t op"
    "op_time op \<le> a + dlq_replay_claim_lease_seconds"
  shows "claim_held r a t (claim_row_of (exec_claim_op L op db) r g)"
proof (cases op)
  case (Op_claim f r' g' t' now)
  obtain db' q where run: "claim_dlq_replay L f r' g' t' now db = (db', q)" by fastforce
  from run have "claim_held r a t (claim_row_of db' r g)"
  proof (cases rule: claim_effect)
    case kept
    then show ?thesis using assms(1) claim_row_of_same by metis
  next
    case taken
    show ?thesis
    proof (cases "r' = r \<and> g' = g")
      case True
      with taken(1) assms(1) have "a + dlq_replay_claim_lease_seconds < now"
        by (auto intro: may_claim_held)
      with assms(3) Op_claim show ?thesis by simp
    next
      case False
      then show ?thesis using taken(2) assms(1) by auto
    qed
  qed
  then show ?thesis using Op_claim run by simp
next
  case (Op_mark f r' g' t' now)
  obtain db' q where run: "mark_dlq_replay_published f r' g' t' now db = (db', q)" by fastforce
  from run have "claim_held r a t (claim_row_of db' r g)"
  proof (cases rule: mark_effect)
    case kept
    then show ?thesis using assms(1) claim_row_of_same by metis
  next
    case (marked row)
    then show ?thesis using assms(1) by (auto simp: claim_held_def published_row_def)
  qed
  then show ?thesis using Op_mark run by simp
next
  case (Op_release f r' g' t' now)
  obtain db' q where run: "release_dlq_replay_claim f r' g' t' db = (db', q)" by fastforce
  from run have "claim_held r a t (claim_row_of db' r g)"
  proof (cases rule: release_effect)
    case kept
    then show ?thesis using assms(1) claim_row_of_same by metis
  next
    case (released row)
    have "\<not> (r' = r \<and> g' = g)"
      using released(1,2) assms(1,2) Op_release
      by (auto simp: claim_held_def releases_def published_row_def)
    then show ?thesis using released(3) assms(1) by auto
  qed
  then show ?thesis using Op_release run by simp
qed

lemma claim_ops_held:
  assumes "claim_held r a t (claim_row_of db r g)" "\<forall>op\<in>set ops. \<not> releases r g t op"
    "\<forall>op\<in>set ops. op_time op \<le> a + dlq_replay_claim_lease_seconds"
  shows "claim_held r a t (claim_row_of (exec_claim_ops L ops db) r g)"
  using assms by (induction ops arbitrary: db) (simp_all add: exec_claim_ops_def claim_op_held)

lemma published_op:
  assumes "claim_row_of db r g = Some row" "published_row row"
  shows "claim_row_of (exec_claim_op L op db) r g = Some row"
proof (cases op)
  case (Op_claim f r' g' t' now)
  obtain db' q where run: "claim_dlq_replay L f r' g' t' now db = (db', q)" by fastforce
  from run have "claim_row_of db' r g = Some row"
    by (cases rule: claim_effect)
      (use assms in \<open>auto simp: may_claim_def dest: claim_row_of_same\<close>)
  then show ?thesis using Op_claim run by simp
next
  case (Op_mark f r' g' t' now)
  obtain db' q where run: "mark_dlq_replay_published f r' g' t' now db = (db', q)" by fastforce
  from run have "claim_row_of db' r g = Some row"
    by (cases rule: mark_effect)
      (use assms in \<open>auto simp: published_row_def dest: claim_row_of_same\<close>)
  then show ?thesis using Op_mark run by simp
next
  case (Op_release f r' g' t' now)
  obtain db' q where run: "release_dlq_replay_claim f r' g' t' db = (db', q)" by fastforce
  from run have "claim_row_of db' r g = Some row"
    by (cases rule: release_effect)
      (use assms in \<open>auto simp: published_row_def dest: claim_row_of_same\<close>)
  then show ?thesis using Op_release run by simp
qed

lemma published_ops:
  assumes "claim_row_of db r g = Some row" "published_row row"
  shows "claim_row_of (exec_claim_ops L ops db) r g = Some row"
  using assms by (induction ops arbitrary: db) (simp_all add: exec_claim_ops_def published_op)

text \<open>
  C22: two publishers never hold the same replay claim at once. After a claim was granted at
  time \<open>a\<close>, and whatever claims, marks and releases happen after it (committed, rolled back or
  with a lost acknowledgement) as long as the holder does not release it, the same request and
  generation is granted again only when the lease of 30 seconds has passed since \<open>a\<close>; so a
  publisher that finishes within the lease was the only one.
\<close>

theorem replay_claim_exclusive:
  assumes "claim_dlq_replay L Commit_ok r g t a db = (db1, Inr (Claimed t))"
    and "\<forall>op\<in>set ops. \<not> releases r g t op"
    and "\<forall>op\<in>set ops. op_time op \<le> b"
    and "claim_dlq_replay L f r g t' b (exec_claim_ops L ops db1) = (db2, Inr (Claimed t'))"
  shows "a + dlq_replay_claim_lease_seconds < b"
proof (rule ccontr)
  assume "\<not> a + dlq_replay_claim_lease_seconds < b"
  then have b: "b \<le> a + dlq_replay_claim_lease_seconds" by simp
  have "claim_held r a t (claim_row_of db1 r g)"
    using assms(1) by (cases rule: claim_effect) (auto simp: claim_held_def)
  then have held: "claim_held r a t (claim_row_of (exec_claim_ops L ops db1) r g)"
    using assms(2,3) b by (intro claim_ops_held) auto
  from assms(4) have "may_claim b (claim_row_of (exec_claim_ops L ops db1) r g)"
    by (cases rule: claim_effect) auto
  from may_claim_held [OF this held] b show False by simp
qed

text \<open>
  A replay generation is published at most once. Once the holder has marked its claim
  published, no later history of claim operations, however its transactions end, lets the
  same request and generation be claimed again.
\<close>

theorem replay_published_terminal:
  assumes "mark_dlq_replay_published Commit_ok r g t a db = (db1, Inr True)"
  shows "snd (claim_dlq_replay L f r g t' b (exec_claim_ops L ops db1)) \<noteq> Inr (Claimed t'')"
proof -
  from assms obtain row where row: "claim_row_of db1 r g = Some row" "published_row row"
    by (cases rule: mark_effect) (auto simp: published_row_def)
  obtain db2 q where run: "claim_dlq_replay L f r g t' b (exec_claim_ops L ops db1) = (db2, q)"
    by fastforce
  from run show ?thesis
    by (cases rule: claim_effect)
      (use published_ops [OF row, of L ops] row(2) run in \<open>auto simp: may_claim_def\<close>)
qed

section \<open>Concrete instances\<close>

definition claimed_db :: "ustr \<Rightarrow> ustr \<Rightarrow> rat \<Rightarrow> db" where
  "claimed_db r t a = empty_db\<lparr>intake_keys := [(dlq_replay_claim_route, r @ [58] @ py_str_int 0) \<mapsto>
     \<lparr>c_value = claimed_value r t, c_created_at = a\<rparr>]\<rparr>"

lemma sample_id_checks:
  "validate_json_structure (JStr (u ''r1'')) = Inr ()"
  "validate_json_structure (JStr (u ''t1'')) = Inr ()"
  "validate_json_structure (JStr (u ''t2'')) = Inr ()"
  "bad_request_id (u ''r1'') = False" "bad_request_id (u ''t1'') = False"
  "bad_request_id (u ''t2'') = False"
  by (simp_all add: good_text_def contains_utf16_surrogate_def bad_request_id_def has_nul_def u_def)

lemma sample_claim_args:
  "claim_args (u ''r1'') 0 (u ''t1'') = Inr (u ''r1'' @ [58] @ py_str_int 0, claimed_value (u ''r1'') (u ''t1''))"
  "claim_args (u ''r1'') 0 (u ''t2'') = Inr (u ''r1'' @ [58] @ py_str_int 0, claimed_value (u ''r1'') (u ''t2''))"
  by (simp_all add: claim_args_def dlq_replay_claim_key_def dlq_replay_claim_value_def
      validate_replay_claim_identity_def sample_id_checks max_postgres_bigint_def
      del: validate_json_structure_ok)

lemma sample_claim:
  "claim_dlq_replay L Commit_ok (u ''r1'') 0 (u ''t1'') 0 empty_db
     = (claimed_db (u ''r1'') (u ''t1'') 0, Inr (Claimed (u ''t1'')))"
  by (simp add: claim_dlq_replay_def sample_claim_args run_tx_def claim_body_def status_persisted_def
      claimed_db_def empty_db_def)

lemma sample_takeover:
  "claim_dlq_replay L Commit_ok (u ''r1'') 0 (u ''t2'') 31 (claimed_db (u ''r1'') (u ''t1'') 0)
     = (claimed_db (u ''r1'') (u ''t2'') 31, Inr (Claimed (u ''t2'')))"
  by (simp add: claim_dlq_replay_def sample_claim_args run_tx_def claim_body_def status_persisted_def
      claimed_db_def empty_db_def dlq_replay_claim_lease_seconds_def)

theorem replay_claim_exclusive_witness: "(0 :: rat) + dlq_replay_claim_lease_seconds < 31"
proof (rule replay_claim_exclusive [OF sample_claim [of sample_lib], where ops = "[]"])
  show "claim_dlq_replay sample_lib Commit_ok (u ''r1'') 0 (u ''t2'') 31
      (exec_claim_ops sample_lib [] (claimed_db (u ''r1'') (u ''t1'') 0))
    = (claimed_db (u ''r1'') (u ''t2'') 31, Inr (Claimed (u ''t2'')))"
    by (simp add: exec_claim_ops_def sample_takeover)
qed simp_all

theorem replay_published_terminal_witness:
  "snd (claim_dlq_replay sample_lib Commit_ok (u ''r1'') 0 (u ''t2'') 100
     (exec_claim_ops sample_lib []
        (fst (mark_dlq_replay_published Commit_ok (u ''r1'') 0 (u ''t1'') 1
                (claimed_db (u ''r1'') (u ''t1'') 0)))))
   \<noteq> Inr (Claimed (u ''t2''))"
proof (rule replay_published_terminal)
  show "mark_dlq_replay_published Commit_ok (u ''r1'') 0 (u ''t1'') 1 (claimed_db (u ''r1'') (u ''t1'') 0)
    = (fst (mark_dlq_replay_published Commit_ok (u ''r1'') 0 (u ''t1'') 1
                (claimed_db (u ''r1'') (u ''t1'') 0)), Inr True)"
    by (simp add: mark_dlq_replay_published_def sample_claim_args run_tx_def mark_body_def
        owns_claim_def claimed_db_def)
qed

definition sample_status :: obj where
  "sample_status = [(u ''status'', JStr (u ''queued'')), (u ''user_id'', JInt 3)]"

lemma sample_status_normalized:
  "normalized_request_status (u ''r1'') sample_status
     = Inr (3, sample_status @ [(u ''request_id'', JStr (u ''r1'')), (u ''actor_id'', JInt 3)])"
proof -
  have ok: "validate_json_wire (JObj (sample_status @ [(u ''request_id'', JStr (u ''r1'')),
      (u ''actor_id'', JInt 3)])) = Inr ()"
    by (simp add: max_json_wire_nesting_depth_def good_text_def contains_utf16_surrogate_def
        has_nul_def sample_status_def u_def)
  then show ?thesis
    by (simp add: normalized_request_status_def sample_id_checks sample_status_def text_simps
        owner_ok_def max_postgres_bigint_def set_key_def Let_def del: validate_json_structure_ok)
qed

theorem request_owner_fixed_witness:
  "\<exists>i. get_none (sample_status @ [(u ''request_id'', JStr (u ''r1'')), (u ''actor_id'', JInt 3)])
          ''user_id'' = JInt i
    \<and> owner_of (status_history \<lparr>jsonb = Some\<rparr> [(Commit_ok, u ''r1'', [(u ''user_id'', JInt 4)])]
        (fst (store_request_status \<lparr>jsonb = Some\<rparr> Commit_ok (u ''r1'') sample_status empty_db)))
        (u ''r1'') = Some i"
  by (rule request_owner_fixed)
    (simp add: store_request_status_def run_tx_def upsert_request_status_def
      sample_status_normalized empty_db_def)

end
