(* ===== verification/Persistence.thy ===== *)
theory Persistence
  imports State_Store
begin

text \<open>
  \<open>worker/main.py\<close>, the transaction that makes an ingress job durable:
  \<open>_message_row_response\<close>, \<open>_validated_idempotency_response\<close>, \<open>_persist_message_with_cursor\<close>,
  \<open>persisted_status_payload\<close>, \<open>notification_attempt_payload\<close> and \<open>persist_ingress_job\<close>, with
  \<open>enqueue_notification\<close> of \<open>worker/outbox.py\<close> and the order classification it uses. The
  statements run on the tables of \<open>Store\<close>; an exception of any of them leaves the
  transaction to be rolled back.
\<close>

section \<open>Responses\<close>

definition event_type_or_legacy :: "ustr option \<Rightarrow> ustr" where
  "event_type_or_legacy x = (case x of Some (c # cs) \<Rightarrow> c # cs | _ \<Rightarrow> u ''legacy.message'')"

definition message_row_response :: "message \<Rightarrow> ustr option \<Rightarrow> obj" where
  "message_row_response m persisted_at =
     [(u ''id'', JInt (m_id m)),
      (u ''request_id'', JStr (m_request_id m)),
      (u ''status'', JStr (u ''persisted'')),
      (u ''room_id'', JInt (m_room_id m)),
      (u ''room_seq'', JInt (m_room_seq m)),
      (u ''user_id'', JInt (m_user_id m)),
      (u ''actor_id'', JInt (m_user_id m)),
      (u ''body'', JStr (m_body m)),
      (u ''event_type'', JStr (event_type_or_legacy (m_event_type m))),
      (u ''category'', json_opt JStr (m_category m)),
      (u ''payment_id'', json_opt JStr (m_payment_id m)),
      (u ''schema_version'', JInt (if m_schema_version m = 0 then 1 else m_schema_version m)),
      (u ''payload'', (case m_payload m of Some p \<Rightarrow> JObj p
                       | None \<Rightarrow> JObj [(u ''text'', JStr (m_body m))])),
      (u ''metadata'', JObj (m_metadata m)),
      (u ''created_at'', JStr (m_created_at m))]
     @ opt_item ''persisted_at'' persisted_at"

fun short_text :: "nat \<Rightarrow> json \<Rightarrow> bool" where
  "short_text n (JStr s) = (length s \<le> n)"
| "short_text n _ = False"

text \<open>A cached response is replayed only when it is complete and belongs to the caller.\<close>

definition valid_cached_response :: "pylib \<Rightarrow> int \<Rightarrow> int \<Rightarrow> obj \<Rightarrow> bool" where
  "valid_cached_response L usr room d \<longleftrightarrow>
     list_all (\<lambda>k. pos_bigint (get_none d k)) [''id'', ''room_id'', ''room_seq'', ''user_id'']
     \<and> get_none d ''user_id'' = JInt usr \<and> get_none d ''room_id'' = JInt room
     \<and> (get_none d ''actor_id'' = JNull
         \<or> pos_bigint (get_none d ''actor_id'') \<and> get_none d ''actor_id'' = get_none d ''user_id'')
     \<and> bounded_text 80 (get_none d ''request_id'')
     \<and> short_text 1000 (get_none d ''body'')
     \<and> is_nonempty_text (get_none d ''created_at'')
     \<and> schema_version_ok (get_or d ''schema_version'' (JInt 1))
     \<and> (case event_envelope L d of Inr _ \<Rightarrow> True | Inl _ \<Rightarrow> False)"

definition validated_idempotency_response :: "pylib \<Rightarrow> int \<Rightarrow> int \<Rightarrow> json option \<Rightarrow> obj option" where
  "validated_idempotency_response L usr room cached =
     (case cached of
        Some (JObj d) \<Rightarrow> if valid_cached_response L usr room d then Some d else None
      | _ \<Rightarrow> None)"

section \<open>Order classification\<close>

definition order_event_category_map :: "(ustr \<times> ustr) list" where
  "order_event_category_map =
     [(u ''payment_completed'', u ''payment''), (u ''payment_failed'', u ''payment''),
      (u ''order_created'', u ''order''), (u ''order_cancelled'', u ''order''),
      (u ''delivery_started'', u ''delivery''), (u ''delivery_delayed'', u ''delivery''),
      (u ''refund_requested'', u ''refund''), (u ''refund_completed'', u ''refund''),
      (u ''support_requested'', u ''support'')]"

definition classify_order_event :: "ustr \<Rightarrow> ustr" where
  "classify_order_event et =
     (case map_of order_event_category_map et of None \<Rightarrow> u ''needs_review'' | Some c \<Rightarrow> c)"

definition compatibility_text :: "json \<Rightarrow> nat \<Rightarrow> ustr option" where
  "compatibility_text v n =
     (case v of JStr s \<Rightarrow> if s = [] \<or> n < length s then None else Some s | _ \<Rightarrow> None)"

text \<open>Category, payment id and metadata as the persistence boundary recomputes them.\<close>

definition is_order_route :: "ustr \<Rightarrow> bool" where
  "is_order_route r \<longleftrightarrow> starts_with (u ''POST:/v1/orders/'') r"

definition order_columns ::
    "job \<Rightarrow> ustr \<Rightarrow> obj \<Rightarrow> ustr option \<times> ustr option \<times> obj" where
  "order_columns j et md =
     (if is_order_route (j_route j) then
        let category = classify_order_event et;
            md' = set_key md ''classification'' (JStr category);
            refs = get_none md' ''external_references'';
            pay = compatibility_text (get_none (job_obj j) ''payment_id'') 80;
            pay' = (case pay of
                      Some p \<Rightarrow> Some p
                    | None \<Rightarrow>
                        (case refs of JObj d \<Rightarrow> compatibility_text (get_none d ''payment'') 80
                         | _ \<Rightarrow> None))
        in (Some category, pay', md')
      else (None, None, md))"

section \<open>Persisting the event\<close>

text \<open>The clocks a transaction reads: the database's and the worker's.\<close>

record stamps =
  st_created :: ustr
  st_clock :: rat
  st_persisted :: ustr
  st_after :: ustr

definition idempotency_route :: "job \<Rightarrow> ustr" where
  "idempotency_route j = j_route j @ u ''|actor:'' @ py_str_int (j_user_id j)"

text \<open>A key that is present and not empty.\<close>

definition active_key :: "job \<Rightarrow> ustr option" where
  "active_key j = (case j_idem_key j of Some (c # cs) \<Rightarrow> Some (c # cs) | _ \<Rightarrow> None)"

text \<open>
  The actor-scoped row first; a row written under the plain route is adopted when it belongs
  to the caller.
\<close>

definition cached_response :: "pylib \<Rightarrow> pg \<Rightarrow> job \<Rightarrow> db \<Rightarrow> db \<times> (exn + obj option)" where
  "cached_response L G j db =
     (case active_key j of
        None \<Rightarrow> (db, Inr None)
      | Some key \<Rightarrow>
          (case validated_idempotency_response L (j_user_id j) (j_room_id j)
                  (idempotency_keys db (idempotency_route j, key)) of
             Some r \<Rightarrow> (db, Inr (Some r))
           | None \<Rightarrow>
               (case validated_idempotency_response L (j_user_id j) (j_room_id j)
                       (idempotency_keys db (j_route j, key)) of
                  None \<Rightarrow> (db, Inr None)
                | Some r \<Rightarrow>
                    (case jsonb G r of
                       None \<Rightarrow> (db, Inl DataError)
                     | Some stored \<Rightarrow>
                         (db\<lparr>idempotency_keys :=
                            (case idempotency_keys db (idempotency_route j, key) of
                               None \<Rightarrow> (idempotency_keys db)
                                         ((idempotency_route j, key) \<mapsto> JObj stored)
                             | Some _ \<Rightarrow> idempotency_keys db)\<rparr>,
                          Inr (Some r))))))"

definition authorization_error :: "job \<Rightarrow> db \<Rightarrow> exn option" where
  "authorization_error j db =
     (if \<not> room_exists db (j_room_id j) then Some (IngressAuthorizationError (u ''stream_not_found''))
      else if \<not> user_exists db (j_user_id j)
      then Some (IngressAuthorizationError (u ''actor_not_found''))
      else if \<not> is_member db (j_room_id j) (j_user_id j)
      then Some (IngressAuthorizationError (u ''membership_missing''))
      else None)"

text \<open>\<open>INSERT .. ON CONFLICT DO UPDATE .. RETURNING last_seq\<close> on a \<open>bigint\<close> column.\<close>

definition allocate_seq :: "int \<Rightarrow> db \<Rightarrow> db \<times> (exn + int)" where
  "allocate_seq r db =
     (let n = last_seq db r + 1 in
      if max_postgres_bigint < n then (db, Inl DataError)
      else (db\<lparr>room_sequences := (room_sequences db)(r \<mapsto> n)\<rparr>, Inr n))"

definition sequence_message :: "string \<Rightarrow> int \<Rightarrow> int \<Rightarrow> ustr" where
  "sequence_message msg r s =
     u msg @ u '' room_id='' @ py_str_int r @ u '' room_seq='' @ py_str_int s"

text \<open>
  The next value of the identifier sequence, which fails at the end of the \<open>bigint\<close> range; the
  unique indexes of \<open>messages\<close> are checked by the insert.
\<close>

definition insert_message :: "message \<Rightarrow> db \<Rightarrow> db \<times> (exn + message)" where
  "insert_message m db =
     (let m' = m\<lparr>m_id := message_ids db\<rparr>;
          db1 = db\<lparr>message_ids := message_ids db + 1\<rparr> in
      if max_postgres_bigint < message_ids db then (db, Inl DataError)
      else if find_request db (m_request_id m) \<noteq> None
         \<or> find_room_seq db (m_room_id m) (m_room_seq m) \<noteq> None
      then (db1, Inl IntegrityError)
      else (db1\<lparr>messages := messages db @ [m']\<rparr>, Inr m'))"

definition store_idempotency :: "pg \<Rightarrow> job \<Rightarrow> obj \<Rightarrow> db \<Rightarrow> db \<times> (exn + unit)" where
  "store_idempotency G j response db =
     (case active_key j of
        None \<Rightarrow> (db, Inr ())
      | Some key \<Rightarrow>
          (case jsonb G response of
             None \<Rightarrow> (db, Inl DataError)
           | Some stored \<Rightarrow>
               (db\<lparr>idempotency_keys := (idempotency_keys db)
                    ((idempotency_route j, key) \<mapsto> JObj stored)\<rparr>, Inr ())))"

text \<open>Allocating the sequence number and inserting the row (the tail of the function).\<close>

definition insert_event ::
    "pylib \<Rightarrow> pg \<Rightarrow> stamps \<Rightarrow> job \<Rightarrow> ustr \<Rightarrow> obj \<Rightarrow> obj \<Rightarrow> db \<Rightarrow> db \<times> (exn + obj)" where
  "insert_event L G ts j et p md db =
     (let (category, pay, md') = order_columns j et md in
      obind (allocate_seq (j_room_id j) db) (\<lambda>expected db.
      let seq = (case j_room_seq j of None \<Rightarrow> expected | Some n \<Rightarrow> n) in
      if seq < expected then
        (case find_room_seq db (j_room_id j) seq of
           Some dup \<Rightarrow>
             if m_request_id dup = j_request_id j
             then (db, Inr (message_row_response dup None))
             else (db, Inl (ValueError (sequence_message ''Room sequence conflict'' (j_room_id j) seq)))
         | None \<Rightarrow> (db, Inl (ValueError (sequence_message ''Room sequence is stale'' (j_room_id j) seq))))
      else if expected < seq then
        (db, Inl (RoomSequenceGapError (u ''Room sequence gap detected expected='' @ py_str_int expected
                    @ u '' got='' @ py_str_int seq)))
      else
        (case (jsonb G p, jsonb G md') of
           (Some p', Some md'') \<Rightarrow>
             obind (insert_message
                \<lparr>m_id = 0, m_request_id = j_request_id j, m_room_id = j_room_id j,
                 m_user_id = j_user_id j, m_event_type = Some et, m_category = category,
                 m_payment_id = pay, m_schema_version = j_schema_version j,
                 m_payload = Some p', m_metadata = md'', m_body = legacy_body_preview L p,
                 m_room_seq = seq, m_created_at = st_created ts\<rparr> db) (\<lambda>m db.
             let response = message_row_response m None in
             obind (store_idempotency G j response db) (\<lambda>_ db. (db, Inr response)))
         | _ \<Rightarrow> (db, Inl DataError))))"

text \<open>The result carries whether a cached response was replayed (\<open>_idempotency_hit\<close>).\<close>

definition persist_message_with_cursor ::
    "pylib \<Rightarrow> pg \<Rightarrow> stamps \<Rightarrow> job \<Rightarrow> db \<Rightarrow> db \<times> (exn + obj \<times> bool)" where
  "persist_message_with_cursor L G ts j db =
     (case event_envelope L (job_obj j) of
        Inl e \<Rightarrow> (db, Inl e)
      | Inr (et, p, md) \<Rightarrow>
          obind (cached_response L G j db) (\<lambda>cached db.
          case cached of
            Some r \<Rightarrow> (db, Inr (r, True))
          | None \<Rightarrow>
              (case find_request db (j_request_id j) of
                 Some m \<Rightarrow>
                   if m_room_id m \<noteq> j_room_id j \<or> m_user_id m \<noteq> j_user_id j
                   then (db, Inl (IngressAuthorizationError (u ''request_identity_conflict'')))
                   else (db, Inr (message_row_response m None, False))
               | None \<Rightarrow>
                   (case authorization_error j db of
                      Some e \<Rightarrow> (db, Inl e)
                    | None \<Rightarrow> obind (insert_event L G ts j et p md db) (\<lambda>r db. (db, Inr (r, False)))))))"

section \<open>The durable status and the notification\<close>

definition int_or_one :: "json \<Rightarrow> json" where
  "int_or_one v = (if truthy v then JInt (int_of_json v) else JInt 1)"

definition persisted_status_payload :: "pylib \<Rightarrow> ustr \<Rightarrow> obj \<Rightarrow> exn + obj" where
  "persisted_status_payload L rid response =
     rbind (event_envelope L response) (\<lambda>(et, p, md).
     let body = (if truthy (get_none response ''body'') then get_none response ''body''
                 else JStr (legacy_body_preview L p)) in
     Inr ([(u ''request_id'', JStr rid),
           (u ''status'', JStr (u ''persisted'')),
           (u ''message_id'', get_none response ''id''),
           (u ''room_id'', get_none response ''room_id''),
           (u ''room_seq'', get_none response ''room_seq''),
           (u ''user_id'', get_none response ''user_id''),
           (u ''actor_id'', get_none response ''user_id''),
           (u ''body'', body),
           (u ''created_at'', get_none response ''created_at'')]
          @ (if get_none response ''persisted_at'' \<noteq> JNull
             then [(u ''persisted_at'', get_none response ''persisted_at'')] else [])
          @ [(u ''event_type'', JStr et),
             (u ''category'', get_none response ''category''),
             (u ''payment_id'', get_none response ''payment_id''),
             (u ''schema_version'', int_or_one (get_none response ''schema_version'')),
             (u ''payload'', JObj p),
             (u ''metadata'', JObj md)]))"

definition notification_attempt_payload :: "pylib \<Rightarrow> obj \<Rightarrow> exn + obj" where
  "notification_attempt_payload L response =
     rbind (event_envelope L response) (\<lambda>(et, p, md).
     let preview = legacy_body_preview L p in
     Inr [(u ''event_id'', get_none response ''id''),
          (u ''stream_id'', get_none response ''room_id''),
          (u ''message_id'', get_none response ''id''),
          (u ''room_id'', get_none response ''room_id''),
          (u ''event_type'', JStr et),
          (u ''payload_preview'', JStr (take 120 preview)),
          (u ''metadata'', JObj md),
          (u ''body_preview'', JStr (take 30 preview))])"

text \<open>\<open>enqueue_notification\<close>: one row per event, a second insert does nothing.\<close>

definition enqueue_notification :: "pg \<Rightarrow> rat \<Rightarrow> obj \<Rightarrow> db \<Rightarrow> db \<times> (exn + unit)" where
  "enqueue_notification G now payload db =
     (let i = int_of_json (get_none payload ''event_id'');
          r = int_of_json (get_none payload ''stream_id'') in
      case jsonb G payload of
        None \<Rightarrow> (db, Inl DataError)
      | Some stored \<Rightarrow>
          if \<exists>x\<in>set (outbox db). o_message_id x = i then (db, Inr ())
          else (db\<lparr>outbox := outbox db @
                   [\<lparr>o_message_id = i, o_room_id = r, o_payload = stored, o_created_at = now,
                     o_next_attempt_at = now, o_attempts = 0, o_last_error = None,
                     o_published_at = None\<rparr>]\<rparr>, Inr ()))"

definition persist_body :: "pylib \<Rightarrow> pg \<Rightarrow> stamps \<Rightarrow> job \<Rightarrow> db \<Rightarrow> db \<times> (exn + obj)" where
  "persist_body L G ts j db =
     obind (persist_message_with_cursor L G ts j db) (\<lambda>(r, hit) db.
     let response = set_key r ''persisted_at'' (JStr (st_persisted ts)) in
     case persisted_status_payload L (j_request_id j) response of
       Inl e \<Rightarrow> (db, Inl e)
     | Inr status \<Rightarrow>
         obind (upsert_request_status G (j_request_id j) status db) (\<lambda>_ db.
         if hit then (db, Inr response)
         else
           (case notification_attempt_payload L response of
              Inl e \<Rightarrow> (db, Inl e)
            | Inr payload \<Rightarrow>
                obind (enqueue_notification G (st_clock ts) payload db) (\<lambda>_ db. (db, Inr response)))))"

definition persist_ingress_job ::
    "pylib \<Rightarrow> pg \<Rightarrow> tx_fault \<Rightarrow> stamps \<Rightarrow> job \<Rightarrow> db \<Rightarrow> db \<times> (exn + obj)" where
  "persist_ingress_job L G f ts j db =
     (case run_tx f (persist_body L G ts j) db of
        (db', Inl e) \<Rightarrow> (db', Inl e)
      | (db', Inr r) \<Rightarrow> (db', Inr (set_key r ''persisted_at'' (JStr (st_after ts)))))"

section \<open>What the statements change\<close>

text \<open>A replayed response comes from a row of the actor's scope or of the plain route.\<close>

definition cache_hit :: "pylib \<Rightarrow> pg \<Rightarrow> job \<Rightarrow> db \<Rightarrow> obj \<Rightarrow> (ustr \<times> ustr \<rightharpoonup> json) \<Rightarrow> bool" where
  "cache_hit L G j db r ik \<longleftrightarrow>
     valid_cached_response L (j_user_id j) (j_room_id j) r
     \<and> (\<exists>key. active_key j = Some key
         \<and> (idempotency_keys db (idempotency_route j, key) = Some (JObj r) \<and> ik = idempotency_keys db
            \<or> idempotency_keys db (j_route j, key) = Some (JObj r)
              \<and> (\<exists>d. jsonb G r = Some d
                  \<and> ik = (case idempotency_keys db (idempotency_route j, key) of
                            None \<Rightarrow> (idempotency_keys db)((idempotency_route j, key) \<mapsto> JObj d)
                          | Some _ \<Rightarrow> idempotency_keys db))))"

lemma validated_idempotency_Some:
  "validated_idempotency_response L usr room x = Some r \<longleftrightarrow>
     x = Some (JObj r) \<and> valid_cached_response L usr room r"
  by (auto simp: validated_idempotency_response_def split: option.splits json.splits)

lemma cached_response_cases:
  assumes "cached_response L G j db = (db', q)"
  obtains (failed) "q = Inl DataError" "db' = db"
    | (missed) "q = Inr None" "db' = db"
    | (hit) r ik where "q = Inr (Some r)" "cache_hit L G j db r ik"
        "db' = db\<lparr>idempotency_keys := ik\<rparr>"
proof (cases "active_key j")
  case None
  with assms have "q = Inr None \<and> db' = db" by (auto simp: cached_response_def)
  then show thesis using missed by blast
next
  case (Some key)
  let ?v = "\<lambda>rt. validated_idempotency_response L (j_user_id j) (j_room_id j)
                  (idempotency_keys db (rt, key))"
  show thesis
  proof (cases "?v (idempotency_route j)")
    case scoped: (Some r)
    then have "cache_hit L G j db r (idempotency_keys db)"
      using Some by (auto simp: cache_hit_def validated_idempotency_Some)
    moreover have "q = Inr (Some r)" "db' = db" using assms Some scoped
      by (simp_all add: cached_response_def)
    ultimately show thesis using hit by simp
  next
    case scoped: None
    show thesis
    proof (cases "?v (j_route j)")
      case None
      with assms Some scoped have "q = Inr None \<and> db' = db" by (auto simp: cached_response_def)
      then show thesis using missed by blast
    next
      case plain: (Some r)
      show thesis
      proof (cases "jsonb G r")
        case None
        with assms Some scoped plain have "q = Inl DataError \<and> db' = db"
          by (auto simp: cached_response_def)
        then show thesis using failed by blast
      next
        case js: (Some d)
        let ?ik = "case idempotency_keys db (idempotency_route j, key) of
                      None \<Rightarrow> (idempotency_keys db)((idempotency_route j, key) \<mapsto> JObj d)
                    | Some _ \<Rightarrow> idempotency_keys db"
        have "cache_hit L G j db r ?ik"
          using Some plain js by (auto simp: cache_hit_def validated_idempotency_Some)
        moreover have "q = Inr (Some r)" "db' = db\<lparr>idempotency_keys := ?ik\<rparr>"
          using assms Some scoped plain js by (simp_all add: cached_response_def)
        ultimately show thesis using hit by simp
      qed
    qed
  qed
qed

lemma allocate_seq_cases:
  assumes "allocate_seq r db = (db', q)"
  obtains (overflow) "q = Inl DataError" "db' = db"
    | (allocated) "q = Inr (last_seq db r + 1)" "last_seq db r + 1 \<le> max_postgres_bigint"
        "db' = db\<lparr>room_sequences := (room_sequences db)(r \<mapsto> last_seq db r + 1)\<rparr>"
  using assms by (auto simp: allocate_seq_def Let_def split: if_splits)

lemma insert_message_cases:
  assumes "insert_message m db = (db', q)"
  obtains (failed) e where "q = Inl e" "messages db' = messages db"
        "message_ids db \<le> message_ids db'"
    | (inserted) m' where "q = Inr m'" "m' = m\<lparr>m_id := message_ids db\<rparr>"
        "message_ids db \<le> max_postgres_bigint"
        "find_request db (m_request_id m) = None"
        "db' = db\<lparr>message_ids := message_ids db + 1, messages := messages db @ [m']\<rparr>"
  using assms by (auto simp: insert_message_def Let_def split: if_splits)

lemma store_idempotency_cases:
  assumes "store_idempotency G j response db = (db', q)"
  obtains (no_key) "active_key j = None" "q = Inr ()" "db' = db"
    | (failed) "q = Inl DataError" "db' = db"
    | (stored) key d where "active_key j = Some key" "jsonb G response = Some d" "q = Inr ()"
        "db' = db\<lparr>idempotency_keys := (idempotency_keys db)((idempotency_route j, key) \<mapsto> JObj d)\<rparr>"
  using assms by (auto simp: store_idempotency_def split: option.splits)

lemma find_request_dup:
  assumes "find_request db rid = None" "find_room_seq db r s = Some m"
  shows "m_request_id m \<noteq> rid"
  using assms by (auto simp: find_request_def find_room_seq_def find_None_iff dest: find_SomeD)

text \<open>\<open>event_of L G ts j et p md i seq m\<close>: \<open>m\<close> is the row the job is stored as.\<close>

definition event_of ::
    "pylib \<Rightarrow> pg \<Rightarrow> stamps \<Rightarrow> job \<Rightarrow> ustr \<Rightarrow> obj \<Rightarrow> obj \<Rightarrow> int \<Rightarrow> int \<Rightarrow> message \<Rightarrow> bool" where
  "event_of L G ts j et p md i seq m \<longleftrightarrow>
     m_id m = i \<and> m_request_id m = j_request_id j \<and> m_room_id m = j_room_id j
     \<and> m_user_id m = j_user_id j \<and> m_event_type m = Some et
     \<and> m_schema_version m = j_schema_version j \<and> m_body m = legacy_body_preview L p
     \<and> m_room_seq m = seq \<and> m_created_at m = st_created ts
     \<and> (\<exists>p'. m_payload m = Some p' \<and> jsonb G p = Some p')
     \<and> jsonb G (snd (snd (order_columns j et md))) = Some (m_metadata m)
     \<and> m_category m = fst (order_columns j et md)
     \<and> m_payment_id m = fst (snd (order_columns j et md))"

text \<open>The idempotency row written with a new event, if the job carries a key.\<close>

definition keyed_by :: "pg \<Rightarrow> job \<Rightarrow> obj \<Rightarrow> db \<Rightarrow> (ustr \<times> ustr \<rightharpoonup> json) \<Rightarrow> bool" where
  "keyed_by G j response db ik \<longleftrightarrow>
     (case active_key j of
        None \<Rightarrow> ik = idempotency_keys db
      | Some key \<Rightarrow>
          (\<exists>d. jsonb G response = Some d
             \<and> ik = (idempotency_keys db)((idempotency_route j, key) \<mapsto> JObj d)))"

lemma insert_event_cases:
  assumes ins: "insert_event L G ts j et p md db = (db', q)"
    and new: "find_request db (j_request_id j) = None"
  obtains (failed) e where "q = Inl e" "message_ids db \<le> message_ids db'"
    | (inserted) m ik where "q = Inr (message_row_response m None)"
        "event_of L G ts j et p md (message_ids db) (last_seq db (j_room_id j) + 1) m"
        "message_ids db \<le> max_postgres_bigint" "last_seq db (j_room_id j) + 1 \<le> max_postgres_bigint"
        "j_room_seq j = None \<or> j_room_seq j = Some (last_seq db (j_room_id j) + 1)"
        "keyed_by G j (message_row_response m None) db ik"
        "db' = db\<lparr>room_sequences := (room_sequences db)(j_room_id j \<mapsto> last_seq db (j_room_id j) + 1),
             message_ids := message_ids db + 1, messages := messages db @ [m],
             idempotency_keys := ik\<rparr>"
proof -
  let ?n = "last_seq db (j_room_id j) + 1"
  let ?F = "(\<exists>e. q = Inl e) \<and> message_ids db \<le> message_ids db'"
  obtain cat pay md' where oc: "order_columns j et md = (cat, pay, md')"
    by (cases "order_columns j et md") auto
  obtain db1 q1 where al: "allocate_seq (j_room_id j) db = (db1, q1)" by fastforce
  from al show thesis
  proof (cases rule: allocate_seq_cases)
    case overflow
    then have ?F using ins oc al by (auto simp: insert_event_def)
    then show thesis using failed by blast
  next
    case allocated
    let ?seq = "case j_room_seq j of None \<Rightarrow> ?n | Some n \<Rightarrow> n"
    have frame: "messages db1 = messages db" "message_ids db1 = message_ids db"
        "idempotency_keys db1 = idempotency_keys db" "find_request db1 = find_request db"
      by (simp_all add: allocated find_request_def fun_eq_iff)
    consider (less) "?seq < ?n" | (greater) "?n < ?seq"
      | (no_json) "?seq = ?n" "jsonb G p = None \<or> jsonb G md' = None"
      | (equal) p' md'' where "?seq = ?n" "jsonb G p = Some p'" "jsonb G md' = Some md''"
      by (cases "jsonb G p"; cases "jsonb G md'"; linarith?) fastforce+
    then show thesis
    proof cases
      case less
      have "m_request_id m \<noteq> j_request_id j" if "find_room_seq db1 (j_room_id j) ?seq = Some m" for m
        using find_request_dup [OF _ that] new frame(4) by simp
      then have ?F using ins oc al allocated(1) less frame
        by (auto simp: insert_event_def Let_def split: option.splits if_splits)
      then show thesis using failed by blast
    next
      case greater
      then have ?F using ins oc al allocated(1) frame by (auto simp: insert_event_def Let_def)
      then show thesis using failed by blast
    next
      case no_json
      then have ?F using ins oc al allocated(1) frame
        by (auto simp: insert_event_def Let_def split: option.splits)
      then show thesis using failed by blast
    next
      case equal
      let ?row = "\<lparr>m_id = 0, m_request_id = j_request_id j, m_room_id = j_room_id j,
                 m_user_id = j_user_id j, m_event_type = Some et, m_category = cat,
                 m_payment_id = pay, m_schema_version = j_schema_version j,
                 m_payload = Some p', m_metadata = md'', m_body = legacy_body_preview L p,
                 m_room_seq = ?n, m_created_at = st_created ts\<rparr>"
      obtain db2 q2 where im: "insert_message ?row db1 = (db2, q2)" by fastforce
      have step: "(db', q) = obind (db2, q2) (\<lambda>m db.
          obind (store_idempotency G j (message_row_response m None) db)
            (\<lambda>_ db. (db, Inr (message_row_response m None))))"
        using ins oc al allocated(1) equal im by (simp add: insert_event_def Let_def)
      from im show thesis
      proof (cases rule: insert_message_cases)
        case (failed e)
        then have ?F using step frame by simp
        then show thesis using that(1) by blast
      next
        case (inserted m)
        obtain db3 q3 where si:
          "store_idempotency G j (message_row_response m None) db2 = (db3, q3)" by fastforce
        have step': "(db', q) = obind (db3, q3) (\<lambda>_ db. (db, Inr (message_row_response m None)))"
          using step inserted(1) si by simp
        have ev: "event_of L G ts j et p md (message_ids db) ?n m"
          using inserted(2) equal frame oc by (simp add: event_of_def)
        have seq: "j_room_seq j = None \<or> j_room_seq j = Some ?n"
          using equal(1) by (cases "j_room_seq j") auto
        from si show thesis
        proof (cases rule: store_idempotency_cases)
          case no_key
          then show thesis
            using step' that(2) [of m "idempotency_keys db"] ev seq inserted allocated frame
            by (simp add: keyed_by_def)
        next
          case failed
          then have ?F using step' inserted(5) frame by simp
          then show thesis using that(1) by blast
        next
          case (stored key d)
          then show thesis
            using step' that(2) [of m "(idempotency_keys db)((idempotency_route j, key) \<mapsto> JObj d)"]
              ev seq inserted allocated frame
            by (simp add: keyed_by_def)
        qed
      qed
    qed
  qed
qed

text \<open>Everything a successful insertion tells about the new state.\<close>

definition stored_event ::
    "pylib \<Rightarrow> pg \<Rightarrow> stamps \<Rightarrow> job \<Rightarrow> db \<Rightarrow> message \<Rightarrow> (ustr \<times> ustr \<rightharpoonup> json) \<Rightarrow> bool" where
  "stored_event L G ts j db m ik \<longleftrightarrow>
     (\<exists>et p md. event_envelope L (job_obj j) = Inr (et, p, md)
        \<and> event_of L G ts j et p md (message_ids db) (last_seq db (j_room_id j) + 1) m)
     \<and> cached_response L G j db = (db, Inr None)
     \<and> authorization_error j db = None \<and> find_request db (j_request_id j) = None
     \<and> message_ids db \<le> max_postgres_bigint \<and> last_seq db (j_room_id j) + 1 \<le> max_postgres_bigint
     \<and> (j_room_seq j = None \<or> j_room_seq j = Some (last_seq db (j_room_id j) + 1))
     \<and> keyed_by G j (message_row_response m None) db ik"

definition with_event :: "job \<Rightarrow> db \<Rightarrow> message \<Rightarrow> (ustr \<times> ustr \<rightharpoonup> json) \<Rightarrow> db" where
  "with_event j db m ik =
     db\<lparr>room_sequences := (room_sequences db)(j_room_id j \<mapsto> last_seq db (j_room_id j) + 1),
        message_ids := message_ids db + 1, messages := messages db @ [m], idempotency_keys := ik\<rparr>"

lemma persist_message_cases:
  assumes "persist_message_with_cursor L G ts j db = (db', q)"
  obtains (failed) e where "q = Inl e" "message_ids db \<le> message_ids db'"
    | (hit) r ik where "q = Inr (r, True)" "cache_hit L G j db r ik"
        "db' = db\<lparr>idempotency_keys := ik\<rparr>"
    | (existing) m where "q = Inr (message_row_response m None, False)"
        "find_request db (j_request_id j) = Some m" "m_room_id m = j_room_id j"
        "m_user_id m = j_user_id j" "db' = db"
    | (inserted) m ik where "q = Inr (message_row_response m None, False)"
        "stored_event L G ts j db m ik" "db' = with_event j db m ik"
proof (cases "event_envelope L (job_obj j)")
  case (Inl e)
  then have "q = Inl e" "message_ids db \<le> message_ids db'"
    using assms by (auto simp: persist_message_with_cursor_def)
  then show thesis by (rule failed)
next
  case (Inr env)
  obtain et p md where env: "event_envelope L (job_obj j) = Inr (et, p, md)"
    using Inr by (cases env) auto
  obtain db1 q1 where cr: "cached_response L G j db = (db1, q1)" by fastforce
  from cr show thesis
  proof (cases rule: cached_response_cases)
    case failed
    then have "q = Inl DataError" "message_ids db \<le> message_ids db'"
      using assms env cr by (auto simp: persist_message_with_cursor_def)
    then show thesis by (rule that(1))
  next
    case (hit r ik)
    then have "q = Inr (r, True) \<and> db' = db\<lparr>idempotency_keys := ik\<rparr>"
      using assms env cr by (auto simp: persist_message_with_cursor_def)
    then show thesis using that(2) hit(2) by blast
  next
    case missed
    show thesis
    proof (cases "find_request db (j_request_id j)")
      case (Some m)
      show thesis
      proof (cases "m_room_id m = j_room_id j \<and> m_user_id m = j_user_id j")
        case True
        then have "q = Inr (message_row_response m None, False) \<and> db' = db"
          using assms env cr missed Some by (auto simp: persist_message_with_cursor_def)
        then show thesis using that(3) Some True by blast
      next
        case False
        then have "\<exists>e. q = Inl e \<and> message_ids db \<le> message_ids db'"
          using assms env cr missed Some by (auto simp: persist_message_with_cursor_def)
        then show thesis using that(1) by blast
      qed
    next
      case new: None
      show thesis
      proof (cases "authorization_error j db")
        case (Some e)
        then have "q = Inl e \<and> message_ids db \<le> message_ids db'"
          using assms env cr missed new by (auto simp: persist_message_with_cursor_def)
        then show thesis using that(1) by blast
      next
        case None
        obtain db2 q2 where ie: "insert_event L G ts j et p md db = (db2, q2)" by fastforce
        have step: "(db', q) = obind (db2, q2) (\<lambda>r db. (db, Inr (r, False)))"
          using assms env cr missed new None ie by (simp add: persist_message_with_cursor_def)
        from ie new show thesis
        proof (cases rule: insert_event_cases)
          case (failed e)
          then show thesis using step that(1) by simp
        next
          case (inserted m ik)
          have "stored_event L G ts j db m ik"
            unfolding stored_event_def using env None new inserted cr missed by blast
          then show thesis using step inserted(1,7) that(4) by (simp add: with_event_def)
        qed
      qed
    qed
  qed
qed

lemma message_row_gets [simp]:
  "get_none (message_row_response m x) ''id'' = JInt (m_id m)"
  "get_none (message_row_response m x) ''request_id'' = JStr (m_request_id m)"
  "get_none (message_row_response m x) ''status'' = JStr (u ''persisted'')"
  "get_none (message_row_response m x) ''room_id'' = JInt (m_room_id m)"
  "get_none (message_row_response m x) ''room_seq'' = JInt (m_room_seq m)"
  "get_none (message_row_response m x) ''user_id'' = JInt (m_user_id m)"
  "get_none (message_row_response m x) ''actor_id'' = JInt (m_user_id m)"
  "get_none (message_row_response m x) ''body'' = JStr (m_body m)"
  "get_none (message_row_response m x) ''created_at'' = JStr (m_created_at m)"
  "has_key (message_row_response m x) ''id''" "has_key (message_row_response m x) ''room_id''"
  "has_key (message_row_response m x) ''user_id''" "has_key (message_row_response m x) ''room_seq''"
  by (simp_all add: message_row_response_def text_simps)

subsection \<open>The notification intent\<close>

lemma enqueue_cases:
  assumes "enqueue_notification G now payload db = (db', q)"
    and "get_none payload ''event_id'' = JInt i" "get_none payload ''stream_id'' = JInt r"
  obtains (failed) e where "q = Inl e" "db' = db"
    | (present) "q = Inr ()" "db' = db" "\<exists>x\<in>set (outbox db). o_message_id x = i"
    | (added) row where "q = Inr ()" "\<forall>x\<in>set (outbox db). o_message_id x \<noteq> i"
        "o_message_id row = i" "o_room_id row = r" "o_published_at row = None"
        "db' = db\<lparr>outbox := outbox db @ [row]\<rparr>"
proof (cases "jsonb G payload")
  case None
  with assms have "q = Inl DataError \<and> db' = db" by (auto simp: enqueue_notification_def Let_def)
  then show thesis using failed by blast
next
  case (Some stored)
  show thesis
  proof (cases "\<exists>x\<in>set (outbox db). o_message_id x = i")
    case True
    with assms Some have "q = Inr () \<and> db' = db"
      by (auto simp: enqueue_notification_def Let_def)
    then show thesis using present True by blast
  next
    case False
    let ?row = "\<lparr>o_message_id = i, o_room_id = r, o_payload = stored, o_created_at = now,
                     o_next_attempt_at = now, o_attempts = 0, o_last_error = None,
                     o_published_at = None\<rparr>"
    have "q = Inr () \<and> db' = db\<lparr>outbox := outbox db @ [?row]\<rparr>"
      using assms Some False by (simp add: enqueue_notification_def Let_def)
    then show thesis using False by (intro added [of ?row]) auto
  qed
qed

lemma attempt_payload_gets:
  assumes "notification_attempt_payload L response = Inr payload"
  shows "get_none payload ''event_id'' = get_none response ''id''"
    "get_none payload ''stream_id'' = get_none response ''room_id''"
  using assms by (auto simp: notification_attempt_payload_def rbind_eq_Inr Let_def text_simps)

lemma status_payload_gets:
  assumes "persisted_status_payload L rid response = Inr status"
  shows "get_none status ''status'' = JStr (u ''persisted'')"
    "get_none status ''message_id'' = get_none response ''id''"
    "get_none status ''room_id'' = get_none response ''room_id''"
    "get_none status ''user_id'' = get_none response ''user_id''"
    "get_none status ''actor_id'' = get_none response ''user_id''"
    "\<exists>x. event_envelope L response = Inr x"
  using assms by (auto simp: persisted_status_payload_def rbind_eq_Inr Let_def text_simps)

text \<open>
  \<open>notified db i r db'\<close>: the outbox row of the event is there, and nothing else changed.
\<close>

definition notified :: "db \<Rightarrow> int \<Rightarrow> int \<Rightarrow> db \<Rightarrow> bool" where
  "notified db i r db' \<longleftrightarrow>
     db' = db \<and> (\<exists>x\<in>set (outbox db). o_message_id x = i)
     \<or> (\<exists>row. o_message_id row = i \<and> o_room_id row = r \<and> o_published_at row = None
          \<and> (\<forall>x\<in>set (outbox db). o_message_id x \<noteq> i) \<and> db' = db\<lparr>outbox := outbox db @ [row]\<rparr>)"

lemma enqueue_notified:
  assumes "enqueue_notification G now payload db = (db', Inr ())"
    "get_none payload ''event_id'' = JInt i" "get_none payload ''stream_id'' = JInt r"
  shows "notified db i r db'"
  using assms
proof (cases rule: enqueue_cases)
  case present
  then show ?thesis by (simp add: notified_def)
next
  case (added row)
  then show ?thesis unfolding notified_def by blast
qed simp

lemma upsert_message_ids:
  assumes "upsert_request_status G rid payload db = (db', q)"
  shows "message_ids db' = message_ids db"
  using upsert_frame(1) [OF assms] by auto

lemma enqueue_message_ids:
  assumes "enqueue_notification G now payload db = (db', q)"
  shows "message_ids db' = message_ids db"
  using assms by (auto simp: enqueue_notification_def Let_def split: option.splits if_splits)

lemma persist_message_ids:
  assumes "persist_message_with_cursor L G ts j db = (db', q)"
  shows "message_ids db \<le> message_ids db'"
  using assms by (cases rule: persist_message_cases) (auto simp: with_event_def)

lemma persist_body_cases:
  assumes "persist_body L G ts j db = (db', q)"
  obtains (failed) e where "q = Inl e" "message_ids db \<le> message_ids db'"
    | (persisted) mid r hit status mid' saved where
        "persist_message_with_cursor L G ts j db = (mid, Inr (r, hit))"
        "q = Inr (set_key r ''persisted_at'' (JStr (st_persisted ts)))"
        "persisted_status_payload L (j_request_id j)
           (set_key r ''persisted_at'' (JStr (st_persisted ts))) = Inr status"
        "upsert_request_status G (j_request_id j) status mid = (mid', Inr saved)"
        "if hit then db' = mid'
         else \<exists>payload. notification_attempt_payload L
                   (set_key r ''persisted_at'' (JStr (st_persisted ts))) = Inr payload
                \<and> enqueue_notification G (st_clock ts) payload mid' = (db', Inr ())"
proof -
  let ?F = "(\<exists>e. q = Inl e) \<and> message_ids db \<le> message_ids db'"
  obtain mid q1 where pm: "persist_message_with_cursor L G ts j db = (mid, q1)" by fastforce
  note ids1 = persist_message_ids [OF pm]
  show thesis
  proof (cases q1)
    case (Inl e)
    then have ?F using assms pm ids1 by (auto simp: persist_body_def)
    then show thesis using failed by blast
  next
    case (Inr rh)
    obtain r hit where rh: "rh = (r, hit)" by (cases rh)
    let ?r = "set_key r ''persisted_at'' (JStr (st_persisted ts))"
    show thesis
    proof (cases "persisted_status_payload L (j_request_id j) ?r")
      case (Inl e)
      then have "q = Inl e" "db' = mid"
        using assms pm Inr rh by (simp_all add: persist_body_def Let_def)
      then have ?F using ids1 by simp
      then show thesis using failed by blast
    next
      case status: (Inr status)
      obtain mid' q2 where up: "upsert_request_status G (j_request_id j) status mid = (mid', q2)"
        by fastforce
      note ids2 = upsert_message_ids [OF up]
      show thesis
      proof (cases q2)
        case (Inl e)
        then have ?F using assms pm ids1 ids2 Inr rh status up by (auto simp: persist_body_def Let_def)
        then show thesis using failed by blast
      next
        case saved: (Inr saved)
        show thesis
        proof (cases hit)
          case True
          then have "q = Inr ?r \<and> db' = mid'"
            using assms pm Inr rh status up saved by (auto simp: persist_body_def Let_def)
          then show thesis
            by (intro persisted [of mid r hit status mid' saved])
              (use pm Inr rh status up saved True in simp_all)
        next
          case False
          show thesis
          proof (cases "notification_attempt_payload L ?r")
            case (Inl e)
            then have "q = Inl e" "db' = mid'"
              using assms pm \<open>q1 = Inr rh\<close> rh status up saved False
              by (simp_all add: persist_body_def Let_def)
            then have ?F using ids1 ids2 by simp
            then show thesis using failed by blast
          next
            case payload: (Inr payload)
            obtain db3 q3 where en: "enqueue_notification G (st_clock ts) payload mid' = (db3, q3)"
              by fastforce
            have step: "db' = db3 \<and> q = (case q3 of Inl e \<Rightarrow> Inl e | Inr _ \<Rightarrow> Inr ?r)"
              using assms pm \<open>q1 = Inr rh\<close> rh status up saved False payload en
              by (cases q3) (auto simp: persist_body_def Let_def)
            show thesis
            proof (cases q3)
              case (Inl e)
              then have ?F using step ids1 ids2 enqueue_message_ids [OF en] by auto
              then show thesis using failed by blast
            next
              case (Inr x)
              then show thesis
                by (intro persisted [of mid r hit status mid' saved])
                  (use pm \<open>q1 = Inr rh\<close> rh status up saved False payload en step in simp_all)
            qed
          qed
        qed
      qed
    qed
  qed
qed

lemma persist_body_ids:
  assumes "persist_body L G ts j db = (db', q)"
  shows "message_ids db \<le> message_ids db'"
  using assms
proof (cases rule: persist_body_cases)
  case (persisted mid r hit status mid' saved)
  have "message_ids mid' \<le> message_ids db'"
    using persisted(5) enqueue_message_ids by (auto split: if_splits)
  with persist_message_ids [OF persisted(1)] upsert_message_ids [OF persisted(4)] show ?thesis
    by simp
qed

text \<open>
  The three ways a transaction body succeeds: a cached response is replayed, the event is
  already stored, or it is stored now; in the last two cases its notification is enqueued.
\<close>

lemma persist_body_Inr:
  assumes "persist_body L G ts j db = (db', Inr response)"
  obtains (hit) r ik rs where "cache_hit L G j db r ik"
        "response = set_key r ''persisted_at'' (JStr (st_persisted ts))"
        "db' = db\<lparr>idempotency_keys := ik, request_statuses := rs\<rparr>"
    | (existing) m rs where "find_request db (j_request_id j) = Some m" "m_room_id m = j_room_id j"
        "m_user_id m = j_user_id j"
        "response = set_key (message_row_response m None) ''persisted_at'' (JStr (st_persisted ts))"
        "notified (db\<lparr>request_statuses := rs\<rparr>) (m_id m) (m_room_id m) db'"
    | (inserted) m ik rs where "stored_event L G ts j db m ik"
        "response = set_key (message_row_response m None) ''persisted_at'' (JStr (st_persisted ts))"
        "\<exists>x. event_envelope L response = Inr x"
        "notified ((with_event j db m ik)\<lparr>request_statuses := rs\<rparr>) (m_id m) (m_room_id m) db'"
  using assms
proof (cases rule: persist_body_cases)
  case (failed e)
  then show thesis by simp
next
  case (persisted mid r ht status mid' saved)
  obtain rs where rs: "mid' = mid\<lparr>request_statuses := rs\<rparr>"
    using upsert_frame(1) [OF persisted(4)] by auto
  have resp: "response = set_key r ''persisted_at'' (JStr (st_persisted ts))"
    using persisted(2) by simp
  have noted: "notified mid' i rm db'"
    if "\<not> ht" "get_none r ''id'' = JInt i" "get_none r ''room_id'' = JInt rm" for i rm
  proof -
    from persisted(5) that(1) obtain payload where
      pl: "notification_attempt_payload L response = Inr payload"
        "enqueue_notification G (st_clock ts) payload mid' = (db', Inr ())"
      unfolding resp by (simp only: if_False) blast
    have "get_none payload ''event_id'' = JInt i" "get_none payload ''stream_id'' = JInt rm"
      using attempt_payload_gets [OF pl(1)] that by (simp_all add: resp)
    with pl(2) show ?thesis by (rule enqueue_notified)
  qed
  from persisted(1) show thesis
  proof (cases rule: persist_message_cases)
    case (failed e)
    then show thesis by simp
  next
    case (hit r' ik)
    show thesis
      by (rule that(1) [of r' ik rs]) (use hit resp persisted(5) rs in simp_all)
  next
    case (existing m)
    show thesis
      by (rule that(2) [of m rs]) (use existing resp noted [of "m_id m" "m_room_id m"] rs in simp_all)
  next
    case (inserted m ik)
    show thesis
      by (rule that(3) [of m ik rs])
        (use inserted resp noted [of "m_id m" "m_room_id m"] rs
          status_payload_gets(6) [OF persisted(3)] in simp_all)
  qed
qed

section \<open>The invariant\<close>

lemma notified_frame:
  assumes "notified db i r db'"
  shows "\<exists>ob. db' = db\<lparr>outbox := ob\<rparr>" "\<exists>x\<in>set (outbox db'). o_message_id x = i"
    "set (outbox db) \<subseteq> set (outbox db')"
  using assms by (auto simp: notified_def intro: exI [of _ "outbox db"])

lemma notified_ok:
  assumes "notified db i r db'" "notifications_ok db" "has_target db i r"
  shows "notifications_ok db'"
  using assms(1) unfolding notified_def
proof (elim disjE exE conjE)
  fix row
  assume row: "o_message_id row = i" "o_room_id row = r" "\<forall>x\<in>set (outbox db). o_message_id x \<noteq> i"
    and db': "db' = db\<lparr>outbox := outbox db @ [row]\<rparr>"
  have "i \<notin> o_message_id ` set (outbox db)" using row(3) by blast
  moreover have "has_target db' = has_target db" by (simp add: db' has_target_def fun_eq_iff)
  ultimately show ?thesis using assms(2,3) row(1,2) by (simp add: notifications_ok_def db')
qed (use assms(2) in simp)

lemma room_messages_with_event:
  "room_messages (with_event j db m ik) r =
     room_messages db r @ (if m_room_id m = r then [m] else [])"
  by (simp add: room_messages_def with_event_def)

lemma last_seq_with_event:
  "last_seq (with_event j db m ik) r =
     (if r = j_room_id j then last_seq db r + 1 else last_seq db r)"
  by (simp add: last_seq_def with_event_def)

lemma with_event_fields [simp]:
  "messages (with_event j db m ik) = messages db @ [m]"
  "message_ids (with_event j db m ik) = message_ids db + 1"
  "outbox (with_event j db m ik) = outbox db" "attempts (with_event j db m ik) = attempts db"
  "rooms (with_event j db m ik) = rooms db" "room_members (with_event j db m ik) = room_members db"
  "idempotency_keys (with_event j db m ik) = ik"
  "request_statuses (with_event j db m ik) = request_statuses db"
  "users (with_event j db m ik) = users db" "intake_keys (with_event j db m ik) = intake_keys db"
  by (simp_all add: with_event_def)

lemma find_request_None: "find_request db rid = None \<longleftrightarrow> rid \<notin> m_request_id ` set (messages db)"
  by (auto simp: find_request_def find_None_iff)

lemma stored_event_fields:
  assumes "stored_event L G ts j db m ik"
  shows "m_id m = message_ids db" "m_request_id m = j_request_id j" "m_room_id m = j_room_id j"
    "m_user_id m = j_user_id j" "m_room_seq m = last_seq db (j_room_id j) + 1"
    "find_request db (j_request_id j) = None" "room_exists db (j_room_id j)"
    "is_member db (j_room_id j) (j_user_id j)"
  using assms
  by (auto simp: stored_event_def event_of_def authorization_error_def split: if_splits)

lemma messages_ok_with_event:
  assumes "stored_event L G ts j db m ik" "messages_ok db"
  shows "messages_ok (with_event j db m ik)"
proof -
  note f = stored_event_fields [OF assms(1)]
  let ?db = "with_event j db m ik"
  have old: "\<forall>x\<in>set (messages db). 0 < m_id x \<and> m_id x < message_ids db" "0 < message_ids db"
    "\<forall>x\<in>set (messages db). room_exists db (m_room_id x) \<and> is_member db (m_room_id x) (m_user_id x)"
    using assms(2) by (simp_all add: messages_ok_def)
  have seqs: "map m_room_seq (room_messages db r) = [1..last_seq db r]" "0 \<le> last_seq db r" for r
    using assms(2) by (simp_all add: messages_ok_def)
  have ids: "sorted_wrt (<) (map m_id (messages ?db))"
    using assms(2) f(1) old(1) by (auto simp: messages_ok_def sorted_wrt_append)
  have bound: "\<forall>x\<in>set (messages ?db). 0 < m_id x \<and> m_id x < message_ids ?db"
    using f(1) old(1,2) by auto
  have reqs: "distinct (map m_request_id (messages ?db))"
    using assms(2) f(2,6) by (auto simp: messages_ok_def find_request_None)
  have room: "map m_room_seq (room_messages ?db r) = [1..last_seq ?db r] \<and> 0 \<le> last_seq ?db r" for r
    using seqs [of r] f(3,5) upto_rec2 [of 1 "last_seq db r + 1"]
    by (auto simp: room_messages_with_event last_seq_with_event)
  have auth: "\<forall>x\<in>set (messages ?db). room_exists ?db (m_room_id x)
      \<and> is_member ?db (m_room_id x) (m_user_id x)"
    using old(3) f(3,4,7,8) by (simp add: room_exists_def is_member_def)
  show ?thesis
    using ids bound old(2) reqs room auth by (simp add: messages_ok_def)
qed

lemma notifications_ok_more_messages:
  assumes "notifications_ok db" "set (messages db) \<subseteq> set (messages db')"
    "outbox db' = outbox db" "attempts db' = attempts db"
  shows "notifications_ok db'"
  using assms by (force simp: notifications_ok_def has_target_def)

text \<open>Every event has its notification intent.\<close>

definition outbox_complete :: "db \<Rightarrow> bool" where
  "outbox_complete db \<longleftrightarrow>
     (\<forall>m\<in>set (messages db). \<exists>x\<in>set (outbox db). o_message_id x = m_id m)"

definition store_ok :: "db \<Rightarrow> bool" where
  "store_ok db \<longleftrightarrow> db_ok db \<and> outbox_complete db"

lemma store_ok_cong:
  assumes "messages db' = messages db" "message_ids db' = message_ids db"
    "room_sequences db' = room_sequences db" "rooms db' = rooms db"
    "room_members db' = room_members db" "outbox db' = outbox db" "attempts db' = attempts db"
  shows "store_ok db' = store_ok db"
  using assms
  by (simp add: store_ok_def db_ok_def messages_ok_cong [of db' db] notifications_ok_cong [of db' db]
      outbox_complete_def)

lemma persist_body_ok:
  assumes "persist_body L G ts j db = (db', Inr response)" "store_ok db"
  shows "store_ok db'"
  using assms(1)
proof (cases rule: persist_body_Inr)
  case (hit r ik rs)
  then show ?thesis using assms(2) store_ok_cong [of db' db] by simp
next
  case (existing m rs)
  let ?mid = "db\<lparr>request_statuses := rs\<rparr>"
  have ok: "store_ok ?mid" using assms(2) store_ok_cong [of ?mid db] by simp
  have "m \<in> set (messages ?mid)" using existing(1) by (auto simp: find_request_def dest: find_SomeD)
  then have "has_target ?mid (m_id m) (m_room_id m)" by (auto simp: has_target_def)
  with notified_ok [OF existing(5)] ok have "notifications_ok db'"
    by (simp add: store_ok_def db_ok_def)
  moreover obtain ob where ob: "db' = ?mid\<lparr>outbox := ob\<rparr>" "set (outbox ?mid) \<subseteq> set ob"
    using notified_frame [OF existing(5)] by auto
  moreover have "messages_ok db'"
    using ok ob(1) messages_ok_cong [of db' ?mid] by (simp add: store_ok_def db_ok_def)
  moreover have "outbox_complete db'"
    using ok ob unfolding store_ok_def outbox_complete_def by fastforce
  ultimately show ?thesis by (simp add: store_ok_def db_ok_def)
next
  case (inserted m ik rs)
  let ?mid = "(with_event j db m ik)\<lparr>request_statuses := rs\<rparr>"
  have msgs: "messages_ok ?mid"
    using messages_ok_with_event [OF inserted(1)] assms(2)
      messages_ok_cong [of ?mid "with_event j db m ik"] by (simp add: store_ok_def db_ok_def)
  have "notifications_ok ?mid"
    using assms(2) notifications_ok_more_messages [of db ?mid]
    by (auto simp: store_ok_def db_ok_def)
  moreover have "has_target ?mid (m_id m) (m_room_id m)" by (auto simp: has_target_def)
  ultimately have "notifications_ok db'" using notified_ok [OF inserted(4)] by blast
  moreover obtain ob where ob: "db' = ?mid\<lparr>outbox := ob\<rparr>" "set (outbox ?mid) \<subseteq> set ob"
      "\<exists>x\<in>set ob. o_message_id x = m_id m"
    using notified_frame [OF inserted(4)] by fastforce
  moreover have "messages_ok db'" using msgs ob(1) messages_ok_cong [of db' ?mid] by simp
  moreover have "outbox_complete db'"
    using assms(2) ob unfolding store_ok_def outbox_complete_def by fastforce
  ultimately show ?thesis by (simp add: store_ok_def db_ok_def)
qed

lemma store_ok_rollback:
  "store_ok db \<Longrightarrow> message_ids db \<le> message_ids mid \<Longrightarrow> store_ok (rollback db mid)"
  by (simp add: store_ok_def db_ok_rollback outbox_complete_def)

lemma run_tx_store_ok:
  assumes "store_ok db"
    and body: "\<And>mid r. body db = (mid, r) \<Longrightarrow> message_ids db \<le> message_ids mid"
      "\<And>mid x. body db = (mid, Inr x) \<Longrightarrow> store_ok mid"
    and "run_tx f body db = (db', r)"
  shows "store_ok db'"
  using assms(4)
  by (cases rule: run_tx_cases) (use assms(1) body in \<open>auto intro: store_ok_rollback\<close>)

lemma persist_db:
  "fst (persist_ingress_job L G f ts j db) = fst (run_tx f (persist_body L G ts j) db)"
  by (cases "run_tx f (persist_body L G ts j) db"; cases "snd (run_tx f (persist_body L G ts j) db)")
    (simp_all add: persist_ingress_job_def)

lemma persist_store_ok [inv_intros]:
  assumes "store_ok db"
  shows "store_ok (fst (persist_ingress_job L G f ts j db))"
  unfolding persist_db
  using run_tx_store_ok [OF assms, of "persist_body L G ts j" f] persist_body_ids persist_body_ok assms
  by (metis prod.collapse)

section \<open>Deliveries\<close>

text \<open>
  A history of deliveries to the persistence transaction: the same record may be delivered
  again, and every transaction may fail before, at or after its commit.
\<close>

type_synonym delivery = "tx_fault \<times> stamps \<times> job"

definition deliver :: "pylib \<Rightarrow> pg \<Rightarrow> delivery \<Rightarrow> db \<Rightarrow> db" where
  "deliver L G x db = (case x of (f, ts, j) \<Rightarrow> fst (persist_ingress_job L G f ts j db))"

definition ingest :: "pylib \<Rightarrow> pg \<Rightarrow> delivery list \<Rightarrow> db \<Rightarrow> db" where
  "ingest L G xs db = fold (deliver L G) xs db"

definition delivered_by :: "db \<Rightarrow> delivery list \<Rightarrow> message \<Rightarrow> bool" where
  "delivered_by db xs m \<longleftrightarrow>
     (\<exists>x\<in>set xs. case x of (f, ts, j) \<Rightarrow>
        m_request_id m = j_request_id j \<and> m_room_id m = j_room_id j \<and> m_user_id m = j_user_id j
        \<and> is_member db (j_room_id j) (j_user_id j))"

lemma persist_body_messages:
  assumes "persist_body L G ts j db = (db', Inr response)"
  shows "messages db' = messages db
    \<or> (\<exists>m ik. stored_event L G ts j db m ik \<and> messages db' = messages db @ [m])"
  using assms
proof (cases rule: persist_body_Inr)
  case (existing m rs)
  then show ?thesis using notified_frame(1) [OF existing(5)] by auto
next
  case (inserted m ik rs)
  then show ?thesis using notified_frame(1) [OF inserted(4)] by auto
qed simp

lemma persist_body_members:
  assumes "persist_body L G ts j db = (db', Inr response)"
  shows "room_members db' = room_members db" "rooms db' = rooms db" "users db' = users db"
  using assms
proof (atomize(full), cases rule: persist_body_Inr)
  case (existing m rs)
  then show "room_members db' = room_members db \<and> rooms db' = rooms db \<and> users db' = users db"
    using notified_frame(1) [OF existing(5)] by auto
next
  case (inserted m ik rs)
  then show "room_members db' = room_members db \<and> rooms db' = rooms db \<and> users db' = users db"
    using notified_frame(1) [OF inserted(4)] by auto
qed simp

lemma persist_cases:
  assumes "persist_ingress_job L G f ts j db = (db', q)"
  obtains (no_effect) e mid where "q = Inl e" "db' = db \<or> db' = rollback db mid"
    | (applied) response where "persist_body L G ts j db = (db', Inr response)"
        "(\<exists>e. q = Inl e \<and> f = Ack_lost e)
          \<or> q = Inr (set_key response ''persisted_at'' (JStr (st_after ts))) \<and> f = Commit_ok"
proof -
  obtain db1 q1 where run: "run_tx f (persist_body L G ts j) db = (db1, q1)" by fastforce
  have eq: "db' = db1" "q = (case q1 of Inl e \<Rightarrow> Inl e
      | Inr r \<Rightarrow> Inr (set_key r ''persisted_at'' (JStr (st_after ts))))"
    using assms run by (auto simp: persist_ingress_job_def split: sum.splits)
  from run show thesis
  proof (cases rule: run_tx_cases)
    case (ack_lost x e)
    show thesis by (rule applied [of x]) (use ack_lost eq in simp_all)
  next
    case (committed x)
    show thesis by (rule applied [of x]) (use committed eq in simp_all)
  next
    case (unchanged e)
    show thesis by (rule no_effect [of e]) (use unchanged eq in simp_all)
  next
    case (rolled_back mid e)
    show thesis by (rule no_effect [of e mid]) (use rolled_back eq in simp_all)
  next
    case (not_committed mid x e)
    show thesis by (rule no_effect [of e mid]) (use not_committed eq in simp_all)
  qed
qed

lemma deliver_messages:
  "\<exists>new. messages (deliver L G x db) = messages db @ new \<and> (\<forall>m\<in>set new. delivered_by db [x] m)"
    "room_members (deliver L G x db) = room_members db"
proof -
  obtain f ts j where x: "x = (f, ts, j)" by (cases x)
  obtain db' q where run: "persist_ingress_job L G f ts j db = (db', q)" by fastforce
  have "(\<exists>new. messages db' = messages db @ new \<and> (\<forall>m\<in>set new. delivered_by db [x] m))
      \<and> room_members db' = room_members db"
    using run
  proof (cases rule: persist_cases)
    case (no_effect e mid)
    then show ?thesis by auto
  next
    case (applied response)
    have "m_request_id m = j_request_id j \<and> m_room_id m = j_room_id j \<and> m_user_id m = j_user_id j
        \<and> is_member db (j_room_id j) (j_user_id j)" if "stored_event L G ts j db m ik" for m ik
      using stored_event_fields [OF that] by simp
    with persist_body_messages [OF applied(1)] persist_body_members [OF applied(1)] x
    show ?thesis by (auto simp: delivered_by_def)
  qed
  then show "\<exists>new. messages (deliver L G x db) = messages db @ new \<and> (\<forall>m\<in>set new. delivered_by db [x] m)"
    "room_members (deliver L G x db) = room_members db"
    using x run by (simp_all add: deliver_def)
qed

lemma deliver_store_ok [inv_intros]: "store_ok db \<Longrightarrow> store_ok (deliver L G x db)"
  by (cases x) (simp add: deliver_def persist_store_ok)

lemma ingest_messages:
  "\<exists>new. messages (ingest L G xs db) = messages db @ new \<and> (\<forall>m\<in>set new. delivered_by db xs m)"
proof (induction xs arbitrary: db)
  case Nil
  then show ?case by (simp add: ingest_def)
next
  case (Cons x xs)
  let ?db = "deliver L G x db"
  obtain new where new: "messages ?db = messages db @ new" "\<forall>m\<in>set new. delivered_by db [x] m"
    using deliver_messages(1) by blast
  obtain more where more: "messages (ingest L G xs ?db) = messages ?db @ more"
      "\<forall>m\<in>set more. delivered_by ?db xs m"
    using Cons.IH by blast
  have "delivered_by db (x # xs) m" if "m \<in> set (new @ more)" for m
    using that new(2) more(2) deliver_messages(2) [of L G x db]
    by (fastforce simp: delivered_by_def is_member_def)
  with new(1) more(1) show ?case by (auto simp: ingest_def)
qed

lemma ingest_store_ok: "store_ok db \<Longrightarrow> store_ok (ingest L G xs db)"
  by (induction xs arbitrary: db) (simp_all add: ingest_def deliver_store_ok)

text \<open>
  C2: whatever is delivered, in whatever order and however often, and however the transactions
  end (committed, rolled back, connection lost, acknowledgement lost after the commit), the
  tables stay consistent: event and request identifiers are unique, the events of every room
  carry the sequence numbers 1, 2, .. without a gap and in the order of their identifiers, and
  every event has exactly one notification intent. Events are only ever appended, each one
  for a delivered job and on behalf of a member of its room.
\<close>

theorem ingest_keeps_store:
  assumes "store_ok db"
  shows "store_ok (ingest L G xs db)
    \<and> (\<exists>new. messages (ingest L G xs db) = messages db @ new \<and> (\<forall>m\<in>set new. delivered_by db xs m))"
  using ingest_store_ok [OF assms] ingest_messages by blast

lemma persist_known_request:
  assumes "find_request db (j_request_id j) = Some m"
  shows "messages (fst (persist_ingress_job L G f ts j db)) = messages db"
proof -
  obtain db' q where run: "persist_ingress_job L G f ts j db = (db', q)" by fastforce
  from run have "messages db' = messages db"
  proof (cases rule: persist_cases)
    case (no_effect e mid)
    then show ?thesis by auto
  next
    case (applied response)
    from persist_body_messages [OF applied(1)] show ?thesis
      using assms by (auto dest: stored_event_fields(6))
  qed
  then show ?thesis by (simp add: run)
qed

lemma find_request_cong: "messages db' = messages db \<Longrightarrow> find_request db' = find_request db"
  by (simp add: find_request_def fun_eq_iff)

text \<open>
  C9: redelivery stores nothing. When every delivered job carries a request identifier that is
  already stored (a retry after an ambiguous commit, a rebalance, a replay from the dead-letter
  topic), no delivery adds an event, whatever its contents and however its transaction ends.
\<close>

theorem redelivery_stores_nothing:
  assumes "\<forall>(f, ts, j)\<in>set xs. find_request db (j_request_id j) \<noteq> None"
  shows "messages (ingest L G xs db) = messages db"
  using assms
proof (induction xs arbitrary: db)
  case Nil
  then show ?case by (simp add: ingest_def)
next
  case (Cons x xs)
  obtain f ts j where x: "x = (f, ts, j)" by (cases x)
  obtain m where "find_request db (j_request_id j) = Some m"
    using Cons.prems x by auto
  then have same: "messages (deliver L G x db) = messages db"
    by (simp add: x deliver_def persist_known_request)
  have "messages (ingest L G xs (deliver L G x db)) = messages (deliver L G x db)"
    using Cons.prems same by (intro Cons.IH) (auto simp: find_request_cong [OF same])
  with same show ?case by (simp add: ingest_def)
qed

section \<open>Success is durable\<close>

text \<open>Every idempotency row is a response for a stored event.\<close>

definition names_event :: "db \<Rightarrow> obj \<Rightarrow> message \<Rightarrow> bool" where
  "names_event db d m \<longleftrightarrow> m \<in> set (messages db) \<and> get_none d ''id'' = JInt (m_id m)
     \<and> get_none d ''room_id'' = JInt (m_room_id m) \<and> get_none d ''user_id'' = JInt (m_user_id m)"

definition idem_ok :: "db \<Rightarrow> bool" where
  "idem_ok db \<longleftrightarrow>
     (\<forall>k v. idempotency_keys db k = Some v \<longrightarrow> (\<exists>d m. v = JObj d \<and> names_event db d m))"

lemma jsonb_int:
  assumes "jsonb_laws G" "jsonb G d = Some e" "get_none d k = JInt i"
  shows "get_none e k = JInt i"
proof -
  have "get_key d k = Some (JInt i)"
    using assms(3) by (cases "map_of d (u k)") (auto simp: dict_defs)
  from jsonb_present [OF assms(1,2) this] show ?thesis by (auto simp: dict_defs)
qed

lemma names_event_jsonb:
  assumes "jsonb_laws G" "jsonb G d = Some e" "names_event db d m"
  shows "names_event db e m"
  using assms(3) jsonb_int [OF assms(1,2)] by (simp add: names_event_def)

lemma names_event_mono:
  "names_event db d m \<Longrightarrow> set (messages db) \<subseteq> set (messages db') \<Longrightarrow> names_event db' d m"
  by (auto simp: names_event_def)

lemma names_event_row: "m \<in> set (messages db) \<Longrightarrow> names_event db (message_row_response m x) m"
  by (simp add: names_event_def)

lemma cache_hit_row:
  assumes "cache_hit L G j db r ik" "idem_ok db"
  shows "\<exists>m. names_event db r m \<and> m_user_id m = j_user_id j \<and> m_room_id m = j_room_id j"
proof -
  obtain rt key where "idempotency_keys db (rt, key) = Some (JObj r)"
    using assms(1) by (auto simp: cache_hit_def)
  then obtain d m where "JObj r = JObj d" "names_event db d m"
    using assms(2) unfolding idem_ok_def by blast
  then have "names_event db r m" by simp
  moreover have "m_user_id m = j_user_id j \<and> m_room_id m = j_room_id j"
    using assms(1) \<open>names_event db r m\<close>
    by (simp add: cache_hit_def valid_cached_response_def names_event_def)
  ultimately show ?thesis by blast
qed

lemma cache_hit_idem_ok:
  assumes "jsonb_laws G" "cache_hit L G j db r ik" "idem_ok db" "messages db' = messages db"
    "idempotency_keys db' = ik"
  shows "idem_ok db'"
proof -
  obtain m where m: "names_event db r m" using cache_hit_row [OF assms(2,3)] by blast
  have new: "names_event db d m" if "jsonb G r = Some d" for d
    using names_event_jsonb [OF assms(1) that m] .
  have names: "names_event db' = names_event db" by (simp add: names_event_def assms(4) fun_eq_iff)
  obtain key where key: "ik = idempotency_keys db
      \<or> (\<exists>d. jsonb G r = Some d \<and> ik = (idempotency_keys db)((idempotency_route j, key) \<mapsto> JObj d))"
    using assms(2) unfolding cache_hit_def by (auto split: option.splits)
  have row: "\<exists>e n. v = JObj e \<and> names_event db e n" if "ik k = Some v" for k v
  proof (cases "idempotency_keys db k = Some v")
    case True
    then show ?thesis using assms(3) unfolding idem_ok_def by blast
  next
    case False
    with key that obtain d where "jsonb G r = Some d" "v = JObj d" by (auto split: if_splits)
    with new show ?thesis by blast
  qed
  show ?thesis unfolding idem_ok_def assms(5) names using row by blast
qed

lemma keyed_idem_ok:
  assumes "jsonb_laws G" "keyed_by G j (message_row_response m None) db ik" "idem_ok db"
    "messages db' = messages db @ [m]" "idempotency_keys db' = ik"
  shows "idem_ok db'"
proof -
  have new: "names_event db' d m" if "jsonb G (message_row_response m None) = Some d" for d
    by (rule names_event_jsonb [OF assms(1) that names_event_row]) (simp add: assms(4))
  have old: "names_event db' d m'" if "names_event db d m'" for d m'
    using that by (rule names_event_mono) (auto simp: assms(4))
  show ?thesis
    using assms(2,3) new old
    unfolding idem_ok_def assms(5) keyed_by_def
    by (auto split: option.splits if_splits) blast+
qed

lemma persist_body_idem_ok:
  assumes "jsonb_laws G" "persist_body L G ts j db = (db', Inr response)" "idem_ok db"
  shows "idem_ok db'"
  using assms(2)
proof (cases rule: persist_body_Inr)
  case (hit r ik rs)
  then show ?thesis using cache_hit_idem_ok [OF assms(1) hit(1) assms(3)] by simp
next
  case (existing m rs)
  then show ?thesis using notified_frame(1) [OF existing(5)] assms(3)
    by (auto simp: idem_ok_def names_event_def)
next
  case (inserted m ik rs)
  have k: "keyed_by G j (message_row_response m None) db ik"
    using inserted(1) by (simp add: stored_event_def)
  obtain ob where "db' = (with_event j db m ik)\<lparr>request_statuses := rs, outbox := ob\<rparr>"
    using notified_frame(1) [OF inserted(4)] by auto
  then show ?thesis using keyed_idem_ok [OF assms(1) k assms(3)] by simp
qed

lemma persist_body_owner:
  assumes "persist_body L G ts j db = (db', Inr response)" "get_none response ''user_id'' = JInt i"
  shows "owner_of db' (j_request_id j) = Some i"
  using assms(1)
proof (cases rule: persist_body_cases)
  case (persisted mid r hit status mid' saved)
  have "get_none status ''user_id'' = JInt i"
    using status_payload_gets(4) [OF persisted(3)] assms(2) persisted(2) by simp
  with persisted(4) have "owner_of mid' (j_request_id j) = Some i"
    by (cases rule: upsert_cases)
      (auto simp: owner_of_def normalized_request_status_def require_eq_Inr rbind_eq_Inr Let_def
        split: if_splits)
  moreover have "request_statuses db' = request_statuses mid'"
  proof (cases hit)
    case False
    then obtain payload where
      "enqueue_notification G (st_clock ts) payload mid' = (db', Inr ())"
      using persisted(5) by auto
    then show ?thesis by (auto simp: enqueue_notification_def Let_def split: option.splits if_splits)
  qed (use persisted(5) in simp)
  ultimately show ?thesis by (simp add: owner_of_def)
qed simp

lemma names_event_set_key [simp]:
  "names_event db (set_key d ''persisted_at'' v) m = names_event db d m"
  by (simp add: names_event_def)

lemma persist_body_names:
  assumes "persist_body L G ts j db = (db', Inr response)" "idem_ok db" "store_ok db"
  shows "\<exists>m. names_event db' response m \<and> m_room_id m = j_room_id j \<and> m_user_id m = j_user_id j
     \<and> (\<exists>x\<in>set (outbox db'). o_message_id x = m_id m)"
  using assms(1)
proof (cases rule: persist_body_Inr)
  case (hit r ik rs)
  obtain m where m: "names_event db r m" "m_user_id m = j_user_id j" "m_room_id m = j_room_id j"
    using cache_hit_row [OF hit(1) assms(2)] by blast
  then have "\<exists>x\<in>set (outbox db). o_message_id x = m_id m"
    using assms(3) by (simp add: store_ok_def outbox_complete_def names_event_def)
  moreover have "names_event db' response m" using m(1) hit(2,3) by (simp add: names_event_def)
  moreover have "outbox db' = outbox db" using hit(3) by simp
  ultimately show ?thesis using m by auto
next
  case (existing m rs)
  have "m \<in> set (messages db)" using existing(1) by (auto simp: find_request_def dest: find_SomeD)
  then have "names_event db' response m"
    using notified_frame(1) [OF existing(5)] existing(4) by (auto simp: names_event_def)
  with existing(2,3) notified_frame(2) [OF existing(5)] show ?thesis by auto
next
  case (inserted m ik rs)
  have "names_event db' response m"
    using notified_frame(1) [OF inserted(4)] inserted(2) by (auto simp: names_event_def)
  with stored_event_fields(3,4) [OF inserted(1)] notified_frame(2) [OF inserted(4)]
  show ?thesis by auto
qed

text \<open>
  C10: success is durable. When persisting a job returns a response, the response names an event
  in the table that belongs to the job's room and author (the job's own event or the one its
  idempotency key was first used for), the notification of that event is in the outbox, and the
  status of the request is owned by the author. The same transaction wrote all three.
\<close>

theorem persist_success_durable:
  assumes "jsonb_laws G" "idem_ok db" "store_ok db"
    and "persist_ingress_job L G f ts j db = (db', Inr response)"
  shows "(\<exists>m. names_event db' response m \<and> m_room_id m = j_room_id j \<and> m_user_id m = j_user_id j
      \<and> (\<exists>x\<in>set (outbox db'). o_message_id x = m_id m))
    \<and> owner_of db' (j_request_id j) = Some (j_user_id j) \<and> idem_ok db'"
  using assms(4)
proof (cases rule: persist_cases)
  case (applied r)
  then have resp: "response = set_key r ''persisted_at'' (JStr (st_after ts))" by simp
  obtain m where m: "names_event db' r m" "m_room_id m = j_room_id j" "m_user_id m = j_user_id j"
      "\<exists>x\<in>set (outbox db'). o_message_id x = m_id m"
    using persist_body_names [OF applied(1) assms(2,3)] by blast
  have "owner_of db' (j_request_id j) = Some (j_user_id j)"
    using persist_body_owner [OF applied(1)] m(1,3) by (simp add: names_event_def)
  with m resp persist_body_idem_ok [OF assms(1) applied(1) assms(2)] show ?thesis by auto
qed simp

section \<open>Idempotency keys\<close>

lemma event_envelope_cong:
  assumes "\<forall>k\<in>{''event_type'', ''schema_version'', ''route'', ''payload'', ''metadata'', ''body'',
    ''category'', ''payment_id''}. get_key d k = get_key e k"
  shows "event_envelope L d = event_envelope L e"
proof -
  have "has_key d k = has_key e k" "get_none d k = get_none e k" "get_or d k v = get_or e k v"
    if "get_key d k = get_key e k" for k v
    using that by (auto simp: dict_defs split: option.splits)
  note conv = this
  have gen: "is_generic_envelope d = is_generic_envelope e"
    using assms by (simp add: is_generic_envelope_def conv)
  moreover have "envelope_event_type d = envelope_event_type e"
    using assms by (simp add: envelope_event_type_def gen conv)
  moreover have "legacy_metadata d = legacy_metadata e"
    using assms by (simp add: legacy_metadata_def Let_def conv)
  moreover from this have "envelope_payload d = envelope_payload e"
    using assms by (simp add: envelope_payload_def gen Let_def conv)
  ultimately show ?thesis by (simp only: event_envelope_def)
qed

lemma length_legacy_body_preview: "length (legacy_body_preview L p) \<le> 1000"
  by (auto simp: legacy_body_preview_def Let_def split: option.splits)

lemma message_row_keys:
  "get_key (message_row_response m None) ''event_type'' = Some (JStr (event_type_or_legacy (m_event_type m)))"
  "get_key (message_row_response m None) ''schema_version'' =
     Some (JInt (if m_schema_version m = 0 then 1 else m_schema_version m))"
  "get_key (message_row_response m None) ''route'' = None"
  "m_payload m = Some p \<Longrightarrow> get_key (message_row_response m None) ''payload'' = Some (JObj p)"
  "get_key (message_row_response m None) ''metadata'' = Some (JObj (m_metadata m))"
  "get_key (message_row_response m None) ''body'' = Some (JStr (m_body m))"
  "get_key (message_row_response m None) ''category'' = Some (json_opt JStr (m_category m))"
  "get_key (message_row_response m None) ''payment_id'' = Some (json_opt JStr (m_payment_id m))"
  "get_key (message_row_response m None) ''id'' = Some (JInt (m_id m))"
  "get_key (message_row_response m None) ''room_id'' = Some (JInt (m_room_id m))"
  "get_key (message_row_response m None) ''room_seq'' = Some (JInt (m_room_seq m))"
  "get_key (message_row_response m None) ''user_id'' = Some (JInt (m_user_id m))"
  "get_key (message_row_response m None) ''actor_id'' = Some (JInt (m_user_id m))"
  "get_key (message_row_response m None) ''request_id'' = Some (JStr (m_request_id m))"
  "get_key (message_row_response m None) ''created_at'' = Some (JStr (m_created_at m))"
  by (simp_all add: message_row_response_def text_simps opt_item_def)

text \<open>Values \<open>jsonb\<close> leaves alone.\<close>

definition stable_value :: "pg \<Rightarrow> json \<Rightarrow> bool" where
  "stable_value G v \<longleftrightarrow> (\<exists>i. v = JInt i) \<or> (\<exists>s. v = JStr s) \<or> v = JNull
     \<or> (\<exists>q. v = JObj q \<and> jsonb G q = Some q)"

lemma stable_values [simp]:
  "stable_value G (JInt i)" "stable_value G (JStr s)" "stable_value G (json_opt JStr x)"
  "stable_value G (JObj q) \<longleftrightarrow> jsonb G q = Some q"
  by (auto simp: stable_value_def) (cases x; simp)

lemma stable_value_same: "stable_value G v \<Longrightarrow> jsonb_value G v w \<Longrightarrow> w = v"
  by (auto simp: stable_value_def)

text \<open>A stored response reads back with the fields validation looks at.\<close>

lemma jsonb_row_keys:
  assumes laws: "jsonb_laws G" and row: "jsonb G (message_row_response m None) = Some d"
    and payload: "m_payload m = Some p" "jsonb G p = Some p"
    and metadata: "jsonb G (m_metadata m) = Some (m_metadata m)"
    and k: "k \<in> {''event_type'', ''schema_version'', ''route'', ''payload'', ''metadata'', ''body'',
      ''category'', ''payment_id'', ''id'', ''room_id'', ''room_seq'', ''user_id'', ''actor_id'',
      ''request_id'', ''created_at''}"
  shows "get_key d k = get_key (message_row_response m None) k"
proof (cases "get_key (message_row_response m None) k")
  case None
  then have "\<not> has_key (message_row_response m None) k" by (simp add: dict_defs)
  from jsonb_absent [OF laws row this] None show ?thesis by (simp add: dict_defs)
next
  case (Some v)
  from jsonb_present [OF laws row Some] obtain w where
    w: "get_key d k = Some w" "jsonb_value G v w" by blast
  have "stable_value G v"
    using Some k payload metadata
    by (auto simp: message_row_keys message_row_keys(4) [OF payload(1)])
  then have "w = v" using w(2) by (rule stable_value_same)
  with w(1) Some show ?thesis by simp
qed

lemma get_or_of_key: "get_key d k = Some v \<Longrightarrow> get_or d k w = v"
  by (simp add: dict_defs)

lemma event_type_or_legacy_Some: "et \<noteq> [] \<Longrightarrow> event_type_or_legacy (Some et) = et"
  by (cases et) (simp_all add: event_type_or_legacy_def)

lemma stored_row_valid:
  assumes laws: "jsonb_laws G" and ok: "store_ok db" and st: "stored_event L G ts j db m ik"
    and wf: "job_wf L j" and created: "st_created ts \<noteq> []"
    and env: "event_envelope L (set_key (message_row_response m None) ''persisted_at'' x) = Inr y"
    and row: "jsonb G (message_row_response m None) = Some d"
  shows "valid_cached_response L (j_user_id j) (j_room_id j) d \<and> get_none d ''id'' = JInt (m_id m)"
proof -
  let ?r = "message_row_response m None"
  note f = stored_event_fields [OF st]
  from st obtain et p md where ev: "event_of L G ts j et p md (message_ids db)
      (last_seq db (j_room_id j) + 1) m"
    by (auto simp: stored_event_def)
  then obtain p' where p': "m_payload m = Some p'" "jsonb G p = Some p'"
    by (auto simp: event_of_def)
  have fix_p: "jsonb G p' = Some p'" by (rule jsonb_idem [OF laws p'(2)])
  have fix_md: "jsonb G (m_metadata m) = Some (m_metadata m)"
    using ev jsonb_idem [OF laws] by (auto simp: event_of_def)
  have key: "get_key d k = get_key ?r k" if "k \<in> {''event_type'', ''schema_version'', ''route'',
      ''payload'', ''metadata'', ''body'', ''category'', ''payment_id'', ''id'', ''room_id'',
      ''room_seq'', ''user_id'', ''actor_id'', ''request_id'', ''created_at''}" for k
    by (rule jsonb_row_keys [OF laws row p'(1) fix_p fix_md that])
  have get: "get_none d k = v" if "get_key d k = Some v" for k v
    using that by (auto simp: dict_defs)
  have "get_none d ''id'' = JInt (m_id m)" "get_none d ''room_id'' = JInt (m_room_id m)"
    "get_none d ''room_seq'' = JInt (m_room_seq m)" "get_none d ''user_id'' = JInt (m_user_id m)"
    "get_none d ''actor_id'' = JInt (m_user_id m)" "get_none d ''request_id'' = JStr (m_request_id m)"
    "get_none d ''body'' = JStr (m_body m)" "get_none d ''created_at'' = JStr (m_created_at m)"
    by (intro get; simp add: key message_row_keys)+
  moreover have "get_or d ''schema_version'' (JInt 1) = JInt (if m_schema_version m = 0 then 1 else m_schema_version m)"
    by (rule get_or_of_key) (simp add: key message_row_keys)
  moreover have "event_envelope L d = Inr y"
    using event_envelope_cong [of d "set_key ?r ''persisted_at'' x" L] env key by simp
  moreover have "0 < message_ids db" "0 \<le> last_seq db (j_room_id j)"
    using ok by (simp_all add: store_ok_def db_ok_def messages_ok_def)
  moreover have "message_ids db \<le> max_postgres_bigint"
      "last_seq db (j_room_id j) + 1 \<le> max_postgres_bigint"
    using st by (simp_all add: stored_event_def)
  moreover have "m_body m = legacy_body_preview L p" "m_schema_version m = j_schema_version j"
      "m_created_at m = st_created ts"
    using ev by (simp_all add: event_of_def)
  moreover have "bounded_text 80 (JStr (j_request_id j))" "pos_bigint (JInt (j_room_id j))"
      "pos_bigint (JInt (j_user_id j))" "schema_version_ok (JInt (j_schema_version j))"
    using wf by (simp_all add: job_wf_def job_identity_ok_def)
  ultimately show ?thesis
    using created f(1-5) length_legacy_body_preview [of L p]
    by (simp add: valid_cached_response_def is_nonempty_text_def)
qed

definition scoped_row :: "pylib \<Rightarrow> db \<Rightarrow> job \<Rightarrow> ustr \<Rightarrow> obj \<Rightarrow> bool" where
  "scoped_row L db j key d \<longleftrightarrow>
     idempotency_keys db (idempotency_route j, key) = Some (JObj d)
     \<and> valid_cached_response L (j_user_id j) (j_room_id j) d"

lemma scoped_row_cached:
  assumes "scoped_row L db j key d" "active_key j = Some key"
  shows "cached_response L G j db = (db, Inr (Some d))"
  using assms by (simp add: scoped_row_def cached_response_def validated_idempotency_response_def)

lemma idempotency_route_inject:
  assumes "idempotency_route j = idempotency_route j'" "job_wf L j" "job_wf L j'"
  shows "j_route j = j_route j' \<and> j_user_id j = j_user_id j' \<and> j_room_id j = j_room_id j'"
proof -
  have colon: "u ''|actor:'' = u ''|actor'' @ [58]" by (simp add: u_def)
  have "(j_route j @ u ''|actor'') @ [58] @ py_str_int (j_user_id j) =
      (j_route j' @ u ''|actor'') @ [58] @ py_str_int (j_user_id j')"
    using assms(1) by (simp add: idempotency_route_def colon)
  then have "j_route j @ u ''|actor'' = j_route j' @ u ''|actor''
      \<and> py_str_int (j_user_id j) = py_str_int (j_user_id j')"
    by (rule split_last_colon) (simp_all add: py_str_int_no_colon)
  then have eq: "j_route j = j_route j'" "j_user_id j = j_user_id j'" by simp_all
  moreover have "j_room_id j = j_room_id j'"
    using assms(2,3) eq(1)
    by (auto simp: job_wf_def job_identity_ok_def job_route_ok_def split: option.splits)
  ultimately show ?thesis by simp
qed

lemma scoped_row_cong:
  assumes "j_route j = j_route j'" "j_user_id j = j_user_id j'" "j_room_id j = j_room_id j'"
  shows "scoped_row L db j key d = scoped_row L db j' key d"
  by (simp add: scoped_row_def idempotency_route_def assms)

lemma deliver_keeps_row:
  assumes "scoped_row L db j key d" "job_wf L j" "job_wf L j'"
  shows "scoped_row L (deliver L G (f, ts, j') db) j key d"
proof -
  obtain db' q where run: "persist_ingress_job L G f ts j' db = (db', q)" by fastforce
  have stays: "ik (idempotency_route j, key) = Some (JObj d)" if "cache_hit L G j' db r ik" for r ik
    using that assms(1) unfolding cache_hit_def scoped_row_def
    by (auto split: option.splits)
  have kept: "ik (idempotency_route j, key) = Some (JObj d)" if st: "stored_event L G ts j' db m ik" for m ik
  proof (cases "active_key j' = Some key \<and> idempotency_route j' = idempotency_route j")
    case True
    then have "scoped_row L db j' key d"
      using scoped_row_cong idempotency_route_inject [OF _ assms(3,2)] assms(1) by blast
    with scoped_row_cached True st show ?thesis by (fastforce simp: stored_event_def)
  next
    case False
    then show ?thesis using st assms(1)
      by (auto simp: stored_event_def keyed_by_def scoped_row_def split: option.splits)
  qed
  from run have "idempotency_keys db' (idempotency_route j, key) = Some (JObj d)"
  proof (cases rule: persist_cases)
    case (no_effect e mid)
    then show ?thesis using assms(1) by (auto simp: scoped_row_def)
  next
    case (applied r)
    from applied(1) show ?thesis
    proof (cases rule: persist_body_Inr)
      case (hit r ik rs)
      then show ?thesis using stays by simp
    next
      case (existing m rs)
      then show ?thesis using notified_frame(1) [OF existing(5)] assms(1)
        by (auto simp: scoped_row_def)
    next
      case (inserted m ik rs)
      then show ?thesis using notified_frame(1) [OF inserted(4)] kept by auto
    qed
  qed
  then show ?thesis using assms(1) run by (simp add: scoped_row_def deliver_def)
qed

lemma ingest_keeps_row:
  assumes "scoped_row L db j key d" "job_wf L j" "\<forall>(f, ts, j')\<in>set xs. job_wf L j'"
  shows "scoped_row L (ingest L G xs db) j key d"
  using assms
proof (induction xs arbitrary: db)
  case (Cons x xs)
  obtain f ts j' where "x = (f, ts, j')" by (cases x)
  then show ?case using Cons deliver_keeps_row [of L db j key d j' G f ts] by (simp add: ingest_def)
qed (simp add: ingest_def)

lemma persist_body_leaves_row:
  assumes "jsonb_laws G" "store_ok db" "job_wf L j" "st_created ts \<noteq> []" "active_key j = Some key"
    "find_request db (j_request_id j) = None" "idempotency_keys db (j_route j, key) = None"
    and body: "persist_body L G ts j db = (db', Inr r)"
  shows "\<exists>d. scoped_row L db' j key d \<and> get_none d ''id'' = get_none r ''id''"
  using body
proof (cases rule: persist_body_Inr)
  case (hit r' ik rs)
  then have "ik (idempotency_route j, key) = Some (JObj r')"
      "valid_cached_response L (j_user_id j) (j_room_id j) r'"
    using assms(5,7) by (auto simp: cache_hit_def)
  then show ?thesis using hit by (auto simp: scoped_row_def)
next
  case (existing m rs)
  then show ?thesis using assms(6) by simp
next
  case (inserted m ik rs)
  then obtain d where d: "jsonb G (message_row_response m None) = Some d"
      "ik (idempotency_route j, key) = Some (JObj d)"
    using assms(5) by (auto simp: stored_event_def keyed_by_def)
  obtain y where "event_envelope L (set_key (message_row_response m None) ''persisted_at''
      (JStr (st_persisted ts))) = Inr y"
    using inserted(2,3) by auto
  from stored_row_valid [OF assms(1,2) inserted(1) assms(3,4) this d(1)]
  have "scoped_row L db' j key d" "get_none d ''id'' = get_none r ''id''"
    using d(2) notified_frame(1) [OF inserted(4)] inserted(2) by (auto simp: scoped_row_def)
  then show ?thesis by blast
qed

text \<open>
  C11: an idempotency key stores one event. After the first delivery of a job with a key was
  persisted, and any history of further deliveries of valid jobs, a job with the same route,
  author and key that succeeds (another request, another payload) stores no event and is
  answered with the event of the first one.
\<close>

theorem idempotency_key_stores_one_event:
  assumes "jsonb_laws G" "store_ok db" "job_wf L j1" "st_created ts1 \<noteq> []"
    and "active_key j1 = Some key" "find_request db (j_request_id j1) = None"
    and "idempotency_keys db (j_route j1, key) = None"
    and "persist_ingress_job L G f1 ts1 j1 db = (db1, Inr r1)"
    and "\<forall>(f, ts, j)\<in>set xs. job_wf L j"
    and "job_wf L j2" "idempotency_route j2 = idempotency_route j1" "active_key j2 = Some key"
    and "persist_ingress_job L G f2 ts2 j2 (ingest L G xs db1) = (db2, Inr r2)"
  shows "get_none r2 ''id'' = get_none r1 ''id'' \<and> messages db2 = messages (ingest L G xs db1)"
proof -
  from assms(8) obtain r where body: "persist_body L G ts1 j1 db = (db1, Inr r)"
      and r1: "get_none r1 ''id'' = get_none r ''id''"
    by (cases rule: persist_cases) auto
  obtain d where d: "scoped_row L db1 j1 key d" "get_none d ''id'' = get_none r ''id''"
    using persist_body_leaves_row [OF assms(1-7) body] by blast
  let ?db = "ingest L G xs db1"
  have "scoped_row L ?db j1 key d" by (rule ingest_keeps_row [OF d(1) assms(3,9)])
  then have row: "scoped_row L ?db j2 key d"
    using scoped_row_cong idempotency_route_inject [OF assms(11,10,3)] by blast
  from assms(13) obtain s where body2: "persist_body L G ts2 j2 ?db = (db2, Inr s)"
      and r2: "get_none r2 ''id'' = get_none s ''id''"
    by (cases rule: persist_cases) auto
  have cached: "cached_response L G j2 ?db = (?db, Inr (Some d))"
    by (rule scoped_row_cached [OF row assms(12)])
  from body2 show ?thesis
  proof (cases rule: persist_body_cases)
    case (persisted mid r' hit status mid' saved)
    then have "r' = d" "hit" "mid = ?db"
      using cached
      by (auto simp: persist_message_with_cursor_def split: sum.splits prod.splits)
    then have "get_none s ''id'' = get_none d ''id''" "messages db2 = messages ?db"
      using persisted(2,4,5) upsert_frame(1) [OF persisted(4)] by auto
    with d(2) r1 r2 show ?thesis by simp
  qed simp
qed

section \<open>Refusals\<close>

lemma rollback_same [simp]: "rollback db db = db"
  by (simp add: rollback_def)

lemma persist_raises:
  assumes "persist_message_with_cursor L G ts j db = (mid, Inl e)"
  shows "persist_ingress_job L G Commit_ok ts j db = (rollback db mid, Inl e)"
  using assms by (simp add: persist_ingress_job_def run_tx_def persist_body_def)

text \<open>
  Nobody outside a room writes to it. When the room or the author does not exist, or the
  author is not a member, a request that is neither stored nor answered from the cache raises
  the authorization error and leaves every table as it was.
\<close>

theorem unauthorized_job_refused:
  assumes "job_wf L j" "authorization_error j db = Some e"
    and "cached_response L G j db = (db, Inr None)" "find_request db (j_request_id j) = None"
  shows "persist_ingress_job L G Commit_ok ts j db = (db, Inl e)
    \<and> (\<exists>reason. e = IngressAuthorizationError reason)"
proof -
  have "persist_message_with_cursor L G ts j db = (db, Inl e)"
    using assms(2-4) event_envelope_job_obj [OF assms(1)] by (simp add: persist_message_with_cursor_def)
  from persist_raises [OF this] assms(2) show ?thesis
    by (auto simp: authorization_error_def split: if_splits)
qed

text \<open>
  A request identifier belongs to the room and author that used it first. A job that
  carries the identifier of a stored event of another room or author is refused, nothing is
  stored, and the stored event is not disclosed.
\<close>

theorem request_identity_conflict_refused:
  assumes "job_wf L j" "cached_response L G j db = (db, Inr None)"
    and "find_request db (j_request_id j) = Some m"
    and "m_room_id m \<noteq> j_room_id j \<or> m_user_id m \<noteq> j_user_id j"
  shows "persist_ingress_job L G Commit_ok ts j db =
    (db, Inl (IngressAuthorizationError (u ''request_identity_conflict'')))"
proof -
  have "persist_message_with_cursor L G ts j db =
      (db, Inl (IngressAuthorizationError (u ''request_identity_conflict'')))"
    using assms event_envelope_job_obj [OF assms(1)]
    by (simp add: persist_message_with_cursor_def)
  from persist_raises [OF this] show ?thesis by simp
qed

lemma rollback_allocate:
  "allocate_seq r db = (db', q) \<Longrightarrow> rollback db db' = db"
  by (auto simp: allocate_seq_def rollback_def Let_def split: if_splits)

text \<open>
  A producer that numbers its own events cannot leave a gap or overwrite. For an authorised,
  new request with sequence number \<open>s\<close> in a room whose last number is \<open>n\<close>: above \<open>n + 1\<close> it is
  refused with the gap error, at or below \<open>n\<close> with a value error (the number is taken by
  another request), and in both cases no table changes.
\<close>

theorem sequence_number_checked:
  assumes "messages_ok db" "job_wf L j" "authorization_error j db = None"
    and "cached_response L G j db = (db, Inr None)" "find_request db (j_request_id j) = None"
    and "j_room_seq j = Some s" "s \<noteq> last_seq db (j_room_id j) + 1"
    and "last_seq db (j_room_id j) < max_postgres_bigint"
  shows "\<exists>e. persist_ingress_job L G Commit_ok ts j db = (db, Inl e)
    \<and> (last_seq db (j_room_id j) + 1 < s \<longrightarrow> (\<exists>msg. e = RoomSequenceGapError msg))
    \<and> (s \<le> last_seq db (j_room_id j) \<longrightarrow> is_value_error e)"
proof -
  let ?n = "last_seq db (j_room_id j) + 1"
  obtain et p md where env: "event_envelope L (job_obj j) = Inr (et, p, md)"
    using event_envelope_job_obj [OF assms(2)] by blast
  obtain cat pay md' where oc: "order_columns j et md = (cat, pay, md')"
    by (cases "order_columns j et md") auto
  obtain db1 where al: "allocate_seq (j_room_id j) db = (db1, Inr ?n)"
    using assms(8) by (auto simp: allocate_seq_def Let_def)
  have frame: "find_request db1 = find_request db" "find_room_seq db1 = find_room_seq db"
    using al by (auto simp: allocate_seq_def Let_def find_request_def find_room_seq_def fun_eq_iff
        split: if_splits)
  have pm: "persist_message_with_cursor L G ts j db =
      obind (insert_event L G ts j et p md db) (\<lambda>r db. (db, Inr (r, False)))"
    using env assms(3-5) by (simp add: persist_message_with_cursor_def)
  show ?thesis
  proof (cases "?n < s")
    case True
    then have "persist_message_with_cursor L G ts j db = (db1, Inl (RoomSequenceGapError
        (u ''Room sequence gap detected expected='' @ py_str_int ?n @ u '' got='' @ py_str_int s)))"
      using pm oc al assms(6) by (simp add: insert_event_def Let_def)
    from persist_raises [OF this] True rollback_allocate [OF al] show ?thesis by auto
  next
    case False
    then have less: "s < ?n" using assms(7) by simp
    have "m_request_id m \<noteq> j_request_id j" if "find_room_seq db (j_room_id j) s = Some m" for m
      by (rule find_request_dup [OF assms(5) that])
    then have "\<exists>msg. persist_message_with_cursor L G ts j db = (db1, Inl (ValueError msg))"
      using pm oc al assms(6) less frame
      by (auto simp: insert_event_def Let_def split: option.splits)
    then obtain msg where "persist_message_with_cursor L G ts j db = (db1, Inl (ValueError msg))"
      by blast
    from persist_raises [OF this] less rollback_allocate [OF al] show ?thesis by auto
  qed
qed

section \<open>Concrete instances\<close>

definition sample_db :: db where
  "sample_db = empty_db\<lparr>users := [\<lparr>usr_id = 3, usr_name = u ''ann'', usr_password_hash = None\<rparr>],
     user_ids := 4, rooms := [(7, u ''orders'')], room_ids := 8, room_members := [(7, 3)]\<rparr>"

definition sample_stamps :: stamps where
  "sample_stamps = \<lparr>st_created = u ''2026-01-01T00:00:00+00:00'', st_clock = 0,
     st_persisted = u ''2026-01-01T00:00:01+00:00'', st_after = u ''2026-01-01T00:00:02+00:00''\<rparr>"

lemma sample_db_ok: "store_ok sample_db" "idem_ok sample_db"
  using db_ok_empty store_ok_cong [of sample_db empty_db]
  by (simp_all add: store_ok_def db_ok_def messages_ok_def notifications_ok_def outbox_complete_def
      sample_db_def empty_db_def room_messages_def last_seq_def idem_ok_def)

theorem ingest_keeps_store_witness:
  "store_ok (ingest sample_lib \<lparr>jsonb = Some\<rparr> [(Ack_lost OperationalError, sample_stamps, sample_job),
       (Commit_ok, sample_stamps, sample_job)] sample_db)
    \<and> (\<exists>new. messages (ingest sample_lib \<lparr>jsonb = Some\<rparr> [(Ack_lost OperationalError, sample_stamps, sample_job),
       (Commit_ok, sample_stamps, sample_job)] sample_db) = messages sample_db @ new
     \<and> (\<forall>m\<in>set new. delivered_by sample_db [(Ack_lost OperationalError, sample_stamps, sample_job),
       (Commit_ok, sample_stamps, sample_job)] m))"
  by (rule ingest_keeps_store [OF sample_db_ok(1)])

lemma sample_no_key: "cached_response L G sample_job db = (db, Inr None)"
  by (simp add: cached_response_def active_key_def sample_job_def)

theorem unauthorized_job_refused_witness:
  "persist_ingress_job sample_lib \<lparr>jsonb = Some\<rparr> Commit_ok sample_stamps sample_job empty_db
     = (empty_db, Inl (IngressAuthorizationError (u ''stream_not_found'')))
    \<and> (\<exists>reason. IngressAuthorizationError (u ''stream_not_found'') = IngressAuthorizationError reason)"
  by (rule unauthorized_job_refused [OF sample_job_wf])
    (simp_all add: sample_no_key authorization_error_def room_exists_def empty_db_def find_request_def)

theorem sequence_number_checked_witness:
  "\<exists>e. persist_ingress_job sample_lib \<lparr>jsonb = Some\<rparr> Commit_ok sample_stamps
         (sample_job\<lparr>j_room_seq := Some 5\<rparr>) sample_db = (sample_db, Inl e)
    \<and> (last_seq sample_db (j_room_id (sample_job\<lparr>j_room_seq := Some 5\<rparr>)) + 1 < 5
        \<longrightarrow> (\<exists>msg. e = RoomSequenceGapError msg))
    \<and> (5 \<le> last_seq sample_db (j_room_id (sample_job\<lparr>j_room_seq := Some 5\<rparr>)) \<longrightarrow> is_value_error e)"
proof (rule sequence_number_checked)
  show "messages_ok sample_db" using sample_db_ok by (simp add: store_ok_def db_ok_def)
  show "job_wf sample_lib (sample_job\<lparr>j_room_seq := Some 5\<rparr>)"
    by (simp add: job_wf_def job_identity_ok_def job_rest_ok_def sample_job_def
        job_route_ok_def sample_body sample_envelope optional_def max_postgres_bigint_def)
  show "authorization_error (sample_job\<lparr>j_room_seq := Some 5\<rparr>) sample_db = None"
    by (simp add: authorization_error_def room_exists_def user_exists_def is_member_def sample_db_def
        sample_job_def)
  show "cached_response sample_lib \<lparr>jsonb = Some\<rparr> (sample_job\<lparr>j_room_seq := Some 5\<rparr>) sample_db
      = (sample_db, Inr None)"
    by (simp add: cached_response_def active_key_def sample_job_def)
qed (simp_all add: find_request_def sample_db_def empty_db_def last_seq_def max_postgres_bigint_def)

definition sample_message :: message where
  "sample_message = \<lparr>m_id = 1, m_request_id = u ''r1'', m_room_id = 7, m_user_id = 3,
     m_event_type = Some (u ''order.created''), m_category = None, m_payment_id = None,
     m_schema_version = 2, m_payload = Some [(u ''text'', JStr (u ''hi''))], m_metadata = [],
     m_body = u ''hi'', m_room_seq = 1, m_created_at = st_created sample_stamps\<rparr>"

abbreviation sample_pg :: pg where
  "sample_pg \<equiv> \<lparr>jsonb = Some\<rparr>"

definition keyed_job :: job where
  "keyed_job = sample_job\<lparr>j_idem_key := Some (u ''k'')\<rparr>"

lemma keyed_job_wf: "job_wf L keyed_job"
  by (simp add: keyed_job_def job_wf_def job_identity_ok_def job_rest_ok_def sample_job_def
      job_route_ok_def sample_body sample_envelope optional_def max_postgres_bigint_def)

lemma sample_response_envelope:
  "event_envelope L (set_key (message_row_response sample_message None) ''persisted_at'' x)
     = Inr (u ''order.created'', [(u ''text'', JStr (u ''hi''))], [])"
proof (rule event_envelope_full)
  show "envelope_ok L (is_generic_envelope (set_key (message_row_response sample_message None)
      ''persisted_at'' x)) (u ''order.created'') [(u ''text'', JStr (u ''hi''))] []"
    by (rule sample_envelope)
qed (simp_all add: message_row_keys sample_message_def event_type_or_legacy_Some)

text \<open>The tables after the sample job, which carries a key, was persisted.\<close>

definition sample_row :: obj where
  "sample_row = set_key (message_row_response sample_message None) ''persisted_at''
     (JStr (st_persisted sample_stamps))"

lemma sample_insert:
  "persist_message_with_cursor L sample_pg sample_stamps keyed_job sample_db =
     (with_event keyed_job sample_db sample_message
        [(idempotency_route keyed_job, u ''k'') \<mapsto> JObj (message_row_response sample_message None)],
      Inr (message_row_response sample_message None, False))"
proof -
  have key: "active_key keyed_job = Some (u ''k'')"
    by (simp add: active_key_def keyed_job_def u_def)
  have env: "event_envelope L (job_obj keyed_job) =
      Inr (u ''order.created'', [(u ''text'', JStr (u ''hi''))], [])"
    using event_envelope_job_obj [OF keyed_job_wf, of L] by (simp add: keyed_job_def sample_job_def)
  have cols: "order_columns keyed_job et md = (None, None, md)" for et md
    by (simp add: order_columns_def is_order_route_def keyed_job_def sample_job_def starts_with_def u_def)
  have cached: "cached_response L sample_pg keyed_job sample_db = (sample_db, Inr None)"
    by (simp add: cached_response_def key validated_idempotency_response_def sample_db_def empty_db_def)
  have alloc: "allocate_seq 7 sample_db =
      (sample_db\<lparr>room_sequences := (room_sequences sample_db)(7 \<mapsto> 1)\<rparr>, Inr 1)"
    by (simp add: allocate_seq_def last_seq_def sample_db_def empty_db_def max_postgres_bigint_def)
  have job: "j_room_id keyed_job = 7" "j_user_id keyed_job = 3" "j_request_id keyed_job = u ''r1''"
    "j_room_seq keyed_job = None" "j_schema_version keyed_job = 2"
    by (simp_all add: keyed_job_def sample_job_def)
  have auth: "find_request sample_db (u ''r1'') = None" "authorization_error keyed_job sample_db = None"
    by (simp_all add: find_request_def sample_db_def empty_db_def authorization_error_def job
        room_exists_def user_exists_def is_member_def)
  show ?thesis
    by (simp add: persist_message_with_cursor_def env cached auth job insert_event_def cols alloc
        insert_message_def Let_def store_idempotency_def key sample_body)
      (simp add: with_event_def find_request_def find_room_seq_def job last_seq_def sample_message_def
        sample_db_def empty_db_def max_postgres_bigint_def)
qed

lemma sample_row_gets:
  "get_none sample_row ''id'' = JInt 1" "get_none sample_row ''room_id'' = JInt 7"
  "get_none sample_row ''room_seq'' = JInt 1" "get_none sample_row ''user_id'' = JInt 3"
  "get_none sample_row ''body'' = JStr (u ''hi'')"
  "get_none sample_row ''created_at'' = JStr (st_created sample_stamps)"
  "get_none sample_row ''persisted_at'' = JStr (st_persisted sample_stamps)"
  "get_none sample_row ''category'' = JNull" "get_none sample_row ''payment_id'' = JNull"
  "get_none sample_row ''schema_version'' = JInt 2"
  by (simp_all add: sample_row_def sample_message_def message_row_response_def text_simps)

definition sample_persisted_status :: obj where
  "sample_persisted_status =
     [(u ''request_id'', JStr (u ''r1'')), (u ''status'', JStr (u ''persisted'')),
      (u ''message_id'', JInt 1), (u ''room_id'', JInt 7), (u ''room_seq'', JInt 1),
      (u ''user_id'', JInt 3), (u ''actor_id'', JInt 3), (u ''body'', JStr (u ''hi'')),
      (u ''created_at'', JStr (st_created sample_stamps)),
      (u ''persisted_at'', JStr (st_persisted sample_stamps)),
      (u ''event_type'', JStr (u ''order.created'')), (u ''category'', JNull),
      (u ''payment_id'', JNull), (u ''schema_version'', JInt 2),
      (u ''payload'', JObj [(u ''text'', JStr (u ''hi''))]), (u ''metadata'', JObj [])]"

lemma sample_status_payload:
  "persisted_status_payload L (u ''r1'') sample_row = Inr sample_persisted_status"
  using sample_response_envelope [of L "JStr (st_persisted sample_stamps)"]
  by (simp add: persisted_status_payload_def sample_row_gets sample_persisted_status_def int_or_one_def
      Let_def flip: sample_row_def)

lemma good_text_u [simp]: "CHR 0x00 \<notin> set s \<Longrightarrow> good_text (u s)"
  by (simp add: good_text_def)

lemma sample_persisted_normalized:
  "normalized_request_status (u ''r1'') sample_persisted_status = Inr (3, sample_persisted_status)"
proof -
  have "json_ok max_json_wire_nesting_depth (JObj sample_persisted_status)"
    by (simp add: sample_persisted_status_def max_json_wire_nesting_depth_def
        max_json_nesting_depth_def sample_stamps_def)
  then have ok: "validate_json_wire (JObj sample_persisted_status) = Inr ()" by simp
  have same: "set_key (set_key (set_key sample_persisted_status ''request_id'' (JStr (u ''r1'')))
      ''user_id'' (JInt 3)) ''actor_id'' (JInt 3) = sample_persisted_status"
    by (simp add: sample_persisted_status_def set_key_def)
  have gets: "get_none sample_persisted_status ''user_id'' = JInt 3"
    "get_none sample_persisted_status ''actor_id'' = JInt 3"
    "get_or sample_persisted_status ''request_id'' (JStr (u ''r1'')) = JStr (u ''r1'')"
    by (simp_all add: sample_persisted_status_def text_simps)
  show ?thesis
    by (simp add: normalized_request_status_def sample_id_checks gets Let_def owner_ok_def
        max_postgres_bigint_def same ok del: validate_json_structure_ok)
qed

definition sample_db1 :: db where
  "sample_db1 = fst (persist_ingress_job sample_lib sample_pg Commit_ok sample_stamps keyed_job sample_db)"

lemma keyed_job_id: "j_request_id keyed_job = u ''r1''" "active_key keyed_job = Some (u ''k'')"
  by (simp_all add: keyed_job_def sample_job_def active_key_def u_def)

lemma sample_row_envelope:
  "event_envelope sample_lib sample_row = Inr (u ''order.created'', [(u ''text'', JStr (u ''hi''))], [])"
  by (simp add: sample_row_def sample_response_envelope)

lemma sample_body_result:
  "\<exists>row ob. persist_body sample_lib sample_pg sample_stamps keyed_job sample_db =
     ((with_event keyed_job sample_db sample_message
        [(idempotency_route keyed_job, u ''k'') \<mapsto> JObj (message_row_response sample_message None)])
       \<lparr>request_statuses := [u ''r1'' \<mapsto> \<lparr>s_user_id = Some 3, s_status = row\<rparr>], outbox := ob\<rparr>,
      Inr sample_row)"
proof -
  have tables: "request_statuses sample_db = Map.empty" "outbox sample_db = []"
    by (simp_all add: sample_db_def empty_db_def)
  show ?thesis
    by (simp add: persist_body_def sample_insert keyed_job_id Let_def sample_status_payload
        upsert_request_status_def sample_persisted_normalized notification_attempt_payload_def
        sample_row_envelope enqueue_notification_def tables flip: sample_row_def)
      (intro exI, rule refl)
qed

lemma sample_persist:
  "persist_ingress_job sample_lib sample_pg Commit_ok sample_stamps keyed_job sample_db
     = (sample_db1, Inr (set_key sample_row ''persisted_at'' (JStr (st_after sample_stamps))))"
  using sample_body_result unfolding sample_db1_def
  by (auto simp: persist_ingress_job_def run_tx_def)

lemma sample_db1_tables:
  "idempotency_keys sample_db1 (idempotency_route keyed_job, u ''k'')
     = Some (JObj (message_row_response sample_message None))"
  "owner_of sample_db1 (u ''r1'') = Some 3" "request_statuses sample_db1 (u ''r1'') \<noteq> None"
  "find_request sample_db1 (u ''r1'') = Some sample_message"
  using sample_body_result unfolding sample_db1_def
  by (auto simp: persist_ingress_job_def run_tx_def owner_of_def find_request_def sample_db_def
      empty_db_def sample_message_def)

theorem persist_success_durable_witness:
  "(\<exists>m. names_event sample_db1 (set_key sample_row ''persisted_at'' (JStr (st_after sample_stamps))) m
      \<and> m_room_id m = j_room_id keyed_job \<and> m_user_id m = j_user_id keyed_job
      \<and> (\<exists>x\<in>set (outbox sample_db1). o_message_id x = m_id m))
    \<and> owner_of sample_db1 (j_request_id keyed_job) = Some (j_user_id keyed_job) \<and> idem_ok sample_db1"
  by (rule persist_success_durable [OF jsonb_identity sample_db_ok(2,1) sample_persist])

theorem redelivery_stores_nothing_witness:
  "messages (ingest sample_lib sample_pg [(Commit_ok, sample_stamps, keyed_job)] sample_db1)
     = messages sample_db1"
  by (rule redelivery_stores_nothing) (simp add: keyed_job_id sample_db1_tables)

theorem request_identity_conflict_refused_witness:
  "persist_ingress_job sample_lib sample_pg Commit_ok sample_stamps (sample_job\<lparr>j_user_id := 4\<rparr>) sample_db1 =
    (sample_db1, Inl (IngressAuthorizationError (u ''request_identity_conflict'')))"
proof (rule request_identity_conflict_refused)
  show "job_wf sample_lib (sample_job\<lparr>j_user_id := 4\<rparr>)"
    by (simp add: job_wf_def job_identity_ok_def job_rest_ok_def sample_job_def
        job_route_ok_def sample_body sample_envelope optional_def max_postgres_bigint_def)
  show "cached_response sample_lib sample_pg (sample_job\<lparr>j_user_id := 4\<rparr>) sample_db1
      = (sample_db1, Inr None)"
    by (simp add: cached_response_def active_key_def sample_job_def)
  show "find_request sample_db1 (j_request_id (sample_job\<lparr>j_user_id := 4\<rparr>)) = Some sample_message"
    by (simp add: sample_db1_tables sample_job_def)
qed (simp add: sample_message_def sample_job_def)

lemma sample_cached:
  "cached_response sample_lib sample_pg keyed_job sample_db1
     = (sample_db1, Inr (Some (message_row_response sample_message None)))"
proof (rule scoped_row_cached [OF _ keyed_job_id(2)])
  let ?d = "message_row_response sample_message None"
  have "get_or ?d ''schema_version'' (JInt 1) = JInt 2"
    by (rule get_or_of_key) (simp add: message_row_keys sample_message_def)
  moreover have "event_envelope sample_lib ?d = event_envelope sample_lib sample_row"
    by (rule event_envelope_cong) (simp add: sample_row_def)
  ultimately have "valid_cached_response sample_lib 3 7 ?d"
    using sample_row_envelope
    by (simp add: valid_cached_response_def sample_message_def is_nonempty_text_def
        max_postgres_bigint_def sample_stamps_def)
  moreover have "j_user_id keyed_job = 3" "j_room_id keyed_job = 7"
    by (simp_all add: keyed_job_def sample_job_def)
  ultimately show "scoped_row sample_lib sample_db1 keyed_job (u ''k'') ?d"
    by (simp add: scoped_row_def sample_db1_tables)
qed

lemma sample_again:
  "snd (persist_ingress_job sample_lib sample_pg Commit_ok sample_stamps keyed_job sample_db1)
     = Inr (set_key sample_row ''persisted_at'' (JStr (st_after sample_stamps)))"
proof -
  have env: "event_envelope sample_lib (job_obj keyed_job) =
      Inr (u ''order.created'', [(u ''text'', JStr (u ''hi''))], [])"
    using event_envelope_job_obj [OF keyed_job_wf, of sample_lib]
    by (simp add: keyed_job_def sample_job_def)
  have "snd (persist_body sample_lib sample_pg sample_stamps keyed_job sample_db1) = Inr sample_row"
    using sample_db1_tables(2,3)
    by (auto simp: persist_body_def persist_message_with_cursor_def env sample_cached keyed_job_id
        Let_def sample_status_payload upsert_request_status_def sample_persisted_normalized
        owner_of_def simp flip: sample_row_def)
  then show ?thesis
    by (cases "persist_body sample_lib sample_pg sample_stamps keyed_job sample_db1")
      (simp add: persist_ingress_job_def run_tx_def)
qed

theorem idempotency_key_stores_one_event_witness:
  "get_none (set_key sample_row ''persisted_at'' (JStr (st_after sample_stamps))) ''id''
     = get_none (set_key sample_row ''persisted_at'' (JStr (st_after sample_stamps))) ''id''
   \<and> messages (fst (persist_ingress_job sample_lib sample_pg Commit_ok sample_stamps keyed_job sample_db1))
     = messages (ingest sample_lib sample_pg [] sample_db1)"
proof (rule idempotency_key_stores_one_event [OF jsonb_identity sample_db_ok(1) keyed_job_wf _
      keyed_job_id(2) _ _ sample_persist _ keyed_job_wf refl keyed_job_id(2)])
  show "persist_ingress_job sample_lib sample_pg Commit_ok sample_stamps keyed_job
      (ingest sample_lib sample_pg [] sample_db1)
    = (fst (persist_ingress_job sample_lib sample_pg Commit_ok sample_stamps keyed_job sample_db1),
       Inr (set_key sample_row ''persisted_at'' (JStr (st_after sample_stamps))))"
    using sample_again by (simp add: ingest_def prod_eq_iff)
qed (simp_all add: sample_stamps_def sample_db_def empty_db_def find_request_def)

end
