(* ===== verification/Codec.thy ===== *)
theory Codec
  imports Py_Json
begin

text \<open>
  The byte encodings the services use: base64 in the standard and the URL alphabet
  (\<open>portfolio/auth.py\<close> strips the padding), lower-case hexadecimal digests and UTF-8. Base64 of
  \<open>b64decode(.., validate=True)\<close> refuses every character outside the alphabet and padding
  that does not complete the last group (surplus padding after a complete group is ignored, as
  Python 3.11 does); with \<open>altchars\<close> both alphabets are accepted.
\<close>

section \<open>Base64\<close>

definition b64_char :: "bool \<Rightarrow> nat \<Rightarrow> nat" where
  "b64_char url n =
     (if n < 26 then 65 + n
      else if n < 52 then 97 + (n - 26)
      else if n < 62 then 48 + (n - 52)
      else if n = 62 then (if url then 45 else 43)
      else (if url then 95 else 47))"

definition b64_index :: "bool \<Rightarrow> nat \<Rightarrow> nat option" where
  "b64_index url c =
     (if 65 \<le> c \<and> c \<le> 90 then Some (c - 65)
      else if 97 \<le> c \<and> c \<le> 122 then Some (c - 97 + 26)
      else if 48 \<le> c \<and> c \<le> 57 then Some (c - 48 + 52)
      else if c = 43 \<or> url \<and> c = 45 then Some 62
      else if c = 47 \<or> url \<and> c = 95 then Some 63
      else None)"

definition is_pad :: "nat \<Rightarrow> bool" where
  "is_pad c \<longleftrightarrow> c = 61"

lemma b64_index_char [simp]: "n < 64 \<Longrightarrow> b64_index url (b64_char url n) = Some n"
  by (auto simp: b64_index_def b64_char_def)

lemma b64_char_not_pad [simp]: "b64_char url n \<noteq> 61" "61 \<noteq> b64_char url n"
  by (auto simp: b64_char_def)

fun b64_encode :: "bool \<Rightarrow> bytes \<Rightarrow> ustr" where
  "b64_encode url [] = []"
| "b64_encode url [a] =
     (let x = unat a in [b64_char url (x div 4), b64_char url ((x mod 4) * 16), 61, 61])"
| "b64_encode url [a, b] =
     (let x = unat a; y = unat b in
      [b64_char url (x div 4), b64_char url ((x mod 4) * 16 + y div 16),
       b64_char url ((y mod 16) * 4), 61])"
| "b64_encode url (a # b # c # bs) =
     (let x = unat a; y = unat b; z = unat c in
      [b64_char url (x div 4), b64_char url ((x mod 4) * 16 + y div 16),
       b64_char url ((y mod 16) * 4 + z div 64), b64_char url (z mod 64)])
     @ b64_encode url bs"

definition b64_quad :: "bool \<Rightarrow> nat \<Rightarrow> nat \<Rightarrow> nat \<Rightarrow> nat \<Rightarrow> bytes option" where
  "b64_quad url a b c d =
     (case (b64_index url a, b64_index url b, b64_index url c, b64_index url d) of
        (Some w, Some x, Some y, Some z) \<Rightarrow>
          Some [of_nat (w * 4 + x div 16), of_nat (x mod 16 * 16 + y div 4), of_nat (y mod 4 * 64 + z)]
      | _ \<Rightarrow> None)"

text \<open>The last group may be padded.\<close>

definition b64_last :: "bool \<Rightarrow> nat \<Rightarrow> nat \<Rightarrow> nat \<Rightarrow> nat \<Rightarrow> bytes option" where
  "b64_last url a b c d =
     (if c = 61 \<and> d = 61 then map_option (take 1) (b64_quad url a b 65 65)
      else if d = 61 then map_option (take 2) (b64_quad url a b c 65)
      else b64_quad url a b c d)"

fun b64_decode :: "bool \<Rightarrow> ustr \<Rightarrow> bytes option" where
  "b64_decode url [] = Some []"
| "b64_decode url (a # b # c # d # r) =
     (if list_all is_pad r \<and> (r = [] \<or> d \<noteq> 61) then b64_last url a b c d
      else case b64_quad url a b c d of
             None \<Rightarrow> None
           | Some xs \<Rightarrow> map_option ((@) xs) (b64_decode url r))"
| "b64_decode url _ = None"

lemma b64_encode_Nil [simp]: "b64_encode url bs = [] \<longleftrightarrow> bs = []"
  by (cases "(url, bs)" rule: b64_encode.cases) (simp_all add: Let_def)

lemma unat_byte [simp]: "unat (b :: 8 word) < 256"
  using unsigned_less [of b] by simp

lemma byte_of_nat: "n = unat (b :: 8 word) \<Longrightarrow> (of_nat n :: 8 word) = b"
  by simp

lemma b64_quad_chars:
  assumes "x < 256" "y < 256" "z < 256"
  shows "b64_quad url (b64_char url (x div 4)) (b64_char url ((x mod 4) * 16 + y div 16))
      (b64_char url ((y mod 16) * 4 + z div 64)) (b64_char url (z mod 64))
    = Some [of_nat x, of_nat y, of_nat z]"
proof -
  have small: "y div 16 < 16" "z div 64 < 4" "x mod 4 < 4" "y mod 16 < 16" "x div 4 < 64" "z mod 64 < 64"
    using assms by simp_all
  then have lt: "(x mod 4) * 16 + y div 16 < 64" "(y mod 16) * 4 + z div 64 < 64" by linarith+
  have parts: "((x mod 4) * 16 + y div 16) div 16 = x mod 4" "((x mod 4) * 16 + y div 16) mod 16 = y div 16"
    "((y mod 16) * 4 + z div 64) div 4 = y mod 16" "((y mod 16) * 4 + z div 64) mod 4 = z div 64"
    using small by simp_all
  have eq: "x div 4 * 4 + ((x mod 4) * 16 + y div 16) div 16 = x"
    "((x mod 4) * 16 + y div 16) mod 16 * 16 + ((y mod 16) * 4 + z div 64) div 4 = y"
    "((y mod 16) * 4 + z div 64) mod 4 * 64 + z mod 64 = z"
    by (simp_all only: parts div_mult_mod_eq)
  show ?thesis using lt small by (simp only: b64_quad_def b64_index_char option.case prod.case eq)
qed

lemma b64_A: "b64_char url 0 = 65"
  by (simp add: b64_char_def)

lemma b64_decode_encode: "b64_decode url (b64_encode url bs) = Some bs"
proof (induction url bs rule: b64_encode.induct)
  case (2 url a)
  have "b64_quad url (b64_char url (unat a div 4)) (b64_char url (unat a mod 4 * 16)) 65 65
      = Some [a, 0, 0]"
    using b64_quad_chars [of "unat a" 0 0 url] by (simp add: b64_A)
  then show ?case by (simp add: Let_def b64_last_def)
next
  case (3 url a b)
  have "b64_quad url (b64_char url (unat a div 4)) (b64_char url (unat a mod 4 * 16 + unat b div 16))
      (b64_char url (unat b mod 16 * 4)) 65 = Some [a, b, 0]"
    using b64_quad_chars [of "unat a" "unat b" 0 url] by (simp add: b64_A)
  then show ?case by (simp add: Let_def b64_last_def)
next
  case (4 url a b c bs)
  have rest: "bs = [] \<or> \<not> list_all is_pad (b64_encode url bs)"
    by (cases "(url, bs)" rule: b64_encode.cases) (simp_all add: Let_def is_pad_def)
  show ?case
    using b64_quad_chars [of "unat a" "unat b" "unat c" url] rest 4
    by (auto simp: Let_def b64_last_def)
qed simp

section \<open>URL-safe segments without padding\<close>

text \<open>\<open>_b64url_encode\<close>: encode and strip the trailing padding; \<open>_b64url_decode\<close>: pad and decode.\<close>

definition b64url_encode :: "bytes \<Rightarrow> ustr" where
  "b64url_encode bs = rev (dropWhile is_pad (rev (b64_encode True bs)))"

definition b64url_decode :: "ustr \<Rightarrow> bytes option" where
  "b64url_decode s = b64_decode True (s @ replicate (nat ((- int (length s)) mod 4)) 61)"

fun b64_body :: "bytes \<Rightarrow> ustr" where
  "b64_body [] = []"
| "b64_body [a] = take 2 (b64_encode True [a])"
| "b64_body [a, b] = take 3 (b64_encode True [a, b])"
| "b64_body (a # b # c # bs) = take 4 (b64_encode True [a, b, c]) @ b64_body bs"

lemma b64_body_no_pad: "c \<in> set (b64_body bs) \<Longrightarrow> c \<noteq> 61"
  by (induction bs rule: b64_body.induct) (auto simp: Let_def)

lemma b64_encode_body:
  "b64_encode True bs = b64_body bs @ replicate (nat ((- int (length (b64_body bs))) mod 4)) 61"
proof (induction bs rule: b64_body.induct)
  case (4 a b c bs)
  have "(- int (length (b64_body (a # b # c # bs)))) mod 4 = (- int (length (b64_body bs))) mod 4"
    by (simp add: Let_def) presburger
  with 4 show ?case by (simp add: Let_def)
qed (simp_all add: Let_def numeral_2_eq_2)

lemma b64url_encode_body: "b64url_encode bs = b64_body bs"
proof -
  have "dropWhile is_pad (rev (b64_body bs)) = rev (b64_body bs)"
    using b64_body_no_pad [of _ bs]
    by (cases "rev (b64_body bs)") (auto simp: is_pad_def dest!: arg_cong [of _ _ set])
  then show ?thesis
    by (subst b64url_encode_def, subst b64_encode_body)
      (simp add: dropWhile_append is_pad_def dropWhile_eq_Nil_conv [THEN iffD2] )
qed

lemma b64url_roundtrip [simp]: "b64url_decode (b64url_encode bs) = Some bs"
  using b64_encode_body [of bs] b64_decode_encode [of True bs]
  by (simp add: b64url_decode_def b64url_encode_body)

text \<open>
  Base64 loses nothing: decoding the unpadded URL-safe encoding of any bytes gives the bytes
  back, and so does the padded standard one.
\<close>

theorem b64_roundtrip:
  "b64url_decode (b64url_encode bs) = Some bs \<and> b64_decode False (b64_encode False bs) = Some bs"
  by (simp add: b64_decode_encode)

section \<open>UTF-8\<close>

text \<open>
  \<open>str.encode('utf-8')\<close> refuses a surrogate code point (\<open>None\<close>); with \<open>errors='replace'\<close> it
  writes a question mark for it.
\<close>

definition is_surrogate :: "nat \<Rightarrow> bool" where
  "is_surrogate c \<longleftrightarrow> 55296 \<le> c \<and> c \<le> 57343"

definition utf8_char :: "nat \<Rightarrow> bytes" where
  "utf8_char c =
     (if c < 128 then [of_nat c]
      else if c < 2048 then [of_nat (192 + c div 64), of_nat (128 + c mod 64)]
      else if c < 65536 then
        [of_nat (224 + c div 4096), of_nat (128 + c div 64 mod 64), of_nat (128 + c mod 64)]
      else
        [of_nat (240 + c div 262144), of_nat (128 + c div 4096 mod 64),
         of_nat (128 + c div 64 mod 64), of_nat (128 + c mod 64)])"

definition utf8_encode :: "ustr \<Rightarrow> bytes option" where
  "utf8_encode s = (if list_ex is_surrogate s then None else Some (concat (map utf8_char s)))"

definition utf8_replace :: "ustr \<Rightarrow> bytes" where
  "utf8_replace s = concat (map (\<lambda>c. if is_surrogate c then [63] else utf8_char c) s)"

lemma utf8_encode_length: "utf8_encode s = Some bs \<Longrightarrow> length bs = utf8_len s"
proof -
  have "length (concat (map utf8_char s)) = utf8_len s"
    by (induction s) (auto simp: utf8_len_def utf8_char_def)
  then show "utf8_encode s = Some bs \<Longrightarrow> length bs = utf8_len s"
    by (auto simp: utf8_encode_def split: if_splits)
qed

lemma utf8_replace_encode: "utf8_encode s = Some bs \<Longrightarrow> utf8_replace s = bs"
  by (induction s arbitrary: bs) (auto simp: utf8_encode_def utf8_replace_def split: if_splits)

end
