(* ===== verification/Kafka_Client.thy ===== *)
theory Kafka_Client
  imports Codec Event_Envelope "HOL-Library.Product_Lexorder"
begin

text \<open>
  \<open>portfolio/kafka_client.py\<close>: what the consumers hand to the handlers and what the producers
  accept. A value that cannot be decoded, or whose structure is invalid, becomes a marker
  dictionary of the class \<open>InvalidKafkaPayload\<close> with the provenance of the bytes; everything
  published passes the structure validation first.
\<close>

section \<open>Decoding\<close>

text \<open>
  \<open>json.loads(value.decode('utf-8'), parse_constant=..)\<close> and the decoding of keys stay
  parameters; a failure carries the name of the exception's type.
\<close>

record kafka_lib =
  decode_bytes :: "bytes \<Rightarrow> ustr + json"
  decode_utf8 :: "bytes \<Rightarrow> ustr option"

text \<open>A deserialised record value: a JSON value (\<open>None\<close> is \<open>JNull\<close>) or a marker.\<close>

datatype raw = Value json | Marked obj

fun raw_json :: "raw \<Rightarrow> json" where
  "raw_json (Value v) = v"
| "raw_json (Marked d) = JObj d"

text \<open>
  \<open>raw if isinstance(raw, dict) else json.loads(raw)\<close>: only a text is parsed again, every
  other value is a type error.
\<close>

definition load_raw :: "pylib \<Rightarrow> raw \<Rightarrow> exn + json" where
  "load_raw L r =
     (case r of
        Marked d \<Rightarrow> Inr (JObj d)
      | Value v \<Rightarrow>
          (case v of
             JObj d \<Rightarrow> Inr (JObj d)
           | JStr s \<Rightarrow> (case loads L s of None \<Rightarrow> Inl (value_error ''JSONDecodeError'') | Some w \<Rightarrow> Inr w)
           | _ \<Rightarrow> Inl TypeError))"

definition invalid_kafka_payload_marker :: string where
  "invalid_kafka_payload_marker = ''__invalid_kafka_payload__''"

definition is_invalid_kafka_payload :: "json \<Rightarrow> bool" where
  "is_invalid_kafka_payload v \<longleftrightarrow>
     (case v of JObj d \<Rightarrow> get_none d invalid_kafka_payload_marker = JBool True | _ \<Rightarrow> False)"

definition hexdigest :: "bytes \<Rightarrow> ustr" where
  "hexdigest bs = concat (map (\<lambda>b. [hex_digit (unat b div 16), hex_digit (unat b mod 16)]) bs)"

definition invalid_payload :: "pylib \<Rightarrow> ustr \<Rightarrow> bytes \<Rightarrow> obj" where
  "invalid_payload L error value =
     [(u invalid_kafka_payload_marker, JBool True),
      (u ''decode_error'', JStr error),
      (u ''raw_base64'', JStr (b64_encode False (take 2048 value))),
      (u ''raw_size'', JInt (int (length value))),
      (u ''raw_sha256'', JStr (hexdigest (sha256 L value)))]"

definition decode_json :: "pylib \<Rightarrow> kafka_lib \<Rightarrow> bool \<Rightarrow> bytes option \<Rightarrow> raw" where
  "decode_json L K validate_structure value =
     (case value of
        None \<Rightarrow> Value JNull
      | Some bs \<Rightarrow>
          (case decode_bytes K bs of
             Inl error \<Rightarrow> Marked (invalid_payload L error bs)
           | Inr v \<Rightarrow>
               (if validate_structure then
                  (case validate_json_wire v of
                     Inl e \<Rightarrow> Marked (invalid_payload L (exn_name e) bs)
                   | Inr _ \<Rightarrow> Value v)
                else Value v)))"

definition deserialize_json :: "pylib \<Rightarrow> kafka_lib \<Rightarrow> bytes option \<Rightarrow> raw" where
  "deserialize_json L K value = decode_json L K True value"

definition deserialize_utf8_key :: "kafka_lib \<Rightarrow> bytes option \<Rightarrow> ustr option" where
  "deserialize_utf8_key K value =
     (case value of None \<Rightarrow> None | Some bs \<Rightarrow> decode_utf8 K bs)"

lemma good_text_ascii: "\<forall>c\<in>set s. 0 < c \<and> c < 55296 \<Longrightarrow> good_text s"
  by (fastforce simp: good_text_def has_nul_def contains_utf16_surrogate_def)

lemma b64_char_ascii [simp]: "0 < b64_char url n" "b64_char url n < 128"
  by (auto simp: b64_char_def)

lemma b64_encode_ascii: "\<forall>c\<in>set (b64_encode url bs). 0 < c \<and> c < 128"
  by (induction url bs rule: b64_encode.induct) (simp_all add: Let_def)

lemma hexdigest_ascii: "c \<in> set (hexdigest bs) \<Longrightarrow> 0 < c \<and> c < 128"
proof -
  assume "c \<in> set (hexdigest bs)"
  then obtain b where "c = hex_digit (unat (b :: 8 word) div 16) \<or> c = hex_digit (unat b mod 16)"
    by (auto simp: hexdigest_def)
  moreover have "unat b div 16 < 16" by (rule less_mult_imp_div_less) simp
  moreover have "unat b mod 16 < 16" by simp
  moreover have "0 < hex_digit n \<and> hex_digit n < 128" if "n < 16" for n
    using that by (simp add: hex_digit_def)
  ultimately show ?thesis by blast
qed

lemma invalid_payload_marked [simp]: "is_invalid_kafka_payload (JObj (invalid_payload L e bs))"
  by (simp add: is_invalid_kafka_payload_def invalid_payload_def invalid_kafka_payload_marker_def text_simps)

lemma invalid_payload_ok: "good_text e \<Longrightarrow> json_ok 65 (JObj (invalid_payload L e bs))"
proof -
  have "good_text (b64_encode False (take 2048 bs))" "good_text (hexdigest (sha256 L bs))"
    using b64_encode_ascii hexdigest_ascii by (auto intro!: good_text_ascii; fastforce)+
  then show "good_text e \<Longrightarrow> json_ok 65 (JObj (invalid_payload L e bs))"
    by (simp add: invalid_payload_def good_text_def invalid_kafka_payload_marker_def)
qed

lemma exn_name_good: "good_text (exn_name e)"
  by (cases e) (simp_all add: good_text_def)

text \<open>
  Handlers never see a malformed value unmarked. Whatever bytes arrive, the deserialised
  value either satisfies the structural rules (valid text, finite numbers, at most 65 levels)
  or is a marker that \<open>is_invalid_kafka_payload\<close> recognises, and the marker itself satisfies
  those rules, so it can be published to the dead-letter topic.
\<close>

theorem decode_json_safe:
  assumes "\<forall>bs e. decode_bytes K bs = Inl e \<longrightarrow> good_text e"
  shows "case deserialize_json L K value of
      Value v \<Rightarrow> json_ok max_json_wire_nesting_depth v
    | Marked d \<Rightarrow> is_invalid_kafka_payload (JObj d) \<and> json_ok max_json_wire_nesting_depth (JObj d)"
proof -
  have depth: "max_json_wire_nesting_depth = 65"
    by (simp add: max_json_wire_nesting_depth_def max_json_nesting_depth_def)
  have ok: "json_ok max_json_wire_nesting_depth v" if "validate_json_wire v = Inr x" for v x
    using that by (cases x) simp
  show ?thesis
    using assms invalid_payload_ok [OF exn_name_good] invalid_payload_ok [of _ L] ok
    unfolding deserialize_json_def decode_json_def
    by (auto simp: depth simp del: json_ok.simps(3,4) validate_json_structure_ok
        split: option.splits sum.splits)
qed

section \<open>Publishing\<close>

text \<open>\<open>_serialize_json\<close>: what the producer sends, or the exception that precedes the send.\<close>

definition serialize_json :: "json \<Rightarrow> exn + json option" where
  "serialize_json v =
     (if v = JNull then Inr None
      else rbind (validate_json_wire v) (\<lambda>_. Inr (Some v)))"

datatype send_result = Sent | Send_failed exn | Sent_unacked exn

text \<open>
  A topic is the list of (key, value) records the broker accepted. \<open>publish_job\<close> is the common
  shape of \<open>publish_ingress_job\<close>, \<open>publish_dlq_job\<close> and \<open>publish_notification_job\<close>: the value
  is serialised, sent, and the acknowledgement awaited.
\<close>

type_synonym topic = "(int \<times> json) list"

definition publish_job :: "send_result \<Rightarrow> int \<Rightarrow> json \<Rightarrow> topic \<Rightarrow> topic \<times> (exn + unit)" where
  "publish_job send key value t =
     (case serialize_json value of
        Inl e \<Rightarrow> (t, Inl e)
      | Inr v \<Rightarrow>
          (let r = (key, case v of None \<Rightarrow> JNull | Some w \<Rightarrow> w) in
           case send of
             Sent \<Rightarrow> (t @ [r], Inr ())
           | Send_failed e \<Rightarrow> (t, Inl e)
           | Sent_unacked e \<Rightarrow> (t @ [r], Inl e)))"

lemma publish_job_cases:
  assumes "publish_job send key value t = (t', q)"
  obtains (sent) "t' = t @ [(key, value)]" "q = Inr ()" "send = Sent"
        "value = JNull \<or> json_ok max_json_wire_nesting_depth value"
    | (unacked) e where "t' = t @ [(key, value)]" "q = Inl e"
    | (not_sent) e where "t' = t" "q = Inl e"
  using assms
  by (cases send)
    (auto simp: publish_job_def serialize_json_def Let_def rbind_eq_Inr split: sum.splits if_splits
      intro: that)

lemma publish_valid:
  assumes "json_ok max_json_wire_nesting_depth (JObj d)"
  shows "publish_job Sent key (JObj d) t = (t @ [(key, JObj d)], Inr ())"
    "publish_job (Send_failed e) key (JObj d) t = (t, Inl e)"
    "publish_job (Sent_unacked e) key (JObj d) t = (t @ [(key, JObj d)], Inl e)"
proof -
  have "validate_json_wire (JObj d) = Inr ()" using assms by simp
  then have "serialize_json (JObj d) = Inr (Some (JObj d))"
    by (simp add: serialize_json_def del: validate_json_structure_ok)
  then show "publish_job Sent key (JObj d) t = (t @ [(key, JObj d)], Inr ())"
    "publish_job (Send_failed e) key (JObj d) t = (t, Inl e)"
    "publish_job (Sent_unacked e) key (JObj d) t = (t @ [(key, JObj d)], Inl e)"
    by (simp_all add: publish_job_def)
qed

section \<open>Bootstrap servers\<close>

fun split_on :: "nat \<Rightarrow> ustr \<Rightarrow> ustr list" where
  "split_on sep [] = [[]]"
| "split_on sep (c # cs) =
     (if c = sep then [] # split_on sep cs
      else (case split_on sep cs of [] \<Rightarrow> [[c]] | w # ws \<Rightarrow> (c # w) # ws))"

definition is_space :: "nat \<Rightarrow> bool" where
  "is_space c \<longleftrightarrow> 9 \<le> c \<and> c \<le> 13 \<or> 28 \<le> c \<and> c \<le> 32
     \<or> c \<in> {133, 160, 5760, 8232, 8233, 8239, 8287, 12288} \<or> 8192 \<le> c \<and> c \<le> 8202"

definition strip :: "ustr \<Rightarrow> ustr" where
  "strip s = rev (dropWhile is_space (rev (dropWhile is_space s)))"

definition bootstrap_servers :: "ustr \<Rightarrow> ustr list" where
  "bootstrap_servers s = filter (\<lambda>x. x \<noteq> []) (map strip (split_on 44 s))"

section \<open>The most recent records of a topic\<close>

record kafka_message =
  k_topic :: ustr
  k_partition :: int
  k_offset :: int
  k_timestamp :: "int option"
  k_key :: "ustr option"
  k_value :: raw

record partition_range =
  p_id :: int
  p_begin :: int
  p_end :: int

text \<open>The offset each partition is read from, in the order of the partitions.\<close>

definition recent_starts :: "int \<Rightarrow> partition_range list \<Rightarrow> (int \<times> int) list" where
  "recent_starts limit rs = map (\<lambda>r. (p_id r, max (p_begin r) (p_end r - limit))) (sort_key p_id rs)"

text \<open>
  The polling loop: it stops at the deadline, when every partition is read up to the end it had
  at the start, or when a poll returns nothing. A poll is given with what the two tests before
  it said.
\<close>

fun collect_polls :: "(bool \<times> bool \<times> kafka_message list) list \<Rightarrow> kafka_message list" where
  "collect_polls [] = []"
| "collect_polls ((late, caught_up, ms) # ps) =
     (if late \<or> caught_up \<or> ms = [] then [] else ms @ collect_polls ps)"

definition recency :: "kafka_message \<Rightarrow> int \<times> int \<times> int" where
  "recency m = (case k_timestamp m of None \<Rightarrow> 0 | Some t \<Rightarrow> t, k_partition m, k_offset m)"

text \<open>\<open>sort(key=.., reverse=True)\<close> is stable on the reversed order.\<close>

definition newest_first :: "kafka_message list \<Rightarrow> kafka_message list" where
  "newest_first ms = rev (sort_key recency (rev ms))"

definition list_recent_topic_messages ::
    "nat \<Rightarrow> partition_range list \<Rightarrow> (bool \<times> bool \<times> kafka_message list) list \<Rightarrow> kafka_message list" where
  "list_recent_topic_messages limit rs polls =
     (if rs = [] then [] else take limit (newest_first (collect_polls polls)))"

lemma newest_first_sorted: "sorted_wrt (\<lambda>a b. recency b \<le> recency a) (newest_first ms)"
proof -
  have "sorted_wrt (\<lambda>a b. recency a \<le> recency b) (sort_key recency (rev ms))"
    using sorted_sort_key [of recency "rev ms"] by (simp add: sorted_wrt_map)
  then show ?thesis by (simp add: newest_first_def sorted_wrt_rev)
qed

lemma newest_first_set [simp]: "set (newest_first ms) = set ms"
  by (simp add: newest_first_def)

text \<open>
  The dead-letter listing shows the newest records. The result has at most \<open>limit\<close> records,
  newest first, all of them polled, and a polled record it leaves out is not newer than any
  record it shows; and each partition is read from at most \<open>limit\<close> records before its end, never
  before its beginning.
\<close>

theorem list_recent_newest:
  "length (list_recent_topic_messages limit rs polls) \<le> limit
   \<and> sorted_wrt (\<lambda>a b. recency b \<le> recency a) (list_recent_topic_messages limit rs polls)
   \<and> set (list_recent_topic_messages limit rs polls) \<subseteq> set (collect_polls polls)
   \<and> (\<forall>m\<in>set (list_recent_topic_messages limit rs polls). \<forall>x\<in>set (collect_polls polls).
        x \<notin> set (list_recent_topic_messages limit rs polls) \<longrightarrow> recency x \<le> recency m)
   \<and> (\<forall>(p, start)\<in>set (recent_starts (int limit) rs). \<exists>r\<in>set rs. p = p_id r \<and> p_begin r \<le> start
        \<and> p_end r - start \<le> int limit)"
proof (cases "rs = []")
  case False
  let ?xs = "newest_first (collect_polls polls)"
  have eq: "list_recent_topic_messages limit rs polls = take limit ?xs"
    using False by (simp add: list_recent_topic_messages_def)
  have sorted: "sorted_wrt (\<lambda>a b. recency b \<le> recency a) (take limit ?xs @ drop limit ?xs)"
    using newest_first_sorted by simp
  have rest: "recency x \<le> recency m"
    if "m \<in> set (take limit ?xs)" "x \<in> set (collect_polls polls)" "x \<notin> set (take limit ?xs)" for m x
  proof -
    have "x \<in> set (take limit ?xs @ drop limit ?xs)" using that(2) by simp
    then have "x \<in> set (drop limit ?xs)" using that(3) by (simp only: set_append Un_iff) blast
    with sorted that(1) show ?thesis by (simp add: sorted_wrt_append del: append_take_drop_id)
  qed
  have "sorted_wrt (\<lambda>a b. recency b \<le> recency a) (take limit ?xs)"
    using sorted by (simp add: sorted_wrt_append del: append_take_drop_id)
  moreover have "set (take limit ?xs) \<subseteq> set (collect_polls polls)"
    using set_take_subset [of limit ?xs] by simp
  ultimately show ?thesis using rest by (auto simp: eq recent_starts_def)
qed (simp add: list_recent_topic_messages_def recent_starts_def)

section \<open>Topic administration\<close>

text \<open>
  \<open>reset_topic\<close>: delete (an unknown topic is fine), wait at most ten seconds until the broker no
  longer lists it, create (an existing topic is fine). Every other exception propagates; the
  client is closed on every path. \<open>listed\<close> is what the broker answers in each round of the wait,
  with whether the deadline has passed.
\<close>

datatype admin_result = Admin_ok | Unknown_topic | Already_exists | Admin_error exn

fun wait_until_gone :: "(bool \<times> bool) list \<Rightarrow> nat" where
  "wait_until_gone [] = 0"
| "wait_until_gone ((listed, in_time) # rs) =
     (if listed \<and> in_time then Suc (wait_until_gone rs) else 0)"

definition reset_topic ::
    "admin_result \<Rightarrow> (bool \<times> bool) list \<Rightarrow> admin_result \<Rightarrow> (exn + nat)" where
  "reset_topic deleted rounds created =
     (case deleted of
        Admin_error e \<Rightarrow> Inl e
      | Already_exists \<Rightarrow> Inl KafkaError
      | _ \<Rightarrow>
          (case created of
             Admin_error e \<Rightarrow> Inl e
           | Unknown_topic \<Rightarrow> Inl KafkaError
           | _ \<Rightarrow> Inr (wait_until_gone rounds)))"

text \<open>\<open>ping_kafka\<close>: the health gauge and the answer.\<close>

definition ping_kafka :: "exn option \<Rightarrow> bool" where
  "ping_kafka failure = (failure = None)"

section \<open>Concrete instances\<close>

definition sample_record :: "int \<Rightarrow> int \<Rightarrow> kafka_message" where
  "sample_record offset timestamp = \<lparr>k_topic = u ''dlq'', k_partition = 0, k_offset = offset,
     k_timestamp = Some timestamp, k_key = None, k_value = Value JNull\<rparr>"

definition sample_polls :: "(bool \<times> bool \<times> kafka_message list) list" where
  "sample_polls = [(False, False, [sample_record 3 10, sample_record 4 20])]"

theorem list_recent_newest_witness:
  "set (list_recent_topic_messages 1 [\<lparr>p_id = 0, p_begin = 0, p_end = 5\<rparr>] sample_polls)
     \<subseteq> {sample_record 3 10, sample_record 4 20}"
  using list_recent_newest [of 1 "[\<lparr>p_id = 0, p_begin = 0, p_end = 5\<rparr>]" sample_polls]
  by (simp add: sample_polls_def)

theorem decode_json_safe_witness:
  "case deserialize_json \<lparr>float_repr = (\<lambda>_. []), loads = (\<lambda>_. None), fromiso = (\<lambda>_. None),
        sha256 = (\<lambda>_. [])\<rparr> \<lparr>decode_bytes = (\<lambda>_. Inl (u ''UnicodeDecodeError'')), decode_utf8 = (\<lambda>_. None)\<rparr>
      (Some [255]) of
      Value v \<Rightarrow> json_ok max_json_wire_nesting_depth v
    | Marked d \<Rightarrow> is_invalid_kafka_payload (JObj d) \<and> json_ok max_json_wire_nesting_depth (JObj d)"
  by (rule decode_json_safe) (simp add: good_text_def)

end
