(* ===== verification/Outbox.thy ===== *)
theory Outbox
  imports Persistence Kafka_Client "HOL-Library.Product_Lexorder"
begin

text \<open>
  \<open>worker/outbox.py\<close>, the relay that publishes the notification intents: \<open>relay_once\<close> takes the
  first due row nobody else has locked, publishes it and marks it published, or postpones it
  with a bounded exponential backoff. The topic is the list of records the broker accepted; a
  send may fail, and may fail although the broker accepted the record.
\<close>

section \<open>One relay transaction\<close>

definition due :: "rat \<Rightarrow> (int \<Rightarrow> bool) \<Rightarrow> outbox_row \<Rightarrow> bool" where
  "due now locked x \<longleftrightarrow>
     o_published_at x = None \<and> o_next_attempt_at x \<le> now \<and> \<not> locked (o_message_id x)"

text \<open>\<open>ORDER BY next_attempt_at, message_id LIMIT 1 FOR UPDATE SKIP LOCKED\<close>.\<close>

definition next_due :: "rat \<Rightarrow> (int \<Rightarrow> bool) \<Rightarrow> db \<Rightarrow> outbox_row option" where
  "next_due now locked db =
     (case sort_key (\<lambda>x. (o_next_attempt_at x, o_message_id x)) (filter (due now locked) (outbox db)) of
        [] \<Rightarrow> None
      | x # _ \<Rightarrow> Some x)"

definition backoff :: "nat \<Rightarrow> nat" where
  "backoff n = min 60 (2 ^ min n 6)"

definition update_outbox :: "int \<Rightarrow> (outbox_row \<Rightarrow> outbox_row) \<Rightarrow> db \<Rightarrow> db" where
  "update_outbox i f db = db\<lparr>outbox := map (\<lambda>x. if o_message_id x = i then f x else x) (outbox db)\<rparr>"

definition postpone :: "exn \<Rightarrow> nat \<Rightarrow> rat \<Rightarrow> outbox_row \<Rightarrow> outbox_row" where
  "postpone e att now x =
     x\<lparr>o_attempts := o_attempts x + 1, o_last_error := Some (exn_name e),
       o_next_attempt_at := now + of_nat (backoff att)\<rparr>"

definition mark_sent :: "rat \<Rightarrow> outbox_row \<Rightarrow> outbox_row" where
  "mark_sent now x = x\<lparr>o_published_at := Some now, o_attempts := o_attempts x + 1, o_last_error := None\<rparr>"

text \<open>
  The send happens inside the transaction and is not undone by a rollback. \<open>now\<close> is the clock
  of the query, \<open>later\<close> the clock of the update.
\<close>

definition relay_once ::
    "tx_fault \<Rightarrow> send_result \<Rightarrow> (int \<Rightarrow> bool) \<Rightarrow> rat \<Rightarrow> rat \<Rightarrow> db \<times> topic \<Rightarrow> (db \<times> topic) \<times> (exn + bool)" where
  "relay_once f send locked now later s =
     (case s of (db, topic) \<Rightarrow>
        (case f of
           Conn_lost e \<Rightarrow> ((db, topic), Inl e)
         | _ \<Rightarrow>
             (case next_due now locked db of
                None \<Rightarrow> ((db, topic), Inr False)
              | Some row \<Rightarrow>
                  (case publish_job send (o_room_id row) (JObj (o_payload row)) topic of
                     (topic', sent) \<Rightarrow>
                       let upd = (case sent of Inl e \<Rightarrow> postpone e (o_attempts row) later
                                  | Inr _ \<Rightarrow> mark_sent later);
                           tx = run_tx f (\<lambda>db. (update_outbox (o_message_id row) upd db, Inr True)) db
                       in ((fst tx, topic'), snd tx)))))"

section \<open>The loop\<close>

text \<open>\<open>observe_backlog\<close>: how many rows are pending and how old the oldest one is.\<close>

definition pending :: "db \<Rightarrow> outbox_row list" where
  "pending db = filter (\<lambda>x. o_published_at x = None) (outbox db)"

definition observe_backlog :: "rat \<Rightarrow> db \<Rightarrow> nat \<times> rat" where
  "observe_backlog now db =
     (length (pending db),
      max 0 (case map o_created_at (pending db) of [] \<Rightarrow> 0 | ts \<Rightarrow> now - Min (set ts)))"

text \<open>
  One iteration of \<open>run_outbox_loop\<close>: the backlog is observed every ten seconds, then one row is
  relayed; an exception is logged and the row retained. The result is the next state, the next
  observation time, the health of the component and how long the loop sleeps.
\<close>

record outbox_inputs =
  oi_observe :: "exn option"
  oi_fault :: tx_fault
  oi_send :: send_result
  oi_locked :: "int \<Rightarrow> bool"
  oi_mono :: rat
  oi_now :: rat
  oi_later :: rat

definition outbox_iteration ::
    "outbox_inputs \<Rightarrow> rat \<Rightarrow> db \<times> topic \<Rightarrow> (db \<times> topic) \<times> rat \<times> bool \<times> rat" where
  "outbox_iteration x next_observation s =
     (if next_observation \<le> oi_mono x \<and> oi_observe x \<noteq> None then (s, next_observation, False, 2)
      else
        let next' = (if next_observation \<le> oi_mono x then oi_mono x + 10 else next_observation) in
        case relay_once (oi_fault x) (oi_send x) (oi_locked x) (oi_now x) (oi_later x) s of
          (s', Inl e) \<Rightarrow> (s', next', False, 2)
        | (s', Inr worked) \<Rightarrow> (s', next', True, if worked then 0 else 1 / 2))"

fun run_outbox :: "outbox_inputs list \<Rightarrow> rat \<Rightarrow> db \<times> topic \<Rightarrow> db \<times> topic" where
  "run_outbox [] n s = s"
| "run_outbox (x # xs) n s =
     (case outbox_iteration x n s of (s', n', _) \<Rightarrow> run_outbox xs n' s')"

section \<open>Lemmas\<close>

lemma backoff_bounds: "1 \<le> backoff a" "backoff a \<le> 60"
  by (simp_all add: backoff_def)

lemma next_due_Some:
  assumes "next_due now locked db = Some row"
  shows "row \<in> set (outbox db)" "due now locked row"
    "\<forall>x\<in>set (outbox db). due now locked x \<longrightarrow>
       (o_next_attempt_at row, o_message_id row) \<le> (o_next_attempt_at x, o_message_id x)"
proof -
  let ?k = "\<lambda>x. (o_next_attempt_at x, o_message_id x)"
  let ?xs = "filter (due now locked) (outbox db)"
  obtain ys where ys: "sort_key ?k ?xs = row # ys"
    using assms by (auto simp: next_due_def split: list.splits)
  then have set: "set (row # ys) = set ?xs" by (metis set_sort)
  have "sorted (map ?k (row # ys))" by (metis sorted_sort_key ys)
  then have "\<forall>x\<in>set (row # ys). ?k row \<le> ?k x" by auto
  then show "row \<in> set (outbox db)" "due now locked row"
    "\<forall>x\<in>set (outbox db). due now locked x \<longrightarrow> ?k row \<le> ?k x"
    using set by (metis (mono_tags, lifting) filter_is_subset list.set_intros(1) mem_Collect_eq set_filter subsetD)+
qed


definition row_key :: "outbox_row \<Rightarrow> int \<times> int \<times> obj" where
  "row_key x = (o_message_id x, o_room_id x, o_payload x)"

lemma row_key_updates [simp]:
  "row_key (postpone e n now x) = row_key x" "row_key (mark_sent now x) = row_key x"
  "o_message_id (postpone e n now x) = o_message_id x" "o_message_id (mark_sent now x) = o_message_id x"
  "o_room_id (postpone e n now x) = o_room_id x" "o_room_id (mark_sent now x) = o_room_id x"
  "o_payload (postpone e n now x) = o_payload x" "o_payload (mark_sent now x) = o_payload x"
  "o_published_at (postpone e n now x) = o_published_at x"
  "o_published_at (mark_sent now x) = Some now"
  by (simp_all add: row_key_def postpone_def mark_sent_def)

lemma update_outbox_fields [simp]:
  "messages (update_outbox i f db) = messages db" "attempts (update_outbox i f db) = attempts db"
  "message_ids (update_outbox i f db) = message_ids db"
  "room_sequences (update_outbox i f db) = room_sequences db" "rooms (update_outbox i f db) = rooms db"
  "room_members (update_outbox i f db) = room_members db"
  "outbox (update_outbox i f db) = map (\<lambda>x. if o_message_id x = i then f x else x) (outbox db)"
  by (simp_all add: update_outbox_def)

text \<open>What one relay transaction did.\<close>

lemma relay_cases:
  assumes "relay_once f send locked now later (db, topic) = ((db', topic'), q)"
  obtains (idle) "db' = db" "topic' = topic" "next_due now locked db = None \<or> (\<exists>e. q = Inl e)"
    | (sent_only) row where "db' = db" "next_due now locked db = Some row"
        "topic' = topic @ [(o_room_id row, JObj (o_payload row))]" "\<exists>e. q = Inl e"
    | (postponed) row e where "next_due now locked db = Some row"
        "topic' = topic \<or> topic' = topic @ [(o_room_id row, JObj (o_payload row))]"
        "db' = update_outbox (o_message_id row) (postpone e (o_attempts row) later) db"
        "\<not> (send = Sent \<and> json_ok max_json_wire_nesting_depth (JObj (o_payload row)))"
    | (published) row where "next_due now locked db = Some row"
        "topic' = topic @ [(o_room_id row, JObj (o_payload row))]"
        "db' = update_outbox (o_message_id row) (mark_sent later) db" "send = Sent"
proof (cases "next_due now locked db")
  case None
  with assms have "db' = db \<and> topic' = topic"
    by (cases f) (auto simp: relay_once_def)
  then show thesis using idle None by blast
next
  case (Some row)
  have undo: "rollback db (update_outbox i g db) = db" for i g
    by (simp add: rollback_def update_outbox_def)
  let ?rec = "(o_room_id row, JObj (o_payload row))"
  obtain t1 sent where pub:
    "publish_job send (o_room_id row) (JObj (o_payload row)) topic = (t1, sent)" by fastforce
  let ?upd = "case sent of Inl e \<Rightarrow> postpone e (o_attempts row) later | Inr _ \<Rightarrow> mark_sent later"
  have t1: "t1 = topic \<or> t1 = topic @ [?rec]"
    using pub by (cases rule: publish_job_cases) auto
  have applied: thesis
    if db': "db' = update_outbox (o_message_id row) ?upd db" and topic': "topic' = t1"
  proof (cases sent)
    case (Inl e)
    have "\<not> (send = Sent \<and> json_ok max_json_wire_nesting_depth (JObj (o_payload row)))"
      using pub Inl publish_valid(1) by fastforce
    then show thesis using postponed [of row e] Some t1 topic' db' Inl by simp
  next
    case (Inr x)
    then have "t1 = topic @ [?rec]" "send = Sent" using pub by (auto elim: publish_job_cases)
    then show thesis using published [of row] Some topic' db' Inr by simp
  qed
  show thesis
  proof (cases f)
    case (Conn_lost e)
    with assms have "db' = db \<and> topic' = topic \<and> q = Inl e" by (simp add: relay_once_def)
    then show thesis using idle by blast
  next
    case (Commit_lost e)
    then have "db' = db \<and> topic' = t1 \<and> q = Inl e"
      using assms Some pub by (simp add: relay_once_def run_tx_def undo Let_def)
    then show thesis using t1 idle sent_only [of row] Some by blast
  next
    case Commit_ok
    then have "db' = update_outbox (o_message_id row) ?upd db \<and> topic' = t1"
      using assms Some pub by (simp add: relay_once_def run_tx_def Let_def)
    then show thesis using applied by blast
  next
    case (Ack_lost e)
    then have "db' = update_outbox (o_message_id row) ?upd db \<and> topic' = t1"
      using assms Some pub by (simp add: relay_once_def run_tx_def Let_def)
    then show thesis using applied by blast
  qed
qed

text \<open>
  A row is marked published only after the broker accepted its record (the rows have distinct
  keys).
\<close>

definition sent_before_published :: "db \<times> topic \<Rightarrow> bool" where
  "sent_before_published s \<longleftrightarrow> distinct (map o_message_id (outbox (fst s)))
     \<and> (\<forall>x\<in>set (outbox (fst s)). o_published_at x \<noteq> None \<longrightarrow> (o_room_id x, JObj (o_payload x)) \<in> set (snd s))"

text \<open>How the outbox and the topic may evolve: no intent is lost or rewritten, none is unpublished.\<close>

definition outbox_advances :: "db \<times> topic \<Rightarrow> db \<times> topic \<Rightarrow> bool" where
  "outbox_advances s s' \<longleftrightarrow>
     map row_key (outbox (fst s')) = map row_key (outbox (fst s))
     \<and> list_all2 (\<lambda>x y. o_published_at x \<noteq> None \<longrightarrow> o_published_at y \<noteq> None)
         (outbox (fst s)) (outbox (fst s'))
     \<and> set (snd s) \<subseteq> set (snd s')
     \<and> (store_ok (fst s) \<longrightarrow> store_ok (fst s'))"

lemma store_ok_update_outbox:
  assumes "store_ok db" "\<And>x. o_message_id (g x) = o_message_id x" "\<And>x. o_room_id (g x) = o_room_id x"
  shows "store_ok (update_outbox i g db)"
proof -
  let ?db = "update_outbox i g db" and ?h = "\<lambda>x. if o_message_id x = i then g x else x"
  have h: "o_message_id (?h x) = o_message_id x" "o_room_id (?h x) = o_room_id x" for x
    using assms(2,3) by simp_all
  have ids: "map o_message_id (outbox ?db) = map o_message_id (outbox db)"
    using h(1) by simp
  have target: "has_target ?db = has_target db" by (simp add: has_target_def fun_eq_iff)
  have "messages_ok ?db"
    using assms(1) messages_ok_cong [of ?db db] by (simp add: store_ok_def db_ok_def)
  moreover have "\<forall>x\<in>set (outbox ?db). has_target ?db (o_message_id x) (o_room_id x)"
  proof
    fix y assume "y \<in> set (outbox ?db)"
    then obtain x where "x \<in> set (outbox db)" "y = ?h x" by auto
    then show "has_target ?db (o_message_id y) (o_room_id y)"
      using assms(1) h [of x] unfolding target
      by (simp add: store_ok_def db_ok_def notifications_ok_def)
  qed
  then have "notifications_ok ?db"
    using assms(1) ids target
    by (simp add: store_ok_def db_ok_def notifications_ok_def del: update_outbox_fields(7))
  moreover have "outbox_complete ?db"
  proof -
    have "\<exists>y\<in>set (outbox ?db). o_message_id y = m_id m" if m: "m \<in> set (messages db)" for m
    proof -
      obtain x where "x \<in> set (outbox db)" "o_message_id x = m_id m"
        using assms(1) m by (auto simp: store_ok_def outbox_complete_def)
      then have "?h x \<in> set (outbox ?db)" "o_message_id (?h x) = m_id m"
        using h(1) [of x] by auto
      then show ?thesis by blast
    qed
    then show ?thesis by (simp add: outbox_complete_def del: update_outbox_fields(7))
  qed
  ultimately show ?thesis by (simp add: store_ok_def db_ok_def)
qed

lemma outbox_advances_refl: "outbox_advances s s"
  by (simp add: outbox_advances_def list_all2_refl)

lemma outbox_advances_trans:
  "outbox_advances s t \<Longrightarrow> outbox_advances t w \<Longrightarrow> outbox_advances s w"
  unfolding outbox_advances_def
  by (auto elim: list_all2_trans [rotated])

lemma update_advances:
  assumes "\<And>x. row_key (g x) = row_key x" "\<And>x. o_published_at x \<noteq> None \<Longrightarrow> o_published_at (g x) \<noteq> None"
    "set t \<subseteq> set t'"
  shows "outbox_advances (db, t) (update_outbox i g db, t')"
proof -
  have key: "o_message_id (g x) = o_message_id x" "o_room_id (g x) = o_room_id x" for x
    using assms(1) [of x] by (simp_all add: row_key_def)
  show ?thesis
    using assms store_ok_update_outbox [of db g, OF _ key]
    by (auto simp: outbox_advances_def list_all2_map2 intro!: list_all2_refl)
qed

lemma row_key_ids:
  assumes "map row_key xs = map row_key ys"
  shows "map o_message_id xs = map o_message_id ys"
proof -
  have "map fst (map row_key xs) = map fst (map row_key ys)" using assms by simp
  then show ?thesis by (simp add: row_key_def comp_def)
qed


lemma relay_advances:
  assumes "relay_once f send locked now later s = (s', q)"
  shows "outbox_advances s s'"
    "sent_before_published s \<Longrightarrow> sent_before_published s'"
proof -
  obtain db t where s: "s = (db, t)" by (cases s)
  obtain db' t' where s': "s' = (db', t')" by (cases s')
  from assms have "relay_once f send locked now later (db, t) = ((db', t'), q)" by (simp add: s s')
  then have "outbox_advances s s' \<and> (sent_before_published s \<longrightarrow> sent_before_published s')"
  proof (cases rule: relay_cases)
    case idle
    then show ?thesis by (simp add: s s' outbox_advances_refl)
  next
    case (sent_only row)
    then show ?thesis
      by (auto simp: s s' outbox_advances_def sent_before_published_def list_all2_refl)
  next
    case (postponed row e)
    have adv: "outbox_advances s s'"
      unfolding s s' postponed(3) by (rule update_advances) (use postponed(2) in auto)
    then have ids: "map o_message_id (outbox db') = map o_message_id (outbox db)"
      by (intro row_key_ids) (simp add: outbox_advances_def s s')
    have "sent_before_published s'" if "sent_before_published s"
      using that postponed(2) ids
      by (auto simp: s s' sent_before_published_def postponed(3) simp del: map_map split: if_splits)
    with adv show ?thesis by blast
  next
    case (published row)
    have adv: "outbox_advances s s'"
      unfolding s s' published(3) by (rule update_advances) (use published(2) in auto)
    then have ids: "map o_message_id (outbox db') = map o_message_id (outbox db)"
      by (intro row_key_ids) (simp add: outbox_advances_def s s')
    note row = next_due_Some [OF published(1)]
    have "sent_before_published s'" if sp: "sent_before_published s"
      unfolding sent_before_published_def
    proof (intro conjI ballI impI)
      show "distinct (map o_message_id (outbox (fst s')))"
        using sp ids by (simp add: sent_before_published_def s s')
      fix y assume "y \<in> set (outbox (fst s'))" "o_published_at y \<noteq> None"
      then obtain x where x: "x \<in> set (outbox db)"
          "y = (if o_message_id x = o_message_id row then mark_sent later x else x)"
        using published(3) by (auto simp: s')
      show "(o_room_id y, JObj (o_payload y)) \<in> set (snd s')"
      proof (cases "o_message_id x = o_message_id row")
        case True
        with x(1) row(1) sp have "x = row"
          by (auto simp: sent_before_published_def s distinct_map inj_on_def)
        with x(2) published(2) show ?thesis by (simp add: s')
      next
        case False
        with x sp \<open>o_published_at y \<noteq> None\<close> published(2) show ?thesis
          by (auto simp: sent_before_published_def s s')
      qed
    qed
    with adv show ?thesis by blast
  qed
  then show "outbox_advances s s'" "sent_before_published s \<Longrightarrow> sent_before_published s'" by auto
qed

lemma iteration_advances:
  assumes "outbox_iteration x n s = (s', w)"
  shows "outbox_advances s s'" "sent_before_published s \<Longrightarrow> sent_before_published s'"
  using assms relay_advances
  by (auto simp: outbox_iteration_def Let_def outbox_advances_refl split: if_splits prod.splits sum.splits)

lemma run_outbox_advances:
  "outbox_advances s (run_outbox xs n s)
   \<and> (sent_before_published s \<longrightarrow> sent_before_published (run_outbox xs n s))"
proof (induction xs arbitrary: n s)
  case (Cons x xs)
  obtain s' n' w where it: "outbox_iteration x n s = (s', n', w)" by (metis prod_cases3)
  have "outbox_advances s s'" "sent_before_published s \<longrightarrow> sent_before_published s'"
    using iteration_advances [OF it] by auto
  with Cons.IH [of s' n'] show ?case by (auto simp: it intro: outbox_advances_trans)
qed (simp add: outbox_advances_refl)

text \<open>
  C34: the relay loses nothing and lies about nothing. Along any run of the loop, with sends that
  fail or are accepted without an acknowledgement, rows locked by concurrent relays and
  transactions that fail anywhere, no notification intent disappears or changes, a published
  one stays published, the tables stay consistent, and every row marked published has its
  record in the topic: delivery is at least once.
\<close>

theorem outbox_at_least_once:
  assumes "store_ok db"
  shows "outbox_advances (db, topic) (run_outbox xs n (db, topic))
    \<and> (sent_before_published (db, topic) \<longrightarrow> sent_before_published (run_outbox xs n (db, topic)))
    \<and> store_ok (fst (run_outbox xs n (db, topic)))"
  using run_outbox_advances [of "(db, topic)" xs n] assms by (simp add: outbox_advances_def)

section \<open>Backoff and progress\<close>

text \<open>
  A failed send postpones the row by at least one second and at most one minute, counts the
  attempt, names the error, and keeps the row unpublished with its payload; no other row
  changes and the caller goes on. The row chosen was the oldest due one.
\<close>

theorem failed_send_backs_off:
  assumes "next_due now locked db = Some row" "send = Send_failed e \<or> send = Sent_unacked e"
    and "json_ok max_json_wire_nesting_depth (JObj (o_payload row))"
  shows "snd (relay_once Commit_ok send locked now later (db, topic)) = Inr True
    \<and> fst (fst (relay_once Commit_ok send locked now later (db, topic)))
        = update_outbox (o_message_id row) (postpone e (o_attempts row) later) db
    \<and> (\<forall>x\<in>set (outbox db). due now locked x \<longrightarrow>
         (o_next_attempt_at row, o_message_id row) \<le> (o_next_attempt_at x, o_message_id x))
    \<and> later + 1 \<le> o_next_attempt_at (postpone e (o_attempts row) later row)
    \<and> o_next_attempt_at (postpone e (o_attempts row) later row) \<le> later + 60
    \<and> o_published_at (postpone e (o_attempts row) later row) = None"
proof -
  have "of_nat 1 \<le> (of_nat (backoff n) :: rat)" "(of_nat (backoff n) :: rat) \<le> of_nat 60" for n
    using backoff_bounds [of n] of_nat_le_iff by blast+
  then have "1 \<le> (of_nat (backoff n) :: rat)" "(of_nat (backoff n) :: rat) \<le> 60" for n by simp_all
  moreover note next_due_Some [OF assms(1)]
  ultimately show ?thesis
    using assms(1,2) publish_valid [OF assms(3)]
    by (auto simp: relay_once_def run_tx_def postpone_def due_def Let_def)
qed






definition sample_outbox_db :: db where
  "sample_outbox_db = empty_db\<lparr>outbox := [\<lparr>o_message_id = 1, o_room_id = 7, o_payload = [],
     o_created_at = 0, o_next_attempt_at = 0, o_attempts = 3, o_last_error = None,
     o_published_at = None\<rparr>]\<rparr>"

definition sample_inputs :: outbox_inputs where
  "sample_inputs = \<lparr>oi_observe = None, oi_fault = Commit_ok, oi_send = Sent,
     oi_locked = (\<lambda>_. False), oi_mono = 0, oi_now = 5, oi_later = 6\<rparr>"


theorem outbox_at_least_once_witness:
  "outbox_advances (sample_db1, []) (run_outbox [sample_inputs, sample_inputs] 0 (sample_db1, []))
    \<and> store_ok (fst (run_outbox [sample_inputs, sample_inputs] 0 (sample_db1, [])))"
proof -
  have "store_ok sample_db1"
    unfolding sample_db1_def by (rule persist_store_ok [OF sample_db_ok(1)])
  from outbox_at_least_once [OF this] show ?thesis by blast
qed

abbreviation sample_failed_send :: "(db \<times> topic) \<times> (exn + bool)" where
  "sample_failed_send \<equiv>
     relay_once Commit_ok (Send_failed KafkaError) (\<lambda>_. False) 5 6 (sample_outbox_db, [])"

theorem failed_send_backs_off_witness:
  "snd sample_failed_send = Inr True
    \<and> fst (fst sample_failed_send)
        = update_outbox (o_message_id (hd (outbox sample_outbox_db)))
            (postpone KafkaError (o_attempts (hd (outbox sample_outbox_db))) 6) sample_outbox_db
    \<and> o_next_attempt_at (postpone KafkaError (o_attempts (hd (outbox sample_outbox_db))) 6
                 (hd (outbox sample_outbox_db))) \<le> 6 + 60"
proof -
  have "next_due 5 (\<lambda>_. False) sample_outbox_db = Some (hd (outbox sample_outbox_db))"
    "json_ok max_json_wire_nesting_depth (JObj (o_payload (hd (outbox sample_outbox_db))))"
    by (simp_all add: next_due_def sample_outbox_db_def due_def max_json_wire_nesting_depth_def)
  from failed_send_backs_off [OF this(1) disjI1 [OF refl] this(2)] show ?thesis by blast
qed

end
