(* ===== verification/Notifications.thy ===== *)
theory Notifications
  imports Persistence Kafka_Client
begin

text \<open>
  \<open>worker/main.py\<close>, the notification worker: \<open>_normalize_notification_payload\<close>, the insertion
  of attempts one by one and in a batch, the two-attempt wrappers around the transactions and
  \<open>handle_notification_job\<close>. An attempt is stored once per event and only for an event of the
  room the payload names.
\<close>

section \<open>Normalisation\<close>

record notice =
  n_event_id :: int
  n_stream_id :: int
  n_event_type :: ustr
  n_payload_preview :: ustr
  n_metadata :: obj
  n_body_preview :: ustr

definition note_obj :: "notice \<Rightarrow> obj" where
  "note_obj n =
     [(u ''event_id'', JInt (n_event_id n)), (u ''stream_id'', JInt (n_stream_id n)),
      (u ''message_id'', JInt (n_event_id n)), (u ''room_id'', JInt (n_stream_id n)),
      (u ''event_type'', JStr (n_event_type n)),
      (u ''payload_preview'', JStr (n_payload_preview n)),
      (u ''metadata'', JObj (n_metadata n)), (u ''body_preview'', JStr (n_body_preview n))]"

fun preview_text :: "nat \<Rightarrow> json \<Rightarrow> bool" where
  "preview_text n (JStr s) = (length s \<le> n \<and> \<not> has_nul s)"
| "preview_text n _ = False"

text \<open>\<open>d.get(k1, d.get(k2))\<close>.\<close>

definition get_either :: "obj \<Rightarrow> string \<Rightarrow> string \<Rightarrow> json" where
  "get_either d k1 k2 = get_or d k1 (get_none d k2)"

definition normalize_fields :: "pylib \<Rightarrow> obj \<Rightarrow> exn + notice" where
  "normalize_fields L d =
     rbind (validate_alias_pair d ''event_id'' ''message_id'') (\<lambda>_.
     rbind (validate_alias_pair d ''stream_id'' ''room_id'') (\<lambda>_.
     let event_id = get_either d ''event_id'' ''message_id'';
         stream_id = get_either d ''stream_id'' ''room_id'';
         event_type = get_or d ''event_type'' (JStr (u ''legacy.message''));
         body = get_or d ''body_preview'' (JStr []);
         payload = get_or d ''payload_preview'' body;
         metadata = get_or d ''metadata'' (JObj []) in
     require (pos_bigint event_id) ''Invalid notification event_id'' (
     require (pos_bigint stream_id) ''Invalid notification stream_id'' (
     require (bounded_text 50 event_type) ''Invalid notification event_type'' (
     require (preview_text 30 body) ''Invalid notification body_preview'' (
     require (preview_text 120 payload) ''Invalid notification payload_preview'' (
     require (is_dict metadata) ''Invalid notification metadata'' (
     rbind (validate_json_structure metadata) (\<lambda>_.
     require (json_bytes L metadata \<le> 16384)
       ''Notification metadata exceeds 16384 UTF-8 JSON bytes'' (
     Inr \<lparr>n_event_id = int_of_json event_id, n_stream_id = int_of_json stream_id,
          n_event_type = text_of_json event_type, n_payload_preview = text_of_json payload,
          n_metadata = obj_of_json metadata, n_body_preview = text_of_json body\<rparr>))))))))))"

definition normalize_notification_payload :: "pylib \<Rightarrow> json \<Rightarrow> exn + notice" where
  "normalize_notification_payload L v =
     (case v of
        JObj d \<Rightarrow>
          require (\<not> is_invalid_kafka_payload v) ''Notification payload must be a valid JSON object''
            (normalize_fields L d)
      | _ \<Rightarrow> Inl (value_error ''Notification payload must be a valid JSON object''))"

section \<open>Storing attempts\<close>

definition add_attempt :: "int \<Rightarrow> int \<Rightarrow> obj \<Rightarrow> db \<Rightarrow> db" where
  "add_attempt i r stored db =
     (if \<exists>a\<in>set (attempts db). a_message_id a = i then db
      else db\<lparr>attempts := attempts db @
             [\<lparr>a_message_id = i, a_room_id = r, a_payload = stored\<rparr>]\<rparr>)"

text \<open>
  \<open>WITH target AS (..), inserted AS (INSERT .. SELECT .. FROM target ON CONFLICT DO NOTHING)\<close>.
\<close>

definition insert_notification_attempt :: "pg \<Rightarrow> notice \<Rightarrow> db \<Rightarrow> db \<times> (exn + unit)" where
  "insert_notification_attempt G n db =
     (case jsonb G (note_obj n) of
        None \<Rightarrow> (db, Inl DataError)
      | Some stored \<Rightarrow>
          if has_target db (n_event_id n) (n_stream_id n)
          then (add_attempt (n_event_id n) (n_stream_id n) stored db, Inr ())
          else (db, Inl (NotificationTargetMissing (u ''Notification target event is missing''))))"

definition note_key :: "notice \<Rightarrow> int \<times> int" where
  "note_key n = (n_event_id n, n_stream_id n)"

text \<open>
  \<open>SELECT DISTINCT ON (event_id, stream_id)\<close> keeps one row of each pair; without an
  \<open>ORDER BY\<close> which one is PostgreSQL's choice, the parameter \<open>D\<close>. \<open>distinct_on\<close> is the
  choice of the first row.
\<close>

definition distinct_rows :: "(notice list \<Rightarrow> notice list) \<Rightarrow> bool" where
  "distinct_rows D \<longleftrightarrow>
     (\<forall>ns. distinct (map note_key (D ns)) \<and> set (D ns) \<subseteq> set ns
         \<and> note_key ` set (D ns) = note_key ` set ns)"

fun distinct_on :: "('a \<Rightarrow> 'k) \<Rightarrow> 'a list \<Rightarrow> 'a list" where
  "distinct_on f [] = []"
| "distinct_on f (x # xs) = x # filter (\<lambda>y. f y \<noteq> f x) (distinct_on f xs)"

definition stored_note :: "pg \<Rightarrow> notice \<Rightarrow> obj" where
  "stored_note G n = (case jsonb G (note_obj n) of None \<Rightarrow> [] | Some d \<Rightarrow> d)"

definition attempt_targets :: "(notice list \<Rightarrow> notice list) \<Rightarrow> db \<Rightarrow> notice list \<Rightarrow> notice list" where
  "attempt_targets D db ns =
     D (filter (\<lambda>n. has_target db (n_event_id n) (n_stream_id n)) ns)"

definition insert_notification_attempt_batch ::
    "pg \<Rightarrow> (notice list \<Rightarrow> notice list) \<Rightarrow> notice list \<Rightarrow> db \<Rightarrow> db \<times> (exn + (int \<times> int) set)" where
  "insert_notification_attempt_batch G D ns db =
     (if ns = [] then (db, Inr {})
      else if \<exists>n\<in>set ns. jsonb G (note_obj n) = None then (db, Inl DataError)
      else
        (fold (\<lambda>n. add_attempt (n_event_id n) (n_stream_id n) (stored_note G n))
           (attempt_targets D db ns) db,
         Inr (note_key ` set (attempt_targets D db ns))))"

text \<open>
  The wrappers try twice. The errors of \<open>final\<close> are raised at once; after any other error of
  the first attempt the pool is reconnected (which may itself raise) and the transaction runs
  again.
\<close>

definition try_twice ::
    "(exn \<Rightarrow> bool) \<Rightarrow> tx_fault \<Rightarrow> exn option \<Rightarrow> tx_fault \<Rightarrow> (db \<Rightarrow> db \<times> (exn + 'a)) \<Rightarrow> db \<Rightarrow> db \<times> (exn + 'a)" where
  "try_twice final f1 reconnect f2 body db =
     (case run_tx f1 body db of
        (db1, Inr x) \<Rightarrow> (db1, Inr x)
      | (db1, Inl e) \<Rightarrow>
          if final e then (db1, Inl e)
          else (case reconnect of
                  Some e' \<Rightarrow> (db1, Inl e')
                | None \<Rightarrow> run_tx f2 body db1))"

fun is_missing_or_data :: "exn \<Rightarrow> bool" where
  "is_missing_or_data DataError = True"
| "is_missing_or_data (NotificationTargetMissing _) = True"
| "is_missing_or_data _ = False"

definition store_attempt ::
    "pg \<Rightarrow> tx_fault \<Rightarrow> exn option \<Rightarrow> tx_fault \<Rightarrow> notice \<Rightarrow> db \<Rightarrow> db \<times> (exn + unit)" where
  "store_attempt G f1 rc f2 n = try_twice is_missing_or_data f1 rc f2 (insert_notification_attempt G n)"

definition store_attempt_batch ::
    "pg \<Rightarrow> (notice list \<Rightarrow> notice list) \<Rightarrow> tx_fault \<Rightarrow> exn option \<Rightarrow> tx_fault
       \<Rightarrow> notice list \<Rightarrow> db \<Rightarrow> db \<times> (exn + (int \<times> int) set)" where
  "store_attempt_batch G D f1 rc f2 ns db =
     (if ns = [] then (db, Inr {})
      else try_twice (\<lambda>e. e = DataError) f1 rc f2 (insert_notification_attempt_batch G D ns) db)"

section \<open>One record\<close>

text \<open>Which exceptions the decoding handler turns into a rejection.\<close>

fun is_decode_error :: "exn \<Rightarrow> bool" where
  "is_decode_error TypeError = True"
| "is_decode_error e = is_value_error e"

definition handle_notification_job ::
    "pylib \<Rightarrow> pg \<Rightarrow> tx_fault \<Rightarrow> exn option \<Rightarrow> tx_fault \<Rightarrow> raw \<Rightarrow> db \<Rightarrow> db \<times> (exn + ustr)" where
  "handle_notification_job L G f1 rc f2 r db =
     (case rbind (load_raw L r) (normalize_notification_payload L) of
        Inl e \<Rightarrow> if is_decode_error e then (db, Inr (u ''rejected'')) else (db, Inl e)
      | Inr n \<Rightarrow>
          (case store_attempt G f1 rc f2 n db of
             (db', Inr _) \<Rightarrow> (db', Inr (u ''success''))
           | (db', Inl e) \<Rightarrow>
               if is_missing_or_data e then (db', Inr (u ''rejected'')) else (db', Inl e)))"

section \<open>Normalisation accepts what the worker enqueues\<close>

text \<open>What a normalised notification satisfies, and what a dictionary offering it looks like.\<close>

definition notice_ok :: "pylib \<Rightarrow> notice \<Rightarrow> bool" where
  "notice_ok L n \<longleftrightarrow>
     pos_bigint (JInt (n_event_id n)) \<and> pos_bigint (JInt (n_stream_id n))
     \<and> bounded_text 50 (JStr (n_event_type n))
     \<and> preview_text 30 (JStr (n_body_preview n)) \<and> preview_text 120 (JStr (n_payload_preview n))
     \<and> json_ok max_json_nesting_depth (JObj (n_metadata n))
     \<and> json_bytes L (JObj (n_metadata n)) \<le> 16384"

lemma preview_text_JStr: "preview_text k v \<longleftrightarrow> (\<exists>s. v = JStr s \<and> length s \<le> k \<and> \<not> has_nul s)"
  by (cases v) auto

lemma normalize_Inr_ok:
  assumes "normalize_notification_payload L v = Inr n"
  shows "notice_ok L n"
  using assms
  by (auto simp: normalize_notification_payload_def normalize_fields_def notice_ok_def Let_def
      rbind_eq_Inr require_eq_Inr pos_bigint_JInt bounded_text_JStr preview_text_JStr is_dict_JObj
      split: json.splits simp del: json_ok.simps)

lemma alias_pair_same:
  "get_key d a = Some (JInt i) \<Longrightarrow> get_key d b = Some (JInt i) \<Longrightarrow> validate_alias_pair d a b = Inr ()"
  by (simp add: validate_alias_pair_def dict_defs)

lemma note_obj_gets [simp]:
  "get_key (note_obj n) ''event_id'' = Some (JInt (n_event_id n))"
  "get_key (note_obj n) ''message_id'' = Some (JInt (n_event_id n))"
  "get_key (note_obj n) ''stream_id'' = Some (JInt (n_stream_id n))"
  "get_key (note_obj n) ''room_id'' = Some (JInt (n_stream_id n))"
  "get_or (note_obj n) ''event_id'' w = JInt (n_event_id n)"
  "get_or (note_obj n) ''stream_id'' w = JInt (n_stream_id n)"
  "get_or (note_obj n) ''event_type'' w = JStr (n_event_type n)"
  "get_or (note_obj n) ''body_preview'' w = JStr (n_body_preview n)"
  "get_or (note_obj n) ''payload_preview'' w = JStr (n_payload_preview n)"
  "get_or (note_obj n) ''metadata'' w = JObj (n_metadata n)"
  "get_none (note_obj n) invalid_kafka_payload_marker = JNull"
  by (simp_all add: note_obj_def text_simps invalid_kafka_payload_marker_def)

lemma normalize_note_obj:
  assumes "notice_ok L n"
  shows "normalize_notification_payload L (JObj (note_obj n)) = Inr n"
proof -
  have "validate_json_structure (JObj (n_metadata n)) = Inr ()"
    using assms by (simp add: notice_ok_def del: json_ok.simps)
  then show ?thesis using assms
    by (simp add: normalize_notification_payload_def normalize_fields_def notice_ok_def Let_def
        alias_pair_same [OF note_obj_gets(1,2)] alias_pair_same [OF note_obj_gets(3,4)]
        get_either_def is_invalid_kafka_payload_def
        del: json_ok.simps validate_json_structure_ok)
qed

text \<open>Text that \<open>json.dumps\<close> prints holds no NUL character.\<close>

lemma has_nul_append [simp]: "has_nul (a @ b) \<longleftrightarrow> has_nul a \<or> has_nul b"
  by (auto simp: has_nul_def)

lemma has_nul_Cons [simp]: "has_nul (c # s) \<longleftrightarrow> c = 0 \<or> has_nul s"
  by (auto simp: has_nul_def)

lemma has_nul_Nil [simp]: "\<not> has_nul []"
  by (simp add: has_nul_def)

lemma has_nul_take: "has_nul (take k s) \<Longrightarrow> has_nul s"
  by (auto simp: has_nul_def dest: in_set_takeD)

lemma dumps_char_no_nul: "\<not> has_nul (dumps_char c)"
  by (simp add: hex_digit_def)

lemma dumps_text_no_nul: "\<not> has_nul (dumps_text s)"
  using dumps_char_no_nul by (auto simp: dumps_text_def has_nul_def simp del: dumps_char.simps)

lemma join_no_nul: "\<not> has_nul sep \<Longrightarrow> \<forall>x\<in>set xs. \<not> has_nul x \<Longrightarrow> \<not> has_nul (join sep xs)"
  by (induction sep xs rule: join.induct) auto

lemma dec_nat_no_nul: "\<not> has_nul (dec_nat k)"
  using dec_nat_digits by (fastforce simp: has_nul_def is_digit_def)

lemma dumps_no_nul:
  assumes "\<And>f. \<not> has_nul (float_repr L f)"
  shows "\<not> has_nul (dumps_compact L v)"
proof (induction v)
  case (JFloat f)
  then show ?case using assms by (cases f) (auto simp: has_nul_u simp del: has_nul_Cons)
next
  case (JArr xs)
  then have "\<not> has_nul (join [44] (map (dumps_compact L) xs))" by (intro join_no_nul) auto
  then show ?case by simp
next
  case (JObj d)
  then have "\<not> has_nul (join [44]
      (map (\<lambda>kv. dumps_text (fst kv) @ [58] @ dumps_compact L (snd kv)) d))"
    by (intro join_no_nul) (auto simp: dumps_text_no_nul)
  then show ?case by simp
qed (auto simp: dumps_text_no_nul py_str_int_def dec_nat_no_nul)

lemma legacy_body_preview_no_nul:
  assumes "\<And>f. \<not> has_nul (float_repr L f)" "json_ok k (JObj p)"
  shows "\<not> has_nul (legacy_body_preview L p)"
proof -
  have "\<not> has_nul (text_of_json (get_none p k'))" for k'
    using assms(2) by (cases "get_none p k'")
      (auto simp: dict_defs good_text_def list_all_iff split: option.splits dest!: map_of_SomeD)
  then show ?thesis
    using dumps_no_nul [OF assms(1), of "JObj p"]
    by (auto simp: legacy_body_preview_def Let_def split: option.splits dest: has_nul_take
        simp del: dumps_compact.simps)
qed

text \<open>
  What \<open>notification_attempt_payload\<close> enqueues for a stored event is accepted by
  \<open>_normalize_notification_payload\<close> without a change: the producer and the consumer of the
  notification topic agree on the format.
\<close>

theorem notification_contract:
  assumes "\<And>f. \<not> has_nul (float_repr L f)"
    and "notification_attempt_payload L response = Inr d"
    and "get_none response ''id'' = JInt i" "0 < i" "i \<le> max_postgres_bigint"
    and "get_none response ''room_id'' = JInt r" "0 < r" "r \<le> max_postgres_bigint"
  shows "\<exists>n. normalize_notification_payload L (JObj d) = Inr n \<and> note_obj n = d
           \<and> n_event_id n = i \<and> n_stream_id n = r"
proof -
  obtain et p m where env: "event_envelope L response = Inr (et, p, m)"
    and d: "d = note_obj \<lparr>n_event_id = i, n_stream_id = r, n_event_type = et,
        n_payload_preview = take 120 (legacy_body_preview L p), n_metadata = m,
        n_body_preview = take 30 (legacy_body_preview L p)\<rparr>"
    using assms(2,3,6)
    by (auto simp: notification_attempt_payload_def rbind_eq_Inr Let_def note_obj_def)
  from event_envelope_Inr [OF env] have ok: "envelope_ok L (is_generic_envelope response) et p m" .
  then have "\<not> has_nul (legacy_body_preview L p)"
    using legacy_body_preview_no_nul [OF assms(1)] by (simp add: envelope_ok_def del: json_ok.simps) blast
  then have "notice_ok L \<lparr>n_event_id = i, n_stream_id = r, n_event_type = et,
        n_payload_preview = take 120 (legacy_body_preview L p), n_metadata = m,
        n_body_preview = take 30 (legacy_body_preview L p)\<rparr>"
    using ok assms(4,5,7,8)
    by (auto simp: notice_ok_def envelope_ok_def simp del: json_ok.simps dest: has_nul_take)
  from normalize_note_obj [OF this] d show ?thesis by auto
qed

section \<open>Storing an attempt\<close>

lemma add_attempt_fields [simp]:
  "users (add_attempt i r x db) = users db" "messages (add_attempt i r x db) = messages db"
  "message_ids (add_attempt i r x db) = message_ids db"
  "rooms (add_attempt i r x db) = rooms db" "room_members (add_attempt i r x db) = room_members db"
  "room_sequences (add_attempt i r x db) = room_sequences db"
  "outbox (add_attempt i r x db) = outbox db"
  "idempotency_keys (add_attempt i r x db) = idempotency_keys db"
  "request_statuses (add_attempt i r x db) = request_statuses db"
  "user_ids (add_attempt i r x db) = user_ids db" "room_ids (add_attempt i r x db) = room_ids db"
  "has_target (add_attempt i r x db) = has_target db"
  by (auto simp: add_attempt_def has_target_def fun_eq_iff)

lemma add_attempt_ok:
  assumes "store_ok db" "has_target db i r"
  shows "store_ok (add_attempt i r x db)"
proof -
  have "messages_ok (add_attempt i r x db) = messages_ok db" by (rule messages_ok_cong) simp_all
  moreover have "notifications_ok (add_attempt i r x db)"
    using assms by (auto simp: store_ok_def db_ok_def notifications_ok_def add_attempt_def has_target_def)
  moreover have "outbox_complete (add_attempt i r x db) = outbox_complete db"
    by (simp add: outbox_complete_def)
  ultimately show ?thesis using assms(1) by (simp add: store_ok_def db_ok_def)
qed

definition attempted :: "db \<Rightarrow> (int \<times> int) set" where
  "attempted db = (\<lambda>a. (a_message_id a, a_room_id a)) ` set (attempts db)"

text \<open>The room of an event is unique, so an attempt for it names the same room.\<close>

lemma target_room: "store_ok db \<Longrightarrow> has_target db i r \<Longrightarrow> has_target db i r' \<Longrightarrow> r = r'"
proof -
  assume ok: "store_ok db" and t: "has_target db i r" "has_target db i r'"
  from ok have "sorted_wrt (<) (map m_id (messages db))"
    by (simp add: store_ok_def db_ok_def messages_ok_def)
  then have "distinct (map m_id (messages db))" by (simp add: strict_sorted_iff)
  with t show "r = r'" unfolding has_target_def by (metis distinct_map_filter_eq)
qed

lemma attempted_add:
  assumes "store_ok db" "has_target db i r"
  shows "attempted (add_attempt i r x db) = insert (i, r) (attempted db)"
proof (cases "\<exists>a\<in>set (attempts db). a_message_id a = i")
  case True
  then obtain a where a: "a \<in> set (attempts db)" "a_message_id a = i" by blast
  with assms(1) have "has_target db i (a_room_id a)"
    by (auto simp: store_ok_def db_ok_def notifications_ok_def)
  with target_room [OF assms(1)] assms(2) have "a_room_id a = r" by blast
  with a True show ?thesis by (force simp: attempted_def add_attempt_def)
next
  case False
  then show ?thesis by (auto simp: attempted_def add_attempt_def)
qed

section \<open>One attempt\<close>

lemma insert_attempt_cases:
  assumes "insert_notification_attempt G n db = (db', q)"
  obtains (data_error) "q = Inl DataError" "db' = db" "jsonb G (note_obj n) = None"
    | (missing) e where "q = Inl e" "is_missing_or_data e" "db' = db"
        "\<not> has_target db (n_event_id n) (n_stream_id n)"
    | (stored) x where "q = Inr ()" "db' = add_attempt (n_event_id n) (n_stream_id n) x db"
        "has_target db (n_event_id n) (n_stream_id n)" "jsonb G (note_obj n) = Some x"
  using assms by (auto simp: insert_notification_attempt_def split: option.splits if_splits)

text \<open>The transaction and its retry leave the state of before, or the stored attempt.\<close>

lemma rollback_id: "message_ids db' = message_ids db \<Longrightarrow> user_ids db' = user_ids db \<Longrightarrow>
    room_ids db' = room_ids db \<Longrightarrow> rollback db db' = db"
  by (simp add: rollback_def)

lemma add_attempt_again:
  "add_attempt i r y (add_attempt i r x db) = add_attempt i r x db"
  by (auto simp: add_attempt_def)

definition attempt_stored :: "notice \<Rightarrow> db \<Rightarrow> db \<Rightarrow> bool" where
  "attempt_stored n db db' \<longleftrightarrow>
     has_target db (n_event_id n) (n_stream_id n)
     \<and> (\<exists>x. db' = add_attempt (n_event_id n) (n_stream_id n) x db)"

lemma insert_attempt_outcome:
  assumes "insert_notification_attempt G n db = (db', q)"
  shows "db' = db \<and> q \<noteq> Inr () \<or> attempt_stored n db db' \<and> q = Inr ()"
  using assms by (cases rule: insert_attempt_cases) (auto simp: attempt_stored_def)

lemma attempt_stored_rollback: "attempt_stored n db mid \<Longrightarrow> rollback db mid = db"
  by (auto simp: attempt_stored_def rollback_id)

lemma attempt_stored_again: "attempt_stored n db mid \<Longrightarrow> attempt_stored n mid db' \<Longrightarrow> attempt_stored n db db'"
  by (auto simp: attempt_stored_def add_attempt_again)

lemma run_insert_outcome:
  assumes "run_tx f (insert_notification_attempt G n) db = (db', q)"
  shows "db' = db \<and> q \<noteq> Inr () \<or> attempt_stored n db db' \<and> (q = Inr () \<or> (\<exists>e. f = Ack_lost e))"
  using assms
proof (cases rule: run_tx_cases)
  case (rolled_back mid e)
  with insert_attempt_outcome [OF rolled_back(2)] show ?thesis by simp
next
  case (not_committed mid x e)
  with insert_attempt_outcome [OF not_committed(2)] attempt_stored_rollback show ?thesis by simp
next
  case (ack_lost x e)
  with insert_attempt_outcome [OF ack_lost(2)] show ?thesis by simp
next
  case (committed x)
  with insert_attempt_outcome [OF committed(2)] show ?thesis by simp
qed simp

lemma try_twice_cases:
  assumes "try_twice final f1 rc f2 body db = (db', q)" "run_tx f1 body db = (db1, q1)"
  shows "db' = db1 \<and> q = q1 \<and> (\<forall>e. q1 = Inl e \<longrightarrow> final e)
       \<or> db' = db1 \<and> isl q \<and> isl q1
       \<or> isl q1 \<and> run_tx f2 body db1 = (db', q)"
  using assms by (auto simp: try_twice_def split: sum.splits if_splits option.splits)

lemma store_attempt_outcome:
  assumes "store_attempt G f1 rc f2 n db = (db', q)"
  shows "db' = db \<and> q \<noteq> Inr () \<or> attempt_stored n db db'"
proof -
  let ?body = "insert_notification_attempt G n"
  obtain db1 q1 where r1: "run_tx f1 ?body db = (db1, q1)" by (cases "run_tx f1 ?body db")
  from try_twice_cases [OF assms [unfolded store_attempt_def] r1]
  consider "db' = db1" "q = q1" | "db' = db1" "isl q" | "run_tx f2 ?body db1 = (db', q)" by blast
  then show ?thesis
  proof cases
    case 2
    with run_insert_outcome [OF r1] show ?thesis by (cases q) auto
  next
    case 3
    with run_insert_outcome [OF r1] run_insert_outcome [OF 3] attempt_stored_again show ?thesis by blast
  qed (use run_insert_outcome [OF r1] in blast)
qed

lemma attempt_stored_ok: "attempt_stored n db db' \<Longrightarrow> store_ok db \<Longrightarrow>
    store_ok db' \<and> attempted db' = insert (note_key n) (attempted db)"
  by (auto simp: attempt_stored_def add_attempt_ok attempted_add note_key_def)

lemma handle_notification_job_laws:
  assumes "store_ok db" "handle_notification_job L G f1 rc f2 r db = (db', q)"
  shows "store_ok db' \<and> attempted db \<subseteq> attempted db'
    \<and> (q = Inr (u ''success'') \<longrightarrow>
         (\<exists>n. rbind (load_raw L r) (normalize_notification_payload L) = Inr n
            \<and> attempted db' = insert (note_key n) (attempted db)))
    \<and> (isl (rbind (load_raw L r) (normalize_notification_payload L)) \<longrightarrow> db' = db)"
proof -
  let ?d = "rbind (load_raw L r) (normalize_notification_payload L)"
  have out: "db' = db \<and> q \<noteq> Inr (u ''success'')
      \<or> (\<exists>n. ?d = Inr n \<and> attempt_stored n db db')"
  proof (cases ?d)
    case (Inl e)
    then show ?thesis using assms(2)
      by (auto simp: handle_notification_job_def split: if_splits)
  next
    case (Inr n)
    obtain mid q1 where st: "store_attempt G f1 rc f2 n db = (mid, q1)"
      by (cases "store_attempt G f1 rc f2 n db")
    with Inr assms(2) have "db' = mid" "q = Inr (u ''success'') \<Longrightarrow> q1 = Inr ()"
      by (auto simp: handle_notification_job_def split: sum.splits if_splits)
    with Inr store_attempt_outcome [OF st] show ?thesis by auto
  qed
  show ?thesis
  proof (intro conjI impI)
    show "store_ok db'" "attempted db \<subseteq> attempted db'"
      using out attempt_stored_ok assms(1) by auto
    show "\<exists>n. ?d = Inr n \<and> attempted db' = insert (note_key n) (attempted db)"
      if "q = Inr (u ''success'')"
      using out that attempt_stored_ok assms(1) by blast
    show "db' = db" if "isl ?d" using out that by auto
  qed
qed

text \<open>
  The outcome of one notification record, whatever fails on the way and however often it
  is handed over: the tables stay well formed, the attempts grow by at most the pair the
  payload names, \<open>success\<close> means that pair has its attempt, and a rejected payload that does not
  decode leaves the tables alone.
\<close>

theorem handle_notification_outcome:
  assumes "store_ok db" "handle_notification_job L G f1 rc f2 r db = (db', q)"
  shows "store_ok db' \<and> attempted db \<subseteq> attempted db'
    \<and> (q = Inr (u ''success'') \<longrightarrow>
         (\<exists>n. rbind (load_raw L r) (normalize_notification_payload L) = Inr n
            \<and> attempted db' = insert (note_key n) (attempted db)))
    \<and> (isl (rbind (load_raw L r) (normalize_notification_payload L)) \<longrightarrow> db' = db)"
  by (rule handle_notification_job_laws [OF assms])

section \<open>A batch of attempts\<close>

definition on_target :: "db \<Rightarrow> notice list \<Rightarrow> (int \<times> int) set" where
  "on_target db ns = {k \<in> note_key ` set ns. has_target db (fst k) (snd k)}"

lemma on_target_simps [simp]:
  "on_target db [] = {}"
  "on_target db (n # ns) =
     (if has_target db (n_event_id n) (n_stream_id n)
      then insert (note_key n) (on_target db ns) else on_target db ns)"
  by (auto simp: on_target_def note_key_def)

lemma add_attempts:
  fixes f :: "notice \<Rightarrow> obj"
  assumes "store_ok db" "\<forall>n\<in>set ns. has_target db (n_event_id n) (n_stream_id n)"
  defines "db' \<equiv> fold (\<lambda>n. add_attempt (n_event_id n) (n_stream_id n) (f n)) ns db"
  shows "store_ok db' \<and> attempted db' = note_key ` set ns \<union> attempted db
       \<and> messages db' = messages db"
  using assms(1,2) unfolding db'_def
proof (induction ns arbitrary: db)
  case (Cons n ns)
  let ?db = "add_attempt (n_event_id n) (n_stream_id n) (f n) db"
  from Cons.prems have "store_ok ?db" "attempted ?db = insert (note_key n) (attempted db)"
    by (simp_all add: add_attempt_ok attempted_add note_key_def)
  with Cons.IH [of ?db] Cons.prems show ?case by auto
qed simp

lemma insert_records:
  assumes "store_ok db" "\<forall>n\<in>set ns. jsonb G (note_obj n) \<noteq> None"
  shows "attempted (fold (\<lambda>n db. fst (insert_notification_attempt G n db)) ns db)
       = on_target db ns \<union> attempted db"
  using assms
proof (induction ns arbitrary: db)
  case (Cons n ns)
  let ?db = "fst (insert_notification_attempt G n db)"
  obtain x where "jsonb G (note_obj n) = Some x" using Cons.prems(2) by auto
  then have "store_ok ?db" "has_target ?db = has_target db"
    "attempted ?db = (if has_target db (n_event_id n) (n_stream_id n)
                      then insert (note_key n) (attempted db) else attempted db)"
    using Cons.prems(1)
    by (simp_all add: insert_notification_attempt_def add_attempt_ok attempted_add note_key_def)
  moreover from this(2) have "on_target ?db ns = on_target db ns" by (simp add: on_target_def)
  ultimately show ?case using Cons.IH [of ?db] Cons.prems(2) by auto
qed simp

lemma attempt_targets_keys:
  assumes "distinct_rows D"
  shows "note_key ` set (attempt_targets D db ns) = on_target db ns"
    and "\<forall>n\<in>set (attempt_targets D db ns). has_target db (n_event_id n) (n_stream_id n)"
    and "distinct (map note_key (attempt_targets D db ns))"
proof -
  let ?hit = "filter (\<lambda>n. has_target db (n_event_id n) (n_stream_id n)) ns"
  from assms have D: "note_key ` set (D ?hit) = note_key ` set ?hit" "set (D ?hit) \<subseteq> set ?hit"
      "distinct (map note_key (D ?hit))"
    unfolding distinct_rows_def by blast+
  show "note_key ` set (attempt_targets D db ns) = on_target db ns"
    unfolding attempt_targets_def D(1) by (auto simp: on_target_def note_key_def)
  show "\<forall>n\<in>set (attempt_targets D db ns). has_target db (n_event_id n) (n_stream_id n)"
    using D(2) unfolding attempt_targets_def by auto
  show "distinct (map note_key (attempt_targets D db ns))"
    unfolding attempt_targets_def by (rule D(3))
qed

text \<open>
  Inserting a batch is equivalent to inserting its records one at a time, whichever row
  PostgreSQL keeps of duplicates: without a data error the call answers exactly the pairs
  whose event is stored, the attempts afterwards cover the same events, and the tables stay
  well formed.
\<close>

theorem batch_same_as_records:
  assumes "store_ok db" "distinct_rows D" "\<forall>n\<in>set ns. jsonb G (note_obj n) \<noteq> None"
  shows "\<exists>db'. insert_notification_attempt_batch G D ns db = (db', Inr (on_target db ns))
     \<and> attempted db' = attempted (fold (\<lambda>n db. fst (insert_notification_attempt G n db)) ns db)
     \<and> store_ok db'"
proof (cases "ns = []")
  case True
  with assms(1) show ?thesis by (simp add: insert_notification_attempt_batch_def)
next
  case False
  have "\<not> (\<exists>n\<in>set ns. jsonb G (note_obj n) = None)" using assms(3) by blast
  then show ?thesis
    using False attempt_targets_keys [OF assms(2), of db ns] insert_records [OF assms(1,3)]
      add_attempts [OF assms(1) attempt_targets_keys(2) [OF assms(2)], of "stored_note G"]
    by (simp add: insert_notification_attempt_batch_def)
qed

lemma distinct_on_spec:
  "distinct (map f (distinct_on f xs)) \<and> set (distinct_on f xs) \<subseteq> set xs
    \<and> f ` set (distinct_on f xs) = f ` set xs"
proof (induction xs)
  case (Cons x xs)
  have "distinct (map f (filter P ys))" if "distinct (map f ys)" for P ys
    using that by (simp add: distinct_map_filter)
  moreover have "f ` set (distinct_on f (x # xs)) = insert (f x) (f ` set (distinct_on f xs))"
    by auto
  ultimately show ?case using Cons by auto
qed simp

lemma distinct_on_rows: "distinct_rows (distinct_on note_key)"
  by (simp add: distinct_rows_def distinct_on_spec)

section \<open>Concrete instances\<close>

definition sample_notice :: notice where
  "sample_notice = \<lparr>n_event_id = 1, n_stream_id = 7, n_event_type = u ''order.created'',
     n_payload_preview = u ''hi'', n_metadata = [], n_body_preview = u ''hi''\<rparr>"

lemma sample_notice_ok: "notice_ok L sample_notice"
  by (simp add: notice_ok_def sample_notice_def max_postgres_bigint_def
      max_json_nesting_depth_def json_bytes_def utf8_len_def)

lemma sample_db1_ok: "store_ok sample_db1"
  unfolding sample_db1_def by (rule persist_store_ok [OF sample_db_ok(1)])

lemma sample_target:
  "has_target sample_db1 1 7"
  "has_target sample_db1 (n_event_id sample_notice) (n_stream_id sample_notice)"
proof -
  have "sample_message \<in> set (messages sample_db1)"
    using sample_db1_tables(4) unfolding find_request_def by (auto dest!: find_SomeD)
  moreover have "m_id sample_message = 1" "m_room_id sample_message = 7"
    by (simp_all add: sample_message_def)
  ultimately show "has_target sample_db1 1 7" unfolding has_target_def by blast
  then show "has_target sample_db1 (n_event_id sample_notice) (n_stream_id sample_notice)"
    by (simp add: sample_notice_def)
qed

lemma sample_handled:
  "handle_notification_job sample_lib sample_pg (Conn_lost OperationalError) None Commit_ok
     (Value (JObj (note_obj sample_notice))) sample_db1
   = (add_attempt 1 7 (note_obj sample_notice) sample_db1, Inr (u ''success''))"
  by (simp add: handle_notification_job_def load_raw_def normalize_note_obj [OF sample_notice_ok]
      store_attempt_def try_twice_def run_tx_def insert_notification_attempt_def sample_target(2))
    (simp add: sample_notice_def)

theorem handle_notification_outcome_witness:
  "store_ok (add_attempt 1 7 (note_obj sample_notice) sample_db1)
    \<and> attempted sample_db1 \<subseteq> attempted (add_attempt 1 7 (note_obj sample_notice) sample_db1)
    \<and> (\<exists>n. attempted (add_attempt 1 7 (note_obj sample_notice) sample_db1)
            = insert (note_key n) (attempted sample_db1))
    \<and> fst (handle_notification_job sample_lib sample_pg Commit_ok None Commit_ok (Value JNull) sample_db1)
       = sample_db1"
proof -
  have "handle_notification_job sample_lib sample_pg Commit_ok None Commit_ok (Value JNull) sample_db1
      = (sample_db1, Inr (u ''rejected''))"
    by (simp add: handle_notification_job_def load_raw_def)
  then have "fst (handle_notification_job sample_lib sample_pg Commit_ok None Commit_ok (Value JNull) sample_db1)
       = sample_db1"
    by simp
  with handle_notification_outcome [OF sample_db1_ok sample_handled] show ?thesis by blast
qed

theorem notification_contract_witness:
  "\<exists>d n. notification_attempt_payload sample_lib sample_row = Inr d
     \<and> normalize_notification_payload sample_lib (JObj d) = Inr n \<and> note_obj n = d
     \<and> n_event_id n = 1 \<and> n_stream_id n = 7"
proof -
  have nul: "\<not> has_nul (float_repr sample_lib f)" for f by (simp add: sample_lib_def)
  have id: "get_none sample_row ''id'' = JInt 1" "get_none sample_row ''room_id'' = JInt 7"
    by (simp_all add: sample_row_def sample_message_def)
  obtain d where "notification_attempt_payload sample_lib sample_row = Inr d"
    by (simp add: notification_attempt_payload_def sample_row_envelope Let_def)
  with notification_contract [OF nul this id(1) _ _ id(2)] show ?thesis
    by (auto simp: max_postgres_bigint_def)
qed

theorem batch_same_as_records_witness:
  "\<exists>db'. insert_notification_attempt_batch sample_pg (distinct_on note_key)
         [sample_notice, sample_notice] sample_db1
       = (db', Inr (on_target sample_db1 [sample_notice, sample_notice]))
     \<and> attempted db' = attempted (fold (\<lambda>n db. fst (insert_notification_attempt sample_pg n db))
         [sample_notice, sample_notice] sample_db1)
     \<and> store_ok db'"
  by (rule batch_same_as_records [OF sample_db1_ok distinct_on_rows]) simp

end
