(* ===== verification/Ingress_Handler.thy ===== *)
theory Ingress_Handler
  imports Persistence Kafka_Client
begin

text \<open>
  \<open>worker/main.py\<close>, the ingress worker's handling of one record: quarantine of undecodable and
  invalid payloads (\<open>move_invalid_ingress_to_dlq\<close>), the dead-letter path of jobs
  (\<open>move_to_dlq\<close>), the bounded inline retry (\<open>mark_inline_retry\<close>) and \<open>handle_ingress_job\<close>.
  Clock readings, broker answers and transaction faults are inputs; a float of seconds is its
  exact value, so the rounding of \<open>time.time() + delay\<close> is not modelled.
\<close>

section \<open>Diagnostics of an invalid payload\<close>

definition safe_nonnegative_int :: "json \<Rightarrow> int" where
  "safe_nonnegative_int v = (if nonneg_bigint v then int_of_json v else 0)"

text \<open>What \<open>json.dumps(.., allow_nan=False)\<close> accepts.\<close>

fun finite_json :: "json \<Rightarrow> bool" where
  "finite_json (JFloat f) = isfinite f"
| "finite_json (JArr xs) = list_all finite_json xs"
| "finite_json (JObj d) = list_all (\<lambda>kv. finite_json (snd kv)) d"
| "finite_json _ = True"

fun type_name :: "json \<Rightarrow> string" where
  "type_name JNull = ''NoneType''"
| "type_name (JBool _) = ''bool''"
| "type_name (JInt _) = ''int''"
| "type_name (JFloat _) = ''float''"
| "type_name (JStr _) = ''str''"
| "type_name (JArr _) = ''list''"
| "type_name (JObj _) = ''dict''"

definition raw_type_name :: "raw \<Rightarrow> string" where
  "raw_type_name r = (case r of Marked _ \<Rightarrow> ''InvalidKafkaPayload'' | Value v \<Rightarrow> type_name v)"

definition ascii_bytes :: "ustr \<Rightarrow> bytes" where
  "ascii_bytes s = map of_nat s"

definition raw_bytes :: "pylib \<Rightarrow> raw \<Rightarrow> bytes" where
  "raw_bytes L r =
     (case r of
        Value (JStr s) \<Rightarrow> utf8_replace s
      | _ \<Rightarrow>
          (let fallback = ascii_bytes (u (''<'' @ raw_type_name r @ '':unserializable>'')) in
           if finite_json (raw_json r)
           then (case utf8_encode (dumps_compact L (raw_json r)) of None \<Rightarrow> fallback | Some bs \<Rightarrow> bs)
           else fallback))"

definition is_hex_digest :: "json \<Rightarrow> bool" where
  "is_hex_digest v \<longleftrightarrow>
     (case v of
        JStr s \<Rightarrow> length s = 64 \<and> list_all (\<lambda>c. 48 \<le> c \<and> c \<le> 57 \<or> 97 \<le> c \<and> c \<le> 102) s
      | _ \<Rightarrow> False)"

text \<open>Source, size, digest and preview of the bytes; a marker carries those of the record.\<close>

definition diagnostics :: "pylib \<Rightarrow> raw \<Rightarrow> string \<times> int \<times> ustr \<times> bytes" where
  "diagnostics L r =
     (let bs = raw_bytes L r;
          size = int (length bs);
          digest = hexdigest (sha256 L bs);
          preview = take 1024 bs in
      case r of
        Marked d \<Rightarrow>
          (''kafka_raw_bytes'',
           (case get_none d ''raw_size'' of JInt i \<Rightarrow> if 0 \<le> i then i else size | _ \<Rightarrow> size),
           (if is_hex_digest (get_none d ''raw_sha256'') then text_of_json (get_none d ''raw_sha256'')
            else digest),
           (case get_none d ''raw_base64'' of
              JStr s \<Rightarrow> (case b64_decode False s of Some x \<Rightarrow> take 1024 x | None \<Rightarrow> preview)
            | _ \<Rightarrow> preview))
      | Value (JStr _) \<Rightarrow> (''raw_input_bytes'', size, digest, preview)
      | Value _ \<Rightarrow> (''normalized_json'', size, digest, preview))"

definition safe_reason :: "ustr \<Rightarrow> ustr" where
  "safe_reason s = take 300 (concat (map (\<lambda>c. if c = 0 then u [CHR 0x5C, CHR ''0''] else [c]) s))"

definition raw_source :: "raw \<Rightarrow> obj" where
  "raw_source r = (case raw_json r of JObj d \<Rightarrow> d | _ \<Rightarrow> [])"

definition quarantine_request_id :: "ustr \<Rightarrow> obj \<Rightarrow> ustr" where
  "quarantine_request_id uuid source =
     (if bounded_text 80 (get_none source ''request_id'')
      then text_of_json (get_none source ''request_id'') else u ''invalid-'' @ uuid)"

definition quarantine_room :: "obj \<Rightarrow> int" where
  "quarantine_room source =
     (if pos_bigint (get_none source ''room_id'') then int_of_json (get_none source ''room_id'') else 0)"

definition quarantine_user :: "obj \<Rightarrow> int option" where
  "quarantine_user source =
     (if pos_bigint (get_none source ''user_id'')
      then Some (int_of_json (get_none source ''user_id'')) else None)"

definition quarantine_payload :: "pylib \<Rightarrow> ustr \<Rightarrow> ustr \<Rightarrow> raw \<Rightarrow> ustr \<Rightarrow> obj" where
  "quarantine_payload L uuid now r reason =
     (let source = raw_source r;
          (kind, size, digest, preview) = diagnostics L r in
      [(u ''request_id'', JStr (quarantine_request_id uuid source)),
       (u ''room_id'', JInt (quarantine_room source)),
       (u ''user_id'', json_opt JInt (quarantine_user source)),
       (u ''__invalid_kafka_payload__'', JBool True),
       (u ''failed_reason'', JStr (u ''invalid_ingress:'' @ safe_reason reason)),
       (u ''failed_at'', JStr now),
       (u ''retry_count'', JInt (safe_nonnegative_int (get_or source ''retry_count'' (JInt 0)))),
       (u ''replay_count'', JInt (safe_nonnegative_int (get_or source ''replay_count'' (JInt 0)))),
       (u ''diagnostic_source'', JStr (u kind)),
       (u ''diagnostic_size_bytes'', JInt size),
       (u ''diagnostic_sha256'', JStr digest),
       (u ''diagnostic_preview_base64'', JStr (b64_encode False preview))])"

section \<open>Statuses and the dead-letter topic\<close>

record worker_state =
  w_db :: db
  w_dlq :: topic

text \<open>Inputs of the terminal steps: \<open>uuid4\<close>, \<open>now_iso\<close>, the broker, the status transaction.\<close>

record terminal_env =
  t_uuid :: ustr
  t_now :: ustr
  t_dlq :: send_result
  t_status :: tx_fault

text \<open>\<open>update_request_status\<close> swallows every exception.\<close>

definition update_request_status :: "pg \<Rightarrow> tx_fault \<Rightarrow> ustr \<Rightarrow> obj \<Rightarrow> db \<Rightarrow> db" where
  "update_request_status G f rid payload db = fst (store_request_status G f rid payload db)"

definition set_status :: "pg \<Rightarrow> terminal_env \<Rightarrow> ustr \<Rightarrow> obj \<Rightarrow> worker_state \<Rightarrow> worker_state" where
  "set_status G e rid payload w =
     w\<lparr>w_db := update_request_status G (t_status e) rid payload (w_db w)\<rparr>"

definition quarantine_status :: "ustr \<Rightarrow> int \<Rightarrow> int \<Rightarrow> ustr \<Rightarrow> ustr \<Rightarrow> obj" where
  "quarantine_status rid room user reason now =
     [(u ''request_id'', JStr rid), (u ''status'', JStr (u ''failed_dlq'')),
      (u ''user_id'', JInt user), (u ''failed_reason'', JStr reason), (u ''failed_at'', JStr now)]
     @ (if 0 < room then [(u ''room_id'', JInt room)] else [])"

definition move_invalid_ingress_to_dlq ::
    "pylib \<Rightarrow> pg \<Rightarrow> terminal_env \<Rightarrow> raw \<Rightarrow> ustr \<Rightarrow> worker_state \<Rightarrow> worker_state \<times> (exn + unit)" where
  "move_invalid_ingress_to_dlq L G e r reason w =
     (let source = raw_source r;
          room = quarantine_room source;
          rid = quarantine_request_id (t_uuid e) source;
          (t', q) = publish_job (t_dlq e) room
                      (JObj (quarantine_payload L (t_uuid e) (t_now e) r reason)) (w_dlq w);
          w' = w\<lparr>w_dlq := t'\<rparr> in
      case q of
        Inl ex \<Rightarrow> (w', Inl ex)
      | Inr _ \<Rightarrow>
          (case quarantine_user source of
             None \<Rightarrow> (w', Inr ())
           | Some user \<Rightarrow>
               (set_status G e rid
                  (quarantine_status rid room user (u ''invalid_ingress:'' @ safe_reason reason) (t_now e)) w',
                Inr ())))"

definition failed_job_payload :: "job \<Rightarrow> ustr \<Rightarrow> ustr \<Rightarrow> obj" where
  "failed_job_payload j reason now =
     set_key (set_key (job_obj j) ''failed_reason'' (JStr reason)) ''failed_at'' (JStr now)"

definition move_to_dlq ::
    "pg \<Rightarrow> terminal_env \<Rightarrow> job \<Rightarrow> ustr \<Rightarrow> worker_state \<Rightarrow> worker_state \<times> (exn + unit)" where
  "move_to_dlq G e j reason w =
     (let (t', q) = publish_job (t_dlq e) (j_room_id j)
                      (JObj (failed_job_payload j reason (t_now e))) (w_dlq w);
          w' = w\<lparr>w_dlq := t'\<rparr> in
      case q of
        Inl ex \<Rightarrow> (w', Inl ex)
      | Inr _ \<Rightarrow>
          (set_status G e (j_request_id j)
             [(u ''request_id'', JStr (j_request_id j)), (u ''status'', JStr (u ''failed_dlq'')),
              (u ''room_id'', JInt (j_room_id j)), (u ''user_id'', JInt (j_user_id j)),
              (u ''failed_reason'', JStr reason), (u ''retry_count'', JInt (j_retry_count j)),
              (u ''failed_at'', JStr (t_now e))] w',
           Inr ()))"

section \<open>Inline retries\<close>

definition max_inline_retry_delay :: rat where
  "max_inline_retry_delay = 60"

definition inline_delay :: "pyfloat \<Rightarrow> int \<Rightarrow> rat" where
  "inline_delay base retry_count =
     (let b = (case base of Fin r \<Rightarrow> if r \<le> 0 then 1 else r | _ \<Rightarrow> 1);
          exponent = nat (min (max (retry_count - 1) 0) 20) in
      min (b * 2 ^ exponent) max_inline_retry_delay)"

text \<open>
  The inputs of one attempt: the clock at the head of the loop, the persistence transaction,
  and, for a retry, the clock, the rendering of the next attempt's time and the status update.
\<close>

record attempt_env =
  x_clock :: rat
  x_stamps :: stamps
  x_tx :: tx_fault
  x_retry_clock :: rat
  x_retry_text :: ustr
  x_retry_status :: tx_fault

definition mark_inline_retry ::
    "pg \<Rightarrow> pyfloat \<Rightarrow> attempt_env \<Rightarrow> job \<Rightarrow> worker_state \<Rightarrow> job \<times> worker_state \<times> rat" where
  "mark_inline_retry G base x j w =
     (let retry_count = j_retry_count j + 1;
          delay = inline_delay base retry_count;
          j' = j\<lparr>j_retry_count := retry_count, j_next_retry_at := Some (x_retry_clock x + delay)\<rparr>;
          status =
            [(u ''request_id'', JStr (j_request_id j)), (u ''status'', JStr (u ''queued'')),
             (u ''room_id'', JInt (j_room_id j)), (u ''user_id'', JInt (j_user_id j)),
             (u ''room_seq'', json_opt JInt (j_room_seq j)), (u ''retry_count'', JInt retry_count),
             (u ''next_retry_at'', JStr (x_retry_text x))] in
      (j', w\<lparr>w_db := update_request_status G (x_retry_status x) (j_request_id j) status (w_db w)\<rparr>,
       delay))"

definition wait_before :: "rat \<Rightarrow> job \<Rightarrow> rat list" where
  "wait_before now j =
     (case j_next_retry_at j of
        Some t \<Rightarrow> if now < t then [min (max 0 (t - now)) max_inline_retry_delay] else []
      | None \<Rightarrow> [])"

section \<open>The handler\<close>

text \<open>
  One attempt ends the handling, with the handler's answer or an exception that leaves it, or
  asks for another attempt. psycopg2's subclasses of an exception are represented by the class
  the handler names.
\<close>

datatype attempt_result = Done "exn + ustr" | Retry job rat

record retry_config =
  max_retries :: int
  base_delay :: pyfloat

definition failed_status :: "job \<Rightarrow> ustr \<Rightarrow> obj" where
  "failed_status j reason =
     [(u ''request_id'', JStr (j_request_id j)), (u ''status'', JStr (u ''failed'')),
      (u ''room_id'', JInt (j_room_id j)), (u ''user_id'', JInt (j_user_id j)),
      (u ''failed_reason'', JStr reason)]"

text \<open>\<open>str(exc)\<close> of the exceptions whose text the pipeline chose.\<close>

fun exn_text :: "exn \<Rightarrow> ustr" where
  "exn_text (ValueError s) = s"
| "exn_text (IngressAuthorizationError s) = s"
| "exn_text (RequestStatusOwnerConflict s) = s"
| "exn_text (NotificationTargetMissing s) = s"
| "exn_text (RuntimeError s) = s"
| "exn_text (RoomSequenceGapError s) = s"
| "exn_text e = exn_name e"

fun is_authorization_error :: "exn \<Rightarrow> bool" where
  "is_authorization_error (IngressAuthorizationError _) = True"
| "is_authorization_error _ = False"

fun is_gap_error :: "exn \<Rightarrow> bool" where
  "is_gap_error (RoomSequenceGapError _) = True"
| "is_gap_error _ = False"

definition is_transient :: "exn \<Rightarrow> bool" where
  "is_transient e \<longleftrightarrow> e = OperationalError \<or> e = InterfaceError \<or> is_runtime_error e"

definition finish_dlq ::
    "pg \<Rightarrow> terminal_env \<Rightarrow> job \<Rightarrow> ustr \<Rightarrow> worker_state \<Rightarrow> worker_state \<times> attempt_result" where
  "finish_dlq G e j reason w =
     (case move_to_dlq G e j reason w of
        (w', Inl ex) \<Rightarrow> (w', Done (Inl ex))
      | (w', Inr _) \<Rightarrow> (w', Done (Inr (u ''dlq''))))"

definition retry_or_dlq ::
    "pg \<Rightarrow> retry_config \<Rightarrow> terminal_env \<Rightarrow> attempt_env \<Rightarrow> job \<Rightarrow> ustr \<Rightarrow> worker_state
      \<Rightarrow> worker_state \<times> attempt_result" where
  "retry_or_dlq G C e x j reason w =
     (if max_retries C \<le> j_retry_count j then finish_dlq G e j reason w
      else (case mark_inline_retry G (base_delay C) x j w of
              (j', w', delay) \<Rightarrow> (w', Retry j' delay)))"

definition handle_attempt ::
    "pylib \<Rightarrow> pg \<Rightarrow> retry_config \<Rightarrow> terminal_env \<Rightarrow> attempt_env \<Rightarrow> job \<Rightarrow> worker_state
      \<Rightarrow> worker_state \<times> attempt_result" where
  "handle_attempt L G C e x j w =
     (case persist_ingress_job L G (x_tx x) (x_stamps x) j (w_db w) of
        (db', Inr _) \<Rightarrow> (w\<lparr>w_db := db'\<rparr>, Done (Inr (u ''success'')))
      | (db', Inl ex) \<Rightarrow>
          (let w' = w\<lparr>w_db := db'\<rparr> in
           if is_authorization_error ex then
             (set_status G e (j_request_id j) (failed_status j (u ''Event authorization rejected'')) w',
              Done (Inr (u ''rejected'')))
           else if is_value_error ex then
             (set_status G e (j_request_id j) (failed_status j (exn_text ex)) w',
              Done (Inr (u ''rejected'')))
           else if ex = DataError then
             finish_dlq G e j (u ''invalid_persistence_data:'' @ exn_name ex) w'
           else if is_gap_error ex then
             retry_or_dlq G C e x j (u ''room_sequence_gap'') w'
           else if is_transient ex then
             retry_or_dlq G C e x j (u ''transient_error_max_retries:'' @ exn_name ex) w'
           else (w', Done (Inl ex))))"

lemma handle_attempt_Retry:
  assumes "handle_attempt L G C e x j w = (w', Retry j' d)"
  shows "j_retry_count j < max_retries C" "j_retry_count j' = j_retry_count j + 1"
    "d = inline_delay (base_delay C) (j_retry_count j')"
    "\<exists>t. j' = j\<lparr>j_retry_count := j_retry_count j + 1, j_next_retry_at := Some t\<rparr>"
  using assms
  by (auto simp: handle_attempt_def retry_or_dlq_def finish_dlq_def mark_inline_retry_def Let_def
      split: prod.splits sum.splits if_splits)

text \<open>The loop; attempt \<open>n\<close> takes its inputs from \<open>X n\<close>. The list is the time slept.\<close>

function handle_loop ::
    "pylib \<Rightarrow> pg \<Rightarrow> retry_config \<Rightarrow> terminal_env \<Rightarrow> (nat \<Rightarrow> attempt_env) \<Rightarrow> nat \<Rightarrow> job \<Rightarrow> worker_state
      \<Rightarrow> worker_state \<times> rat list \<times> (exn + ustr)" where
  "handle_loop L G C e X n j w =
     (case handle_attempt L G C e (X n) j w of
        (w', Done q) \<Rightarrow> (w', wait_before (x_clock (X n)) j, q)
      | (w', Retry j' delay) \<Rightarrow>
          (case handle_loop L G C e X (Suc n) j' w' of
             (w'', slept, q) \<Rightarrow> (w'', wait_before (x_clock (X n)) j @ delay # slept, q)))"
  by pat_completeness auto
termination
  by (relation "measure (\<lambda>(L, G, C, e, X, n, j, w). nat (max_retries C - j_retry_count j))")
    (auto dest: handle_attempt_Retry(1,2) [OF sym])

declare handle_loop.simps [simp del]

lemma handle_loop_Done:
  "handle_attempt L G C e (X n) j w = (w', Done q) \<Longrightarrow>
    handle_loop L G C e X n j w = (w', wait_before (x_clock (X n)) j, q)"
  by (subst handle_loop.simps) simp

lemma handle_loop_Retry:
  "handle_attempt L G C e (X n) j w = (w1, Retry j' d) \<Longrightarrow>
    handle_loop L G C e X (Suc n) j' w1 = (w2, sl, q) \<Longrightarrow>
    handle_loop L G C e X n j w = (w2, wait_before (x_clock (X n)) j @ d # sl, q)"
  by (subst handle_loop.simps) simp

text \<open>The key of the record: text, bytes, an integer, or anything else (\<open>None\<close>, a boolean).\<close>

datatype record_key = Key_text ustr | Key_bytes bytes | Key_int int | Key_other

definition normalized_kafka_key :: "kafka_lib \<Rightarrow> record_key \<Rightarrow> ustr option" where
  "normalized_kafka_key K k =
     (case k of
        Key_text s \<Rightarrow> Some s
      | Key_bytes bs \<Rightarrow> decode_utf8 K bs
      | Key_int i \<Rightarrow> Some (py_str_int i)
      | Key_other \<Rightarrow> None)"

text \<open>
  Decoding and validation: the payload the quarantine sees (the dictionary itself is validated
  in place; a text is decoded to a fresh one) and the job or the reason of the refusal.
\<close>

definition raw_after :: "raw \<Rightarrow> json \<Rightarrow> raw" where
  "raw_after r v' =
     (case r of
        Value v \<Rightarrow> (case v of JStr _ \<Rightarrow> r | _ \<Rightarrow> Value v')
      | Marked d \<Rightarrow> (case v' of JObj d' \<Rightarrow> Marked d' | _ \<Rightarrow> r))"

definition decode_job :: "pylib \<Rightarrow> (raw \<Rightarrow> ustr) \<Rightarrow> raw \<Rightarrow> raw \<times> (ustr + exn + job)" where
  "decode_job L load_error r =
     (case load_raw L r of
        Inl e \<Rightarrow> (r, Inl (load_error r))
      | Inr v \<Rightarrow>
          if is_invalid_kafka_payload v then (r, Inl (u ''Kafka payload is marked as invalid''))
          else
            (case validate_ingress_payload L v of
               (v', Inr j) \<Rightarrow> (raw_after r v', Inr (Inr j))
             | (v', Inl ex) \<Rightarrow>
                 (raw_after r v',
                  if is_value_error ex \<or> ex = TypeError then Inl (exn_text ex) else Inr (Inl ex))))"

definition quarantine ::
    "pylib \<Rightarrow> pg \<Rightarrow> terminal_env \<Rightarrow> raw \<Rightarrow> ustr \<Rightarrow> worker_state
      \<Rightarrow> worker_state \<times> rat list \<times> (exn + ustr)" where
  "quarantine L G e r reason w =
     (case move_invalid_ingress_to_dlq L G e r reason w of
        (w', Inl ex) \<Rightarrow> (w', [], Inl ex)
      | (w', Inr _) \<Rightarrow> (w', [], Inr (u ''dlq'')))"

text \<open>\<open>k = None\<close> is the call without \<open>kafka_key\<close>.\<close>

definition handle_ingress_job ::
    "pylib \<Rightarrow> kafka_lib \<Rightarrow> pg \<Rightarrow> retry_config \<Rightarrow> terminal_env \<Rightarrow> (raw \<Rightarrow> ustr) \<Rightarrow> (nat \<Rightarrow> attempt_env)
      \<Rightarrow> raw \<Rightarrow> record_key option \<Rightarrow> worker_state \<Rightarrow> worker_state \<times> rat list \<times> (exn + ustr)" where
  "handle_ingress_job L K G C e load_error X r k w =
     (case decode_job L load_error r of
        (r', Inl reason) \<Rightarrow> quarantine L G e r' reason w
      | (r', Inr (Inl ex)) \<Rightarrow> (w, [], Inl ex)
      | (r', Inr (Inr j)) \<Rightarrow>
          (case k of
             Some k' \<Rightarrow>
               if normalized_kafka_key K k' \<noteq> Some (py_str_int (j_room_id j))
               then quarantine L G e (Value (JObj (job_obj j))) (u ''kafka_key_stream_id_mismatch'') w
               else handle_loop L G C e X 0 j w
           | None \<Rightarrow> handle_loop L G C e X 0 j w))"

section \<open>What the handler keeps\<close>

definition tables_ok :: "db \<Rightarrow> bool" where
  "tables_ok db \<longleftrightarrow> store_ok db \<and> idem_ok db"

lemma tables_ok_statuses [simp]: "tables_ok (db\<lparr>request_statuses := rs\<rparr>) = tables_ok db"
  using store_ok_cong [of "db\<lparr>request_statuses := rs\<rparr>" db]
  by (simp add: tables_ok_def idem_ok_def names_event_def)

lemma update_status_frame: "\<exists>rs. update_request_status G f rid payload db = db\<lparr>request_statuses := rs\<rparr>"
  using store_status_cases [of G f rid payload db]
  by (cases "store_request_status G f rid payload db") (auto simp: update_request_status_def)

lemma set_status_frame:
  "\<exists>rs. set_status G e rid payload w = w\<lparr>w_db := (w_db w)\<lparr>request_statuses := rs\<rparr>\<rparr>"
  using update_status_frame [of G "t_status e" rid payload "w_db w"]
  by (auto simp: set_status_def)

definition status_only :: "worker_state \<Rightarrow> worker_state \<Rightarrow> bool" where
  "status_only w w' \<longleftrightarrow>
     (\<exists>rs. w_db w' = (w_db w)\<lparr>request_statuses := rs\<rparr>) \<and> w_dlq w' = w_dlq w"

lemma status_only_refl [simp]: "status_only w w"
  unfolding status_only_def by (auto intro: exI [of _ "request_statuses (w_db w)"])

lemma status_only_set [simp]: "status_only w (set_status G e rid payload w)"
  using set_status_frame [of G e rid payload w] by (auto simp: status_only_def)

lemma status_only_ok: "status_only w w' \<Longrightarrow> tables_ok (w_db w') = tables_ok (w_db w)"
  by (auto simp: status_only_def)

text \<open>An event of the job's room and author, with its notification, under the job's request id
  unless an idempotency key was in play.\<close>

definition durable_event :: "db \<Rightarrow> job \<Rightarrow> bool" where
  "durable_event db j \<longleftrightarrow>
     (\<exists>m\<in>set (messages db). m_room_id m = j_room_id j \<and> m_user_id m = j_user_id j
        \<and> (active_key j = None \<longrightarrow> m_request_id m = j_request_id j)
        \<and> (\<exists>x\<in>set (outbox db). o_message_id x = m_id m))"

lemma persist_body_durable:
  assumes "persist_body L G ts j db = (db', Inr response)" "tables_ok db"
  shows "durable_event db' j"
  using assms(1)
proof (cases rule: persist_body_Inr)
  case (hit r ik rs)
  from hit(1) have key: "active_key j \<noteq> None" by (auto simp: cache_hit_def)
  obtain m where m: "names_event db r m" "m_user_id m = j_user_id j" "m_room_id m = j_room_id j"
    using cache_hit_row [OF hit(1)] assms(2) by (auto simp: tables_ok_def)
  then have "\<exists>x\<in>set (outbox db). o_message_id x = m_id m"
    using assms(2) by (simp add: tables_ok_def store_ok_def outbox_complete_def names_event_def)
  moreover have "outbox db' = outbox db" "messages db' = messages db" using hit(3) by simp_all
  ultimately show ?thesis using m key by (auto simp: durable_event_def names_event_def)
next
  case (existing m rs)
  then have "m \<in> set (messages db)" "m_request_id m = j_request_id j"
    by (auto simp: find_request_def dest!: find_SomeD)
  with existing(2,3) notified_frame [OF existing(5)] show ?thesis
    by (auto simp: durable_event_def intro!: bexI [of _ m])
next
  case (inserted m ik rs)
  have "m \<in> set (messages db')" using notified_frame(1) [OF inserted(4)] by auto
  with stored_event_fields [OF inserted(1)] notified_frame(2) [OF inserted(4)]
  show ?thesis by (auto simp: durable_event_def intro!: bexI [of _ m])
qed

lemma persist_tables_ok:
  assumes "jsonb_laws G" "tables_ok db" "persist_ingress_job L G f ts j db = (db', q)"
  shows "tables_ok db'"
proof -
  have "store_ok db'"
    using persist_store_ok [of db L G f ts j] assms(2,3) by (simp add: tables_ok_def)
  moreover from assms(3) have "idem_ok db'"
  proof (cases rule: persist_cases)
    case (no_effect e mid)
    with assms(2) show ?thesis by (auto simp: tables_ok_def idem_ok_def names_event_def)
  next
    case (applied r)
    with persist_body_idem_ok [OF assms(1)] assms(2) show ?thesis by (auto simp: tables_ok_def)
  qed
  ultimately show ?thesis by (simp add: tables_ok_def)
qed

lemma persist_durable:
  assumes "tables_ok db" "persist_ingress_job L G f ts j db = (db', Inr r)"
  shows "durable_event db' j"
  using assms(2)
proof (cases rule: persist_cases)
  case (applied r')
  with persist_body_durable [OF _ assms(1)] show ?thesis by blast
qed simp

lemma persist_grows:
  assumes "persist_ingress_job L G f ts j db = (db', q)"
  shows "set (messages db) \<subseteq> set (messages db') \<and> set (outbox db) \<subseteq> set (outbox db')"
  using assms
proof (cases rule: persist_cases)
  case (applied r)
  from applied(1) show ?thesis
  proof (cases rule: persist_body_Inr)
    case (existing m rs)
    then show ?thesis using notified_frame [OF existing(5)] by auto
  next
    case (inserted m ik rs)
    then show ?thesis using notified_frame [OF inserted(4)] by auto
  qed auto
qed auto

text \<open>A step of the tables: they stay well formed, and no event and no intent disappears.\<close>

definition tables_step :: "db \<Rightarrow> db \<Rightarrow> bool" where
  "tables_step db db' \<longleftrightarrow>
     tables_ok db' \<and> set (messages db) \<subseteq> set (messages db')
     \<and> o_message_id ` set (outbox db) \<subseteq> o_message_id ` set (outbox db')"

lemma tables_step_statuses [simp]: "tables_step db (db\<lparr>request_statuses := rs\<rparr>) = tables_ok db"
  by (simp add: tables_step_def)

lemma tables_step_refl [simp]: "tables_step db db = tables_ok db"
  by (simp add: tables_step_def)

lemma tables_step_trans: "tables_step db db1 \<Longrightarrow> tables_step db1 db' \<Longrightarrow> tables_step db db'"
  unfolding tables_step_def by (meson subset_trans)

lemma tables_step_ok: "tables_step db db' \<Longrightarrow> tables_ok db'"
  by (simp add: tables_step_def)

lemma tables_step_durable: "tables_step db db' \<Longrightarrow> durable_event db j \<Longrightarrow> durable_event db' j"
proof -
  assume step: "tables_step db db'" and ev: "durable_event db j"
  from ev obtain m x where m: "m \<in> set (messages db)" "m_room_id m = j_room_id j" "m_user_id m = j_user_id j"
      "active_key j = None \<longrightarrow> m_request_id m = j_request_id j"
    and x: "x \<in> set (outbox db)" "o_message_id x = m_id m"
    unfolding durable_event_def by auto
  have "m \<in> set (messages db')" "m_id m \<in> o_message_id ` set (outbox db')"
    using step m(1) x by (force simp: tables_step_def)+
  with m show "durable_event db' j" unfolding durable_event_def by (auto intro!: bexI [of _ m])
qed

lemma status_only_step: "status_only w w' \<Longrightarrow> tables_ok (w_db w) \<Longrightarrow> tables_step (w_db w) (w_db w')"
  by (auto simp: status_only_def)

text \<open>A dead-letter record is about a job, or marked as undecodable.\<close>

definition concerns :: "job option \<Rightarrow> int \<times> json \<Rightarrow> bool" where
  "concerns jo d \<longleftrightarrow>
     (case snd d of
        JObj d \<Rightarrow>
          (case jo of
             Some j \<Rightarrow> get_none d ''request_id'' = JStr (j_request_id j)
           | None \<Rightarrow> get_none d ''__invalid_kafka_payload__'' = JBool True)
      | _ \<Rightarrow> False)"

text \<open>
  The accounting of one record: how the state after a step relates to the one before, given the
  handler's answer.
\<close>

definition accounted :: "job option \<Rightarrow> worker_state \<Rightarrow> worker_state \<Rightarrow> exn + ustr \<Rightarrow> bool" where
  "accounted jo w w' q \<longleftrightarrow>
     (q = Inr (u ''success'') \<and> w_dlq w' = w_dlq w \<and> (\<exists>j. jo = Some j \<and> durable_event (w_db w') j))
   \<or> (q = Inr (u ''dlq'') \<and> (\<exists>d. w_dlq w' = w_dlq w @ [d] \<and> concerns jo d))
   \<or> (q = Inr (u ''rejected'') \<and> w_dlq w' = w_dlq w \<and> jo \<noteq> None)
   \<or> (isl q \<and> (w_dlq w' = w_dlq w \<or> (\<exists>d. w_dlq w' = w_dlq w @ [d])))"

text \<open>The job a retried job came from: retries change the counter and the next attempt's time.\<close>

definition same_job :: "job \<Rightarrow> job \<Rightarrow> bool" where
  "same_job j j' \<longleftrightarrow>
     j\<lparr>j_retry_count := 0, j_next_retry_at := None\<rparr> = j'\<lparr>j_retry_count := 0, j_next_retry_at := None\<rparr>"

lemma same_job_refl [simp]: "same_job j j"
  by (simp add: same_job_def)

lemma same_job_trans: "same_job j j' \<Longrightarrow> same_job j' j'' \<Longrightarrow> same_job j j''"
  by (simp add: same_job_def)

lemma same_job_retried [simp]: "same_job j (j\<lparr>j_retry_count := n, j_next_retry_at := t\<rparr>)"
  by (simp add: same_job_def)

lemma same_job_durable: "same_job j j' \<Longrightarrow> durable_event db j' = durable_event db j"
  by (cases j; cases j') (simp add: same_job_def durable_event_def active_key_def)

lemma move_to_dlq_outcome:
  assumes "move_to_dlq G e j reason w = (w', q)"
  shows "(tables_ok (w_db w) \<longrightarrow> tables_step (w_db w) (w_db w'))
    \<and> (isl q \<and> (w_dlq w' = w_dlq w \<or> (\<exists>d. w_dlq w' = w_dlq w @ [d]))
       \<or> q = Inr () \<and> w_dlq w' = w_dlq w @ [(j_room_id j, JObj (failed_job_payload j reason (t_now e)))])"
proof -
  let ?v = "JObj (failed_job_payload j reason (t_now e))"
  obtain t' p where pub: "publish_job (t_dlq e) (j_room_id j) ?v (w_dlq w) = (t', p)"
    by (cases "publish_job (t_dlq e) (j_room_id j) ?v (w_dlq w)")
  from pub have "isl p \<and> (t' = w_dlq w \<or> t' = w_dlq w @ [(j_room_id j, ?v)])
      \<or> p = Inr () \<and> t' = w_dlq w @ [(j_room_id j, ?v)]"
    by (cases rule: publish_job_cases) auto
  moreover have "\<exists>rs. w' = w\<lparr>w_dlq := t', w_db := (w_db w)\<lparr>request_statuses := rs\<rparr>\<rparr> \<and> q = p"
  proof (cases p)
    case (Inl ex)
    with assms pub have "w' = w\<lparr>w_dlq := t'\<rparr>" "q = p" by (simp_all add: move_to_dlq_def Let_def)
    then show ?thesis by (intro exI [of _ "request_statuses (w_db w)"]) simp
  next
    case (Inr y)
    with assms pub obtain pl where "w' = set_status G e (j_request_id j) pl (w\<lparr>w_dlq := t'\<rparr>)" "q = p"
      by (simp add: move_to_dlq_def Let_def) blast
    then show ?thesis using set_status_frame [of G e "j_request_id j" pl "w\<lparr>w_dlq := t'\<rparr>"] by auto
  qed
  ultimately show ?thesis by auto
qed

lemma finish_dlq_outcome:
  assumes "finish_dlq G e j reason w = (w', q)" "same_job j0 j"
  shows "\<exists>p. q = Done p \<and> (tables_ok (w_db w) \<longrightarrow> tables_step (w_db w) (w_db w'))
    \<and> accounted (Some j0) w w' p"
proof -
  have id: "concerns (Some j0) (j_room_id j, JObj (failed_job_payload j reason (t_now e)))"
    using assms(2) by (cases j0; cases j)
      (simp add: same_job_def concerns_def failed_job_payload_def has_key_of_get(2) [OF job_obj_gets(1)])
  obtain w1 p where m: "move_to_dlq G e j reason w = (w1, p)" by fastforce
  with assms(1) have "w' = w1" "q = Done (case p of Inl ex \<Rightarrow> Inl ex | Inr _ \<Rightarrow> Inr (u ''dlq''))"
    by (auto simp: finish_dlq_def split: sum.splits)
  with move_to_dlq_outcome [OF m] id show ?thesis
    by (cases p) (auto simp: accounted_def)
qed

lemma quarantine_outcome:
  assumes "quarantine L G e r reason w = (w', slept, q)"
  shows "slept = [] \<and> (\<exists>rs. w_db w' = (w_db w)\<lparr>request_statuses := rs\<rparr>)
    \<and> (isl q \<and> (w_dlq w' = w_dlq w \<or> (\<exists>d. w_dlq w' = w_dlq w @ [d]))
       \<or> q = Inr (u ''dlq'') \<and> w_dlq w' = w_dlq w @ [(quarantine_room (raw_source r),
           JObj (quarantine_payload L (t_uuid e) (t_now e) r reason))])"
proof -
  let ?room = "quarantine_room (raw_source r)"
  let ?v = "JObj (quarantine_payload L (t_uuid e) (t_now e) r reason)"
  obtain t' p where pub: "publish_job (t_dlq e) ?room ?v (w_dlq w) = (t', p)"
    by (cases "publish_job (t_dlq e) ?room ?v (w_dlq w)")
  from pub have "isl p \<and> (t' = w_dlq w \<or> t' = w_dlq w @ [(?room, ?v)])
      \<or> p = Inr () \<and> t' = w_dlq w @ [(?room, ?v)]"
    by (cases rule: publish_job_cases) auto
  moreover have "status_only (w\<lparr>w_dlq := t'\<rparr>) w' \<and> slept = []
      \<and> q = (case p of Inl ex \<Rightarrow> Inl ex | Inr _ \<Rightarrow> Inr (u ''dlq''))"
    using assms pub
    by (cases p; cases "quarantine_user (raw_source r)")
      (auto simp: quarantine_def move_invalid_ingress_to_dlq_def Let_def)
  ultimately show ?thesis by (cases p) (auto simp: status_only_def)
qed

lemma mark_inline_retry_outcome:
  assumes "mark_inline_retry G base x j w = (j', w', d)"
  shows "status_only w w'" "d = inline_delay base (j_retry_count j + 1)"
    "j' = j\<lparr>j_retry_count := j_retry_count j + 1, j_next_retry_at := Some (x_retry_clock x + d)\<rparr>"
  using assms update_status_frame [of G "x_retry_status x" _ _ "w_db w"]
  by (auto simp: mark_inline_retry_def Let_def status_only_def)

lemma retry_or_dlq_outcome:
  assumes "retry_or_dlq G C e x j reason w = (w', q)" "same_job j0 j"
  shows "(\<exists>j' d. q = Retry j' d \<and> status_only w w')
    \<or> (\<exists>p. q = Done p \<and> (tables_ok (w_db w) \<longrightarrow> tables_step (w_db w) (w_db w'))
        \<and> accounted (Some j0) w w' p)"
proof (cases "max_retries C \<le> j_retry_count j")
  case True
  then show ?thesis using assms finish_dlq_outcome [of G e j reason w w' q j0]
    by (auto simp: retry_or_dlq_def)
next
  case False
  then show ?thesis using assms mark_inline_retry_outcome(1)
    by (auto simp: retry_or_dlq_def split: prod.splits)
qed

lemma handle_attempt_outcome:
  assumes "jsonb_laws G" "tables_ok (w_db w)" "same_job j0 j"
    and "handle_attempt L G C e x j w = (w', q)"
  shows "tables_step (w_db w) (w_db w') \<and>
    ((\<exists>j' d. q = Retry j' d \<and> w_dlq w' = w_dlq w \<and> same_job j0 j') \<or> (\<exists>p. q = Done p \<and> accounted (Some j0) w w' p))"
proof -
  obtain db' r where run: "persist_ingress_job L G (x_tx x) (x_stamps x) j (w_db w) = (db', r)"
    by fastforce
  let ?w = "w\<lparr>w_db := db'\<rparr>"
  have ok: "tables_step (w_db w) (w_db ?w)"
    using persist_tables_ok [OF assms(1,2) run] persist_grows [OF run] by (auto simp: tables_step_def)
  note ok' = tables_step_ok [OF ok]
  have acc: "accounted (Some j0) w w'' p" if "accounted (Some j0) ?w w'' p" for w'' p
    using that by (simp add: accounted_def)
  have same: "same_job j0 j'" if "q = Retry j' d" for j' d
    using handle_attempt_Retry(4) [of L G C e x j w w' j' d] assms(3,4) that same_job_trans
    by (metis same_job_retried)
  show ?thesis
  proof (cases r)
    case (Inr resp)
    with assms(4) run have "w' = ?w" "q = Done (Inr (u ''success''))"
      by (simp_all add: handle_attempt_def)
    moreover have "durable_event db' j0"
      using persist_durable [OF assms(2) run [unfolded Inr]] by (simp only: same_job_durable [OF assms(3)])
    ultimately show ?thesis using ok by (simp add: accounted_def)
  next
    case (Inl ex)
    have "(\<exists>pl. w' = set_status G e (j_request_id j) pl ?w) \<and> q = Done (Inr (u ''rejected''))
        \<or> (\<exists>reason. finish_dlq G e j reason ?w = (w', q))
        \<or> (\<exists>reason. retry_or_dlq G C e x j reason ?w = (w', q))
        \<or> w' = ?w \<and> q = Done (Inl ex)"
      using assms(4) run Inl by (auto simp: handle_attempt_def Let_def split: if_splits)
    then consider
      (rejected) pl where "w' = set_status G e (j_request_id j) pl ?w" "q = Done (Inr (u ''rejected''))"
      | (dlq) reason where "finish_dlq G e j reason ?w = (w', q)"
      | (again) reason where "retry_or_dlq G C e x j reason ?w = (w', q)"
      | (raised) "w' = ?w" "q = Done (Inl ex)"
      by blast
    then show ?thesis
    proof cases
      case rejected
      then have "status_only ?w w'" by simp
      with rejected tables_step_trans [OF ok status_only_step [OF _ ok']] show ?thesis
        by (simp add: accounted_def status_only_def)
    next
      case dlq
      from finish_dlq_outcome [OF dlq assms(3)] ok' acc tables_step_trans [OF ok] show ?thesis by blast
    next
      case again
      from retry_or_dlq_outcome [OF again assms(3)] show ?thesis
      proof (elim disjE exE conjE)
        fix j' d
        assume "q = Retry j' d" "status_only ?w w'"
        with same tables_step_trans [OF ok status_only_step [OF _ ok']] show ?thesis
          by (simp add: status_only_def)
      next
        fix p
        assume "q = Done p" "tables_ok (w_db ?w) \<longrightarrow> tables_step (w_db ?w) (w_db w')"
          "accounted (Some j0) ?w w' p"
        with ok' acc tables_step_trans [OF ok] show ?thesis by blast
      qed
    next
      case raised
      with ok show ?thesis by (simp add: accounted_def)
    qed
  qed
qed

lemma handle_loop_outcome:
  assumes "jsonb_laws G" "tables_ok (w_db w)" "same_job j0 j"
    and "handle_loop L G C e X n j w = (w', slept, q)"
  shows "tables_step (w_db w) (w_db w') \<and> accounted (Some j0) w w' q"
  using assms
proof (induction L G C e X n j w arbitrary: w' slept q rule: handle_loop.induct)
  case (1 L G C e X n j w)
  obtain w1 r where step: "handle_attempt L G C e (X n) j w = (w1, r)" by fastforce
  show ?case
  proof (cases r)
    case (Done p)
    with "1.prems"(4) step have "w' = w1" "q = p" by (simp_all add: handle_loop_Done)
    with handle_attempt_outcome [OF "1.prems"(1-3) step] Done show ?thesis by simp
  next
    case (Retry j' d)
    obtain w2 sl p where rest: "handle_loop L G C e X (Suc n) j' w1 = (w2, sl, p)" by (rule prod_cases3)
    with "1.prems"(4) step Retry have eq: "w' = w2" "q = p" by (simp_all add: handle_loop_Retry)
    from handle_attempt_outcome [OF "1.prems"(1-3) step] Retry
    have w1: "tables_step (w_db w) (w_db w1)" "w_dlq w1 = w_dlq w" "same_job j0 j'" by simp_all
    from "1.IH" [OF step [symmetric] Retry "1.prems"(1) tables_step_ok [OF w1(1)] w1(3) rest] eq w1(2)
      tables_step_trans [OF w1(1)]
    show ?thesis by (simp add: accounted_def)
  qed
qed

section \<open>Every record is accounted for\<close>

lemma raw_after_job: "decode_job L le r = (r', Inr (Inr j)) \<Longrightarrow>
    \<exists>v v'. load_raw L r = Inr v \<and> \<not> is_invalid_kafka_payload v
      \<and> validate_ingress_payload L v = (v', Inr j)"
  by (auto simp: decode_job_def split: sum.splits if_splits prod.splits)

lemma decode_job_wf: "decode_job L le r = (r', Inr (Inr j)) \<Longrightarrow> job_wf L j"
  by (auto dest!: raw_after_job intro: validate_Inr_wf)

definition decoded :: "pylib \<Rightarrow> raw \<Rightarrow> job option" where
  "decoded L r = (case decode_job L (\<lambda>_. []) r of (_, Inr (Inr j)) \<Rightarrow> Some j | _ \<Rightarrow> None)"

lemma decoded_any: "decode_job L le r = (r', Inr (Inr j)) \<Longrightarrow> decoded L r = Some j"
  by (auto simp: decoded_def decode_job_def split: sum.splits if_splits prod.splits)

lemma status_only_frame: "w_db w' = (w_db w)\<lparr>request_statuses := rs\<rparr> \<Longrightarrow> tables_ok (w_db w') = tables_ok (w_db w)"
  by simp

lemma quarantine_accounted:
  assumes "quarantine L G e r reason w = (w', slept, q)" "tables_ok (w_db w)"
    and "jo = None \<or> (\<exists>j. jo = Some j \<and> job_wf L j \<and> r = Value (JObj (job_obj j)))"
  shows "tables_step (w_db w) (w_db w') \<and> accounted jo w w' q"
proof -
  have "concerns jo (k, JObj (quarantine_payload L uuid now r reason'))" for k uuid now reason'
    using assms(3)
    by (auto simp: concerns_def quarantine_payload_def Let_def text_simps quarantine_request_id_def
        raw_source_def has_key_of_get(2) [OF job_obj_gets(1)] job_wf_def job_identity_ok_def
        split: prod.splits)
  with quarantine_outcome [OF assms(1)] assms(2) show ?thesis by (auto simp: accounted_def)
qed

lemma handle_ingress_job_laws:
  assumes "jsonb_laws G" "tables_ok (w_db w)"
    and "handle_ingress_job L K G C e load_error X r k w = (w', slept, q)"
  shows "tables_step (w_db w) (w_db w') \<and> accounted (decoded L r) w w' q"
proof -
  obtain r' d where dec: "decode_job L load_error r = (r', d)" by fastforce
  show ?thesis
  proof (cases d)
    case (Inl reason)
    with assms(3) dec have "quarantine L G e r' reason w = (w', slept, q)"
      by (simp add: handle_ingress_job_def)
    moreover have "decoded L r = None"
      using dec Inl by (auto simp: decoded_def decode_job_def split: sum.splits if_splits prod.splits)
    ultimately show ?thesis using quarantine_accounted assms(2) by metis
  next
    case (Inr ej)
    show ?thesis
    proof (cases ej)
      case (Inl ex)
      with assms dec Inr have "w' = w" "q = Inl ex" by (simp_all add: handle_ingress_job_def)
      with assms(2) show ?thesis by (simp add: accounted_def)
    next
      case j: (Inr j)
      with dec Inr have "decoded L r = Some j" by (intro decoded_any) simp
      moreover have "(\<exists>reason. quarantine L G e (Value (JObj (job_obj j))) reason w = (w', slept, q))
          \<or> handle_loop L G C e X 0 j w = (w', slept, q)"
        using assms(3) dec Inr j by (auto simp: handle_ingress_job_def split: option.splits if_splits)
      ultimately show ?thesis
        using quarantine_accounted assms(2) handle_loop_outcome [OF assms(1,2) same_job_refl]
          decode_job_wf [of L load_error r r' j] dec Inr j
        by metis
    qed
  qed
qed

text \<open>
  C3: The ingress worker accounts for every record. Whatever the record holds, whichever
  transactions, publications and status updates fail, the tables stay well formed and lose no
  event and no notification intent, and the handler either answers \<open>success\<close> with the event of the decoded job stored together with its
  notification, or \<open>dlq\<close> with exactly one more record on the dead-letter topic, or \<open>rejected\<close> for
  a job that decoded, or it raises (and the batch loop does not commit the offset).
\<close>

theorem handle_ingress_accounts_for_record:
  assumes "jsonb_laws G" "tables_ok (w_db w)"
    and "handle_ingress_job L K G C e load_error X r k w = (w', slept, q)"
  shows "tables_step (w_db w) (w_db w') \<and> accounted (decoded L r) w w' q"
  by (rule handle_ingress_job_laws [OF assms])

section \<open>Bounds of the retry loop\<close>

lemma inline_delay_bounds: "0 < inline_delay base rc \<and> inline_delay base rc \<le> 60"
  by (auto simp: inline_delay_def Let_def max_inline_retry_delay_def min_def split: pyfloat.splits)

lemma wait_before_bounds: "\<forall>t\<in>set (wait_before now j). 0 \<le> t \<and> t \<le> 60"
  "length (wait_before now j) \<le> 1"
  by (auto simp: wait_before_def max_inline_retry_delay_def split: option.splits)

lemma handle_loop_slept:
  assumes "handle_loop L G C e X n j w = (w', slept, q)"
  shows "(\<forall>t\<in>set slept. 0 \<le> t \<and> t \<le> 60)
    \<and> length slept \<le> 2 * nat (max_retries C - j_retry_count j) + 1"
  using assms
proof (induction L G C e X n j w arbitrary: w' slept q rule: handle_loop.induct)
  case (1 L G C e X n j w)
  obtain w1 r where step: "handle_attempt L G C e (X n) j w = (w1, r)" by fastforce
  show ?case
  proof (cases r)
    case (Done p)
    with "1.prems" step have "slept = wait_before (x_clock (X n)) j" by (simp add: handle_loop_Done)
    with wait_before_bounds [of "x_clock (X n)" j] show ?thesis by simp
  next
    case (Retry j' d)
    obtain w2 sl p where rest: "handle_loop L G C e X (Suc n) j' w1 = (w2, sl, p)" by (rule prod_cases3)
    with "1.prems" step Retry have eq: "slept = wait_before (x_clock (X n)) j @ d # sl"
      by (simp add: handle_loop_Retry)
    note again = handle_attempt_Retry [OF step [unfolded Retry]]
    have "0 \<le> d \<and> d \<le> 60" using inline_delay_bounds again(3) by (simp add: less_imp_le)
    with "1.IH" [OF step [symmetric] Retry rest] eq wait_before_bounds [of "x_clock (X n)" j] again(1,2)
    show ?thesis by auto
  qed
qed

text \<open>
  The handler of one record is bounded: it always returns (the function is total), it sleeps
  at most twice per remaining retry and once more, and never longer than the sixty seconds the
  code caps each pause with, whatever the configured base delay is (infinite, NaN and
  nonpositive values included).
\<close>

theorem handle_ingress_bounded:
  assumes "handle_ingress_job L K G C e load_error X r k w = (w', slept, q)"
  shows "(\<forall>t\<in>set slept. 0 \<le> t \<and> t \<le> 60) \<and> length slept \<le> 2 * nat (max_retries C) + 1"
proof -
  obtain r' d where dec: "decode_job L load_error r = (r', d)" by fastforce
  have quar: "slept = []" if "quarantine L G e r'' reason w = (w', slept, q)" for r'' reason
    using quarantine_outcome [OF that] by simp
  show ?thesis
  proof (cases "\<exists>j. d = Inr (Inr j)")
    case True
    then obtain j where j: "d = Inr (Inr j)" by blast
    with decode_job_wf [of L load_error r r' j] dec have "0 \<le> j_retry_count j"
      by (simp add: job_wf_def job_rest_ok_def nonneg_bigint_JInt)
    moreover have "slept = [] \<or> handle_loop L G C e X 0 j w = (w', slept, q)"
      using assms dec j quar by (auto simp: handle_ingress_job_def split: option.splits if_splits)
    ultimately show ?thesis using handle_loop_slept [of L G C e X 0 j w w' slept q] by auto
  next
    case False
    then have "slept = []"
      using assms dec quar by (auto simp: handle_ingress_job_def split: sum.splits)
    then show ?thesis by simp
  qed
qed

section \<open>An outage of the database\<close>

lemma update_subset: "set (AList.update k v d) \<subseteq> insert (k, v) (set d)"
  by (induction d) auto

lemma json_ok_update:
  assumes "json_ok n (JObj d)" "good_text (u k)" "json_ok (n - 1) v"
  shows "json_ok n (JObj (set_key d k v))"
proof -
  have "good_text (fst kv) \<and> json_ok (n - 1) (snd kv)" if "kv \<in> set (set_key d k v)" for kv
  proof -
    from that update_subset [of "u k" v d] have "kv = (u k, v) \<or> kv \<in> set d"
      by (auto simp: set_key_def)
    with assms show ?thesis by (auto simp: list_all_iff)
  qed
  with assms(1) show ?thesis by (simp add: list_all_iff)
qed

lemma job_obj_retried:
  assumes "json_ok n (JObj (job_obj j))" "same_job j j'"
  shows "json_ok n (JObj (job_obj j'))"
  using assms by (cases j; cases j'; cases "j_next_retry_at j'")
    (auto simp: job_obj_def same_job_def)

lemma finish_dlq_sent:
  assumes "json_ok max_json_wire_nesting_depth (JObj (job_obj j))" "good_text reason"
    "good_text (t_now e)" "t_dlq e = Sent"
  shows "\<exists>w'. finish_dlq G e j reason w = (w', Done (Inr (u ''dlq'')))
    \<and> w_dlq w' = w_dlq w @ [(j_room_id j, JObj (failed_job_payload j reason (t_now e)))]"
proof -
  have "json_ok max_json_wire_nesting_depth (JObj (failed_job_payload j reason (t_now e)))"
    unfolding failed_job_payload_def using assms(1-3) by (intro json_ok_update) (simp_all add: good_text_def)
  from publish_valid(1) [OF this] assms(4) set_status_frame show ?thesis
    by (fastforce simp: finish_dlq_def move_to_dlq_def set_status_def)
qed

lemma outage_loop:
  assumes "\<And>n. x_tx (X n) = Conn_lost OperationalError" "t_dlq e = Sent" "good_text (t_now e)"
    and "json_ok max_json_wire_nesting_depth (JObj (job_obj j0))" "same_job j0 j"
  shows "\<exists>w' slept j'. handle_loop L G C e X n j w = (w', slept, Inr (u ''dlq'')) \<and> same_job j0 j'
     \<and> j_retry_count j' = max (j_retry_count j) (max_retries C)
     \<and> w_dlq w' = w_dlq w @ [(j_room_id j', JObj (failed_job_payload j'
          (u ''transient_error_max_retries:OperationalError'') (t_now e)))]"
  using assms
proof (induction L G C e X n j w rule: handle_loop.induct)
  case (1 L G C e X n j w)
  let ?reason = "u ''transient_error_max_retries:OperationalError''"
  have att: "handle_attempt L G C e (X n) j w = retry_or_dlq G C e (X n) j ?reason w"
    using "1.prems"(1) [of n]
    by (simp add: handle_attempt_def persist_ingress_job_def run_tx_def is_transient_def flip: u_append)
  show ?case
  proof (cases "max_retries C \<le> j_retry_count j")
    case True
    have "json_ok max_json_wire_nesting_depth (JObj (job_obj j))"
      by (rule job_obj_retried [OF "1.prems"(4,5)])
    from finish_dlq_sent [OF this _ "1.prems"(3,2), of ?reason G w] obtain w' where
      "finish_dlq G e j ?reason w = (w', Done (Inr (u ''dlq'')))"
      "w_dlq w' = w_dlq w @ [(j_room_id j, JObj (failed_job_payload j ?reason (t_now e)))]"
      by (auto simp: good_text_def)
    moreover from this(1) True att
    have "handle_attempt L G C e (X n) j w = (w', Done (Inr (u ''dlq'')))" by (simp add: retry_or_dlq_def)
    ultimately show ?thesis using True "1.prems"(5) by (auto simp: handle_loop_Done max_def)
  next
    case False
    obtain j' w1 d where m: "mark_inline_retry G (base_delay C) (X n) j w = (j', w1, d)"
      by (rule prod_cases3)
    note mark = mark_inline_retry_outcome [OF m]
    from m False att have step: "handle_attempt L G C e (X n) j w = (w1, Retry j' d)"
      by (simp add: retry_or_dlq_def)
    from mark(3) "1.prems"(5) have same: "same_job j0 j'" using same_job_trans same_job_retried by blast
    from "1.IH" [OF step [symmetric] refl "1.prems"(1-4) same] obtain w2 sl j'' where rest:
      "handle_loop L G C e X (Suc n) j' w1 = (w2, sl, Inr (u ''dlq''))" "same_job j0 j''"
      "j_retry_count j'' = max (j_retry_count j') (max_retries C)"
      "w_dlq w2 = w_dlq w1 @ [(j_room_id j'', JObj (failed_job_payload j'' ?reason (t_now e)))]"
      by blast
    have "w_dlq w1 = w_dlq w" using mark(1) by (simp add: status_only_def)
    moreover have "max (j_retry_count j') (max_retries C) = max (j_retry_count j) (max_retries C)"
      using False mark(3) by simp
    ultimately show ?thesis using handle_loop_Retry [where q = "Inr (u ''dlq'')", OF step rest(1)] rest by auto
  qed
qed

text \<open>
  A database outage loses no job. While every persistence attempt loses its connection, and
  as long as the dead-letter topic accepts records, the handler retries exactly up to the
  configured limit and then publishes the job to the dead-letter topic, with its fields
  unchanged, the retries counted and the reason recorded; it answers \<open>dlq\<close>.
\<close>

theorem outage_moves_to_dlq:
  assumes "\<And>n. x_tx (X n) = Conn_lost OperationalError" "t_dlq e = Sent" "good_text (t_now e)"
    and "json_ok max_json_wire_nesting_depth (JObj (job_obj j))"
  shows "\<exists>w' slept j'. handle_loop L G C e X 0 j w = (w', slept, Inr (u ''dlq'')) \<and> same_job j j'
     \<and> j_retry_count j' = max (j_retry_count j) (max_retries C)
     \<and> w_dlq w' = w_dlq w @ [(j_room_id j', JObj (failed_job_payload j'
          (u ''transient_error_max_retries:OperationalError'') (t_now e)))]"
  using assms(1-4) same_job_refl by (rule outage_loop)

section \<open>Quarantine\<close>

text \<open>
  A record that does not decode to a job is quarantined: nothing but a request status may
  change in the tables, and unless publishing fails the dead-letter topic receives a record
  with the digest and the first 1024 bytes of what arrived, whose base64 text decodes to those
  bytes.
\<close>

theorem undecodable_is_quarantined:
  assumes "decode_job L load_error r = (r', Inl reason)"
    and "handle_ingress_job L K G C e load_error X r k w = (w', slept, q)"
  shows "messages (w_db w') = messages (w_db w) \<and> outbox (w_db w') = outbox (w_db w)
    \<and> (isl q \<or> (q = Inr (u ''dlq'') \<and> (\<exists>d. w_dlq w' = w_dlq w @ [(quarantine_room (raw_source r'), JObj d)]
        \<and> get_none d ''__invalid_kafka_payload__'' = JBool True
        \<and> get_none d ''diagnostic_sha256'' = JStr (fst (snd (snd (diagnostics L r'))))
        \<and> b64_decode False (text_of_json (get_none d ''diagnostic_preview_base64''))
            = Some (snd (snd (snd (diagnostics L r')))))))"
proof -
  have "quarantine L G e r' reason w = (w', slept, q)"
    using assms by (simp add: handle_ingress_job_def)
  note out = quarantine_outcome [OF this]
  obtain kind size digest preview where diag: "diagnostics L r' = (kind, size, digest, preview)"
    by (rule prod_cases4)
  let ?d = "quarantine_payload L (t_uuid e) (t_now e) r' reason"
  have "get_none ?d ''__invalid_kafka_payload__'' = JBool True"
    "get_none ?d ''diagnostic_sha256'' = JStr digest"
    "get_none ?d ''diagnostic_preview_base64'' = JStr (b64_encode False preview)"
    by (simp_all add: quarantine_payload_def diag Let_def text_simps)
  then have "get_none ?d ''__invalid_kafka_payload__'' = JBool True
      \<and> get_none ?d ''diagnostic_sha256'' = JStr (fst (snd (snd (diagnostics L r'))))
      \<and> b64_decode False (text_of_json (get_none ?d ''diagnostic_preview_base64''))
          = Some (snd (snd (snd (diagnostics L r'))))"
    by (simp only: diag fst_conv snd_conv text_of_json.simps b64_decode_encode simp_thms)
  moreover have "messages (w_db w') = messages (w_db w) \<and> outbox (w_db w') = outbox (w_db w)"
    using out by auto
  ultimately show ?thesis using out by blast
qed

section \<open>Concrete instances\<close>

definition sample_kafka :: kafka_lib where
  "sample_kafka = \<lparr>decode_bytes = (\<lambda>_. Inl (u ''UnicodeDecodeError'')), decode_utf8 = (\<lambda>_. None)\<rparr>"

definition sample_retries :: retry_config where
  "sample_retries = \<lparr>max_retries = 3, base_delay = Fin 1\<rparr>"

definition sample_terminal :: terminal_env where
  "sample_terminal = \<lparr>t_uuid = u ''0'', t_now = u ''now'', t_dlq = Sent, t_status = Commit_ok\<rparr>"

definition sample_attempt :: "tx_fault \<Rightarrow> attempt_env" where
  "sample_attempt f = \<lparr>x_clock = 0, x_stamps = sample_stamps, x_tx = f, x_retry_clock = 0,
     x_retry_text = u ''then'', x_retry_status = Commit_ok\<rparr>"

definition sample_worker :: worker_state where
  "sample_worker = \<lparr>w_db = sample_db, w_dlq = []\<rparr>"

lemma sample_tables: "tables_ok (w_db sample_worker)"
  by (simp add: sample_worker_def tables_ok_def sample_db_ok)

lemma job_obj_unmarked: "\<not> is_invalid_kafka_payload (JObj (job_obj j))"
  by (auto simp: is_invalid_kafka_payload_def job_obj_def text_simps invalid_kafka_payload_marker_def
      opt_item_def get_append split: option.splits)

lemma decode_job_obj:
  assumes "job_wf L j"
  shows "\<exists>r'. decode_job L le (Value (JObj (job_obj j))) = (r', Inr (Inr j))"
proof -
  from validate_presents [OF assms presents_job_obj [OF assms]]
  obtain v' where "validate_ingress_payload L (JObj (job_obj j)) = (v', Inr j)"
    by (metis prod.collapse)
  then show ?thesis by (simp add: decode_job_def load_raw_def job_obj_unmarked)
qed

lemma sample_ingress:
  "handle_ingress_job sample_lib sample_kafka sample_pg sample_retries sample_terminal (\<lambda>_. [])
     (\<lambda>_. sample_attempt Commit_ok) (Value (JObj (job_obj keyed_job))) (Some (Key_text (u ''7'')))
     sample_worker
   = (\<lparr>w_db = sample_db1, w_dlq = []\<rparr>, [], Inr (u ''success''))"
proof -
  obtain r' where dec: "decode_job sample_lib (\<lambda>_. []) (Value (JObj (job_obj keyed_job))) = (r', Inr (Inr keyed_job))"
    using decode_job_obj [OF keyed_job_wf] by blast
  have key: "py_str_int (j_room_id keyed_job) = u ''7''"
    by (simp add: keyed_job_def sample_job_def py_str_int_def dec_nat.simps u_def)
  have "handle_attempt sample_lib sample_pg sample_retries sample_terminal (sample_attempt Commit_ok)
      keyed_job sample_worker = (\<lparr>w_db = sample_db1, w_dlq = []\<rparr>, Done (Inr (u ''success'')))"
    by (simp add: handle_attempt_def sample_attempt_def sample_worker_def sample_persist)
  moreover have "wait_before t keyed_job = []" for t
    by (simp add: wait_before_def keyed_job_def sample_job_def)
  ultimately show ?thesis
    by (simp add: handle_ingress_job_def dec normalized_kafka_key_def key handle_loop_Done)
qed

theorem handle_ingress_accounts_for_record_witness:
  "tables_step sample_db sample_db1
    \<and> accounted (decoded sample_lib (Value (JObj (job_obj keyed_job)))) sample_worker
        \<lparr>w_db = sample_db1, w_dlq = []\<rparr> (Inr (u ''success''))"
  using handle_ingress_accounts_for_record [OF jsonb_identity sample_tables sample_ingress]
  by (simp add: sample_worker_def)

theorem handle_ingress_bounded_witness: "length ([] :: rat list) \<le> 2 * nat (max_retries sample_retries) + 1"
  using handle_ingress_bounded [OF sample_ingress] by simp

lemma keyed_job_publishable: "json_ok max_json_wire_nesting_depth (JObj (job_obj keyed_job))"
  by (simp add: job_obj_def keyed_job_def sample_job_def opt_item_def good_text_u
      max_json_wire_nesting_depth_def max_json_nesting_depth_def)

theorem outage_moves_to_dlq_witness:
  "\<exists>w' slept j'. handle_loop sample_lib sample_pg sample_retries sample_terminal
       (\<lambda>_. sample_attempt (Conn_lost OperationalError)) 0 keyed_job sample_worker
         = (w', slept, Inr (u ''dlq'')) \<and> same_job keyed_job j'
     \<and> j_retry_count j' = max (j_retry_count keyed_job) (max_retries sample_retries)
     \<and> w_dlq w' = w_dlq sample_worker @ [(j_room_id j', JObj (failed_job_payload j'
          (u ''transient_error_max_retries:OperationalError'') (t_now sample_terminal)))]"
  by (rule outage_moves_to_dlq [OF _ _ _ keyed_job_publishable])
    (simp_all add: sample_attempt_def sample_terminal_def good_text_def)

theorem undecodable_is_quarantined_witness:
  "\<exists>w' slept q. handle_ingress_job sample_lib sample_kafka sample_pg sample_retries sample_terminal
       (\<lambda>_. u ''bad'') (\<lambda>_. sample_attempt Commit_ok) (Value (JInt 3)) None sample_worker = (w', slept, q)
     \<and> messages (w_db w') = messages (w_db sample_worker)"
proof -
  obtain w' slept q where run: "handle_ingress_job sample_lib sample_kafka sample_pg sample_retries
      sample_terminal (\<lambda>_. u ''bad'') (\<lambda>_. sample_attempt Commit_ok) (Value (JInt 3)) None sample_worker
      = (w', slept, q)" by (rule prod_cases3)
  have "decode_job sample_lib (\<lambda>_. u ''bad'') (Value (JInt 3)) = (Value (JInt 3), Inl (u ''bad''))"
    by (simp add: decode_job_def load_raw_def)
  from undecodable_is_quarantined [OF this run] run show ?thesis by blast
qed

end
