(* ===== verification/Consumer_Batch.thy ===== *)
theory Consumer_Batch
  imports Kafka_Client
begin

text \<open>
  What the ingress worker, the notification worker and the dead-letter replayer share: a batch
  of polled records is handled record by record, each record's offset is committed after it was
  handled, and the partition of a record that failed is rewound to it and left alone for the
  rest of the batch (\<open>_process_worker_batch\<close> of \<open>worker/main.py\<close>, \<open>_process_replay_batch\<close> of
  \<open>worker/dlq_replayer.py\<close>). The contract of a batch is a locale; the consumer loop around it is
  a step relation, and what it commits is proved once, in the locale.
\<close>

section \<open>Consumers\<close>

type_synonym tp = "ustr \<times> int"

definition topic_partition :: "kafka_message \<Rightarrow> tp" where
  "topic_partition m = (k_topic m, k_partition m)"

text \<open>The offset the group resumes from and the offset the next poll reads, per partition.\<close>

record consumer =
  committed :: "tp \<Rightarrow> int"
  position :: "tp \<Rightarrow> int"

datatype commit_fault = Committed | Commit_refused exn | Commit_unacked exn

definition commit_processed_record ::
    "commit_fault \<Rightarrow> kafka_message \<Rightarrow> consumer \<Rightarrow> consumer \<times> (exn + unit)" where
  "commit_processed_record f m c =
     (let c' = c\<lparr>committed := (committed c)(topic_partition m := k_offset m + 1)\<rparr> in
      case f of
        Committed \<Rightarrow> (c', Inr ())
      | Commit_refused e \<Rightarrow> (c, Inl e)
      | Commit_unacked e \<Rightarrow> (c', Inl e))"

definition seek_failed_record :: "exn option \<Rightarrow> kafka_message \<Rightarrow> consumer \<Rightarrow> consumer \<times> (exn + unit)" where
  "seek_failed_record f m c =
     (case f of
        Some e \<Rightarrow> (c, Inl e)
      | None \<Rightarrow> (c\<lparr>position := (position c)(topic_partition m := k_offset m)\<rparr>, Inr ()))"

section \<open>A batch, record by record\<close>

record batch_env =
  b_commit :: "kafka_message \<Rightarrow> commit_fault"
  b_seek :: "kafka_message \<Rightarrow> exn option"

text \<open>
  \<open>answers\<close> lists the records whose handler returned, with its answer and whether the commit
  succeeded; the last component is an exception that leaves the batch.
\<close>

type_synonym 'o answers = "(kafka_message \<times> 'o \<times> bool) list"

fun process_records ::
    "(kafka_message \<Rightarrow> 's \<Rightarrow> 's \<times> (exn + 'o)) \<Rightarrow> batch_env \<Rightarrow> kafka_message list \<Rightarrow> tp set
      \<Rightarrow> 's \<Rightarrow> consumer \<Rightarrow> 's \<times> consumer \<times> 'o answers \<times> exn option" where
  "process_records h B [] failed s c = (s, c, [], None)"
| "process_records h B (m # ms) failed s c =
     (if topic_partition m \<in> failed then process_records h B ms failed s c
      else
        (case h m s of
           (s', Inl e) \<Rightarrow>
             (case seek_failed_record (b_seek B m) m c of
                (c', Inl e') \<Rightarrow> (s', c', [], Some e')
              | (c', Inr _) \<Rightarrow> process_records h B ms (insert (topic_partition m) failed) s' c')
         | (s', Inr a) \<Rightarrow>
             (case commit_processed_record (b_commit B m) m c of
                (c1, Inr _) \<Rightarrow>
                  (case process_records h B ms failed s' c1 of
                     (s'', c'', as, x) \<Rightarrow> (s'', c'', (m, a, True) # as, x))
              | (c1, Inl e) \<Rightarrow>
                  (case seek_failed_record (b_seek B m) m c1 of
                     (c2, Inl e') \<Rightarrow> (s', c2, [(m, a, False)], Some e')
                   | (c2, Inr _) \<Rightarrow>
                       (case process_records h B ms (insert (topic_partition m) failed) s' c2 of
                          (s'', c'', as, x) \<Rightarrow> (s'', c'', (m, a, False) # as, x))))))"

type_synonym polled = "(tp \<times> kafka_message list) list"

definition polled_messages :: "polled \<Rightarrow> kafka_message list" where
  "polled_messages rs = concat (map snd rs)"

definition process_worker_batch ::
    "(kafka_message \<Rightarrow> 's \<Rightarrow> 's \<times> (exn + 'o)) \<Rightarrow> batch_env \<Rightarrow> polled \<Rightarrow> 's \<Rightarrow> consumer
      \<Rightarrow> 's \<times> consumer \<times> 'o answers \<times> exn option" where
  "process_worker_batch h B rs s c = process_records h B (polled_messages rs) {} s c"

text \<open>The result of a poll is a dictionary from partitions to records of that partition.\<close>

definition polled_ok :: "polled \<Rightarrow> bool" where
  "polled_ok rs \<longleftrightarrow> distinct (map fst rs) \<and> (\<forall>(p, ms)\<in>set rs. \<forall>m\<in>set ms. topic_partition m = p)"

section \<open>The contract of a batch\<close>

definition answered :: "'o answers \<Rightarrow> kafka_message \<Rightarrow> bool" where
  "answered as m \<longleftrightarrow> m \<in> fst ` set as"

text \<open>
  For one partition, of whose records the batch holds \<open>ms\<close>: a prefix of them is answered, the
  next poll continues after them (unless the batch raised, which closes the consumer), and the
  committed offset moves only past answered records.
\<close>

definition partition_contract ::
    "kafka_message list \<Rightarrow> tp \<Rightarrow> consumer \<Rightarrow> consumer \<Rightarrow> 'o answers \<Rightarrow> exn option \<Rightarrow> bool" where
  "partition_contract ms p c c' as x \<longleftrightarrow>
     (x = None \<longrightarrow>
        (\<forall>m\<in>set ms. answered as m) \<and> position c' p = position c p
      \<or> (\<exists>pre m suf. ms = pre @ m # suf \<and> (\<forall>y\<in>set pre. answered as y) \<and> position c' p = k_offset m))
     \<and> (committed c' p = committed c p
        \<or> (\<exists>pre m suf. ms = pre @ m # suf \<and> (\<forall>y\<in>set (pre @ [m]). answered as y)
             \<and> committed c' p = k_offset m + 1))"

definition batch_contract ::
    "kafka_message list \<Rightarrow> consumer \<Rightarrow> consumer \<Rightarrow> 'o answers \<Rightarrow> exn option \<Rightarrow> bool" where
  "batch_contract ms c c' as x \<longleftrightarrow>
     fst ` set as \<subseteq> set ms
     \<and> (\<forall>p. partition_contract (filter (\<lambda>m. topic_partition m = p) ms) p c c' as x)"

lemma answered_Cons [simp]: "answered ((m, a, b) # as) x \<longleftrightarrow> x = m \<or> answered as x"
  by (auto simp: answered_def)

lemma partition_contract_more:
  "partition_contract ms p c c' as x \<Longrightarrow> partition_contract ms p c c' (y # as) x"
  unfolding partition_contract_def by (cases y) (auto 0 3; blast)

lemma partition_contract_refl:
  assumes "position c' p = position c p" "committed c' p = committed c p"
  shows "partition_contract [] p c c' as x"
  using assms by (simp add: partition_contract_def)

text \<open>The record at the head was answered and committed.\<close>

lemma partition_contract_committed:
  assumes "partition_contract ms p c1 c' as x" "position c1 p = position c p"
    "committed c1 p = k_offset m + 1"
  shows "partition_contract (m # ms) p c c' ((m, a, b) # as) x"
proof -
  have pos: "x = None \<longrightarrow> (\<forall>y\<in>set (m # ms). answered ((m, a, b) # as) y) \<and> position c' p = position c p
      \<or> (\<exists>pre y suf. m # ms = pre @ y # suf \<and> (\<forall>z\<in>set pre. answered ((m, a, b) # as) z)
          \<and> position c' p = k_offset y)"
  proof
    assume "x = None"
    with assms(1) consider "(\<forall>y\<in>set ms. answered as y) \<and> position c' p = position c1 p"
      | pre y suf where "ms = pre @ y # suf" "\<forall>z\<in>set pre. answered as z" "position c' p = k_offset y"
      by (auto simp: partition_contract_def)
    then show "(\<forall>y\<in>set (m # ms). answered ((m, a, b) # as) y) \<and> position c' p = position c p
      \<or> (\<exists>pre y suf. m # ms = pre @ y # suf \<and> (\<forall>z\<in>set pre. answered ((m, a, b) # as) z)
          \<and> position c' p = k_offset y)"
    proof cases
      case 1
      with assms(2) show ?thesis by simp
    next
      case 2
      then have "m # ms = (m # pre) @ y # suf" "\<forall>z\<in>set (m # pre). answered ((m, a, b) # as) z" by auto
      with 2(3) show ?thesis by blast
    qed
  qed
  from assms(1) consider "committed c' p = k_offset m + 1"
    | pre y suf where "ms = pre @ y # suf" "\<forall>z\<in>set (pre @ [y]). answered as z"
        "committed c' p = k_offset y + 1"
    using assms(3) by (auto simp: partition_contract_def)
  then have "\<exists>pre y suf. m # ms = pre @ y # suf \<and> (\<forall>z\<in>set (pre @ [y]). answered ((m, a, b) # as) z)
      \<and> committed c' p = k_offset y + 1"
  proof cases
    case 1
    then show ?thesis by (intro exI [of _ "[]"] exI [of _ m] exI [of _ ms]) simp
  next
    case 2
    then show ?thesis by (intro exI [of _ "m # pre"] exI [of _ y] exI [of _ suf]) simp
  qed
  with pos show ?thesis by (simp add: partition_contract_def)
qed

text \<open>The partition was rewound to the record at its head (or the rewinding raised).\<close>

lemma partition_contract_rewound:
  assumes "x = None \<Longrightarrow> position c' p = k_offset m"
    and "committed c' p = committed c p \<or> committed c' p = k_offset m + 1 \<and> answered as m"
  shows "partition_contract (m # ms) p c c' as x"
proof -
  have "\<exists>pre y suf. m # ms = pre @ y # suf \<and> (\<forall>z\<in>set pre. answered as z) \<and> position c' p = k_offset y"
    if "x = None"
    using assms(1) [OF that] by (intro exI [of _ "[]"] exI [of _ m] exI [of _ ms]) simp
  moreover have "\<exists>pre y suf. m # ms = pre @ y # suf \<and> (\<forall>z\<in>set (pre @ [y]). answered as z)
      \<and> committed c' p = k_offset y + 1" if "committed c' p = k_offset m + 1" "answered as m"
    using that by (intro exI [of _ "[]"] exI [of _ m] exI [of _ ms]) simp
  ultimately show ?thesis using assms(2) unfolding partition_contract_def by blast
qed

lemma commit_outcome:
  assumes "commit_processed_record f m c = (c', r)"
  shows "position c' = position c" "p \<noteq> topic_partition m \<Longrightarrow> committed c' p = committed c p"
    "committed c' (topic_partition m) = committed c (topic_partition m)
      \<or> committed c' (topic_partition m) = k_offset m + 1"
    "r = Inr () \<Longrightarrow> committed c' (topic_partition m) = k_offset m + 1"
  using assms by (auto simp: commit_processed_record_def Let_def split: commit_fault.splits)

lemma seek_outcome:
  assumes "seek_failed_record f m c = (c', r)"
  shows "committed c' = committed c" "p \<noteq> topic_partition m \<Longrightarrow> position c' p = position c p"
    "r = Inr () \<Longrightarrow> position c' (topic_partition m) = k_offset m"
  using assms by (auto simp: seek_failed_record_def split: option.splits)

definition kept :: "tp \<Rightarrow> consumer \<Rightarrow> consumer \<Rightarrow> bool" where
  "kept p c c' \<longleftrightarrow> position c' p = position c p \<and> committed c' p = committed c p"

definition of_partition :: "tp \<Rightarrow> kafka_message list \<Rightarrow> kafka_message list" where
  "of_partition p ms = filter (\<lambda>m. topic_partition m = p) ms"

lemma of_partition_simps [simp]:
  "of_partition p [] = []"
  "of_partition p (m # ms) = (if topic_partition m = p then m # of_partition p ms else of_partition p ms)"
  "set (of_partition p ms) = {m \<in> set ms. topic_partition m = p}"
  by (simp_all add: of_partition_def)

lemma partition_contract_kept:
  "partition_contract ms p c1 c' as x \<Longrightarrow> kept p c c1 \<Longrightarrow> partition_contract ms p c c' as x"
  by (simp add: partition_contract_def kept_def)

definition records_contract ::
    "tp set \<Rightarrow> kafka_message list \<Rightarrow> consumer \<Rightarrow> consumer \<Rightarrow> 'o answers \<Rightarrow> exn option \<Rightarrow> bool" where
  "records_contract failed ms c c' as x \<longleftrightarrow>
     fst ` set as \<subseteq> set ms
     \<and> (\<forall>p. if p \<in> failed then kept p c c' else partition_contract (of_partition p ms) p c c' as x)"

lemma records_contractI:
  assumes "fst ` set as \<subseteq> set ms" "\<And>p. p \<in> failed \<Longrightarrow> kept p c c'"
    "\<And>p. p \<notin> failed \<Longrightarrow> partition_contract (of_partition p ms) p c c' as x"
  shows "records_contract failed ms c c' as x"
  using assms by (simp add: records_contract_def)

lemma records_contractD:
  assumes "records_contract failed ms c c' as x"
  shows "fst ` set as \<subseteq> set ms" "p \<in> failed \<Longrightarrow> kept p c c'"
    "p \<notin> failed \<Longrightarrow> partition_contract (of_partition p ms) p c c' as x"
  using assms unfolding records_contract_def by metis+

lemma kept_trans: "kept p c c1 \<Longrightarrow> kept p c1 c' \<Longrightarrow> kept p c c'"
  by (simp add: kept_def)

text \<open>What processing the head does to the rest.\<close>

lemma records_contract_skip:
  assumes "records_contract failed ms c c' as x" "topic_partition m \<in> failed"
  shows "records_contract failed (m # ms) c c' as x"
  using assms by (auto simp: records_contract_def)

lemma records_contract_committed:
  assumes rest: "records_contract failed ms c1 c' as x" and new: "topic_partition m \<notin> failed"
    and com: "commit_processed_record f m c = (c1, Inr ())"
  shows "records_contract failed (m # ms) c c' ((m, a, b) # as) x"
proof (rule records_contractI)
  have other: "kept p c c1" if "p \<noteq> topic_partition m" for p
    using commit_outcome(1,2) [OF com] that by (simp add: kept_def)
  show "fst ` set ((m, a, b) # as) \<subseteq> set (m # ms)" using records_contractD(1) [OF rest] by auto
  show "kept p c c'" if "p \<in> failed" for p
    using records_contractD(2) [OF rest that] other new that by (metis kept_trans)
  show "partition_contract (of_partition p (m # ms)) p c c' ((m, a, b) # as) x" if "p \<notin> failed" for p
  proof (cases "p = topic_partition m")
    case True
    with records_contractD(3) [OF rest that] commit_outcome(1,4) [OF com] show ?thesis
      by (simp add: partition_contract_committed)
  next
    case False
    from partition_contract_more [OF partition_contract_kept [OF records_contractD(3) [OF rest that] other [OF False]]]
      False show ?thesis by simp
  qed
qed

definition first_answer :: "kafka_message \<Rightarrow> 'o answers \<Rightarrow> bool" where
  "first_answer m new \<longleftrightarrow> new = [] \<or> (\<exists>a b. new = [(m, a, b)])"

lemma partition_contract_first:
  "first_answer m new \<Longrightarrow> partition_contract ms p c c' as x \<Longrightarrow> partition_contract ms p c c' (new @ as) x"
  by (auto simp: first_answer_def partition_contract_more)

text \<open>The head failed: its partition is at its offset, committed past it only if it was answered.\<close>

definition stopped_at :: "kafka_message \<Rightarrow> consumer \<Rightarrow> consumer \<Rightarrow> 'o answers \<Rightarrow> bool" where
  "stopped_at m c c2 new \<longleftrightarrow>
     (\<forall>p. p \<noteq> topic_partition m \<longrightarrow> kept p c c2) \<and> first_answer m new
     \<and> (committed c2 (topic_partition m) = committed c (topic_partition m)
        \<or> committed c2 (topic_partition m) = k_offset m + 1 \<and> new \<noteq> [])"

lemma records_contract_failed:
  assumes rest: "records_contract (insert (topic_partition m) failed) ms c2 c' as x"
    and new: "topic_partition m \<notin> failed" and stop: "stopped_at m c c2 new"
    and pos: "position c2 (topic_partition m) = k_offset m"
  shows "records_contract failed (m # ms) c c' (new @ as) x"
proof (rule records_contractI)
  let ?p = "topic_partition m"
  have other: "kept p c c2" if "p \<noteq> ?p" for p using stop that unfolding stopped_at_def by blast
  show "fst ` set (new @ as) \<subseteq> set (m # ms)"
    using records_contractD(1) [OF rest] stop by (auto simp: stopped_at_def first_answer_def)
  show "kept p c c'" if "p \<in> failed" for p
    using records_contractD(2) [OF rest, of p] other new that by (metis insertI2 kept_trans)
  show "partition_contract (of_partition p (m # ms)) p c c' (new @ as) x" if "p \<notin> failed" for p
  proof (cases "p = ?p")
    case True
    have "kept ?p c2 c'" using records_contractD(2) [OF rest] by simp
    then have "partition_contract (m # of_partition ?p ms) ?p c c' (new @ as) x"
      using stop pos by (intro partition_contract_rewound)
        (auto simp: kept_def stopped_at_def first_answer_def answered_def)
    with True show ?thesis by simp
  next
    case False
    with that have "partition_contract (of_partition p ms) p c2 c' as x"
      by (intro records_contractD(3) [OF rest]) simp
    from partition_contract_first [OF _ partition_contract_kept [OF this other]] False stop
    show ?thesis by (auto simp: stopped_at_def)
  qed
qed

lemma records_contract_raised:
  assumes new: "topic_partition m \<notin> failed" and stop: "stopped_at m c c2 new"
  shows "records_contract failed (m # ms) c c2 new (Some e)"
proof (rule records_contractI)
  let ?p = "topic_partition m"
  have other: "kept p c c2" if "p \<noteq> ?p" for p using stop that unfolding stopped_at_def by blast
  show "fst ` set new \<subseteq> set (m # ms)" using stop by (auto simp: stopped_at_def first_answer_def)
  show "kept p c c2" if "p \<in> failed" for p using other new that by metis
  show "partition_contract (of_partition p (m # ms)) p c c2 new (Some e)" if "p \<notin> failed" for p
  proof (cases "p = ?p")
    case True
    have "partition_contract (m # of_partition ?p ms) ?p c c2 new (Some e)"
      using stop by (intro partition_contract_rewound) (auto simp: stopped_at_def first_answer_def answered_def)
    with True show ?thesis by simp
  next
    case False
    with other show ?thesis by (simp add: partition_contract_def kept_def)
  qed
qed

lemma seek_stopped:
  assumes "seek_failed_record g m c = (c2, r)"
  shows "stopped_at m c c2 []" "r = Inr y \<Longrightarrow> position c2 (topic_partition m) = k_offset m"
  using seek_outcome [OF assms] by (auto simp: kept_def stopped_at_def first_answer_def)

lemma seek_after_commit:
  assumes "commit_processed_record f m c = (c1, r)" "seek_failed_record g m c1 = (c2, r')"
  shows "stopped_at m c c2 [(m, a, b)]" "r' = Inr y \<Longrightarrow> position c2 (topic_partition m) = k_offset m"
  using commit_outcome [OF assms(1)] seek_outcome [OF assms(2)]
  by (auto simp: kept_def stopped_at_def first_answer_def)

lemma process_records_contract:
  assumes "process_records h B ms failed s c = (s', c', as, x)"
  shows "records_contract failed ms c c' as x"
  using assms
proof (induction h B ms failed s c arbitrary: s' c' as x rule: process_records.induct)
  case (1 h B failed s c)
  then show ?case by (auto simp: records_contract_def kept_def partition_contract_def)
next
  case (2 h B m ms failed s c)
  show ?case
  proof (cases "topic_partition m \<in> failed")
    case True
    with "2.prems" "2.IH"(1) show ?thesis by (simp add: records_contract_skip)
  next
    case new: False
    obtain s1 r where step: "h m s = (s1, r)" by fastforce
    show ?thesis
    proof (cases r)
      case (Inl e)
      obtain c1 r' where seek: "seek_failed_record (b_seek B m) m c = (c1, r')" by fastforce
      show ?thesis
      proof (cases r')
        case raised: (Inl e')
        with "2.prems" new step Inl seek have "c' = c1" "as = []" "x = Some e'" by simp_all
        with records_contract_raised [OF new seek_stopped(1) [OF seek]] show ?thesis by simp
      next
        case rewound: (Inr y)
        with "2.prems" new step Inl seek
        have "process_records h B ms (insert (topic_partition m) failed) s1 c1 = (s', c', as, x)" by simp
        with "2.IH" new step Inl seek rewound
        have "records_contract (insert (topic_partition m) failed) ms c1 c' as x" by simp
        from records_contract_failed [OF this new seek_stopped(1) [OF seek] seek_stopped(2) [OF seek rewound]]
        show ?thesis by simp
      qed
    next
      case (Inr a)
      obtain c1 r1 where com: "commit_processed_record (b_commit B m) m c = (c1, r1)" by fastforce
      show ?thesis
      proof (cases r1)
        case committed: (Inr y)
        obtain s2 c2 as2 x2 where rest: "process_records h B ms failed s1 c1 = (s2, c2, as2, x2)"
          by (rule prod_cases4)
        with "2.IH" new step Inr com committed have "records_contract failed ms c1 c2 as2 x2" by simp
        moreover from "2.prems" new step Inr com committed rest
        have "c' = c2" "as = (m, a, True) # as2" "x = x2" by simp_all
        ultimately show ?thesis using records_contract_committed new com committed by simp
      next
        case unacked: (Inl e)
        obtain c2 r2 where seek: "seek_failed_record (b_seek B m) m c1 = (c2, r2)" by fastforce
        note stop = seek_after_commit [OF com seek]
        show ?thesis
        proof (cases r2)
          case raised: (Inl e')
          with "2.prems" new step Inr com unacked seek
          have "c' = c2" "as = [(m, a, False)]" "x = Some e'" by simp_all
          with records_contract_raised [OF new stop(1)] show ?thesis by simp
        next
          case rewound: (Inr y)
          obtain s3 c3 as3 x3 where rest:
            "process_records h B ms (insert (topic_partition m) failed) s1 c2 = (s3, c3, as3, x3)"
            by (rule prod_cases4)
          with "2.IH" new step Inr com unacked seek rewound
          have "records_contract (insert (topic_partition m) failed) ms c2 c3 as3 x3" by simp
          from records_contract_failed [OF this new stop(1) stop(2) [OF rewound]]
          have "records_contract failed (m # ms) c c3 ([(m, a, False)] @ as3) x3" .
          with "2.prems" new step Inr com unacked seek rewound rest show ?thesis by simp
        qed
      qed
    qed
  qed
qed

lemma process_worker_batch_contract:
  assumes "process_worker_batch h B rs s c = (s', c', as, x)"
  shows "batch_contract (polled_messages rs) c c' as x"
  using process_records_contract [OF assms [unfolded process_worker_batch_def]]
  by (simp add: records_contract_def batch_contract_def of_partition_def)

section \<open>The consumer loop\<close>

text \<open>
  \<open>restarted\<close> is a rebuilt consumer: the group resumes from the committed offsets. A poll hands
  out, per partition, the records of the topic from the position on, in order. A run of the loop
  polls and processes; an exception of the batch, a crash after any number of its records and a
  rebuild all lead back to the committed offsets. In between the other processes of the system
  change the shared state (\<open>other\<close>).
\<close>

definition restarted :: "consumer \<Rightarrow> consumer" where
  "restarted c = c\<lparr>position := committed c\<rparr>"

definition poll_ok :: "kafka_message set \<Rightarrow> consumer \<Rightarrow> polled \<Rightarrow> consumer \<Rightarrow> bool" where
  "poll_ok topic c rs c1 \<longleftrightarrow>
     committed c1 = committed c \<and> polled_ok rs
     \<and> (\<forall>p. position c p \<le> position c1 p
          \<and> sorted_wrt (\<lambda>x y. k_offset x < k_offset y) (of_partition p (polled_messages rs))
          \<and> set (of_partition p (polled_messages rs))
              = {m \<in> topic. topic_partition m = p \<and> position c p \<le> k_offset m \<and> k_offset m < position c1 p})"

type_synonym ('s, 'o) batch = "polled \<Rightarrow> 's \<Rightarrow> consumer \<Rightarrow> 's \<times> consumer \<times> 'o answers \<times> exn option"

inductive loop_step ::
    "('s, 'o) batch set \<Rightarrow> ('s \<Rightarrow> 's \<Rightarrow> bool) \<Rightarrow> kafka_message set \<Rightarrow> 's \<times> consumer \<times> 'o answers \<Rightarrow> 's \<times> consumer \<times> 'o answers \<Rightarrow> bool"
  for batches :: "('s, 'o) batch set" and other :: "'s \<Rightarrow> 's \<Rightarrow> bool" and topic :: "kafka_message set"
where
  processed: "f \<in> batches \<Longrightarrow> poll_ok topic c rs c1 \<Longrightarrow> f rs s c1 = (s', c', as, None) \<Longrightarrow>
    loop_step batches other topic (s, c, h) (s', c', h @ as)"
| raised: "f \<in> batches \<Longrightarrow> poll_ok topic c rs c1 \<Longrightarrow> f rs s c1 = (s', c', as, Some e) \<Longrightarrow>
    loop_step batches other topic (s, c, h) (s', restarted c', h @ as)"
| crashed: "f \<in> batches \<Longrightarrow> poll_ok topic c rs c1 \<Longrightarrow>
    polled_messages rs = polled_messages part @ rest \<Longrightarrow> polled_ok part \<Longrightarrow> f part s c1 = (s', c', as, x) \<Longrightarrow>
    loop_step batches other topic (s, c, h) (s', restarted c', h @ as)"
| rebuilt: "loop_step batches other topic (s, c, h) (s, restarted c, h)"
| interleaved: "other s s' \<Longrightarrow> loop_step batches other topic (s, c, h) (s', c, h)"

inductive_cases loop_stepE: "loop_step batches other topic (s, c, h) z"

abbreviation loop_runs ::
    "('s, 'o) batch set \<Rightarrow> ('s \<Rightarrow> 's \<Rightarrow> bool) \<Rightarrow> kafka_message set \<Rightarrow> 's \<times> consumer \<times> 'o answers \<Rightarrow> 's \<times> consumer \<times> 'o answers \<Rightarrow> bool" where
  "loop_runs batches other topic \<equiv> (loop_step batches other topic)\<^sup>*\<^sup>*"

text \<open>Every record of the topic below an offset has been answered.\<close>

definition answered_below :: "kafka_message set \<Rightarrow> 'o answers \<Rightarrow> (tp \<Rightarrow> int) \<Rightarrow> bool" where
  "answered_below topic h off \<longleftrightarrow>
     (\<forall>m\<in>topic. k_offset m < off (topic_partition m) \<longrightarrow> answered h m)"

lemma answered_append [simp]: "answered (as @ bs) m \<longleftrightarrow> answered as m \<or> answered bs m"
  by (auto simp: answered_def)

lemma sorted_member_le:
  fixes f :: "'a \<Rightarrow> int"
  assumes "sorted_wrt (\<lambda>x y. f x < f y) (pre @ m # suf)" "y \<in> set (pre @ m # suf)" "f y \<le> f m"
  shows "y \<in> set pre \<or> y = m"
  using assms by (fastforce simp: sorted_wrt_append)

lemma polled_below:
  assumes poll: "poll_ok topic c rs c1" and before: "answered_below topic h (position c)"
    and split: "of_partition p (polled_messages rs) = pre @ m # suf"
    and ans: "\<forall>y\<in>set pre. answered as y"
    and y: "y \<in> topic" "topic_partition y = p" "k_offset y \<le> k_offset m"
  shows "answered (h @ as) y \<or> y = m"
proof (cases "k_offset y < position c p")
  case True
  with before y show ?thesis by (auto simp: answered_below_def)
next
  case False
  have set_eq: "set (pre @ m # suf) = {m \<in> topic. topic_partition m = p \<and> position c p \<le> k_offset m
      \<and> k_offset m < position c1 p}"
    and sorted: "sorted_wrt (\<lambda>x y. k_offset x < k_offset y) (pre @ m # suf)"
    using poll split unfolding poll_ok_def by metis+
  have "m \<in> set (pre @ m # suf)" by simp
  with set_eq have "k_offset m < position c1 p" by blast
  with False y(1-3) set_eq have "y \<in> set (pre @ m # suf)" by auto
  from sorted_member_le [OF sorted this y(3)] have "y \<in> set pre \<or> y = m" .
  with ans show ?thesis by auto
qed

lemma committed_below:
  assumes poll: "poll_ok topic c rs c1" and before: "answered_below topic h (position c)"
    and old: "answered_below topic h (committed c)"
    and part: "polled_messages rs = ms @ rest" and con: "batch_contract ms c1 c' as x"
  shows "answered_below topic (h @ as) (committed c')"
  unfolding answered_below_def
proof (intro ballI impI)
  fix y assume y: "y \<in> topic" "k_offset y < committed c' (topic_partition y)"
  let ?p = "topic_partition y"
  have whole: "of_partition ?p (polled_messages rs) = of_partition ?p ms @ of_partition ?p rest"
    using part by (simp add: of_partition_def)
  from con have "partition_contract (of_partition ?p ms) ?p c1 c' as x"
    by (simp only: batch_contract_def of_partition_def)
  then consider "committed c' ?p = committed c1 ?p"
    | pre m suf where "of_partition ?p ms = pre @ m # suf" "\<forall>z\<in>set (pre @ [m]). answered as z"
        "committed c' ?p = k_offset m + 1"
    unfolding partition_contract_def by blast
  then show "answered (h @ as) y"
  proof cases
    case 1
    with poll y old show ?thesis by (auto simp: poll_ok_def answered_below_def)
  next
    case 2
    have split: "of_partition ?p (polled_messages rs) = pre @ m # (suf @ of_partition ?p rest)"
      using whole 2(1) by simp
    have pre: "\<forall>z\<in>set pre. answered as z" using 2(2) by simp
    have "k_offset y \<le> k_offset m" using 2(3) y(2) by simp
    from polled_below [OF poll before split pre y(1) refl this] 2(2) show ?thesis by auto
  qed
qed

lemma position_below:
  assumes poll: "poll_ok topic c rs c1" and before: "answered_below topic h (position c)"
    and con: "batch_contract (polled_messages rs) c1 c' as None"
  shows "answered_below topic (h @ as) (position c')"
  unfolding answered_below_def
proof (intro ballI impI)
  fix y assume y: "y \<in> topic" "k_offset y < position c' (topic_partition y)"
  let ?p = "topic_partition y"
  let ?ms = "of_partition ?p (polled_messages rs)"
  from con have "partition_contract ?ms ?p c1 c' as None"
    by (simp only: batch_contract_def of_partition_def)
  then consider "\<forall>m\<in>set ?ms. answered as m" "position c' ?p = position c1 ?p"
    | pre m suf where "?ms = pre @ m # suf" "\<forall>z\<in>set pre. answered as z" "position c' ?p = k_offset m"
    unfolding partition_contract_def by blast
  then show "answered (h @ as) y"
  proof cases
    case 1
    show ?thesis
    proof (cases "k_offset y < position c ?p")
      case True
      with before y show ?thesis by (auto simp: answered_below_def)
    next
      case False
      moreover have "set ?ms = {m \<in> topic. topic_partition m = ?p
          \<and> position c ?p \<le> k_offset m \<and> k_offset m < position c1 ?p}"
        using poll unfolding poll_ok_def by blast
      ultimately have "y \<in> set ?ms" using y 1(2) by auto
      with 1(1) show ?thesis by simp
    qed
  next
    case 2
    from polled_below [OF poll before 2(1,2) y(1) refl] 2(3) y(2)
    show ?thesis by auto
  qed
qed

section \<open>At-least-once processing\<close>

text \<open>
  The interface of a batch function: it honours the offset contract, keeps the invariant \<open>ok\<close>
  of the state, and what its answers promise (\<open>ensures\<close>) holds and goes on to hold.
\<close>

locale batch_processor =
  fixes batches :: "('s, 'o) batch set"
    and other :: "'s \<Rightarrow> 's \<Rightarrow> bool"
    and ok :: "'s \<Rightarrow> bool"
    and ensures :: "'s \<Rightarrow> kafka_message \<Rightarrow> 'o \<Rightarrow> bool"
  assumes contract: "f \<in> batches \<Longrightarrow> polled_ok rs \<Longrightarrow> f rs s c = (s', c', as, x) \<Longrightarrow>
      batch_contract (polled_messages rs) c c' as x"
    and keeps: "f \<in> batches \<Longrightarrow> f rs s c = (s', c', as, x) \<Longrightarrow> ok s \<Longrightarrow> ok s'"
    and ensured: "f \<in> batches \<Longrightarrow> f rs s c = (s', c', as, x) \<Longrightarrow> ok s \<Longrightarrow> (m, a, b) \<in> set as \<Longrightarrow>
      ensures s' m a"
    and stable: "f \<in> batches \<Longrightarrow> f rs s c = (s', c', as, x) \<Longrightarrow> ok s \<Longrightarrow> ensures s m a \<Longrightarrow> ensures s' m a"
    and other_ok: "other s s' \<Longrightarrow> ok s \<Longrightarrow> ok s'"
    and other_stable: "other s s' \<Longrightarrow> ok s \<Longrightarrow> ensures s m a \<Longrightarrow> ensures s' m a"
begin

definition loop_inv :: "kafka_message set \<Rightarrow> 's \<times> consumer \<times> 'o answers \<Rightarrow> bool" where
  "loop_inv topic z = (case z of (s, c, h) \<Rightarrow>
     ok s \<and> answered_below topic h (position c) \<and> answered_below topic h (committed c)
     \<and> (\<forall>(m, a, b)\<in>set h. ensures s m a))"

lemma batch_inv:
  assumes f: "f \<in> batches" and poll: "poll_ok topic c rs c1"
    and part: "polled_messages rs = polled_messages pt @ rest" "polled_ok pt"
    and run: "f pt s c1 = (s', c', as, x)" and inv: "loop_inv topic (s, c, h)"
  shows "ok s' \<and> answered_below topic (h @ as) (committed c')
    \<and> (\<forall>(m, a, b)\<in>set (h @ as). ensures s' m a)"
proof -
  from inv have i: "ok s" "answered_below topic h (position c)" "answered_below topic h (committed c)"
      "\<And>m a b. (m, a, b) \<in> set h \<Longrightarrow> ensures s m a"
    by (auto simp: loop_inv_def)
  have "answered_below topic (h @ as) (committed c')"
    by (rule committed_below [OF poll i(2,3) part(1) contract [OF f part(2) run]])
  then show ?thesis
    using keeps [OF f run i(1)] ensured [OF f run i(1)] stable [OF f run i(1)] i(4) by auto
qed

lemma step_inv:
  assumes "loop_step batches other topic z z'" "loop_inv topic z"
  shows "loop_inv topic z'"
  using assms
proof (cases rule: loop_step.cases)
  case (processed f c rs c1 s s' c' as h)
  have rs: "polled_ok rs" using processed(4) by (simp add: poll_ok_def)
  have "answered_below topic (h @ as) (position c')"
    using position_below [OF processed(4) _ contract [OF processed(3) rs processed(5)], of h]
      assms(2) processed(1)
    by (simp add: loop_inv_def)
  with batch_inv [OF processed(3,4) _ rs processed(5), of "[]" h] assms(2) processed(1,2)
  show ?thesis by (simp add: loop_inv_def)
next
  case (raised f c rs c1 s s' c' as e h)
  have rs: "polled_ok rs" using raised(4) by (simp add: poll_ok_def)
  with batch_inv [OF raised(3,4) _ rs raised(5), of "[]" h] assms(2) raised(1,2)
  show ?thesis by (simp add: loop_inv_def restarted_def)
next
  case (crashed f c rs c1 pt rest s s' c' as x h)
  with batch_inv [OF crashed(3-7), of h] assms(2)
  show ?thesis by (simp add: loop_inv_def restarted_def)
next
  case (rebuilt s c h)
  with assms(2) show ?thesis by (simp add: loop_inv_def restarted_def)
next
  case (interleaved s s' c h)
  with assms(2) other_ok other_stable show ?thesis by (fastforce simp: loop_inv_def)
qed

lemma runs_inv: "loop_runs batches other topic z z' \<Longrightarrow> loop_inv topic z \<Longrightarrow> loop_inv topic z'"
  by (induction rule: rtranclp_induct) (auto intro: step_inv)

lemma committed_means_done:
  assumes "loop_runs batches other topic (s0, c0, []) (s, c, h)" "ok s0"
    and "\<forall>m\<in>topic. position c0 (topic_partition m) \<le> k_offset m
          \<and> committed c0 (topic_partition m) \<le> k_offset m"
    and "m \<in> topic" "k_offset m < committed c (topic_partition m)"
  shows "ok s \<and> (\<exists>a b. (m, a, b) \<in> set h \<and> ensures s m a)"
proof -
  have "loop_inv topic (s0, c0, [])"
    using assms(2,3) by (fastforce simp: loop_inv_def answered_below_def)
  from runs_inv [OF assms(1) this] have inv: "ok s" "answered h m"
      "\<And>a b. (m, a, b) \<in> set h \<Longrightarrow> ensures s m a"
    using assms(4,5) by (auto simp: loop_inv_def answered_below_def)
  then obtain a b where "(m, a, b) \<in> set h" by (auto simp: answered_def)
  with inv show ?thesis by blast
qed

end

section \<open>Handlers of single records\<close>

definition record_batches :: "(kafka_message \<Rightarrow> 's \<Rightarrow> 's \<times> (exn + 'o)) set \<Rightarrow> ('s, 'o) batch set" where
  "record_batches handlers = {f. \<exists>h\<in>handlers. \<exists>B. f = process_worker_batch h B}"

text \<open>A handler keeps the invariant, its answer is a promise, and promises last.\<close>

locale record_handler =
  fixes handlers :: "(kafka_message \<Rightarrow> 's \<Rightarrow> 's \<times> (exn + 'o)) set"
    and other :: "'s \<Rightarrow> 's \<Rightarrow> bool"
    and ok :: "'s \<Rightarrow> bool"
    and ensures :: "'s \<Rightarrow> kafka_message \<Rightarrow> 'o \<Rightarrow> bool"
  assumes handler_ok: "h \<in> handlers \<Longrightarrow> h m s = (s', q) \<Longrightarrow> ok s \<Longrightarrow> ok s'"
    and handler_ensures: "h \<in> handlers \<Longrightarrow> h m s = (s', Inr a) \<Longrightarrow> ok s \<Longrightarrow> ensures s' m a"
    and handler_stable: "h \<in> handlers \<Longrightarrow> h m s = (s', q) \<Longrightarrow> ok s \<Longrightarrow> ensures s m' a \<Longrightarrow> ensures s' m' a"
    and others_ok: "other s s' \<Longrightarrow> ok s \<Longrightarrow> ok s'"
    and others_stable: "other s s' \<Longrightarrow> ok s \<Longrightarrow> ensures s m a \<Longrightarrow> ensures s' m a"
begin

lemma records_laws:
  assumes "process_records h B ms failed s c = (s', c', as, x)" "h \<in> handlers" "ok s"
  shows "ok s' \<and> (\<forall>(m, a, b)\<in>set as. ensures s' m a) \<and> (\<forall>m a. ensures s m a \<longrightarrow> ensures s' m a)"
  using assms
proof (induction h B ms failed s c arbitrary: s' c' as x rule: process_records.induct)
  case (1 h B failed s c)
  then show ?case by simp
next
  case (2 h B m ms failed s c)
  show ?case
  proof (cases "topic_partition m \<in> failed")
    case True
    with 2 show ?thesis by simp
  next
    case new: False
    obtain s1 r where step: "h m s = (s1, r)" by fastforce
    have s1: "ok s1" "\<And>m' a. ensures s m' a \<Longrightarrow> ensures s1 m' a"
      using handler_ok [OF "2.prems"(2) step "2.prems"(3)]
        handler_stable [OF "2.prems"(2) step "2.prems"(3)] by blast+
    show ?thesis
    proof (cases r)
      case (Inl e)
      obtain c1 r' where seek: "seek_failed_record (b_seek B m) m c = (c1, r')" by fastforce
      show ?thesis
      proof (cases r')
        case raised: (Inl e')
        with "2.prems" new step Inl seek s1 show ?thesis by simp
      next
        case rewound: (Inr y)
        with "2.prems" new step Inl seek
        have "process_records h B ms (insert (topic_partition m) failed) s1 c1 = (s', c', as, x)" by simp
        with "2.IH"(2) [OF new step [symmetric] Inl seek [symmetric] rewound] "2.prems"(2) s1
        show ?thesis by blast
      qed
    next
      case (Inr a)
      then have ens: "ensures s1 m a" using handler_ensures [OF "2.prems"(2) _ "2.prems"(3)] step by simp
      obtain c1 r1 where com: "commit_processed_record (b_commit B m) m c = (c1, r1)" by fastforce
      show ?thesis
      proof (cases r1)
        case committed: (Inr y)
        obtain s2 c2 as2 x2 where rest: "process_records h B ms failed s1 c1 = (s2, c2, as2, x2)"
          by (rule prod_cases4)
        from "2.IH"(4) [OF new step [symmetric] Inr com [symmetric] committed rest "2.prems"(2) s1(1)]
        show ?thesis using "2.prems" new step Inr com committed rest s1 ens by auto
      next
        case unacked: (Inl e)
        obtain c2 r2 where seek: "seek_failed_record (b_seek B m) m c1 = (c2, r2)" by fastforce
        show ?thesis
        proof (cases r2)
          case raised: (Inl e')
          with "2.prems"(1) new step Inr com unacked seek have "s' = s1" "as = [(m, a, False)]" by simp_all
          with s1 ens show ?thesis by simp
        next
          case rewound: (Inr y)
          obtain s3 c3 as3 x3 where rest:
            "process_records h B ms (insert (topic_partition m) failed) s1 c2 = (s3, c3, as3, x3)"
            by (rule prod_cases4)
          from "2.IH"(3) [OF new step [symmetric] Inr com [symmetric] unacked seek [symmetric] rewound
              rest "2.prems"(2) s1(1)]
          show ?thesis using "2.prems" new step Inr com unacked seek rewound rest s1 ens by auto
        qed
      qed
    qed
  qed
qed

lemma record_batches_laws:
  assumes "f \<in> record_batches handlers" "f rs s c = (s', c', as, x)"
  shows "batch_contract (polled_messages rs) c c' as x"
    and "ok s \<Longrightarrow> ok s' \<and> (\<forall>(m, a, b)\<in>set as. ensures s' m a) \<and> (\<forall>m a. ensures s m a \<longrightarrow> ensures s' m a)"
proof -
  from assms obtain h B where h: "h \<in> handlers" "process_worker_batch h B rs s c = (s', c', as, x)"
    by (auto simp: record_batches_def)
  show "batch_contract (polled_messages rs) c c' as x"
    by (rule process_worker_batch_contract [OF h(2)])
  show "ok s' \<and> (\<forall>(m, a, b)\<in>set as. ensures s' m a) \<and> (\<forall>m a. ensures s m a \<longrightarrow> ensures s' m a)"
    if "ok s"
    by (rule records_laws [OF h(2) [unfolded process_worker_batch_def] h(1) that])
qed

end

sublocale record_handler \<subseteq> batch_processor "record_batches handlers" other ok ensures
  by unfold_locales (use record_batches_laws others_ok others_stable in \<open>fast+\<close>)

section \<open>Isolation of partitions\<close>

text \<open>Nothing goes wrong with the records of the partition.\<close>

definition healthy_partition :: "(kafka_message \<Rightarrow> 's \<Rightarrow> 's \<times> (exn + 'o)) \<Rightarrow> batch_env \<Rightarrow> tp \<Rightarrow> bool" where
  "healthy_partition h B p \<longleftrightarrow>
     (\<forall>m s. topic_partition m = p \<longrightarrow> (\<exists>s' a. h m s = (s', Inr a)) \<and> b_commit B m = Committed)"

definition seeks_work :: "batch_env \<Rightarrow> bool" where
  "seeks_work B \<longleftrightarrow> (\<forall>m. b_seek B m = None)"

lemma healthy_records:
  assumes "process_records h B ms failed s c = (s', c', as, x)"
    and "healthy_partition h B p" "seeks_work B" "p \<notin> failed"
  shows "x = None \<and> position c' p = position c p \<and> (\<forall>m\<in>set (of_partition p ms). answered as m)
    \<and> committed c' p = (if of_partition p ms = [] then committed c p
                        else k_offset (last (of_partition p ms)) + 1)"
  using assms
proof (induction h B ms failed s c arbitrary: s' c' as x rule: process_records.induct)
  case (1 h B failed s c)
  then show ?case by simp
next
  case (2 h B m ms failed s c)
  have seek: "seek_failed_record (b_seek B m) m c = (c\<lparr>position := (position c)(topic_partition m := k_offset m)\<rparr>, Inr ())"
    for c using "2.prems"(3) by (simp add: seeks_work_def seek_failed_record_def)
  show ?case
  proof (cases "topic_partition m \<in> failed")
    case True
    with 2 have "topic_partition m \<noteq> p" by auto
    with True 2 show ?thesis by simp
  next
    case new: False
    obtain s1 r where step: "h m s = (s1, r)" by fastforce
    show ?thesis
    proof (cases "topic_partition m = p")
      case own: True
      let ?c1 = "c\<lparr>committed := (committed c)(p := k_offset m + 1)\<rparr>"
      obtain a where r: "r = Inr a" using "2.prems"(2) own step unfolding healthy_partition_def
        by (metis prod.inject)
      have com: "commit_processed_record (b_commit B m) m c = (?c1, Inr ())"
        using "2.prems"(2) own by (simp add: healthy_partition_def commit_processed_record_def)
      obtain s2 c2 as2 x2 where rest: "process_records h B ms failed s1 ?c1 = (s2, c2, as2, x2)"
        by (rule prod_cases4)
      from "2.IH"(4) [OF new step [symmetric] r com [symmetric] refl rest "2.prems"(2-4)]
      show ?thesis using "2.prems"(1) new step r com rest own by auto
    next
      case other: False
      have fresh: "p \<notin> insert (topic_partition m) failed" using "2.prems"(4) other by auto
      show ?thesis
      proof (cases r)
        case (Inl e)
        with "2.prems"(1) new step seek [of c] "2.IH"(2) [OF new step [symmetric] Inl seek [symmetric, of c] refl _
            "2.prems"(2,3) fresh, of s' c' as x] other
        show ?thesis by simp
      next
        case (Inr a)
        obtain c1 r1 where com: "commit_processed_record (b_commit B m) m c = (c1, r1)" by fastforce
        have c1: "position c1 p = position c p" "committed c1 p = committed c p"
          using commit_outcome(1,2) [OF com] other by auto
        show ?thesis
        proof (cases r1)
          case committed: (Inr y)
          obtain s2 c2 as2 x2 where rest: "process_records h B ms failed s1 c1 = (s2, c2, as2, x2)"
            by (rule prod_cases4)
          from "2.IH"(4) [OF new step [symmetric] Inr com [symmetric] committed rest "2.prems"(2-4)]
          show ?thesis using "2.prems"(1) new step Inr com committed rest other c1 by auto
        next
          case unacked: (Inl e)
          let ?c2 = "c1\<lparr>position := (position c1)(topic_partition m := k_offset m)\<rparr>"
          obtain s3 c3 as3 x3 where rest:
            "process_records h B ms (insert (topic_partition m) failed) s1 ?c2 = (s3, c3, as3, x3)"
            by (rule prod_cases4)
          from "2.IH"(3) [OF new step [symmetric] Inr com [symmetric] unacked seek [symmetric, of c1] refl
              rest "2.prems"(2,3) fresh]
          show ?thesis using "2.prems"(1) new step Inr com unacked seek [of c1] rest other c1 by auto
        qed
      qed
    qed
  qed
qed

text \<open>
  C37: a poisoned record cannot hold up other partitions. As long as rewinding works, a partition
  whose own records are handled and committed without an error is processed completely by the
  batch, whatever fails on the other partitions: all its records are answered, the offset
  committed for it is the one after its last record, and the batch itself does not raise.
\<close>

theorem failed_partition_is_isolated:
  assumes "process_worker_batch h B rs s c = (s', c', as, x)"
    and "healthy_partition h B p" "seeks_work B"
  shows "x = None \<and> (\<forall>m\<in>set (of_partition p (polled_messages rs)). answered as m)
    \<and> (of_partition p (polled_messages rs) \<noteq> [] \<longrightarrow>
        committed c' p = k_offset (last (of_partition p (polled_messages rs))) + 1)"
  using healthy_records [OF assms(1) [unfolded process_worker_batch_def] assms(2,3)] by simp

definition sample_handler :: "kafka_message \<Rightarrow> nat \<Rightarrow> nat \<times> (exn + bool)" where
  "sample_handler m s = (if k_partition m = 0 then (s, Inl OperationalError) else (Suc s, Inr True))"

definition sample_batch :: polled where
  "sample_batch = [((u ''t'', 0), [\<lparr>k_topic = u ''t'', k_partition = 0, k_offset = 4, k_timestamp = None,
        k_key = None, k_value = Value JNull\<rparr>]),
     ((u ''t'', 1), [\<lparr>k_topic = u ''t'', k_partition = 1, k_offset = 9, k_timestamp = None,
        k_key = None, k_value = Value JNull\<rparr>])]"

theorem failed_partition_is_isolated_witness:
  "\<exists>s' c' as. process_worker_batch sample_handler \<lparr>b_commit = \<lambda>_. Committed, b_seek = \<lambda>_. None\<rparr> sample_batch 0
       \<lparr>committed = \<lambda>_. 0, position = \<lambda>_. 10\<rparr> = (s', c', as, None)
     \<and> committed c' (u ''t'', 1) = 10"
proof -
  let ?B = "\<lparr>b_commit = \<lambda>_. Committed, b_seek = \<lambda>_. None\<rparr>"
  obtain s' c' as x where run: "process_worker_batch sample_handler ?B sample_batch 0
       \<lparr>committed = \<lambda>_. 0, position = \<lambda>_. 10\<rparr> = (s', c', as, x)" by (rule prod_cases4)
  have "healthy_partition sample_handler ?B (u ''t'', 1)" "seeks_work ?B"
    by (auto simp: healthy_partition_def sample_handler_def topic_partition_def seeks_work_def)
  from failed_partition_is_isolated [OF run this] run show ?thesis
    by (auto simp: sample_batch_def polled_messages_def topic_partition_def)
qed

end
