(* ===== verification/Dlq_Replayer.thy ===== *)
theory Dlq_Replayer
  imports Ingress_Handler Consumer_Batch
begin

text \<open>
  \<open>worker/dlq_replayer.py\<close>: which dead-letter records are put back on the ingress topic
  (\<open>replay_one\<close>), under the claim that keeps two replayers from publishing the same generation,
  and the batch around it (\<open>_process_replay_batch\<close>).
\<close>

section \<open>One record\<close>

record replay_state =
  r_db :: db
  r_ingress :: topic

text \<open>
  The inputs: the claim's token and database clock, the outcome of each transaction, the
  broker's answer and \<open>now_iso\<close>.
\<close>

record replay_env =
  r_token :: ustr
  r_clock :: rat
  r_claim :: tx_fault
  r_now :: ustr
  r_send :: send_result
  r_release :: tx_fault
  r_mark :: tx_fault
  r_mark_clock :: rat

definition conflicting_pair :: "obj \<Rightarrow> string \<Rightarrow> string \<Rightarrow> bool" where
  "conflicting_pair d canonical legacy \<longleftrightarrow>
     has_key d canonical \<and> has_key d legacy
     \<and> (py_type (get_none d canonical) \<noteq> py_type (get_none d legacy)
        \<or> \<not> py_eq (get_none d canonical) (get_none d legacy))"

definition has_conflicting_event_aliases :: "obj \<Rightarrow> bool" where
  "has_conflicting_event_aliases d \<longleftrightarrow>
     conflicting_pair d ''stream_id'' ''room_id'' \<or> conflicting_pair d ''actor_id'' ''user_id''
     \<or> conflicting_pair d ''stream_seq'' ''room_seq''"

datatype skip = Skip_invalid | Skip_max_replay

definition replay_fields :: "int \<Rightarrow> obj \<Rightarrow> skip + obj" where
  "replay_fields max_count d0 =
     (let d = (if \<not> has_key d0 ''room_id'' \<and> has_key d0 ''stream_id''
               then set_key d0 ''room_id'' (get_none d0 ''stream_id'') else d0);
          count = get_or d ''replay_count'' (JInt 0) in
      if \<not> bounded_text 80 (get_none d ''request_id'') \<or> \<not> pos_bigint (get_none d ''room_id'')
      then Inl Skip_invalid
      else if \<not> nonneg_bigint count then Inl Skip_invalid
      else if max_count \<le> int_of_json count then Inl Skip_max_replay
      else if max_postgres_bigint \<le> int_of_json count then Inl Skip_max_replay
      else Inr d)"

definition replay_candidate :: "pylib \<Rightarrow> int \<Rightarrow> raw \<Rightarrow> skip + obj" where
  "replay_candidate L max_count r =
     (case load_raw L r of
        Inl e \<Rightarrow> Inl Skip_invalid
      | Inr v \<Rightarrow>
          if is_invalid_kafka_payload v then Inl Skip_invalid
          else
            (case validate_json_wire v of
               Inl e \<Rightarrow> Inl Skip_invalid
             | Inr _ \<Rightarrow>
                 (case v of
                    JObj d \<Rightarrow>
                      if has_conflicting_event_aliases d then Inl Skip_invalid
                      else replay_fields max_count d
                  | _ \<Rightarrow> Inl Skip_invalid)))"

definition replay_generation :: "obj \<Rightarrow> int" where
  "replay_generation d = int_of_json (get_or d ''replay_count'' (JInt 0))"

definition replayed_payload :: "obj \<Rightarrow> ustr \<Rightarrow> obj" where
  "replayed_payload d now =
     set_key (set_key (set_key (set_key d ''replay_count'' (JInt (replay_generation d + 1)))
       ''replayed_at'' (JStr now)) ''retry_count'' (JInt 0)) ''next_retry_at'' JNull"

text \<open>
  After the claim: publish; a failed publication releases the claim and is raised again, a
  published record is marked, and a failure of the release or of the mark is only logged.
\<close>

definition publish_replay :: "replay_env \<Rightarrow> obj \<Rightarrow> replay_state \<Rightarrow> replay_state \<times> (exn + bool)" where
  "publish_replay e d s =
     (let rid = text_of_json (get_none d ''request_id'');
          gen = replay_generation d;
          (t', q) = publish_job (r_send e) (int_of_json (get_none d ''room_id''))
                      (JObj (replayed_payload d (r_now e))) (r_ingress s) in
      case q of
        Inl ex \<Rightarrow>
          (s\<lparr>r_ingress := t',
             r_db := fst (release_dlq_replay_claim (r_release e) rid gen (r_token e) (r_db s))\<rparr>, Inl ex)
      | Inr _ \<Rightarrow>
          (s\<lparr>r_ingress := t',
             r_db := fst (mark_dlq_replay_published (r_mark e) rid gen (r_token e) (r_mark_clock e) (r_db s))\<rparr>,
           Inr True))"

definition replay_one ::
    "pylib \<Rightarrow> int \<Rightarrow> replay_env \<Rightarrow> raw \<Rightarrow> replay_state \<Rightarrow> replay_state \<times> (exn + bool)" where
  "replay_one L max_count e r s =
     (case replay_candidate L max_count r of
        Inl _ \<Rightarrow> (s, Inr False)
      | Inr d \<Rightarrow>
          (case claim_dlq_replay L (r_claim e) (text_of_json (get_none d ''request_id''))
                  (replay_generation d) (r_token e) (r_clock e) (r_db s) of
             (db', Inl ex) \<Rightarrow> (s\<lparr>r_db := db'\<rparr>, Inl ex)
           | (db', Inr Already_persisted) \<Rightarrow> (s\<lparr>r_db := db'\<rparr>, Inr False)
           | (db', Inr Already_published) \<Rightarrow> (s\<lparr>r_db := db'\<rparr>, Inr False)
           | (db', Inr In_progress) \<Rightarrow> (s\<lparr>r_db := db'\<rparr>, Inl ReplayClaimInProgress)
           | (db', Inr (Claimed _)) \<Rightarrow> publish_replay e d (s\<lparr>r_db := db'\<rparr>)))"

section \<open>A batch\<close>

definition replay_handler ::
    "pylib \<Rightarrow> int \<Rightarrow> (kafka_message \<Rightarrow> replay_env) \<Rightarrow> kafka_message \<Rightarrow> replay_state \<Rightarrow> replay_state \<times> (exn + bool)" where
  "replay_handler L max_count E m s = replay_one L max_count (E m) (k_value m) s"

text \<open>\<open>ping\<close> is the answer of \<open>ping_db\<close>.\<close>

definition process_replay_batch ::
    "pylib \<Rightarrow> int \<Rightarrow> bool \<Rightarrow> (kafka_message \<Rightarrow> replay_env) \<Rightarrow> batch_env \<Rightarrow> polled \<Rightarrow> replay_state \<Rightarrow> consumer
      \<Rightarrow> replay_state \<times> consumer \<times> bool answers \<times> exn option" where
  "process_replay_batch L max_count ping E B rs s c =
     (if \<not> ping then (s, c, [], Some ReplayDatabaseUnavailable)
      else process_worker_batch (replay_handler L max_count E) B rs s c)"

text \<open>The number of records moved: replayed and committed.\<close>

definition moved :: "bool answers \<Rightarrow> nat" where
  "moved as = length (filter (\<lambda>(m, a, b). a \<and> b) as)"

section \<open>What a replay publishes\<close>

lemma replay_fields_Inr:
  assumes "replay_fields M d0 = Inr d"
  shows "0 \<le> replay_generation d \<and> replay_generation d < M \<and> replay_generation d < max_postgres_bigint"
  using assms
  by (auto simp: replay_fields_def Let_def replay_generation_def nonneg_bigint_JInt split: if_splits)

lemma replay_candidate_Inr:
  assumes "replay_candidate L M r = Inr d"
  shows "0 \<le> replay_generation d \<and> replay_generation d < M \<and> replay_generation d < max_postgres_bigint"
  using assms
  by (auto simp: replay_candidate_def split: sum.splits if_splits json.splits dest: replay_fields_Inr)

lemma publish_replay_cases:
  assumes "publish_replay e d s = (s', q)"
  shows "(isl q \<and> (r_ingress s' = r_ingress s \<or> (\<exists>x. r_ingress s' = r_ingress s @ [x])))
    \<or> (q = Inr True \<and> r_ingress s' = r_ingress s @
          [(int_of_json (get_none d ''room_id''), JObj (replayed_payload d (r_now e)))]
        \<and> r_db s' = fst (mark_dlq_replay_published (r_mark e) (text_of_json (get_none d ''request_id''))
            (replay_generation d) (r_token e) (r_mark_clock e) (r_db s)))"
proof -
  let ?room = "int_of_json (get_none d ''room_id'')"
  let ?v = "JObj (replayed_payload d (r_now e))"
  obtain t' p where pub: "publish_job (r_send e) ?room ?v (r_ingress s) = (t', p)"
    by (cases "publish_job (r_send e) ?room ?v (r_ingress s)")
  then have "r_ingress s' = t'" "isl q = isl p" "p = Inr () \<Longrightarrow> q = Inr True \<and> r_db s' =
      fst (mark_dlq_replay_published (r_mark e) (text_of_json (get_none d ''request_id''))
            (replay_generation d) (r_token e) (r_mark_clock e) (r_db s))"
    using assms by (auto simp: publish_replay_def Let_def split: sum.splits)
  with pub show ?thesis by (cases rule: publish_job_cases) auto
qed

lemma replay_one_cases:
  assumes "replay_one L M e r s = (s', q)"
  shows "(r_ingress s' = r_ingress s \<and> q \<noteq> Inr True)
    \<or> (\<exists>d db' t. replay_candidate L M r = Inr d
        \<and> claim_dlq_replay L (r_claim e) (text_of_json (get_none d ''request_id''))
            (replay_generation d) (r_token e) (r_clock e) (r_db s) = (db', Inr (Claimed t))
        \<and> publish_replay e d (s\<lparr>r_db := db'\<rparr>) = (s', q))"
proof (cases "replay_candidate L M r")
  case (Inl x)
  with assms show ?thesis by (auto simp: replay_one_def)
next
  case (Inr d)
  let ?claim = "claim_dlq_replay L (r_claim e) (text_of_json (get_none d ''request_id''))
            (replay_generation d) (r_token e) (r_clock e) (r_db s)"
  obtain db' p where claim: "?claim = (db', p)" by (cases ?claim)
  show ?thesis
  proof (cases "\<exists>t. p = Inr (Claimed t)")
    case True
    with assms Inr claim show ?thesis by (auto simp: replay_one_def)
  next
    case False
    with assms Inr claim show ?thesis
      by (auto simp: replay_one_def split: sum.splits claim_state.splits)
  qed
qed

text \<open>
  C40: a replay is bounded and honest. \<open>replay_one\<close> answers \<open>True\<close> only when it appended exactly
  one record to the ingress topic, the payload with its replay count raised by one, to a value
  not above the configured maximum; when it answers \<open>False\<close> nothing was published; when it
  raises, at most one record was, without an acknowledgement.
\<close>

theorem replay_is_bounded:
  assumes "replay_one L M e r s = (s', q)"
  shows "(q = Inr True \<longrightarrow> (\<exists>d. replay_candidate L M r = Inr d
          \<and> r_ingress s' = r_ingress s @
              [(int_of_json (get_none d ''room_id''), JObj (replayed_payload d (r_now e)))]
          \<and> get_none (replayed_payload d (r_now e)) ''replay_count'' = JInt (replay_generation d + 1)
          \<and> 0 < replay_generation d + 1 \<and> replay_generation d + 1 \<le> M))
    \<and> (q = Inr False \<longrightarrow> r_ingress s' = r_ingress s)
    \<and> (isl q \<longrightarrow> r_ingress s' = r_ingress s \<or> (\<exists>x. r_ingress s' = r_ingress s @ [x]))"
proof -
  consider "r_ingress s' = r_ingress s" "q \<noteq> Inr True"
    | d db' where "replay_candidate L M r = Inr d" "publish_replay e d (s\<lparr>r_db := db'\<rparr>) = (s', q)"
    using replay_one_cases [OF assms] by blast
  then show ?thesis
  proof cases
    case 1
    then show ?thesis by simp
  next
    case 2
    have "get_none (replayed_payload d (r_now e)) ''replay_count'' = JInt (replay_generation d + 1)"
      by (simp add: replayed_payload_def)
    with replay_candidate_Inr [OF 2(1)] publish_replay_cases [OF 2(2)] 2(1) show ?thesis by auto
  qed
qed

section \<open>A generation is replayed once\<close>

lemma claim_args_of_claimed:
  assumes "claim_dlq_replay L f r g t now db = (db', Inr (Claimed t'))"
  obtains row where "claim_args r g t = Inr (r @ [58] @ py_str_int g, claimed_value r t)"
    "claim_row_of db' r g = Some row" "c_value row = claimed_value r t"
proof -
  from assms obtain p where "claim_args r g t = Inr p"
    by (cases "claim_args r g t") (auto simp: claim_dlq_replay_def)
  with claim_args_Inr have args: "claim_args r g t = Inr (r @ [58] @ py_str_int g, claimed_value r t)" by blast
  from assms show thesis
    by (cases rule: claim_effect) (use args that in \<open>auto simp: claim_row_of_def\<close>)
qed

lemma mark_owned:
  assumes "claim_args r g t = Inr (r @ [58] @ py_str_int g, claimed_value r t)"
    "claim_row_of db r g = Some row" "c_value row = claimed_value r t"
  shows "\<exists>row'. claim_row_of (fst (mark_dlq_replay_published Commit_ok r g t now db)) r g = Some row'
    \<and> published_row row'"
  using assms
  by (auto simp: mark_dlq_replay_published_def run_tx_def mark_body_def owns_claim_def claim_row_of_def
      published_row_def)

text \<open>
  C24: a record delivered twice is replayed once. After \<open>replay_one\<close> published a record and its
  mark was committed, handling the same record again, by any replayer, with any clock and after
  any claims, marks and releases in between, publishes nothing more.
\<close>

theorem replayed_record_not_replayed_again:
  assumes "replay_one L M e r s = (s1, Inr True)" "r_mark e = Commit_ok"
    and "r_db s2 = exec_claim_ops L ops (r_db s1)"
    and "replay_one L M' e' r s2 = (s3, q)"
  shows "r_ingress s3 = r_ingress s2 \<and> q \<noteq> Inr True"
proof -
  from replay_one_cases [OF assms(1)] obtain d db' t where
    cand: "replay_candidate L M r = Inr d"
    and claim: "claim_dlq_replay L (r_claim e) (text_of_json (get_none d ''request_id''))
            (replay_generation d) (r_token e) (r_clock e) (r_db s) = (db', Inr (Claimed t))"
    and pub: "publish_replay e d (s\<lparr>r_db := db'\<rparr>) = (s1, Inr True)" by auto
  let ?rid = "text_of_json (get_none d ''request_id'')"
  let ?gen = "replay_generation d"
  from claim obtain row where "claim_args ?rid ?gen (r_token e) = Inr (?rid @ [58] @ py_str_int ?gen,
      claimed_value ?rid (r_token e))" "claim_row_of db' ?rid ?gen = Some row"
      "c_value row = claimed_value ?rid (r_token e)" by (rule claim_args_of_claimed)
  from mark_owned [OF this, of "r_mark_clock e"] publish_replay_cases [OF pub] assms(2)
  obtain row' where "claim_row_of (r_db s1) ?rid ?gen = Some row'" "published_row row'" by auto
  from published_ops [OF this, of L ops] assms(3) this(2)
  have row': "claim_row_of (r_db s2) ?rid ?gen = Some row'" "published_row row'" by simp_all
  show ?thesis
  proof (rule ccontr)
    assume "\<not> ?thesis"
    with replay_one_cases [OF assms(4)] obtain d' db'' t' where
      cand': "replay_candidate L M' r = Inr d'"
      and claim': "claim_dlq_replay L (r_claim e') (text_of_json (get_none d' ''request_id''))
            (replay_generation d') (r_token e') (r_clock e') (r_db s2) = (db'', Inr (Claimed t'))" by blast
    have "d' = d" using cand cand'
      by (auto simp: replay_candidate_def replay_fields_def Let_def split: sum.splits if_splits json.splits)
    with claim' have "may_claim (r_clock e') (claim_row_of (r_db s2) ?rid ?gen)"
      by (auto elim: claim_effect)
    with row' show False by (simp add: may_claim_def published_row_def)
  qed
qed

section \<open>Through the dead-letter topic and back\<close>

definition replayed_job :: "job \<Rightarrow> ustr \<Rightarrow> job" where
  "replayed_job j now = j\<lparr>j_retry_count := 0, j_replay_count := j_replay_count j + 1,
     j_next_retry_at := None, j_replayed_at := Some now\<rparr>"

lemma failed_payload_gets:
  "get_none (failed_job_payload j reason now) ''request_id'' = JStr (j_request_id j)"
  "get_none (failed_job_payload j reason now) ''room_id'' = JInt (j_room_id j)"
  "has_key (failed_job_payload j reason now) ''room_id''"
  "\<not> has_key (failed_job_payload j reason now) ''stream_id''"
  "\<not> has_key (failed_job_payload j reason now) ''actor_id''"
  "\<not> has_key (failed_job_payload j reason now) ''stream_seq''"
  "get_or (failed_job_payload j reason now) ''replay_count'' w = JInt (j_replay_count j)"
  "get_none (failed_job_payload j reason now) invalid_kafka_payload_marker = JNull"
  using job_obj_unmarked [of j] job_obj_gets(1,3)
  by (simp_all add: failed_job_payload_def job_obj_gets has_key_of_get
      invalid_kafka_payload_marker_def get_none_absent)
    (simp_all add: job_obj_def text_simps get_append)

lemma replay_failed_candidate:
  assumes "bounded_text 80 (JStr (j_request_id j))" "pos_bigint (JInt (j_room_id j))"
    and "0 \<le> j_replay_count j" "j_replay_count j < M" "j_replay_count j < max_postgres_bigint"
    and "json_ok max_json_wire_nesting_depth (JObj (failed_job_payload j reason now))"
  shows "replay_candidate L M (Value (JObj (failed_job_payload j reason now)))
       = Inr (failed_job_payload j reason now)"
proof -
  have "validate_json_wire (JObj (failed_job_payload j reason now)) = Inr ()" using assms(6) by simp
  moreover have "\<not> is_invalid_kafka_payload (JObj (failed_job_payload j reason now))"
    by (simp add: is_invalid_kafka_payload_def failed_payload_gets)
  ultimately show ?thesis using assms(1-5)
    by (simp add: replay_candidate_def load_raw_def has_conflicting_event_aliases_def conflicting_pair_def
        replay_fields_def Let_def failed_payload_gets nonneg_bigint_JInt
        del: validate_json_structure_ok json_ok.simps)
qed

lemma replayed_payload_gets:
  fixes j reason now stamp
  defines "d \<equiv> replayed_payload (failed_job_payload j reason now) stamp"
  shows "get_key d ''request_id'' = Some (JStr (j_request_id j))"
    "get_key d ''route'' = Some (JStr (j_route j))"
    "get_key d ''room_id'' = Some (JInt (j_room_id j))"
    "get_key d ''user_id'' = Some (JInt (j_user_id j))"
    "get_key d ''event_type'' = Some (JStr (j_event_type j))"
    "get_key d ''payload'' = Some (JObj (j_payload j))"
    "get_key d ''metadata'' = Some (JObj (j_metadata j))"
    "get_key d ''schema_version'' = Some (JInt (j_schema_version j))"
    "get_none d ''room_seq'' = json_opt JInt (j_room_seq j)"
    "get_none d ''x_idempotency_key'' = json_opt JStr (j_idem_key j)"
    "get_or d ''schema_version'' w = JInt (j_schema_version j)"
    "get_or d ''route'' w = JStr (j_route j)"
    "get_or d ''retry_count'' w = JInt 0"
    "get_or d ''replay_count'' w = JInt (j_replay_count j + 1)"
    "get_none d ''next_retry_at'' = JNull"
    "get_none d ''queued_at'' = json_opt JStr (j_queued_at j)"
    "get_none d ''replayed_at'' = JStr stamp"
    "get_none d ''payment_id'' = json_opt JStr (j_payment_id j)"
    "\<not> has_key d ''stream_id''" "\<not> has_key d ''actor_id''" "\<not> has_key d ''stream_seq''"
    "has_key d ''payload''" "has_key d ''schema_version''"
  unfolding d_def replayed_payload_def replay_generation_def
  by (simp_all add: failed_payload_gets job_obj_gets failed_job_payload_def)

lemma replayed_payload_presents:
  assumes "job_wf L j" "same_job j j'" "iso_timestamp L (JStr stamp)"
  shows "presents L (replayed_payload (failed_job_payload j' reason now) stamp) (replayed_job j stamp)"
proof -
  let ?d = "replayed_payload (failed_job_payload j' reason now) stamp"
  have same: "j_request_id j' = j_request_id j" "j_route j' = j_route j" "j_room_id j' = j_room_id j"
    "j_user_id j' = j_user_id j" "j_room_seq j' = j_room_seq j" "j_schema_version j' = j_schema_version j"
    "j_event_type j' = j_event_type j" "j_payload j' = j_payload j" "j_metadata j' = j_metadata j"
    "j_idem_key j' = j_idem_key j" "j_replay_count j' = j_replay_count j" "j_queued_at j' = j_queued_at j"
    "j_payment_id j' = j_payment_id j"
    using assms(2) by (cases j; cases j'; simp add: same_job_def)+
  have sv: "set_key ?d ''schema_version'' (JInt (j_schema_version j)) = ?d"
    by (rule set_key_same) (simp add: replayed_payload_gets same)
  have "is_generic_envelope ?d = job_generic j"
    by (simp add: is_generic_envelope_def job_generic_def replayed_payload_gets same)
  then have "event_envelope L ?d = Inr (j_event_type j, j_payload j, j_metadata j)"
    using assms(1) by (intro event_envelope_full) (simp_all add: replayed_payload_gets same job_wf_def)
  then show ?thesis using sv
    by (simp add: presents_def replayed_payload_gets same replayed_job_def)
qed

lemma replayed_job_fields:
  "j_request_id (replayed_job j now) = j_request_id j" "j_route (replayed_job j now) = j_route j"
  "j_room_id (replayed_job j now) = j_room_id j" "j_user_id (replayed_job j now) = j_user_id j"
  "j_room_seq (replayed_job j now) = j_room_seq j"
  "j_schema_version (replayed_job j now) = j_schema_version j"
  "j_event_type (replayed_job j now) = j_event_type j" "j_payload (replayed_job j now) = j_payload j"
  "j_metadata (replayed_job j now) = j_metadata j" "j_body (replayed_job j now) = j_body j"
  "j_idem_key (replayed_job j now) = j_idem_key j" "j_retry_count (replayed_job j now) = 0"
  "j_replay_count (replayed_job j now) = j_replay_count j + 1"
  "j_next_retry_at (replayed_job j now) = None" "j_queued_at (replayed_job j now) = j_queued_at j"
  "j_replayed_at (replayed_job j now) = Some now" "j_payment_id (replayed_job j now) = j_payment_id j"
  by (simp_all add: replayed_job_def)

lemma replayed_job_wf:
  assumes "job_wf L j" "iso_timestamp L (JStr stamp)" "j_replay_count j < max_postgres_bigint"
  shows "job_wf L (replayed_job j stamp)"
proof -
  have "job_identity_ok (replayed_job j stamp) = job_identity_ok j"
    "job_generic (replayed_job j stamp) = job_generic j"
    by (simp_all only: replayed_job_fields job_identity_ok_def job_route_ok_def job_generic_def)
  moreover have "job_rest_ok L (replayed_job j stamp)"
    using assms
    by (simp add: job_wf_def replayed_job_fields job_rest_ok_def nonneg_bigint_JInt)
      (simp add: optional_def max_postgres_bigint_def)
  ultimately show ?thesis using assms(1) by (simp only: job_wf_def replayed_job_fields)
qed

text \<open>
  C23: nothing is lost on the way through the dead-letter topic. A well-formed job that was
  retried, dead-lettered with any reason and replayed within the limit is taken up by the
  replayer, and the payload it publishes passes the ingress validation as the same job, with its
  retries reset, its replay count raised by one and the replay time set.
\<close>

theorem dead_letter_roundtrip:
  assumes "job_wf L j" "same_job j j'" "j_replay_count j < M" "j_replay_count j < max_postgres_bigint"
    and "json_ok max_json_wire_nesting_depth (JObj (failed_job_payload j' reason now))"
    and "iso_timestamp L (JStr stamp)"
  shows "replay_candidate L M (Value (JObj (failed_job_payload j' reason now)))
       = Inr (failed_job_payload j' reason now)
    \<and> snd (validate_ingress_payload L (JObj (replayed_payload (failed_job_payload j' reason now) stamp)))
       = Inr (replayed_job j stamp)"
proof
  have same: "j_request_id j' = j_request_id j" "j_room_id j' = j_room_id j"
      "j_replay_count j' = j_replay_count j"
    using assms(2) by (cases j; cases j'; simp add: same_job_def)+
  show "replay_candidate L M (Value (JObj (failed_job_payload j' reason now)))
       = Inr (failed_job_payload j' reason now)"
    using assms(1,3,4,5) by (intro replay_failed_candidate)
      (auto simp: same job_wf_def job_identity_ok_def job_rest_ok_def nonneg_bigint_JInt)
  show "snd (validate_ingress_payload L (JObj (replayed_payload (failed_job_payload j' reason now) stamp)))
       = Inr (replayed_job j stamp)"
    using validate_presents [OF replayed_job_wf [OF assms(1,6,4)] replayed_payload_presents [OF assms(1,2,6)]] .
qed

section \<open>Concrete instances\<close>

definition sample_dead_letter :: obj where
  "sample_dead_letter = failed_job_payload keyed_job (u ''room_sequence_gap'') (u ''then'')"

definition sample_replay :: replay_env where
  "sample_replay = \<lparr>r_token = u ''t1'', r_clock = 0, r_claim = Commit_ok, r_now = u ''now'', r_send = Sent,
     r_release = Commit_ok, r_mark = Commit_ok, r_mark_clock = 1\<rparr>"

definition sample_replayer :: replay_state where
  "sample_replayer = \<lparr>r_db = empty_db, r_ingress = []\<rparr>"

lemma sample_dead_letter_ok: "json_ok max_json_wire_nesting_depth (JObj sample_dead_letter)"
  unfolding sample_dead_letter_def failed_job_payload_def
  by (intro json_ok_update keyed_job_publishable) (simp_all add: good_text_def)

lemma sample_stamp: "iso_timestamp sample_lib (JStr (u ''now''))"
  by (simp add: iso_timestamp_def sample_lib_def)

lemma keyed_job_counts: "j_replay_count keyed_job = 0" "j_room_id keyed_job = 7"
  by (simp_all add: keyed_job_def sample_job_def)

theorem dead_letter_roundtrip_witness:
  "replay_candidate sample_lib 5 (Value (JObj sample_dead_letter)) = Inr sample_dead_letter
    \<and> snd (validate_ingress_payload sample_lib (JObj (replayed_payload sample_dead_letter (u ''now''))))
       = Inr (replayed_job keyed_job (u ''now''))"
  unfolding sample_dead_letter_def
  by (rule dead_letter_roundtrip [OF keyed_job_wf same_job_refl _ _
        sample_dead_letter_ok [unfolded sample_dead_letter_def] sample_stamp])
    (simp_all add: keyed_job_counts max_postgres_bigint_def)

lemma sample_candidate:
  "replay_candidate sample_lib 5 (Value (JObj sample_dead_letter)) = Inr sample_dead_letter"
  unfolding sample_dead_letter_def
  by (rule replay_failed_candidate [OF _ _ _ _ _ sample_dead_letter_ok [unfolded sample_dead_letter_def]])
    (simp_all add: keyed_job_counts keyed_job_id max_postgres_bigint_def)

lemma sample_generation: "replay_generation sample_dead_letter = 0"
    "get_none sample_dead_letter ''request_id'' = JStr (u ''r1'')"
    "get_none sample_dead_letter ''room_id'' = JInt 7"
  by (simp_all add: replay_generation_def sample_dead_letter_def failed_payload_gets keyed_job_counts keyed_job_id)

lemma sample_replayed_ok:
  "json_ok max_json_wire_nesting_depth (JObj (replayed_payload sample_dead_letter (u ''now'')))"
  unfolding replayed_payload_def
  by (intro json_ok_update sample_dead_letter_ok) (simp_all add: good_text_def)

abbreviation sample_replayed :: "replay_state \<times> (exn + bool)" where
  "sample_replayed \<equiv> replay_one sample_lib 5 sample_replay (Value (JObj sample_dead_letter)) sample_replayer"

lemma sample_replay_run: "sample_replayed = (fst sample_replayed, Inr True)"
  using publish_valid(1) [OF sample_replayed_ok]
  by (simp add: replay_one_def sample_candidate sample_generation sample_replay_def sample_claim
      publish_replay_def sample_replayer_def)

theorem replay_is_bounded_witness:
  "\<exists>d. r_ingress (fst sample_replayed) = r_ingress sample_replayer @
        [(int_of_json (get_none d ''room_id''), JObj (replayed_payload d (r_now sample_replay)))]
     \<and> replay_generation d + 1 \<le> 5"
  using replay_is_bounded [OF sample_replay_run] by blast

theorem replayed_record_not_replayed_again_witness:
  "r_ingress (fst (replay_one sample_lib 9 (sample_replay\<lparr>r_token := u ''t2'', r_clock := 100\<rparr>)
       (Value (JObj sample_dead_letter)) (fst sample_replayed)))
   = r_ingress (fst sample_replayed)"
proof -
  obtain s3 q where run: "replay_one sample_lib 9 (sample_replay\<lparr>r_token := u ''t2'', r_clock := 100\<rparr>)
       (Value (JObj sample_dead_letter)) (fst sample_replayed) = (s3, q)" by fastforce
  have "r_db (fst sample_replayed) = exec_claim_ops sample_lib [] (r_db (fst sample_replayed))"
    by (simp add: exec_claim_ops_def)
  from replayed_record_not_replayed_again [OF sample_replay_run _ this run] run show ?thesis
    by (simp add: sample_replay_def)
qed

end
