(* ===== verification/Worker_Loops.thy ===== *)
theory Worker_Loops
  imports Notifications Dlq_Replayer
begin

text \<open>
  The three consumer loops of the worker image (\<open>run_kafka_worker_loop\<close> and
  \<open>run_kafka_notification_loop\<close> of \<open>worker/main.py\<close>, \<open>run_kafka_replayer_loop\<close> of
  \<open>worker/dlq_replayer.py\<close>), each an interpretation of the batch interface on its own handler.
  What a committed offset promises is then one fact of the interface for each of them.
\<close>

section \<open>The ingress loop\<close>











section \<open>The notification loop\<close>

definition note_of :: "pylib \<Rightarrow> kafka_message \<Rightarrow> exn + notice" where
  "note_of L m = rbind (load_raw L (k_value m)) (normalize_notification_payload L)"

text \<open>
  Decoding of the whole batch: a record that does not decode is kept without a payload, any
  other exception leaves the batch.
\<close>

fun normalize_batch :: "pylib \<Rightarrow> kafka_message list \<Rightarrow> exn + (kafka_message \<times> notice option) list" where
  "normalize_batch L [] = Inr []"
| "normalize_batch L (m # ms) =
     (case note_of L m of
        Inl e \<Rightarrow>
          if is_decode_error e then rbind (normalize_batch L ms) (\<lambda>xs. Inr ((m, None) # xs)) else Inl e
      | Inr n \<Rightarrow> rbind (normalize_batch L ms) (\<lambda>xs. Inr ((m, Some n) # xs)))"

definition valid_payloads :: "(kafka_message \<times> notice option) list \<Rightarrow> notice list" where
  "valid_payloads xs = List.map_filter snd xs"

definition batch_result :: "(int \<times> int) set \<Rightarrow> notice option \<Rightarrow> ustr" where
  "batch_result persisted n =
     (case n of
        None \<Rightarrow> u ''rejected''
      | Some n \<Rightarrow> if note_key n \<in> persisted then u ''success'' else u ''rejected'')"

text \<open>The failed batch: every partition goes back to its first record.\<close>

fun seek_first :: "batch_env \<Rightarrow> polled \<Rightarrow> consumer \<Rightarrow> consumer \<times> exn option" where
  "seek_first B [] c = (c, None)"
| "seek_first B ((p, ms) # rs) c =
     (case ms of
        [] \<Rightarrow> seek_first B rs c
      | m # _ \<Rightarrow>
          (case seek_failed_record (b_seek B m) m c of
             (c', Inl e) \<Rightarrow> (c', Some e)
           | (c', Inr _) \<Rightarrow> seek_first B rs c'))"

text \<open>The inputs of a batch: the two transactions of its insert, and those of each record alone.\<close>

record note_env =
  e_first :: tx_fault
  e_reconnect :: "exn option"
  e_second :: tx_fault

definition handle_notification_record ::
    "pylib \<Rightarrow> pg \<Rightarrow> (kafka_message \<Rightarrow> note_env) \<Rightarrow> kafka_message \<Rightarrow> db \<Rightarrow> db \<times> (exn + ustr)" where
  "handle_notification_record L G F m =
     handle_notification_job L G (e_first (F m)) (e_reconnect (F m)) (e_second (F m)) (k_value m)"

definition commit_results ::
    "(kafka_message \<Rightarrow> ustr) \<Rightarrow> batch_env \<Rightarrow> kafka_message list \<Rightarrow> db \<Rightarrow> consumer
      \<Rightarrow> db \<times> consumer \<times> ustr answers \<times> exn option" where
  "commit_results result B ms db c = process_records (\<lambda>m db. (db, Inr (result m))) B ms {} db c"

definition process_notification_batch ::
    "pylib \<Rightarrow> pg \<Rightarrow> (notice list \<Rightarrow> notice list) \<Rightarrow> note_env \<Rightarrow> (kafka_message \<Rightarrow> note_env) \<Rightarrow> batch_env
      \<Rightarrow> polled \<Rightarrow> db \<Rightarrow> consumer \<Rightarrow> db \<times> consumer \<times> ustr answers \<times> exn option" where
  "process_notification_batch L G D N F B rs db c =
     (if polled_messages rs = [] then (db, c, [], None)
      else
        (case normalize_batch L (polled_messages rs) of
           Inl e \<Rightarrow> (db, c, [], Some e)
         | Inr xs \<Rightarrow>
             (case store_attempt_batch G D (e_first N) (e_reconnect N) (e_second N) (valid_payloads xs) db of
                (db', Inl e) \<Rightarrow>
                  if e = DataError
                  then process_worker_batch (handle_notification_record L G F) B rs db' c
                  else (case seek_first B rs c of (c', x) \<Rightarrow> (db', c', [], x))
              | (db', Inr persisted) \<Rightarrow>
                  commit_results (\<lambda>m. batch_result persisted (the (map_of xs m))) B (polled_messages rs) db' c)))"

text \<open>
  What an answer promises: a payload that does not decode was rejected; of any other, a success
  is the attempt of the event it names.
\<close>

definition note_done :: "pylib \<Rightarrow> db \<Rightarrow> kafka_message \<Rightarrow> ustr \<Rightarrow> bool" where
  "note_done L db m a \<longleftrightarrow>
     (case note_of L m of
        Inl _ \<Rightarrow> a = u ''rejected''
      | Inr n \<Rightarrow> a = u ''rejected'' \<or> a = u ''success'' \<and> note_key n \<in> attempted db)"

definition attempts_grow :: "db \<Rightarrow> db \<Rightarrow> bool" where
  "attempts_grow db db' \<longleftrightarrow> store_ok db' \<and> attempted db \<subseteq> attempted db'"

lemma note_done_grows: "attempts_grow db db' \<Longrightarrow> note_done L db m a \<Longrightarrow> note_done L db' m a"
  by (auto simp: note_done_def attempts_grow_def split: sum.splits)

lemma attempts_grow_trans: "attempts_grow db db1 \<Longrightarrow> attempts_grow db1 db' \<Longrightarrow> attempts_grow db db'"
  by (auto simp: attempts_grow_def)

definition notification_handlers :: "pylib \<Rightarrow> (kafka_message \<Rightarrow> db \<Rightarrow> db \<times> (exn + ustr)) set" where
  "notification_handlers L = {h. \<exists>G F. h = handle_notification_record L G F}"

lemma notification_handler_laws:
  assumes "h \<in> notification_handlers L" "h m db = (db', q)" "store_ok db"
  shows "attempts_grow db db'" "q = Inr a \<Longrightarrow> note_done L db' m a"
proof -
  from assms(1,2) obtain G f1 rc f2 where h: "handle_notification_job L G f1 rc f2 (k_value m) db = (db', q)"
    by (auto simp: notification_handlers_def handle_notification_record_def)
  note laws = handle_notification_job_laws [OF assms(3) h]
  from laws show "attempts_grow db db'" by (simp add: attempts_grow_def)
  from h have "a = u ''success'' \<or> a = u ''rejected''" "isl (note_of L m) \<Longrightarrow> a = u ''rejected''"
    if "q = Inr a"
    using that by (auto simp: handle_notification_job_def note_of_def split: sum.splits if_splits prod.splits)
  with laws show "note_done L db' m a" if "q = Inr a"
    using that by (auto simp: note_done_def note_of_def split: sum.splits)
qed

lemma attempts_grow_handled:
  assumes "h \<in> notification_handlers L" "h m db = (db', q)" "attempts_grow db0 db"
  shows "attempts_grow db0 db'" "q = Inr a \<Longrightarrow> note_done L db' m a"
    "note_done L db m' a' \<Longrightarrow> note_done L db' m' a'"
proof -
  from assms(3) have "store_ok db" by (simp add: attempts_grow_def)
  note laws = notification_handler_laws [OF assms(1,2) this]
  from assms(3) laws(1) show "attempts_grow db0 db'" by (rule attempts_grow_trans)
  from laws(2) show "q = Inr a \<Longrightarrow> note_done L db' m a" .
  from laws(1) show "note_done L db m' a' \<Longrightarrow> note_done L db' m' a'" by (rule note_done_grows)
qed

interpretation note_records: record_handler "notification_handlers L" attempts_grow "attempts_grow db0"
    "note_done L" for L db0
proof unfold_locales
  fix h m db db' q m' a
  assume h: "h \<in> notification_handlers L" "h m db = (db', q)" "attempts_grow db0 db"
  show "attempts_grow db0 db'" by (rule attempts_grow_handled(1) [OF h])
  show "note_done L db' m' a" if "note_done L db m' a" using attempts_grow_handled(3) [OF h that] .
next
  fix h m db db' a
  assume h: "h \<in> notification_handlers L" "h m db = (db', Inr a)" "attempts_grow db0 db"
  show "note_done L db' m a" by (rule attempts_grow_handled(2) [OF h refl])
qed (use attempts_grow_trans note_done_grows in blast)+

text \<open>Committing known results changes no state.\<close>

interpretation known_results: record_handler "{\<lambda>m s. (s, Inr (result m))}" "\<lambda>_ _. False" "\<lambda>s. s = s0"
    "\<lambda>_ m a. a = result m" for result s0
  by unfold_locales auto

lemma commit_results_laws:
  assumes "commit_results result B ms db c = (db', c', as, x)"
  shows "db' = db" "(m, a, b) \<in> set as \<Longrightarrow> m \<in> set ms \<and> a = result m" "batch_contract ms c c' as x"
proof -
  note run = assms [unfolded commit_results_def]
  from known_results.records_laws [OF run, of result db] show "db' = db" by blast
  from process_records_contract [OF run] show con: "batch_contract ms c c' as x"
    by (simp add: records_contract_def batch_contract_def of_partition_def)
  show "m \<in> set ms \<and> a = result m" if "(m, a, b) \<in> set as"
    using con known_results.records_laws [OF run, of result db] that
    by (force simp: batch_contract_def)
qed

section \<open>The contract of a notification batch\<close>

lemma normalize_batch_notes:
  assumes "normalize_batch L ms = Inr xs"
  shows "map fst xs = ms \<and> (\<forall>(m, no)\<in>set xs. case no of None \<Rightarrow> isl (note_of L m) | Some n \<Rightarrow> note_of L m = Inr n)"
  using assms
  by (induction L ms arbitrary: xs rule: normalize_batch.induct)
    (fastforce simp: rbind_def split: sum.splits if_splits)+

lemma normalized_member:
  assumes "normalize_batch L ms = Inr xs" "m \<in> set ms"
  shows "case the (map_of xs m) of None \<Rightarrow> isl (note_of L m) | Some n \<Rightarrow> note_of L m = Inr n"
proof -
  from normalize_batch_notes [OF assms(1)] have xs: "map fst xs = ms"
    "\<forall>(m, no)\<in>set xs. case no of None \<Rightarrow> isl (note_of L m) | Some n \<Rightarrow> note_of L m = Inr n" by auto
  have "m \<in> fst ` set xs" using xs(1) assms(2) by (metis set_map)
  then obtain no where no: "map_of xs m = Some no" by (metis map_of_eq_None_iff not_None_eq)
  with map_of_SomeD [OF this] xs(2) show ?thesis by auto
qed

lemma polled_messages_Cons [simp]: "polled_messages ((p, ms) # rs) = ms @ polled_messages rs"
  by (simp add: polled_messages_def)

lemma of_partition_append: "of_partition p (xs @ ys) = of_partition p xs @ of_partition p ys"
  by (simp add: of_partition_def)

lemma of_partition_own: "\<forall>m\<in>set ms. topic_partition m = p \<Longrightarrow> of_partition q ms = (if q = p then ms else [])"
  by (induction ms) auto

lemma of_partition_absent: "polled_ok rs \<Longrightarrow> p \<notin> fst ` set rs \<Longrightarrow> of_partition p (polled_messages rs) = []"
proof (induction rs)
  case (Cons r rs)
  obtain q ms where r: "r = (q, ms)" by fastforce
  with Cons.prems have "polled_ok rs" "\<forall>m\<in>set ms. topic_partition m = q" "p \<noteq> q" "p \<notin> fst ` set rs"
    by (auto simp: polled_ok_def)
  with Cons.IH r of_partition_own [of ms q p] show ?case by (simp add: of_partition_append)
qed (simp add: polled_messages_def)

lemma seek_first_contract:
  fixes x :: "exn option"
  assumes "seek_first B rs c = (c', x)" "polled_ok rs"
  shows "partition_contract (of_partition p (polled_messages rs)) p c c' ([] :: 'o answers) x"
  using assms
proof (induction B rs c arbitrary: c' x rule: seek_first.induct)
  case (1 B c)
  then show ?case by (simp add: polled_messages_def partition_contract_refl)
next
  case (2 B q ms rs c)
  have ok: "polled_ok rs" "\<forall>m\<in>set ms. topic_partition m = q" "q \<notin> fst ` set rs"
    using "2.prems"(2) by (auto simp: polled_ok_def)
  have here: "of_partition p (polled_messages ((q, ms) # rs))
      = (if p = q then ms else of_partition p (polled_messages rs))"
    using of_partition_absent [OF ok(1,3)] by (simp add: of_partition_append of_partition_own [OF ok(2)])
  show ?case
  proof (cases ms)
    case Nil
    with 2 ok here show ?thesis
      using of_partition_absent [OF ok(1,3)] by (cases "p = q") auto
  next
    case (Cons m ms')
    obtain c1 r where seek: "seek_failed_record (b_seek B m) m c = (c1, r)" by fastforce
    have q: "topic_partition m = q" using ok(2) Cons by simp
    have kept: "kept p c c1" if "p \<noteq> q" using seek_outcome(1,2) [OF seek] that q by (simp add: kept_def)
    show ?thesis
    proof (cases r)
      case (Inl e)
      with "2.prems"(1) Cons seek have x: "c' = c1" "x = Some e" by auto
      then have "partition_contract ys p c c' ([] :: 'o answers) x" for ys
        using seek_outcome(1) [OF seek] by (simp add: partition_contract_def)
      then show ?thesis .
    next
      case (Inr y)
      with "2.prems"(1) Cons seek have rest: "seek_first B rs c1 = (c', x)" by simp
      note IH = "2.IH"(2) [OF Cons seek [symmetric] Inr rest ok(1)]
      show ?thesis
      proof (cases "p = q")
        case True
        with IH of_partition_absent [OF ok(1,3)] have "partition_contract [] q c1 c' ([] :: 'o answers) x" by simp
        then have "x = None \<Longrightarrow> position c' q = k_offset m" "committed c' q = committed c q"
          using seek_outcome(1,3) [OF seek] q Inr by (simp_all add: partition_contract_def)
        then have "partition_contract (m # ms') q c c' ([] :: 'o answers) x" by (intro partition_contract_rewound) simp_all
        with True here Cons show ?thesis by simp
      next
        case False
        with IH here kept partition_contract_kept show ?thesis by simp
      qed
    qed
  qed
qed

lemma batch_insert_outcome:
  assumes "insert_notification_attempt_batch G D ns db = (db', q)" "store_ok db" "distinct_rows D"
  shows "attempts_grow db db'" "q = Inr T \<Longrightarrow> T \<subseteq> attempted db'" "rollback db db' = db"
proof -
  let ?ns = "attempt_targets D db ns"
  let ?fold = "fold (\<lambda>n. add_attempt (n_event_id n) (n_stream_id n) (stored_note G n)) ?ns db"
  note grown = add_attempts [OF assms(2) attempt_targets_keys(2) [OF assms(3)], of "stored_note G"]
  have ids: "message_ids (fold (\<lambda>n. add_attempt (n_event_id n) (n_stream_id n) (f n)) ns db) = message_ids db
      \<and> user_ids (fold (\<lambda>n. add_attempt (n_event_id n) (n_stream_id n) (f n)) ns db) = user_ids db
      \<and> room_ids (fold (\<lambda>n. add_attempt (n_event_id n) (n_stream_id n) (f n)) ns db) = room_ids db"
    for f :: "notice \<Rightarrow> obj" and ns
    by (induction ns arbitrary: db) auto
  consider "db' = db" "q = Inr {} \<or> isl q" | "db' = ?fold" "q = Inr (note_key ` set ?ns)"
    using assms(1) by (auto simp: insert_notification_attempt_batch_def split: if_splits)
  then have "attempts_grow db db' \<and> (q = Inr T \<longrightarrow> T \<subseteq> attempted db') \<and> rollback db db' = db" for T
  proof cases
    case 1
    with assms(2) show ?thesis by (auto simp: attempts_grow_def rollback_id)
  next
    case 2
    with grown ids show ?thesis by (auto simp: attempts_grow_def rollback_id)
  qed
  then show "attempts_grow db db'" "q = Inr T \<Longrightarrow> T \<subseteq> attempted db'" "rollback db db' = db" by blast+
qed

lemma run_batch_outcome:
  assumes "run_tx f (insert_notification_attempt_batch G D ns) db = (db', q)" "store_ok db" "distinct_rows D"
  shows "attempts_grow db db' \<and> (\<forall>T. q = Inr T \<longrightarrow> T \<subseteq> attempted db')"
  using assms(1)
proof (cases rule: run_tx_cases)
  case (unchanged e)
  with assms(2) show ?thesis by (simp add: attempts_grow_def)
next
  case (rolled_back mid e)
  with batch_insert_outcome(3) [OF rolled_back(2) assms(2,3)] assms(2) show ?thesis
    by (simp add: attempts_grow_def)
next
  case (not_committed mid y e)
  with batch_insert_outcome(3) [OF not_committed(2) assms(2,3)] assms(2) show ?thesis
    by (simp add: attempts_grow_def)
next
  case (ack_lost y e)
  with batch_insert_outcome(1) [OF ack_lost(2) assms(2,3)] show ?thesis by simp
next
  case (committed y)
  with batch_insert_outcome(1,2) [OF committed(2) assms(2,3)] show ?thesis by simp
qed

lemma store_attempt_batch_outcome:
  assumes "store_attempt_batch G D f1 rc f2 ns db = (db', q)" "store_ok db" "distinct_rows D"
  shows "attempts_grow db db' \<and> (\<forall>T. q = Inr T \<longrightarrow> T \<subseteq> attempted db')"
proof (cases "ns = []")
  case True
  with assms(1,2) show ?thesis by (auto simp: store_attempt_batch_def attempts_grow_def)
next
  case False
  let ?body = "insert_notification_attempt_batch G D ns"
  obtain db1 q1 where r1: "run_tx f1 ?body db = (db1, q1)" by fastforce
  note out1 = run_batch_outcome [OF r1 assms(2,3)]
  from False assms(1) have "try_twice (\<lambda>e. e = DataError) f1 rc f2 ?body db = (db', q)"
    by (simp add: store_attempt_batch_def)
  from try_twice_cases [OF this r1]
  consider "db' = db1" "q = q1" | "db' = db1" "isl q" | "run_tx f2 ?body db1 = (db', q)" by blast
  then show ?thesis
  proof cases
    case 3
    with out1 run_batch_outcome [OF 3 _ assms(3)] attempts_grow_trans show ?thesis
      by (auto simp: attempts_grow_def)
  qed (use out1 in auto)
qed

definition notification_batches :: "pylib \<Rightarrow> (db, ustr) batch set" where
  "notification_batches L =
     {f. \<exists>G D N F B. distinct_rows D \<and> f = process_notification_batch L G D N F B}"

lemma batch_result_done:
  assumes "normalize_batch L ms = Inr xs" "m \<in> set ms" "T \<subseteq> attempted db"
  shows "note_done L db m (batch_result T (the (map_of xs m)))"
  using normalized_member [OF assms(1,2)] assms(3)
  by (auto simp: note_done_def batch_result_def split: option.splits sum.splits)

lemma batch_contract_none: "batch_contract ms c c [] (Some e)" "batch_contract [] c c [] x"
  by (auto simp: batch_contract_def partition_contract_def)

lemma notification_batch_laws:
  assumes "f \<in> notification_batches L" "f rs db c = (db', c', as, x)"
  shows "polled_ok rs \<Longrightarrow> batch_contract (polled_messages rs) c c' as x"
    and "store_ok db \<Longrightarrow> attempts_grow db db' \<and> (\<forall>(m, a, b)\<in>set as. note_done L db' m a)"
proof -
  from assms obtain G D N F B where D: "distinct_rows D"
    and run: "process_notification_batch L G D N F B rs db c = (db', c', as, x)"
    by (auto simp: notification_batches_def)
  let ?ms = "polled_messages rs"
  have refl: "store_ok db \<Longrightarrow> attempts_grow db db" by (simp add: attempts_grow_def)
  have "(polled_ok rs \<longrightarrow> batch_contract ?ms c c' as x)
    \<and> (store_ok db \<longrightarrow> attempts_grow db db' \<and> (\<forall>(m, a, b)\<in>set as. note_done L db' m a))"
  proof (cases "?ms = []")
    case True
    with run have "db' = db" "c' = c" "as = []" "x = None"
      by (simp_all add: process_notification_batch_def)
    with True refl show ?thesis by (simp add: batch_contract_none)
  next
    case False
    show ?thesis
    proof (cases "normalize_batch L ?ms")
      case (Inl e)
      with run False have "db' = db" "c' = c" "as = []" "x = Some e"
        by (simp_all add: process_notification_batch_def)
      with refl show ?thesis by (simp add: batch_contract_none)
    next
      case xs: (Inr xs)
      obtain mid q where st: "store_attempt_batch G D (e_first N) (e_reconnect N) (e_second N)
          (valid_payloads xs) db = (mid, q)" by fastforce
      note out = store_attempt_batch_outcome [OF st _ D]
      show ?thesis
      proof (cases q)
        case (Inl e)
        show ?thesis
        proof (cases "e = DataError")
          case True
          with run False xs st Inl
          have run': "process_worker_batch (handle_notification_record L G F) B rs mid c = (db', c', as, x)"
            by (simp add: process_notification_batch_def)
          have h: "handle_notification_record L G F \<in> notification_handlers L"
            by (auto simp: notification_handlers_def)
          have "attempts_grow mid db' \<and> (\<forall>(m, a, b)\<in>set as. note_done L db' m a)" if "store_ok mid"
            using note_records.records_laws [OF run' [unfolded process_worker_batch_def] h, of mid] that
            by (simp add: attempts_grow_def)
          with out attempts_grow_trans process_worker_batch_contract [OF run'] show ?thesis
            by (auto simp: attempts_grow_def)
        next
          case other: False
          with run False xs st Inl have eqs: "seek_first B rs c = (c', x)" "db' = mid" "as = []"
            by (auto simp: process_notification_batch_def split: prod.splits)
          have "polled_ok rs \<Longrightarrow> batch_contract ?ms c c' ([] :: ustr answers) x"
            using seek_first_contract [OF eqs(1), where 'o = ustr, unfolded of_partition_def]
            unfolding batch_contract_def by simp
          with eqs out show ?thesis by simp
        qed
      next
        case (Inr T)
        with run False xs st have com: "commit_results (\<lambda>m. batch_result T (the (map_of xs m))) B ?ms mid c
            = (db', c', as, x)" by (simp add: process_notification_batch_def)
        note laws = commit_results_laws [OF com]
        have "note_done L db' m a" if "(m, a, b) \<in> set as" "store_ok db" for m a b
          using laws(1) laws(2) [OF that(1)] out [OF that(2)] Inr batch_result_done [OF xs] by simp
        with laws(1,3) out show ?thesis by auto
      qed
    qed
  qed
  then show "polled_ok rs \<Longrightarrow> batch_contract ?ms c c' as x"
    "store_ok db \<Longrightarrow> attempts_grow db db' \<and> (\<forall>(m, a, b)\<in>set as. note_done L db' m a)" by blast+
qed

interpretation notifications: batch_processor "notification_batches L" attempts_grow store_ok "note_done L" for L
proof unfold_locales
  fix f rs db c db' c' as x m a b
  assume f: "f \<in> notification_batches L" "f rs db c = (db', c', as, x)"
  show "batch_contract (polled_messages rs) c c' as x" if "polled_ok rs"
    by (rule notification_batch_laws(1) [OF f that])
  assume "store_ok db"
  note laws = notification_batch_laws(2) [OF f this]
  show "store_ok db'" using laws by (simp add: attempts_grow_def)
  show "note_done L db' m a" if "(m, a, b) \<in> set as" using laws that by blast
  show "note_done L db' m a" if "note_done L db m a" using laws note_done_grows that by blast
next
  fix db db' m a
  show "attempts_grow db db' \<Longrightarrow> store_ok db \<Longrightarrow> store_ok db'" by (simp add: attempts_grow_def)
  show "attempts_grow db db' \<Longrightarrow> store_ok db \<Longrightarrow> note_done L db m a \<Longrightarrow> note_done L db' m a"
    using note_done_grows by blast
qed

text \<open>
  C7: Every notification the worker commits was attempted. However batches succeed, fail on a
  database error, fall back to single records, are cut short by a crash or are redelivered, a
  committed offset above a record means it was answered, and a success still has its attempt in
  the table; only payloads that were rejected have none.
\<close>

theorem notification_committed_is_attempted:
  assumes "loop_runs (notification_batches L) attempts_grow topic (db0, c0, []) (db, c, h)"
    and "store_ok db0"
    and "\<forall>m\<in>topic. position c0 (topic_partition m) \<le> k_offset m
          \<and> committed c0 (topic_partition m) \<le> k_offset m"
    and "m \<in> topic" "k_offset m < committed c (topic_partition m)"
  shows "store_ok db \<and> (\<exists>a b. (m, a, b) \<in> set h \<and> note_done L db m a)"
  using notifications.committed_means_done [OF assms] .

section \<open>The replay loop\<close>

























section \<open>Concrete instances\<close>

text \<open>A topic of one record, polled and processed.\<close>

definition start_at :: "kafka_message \<Rightarrow> consumer" where
  "start_at m = \<lparr>committed = (\<lambda>_. k_offset m), position = (\<lambda>_. k_offset m)\<rparr>"

definition polled_at :: "kafka_message \<Rightarrow> consumer" where
  "polled_at m = (start_at m)\<lparr>position := (\<lambda>_. k_offset m)(topic_partition m := k_offset m + 1)\<rparr>"

definition one_record :: "kafka_message \<Rightarrow> polled" where
  "one_record m = [(topic_partition m, [m])]"

definition no_faults :: batch_env where
  "no_faults = \<lparr>b_commit = \<lambda>_. Committed, b_seek = \<lambda>_. None\<rparr>"

lemma start_at_before: "\<forall>x\<in>{m}. position (start_at m) (topic_partition x) \<le> k_offset x
    \<and> committed (start_at m) (topic_partition x) \<le> k_offset x"
  by (simp add: start_at_def)

lemma one_record_poll: "poll_ok {m} (start_at m) (one_record m) (polled_at m)"
  by (auto simp: poll_ok_def polled_at_def start_at_def one_record_def polled_ok_def polled_messages_def)

lemma one_record_run:
  assumes "f \<in> batches" "f (one_record m) s (polled_at m) = (s', c', as, None)"
  shows "loop_runs batches other {m} (s, start_at m, []) (s', c', as)"
  using loop_step.processed [OF assms(1) one_record_poll assms(2), of other "[]"] by auto

lemma one_record_handled:
  assumes "h m s = (s', Inr a)"
  shows "\<exists>c'. process_records h no_faults (polled_messages (one_record m)) {} s (polled_at m)
      = (s', c', [(m, a, True)], None) \<and> k_offset m < committed c' (topic_partition m)"
  using assms
  by (auto simp: one_record_def polled_messages_def commit_processed_record_def no_faults_def)




definition sample_note_record :: kafka_message where
  "sample_note_record = \<lparr>k_topic = u ''notifications'', k_partition = 0, k_offset = 2, k_timestamp = None,
     k_key = None, k_value = Value (JObj (note_obj sample_notice))\<rparr>"

definition sample_note_env :: note_env where
  "sample_note_env = \<lparr>e_first = Commit_ok, e_reconnect = None, e_second = Commit_ok\<rparr>"

lemma sample_note_record_at:
  "k_offset sample_note_record = 2" "topic_partition sample_note_record = (u ''notifications'', 0)"
  by (simp_all add: sample_note_record_def topic_partition_def)

theorem notification_committed_is_attempted_witness:
  "\<exists>db c h. loop_runs (notification_batches sample_lib) attempts_grow {sample_note_record}
       (sample_db1, start_at sample_note_record, []) (db, c, h)
     \<and> 2 < committed c (u ''notifications'', 0)
     \<and> (\<exists>a b. (sample_note_record, a, b) \<in> set h \<and> note_done sample_lib db sample_note_record a)"
proof -
  let ?m = sample_note_record
  let ?f = "process_notification_batch sample_lib sample_pg (distinct_on note_key) sample_note_env
      (\<lambda>_. sample_note_env) no_faults"
  have decoded: "note_of sample_lib ?m = Inr sample_notice"
    by (simp add: note_of_def sample_note_record_def load_raw_def normalize_note_obj [OF sample_notice_ok])
  then have norm: "normalize_batch sample_lib (polled_messages (one_record ?m)) = Inr [(?m, Some sample_notice)]"
    by (simp add: one_record_def polled_messages_def)
  obtain db' T where st: "store_attempt_batch sample_pg (distinct_on note_key) Commit_ok None Commit_ok
      [sample_notice] sample_db1 = (db', Inr T)"
    by (simp add: store_attempt_batch_def try_twice_def run_tx_def insert_notification_attempt_batch_def)
  let ?a = "batch_result T (Some sample_notice)"
  from one_record_handled [of "\<lambda>m s. (s, Inr (batch_result T (the (map_of [(?m, Some sample_notice)] m))))" ?m db' db' ?a]
  obtain c' where run: "?f (one_record ?m) sample_db1 (polled_at ?m) = (db', c', [(?m, ?a, True)], None)"
    and com: "k_offset ?m < committed c' (topic_partition ?m)"
    using norm st
    by (auto simp: process_notification_batch_def sample_note_env_def commit_results_def valid_payloads_def
        one_record_def polled_messages_def)
  have "?f \<in> notification_batches sample_lib"
    unfolding notification_batches_def using distinct_on_rows by blast
  note loop = one_record_run [where other = attempts_grow, OF this run]
  from notification_committed_is_attempted [OF loop sample_db1_ok start_at_before _ com] loop
    com [unfolded sample_note_record_at] show ?thesis by blast
qed




end
