(* ===== verification/Db_Pool.thy ===== *)
theory Db_Pool
  imports Py_Json
begin

text \<open>
  \<open>portfolio/db.py\<close>: the connection pool that can be replaced while connections of the old one
  are still in use. Every section under \<open>_pool_lock\<close> is one atomic step; what the threads of a
  process do is any interleaving of these steps. The second half is the status of the replicated
  database that readiness and \<open>ping_db\<close> read.
\<close>

section \<open>State\<close>

text \<open>
  \<open>ps_current\<close> is \<open>_pool\<close>, \<open>ps_active\<close> is \<open>_pool_active\<close>, \<open>ps_retired\<close> the keys of
  \<open>_retired_pools\<close> (a pool is its identity) and \<open>ps_in_use\<close> the gauge. \<open>ps_closed\<close>, \<open>ps_out\<close> and
  \<open>ps_created\<close> record what happened to the pools: the pools closed, the connections of each that
  callers hold, and the pools created so far.
\<close>

record pool_state =
  ps_current :: "nat option"
  ps_active :: "nat \<rightharpoonup> nat"
  ps_retired :: "nat set"
  ps_in_use :: int
  ps_closed :: "nat set"
  ps_out :: "nat \<Rightarrow> nat"
  ps_created :: "nat set"

definition no_pools :: pool_state where
  "no_pools = \<lparr>ps_current = None, ps_active = Map.empty, ps_retired = {}, ps_in_use = 0,
     ps_closed = {}, ps_out = \<lambda>_. 0, ps_created = {}\<rparr>"

section \<open>Operations under the lock\<close>

definition active_of :: "pool_state \<Rightarrow> nat \<Rightarrow> nat \<Rightarrow> nat" where
  "active_of S p d = (case ps_active S p of None \<Rightarrow> d | Some n \<Rightarrow> n)"

definition install_pool :: "nat \<Rightarrow> pool_state \<Rightarrow> pool_state" where
  "install_pool new S0 =
     (let old = ps_current S0;
          S = S0\<lparr>ps_current := Some new, ps_created := insert new (ps_created S0),
                 ps_active := (ps_active S0)(new \<mapsto> active_of S0 new 0)\<rparr> in
      case old of
        None \<Rightarrow> S
      | Some p \<Rightarrow>
          if p = new then S
          else if active_of S p 0 = 0
          then S\<lparr>ps_closed := insert p (ps_closed S), ps_active := (ps_active S)(p := None)\<rparr>
          else S\<lparr>ps_retired := insert p (ps_retired S)\<rparr>)"

text \<open>\<open>available\<close>: \<open>getconn\<close> hands out a connection (otherwise it raises).\<close>

definition checkout_connection :: "bool \<Rightarrow> pool_state \<Rightarrow> pool_state \<times> (exn + nat)" where
  "checkout_connection available S =
     (case ps_current S of
        None \<Rightarrow> (S, Inl PoolError)
      | Some p \<Rightarrow>
          if \<not> available then (S, Inl PoolError)
          else
            (S\<lparr>ps_active := (ps_active S)(p \<mapsto> active_of S p 0 + 1),
               ps_out := (ps_out S)(p := ps_out S p + 1), ps_in_use := ps_in_use S + 1\<rparr>, Inr p))"

text \<open>
  \<open>putconn\<close> may raise; the accounting is in a \<open>finally\<close>, so it runs all the same.
  \<open>max(0, n - 1)\<close> is the truncated subtraction of \<open>nat\<close>.
\<close>

definition return_connection :: "exn option \<Rightarrow> nat \<Rightarrow> pool_state \<Rightarrow> pool_state \<times> (exn + unit)" where
  "return_connection putconn p S0 =
     (let remaining = active_of S0 p 1 - 1;
          S1 = S0\<lparr>ps_active := (ps_active S0)(p \<mapsto> remaining),
                  ps_out := (ps_out S0)(p := ps_out S0 p - 1)\<rparr>;
          S2 = (if remaining = 0 \<and> p \<in> ps_retired S1
                then S1\<lparr>ps_retired := ps_retired S1 - {p}, ps_closed := insert p (ps_closed S1),
                        ps_active := (ps_active S1)(p := None)\<rparr>
                else S1) in
      (S2\<lparr>ps_in_use := ps_in_use S2 - 1\<rparr>, case putconn of None \<Rightarrow> Inr () | Some e \<Rightarrow> Inl e))"

definition close_pool :: "pool_state \<Rightarrow> pool_state" where
  "close_pool S =
     (let pools = ps_retired S \<union> set_option (ps_current S) in
      S\<lparr>ps_retired := {}, ps_current := None, ps_active := Map.empty,
        ps_closed := ps_closed S \<union> pools\<rparr>)"

section \<open>Operations built on them\<close>

text \<open>\<open>created\<close>: the new pool, or the exception of its creation.\<close>

definition reconnect_pool :: "exn + nat \<Rightarrow> pool_state \<Rightarrow> pool_state \<times> (exn + unit)" where
  "reconnect_pool created S =
     (case created of Inl e \<Rightarrow> (S, Inl e) | Inr p \<Rightarrow> (install_pool p S, Inr ()))"

text \<open>The outcomes of the attempts, one per retry; sleeping in between changes nothing.\<close>

fun init_pool_with_retry :: "(exn + nat) list \<Rightarrow> pool_state \<Rightarrow> pool_state \<times> (exn + unit)" where
  "init_pool_with_retry [] S = (S, Inl (RuntimeError (u ''DB pool init failed'')))"
| "init_pool_with_retry (Inr p # as) S = (install_pool p S, Inr ())"
| "init_pool_with_retry (Inl e # as) S = init_pool_with_retry as S"

text \<open>The first part of \<open>get_conn\<close>: connect when there is no pool, then check a connection out.\<close>

definition acquire :: "exn + nat \<Rightarrow> bool \<Rightarrow> pool_state \<Rightarrow> pool_state \<times> (exn + nat)" where
  "acquire created available S =
     (case ps_current S of
        Some _ \<Rightarrow> checkout_connection available S
      | None \<Rightarrow>
          (case reconnect_pool created S of
             (S', Inl e) \<Rightarrow> (S', Inl e)
           | (S', Inr _) \<Rightarrow> checkout_connection available S'))"

text \<open>
  The connection during one use: whether it was closed when it was handed out, what the body
  did, whether it is closed afterwards, and whether its rollback works.
\<close>

record conn_use =
  u_closed :: bool
  u_body :: "exn + unit"
  u_closed_after :: bool
  u_rollback :: "exn option"

fun is_connection_error :: "exn \<Rightarrow> bool" where
  "is_connection_error OperationalError = True"
| "is_connection_error InterfaceError = True"
| "is_connection_error _ = False"

definition use_outcome :: "conn_use \<Rightarrow> exn + unit" where
  "use_outcome x = (if u_closed x then Inl InterfaceError else u_body x)"

definition rolled_back :: "conn_use \<Rightarrow> bool" where
  "rolled_back x \<longleftrightarrow> \<not> u_closed_after x \<and> u_rollback x = None"

text \<open>Whether the connection is closed instead of put back.\<close>

definition discard :: "conn_use \<Rightarrow> bool" where
  "discard x \<longleftrightarrow>
     u_closed x
     \<or> (case use_outcome x of Inl e \<Rightarrow> is_connection_error e | Inr _ \<Rightarrow> False)
     \<or> u_closed_after x \<or> u_rollback x \<noteq> None"

text \<open>One \<open>with get_conn()\<close> of a thread that runs alone, with the flag \<open>putconn\<close> was given.\<close>

definition get_conn ::
    "exn + nat \<Rightarrow> bool \<Rightarrow> conn_use \<Rightarrow> exn option \<Rightarrow> pool_state \<Rightarrow> pool_state \<times> (exn + unit) \<times> bool option" where
  "get_conn created available x putconn S =
     (case acquire created available S of
        (S', Inl e) \<Rightarrow> (S', Inl e, None)
      | (S', Inr p) \<Rightarrow>
          (case return_connection putconn p S' of
             (S'', Inl e) \<Rightarrow> (S'', Inl e, Some (discard x))
           | (S'', Inr _) \<Rightarrow> (S'', use_outcome x, Some (discard x))))"

section \<open>Every interleaving\<close>

text \<open>
  The steps of the threads: a pool is created and installed (its identity is new), a connection
  is checked out, or not, and one that is out is given back.
\<close>

inductive pool_step :: "pool_state \<Rightarrow> pool_state \<Rightarrow> bool" where
  installed: "p \<notin> ps_created S \<Longrightarrow> pool_step S (install_pool p S)"
| checked_out: "checkout_connection a S = (S', r) \<Longrightarrow> pool_step S S'"
| returned: "0 < ps_out S p \<Longrightarrow> return_connection x p S = (S', r) \<Longrightarrow> pool_step S S'"

inductive_cases pool_stepE: "pool_step S S'"

definition pool_inv :: "pool_state \<Rightarrow> bool" where
  "pool_inv S \<longleftrightarrow>
     (\<forall>p. active_of S p 0 = ps_out S p)
     \<and> (\<forall>p\<in>ps_closed S. ps_out S p = 0)
     \<and> (\<forall>p\<in>ps_retired S. 0 < ps_out S p \<and> ps_current S \<noteq> Some p \<and> p \<notin> ps_closed S)
     \<and> (\<forall>p. ps_current S = Some p \<longrightarrow> p \<in> ps_created S \<and> p \<notin> ps_closed S)
     \<and> ps_created S = ps_closed S \<union> ps_retired S \<union> set_option (ps_current S)
     \<and> finite (ps_created S)
     \<and> (\<forall>p. p \<notin> ps_created S \<longrightarrow> ps_out S p = 0)
     \<and> ps_in_use S = int (\<Sum>p\<in>ps_created S. ps_out S p)"

lemma pool_invD:
  assumes "pool_inv S"
  shows "active_of S p 0 = ps_out S p"
    and "p \<in> ps_closed S \<Longrightarrow> ps_out S p = 0"
    and "p \<in> ps_retired S \<Longrightarrow> 0 < ps_out S p \<and> ps_current S \<noteq> Some p \<and> p \<notin> ps_closed S"
    and "ps_current S = Some p \<Longrightarrow> p \<in> ps_created S \<and> p \<notin> ps_closed S"
    and "ps_created S = ps_closed S \<union> ps_retired S \<union> set_option (ps_current S)"
    and "finite (ps_created S)"
    and "p \<notin> ps_created S \<Longrightarrow> ps_out S p = 0"
    and "ps_in_use S = int (\<Sum>p\<in>ps_created S. ps_out S p)"
  using assms unfolding pool_inv_def by blast+

lemma pool_invI:
  assumes "\<And>p. active_of S p 0 = ps_out S p" "\<And>p. p \<in> ps_closed S \<Longrightarrow> ps_out S p = 0"
    and "\<And>p. p \<in> ps_retired S \<Longrightarrow> 0 < ps_out S p \<and> ps_current S \<noteq> Some p \<and> p \<notin> ps_closed S"
    and "\<And>p. ps_current S = Some p \<Longrightarrow> p \<in> ps_created S \<and> p \<notin> ps_closed S"
    and "ps_created S = ps_closed S \<union> ps_retired S \<union> set_option (ps_current S)"
    and "finite (ps_created S)" "\<And>p. p \<notin> ps_created S \<Longrightarrow> ps_out S p = 0"
    and "ps_in_use S = int (\<Sum>p\<in>ps_created S. ps_out S p)"
  shows "pool_inv S"
  using assms unfolding pool_inv_def by blast

lemma no_pools_inv: "pool_inv no_pools"
  by (simp add: pool_inv_def no_pools_def active_of_def)

lemma install_pool_inv:
  assumes "pool_inv S" "p \<notin> ps_created S"
  shows "pool_inv (install_pool p S)"
proof -
  note D = pool_invD [OF assms(1)]
  have out: "ps_out S p = 0" "active_of S p 0 = 0" using D(1,7) assms(2) by simp_all
  have new: "p \<notin> ps_closed S" "p \<notin> ps_retired S" "ps_current S \<noteq> Some p"
    using assms(2) unfolding D(5) by auto
  have sum: "(\<Sum>q\<in>insert p (ps_created S). ps_out S q) = (\<Sum>q\<in>ps_created S. ps_out S q)"
    using D(6) assms(2) out(1) by simp
  let ?S = "install_pool p S"
  have same: "ps_out ?S = ps_out S" "ps_in_use ?S = ps_in_use S" "ps_current ?S = Some p"
    "ps_created ?S = insert p (ps_created S)"
    by (auto simp: install_pool_def Let_def split: option.splits)
  have act: "active_of ?S q 0 = ps_out S q" for q
  proof -
    have "active_of ?S q 0 = active_of S q 0"
      using out(2) by (auto simp: install_pool_def Let_def active_of_def split: option.splits)
    then show ?thesis using D(1) by simp
  qed
  have sets: "(ps_closed ?S = ps_closed S \<and> ps_retired ?S = ps_retired S \<and> ps_current S = None)
    \<or> (\<exists>q. ps_current S = Some q \<and> q \<noteq> p \<and> ps_out S q = 0 \<and> ps_closed ?S = insert q (ps_closed S)
          \<and> ps_retired ?S = ps_retired S)
    \<or> (\<exists>q. ps_current S = Some q \<and> q \<noteq> p \<and> 0 < ps_out S q \<and> ps_closed ?S = ps_closed S
          \<and> ps_retired ?S = insert q (ps_retired S))"
    using new(3) D(1) by (cases "ps_current S") (auto simp: install_pool_def Let_def active_of_def)
  show ?thesis
  proof (rule pool_invI)
    show "active_of ?S q 0 = ps_out ?S q" for q using act same(1) by simp
    show "ps_out ?S q = 0" if "q \<in> ps_closed ?S" for q using that sets D(2) same(1) by auto
    show "0 < ps_out ?S q \<and> ps_current ?S \<noteq> Some q \<and> q \<notin> ps_closed ?S" if "q \<in> ps_retired ?S" for q
      using that sets D(3) [of q] D(4) [of q] same(1,3) new(2) by auto
    show "q \<in> ps_created ?S \<and> q \<notin> ps_closed ?S" if "ps_current ?S = Some q" for q
      using that sets same(3,4) new(1) by auto
    show "ps_created ?S = ps_closed ?S \<union> ps_retired ?S \<union> set_option (ps_current ?S)"
      using sets D(5) same(3,4) by auto
    show "finite (ps_created ?S)" using D(6) same(4) by simp
    show "ps_out ?S q = 0" if "q \<notin> ps_created ?S" for q using that D(7) same(1,4) by simp
    show "ps_in_use ?S = int (\<Sum>q\<in>ps_created ?S. ps_out ?S q)" using sum D(8) same by simp
  qed
qed

lemma sum_update_out:
  fixes f :: "nat \<Rightarrow> nat"
  assumes "finite A" "p \<in> A"
  shows "sum (f(p := v)) A + f p = sum f A + v"
proof -
  have "sum (f(p := v)) (A - {p}) = sum f (A - {p})" by (rule sum.cong) auto
  then show ?thesis using sum.remove [OF assms, of f] sum.remove [OF assms, of "f(p := v)"] by simp
qed

lemma checkout_connection_inv:
  assumes "pool_inv S" "checkout_connection a S = (S', r)"
  shows "pool_inv S'"
proof (cases "S' = S")
  case True
  with assms(1) show ?thesis by simp
next
  case False
  with assms(2) obtain p where p: "ps_current S = Some p" and S': "S' = S\<lparr>ps_active := (ps_active S)(p \<mapsto> active_of S p 0 + 1),
      ps_out := (ps_out S)(p := ps_out S p + 1), ps_in_use := ps_in_use S + 1\<rparr>"
    by (auto simp: checkout_connection_def split: option.splits if_splits)
  note D = pool_invD [OF assms(1)]
  from D(4) [OF p] D(6) sum_update_out [of "ps_created S" p "ps_out S" "ps_out S p + 1"]
  have gauge: "ps_in_use S' = int (\<Sum>q\<in>ps_created S'. ps_out S' q)"
    unfolding S' using D(8) by simp
  have "ps_active S' = (ps_active S)(p \<mapsto> ps_out S p + 1)" "ps_out S' = (ps_out S)(p := ps_out S p + 1)"
      "ps_created S' = ps_created S" "ps_closed S' = ps_closed S"
      "ps_retired S' = ps_retired S" "ps_current S' = ps_current S" using D(1) by (simp_all add: S')
  note eqs = this
  show ?thesis
  proof (rule pool_invI, unfold eqs)
    show "active_of S' q 0 = ((ps_out S)(p := ps_out S p + 1)) q" for q
      using D(1) [of q] by (simp add: active_of_def eqs)
    show "((ps_out S)(p := ps_out S p + 1)) q = 0" if "q \<in> ps_closed S" for q
      using D(2) [OF that] D(4) [OF p] that by auto
    show "0 < ((ps_out S)(p := ps_out S p + 1)) q \<and> ps_current S \<noteq> Some q \<and> q \<notin> ps_closed S"
      if "q \<in> ps_retired S" for q using D(3) [OF that] by simp
    show "((ps_out S)(p := ps_out S p + 1)) q = 0" if "q \<notin> ps_created S" for q
      using D(7) [OF that] D(4) [OF p] that by auto
    show "ps_in_use S' = int (sum ((ps_out S)(p := ps_out S p + 1)) (ps_created S))"
      using gauge eqs(2,3) by simp
  qed (fact D(4), fact D(5), fact D(6))
qed

lemma return_connection_inv:
  assumes "pool_inv S" "0 < ps_out S p" "return_connection x p S = (S', r)"
  shows "pool_inv S'"
proof -
  note D = pool_invD [OF assms(1)]
  have act: "active_of S p 1 = ps_out S p"
    using D(1) [of p] assms(2) by (auto simp: active_of_def split: option.splits)
  have created: "p \<in> ps_created S" using D(7) assms(2) by (metis less_numeral_extra(3))
  have open_pool: "p \<notin> ps_closed S" using D(2) assms(2) by force
  have gauge: "ps_in_use S - 1 = int (\<Sum>q\<in>ps_created S. ((ps_out S)(p := ps_out S p - 1)) q)"
    using sum_update_out [OF D(6) created, of "ps_out S" "ps_out S p - 1"] D(8) assms(2)
    by (simp del: of_nat_sum)
  show ?thesis
  proof (cases "ps_out S p = 1 \<and> p \<in> ps_retired S")
    case True
    with assms(3) act have "S' = S\<lparr>ps_active := (ps_active S)(p := None), ps_out := (ps_out S)(p := 0),
        ps_retired := ps_retired S - {p}, ps_closed := insert p (ps_closed S), ps_in_use := ps_in_use S - 1\<rparr>"
      by (auto simp: return_connection_def Let_def)
    then have eqs: "ps_active S' = (ps_active S)(p := None)" "ps_out S' = (ps_out S)(p := 0)"
      "ps_in_use S' = ps_in_use S - 1" "ps_created S' = ps_created S" "ps_closed S' = insert p (ps_closed S)"
      "ps_retired S' = ps_retired S - {p}" "ps_current S' = ps_current S" by simp_all
    have retired: "p \<in> ps_retired S" using True ..
    show ?thesis
    proof (rule pool_invI, unfold eqs)
      show "active_of S' q 0 = ((ps_out S)(p := 0)) q" for q
        using D(1) [of q] by (simp add: active_of_def eqs)
      show "((ps_out S)(p := 0)) q = 0" if "q \<in> insert p (ps_closed S)" for q using D(2) that by auto
      show "0 < ((ps_out S)(p := 0)) q \<and> ps_current S \<noteq> Some q \<and> q \<notin> insert p (ps_closed S)"
        if "q \<in> ps_retired S - {p}" for q using D(3) [of q] that by auto
      show "q \<in> ps_created S \<and> q \<notin> insert p (ps_closed S)" if "ps_current S = Some q" for q
        using D(4) [OF that] D(3) [OF retired] that by auto
      show "((ps_out S)(p := 0)) q = 0" if "q \<notin> ps_created S" for q using D(7) that by simp
      show "ps_created S = insert p (ps_closed S) \<union> (ps_retired S - {p}) \<union> set_option (ps_current S)"
        using D(5) retired by auto
      show "ps_in_use S - 1 = int (sum ((ps_out S)(p := 0)) (ps_created S))"
        using gauge True by simp
    qed (fact D(6))
  next
    case False
    with assms(3) act assms(2) have "S' = S\<lparr>ps_active := (ps_active S)(p \<mapsto> ps_out S p - 1),
        ps_out := (ps_out S)(p := ps_out S p - 1), ps_in_use := ps_in_use S - 1\<rparr>"
      by (auto simp: return_connection_def Let_def)
    then have eqs: "ps_active S' = (ps_active S)(p \<mapsto> ps_out S p - 1)" "ps_out S' = (ps_out S)(p := ps_out S p - 1)"
      "ps_in_use S' = ps_in_use S - 1" "ps_created S' = ps_created S" "ps_closed S' = ps_closed S"
      "ps_retired S' = ps_retired S" "ps_current S' = ps_current S" by simp_all
    show ?thesis
    proof (rule pool_invI, unfold eqs)
      show "active_of S' q 0 = ((ps_out S)(p := ps_out S p - 1)) q" for q
        using D(1) [of q] by (simp add: active_of_def eqs)
      show "((ps_out S)(p := ps_out S p - 1)) q = 0" if "q \<in> ps_closed S" for q using D(2) [OF that] that by (cases "q = p") auto
      show "0 < ((ps_out S)(p := ps_out S p - 1)) q \<and> ps_current S \<noteq> Some q \<and> q \<notin> ps_closed S"
        if "q \<in> ps_retired S" for q using D(3) [OF that] False that assms(2) by auto
      show "q \<in> ps_created S \<and> q \<notin> ps_closed S" if "ps_current S = Some q" for q by (rule D(4) [OF that])
      show "((ps_out S)(p := ps_out S p - 1)) q = 0" if "q \<notin> ps_created S" for q
        using D(7) [OF that] by (cases "q = p") auto
    qed (fact D(5), fact D(6), fact gauge)
  qed
qed

lemma pool_step_inv: "pool_step S S' \<Longrightarrow> pool_inv S \<Longrightarrow> pool_inv S'"
  by (cases rule: pool_step.cases)
    (blast intro: install_pool_inv checkout_connection_inv return_connection_inv)+

lemma pool_runs_inv: "pool_step\<^sup>*\<^sup>* S S' \<Longrightarrow> pool_inv S \<Longrightarrow> pool_inv S'"
  by (induction rule: rtranclp_induct) (auto intro: pool_step_inv)

text \<open>
  Replacing the pool neither breaks a connection in use nor leaks one. However the threads of
  a process interleave reconnections, checkouts and returns, no pool is closed while a caller
  holds one of its connections, every pool that was created is the current one, closed, or
  retired with a connection still out, and the gauge counts the connections that are out.
\<close>

theorem pool_replacement_is_safe:
  assumes "pool_step\<^sup>*\<^sup>* no_pools S"
  shows "(\<forall>p\<in>ps_closed S. ps_out S p = 0)
    \<and> (\<forall>p\<in>ps_created S. ps_current S = Some p \<or> p \<in> ps_closed S \<or> p \<in> ps_retired S \<and> 0 < ps_out S p)
    \<and> ps_in_use S = int (\<Sum>p\<in>ps_created S. ps_out S p)"
proof -
  note D = pool_invD [OF pool_runs_inv [OF assms no_pools_inv]]
  show ?thesis using D(2,3,8) unfolding D(5) by auto
qed

text \<open>A pool with a connection out is replaced, and closed when the connection comes back.\<close>

definition sample_pools :: pool_state where
  "sample_pools = install_pool 1 (fst (checkout_connection True (install_pool 0 no_pools)))"

lemma sample_pools_run: "pool_step\<^sup>*\<^sup>* no_pools sample_pools"
proof -
  have "pool_step no_pools (install_pool 0 no_pools)"
    by (rule pool_step.installed) (simp add: no_pools_def)
  moreover have "pool_step (install_pool 0 no_pools) (fst (checkout_connection True (install_pool 0 no_pools)))"
    by (rule pool_step.checked_out [OF surjective_pairing])
  moreover have "pool_step (fst (checkout_connection True (install_pool 0 no_pools))) sample_pools"
    unfolding sample_pools_def
    by (rule pool_step.installed) (simp add: no_pools_def install_pool_def checkout_connection_def Let_def)
  ultimately show ?thesis by (rule converse_rtranclp_into_rtranclp [OF _ converse_rtranclp_into_rtranclp [OF _ r_into_rtranclp]])
qed

theorem pool_replacement_is_safe_witness:
  "ps_retired sample_pools = {0} \<and> ps_out sample_pools 0 = 1 \<and> ps_in_use sample_pools = 1
    \<and> ps_closed (fst (return_connection None 0 sample_pools)) = {0}
    \<and> ps_in_use sample_pools = int (\<Sum>p\<in>ps_created sample_pools. ps_out sample_pools p)"
  using pool_replacement_is_safe [OF sample_pools_run]
  by (simp add: sample_pools_def no_pools_def install_pool_def checkout_connection_def
      return_connection_def active_of_def Let_def)

section \<open>One use of a connection\<close>

text \<open>
  A connection that is put back into the pool was open, its use raised no connection error, and
  the transaction it may have left open was rolled back.
\<close>

lemma kept_connection_is_clean:
  "\<not> discard x \<Longrightarrow> \<not> u_closed x \<and> rolled_back x
     \<and> (\<forall>e. u_body x = Inl e \<longrightarrow> \<not> is_connection_error e)"
  by (auto simp: discard_def rolled_back_def use_outcome_def)

text \<open>After \<open>close_pool\<close> there is no pool in use, and those that were live are closed.\<close>

lemma close_pool_closes:
  assumes "pool_inv S"
  shows "ps_current (close_pool S) = None \<and> ps_closed (close_pool S) = ps_created S"
  using pool_invD(5) [OF assms] by (auto simp: close_pool_def split: option.splits)

text \<open>With one of its attempts succeeding, the initialisation leaves a pool behind.\<close>

lemma init_pool_outcome:
  "init_pool_with_retry as S = (S', r) \<Longrightarrow>
     (if \<forall>a\<in>set as. isl a then S' = S \<and> isl r else r = Inr () \<and> ps_current S' \<noteq> None)"
  by (induction as S rule: init_pool_with_retry.induct)
    (auto simp: install_pool_def Let_def split: option.splits if_splits)

section \<open>Errors\<close>

text \<open>The label a database error is counted under, from its lower-cased message.\<close>

definition contains :: "ustr \<Rightarrow> string \<Rightarrow> bool" where
  "contains s p \<longleftrightarrow> (\<exists>i\<le>length s. take (length p) (drop i s) = u p)"

definition classify_db_error :: "ustr \<Rightarrow> exn \<Rightarrow> string" where
  "classify_db_error message e =
     (if contains message ''could not translate host name'' \<or> contains message ''name or service not known''
      then ''dns_resolution''
      else if contains message ''connection refused'' then ''connection_refused''
      else if contains message ''server closed the connection unexpectedly''
      then ''server_closed_connection''
      else if contains message ''timeout expired'' \<or> contains message ''timed out'' then ''timeout''
      else if contains message ''terminating connection due to administrator command''
      then ''admin_termination''
      else
        (case e of
           InterfaceError \<Rightarrow> ''interface_error''
         | OperationalError \<Rightarrow> ''operational_error''
         | _ \<Rightarrow> ''unknown''))"

section \<open>The replicated database\<close>

text \<open>
  \<open>str(...).lower()\<close> of a column and \<open>int(...)\<close> of a delay are done by the driver's values:
  a row holds the lower-cased texts and the delay, \<open>None\<close> when it does not convert. An empty
  text becomes \<open>unknown\<close>.
\<close>

record node_row =
  nr_status :: ustr
  nr_pg_status :: ustr
  nr_role :: ustr
  nr_state :: ustr
  nr_sync_state :: ustr
  nr_delay :: "int option"

definition or_unknown :: "ustr \<Rightarrow> ustr" where
  "or_unknown s = (if s = [] then u ''unknown'' else s)"

record replication_counts =
  rc_states :: "(ustr \<times> nat) list"
  rc_sync_states :: "(ustr \<times> nat) list"
  rc_sync_standbys :: nat
  rc_max_delay :: int

definition no_counts :: replication_counts where
  "no_counts = \<lparr>rc_states = [], rc_sync_states = [], rc_sync_standbys = 0, rc_max_delay = 0\<rparr>"

definition bump :: "ustr \<Rightarrow> (ustr \<times> nat) list \<Rightarrow> (ustr \<times> nat) list" where
  "bump k d = AList.update k ((case map_of d k of None \<Rightarrow> 0 | Some n \<Rightarrow> n) + 1) d"

definition count_node :: "node_row \<Rightarrow> replication_counts \<Rightarrow> replication_counts" where
  "count_node r C =
     (let sync = or_unknown (nr_sync_state r);
          delay = (case nr_delay r of None \<Rightarrow> 0 | Some i \<Rightarrow> i) in
      \<lparr>rc_states = bump (or_unknown (nr_state r)) (rc_states C),
       rc_sync_states = bump sync (rc_sync_states C),
       rc_sync_standbys = rc_sync_standbys C + (if sync \<in> {u ''sync'', u ''quorum''} then 1 else 0),
       rc_max_delay = max (rc_max_delay C) delay\<rparr>)"

definition count_replication_rows :: "node_row list \<Rightarrow> replication_counts" where
  "count_replication_rows rows = fold count_node rows no_counts"

definition is_primary_up :: "node_row \<Rightarrow> bool" where
  "is_primary_up r \<longleftrightarrow>
     nr_role r = u ''primary'' \<and> nr_status r = u ''up'' \<and> nr_pg_status r = u ''up''"

definition is_standby_up :: "node_row \<Rightarrow> bool" where
  "is_standby_up r \<longleftrightarrow>
     nr_role r \<in> {u ''standby'', u ''secondary''} \<and> nr_status r = u ''up'' \<and> nr_pg_status r = u ''up''"

text \<open>\<open>SHOW pool_nodes\<close> in its loop: primaries are skipped, standbys that are up are counted.\<close>

definition count_standbys :: "node_row list \<Rightarrow> nat \<times> replication_counts" where
  "count_standbys rows =
     (let up = filter (\<lambda>r. \<not> is_primary_up r \<and> is_standby_up r) rows in
      (length up, count_replication_rows up))"

record pg_status =
  st_ha_mode :: bool
  st_primary :: bool
  st_standbys :: nat
  st_counts :: replication_counts
  st_reasons :: "ustr list"

text \<open>
  The three ways of the first connection: it fails, the server is a single one (\<open>SHOW
  pool_nodes\<close> fails and \<open>pg_is_in_recovery\<close> answers), or the pool's nodes are listed, and then
  the statistics of the primary are read, which may fail too.
\<close>

datatype db_probe =
    Unreachable exn
  | Single bool
  | Nodes "node_row list" "exn + node_row list"

definition postgres_status_of_nodes :: "node_row list \<Rightarrow> exn + node_row list \<Rightarrow> pg_status" where
  "postgres_status_of_nodes rows stats =
     (let primary = list_ex is_primary_up rows;
          (n, C) = count_standbys rows;
          (n', C', why) =
            (if \<not> primary then (n, C, [])
             else
               (case stats of
                  Inl e \<Rightarrow> (n, C, [u ''postgres_replication_stats_error:'' @ exn_name e])
                | Inr rs \<Rightarrow>
                    if rs = [] then (n, C, [])
                    else (max n (length rs), count_replication_rows rs, []))) in
      \<lparr>st_ha_mode = True, st_primary = primary, st_standbys = n', st_counts = C',
       st_reasons = why @ (if primary then [] else [u ''postgres_primary_unreachable''])\<rparr>)"

definition get_postgres_runtime_status :: "db_probe \<Rightarrow> pg_status" where
  "get_postgres_runtime_status p =
     (case p of
        Unreachable e \<Rightarrow>
          \<lparr>st_ha_mode = False, st_primary = False, st_standbys = 0, st_counts = no_counts,
           st_reasons = [u ''postgres_pool_nodes_error:'' @ exn_name e]\<rparr>
      | Single primary \<Rightarrow>
          \<lparr>st_ha_mode = False, st_primary = primary, st_standbys = 0, st_counts = no_counts,
           st_reasons = (if primary then [] else [u ''postgres_primary_unreachable''])\<rparr>
      | Nodes rows stats \<Rightarrow> postgres_status_of_nodes rows stats)"

definition ping_db :: "db_probe \<Rightarrow> bool" where
  "ping_db p = st_primary (get_postgres_runtime_status p)"

end
