(* ===== verification/Auth.thy ===== *)
theory Auth
  imports Kafka_Client Store
begin

text \<open>
  \<open>portfolio/auth.py\<close>: password hashes, the signed access tokens of the API and the lookup of
  the caller. The hash functions of the standard library are parameters.
\<close>

section \<open>Parameters and limits\<close>

text \<open>
  \<open>hmac.new(key, msg, sha256).digest()\<close>, \<open>hashlib.pbkdf2_hmac('sha256', pw, salt, n)\<close>,
  \<open>bytes.decode('utf-8')\<close> and \<open>int(text)\<close> (\<open>None\<close> when they raise). The laws state what the
  library documents: digests of 32 bytes, ASCII decodes to itself, \<open>int\<close> reads what \<open>str\<close> writes.
\<close>

record authlib =
  hmac_sha256 :: "bytes \<Rightarrow> bytes \<Rightarrow> bytes"
  pbkdf2 :: "bytes \<Rightarrow> bytes \<Rightarrow> int \<Rightarrow> bytes"
  text_of_bytes :: "bytes \<Rightarrow> ustr option"
  int_of_text :: "ustr \<Rightarrow> int option"

definition ascii :: "ustr \<Rightarrow> bytes" where
  "ascii s = map of_nat s"

definition is_ascii :: "ustr \<Rightarrow> bool" where
  "is_ascii s \<longleftrightarrow> list_all (\<lambda>c. c < 128) s"

definition authlib_laws :: "authlib \<Rightarrow> bool" where
  "authlib_laws A \<longleftrightarrow>
     (\<forall>k m. length (hmac_sha256 A k m) = 32) \<and> (\<forall>p s n. length (pbkdf2 A p s n) = 32)
     \<and> (\<forall>s. is_ascii s \<longrightarrow> text_of_bytes A (ascii s) = Some s)
     \<and> (\<forall>n. int_of_text A (py_str_int n) = Some n)"

record auth_config =
  secret_key :: ustr
  token_ttl :: int
  password_iterations :: int

definition legacy_password_iterations :: int where "legacy_password_iterations = 120000"
definition max_password_iterations :: int where "max_password_iterations = 2000000"
definition max_unix_timestamp :: int where "max_unix_timestamp = 253402300799"
definition max_access_token_length :: nat where "max_access_token_length = 4096"
definition max_token_ttl :: int where "max_token_ttl = 2592000"

text \<open>The checks at import.\<close>

definition auth_config_ok :: "auth_config \<Rightarrow> bool" where
  "auth_config_ok C \<longleftrightarrow>
     legacy_password_iterations \<le> password_iterations C
     \<and> password_iterations C \<le> max_password_iterations
     \<and> 1 \<le> token_ttl C \<and> token_ttl C \<le> max_token_ttl"

definition known_placeholder_secret_keys :: "ustr list" where
  "known_placeholder_secret_keys = [u ''dev-secret-change-me'', u ''replace-with-a-random-local-secret'']"

definition is_unsafe_auth_secret :: "auth_config \<Rightarrow> bool" where
  "is_unsafe_auth_secret C =
     (case utf8_encode (secret_key C) of
        None \<Rightarrow> True
      | Some bs \<Rightarrow> secret_key C \<in> set known_placeholder_secret_keys \<or> length bs < 32)"

text \<open>\<open>secret.encode('utf-8')\<close>; a secret that does not encode is unsafe.\<close>

definition secret_bytes :: "auth_config \<Rightarrow> bytes" where
  "secret_bytes C = (case utf8_encode (secret_key C) of None \<Rightarrow> [] | Some bs \<Rightarrow> bs)"

section \<open>Passwords\<close>

definition password_algorithm :: ustr where
  "password_algorithm = u ''pbkdf2_sha256''"

text \<open>\<open>password\<close> is a text; \<open>salt\<close> are the 16 random bytes.\<close>

definition hash_password :: "authlib \<Rightarrow> auth_config \<Rightarrow> bytes \<Rightarrow> ustr \<Rightarrow> exn + ustr" where
  "hash_password A C salt password =
     rbind (validate_json_structure (JStr password)) (\<lambda>_.
     (case utf8_encode password of
        None \<Rightarrow> Inl (value_error ''surrogates not allowed'')
      | Some pw \<Rightarrow>
          Inr (password_algorithm @ [36] @ py_str_int (password_iterations C) @ [36]
               @ b64url_encode salt @ [36] @ b64url_encode (pbkdf2 A pw salt (password_iterations C)))))"

definition stored_parts :: "authlib \<Rightarrow> ustr \<Rightarrow> (ustr \<times> int \<times> ustr \<times> ustr) option" where
  "stored_parts A stored =
     (case split_on 36 stored of
        [a, s, d] \<Rightarrow> Some (a, legacy_password_iterations, s, d)
      | [a, i, s, d] \<Rightarrow> (case int_of_text A i of None \<Rightarrow> None | Some n \<Rightarrow> Some (a, n, s, d))
      | _ \<Rightarrow> None)"

definition verify_password :: "authlib \<Rightarrow> ustr \<Rightarrow> ustr option \<Rightarrow> bool" where
  "verify_password A password stored_hash =
     (case stored_hash of
        None \<Rightarrow> False
      | Some stored \<Rightarrow>
          if stored = [] then False
          else
            (case stored_parts A stored of
               None \<Rightarrow> False
             | Some (a, n, s, d) \<Rightarrow>
                 if a \<noteq> password_algorithm then False
                 else if \<not> (legacy_password_iterations \<le> n \<and> n \<le> max_password_iterations) then False
                 else
                   (case (b64url_decode s, b64url_decode d) of
                      (Some salt, Some expected) \<Rightarrow>
                        if length salt \<noteq> 16 \<or> length expected \<noteq> 32 then False
                        else if validate_json_structure (JStr password) \<noteq> Inr () then False
                        else
                          (case utf8_encode password of
                             None \<Rightarrow> False
                           | Some pw \<Rightarrow> pbkdf2 A pw salt n = expected)
                    | _ \<Rightarrow> False)))"

definition dummy_password_hash :: "authlib \<Rightarrow> auth_config \<Rightarrow> ustr" where
  "dummy_password_hash A C =
     (let salt = ascii (u ''portfolio-dummy!'') in
      password_algorithm @ [36] @ py_str_int (password_iterations C) @ [36] @ b64url_encode salt @ [36]
      @ b64url_encode (pbkdf2 A (ascii (u ''invalid-password'')) salt (password_iterations C)))"

record caller =
  c_id :: int
  c_username :: ustr

definition authenticate_user :: "authlib \<Rightarrow> auth_config \<Rightarrow> ustr \<Rightarrow> ustr \<Rightarrow> db \<Rightarrow> caller option" where
  "authenticate_user A C username password db =
     (let user = find (\<lambda>r. usr_name r = username) (users db);
          stored = (case user of Some r \<Rightarrow> usr_password_hash r | None \<Rightarrow> Some (dummy_password_hash A C));
          valid = verify_password A password stored in
      case user of
        None \<Rightarrow> None
      | Some r \<Rightarrow> if valid then Some \<lparr>c_id = usr_id r, c_username = usr_name r\<rparr> else None)"

section \<open>Access tokens\<close>

text \<open>
  \<open>json.dumps(.., separators=(',', ':'), sort_keys=True)\<close> of a dictionary of texts and integers,
  with the default \<open>ensure_ascii\<close>: characters outside ASCII are escaped, those outside the
  basic plane as a surrogate pair.
\<close>

definition hex4 :: "nat \<Rightarrow> ustr" where
  "hex4 n = [92, 117, hex_digit (n div 4096 mod 16), hex_digit (n div 256 mod 16),
             hex_digit (n div 16 mod 16), hex_digit (n mod 16)]"

definition ascii_char :: "nat \<Rightarrow> ustr" where
  "ascii_char c =
     (if c < 127 then dumps_char c
      else if c < 65536 then hex4 c
      else hex4 (55296 + (c - 65536) div 1024) @ hex4 (56320 + (c - 65536) mod 1024))"

definition ascii_text :: "ustr \<Rightarrow> ustr" where
  "ascii_text s = 34 # concat (map ascii_char s) @ [34]"

fun ascii_value :: "json \<Rightarrow> ustr" where
  "ascii_value (JInt i) = py_str_int i"
| "ascii_value (JStr s) = ascii_text s"
| "ascii_value _ = u ''null''"

definition ascii_object :: "obj \<Rightarrow> ustr" where
  "ascii_object d =
     [123] @ join [44] (map (\<lambda>(k, v). ascii_text k @ [58] @ ascii_value v) d) @ [125]"

definition token_header :: obj where
  "token_header = [(u ''alg'', JStr (u ''HS256'')), (u ''typ'', JStr (u ''JWT''))]"

definition token_payload :: "int \<Rightarrow> int \<Rightarrow> ustr \<Rightarrow> obj" where
  "token_payload expires user_id username =
     [(u ''exp'', JInt expires), (u ''sub'', JStr (py_str_int user_id)), (u ''username'', JStr username)]"

definition signing_input :: "ustr \<Rightarrow> ustr \<Rightarrow> ustr" where
  "signing_input h p = h @ [46] @ p"

definition sign :: "authlib \<Rightarrow> auth_config \<Rightarrow> ustr \<Rightarrow> ustr \<Rightarrow> bytes" where
  "sign A C h p = hmac_sha256 A (secret_bytes C) (ascii (signing_input h p))"

definition username_ok :: "ustr \<Rightarrow> bool" where
  "username_ok s \<longleftrightarrow> 1 \<le> length s \<and> length s \<le> 30"

definition create_access_token :: "authlib \<Rightarrow> auth_config \<Rightarrow> int \<Rightarrow> int \<Rightarrow> ustr \<Rightarrow> exn + ustr" where
  "create_access_token A C now user_id username =
     guard (1 \<le> user_id \<and> user_id \<le> max_postgres_bigint) (value_error ''Invalid token subject'') (
     guard (username_ok username) (value_error ''Invalid token username'') (
     rbind (validate_json_structure (JStr username)) (\<lambda>_.
       let h = b64url_encode (ascii (ascii_object token_header));
           p = b64url_encode (ascii (ascii_object (token_payload (now + token_ttl C) user_id username))) in
       Inr (signing_input h p @ [46] @ b64url_encode (sign A C h p)))))"

definition invalid_token :: exn where
  "invalid_token = HTTPException 401 (u ''Invalid access token'')"

definition segment_char :: "nat \<Rightarrow> bool" where
  "segment_char c \<longleftrightarrow> is_alnum c \<or> c = 95 \<or> c = 45"

definition segment_ok :: "ustr \<Rightarrow> bool" where
  "segment_ok s \<longleftrightarrow> s \<noteq> [] \<and> list_all segment_char s"

text \<open>\<open>json.loads(_b64url_decode(segment).decode('utf-8'))\<close> of a dictionary with valid structure.\<close>

definition segment_object :: "pylib \<Rightarrow> authlib \<Rightarrow> ustr \<Rightarrow> obj option" where
  "segment_object L A s =
     (case Option.bind (b64url_decode s) (text_of_bytes A) of
        None \<Rightarrow> None
      | Some t \<Rightarrow>
          (case loads L t of
             Some (JObj d) \<Rightarrow> if validate_json_structure (JObj d) = Inr () then Some d else None
           | _ \<Rightarrow> None))"

definition header_ok :: "obj \<Rightarrow> bool" where
  "header_ok d \<longleftrightarrow> get_none d ''alg'' = JStr (u ''HS256'') \<and> get_none d ''typ'' = JStr (u ''JWT'')"

text \<open>\<open>subject.isascii() and subject.isdecimal()\<close>, and \<open>subject == str(int(subject))\<close>.\<close>

definition subject_id :: "ustr \<Rightarrow> int option" where
  "subject_id s =
     (if s \<noteq> [] \<and> list_all is_digit s \<and> s = py_str_int (int (dec_val s))
         \<and> 1 \<le> int (dec_val s) \<and> int (dec_val s) \<le> max_postgres_bigint
      then Some (int (dec_val s)) else None)"

definition claims_ok :: "obj \<Rightarrow> (int \<times> int \<times> ustr) option" where
  "claims_ok d =
     (case (get_key d ''exp'', get_key d ''sub'', get_key d ''username'') of
        (Some (JInt e), Some (JStr s), Some (JStr n)) \<Rightarrow>
          (case subject_id s of
             Some i \<Rightarrow> if 0 < e \<and> e \<le> max_unix_timestamp \<and> username_ok n then Some (e, i, n) else None
           | None \<Rightarrow> None)
      | _ \<Rightarrow> None)"

definition decode_access_token :: "pylib \<Rightarrow> authlib \<Rightarrow> auth_config \<Rightarrow> int \<Rightarrow> ustr \<Rightarrow> exn + obj" where
  "decode_access_token L A C now token =
     (if token = [] \<or> max_access_token_length < length token then Inl invalid_token
      else
        (case split_on 46 token of
           [h, p, s] \<Rightarrow>
             if \<not> (segment_ok h \<and> segment_ok p \<and> segment_ok s) then Inl invalid_token
             else
               (case (segment_object L A h, b64url_decode s) of
                  (Some d, Some sig) \<Rightarrow>
                    if \<not> header_ok d \<or> length sig \<noteq> 32 then Inl invalid_token
                    else if sign A C h p \<noteq> sig then Inl invalid_token
                    else
                      (case segment_object L A p of
                         None \<Rightarrow> Inl invalid_token
                       | Some d \<Rightarrow>
                           (case claims_ok d of
                              None \<Rightarrow> Inl invalid_token
                            | Some (e, i, n) \<Rightarrow>
                                if e \<le> now then Inl (HTTPException 401 (u ''Access token expired''))
                                else Inr d))
                | _ \<Rightarrow> Inl invalid_token)
         | _ \<Rightarrow> Inl invalid_token))"

text \<open>The header of the request: none, or a scheme (lower-cased) and the credentials.\<close>

definition get_current_user ::
    "pylib \<Rightarrow> authlib \<Rightarrow> auth_config \<Rightarrow> int \<Rightarrow> (ustr \<times> ustr) option \<Rightarrow> exn + caller" where
  "get_current_user L A C now credentials =
     (case credentials of
        None \<Rightarrow> Inl (HTTPException 401 (u ''Missing bearer token''))
      | Some (scheme, token) \<Rightarrow>
          if scheme \<noteq> u ''bearer'' then Inl (HTTPException 401 (u ''Invalid authentication scheme''))
          else
            rbind (decode_access_token L A C now token) (\<lambda>d.
              Inr \<lparr>c_id = int (dec_val (text_of_json (get_none d ''sub''))),
                   c_username = text_of_json (get_none d ''username'')\<rparr>))"

section \<open>Segments\<close>

lemma split_on_one: "sep \<notin> set a \<Longrightarrow> split_on sep a = [a]"
  by (induction a) auto

lemma split_on_append: "sep \<notin> set a \<Longrightarrow> split_on sep (a @ sep # b) = a # split_on sep b"
  by (induction a) auto

lemma split_on_not_Nil: "split_on sep s \<noteq> []"
  by (induction s) (auto split: list.splits)

lemma split_on_join: "split_on sep s = ws \<Longrightarrow> s = join [sep] ws"
proof (induction s arbitrary: ws)
  case (Cons c cs)
  obtain w ws' where ws': "split_on sep cs = w # ws'"
    using split_on_not_Nil by (cases "split_on sep cs") auto
  from Cons.IH [OF this] have "cs = join [sep] (w # ws')" .
  then show ?case using Cons.prems ws' by (cases ws') auto
qed auto

lemma b64_char_segment: "n < 64 \<Longrightarrow> segment_char (b64_char True n)"
  by (auto simp: b64_char_def segment_char_def is_alnum_def)

lemma b64_body_char: "c \<in> set (b64_body bs) \<Longrightarrow> \<exists>n<64. c = b64_char True n"
proof (induction bs rule: b64_body.induct)
  case (2 a)
  have "unat a mod 4 < 4" by simp
  then have "unat a div 4 < 64" "unat a mod 4 * 16 < 64" using unat_byte [of a]
    by (auto simp: less_mult_imp_div_less simp del: mod_less_divisor)
  moreover have "c = b64_char True (unat a div 4) \<or> c = b64_char True (unat a mod 4 * 16)"
    using 2 by (auto simp: Let_def numeral_2_eq_2)
  ultimately show ?case by blast
next
  case (3 a b)
  have "unat a div 4 < 64" "unat b div 16 < 16" "unat b mod 16 * 4 < 64"
    using unat_byte [of a] unat_byte [of b] by (auto simp: less_mult_imp_div_less)
  moreover from this(2) have "unat a mod 4 * 16 + unat b div 16 < 64" by linarith
  moreover have "c = b64_char True (unat a div 4) \<or> c = b64_char True (unat a mod 4 * 16 + unat b div 16)
      \<or> c = b64_char True (unat b mod 16 * 4)"
    using 3 by (auto simp: Let_def numeral_3_eq_3)
  ultimately show ?case by blast
next
  case (4 x y z bs)
  have "unat x div 4 < 64" "unat y div 16 < 16" "unat z div 64 < 4" "unat z mod 64 < 64"
    using unat_byte [of x] unat_byte [of y] unat_byte [of z] by (simp_all add: less_mult_imp_div_less)
  moreover from this(2) have "unat x mod 4 * 16 + unat y div 16 < 64" by linarith
  moreover from calculation(3) have "unat y mod 16 * 4 + unat z div 64 < 64" by linarith
  moreover have "c = b64_char True (unat x div 4) \<or> c = b64_char True (unat x mod 4 * 16 + unat y div 16)
      \<or> c = b64_char True (unat y mod 16 * 4 + unat z div 64) \<or> c = b64_char True (unat z mod 64)
      \<or> c \<in> set (b64_body bs)"
    using 4(2) by (auto simp: Let_def)
  ultimately show ?case using 4(1) by blast
qed simp

lemma b64url_chars: "c \<in> set (b64url_encode bs) \<Longrightarrow> segment_char c"
  using b64_body_char b64_char_segment by (fastforce simp: b64url_encode_body)

lemma segment_char_safe: "segment_char c \<Longrightarrow> c \<noteq> 46 \<and> c \<noteq> 36"
  by (auto simp: segment_char_def is_alnum_def)

lemma b64url_no_separator: "46 \<notin> set (b64url_encode bs)" "36 \<notin> set (b64url_encode bs)"
  using b64url_chars segment_char_safe by blast+

lemma b64url_segment_ok: "bs \<noteq> [] \<Longrightarrow> segment_ok (b64url_encode bs)"
proof -
  assume "bs \<noteq> []"
  then have "b64url_encode bs \<noteq> []"
    by (cases bs rule: b64_body.cases) (auto simp: b64url_encode_body Let_def numeral_2_eq_2 numeral_3_eq_3)
  then show ?thesis using b64url_chars by (auto simp: segment_ok_def list_all_iff)
qed

lemma length_b64url: "length (b64url_encode bs) \<le> 2 * length bs"
proof -
  have "length (b64_body bs) \<le> 2 * length bs"
    by (induction bs rule: b64_body.induct) (simp_all add: Let_def)
  then show ?thesis by (simp add: b64url_encode_body)
qed

section \<open>Passwords\<close>

lemma py_str_int_chars: "0 \<le> i \<Longrightarrow> c \<in> set (py_str_int i) \<Longrightarrow> 48 \<le> c \<and> c \<le> 57"
  using dec_nat_digits by (auto simp: py_str_int_def is_digit_def)

lemma stored_parts_hash:
  assumes "authlib_laws A" "0 \<le> n"
  shows "stored_parts A (password_algorithm @ [36] @ py_str_int n @ [36] @ b64url_encode x @ [36] @ b64url_encode y)
    = Some (password_algorithm, n, b64url_encode x, b64url_encode y)"
proof -
  have "36 \<notin> set password_algorithm" by (auto simp: password_algorithm_def u_def)
  moreover have "36 \<notin> set (py_str_int n)" using py_str_int_chars [OF assms(2), of 36] by auto
  ultimately show ?thesis
    using assms(1) by (simp add: stored_parts_def split_on_append split_on_one b64url_no_separator authlib_laws_def)
qed

lemma password_roundtrip:
  assumes "authlib_laws A" "auth_config_ok C" "length salt = 16"
    and "hash_password A C salt password = Inr stored"
  shows "verify_password A password (Some stored)"
proof -
  from assms(4) obtain pw where ok: "validate_json_structure (JStr password) = Inr ()"
    and pw: "utf8_encode password = Some pw"
    and stored: "stored = password_algorithm @ [36] @ py_str_int (password_iterations C) @ [36]
               @ b64url_encode salt @ [36] @ b64url_encode (pbkdf2 A pw salt (password_iterations C))"
    by (auto simp: hash_password_def rbind_eq_Inr split: option.splits)
  have n: "0 \<le> password_iterations C" using assms(2) by (simp add: auth_config_ok_def legacy_password_iterations_def)
  have "stored \<noteq> []" by (simp add: stored)
  then show ?thesis
    using stored_parts_hash [OF assms(1) n, of salt] ok pw assms
    by (simp add: verify_password_def stored auth_config_ok_def authlib_laws_def)
qed

text \<open>Whatever the stored hash says, at most \<open>max_password_iterations\<close> rounds are computed.\<close>

lemma verify_password_bounded:
  assumes "verify_password A password (Some stored)"
  obtains a n s d where "stored_parts A stored = Some (a, n, s, d)" "a = password_algorithm"
    "legacy_password_iterations \<le> n" "n \<le> max_password_iterations"
  using assms by (auto simp: verify_password_def split: if_splits option.splits)

section \<open>Tokens\<close>

lemma is_ascii_Nil [simp]: "is_ascii []"
  by (simp add: is_ascii_def)

lemma is_ascii_append [simp]: "is_ascii (a @ b) \<longleftrightarrow> is_ascii a \<and> is_ascii b"
  by (simp add: is_ascii_def)

lemma is_ascii_Cons [simp]: "is_ascii (c # s) \<longleftrightarrow> c < 128 \<and> is_ascii s"
  by (simp add: is_ascii_def)

lemma hex_digit_bounds: "n < 16 \<Longrightarrow> hex_digit n < 128"
  by (simp add: hex_digit_def)

lemma ascii_char_ascii: "is_ascii (ascii_char c)"
  by (auto simp: ascii_char_def hex4_def is_ascii_def intro!: hex_digit_bounds)

lemma ascii_char_length: "length (ascii_char c) \<le> 12"
  by (auto simp: ascii_char_def hex4_def)

lemma ascii_text_ascii: "is_ascii (ascii_text s)"
proof -
  have "is_ascii (concat (map ascii_char s))" by (induction s) (simp_all add: ascii_char_ascii)
  then show ?thesis by (simp add: ascii_text_def is_ascii_def)
qed

lemma ascii_text_length: "length (ascii_text s) \<le> 12 * length s + 2"
proof -
  have "length (concat (map ascii_char s)) \<le> 12 * length s"
    by (induction s) (use ascii_char_length in \<open>auto simp: add_le_mono\<close>)
  then show ?thesis by (simp add: ascii_text_def)
qed

lemma py_str_int_ascii: "is_ascii (py_str_int i)"
  using dec_nat_digits by (fastforce simp: py_str_int_def is_ascii_def list_all_iff is_digit_def)

lemma token_objects_ascii: "is_ascii (ascii_object token_header)" "is_ascii (ascii_object (token_payload e i n))"
  by (simp_all add: ascii_object_def token_header_def token_payload_def ascii_text_ascii py_str_int_ascii)

lemma py_str_int_length: "0 \<le> i \<Longrightarrow> i < 10 ^ k \<Longrightarrow> 0 < k \<Longrightarrow> length (py_str_int i) \<le> k"
  by (simp add: py_str_int_def length_dec_nat_le nat_less_iff)

lemma token_payload_length:
  assumes "0 \<le> e" "e \<le> max_unix_timestamp" "1 \<le> i" "i \<le> max_postgres_bigint" "username_ok n"
  shows "length (ascii_object (token_payload e i n)) \<le> 1000"
proof -
  have "length (py_str_int e) \<le> 12" "length (py_str_int i) \<le> 19"
    using assms by (auto intro!: py_str_int_length simp: max_unix_timestamp_def max_postgres_bigint_def)
  then have "length (ascii_text (py_str_int i)) \<le> 230" "length (ascii_text n) \<le> 362"
    using ascii_text_length [of "py_str_int i"] ascii_text_length [of n] assms(5)
    by (auto simp: username_ok_def)
  moreover have "length (ascii_text (u x)) \<le> 12 * length x + 2" for x
    using ascii_text_length [of "u x"] by simp
  from this [of "''exp''"] this [of "''sub''"] this [of "''username''"] calculation
    \<open>length (py_str_int e) \<le> 12\<close>
  show ?thesis by (simp add: ascii_object_def token_payload_def)
qed

lemma header_text_length: "length (ascii_object token_header) \<le> 200"
proof -
  have "length (ascii_text (u x)) \<le> 12 * length x + 2" for x
    using ascii_text_length [of "u x"] by simp
  from this [of "''alg''"] this [of "''typ''"] this [of "''HS256''"] this [of "''JWT''"]
  show ?thesis by (simp add: ascii_object_def token_header_def)
qed

lemma subject_id_str: "1 \<le> i \<Longrightarrow> i \<le> max_postgres_bigint \<Longrightarrow> subject_id (py_str_int i) = Some i"
  using dec_nat_digits [of _ "nat i"]
  by (auto simp: subject_id_def py_str_int_def list_all_iff)

lemma token_payload_claims:
  assumes "0 < e" "e \<le> max_unix_timestamp" "1 \<le> i" "i \<le> max_postgres_bigint" "username_ok n"
  shows "claims_ok (token_payload e i n) = Some (e, i, n)"
  using assms by (simp add: claims_ok_def token_payload_def text_simps subject_id_str)

lemma segment_object_encoded:
  assumes "authlib_laws A" "is_ascii t" "loads L t = Some (JObj d)" "json_ok max_json_nesting_depth (JObj d)"
  shows "segment_object L A (b64url_encode (ascii t)) = Some d"
  using assms by (simp add: segment_object_def authlib_laws_def del: json_ok.simps)

lemma token_parts:
  assumes "create_access_token A C now i n = Inr token"
  obtains h p where "h = b64url_encode (ascii (ascii_object token_header))"
    "p = b64url_encode (ascii (ascii_object (token_payload (now + token_ttl C) i n)))"
    "token = signing_input h p @ [46] @ b64url_encode (sign A C h p)"
    "1 \<le> i" "i \<le> max_postgres_bigint" "username_ok n" "good_text n"
  using assms by (auto simp: create_access_token_def guard_eq_Inr rbind_eq_Inr Let_def)

lemma split_token: "46 \<notin> set h \<Longrightarrow> 46 \<notin> set p \<Longrightarrow> 46 \<notin> set s \<Longrightarrow>
    split_on 46 (signing_input h p @ [46] @ s) = [h, p, s]"
  by (simp add: signing_input_def split_on_append split_on_one)

lemma good_literal:
  "good_text (u ''alg'')" "good_text (u ''HS256'')" "good_text (u ''typ'')" "good_text (u ''JWT'')"
  "good_text (u ''exp'')" "good_text (u ''sub'')" "good_text (u ''username'')"
  by (simp_all add: good_text_def u_def has_nul_def contains_utf16_surrogate_def)

lemma token_objects_valid:
  "json_ok max_json_nesting_depth (JObj token_header)"
  "good_text n \<Longrightarrow> json_ok max_json_nesting_depth (JObj (token_payload e i n))"
proof -
  have "good_text (py_str_int i)" for i
  proof -
    have "45 \<le> c \<and> c \<le> 57" if "c \<in> set (py_str_int i)" for c
      using that dec_nat_digits [of c "nat i"] dec_nat_digits [of c "nat (- i)"]
      by (auto simp: py_str_int_def is_digit_def split: if_splits)
    then show ?thesis by (force simp: good_text_def has_nul_def contains_utf16_surrogate_def list_ex_iff)
  qed
  then show "json_ok max_json_nesting_depth (JObj token_header)"
    "good_text n \<Longrightarrow> json_ok max_json_nesting_depth (JObj (token_payload e i n))"
    by (simp_all add: token_header_def token_payload_def max_json_nesting_depth_def good_literal)
qed

lemma token_lifetime:
  assumes "authlib_laws A" "auth_config_ok C" "create_access_token A C now i n = Inr token"
    and "loads L (ascii_object token_header) = Some (JObj token_header)"
    and "loads L (ascii_object (token_payload (now + token_ttl C) i n)) = Some (JObj (token_payload (now + token_ttl C) i n))"
    and "0 \<le> now" "now + token_ttl C \<le> max_unix_timestamp"
  shows "get_current_user L A C t (Some (u ''bearer'', token)) =
    (if t < now + token_ttl C then Inr \<lparr>c_id = i, c_username = n\<rparr>
     else Inl (HTTPException 401 (u ''Access token expired'')))"
proof -
  let ?e = "now + token_ttl C"
  from assms(2,6) have e: "0 < ?e" by (simp add: auth_config_ok_def)
  from assms(3) obtain h p where h: "h = b64url_encode (ascii (ascii_object token_header))"
    and p: "p = b64url_encode (ascii (ascii_object (token_payload ?e i n)))"
    and token: "token = signing_input h p @ [46] @ b64url_encode (sign A C h p)"
    and user: "1 \<le> i" "i \<le> max_postgres_bigint" "username_ok n" "good_text n" by (rule token_parts)
  let ?s = "b64url_encode (sign A C h p)"
  have len32: "length (sign A C h p) = 32" using assms(1) by (simp add: authlib_laws_def sign_def)
  have split: "split_on 46 token = [h, p, ?s]"
    unfolding token by (rule split_token) (simp_all add: h p b64url_no_separator)
  have segs: "segment_ok h" "segment_ok p" "segment_ok ?s"
    using len32 unfolding h p
    by (auto intro!: b64url_segment_ok simp: ascii_def ascii_object_def)
  have "length h \<le> 400" "length p \<le> 2000" "length ?s \<le> 64"
    using length_b64url [of "ascii (ascii_object token_header)"] header_text_length
      length_b64url [of "ascii (ascii_object (token_payload ?e i n))"] token_payload_length [of ?e i n]
      length_b64url [of "sign A C h p"] len32 user(1-3) assms(7) e
    by (auto simp: h p ascii_def)
  then have len: "token \<noteq> []" "length token \<le> max_access_token_length"
    by (simp_all add: token signing_input_def max_access_token_length_def)
  have "segment_object L A h = Some token_header"
    unfolding h by (rule segment_object_encoded [OF assms(1) token_objects_ascii(1) assms(4) token_objects_valid(1)])
  moreover have "segment_object L A p = Some (token_payload ?e i n)"
    unfolding p by (rule segment_object_encoded [OF assms(1) token_objects_ascii(2) assms(5) token_objects_valid(2) [OF user(4)]])
  moreover have "header_ok token_header" by (simp add: header_ok_def token_header_def text_simps)
  moreover have "claims_ok (token_payload ?e i n) = Some (?e, i, n)"
    using token_payload_claims e assms(7) user by simp
  ultimately have "decode_access_token L A C t token =
      (if t < ?e then Inr (token_payload ?e i n) else Inl (HTTPException 401 (u ''Access token expired'')))"
    using split segs len len32 by (simp add: decode_access_token_def)
  then show ?thesis using user(1)
    by (auto simp: get_current_user_def token_payload_def text_simps py_str_int_def)
qed

text \<open>
  A token names its user until it expires. The token created for a user at \<open>now\<close> is accepted
  at every later time before the end of its lifetime and resolves to that user; from the end of
  its lifetime on it is refused as expired. (\<open>json.loads\<close> reads back the two dictionaries the
  token was written from.)
\<close>

theorem token_roundtrip:
  assumes "authlib_laws A" "auth_config_ok C" "create_access_token A C now i n = Inr token"
    and "loads L (ascii_object token_header) = Some (JObj token_header)"
    and "loads L (ascii_object (token_payload (now + token_ttl C) i n)) = Some (JObj (token_payload (now + token_ttl C) i n))"
    and "0 \<le> now" "now + token_ttl C \<le> max_unix_timestamp"
  shows "get_current_user L A C t (Some (u ''bearer'', token)) =
    (if t < now + token_ttl C then Inr \<lparr>c_id = i, c_username = n\<rparr>
     else Inl (HTTPException 401 (u ''Access token expired'')))"
  by (rule token_lifetime [OF assms])

text \<open>
  C28: No token is accepted that the service did not sign. An accepted token consists of a header
  and a payload segment and the signature of exactly these two under the secret, its payload
  names a user identifier in range, and it has not expired.
\<close>

theorem accepted_token_is_signed:
  assumes "get_current_user L A C now (Some (scheme, token)) = Inr c"
  shows "scheme = u ''bearer'' \<and> length token \<le> max_access_token_length
    \<and> (\<exists>h p s d e. token = signing_input h p @ [46] @ s \<and> b64url_decode s = Some (sign A C h p)
        \<and> segment_object L A p = Some d \<and> claims_ok d = Some (e, c_id c, c_username c) \<and> now < e
        \<and> 1 \<le> c_id c \<and> c_id c \<le> max_postgres_bigint)"
proof -
  from assms obtain d where scheme: "scheme = u ''bearer''" and dec: "decode_access_token L A C now token = Inr d"
    and c: "c = \<lparr>c_id = int (dec_val (text_of_json (get_none d ''sub''))),
                   c_username = text_of_json (get_none d ''username'')\<rparr>"
    by (auto simp: get_current_user_def rbind_eq_Inr split: if_splits)
  from dec obtain h p s e i n where parts: "split_on 46 token = [h, p, s]" "length token \<le> max_access_token_length"
      "b64url_decode s = Some (sign A C h p)" "segment_object L A p = Some d" "claims_ok d = Some (e, i, n)" "now < e"
    by (auto simp: decode_access_token_def split: if_splits list.splits option.splits)
  from split_on_join [OF parts(1)] have token: "token = signing_input h p @ [46] @ s"
    by (simp add: signing_input_def)
  from parts(5) have "c_id c = i" "c_username c = n" "1 \<le> i" "i \<le> max_postgres_bigint"
    by (auto simp: c claims_ok_def subject_id_def get_key_def get_none_def get_or_def
        split: option.splits json.splits if_splits)
  with scheme token parts show ?thesis by blast
qed

section \<open>Concrete instances\<close>

definition sample_authlib :: authlib where
  "sample_authlib = \<lparr>hmac_sha256 = (\<lambda>k m. replicate 32 (of_nat (length m))), pbkdf2 = (\<lambda>p s n. replicate 32 0),
     text_of_bytes = (\<lambda>bs. Some (map unat bs)),
     int_of_text = (\<lambda>t. Some (if take 1 t = [45] then - int (dec_val (tl t)) else int (dec_val t)))\<rparr>"

lemma sample_authlib_laws: "authlib_laws sample_authlib"
proof -
  have "map unat (ascii t) = t" if "is_ascii t" for t
    using that by (induction t) (simp_all add: ascii_def unat_of_nat)
  moreover have "take 1 (dec_nat n) \<noteq> [45]" for n
  proof -
    have "\<not> is_digit 45" by (simp add: is_digit_def)
    then show ?thesis using dec_nat_digits [of "hd (dec_nat n)" n] by (cases "dec_nat n") auto
  qed
  then have "int_of_text sample_authlib (py_str_int n) = Some n" for n
    by (simp add: sample_authlib_def py_str_int_def)
  ultimately show ?thesis by (simp add: authlib_laws_def sample_authlib_def)
qed

definition sample_auth_config :: auth_config where
  "sample_auth_config = \<lparr>secret_key = u ''0123456789abcdef0123456789abcdef'', token_ttl = 3600,
     password_iterations = 600000\<rparr>"

lemma sample_auth_config_ok: "auth_config_ok sample_auth_config" "\<not> is_unsafe_auth_secret sample_auth_config"
  by (simp_all add: auth_config_ok_def sample_auth_config_def legacy_password_iterations_def
      max_password_iterations_def max_token_ttl_def is_unsafe_auth_secret_def known_placeholder_secret_keys_def
      utf8_encode_def is_surrogate_def u_def utf8_char_def)

definition sample_token_lib :: pylib where
  "sample_token_lib = sample_lib\<lparr>loads := (\<lambda>t. Some (JObj (if t = ascii_object token_header then token_header
     else token_payload 3600 5 (u ''ann''))))\<rparr>"

definition sample_token :: ustr where
  "sample_token =
     (case create_access_token sample_authlib sample_auth_config 0 5 (u ''ann'') of Inr t \<Rightarrow> t | Inl _ \<Rightarrow> [])"

lemma sample_token_created:
  "create_access_token sample_authlib sample_auth_config 0 5 (u ''ann'') = Inr sample_token"
proof -
  have "validate_json_structure (JStr (u ''ann'')) = Inr ()"
    by (simp add: good_text_def u_def has_nul_def contains_utf16_surrogate_def)
  then show ?thesis
    by (simp add: sample_token_def create_access_token_def Let_def max_postgres_bigint_def username_ok_def
        del: validate_json_structure_ok)
qed

lemma sample_payload_loads:
  "loads sample_token_lib (ascii_object token_header) = Some (JObj token_header)"
  "loads sample_token_lib (ascii_object (token_payload (0 + token_ttl sample_auth_config) 5 (u ''ann'')))
     = Some (JObj (token_payload (0 + token_ttl sample_auth_config) 5 (u ''ann'')))"
proof -
  have "ascii_object (token_payload 3600 5 (u ''ann'')) \<noteq> ascii_object token_header"
    by (simp add: ascii_object_def token_payload_def token_header_def ascii_text_def u_def ascii_char_def)
  then show "loads sample_token_lib (ascii_object token_header) = Some (JObj token_header)"
    "loads sample_token_lib (ascii_object (token_payload (0 + token_ttl sample_auth_config) 5 (u ''ann'')))
     = Some (JObj (token_payload (0 + token_ttl sample_auth_config) 5 (u ''ann'')))"
    by (simp_all add: sample_token_lib_def sample_auth_config_def)
qed

lemma sample_token_times: "(0 :: int) \<le> 0" "0 + token_ttl sample_auth_config \<le> max_unix_timestamp"
  by (simp_all add: sample_auth_config_def max_unix_timestamp_def)

lemmas sample_token_facts =
  sample_authlib_laws sample_auth_config_ok(1) sample_token_created sample_payload_loads sample_token_times

theorem token_roundtrip_witness:
  "get_current_user sample_token_lib sample_authlib sample_auth_config 3599 (Some (u ''bearer'', sample_token))
     = Inr \<lparr>c_id = 5, c_username = u ''ann''\<rparr>
   \<and> get_current_user sample_token_lib sample_authlib sample_auth_config 3600 (Some (u ''bearer'', sample_token))
     = Inl (HTTPException 401 (u ''Access token expired''))"
  using token_roundtrip [OF sample_token_facts, of 3599] token_roundtrip [OF sample_token_facts, of 3600]
  by (simp add: sample_auth_config_def)

theorem accepted_token_is_signed_witness:
  "\<exists>h p s. sample_token = signing_input h p @ [46] @ s
     \<and> b64url_decode s = Some (sign sample_authlib sample_auth_config h p)"
proof -
  have "get_current_user sample_token_lib sample_authlib sample_auth_config 10 (Some (u ''bearer'', sample_token))
      = Inr \<lparr>c_id = 5, c_username = u ''ann''\<rparr>"
    using token_lifetime [OF sample_token_facts, of 10] by (simp add: sample_auth_config_def)
  from accepted_token_is_signed [OF this] show ?thesis by blast
qed

end
