(* ===== verification/Gateway.thy ===== *)
theory Gateway
  imports Db_Pool Auth
begin

text \<open>
  \<open>portfolio/main.py\<close> and \<open>portfolio/config.py\<close>: the checks of the settings, the limit on request
  bodies, the start of the database with its retries, the gate in front of the API routes, the
  cached worker status and the readiness report.
\<close>

section \<open>Settings\<close>

record settings =
  app_env :: ustr
  app_port :: int
  request_body_max_bytes :: int
  db_port :: int
  db_pool_minconn :: int
  db_pool_maxconn :: int
  db_connect_timeout :: int
  startup_retries :: int
  startup_retry_delay :: rat
  readiness_degraded_grace_seconds :: int
  ingress_max_retries :: int
  ingress_retry_base_delay :: rat
  dlq_replay_interval :: rat
  dlq_replay_batch_size :: int
  dlq_replay_max_count :: int
  worker_metrics_port :: int
  dlq_replayer_metrics_port :: int
  postgres_min_ready_standbys :: int
  postgres_min_sync_standbys :: int
  postgres_replication_delay_degraded_bytes :: int
  kafka_topic_partitions :: int
  kafka_topic_replication_factor :: int
  kafka_min_insync_replicas :: int

definition is_port :: "int \<Rightarrow> bool" where
  "is_port p \<longleftrightarrow> 1 \<le> p \<and> p \<le> 65535"

text \<open>The first failing check of \<open>__post_init__\<close> raises.\<close>

definition settings_error :: "settings \<Rightarrow> exn option" where
  "settings_error c =
     (if \<not> is_port (app_port c) then Some (value_error ''APP_PORT must be between 1 and 65535'')
      else if \<not> (1 \<le> request_body_max_bytes c \<and> request_body_max_bytes c \<le> 16777216)
      then Some (value_error ''REQUEST_BODY_MAX_BYTES must be between 1 and 16777216'')
      else if \<not> is_port (db_port c) then Some (value_error ''DB_PORT must be between 1 and 65535'')
      else if db_pool_minconn c < 1 \<or> db_pool_maxconn c < db_pool_minconn c
      then Some (value_error ''DB pool bounds must satisfy 1 <= min <= max'')
      else if db_connect_timeout c < 1 then Some (value_error ''DB_CONNECT_TIMEOUT must be positive'')
      else if startup_retries c < 1 \<or> startup_retry_delay c \<le> 0
      then Some (value_error ''Startup retry count and delay must be positive'')
      else if readiness_degraded_grace_seconds c < 0
      then Some (value_error ''READINESS_DEGRADED_GRACE_SECONDS must not be negative'')
      else if ingress_max_retries c < 0 \<or> ingress_retry_base_delay c < 0
      then Some (value_error ''Ingress retry settings must not be negative'')
      else if dlq_replay_interval c \<le> 0 \<or> dlq_replay_batch_size c < 1
      then Some (value_error ''DLQ replay interval and batch size must be positive'')
      else if \<not> (1 \<le> dlq_replay_max_count c \<and> dlq_replay_max_count c \<le> max_postgres_bigint)
      then Some (value_error ''DLQ_REPLAY_MAX_COUNT is outside the PostgreSQL BIGINT range'')
      else if \<not> is_port (worker_metrics_port c)
      then Some (value_error ''WORKER_METRICS_PORT must be between 1 and 65535'')
      else if \<not> is_port (dlq_replayer_metrics_port c)
      then Some (value_error ''DLQ_REPLAYER_METRICS_PORT must be between 1 and 65535'')
      else if postgres_min_ready_standbys c < 0 \<or> postgres_min_sync_standbys c < 0
      then Some (value_error ''PostgreSQL standby minimums must not be negative'')
      else if postgres_replication_delay_degraded_bytes c < 0
      then Some (value_error ''PostgreSQL replication delay threshold must not be negative'')
      else if kafka_topic_partitions c < 1 \<or> kafka_topic_replication_factor c < 1
      then Some (value_error ''Kafka partition and replication settings must be positive'')
      else if \<not> (1 \<le> kafka_min_insync_replicas c
                 \<and> kafka_min_insync_replicas c \<le> kafka_topic_replication_factor c)
      then Some (value_error ''Kafka min ISR must be within the replication factor'')
      else None)"

definition local_environments :: "ustr list" where
  "local_environments = [u ''local'', u ''development'', u ''dev'', u ''test'']"

section \<open>The limit on request bodies\<close>

text \<open>What \<open>receive\<close> hands out: a part of the body with \<open>more_body\<close>, the end of the connection, or
  another message.\<close>

datatype asgi_message = Body bytes bool | Disconnect | Other_message

text \<open>
  \<open>content_length\<close> is \<open>int(value.decode('ascii'))\<close>, \<open>None\<close> when it raises. A header that does
  not parse ends the scan; an acceptable one does not.
\<close>

definition lower_ascii :: "ustr \<Rightarrow> ustr" where
  "lower_ascii s = map (\<lambda>c. if 65 \<le> c \<and> c \<le> 90 then c + 32 else c) s"

fun declared_too_large :: "(ustr \<Rightarrow> int option) \<Rightarrow> nat \<Rightarrow> (ustr \<times> ustr) list \<Rightarrow> bool" where
  "declared_too_large content_length limit [] = False"
| "declared_too_large content_length limit ((n, v) # hs) =
     (if lower_ascii n \<noteq> u ''content-length'' then declared_too_large content_length limit hs
      else
        (case content_length v of
           None \<Rightarrow> False
         | Some k \<Rightarrow> if int limit < k then True else declared_too_large content_length limit hs))"

datatype intake = Too_large | Complete bytes bool

text \<open>
  The messages received so far; \<open>None\<close> while the next one is awaited. \<open>Complete body
  disconnected\<close> ends the loop.
\<close>

fun read_body :: "nat \<Rightarrow> bytes \<Rightarrow> asgi_message list \<Rightarrow> intake option" where
  "read_body limit body [] = None"
| "read_body limit body (Disconnect # ms) = Some (Complete body True)"
| "read_body limit body (Other_message # ms) = read_body limit body ms"
| "read_body limit body (Body b again # ms) =
     (let body' = body @ b in
      if limit < length body' then Some Too_large
      else if \<not> again then Some (Complete body' False)
      else read_body limit body' ms)"

text \<open>What the application receives, call by call.\<close>

definition replay_receive :: "bytes \<Rightarrow> bool \<Rightarrow> nat \<Rightarrow> asgi_message" where
  "replay_receive body disconnected n =
     (if n = 0 then (if disconnected then Disconnect else Body body False) else Disconnect)"

datatype gate_result = Refused nat ustr | Forwarded "nat \<Rightarrow> asgi_message"

definition limit_body ::
    "(ustr \<Rightarrow> int option) \<Rightarrow> nat \<Rightarrow> (ustr \<times> ustr) list \<Rightarrow> asgi_message list \<Rightarrow> gate_result option" where
  "limit_body content_length limit headers ms =
     (let refused = Refused 413 (u ''Request body exceeds the configured limit'') in
      if declared_too_large content_length limit headers then Some refused
      else
        (case read_body limit [] ms of
           None \<Rightarrow> None
         | Some Too_large \<Rightarrow> Some refused
         | Some (Complete body gone) \<Rightarrow> Some (Forwarded (replay_receive body gone))))"

text \<open>The body a client sent, whatever its parts: everything up to the last part.\<close>

fun sent_body :: "asgi_message list \<Rightarrow> bytes" where
  "sent_body [] = []"
| "sent_body (Disconnect # ms) = []"
| "sent_body (Other_message # ms) = sent_body ms"
| "sent_body (Body b again # ms) = b @ (if again then sent_body ms else [])"

lemma read_body_sent:
  "read_body limit body ms = Some r \<Longrightarrow> length body \<le> limit \<Longrightarrow>
     (case r of
        Too_large \<Rightarrow> limit < length (body @ sent_body ms)
      | Complete b gone \<Rightarrow> b = body @ sent_body ms \<and> length b \<le> limit)"
  by (induction limit body ms rule: read_body.induct) (auto simp: Let_def split: if_splits intake.splits)

lemma read_body_buffer:
  "read_body limit body (ms @ rest) \<noteq> None \<Longrightarrow> read_body limit body ms = None \<Longrightarrow>
     length body \<le> limit \<Longrightarrow> length (body @ sent_body ms) \<le> limit"
  by (induction limit body ms rule: read_body.induct) (auto simp: Let_def split: if_splits)

text \<open>
  The body limit is transparent below the limit and closed above it. Without an oversized
  declaration, a request whose parts add up to more than the limit is refused with 413, however
  they are cut; any other completed request reaches the application as one message with exactly
  the bytes the client sent, which are within the limit.
\<close>

theorem body_limit_transparent:
  assumes "\<not> declared_too_large content_length limit headers"
    and "limit_body content_length limit headers ms = Some r"
  shows "(r = Refused 413 (u ''Request body exceeds the configured limit'') \<and> limit < length (sent_body ms))
    \<or> (length (sent_body ms) \<le> limit
       \<and> (r = Forwarded (replay_receive (sent_body ms) False) \<or> r = Forwarded (replay_receive (sent_body ms) True)))"
proof -
  from assms obtain x where x: "read_body limit [] ms = Some x"
    and r: "r = (case x of Too_large \<Rightarrow> Refused 413 (u ''Request body exceeds the configured limit'')
      | Complete body gone \<Rightarrow> Forwarded (replay_receive body gone))"
    by (auto simp: limit_body_def Let_def split: option.splits intake.splits)
  from read_body_sent [OF x] r show ?thesis
  proof (cases x)
    case (Complete b gone)
    with read_body_sent [OF x] r show ?thesis by (cases gone) auto
  qed auto
qed

theorem body_limit_transparent_witness:
  "limit_body (\<lambda>_. None) 3 [] [Body [1, 2] True, Other_message, Body [3] False]
       = Some (Forwarded (replay_receive [1, 2, 3] False))
   \<and> limit_body (\<lambda>_. None) 3 [] [Body [1, 2] True, Body [3, 4] True]
       = Some (Refused 413 (u ''Request body exceeds the configured limit''))
   \<and> length (sent_body [Body [1, 2] True, Other_message, Body [3] False]) \<le> 3"
proof -
  have one: "\<not> declared_too_large (\<lambda>_. None) 3 []" by simp
  have run: "limit_body (\<lambda>_. None) 3 [] [Body [1, 2] True, Other_message, Body [3] False]
       = Some (Forwarded (replay_receive [1, 2, 3] False))"
    by (simp add: limit_body_def Let_def)
  from body_limit_transparent [OF one run] run show ?thesis
    by (simp add: limit_body_def Let_def)
qed

section \<open>Starting the database\<close>

definition db_startup_retry_max_seconds :: rat where
  "db_startup_retry_max_seconds = 30"

text \<open>
  \<open>_retry_db_startup_until_ready\<close>: before each attempt the thread waits, and stops when the wait
  was interrupted; the result is the list of waits and whether the schema is ready. Attempts are
  the pairs of interruption and success.
\<close>

fun retry_startup :: "rat \<Rightarrow> (bool \<times> bool) list \<Rightarrow> rat list \<times> bool" where
  "retry_startup delay [] = ([], False)"
| "retry_startup delay ((stopped, success) # as) =
     (if stopped then ([delay], False)
      else if success then ([delay], True)
      else
        (case retry_startup (min (delay * 2) db_startup_retry_max_seconds) as of
           (ds, ready) \<Rightarrow> (delay # ds, ready)))"

lemma retry_startup_bounds:
  "0 < delay \<Longrightarrow> delay \<le> db_startup_retry_max_seconds \<Longrightarrow>
     \<forall>d\<in>set (fst (retry_startup delay as)). delay \<le> d \<and> d \<le> db_startup_retry_max_seconds"
proof (induction delay as rule: retry_startup.induct)
  case (2 delay stopped success as)
  let ?d = "min (delay * 2) db_startup_retry_max_seconds"
  have d: "0 < ?d" "?d \<le> db_startup_retry_max_seconds" "delay \<le> ?d"
    using 2(2,3) by (auto simp: db_startup_retry_max_seconds_def)
  have rest: "\<forall>d\<in>set (fst (retry_startup ?d as)). delay \<le> d \<and> d \<le> db_startup_retry_max_seconds"
    if "\<not> stopped" "\<not> success"
    using 2(1) [OF that d(1,2)] d(3) order_trans by blast
  obtain ds ready where "retry_startup ?d as = (ds, ready)" by fastforce
  with rest 2(3) show ?case by auto
qed simp

lemma retry_startup_ready:
  "\<forall>(stopped, success)\<in>set as. \<not> stopped \<Longrightarrow> snd (retry_startup delay as) = (\<exists>a\<in>set as. snd a)"
  by (induction delay as rule: retry_startup.induct) (auto split: prod.splits, force)

section \<open>The gate of the API routes\<close>

text \<open>
  \<open>collect_http_metrics\<close>: what happens before and around the route. \<open>Called\<close> is the response
  of the route; \<open>None\<close> stands for an exception that is raised on.
\<close>

datatype route_outcome = Responds nat | Raises_recursion | Raises exn

definition is_api_path :: "ustr \<Rightarrow> bool" where
  "is_api_path path \<longleftrightarrow> starts_with (u ''/v1/'') path \<or> starts_with (u ''/v2/'') path"

definition secret_refused :: "settings \<Rightarrow> auth_config \<Rightarrow> bool" where
  "secret_refused c C \<longleftrightarrow> app_env c \<notin> set local_environments \<and> is_unsafe_auth_secret C"

definition gate ::
    "settings \<Rightarrow> auth_config \<Rightarrow> bool \<Rightarrow> ustr \<Rightarrow> ustr \<Rightarrow> route_outcome \<Rightarrow> exn + nat" where
  "gate c C ready path content_type route =
     (if path \<noteq> u ''/metrics'' \<and> is_api_path path \<and> \<not> ready then Inr 503
      else if path \<noteq> u ''/metrics'' \<and> is_api_path path \<and> secret_refused c C then Inr 503
      else
        (case route of
           Responds n \<Rightarrow> Inr n
         | Raises e \<Rightarrow> Inl e
         | Raises_recursion \<Rightarrow>
             if path \<noteq> u ''/metrics'' \<and> content_type = u ''application/json'' then Inr 422
             else Inl (RuntimeError (u ''RecursionError''))))"

section \<open>The cached worker status\<close>

record worker_status =
  ws_desired :: "int option"
  ws_available :: "int option"
  ws_hpa_desired :: "int option"
  ws_max :: "int option"
  ws_source :: ustr
  ws_error :: "ustr option"

text \<open>
  A result of the Prometheus query: its labels and, when present, the integer its value converts
  to. Later results for a name replace earlier ones.
\<close>

record prom_result =
  pr_labels :: "(ustr \<times> ustr) list"
  pr_value :: "int option"

definition label :: "prom_result \<Rightarrow> string \<Rightarrow> ustr option" where
  "label r k = map_of (pr_labels r) (u k)"

definition metric_names :: "string list" where
  "metric_names =
     [''kube_deployment_spec_replicas'', ''kube_deployment_status_replicas_available'',
      ''kube_horizontalpodautoscaler_status_desired_replicas'',
      ''kube_horizontalpodautoscaler_spec_max_replicas'']"

definition result_counts :: "ustr \<Rightarrow> ustr \<Rightarrow> string \<Rightarrow> prom_result \<Rightarrow> bool" where
  "result_counts deployment hpa name r \<longleftrightarrow>
     label r ''__name__'' = Some (u name)
     \<and> (starts_with (u ''kube_deployment_'') (u name) \<longrightarrow> label r ''deployment'' = Some deployment)
     \<and> (starts_with (u ''kube_horizontalpodautoscaler_'') (u name) \<longrightarrow>
          label r ''horizontalpodautoscaler'' = Some hpa)
     \<and> pr_value r \<noteq> None"

definition metric_value :: "ustr \<Rightarrow> ustr \<Rightarrow> string \<Rightarrow> prom_result list \<Rightarrow> int option" where
  "metric_value deployment hpa name rs =
     (case filter (result_counts deployment hpa name) rs of
        [] \<Rightarrow> None
      | xs \<Rightarrow> pr_value (last xs))"

definition fetch_worker_runtime_status :: "ustr \<Rightarrow> ustr \<Rightarrow> prom_result list \<Rightarrow> worker_status" where
  "fetch_worker_runtime_status deployment hpa rs =
     \<lparr>ws_desired = metric_value deployment hpa (metric_names ! 0) rs,
      ws_available = metric_value deployment hpa (metric_names ! 1) rs,
      ws_hpa_desired = metric_value deployment hpa (metric_names ! 2) rs,
      ws_max = metric_value deployment hpa (metric_names ! 3) rs,
      ws_source = u ''prometheus'', ws_error = None\<rparr>"

definition worker_unavailable :: "ustr \<Rightarrow> worker_status" where
  "worker_unavailable error =
     \<lparr>ws_desired = None, ws_available = None, ws_hpa_desired = None, ws_max = None,
      ws_source = u ''unavailable'', ws_error = Some error\<rparr>"

definition worker_status_cache_seconds :: rat where
  "worker_status_cache_seconds = 15"

type_synonym status_cache = "(worker_status \<times> rat) option"

text \<open>
  The section under \<open>_worker_status_lock\<close>; \<open>fetch\<close> is the answer of Prometheus or the name of
  the exception. The last component tells whether Prometheus was asked.
\<close>

definition worker_runtime_status ::
    "ustr \<Rightarrow> ustr \<Rightarrow> ustr + prom_result list \<Rightarrow> rat \<Rightarrow> status_cache \<Rightarrow> status_cache \<times> worker_status \<times> bool" where
  "worker_runtime_status deployment hpa fetch now cache =
     (let fresh = (case fetch of
                     Inl error \<Rightarrow> worker_unavailable error
                   | Inr rs \<Rightarrow> fetch_worker_runtime_status deployment hpa rs);
          renewed = (Some (fresh, now + worker_status_cache_seconds), fresh, True) in
      case cache of
        Some (status, until) \<Rightarrow> if now < until then (cache, status, False) else renewed
      | None \<Rightarrow> renewed)"

text \<open>Two queries of Prometheus are at least the lifetime of the cache apart.\<close>

lemma worker_status_rate:
  assumes "worker_runtime_status d h f1 t1 c0 = (c1, s1, True)"
    and "worker_runtime_status d h f2 t2 c1 = (c2, s2, q)"
  shows "if t2 < t1 + worker_status_cache_seconds then c2 = c1 \<and> s2 = s1 \<and> \<not> q else q"
  using assms by (auto simp: worker_runtime_status_def Let_def split: option.splits if_splits)

section \<open>Readiness\<close>

text \<open>The clock of \<open>time.monotonic()\<close>; \<open>int\<close> of a nonnegative difference rounds down.\<close>

definition degraded_grace_remaining ::
    "settings \<Rightarrow> ustr \<Rightarrow> rat \<Rightarrow> rat option \<Rightarrow> rat option \<times> int option" where
  "degraded_grace_remaining c status now started =
     (if status \<noteq> u ''degraded'' then (None, None)
      else
        (let since = (case started of None \<Rightarrow> now | Some t \<Rightarrow> t) in
         (Some since, Some (max 0 (readiness_degraded_grace_seconds c - \<lfloor>now - since\<rfloor>)))))"

definition readiness_reasons :: "settings \<Rightarrow> auth_config \<Rightarrow> bool \<Rightarrow> bool \<Rightarrow> pg_status \<Rightarrow> string list" where
  "readiness_reasons c C schema_ready kafka st =
     (if schema_ready then [] else [''schema_not_ready''])
     @ (if kafka then [] else [''kafka_unreachable''])
     @ (if st_primary st then [] else [''postgres_primary_unreachable''])
     @ (if st_ha_mode st then
          (if int (st_standbys st) < postgres_min_ready_standbys c
           then [''postgres_ready_standbys_below_minimum''] else [])
          @ (if int (rc_sync_standbys (st_counts st)) < postgres_min_sync_standbys c
             then [''postgres_sync_standbys_below_minimum''] else [])
          @ (if postgres_replication_delay_degraded_bytes c < rc_max_delay (st_counts st)
             then [''postgres_replication_delay_high''] else [])
        else [])
     @ (if secret_refused c C then [''unsafe_auth_secret''] else [])"

definition hard_failures :: "string list" where
  "hard_failures = [''schema_not_ready'', ''kafka_unreachable'', ''unsafe_auth_secret'']"

definition readiness_status :: "string list \<Rightarrow> nat \<times> ustr" where
  "readiness_status reasons =
     (if \<exists>r\<in>set reasons. r \<in> set hard_failures then (503, u ''not_ready'')
      else if reasons \<noteq> [] then (200, u ''degraded'')
      else (200, u ''ready''))"

record readiness =
  rd_code :: nat
  rd_status :: ustr
  rd_reasons :: "string list"
  rd_grace :: "int option"

definition build_readiness_payload ::
    "settings \<Rightarrow> auth_config \<Rightarrow> bool \<Rightarrow> bool \<Rightarrow> db_probe \<Rightarrow> rat \<Rightarrow> rat option \<Rightarrow> rat option \<times> readiness" where
  "build_readiness_payload c C schema_ready kafka probe now started =
     (let reasons = readiness_reasons c C schema_ready kafka (get_postgres_runtime_status probe);
          (code, status) = readiness_status reasons;
          (started', grace) = degraded_grace_remaining c status now started in
      (started', \<lparr>rd_code = code, rd_status = status, rd_reasons = reasons, rd_grace = grace\<rparr>))"

text \<open>
  The readiness report tells the truth. \<open>ready\<close> is reported exactly when the schema is in
  place, Kafka answers, the primary takes writes, a replicated database has its standbys within
  the limits and the secret is safe for the environment; the probe fails (503) exactly when the
  schema, Kafka or the secret is the reason, so a database failover alone only degrades; and the
  API routes are refused by the gate whenever the report blames the schema or the secret.
\<close>

theorem readiness_is_honest:
  fixes c C schema_ready kafka probe now started
  defines "R \<equiv> snd (build_readiness_payload c C schema_ready kafka probe now started)"
    and "st \<equiv> get_postgres_runtime_status probe"
  shows "(rd_status R = u ''ready'') = (schema_ready \<and> kafka \<and> st_primary st \<and> \<not> secret_refused c C
        \<and> (st_ha_mode st \<longrightarrow> postgres_min_ready_standbys c \<le> int (st_standbys st)
            \<and> postgres_min_sync_standbys c \<le> int (rc_sync_standbys (st_counts st))
            \<and> rc_max_delay (st_counts st) \<le> postgres_replication_delay_degraded_bytes c))
    \<and> (rd_code R = 503) = (\<not> schema_ready \<or> \<not> kafka \<or> secret_refused c C)
    \<and> (is_api_path path \<and> path \<noteq> u ''/metrics'' \<and> (\<not> schema_ready \<or> secret_refused c C) \<longrightarrow>
        gate c C schema_ready path ct route = Inr 503)"
proof -
  let ?rs = "readiness_reasons c C schema_ready kafka st"
  have R: "rd_status R = snd (readiness_status ?rs)" "rd_code R = fst (readiness_status ?rs)"
    by (simp_all add: R_def st_def build_readiness_payload_def Let_def split: prod.splits)
  have hard: "(\<exists>r\<in>set ?rs. r \<in> set hard_failures) = (\<not> schema_ready \<or> \<not> kafka \<or> secret_refused c C)"
  proof -
    have "''schema_not_ready'' \<in> set ?rs \<longleftrightarrow> \<not> schema_ready" "''kafka_unreachable'' \<in> set ?rs \<longleftrightarrow> \<not> kafka"
      "''unsafe_auth_secret'' \<in> set ?rs \<longleftrightarrow> secret_refused c C"
      by (simp_all add: readiness_reasons_def)
    then show ?thesis unfolding hard_failures_def by auto
  qed
  have none: "(?rs = []) = (schema_ready \<and> kafka \<and> st_primary st \<and> \<not> secret_refused c C
        \<and> (st_ha_mode st \<longrightarrow> postgres_min_ready_standbys c \<le> int (st_standbys st)
            \<and> postgres_min_sync_standbys c \<le> int (rc_sync_standbys (st_counts st))
            \<and> rc_max_delay (st_counts st) \<le> postgres_replication_delay_degraded_bytes c))"
    by (simp add: readiness_reasons_def not_less)
  have "(snd (readiness_status ?rs) = u ''ready'') = (?rs = [])"
    by (auto simp: readiness_status_def)
  moreover have "(fst (readiness_status ?rs) = 503) = (\<exists>r\<in>set ?rs. r \<in> set hard_failures)"
    by (simp add: readiness_status_def)
  moreover have "is_api_path path \<and> path \<noteq> u ''/metrics'' \<and> (\<not> schema_ready \<or> secret_refused c C) \<longrightarrow>
        gate c C schema_ready path ct route = Inr 503"
    by (auto simp: gate_def)
  ultimately show ?thesis using R hard none by simp
qed

definition sample_settings :: settings where
  "sample_settings = \<lparr>app_env = u ''prod'', app_port = 8000, request_body_max_bytes = 1048576, db_port = 5432,
     db_pool_minconn = 1, db_pool_maxconn = 20, db_connect_timeout = 3, startup_retries = 30,
     startup_retry_delay = 2, readiness_degraded_grace_seconds = 30, ingress_max_retries = 3,
     ingress_retry_base_delay = 2, dlq_replay_interval = 1 / 5, dlq_replay_batch_size = 5,
     dlq_replay_max_count = 3, worker_metrics_port = 9101, dlq_replayer_metrics_port = 9102,
     postgres_min_ready_standbys = 2, postgres_min_sync_standbys = 1,
     postgres_replication_delay_degraded_bytes = 1048576, kafka_topic_partitions = 8,
     kafka_topic_replication_factor = 3, kafka_min_insync_replicas = 2\<rparr>"

lemma sample_settings_ok: "settings_error sample_settings = None"
  by (simp add: settings_error_def sample_settings_def is_port_def max_postgres_bigint_def)

lemma sample_secret_fine: "\<not> secret_refused sample_settings sample_auth_config"
  by (simp add: secret_refused_def sample_auth_config_ok)

theorem readiness_is_honest_witness:
  "rd_status (snd (build_readiness_payload sample_settings sample_auth_config True True (Single True) 0 None))
       = u ''ready''
   \<and> rd_code (snd (build_readiness_payload sample_settings sample_auth_config True True
        (Unreachable OperationalError) 0 None)) \<noteq> 503
   \<and> gate sample_settings sample_auth_config False (u ''/v1/users'') [] (Responds 200) = Inr 503"
proof -
  have api: "is_api_path (u ''/v1/users'') \<and> u ''/v1/users'' \<noteq> u ''/metrics''"
    by (simp add: is_api_path_def starts_with_def) (simp add: u_def)
  show ?thesis
    using readiness_is_honest [of sample_settings sample_auth_config True True "Single True" 0 None]
      readiness_is_honest [of sample_settings sample_auth_config True True "Unreachable OperationalError" 0 None]
      readiness_is_honest [of sample_settings sample_auth_config False True "Single True" 0 None
        "u ''/v1/users''" "[]" "Responds 200"] api sample_secret_fine
    by (simp add: get_postgres_runtime_status_def)
qed

end
