(* ===== verification/Api.thy ===== *)
theory Api
  imports Auth Ingress_Handler
begin

text \<open>
  \<open>portfolio/api.py\<close> with the request models of \<open>portfolio/schemas.py\<close>: users and streams, the
  three intakes of events, the reads of a stream, read receipts, request statuses and the reset
  of the demo. An operation takes the validated request, the caller and the inputs of its
  environment (identifiers, times, the outcome of the transaction or of the send) and answers
  with an HTTP error or its response.
\<close>

section \<open>Request models\<close>

text \<open>\<open>UnicodeScalarText\<close> with length bounds.\<close>

definition scalar_text :: "nat \<Rightarrow> nat \<Rightarrow> ustr \<Rightarrow> bool" where
  "scalar_text lo hi s \<longleftrightarrow> lo \<le> length s \<and> length s \<le> hi \<and> validate_json_structure (JStr s) = Inr ()"

definition user_create_ok :: "ustr \<Rightarrow> ustr \<Rightarrow> bool" where
  "user_create_ok username password \<longleftrightarrow> scalar_text 2 30 username \<and> scalar_text 8 128 password"

definition stream_create_ok :: "ustr \<Rightarrow> int list \<Rightarrow> bool" where
  "stream_create_ok name member_ids \<longleftrightarrow>
     scalar_text 2 50 name \<and> length member_ids \<le> 100
     \<and> list_all (\<lambda>i. 0 < i \<and> i \<le> max_postgres_bigint) member_ids"

definition event_create_ok :: "ustr \<Rightarrow> bool" where
  "event_create_ok body \<longleftrightarrow> scalar_text 1 1000 body"

text \<open>\<open>GenericEventCreate\<close>: the pattern and the size limits of the envelope.\<close>

record generic_event =
  g_event_type :: ustr
  g_payload :: obj
  g_metadata :: obj

definition generic_event_ok :: "pylib \<Rightarrow> generic_event \<Rightarrow> bool" where
  "generic_event_ok L x \<longleftrightarrow>
     1 \<le> length (g_event_type x) \<and> length (g_event_type x) \<le> 50 \<and> is_generic_event_type (g_event_type x)
     \<and> validate_json_structure (JObj (g_payload x)) = Inr ()
     \<and> validate_json_structure (JObj (g_metadata x)) = Inr ()
     \<and> json_bytes L (JObj (g_payload x)) \<le> 65536
     \<and> json_bytes L (JObj (g_metadata x)) \<le> 16384"

record order_event =
  oe_event_type :: ustr
  oe_body :: ustr
  oe_payment_id :: "ustr option"

definition order_event_ok :: "order_event \<Rightarrow> bool" where
  "order_event_ok x \<longleftrightarrow>
     scalar_text 1 50 (oe_event_type x) \<and> scalar_text 1 1000 (oe_body x)
     \<and> (case oe_payment_id x of None \<Rightarrow> True | Some p \<Rightarrow> scalar_text 0 80 p)"

text \<open>The path parameter and the header shared by the intakes.\<close>

definition stream_id_ok :: "int \<Rightarrow> bool" where
  "stream_id_ok i \<longleftrightarrow> 1 \<le> i \<and> i \<le> max_postgres_bigint"

definition idempotency_header_ok :: "ustr option \<Rightarrow> bool" where
  "idempotency_header_ok k \<longleftrightarrow>
     (case k of None \<Rightarrow> True | Some s \<Rightarrow> 1 \<le> length s \<and> length s \<le> 128 \<and> 0 \<notin> set s)"

section \<open>Errors\<close>

fun is_store_error :: "exn \<Rightarrow> bool" where
  "is_store_error OperationalError = True"
| "is_store_error InterfaceError = True"
| "is_store_error PoolError = True"
| "is_store_error _ = False"

definition unavailable :: "string \<Rightarrow> exn + 'a \<Rightarrow> exn + 'a" where
  "unavailable detail r =
     (case r of
        Inl e \<Rightarrow> if is_store_error e then Inl (HTTPException 503 (u detail)) else Inl e
      | Inr x \<Rightarrow> Inr x)"

text \<open>A read: the connection may fail, the statements see one state of the tables.\<close>

definition read_tx :: "exn option \<Rightarrow> exn + 'a \<Rightarrow> exn + 'a" where
  "read_tx fault r = (case fault of Some e \<Rightarrow> Inl e | None \<Rightarrow> r)"

section \<open>Users and login\<close>

text \<open>The user name is unique; \<open>UniqueViolation\<close> becomes a conflict.\<close>

definition insert_user :: "ustr \<Rightarrow> ustr \<Rightarrow> db \<Rightarrow> db \<times> (exn + caller)" where
  "insert_user username password_hash db =
     (let i = user_ids db; db' = db\<lparr>user_ids := i + 1\<rparr> in
      if username \<in> usr_name ` set (users db) then (db', Inl IntegrityError)
      else
        (db'\<lparr>users := users db @ [\<lparr>usr_id = i, usr_name = username, usr_password_hash = Some password_hash\<rparr>]\<rparr>,
         Inr \<lparr>c_id = i, c_username = username\<rparr>))"

definition create_user ::
    "authlib \<Rightarrow> auth_config \<Rightarrow> bytes \<Rightarrow> tx_fault \<Rightarrow> ustr \<Rightarrow> ustr \<Rightarrow> db \<Rightarrow> db \<times> (exn + caller)" where
  "create_user A C salt f username password db =
     (case hash_password A C salt password of
        Inl e \<Rightarrow> (db, Inl e)
      | Inr h \<Rightarrow>
          (case run_tx f (insert_user username h) db of
             (db', Inl e) \<Rightarrow>
               (db', if e = IntegrityError then Inl (HTTPException 409 (u ''Username already exists''))
                     else unavailable ''User store unavailable'' (Inl e))
           | (db', Inr c) \<Rightarrow> (db', Inr c)))"

definition login ::
    "authlib \<Rightarrow> auth_config \<Rightarrow> exn option \<Rightarrow> int \<Rightarrow> ustr \<Rightarrow> ustr \<Rightarrow> db \<Rightarrow> exn + ustr \<times> caller" where
  "login A C fault now username password db =
     (case unavailable ''Authentication store unavailable''
             (read_tx fault (Inr (authenticate_user A C username password db))) of
        Inl e \<Rightarrow> Inl e
      | Inr None \<Rightarrow> Inl (HTTPException 401 (u ''Invalid username or password''))
      | Inr (Some c) \<Rightarrow>
          rbind (create_access_token A C now (c_id c) (c_username c)) (\<lambda>t. Inr (t, c)))"

section \<open>Streams\<close>

record stream_response =
  sr_id :: int
  sr_name :: ustr
  sr_member_ids :: "int list"

definition py_int_list :: "int list \<Rightarrow> ustr" where
  "py_int_list xs =
     u ''['' @ concat (case xs of [] \<Rightarrow> [] | x # ys \<Rightarrow> py_str_int x # map (\<lambda>y. u '', '' @ py_str_int y) ys) @ u '']''"

definition insert_stream :: "ustr \<Rightarrow> int list \<Rightarrow> int \<Rightarrow> db \<Rightarrow> db \<times> (exn + stream_response)" where
  "insert_stream name member_ids caller db0 =
     (let r = room_ids db0;
          db = db0\<lparr>rooms := rooms db0 @ [(r, name)], room_ids := r + 1\<rparr>;
          candidates = sorted_list_of_set (insert caller (set member_ids));
          valid = filter (user_exists db) candidates;
          missing = filter (\<lambda>i. \<not> user_exists db i) candidates in
      if missing \<noteq> [] then (db, Inl (HTTPException 400 (u ''Unknown member_ids: '' @ py_int_list missing)))
      else
        (db\<lparr>room_members := room_members db @ filter (\<lambda>p. p \<notin> set (room_members db)) (map (Pair r) valid)\<rparr>,
         Inr \<lparr>sr_id = r, sr_name = name, sr_member_ids = valid\<rparr>))"

definition create_stream ::
    "tx_fault \<Rightarrow> ustr \<Rightarrow> int list \<Rightarrow> caller \<Rightarrow> db \<Rightarrow> db \<times> (exn + stream_response)" where
  "create_stream f name member_ids c db =
     (case run_tx f (insert_stream name member_ids (c_id c)) db of
        (db', r) \<Rightarrow> (db', unavailable ''Stream store unavailable'' r))"

section \<open>Intake of events\<close>

text \<open>
  The inputs of a request: \<open>str(uuid4())\<close>, the time of day as ISO text, the answer of the
  broker. An intake answers 202 with the accepted response, or 503 whatever the send raised.
\<close>

record intake_env =
  in_request_id :: ustr
  in_queued_at :: ustr
  in_send :: send_result

definition queue_job :: "intake_env \<Rightarrow> int \<Rightarrow> obj \<Rightarrow> obj \<Rightarrow> topic \<Rightarrow> topic \<times> (exn + obj)" where
  "queue_job e stream job_payload accepted t =
     (case publish_job (in_send e) stream (JObj job_payload) t of
        (t', Inl _) \<Rightarrow> (t', Inl (HTTPException 503 (u ''Kafka unavailable'')))
      | (t', Inr _) \<Rightarrow> (t', Inr accepted))"

definition route_text :: "string \<Rightarrow> string \<Rightarrow> int \<Rightarrow> ustr" where
  "route_text version kind i = u ''POST:/'' @ u version @ u ''/'' @ u kind @ u ''/'' @ py_str_int i @ u ''/events''"

definition event_accepted :: "intake_env \<Rightarrow> int \<Rightarrow> int \<Rightarrow> ustr \<Rightarrow> obj" where
  "event_accepted e stream actor body =
     [(u ''request_id'', JStr (in_request_id e)), (u ''status'', JStr (u ''accepted'')),
      (u ''persistence'', JStr (u ''queued'')), (u ''stream_id'', JInt stream),
      (u ''user_id'', JInt actor), (u ''body'', JStr body), (u ''queued_at'', JStr (in_queued_at e))]"

definition event_job :: "intake_env \<Rightarrow> int \<Rightarrow> int \<Rightarrow> ustr option \<Rightarrow> ustr \<Rightarrow> obj" where
  "event_job e stream actor key body =
     [(u ''request_id'', JStr (in_request_id e)), (u ''route'', JStr (route_text ''v1'' ''streams'' stream)),
      (u ''room_id'', JInt stream), (u ''user_id'', JInt actor), (u ''body'', JStr body),
      (u ''room_seq'', JNull), (u ''x_idempotency_key'', json_opt JStr key),
      (u ''queued_at'', JStr (in_queued_at e)), (u ''retry_count'', JInt 0), (u ''next_retry_at'', JNull)]"

definition create_event ::
    "intake_env \<Rightarrow> int \<Rightarrow> ustr \<Rightarrow> ustr option \<Rightarrow> caller \<Rightarrow> topic \<Rightarrow> topic \<times> (exn + obj)" where
  "create_event e stream body key c =
     queue_job e stream (event_job e stream (c_id c) key body) (event_accepted e stream (c_id c) body)"

definition generic_accepted :: "intake_env \<Rightarrow> int \<Rightarrow> int \<Rightarrow> generic_event \<Rightarrow> obj" where
  "generic_accepted e stream actor x =
     [(u ''request_id'', JStr (in_request_id e)), (u ''status'', JStr (u ''accepted'')),
      (u ''persistence'', JStr (u ''queued'')), (u ''stream_id'', JInt stream), (u ''actor_id'', JInt actor),
      (u ''event_type'', JStr (g_event_type x)), (u ''schema_version'', JInt 2),
      (u ''payload'', JObj (g_payload x)), (u ''metadata'', JObj (g_metadata x)),
      (u ''queued_at'', JStr (in_queued_at e))]"

definition generic_job :: "pylib \<Rightarrow> intake_env \<Rightarrow> int \<Rightarrow> int \<Rightarrow> ustr option \<Rightarrow> generic_event \<Rightarrow> obj" where
  "generic_job L e stream actor key x =
     generic_accepted e stream actor x @
     [(u ''route'', JStr (route_text ''v2'' ''streams'' stream)), (u ''room_id'', JInt stream),
      (u ''user_id'', JInt actor), (u ''body'', JStr (legacy_body_preview L (g_payload x))),
      (u ''room_seq'', JNull), (u ''x_idempotency_key'', json_opt JStr key),
      (u ''retry_count'', JInt 0), (u ''next_retry_at'', JNull)]"

definition create_generic_event ::
    "pylib \<Rightarrow> bool \<Rightarrow> intake_env \<Rightarrow> int \<Rightarrow> generic_event \<Rightarrow> ustr option \<Rightarrow> caller \<Rightarrow> topic \<Rightarrow> topic \<times> (exn + obj)" where
  "create_generic_event L enabled e stream x key c t =
     (if \<not> enabled then (t, Inl (HTTPException 503 (u ''Generic event v2 intake is not enabled'')))
      else queue_job e stream (generic_job L e stream (c_id c) key x) (generic_accepted e stream (c_id c) x) t)"

definition order_metadata :: "order_event \<Rightarrow> obj" where
  "order_metadata x =
     [(u ''reference_scenario'', JStr (u ''order-lifecycle'')),
      (u ''classification'', JStr (classify_order_event (oe_event_type x))),
      (u ''external_references'',
         JObj (case oe_payment_id x of
                 Some (p # ps) \<Rightarrow> [(u ''payment'', JStr (p # ps))]
               | _ \<Rightarrow> []))]"

definition order_accepted :: "intake_env \<Rightarrow> int \<Rightarrow> int \<Rightarrow> order_event \<Rightarrow> obj" where
  "order_accepted e order_id actor x =
     [(u ''request_id'', JStr (in_request_id e)), (u ''status'', JStr (u ''accepted'')),
      (u ''persistence'', JStr (u ''queued'')), (u ''order_id'', JInt order_id), (u ''stream_id'', JInt order_id),
      (u ''user_id'', JInt actor), (u ''event_type'', JStr (oe_event_type x)),
      (u ''category'', JStr (classify_order_event (oe_event_type x))), (u ''body'', JStr (oe_body x)),
      (u ''payment_id'', json_opt JStr (oe_payment_id x)), (u ''queued_at'', JStr (in_queued_at e))]"

definition order_job :: "intake_env \<Rightarrow> int \<Rightarrow> int \<Rightarrow> ustr option \<Rightarrow> order_event \<Rightarrow> obj" where
  "order_job e order_id actor key x =
     [(u ''request_id'', JStr (in_request_id e)), (u ''route'', JStr (route_text ''v1'' ''orders'' order_id)),
      (u ''room_id'', JInt order_id), (u ''user_id'', JInt actor), (u ''body'', JStr (oe_body x)),
      (u ''room_seq'', JNull), (u ''x_idempotency_key'', json_opt JStr key),
      (u ''queued_at'', JStr (in_queued_at e)), (u ''retry_count'', JInt 0), (u ''next_retry_at'', JNull),
      (u ''schema_version'', JInt 1), (u ''event_type'', JStr (oe_event_type x)),
      (u ''payload'', JObj [(u ''text'', JStr (oe_body x))]), (u ''metadata'', JObj (order_metadata x)),
      (u ''category'', JStr (classify_order_event (oe_event_type x))),
      (u ''payment_id'', json_opt JStr (oe_payment_id x))]"

definition create_order_event ::
    "intake_env \<Rightarrow> int \<Rightarrow> order_event \<Rightarrow> ustr option \<Rightarrow> caller \<Rightarrow> topic \<Rightarrow> topic \<times> (exn + obj)" where
  "create_order_event e order_id x key c =
     queue_job e order_id (order_job e order_id (c_id c) key x) (order_accepted e order_id (c_id c) x)"

section \<open>Every accepted event is a job the worker takes\<close>

subsection \<open>Routes\<close>

lemma take_dec_nat: "takeWhile is_digit (dec_nat n @ u ''/events'') = dec_nat n"
    "dropWhile is_digit (dec_nat n @ u ''/events'') = u ''/events''"
proof -
  have "\<forall>c\<in>set (dec_nat n). is_digit c" using dec_nat_digits by blast
  moreover have "u ''/events'' = 47 # u ''events''" "\<not> is_digit 47" by (simp_all add: u_def is_digit_def)
  ultimately show "takeWhile is_digit (dec_nat n @ u ''/events'') = dec_nat n"
    "dropWhile is_digit (dec_nat n @ u ''/events'') = u ''/events''"
    by (simp_all add: takeWhile_append2 dropWhile_append2)
qed

lemma parse_tail: "0 < n \<Longrightarrow> parse_route_tail (dec_nat n @ u ''/events'') = Some n"
  using dec_nat_hd [of n] by (auto simp: parse_route_tail_def take_dec_nat)

lemma strip_prefix_append [simp]: "strip_prefix p (p @ s) = Some s"
  by (simp add: strip_prefix_def)

lemma route_shape:
  assumes "0 < i"
  shows "route_text ''v1'' ''streams'' i = u ''POST:/v'' @ 49 # u ''/streams/'' @ dec_nat (nat i) @ u ''/events''"
    and "route_text ''v2'' ''streams'' i = u ''POST:/v'' @ 50 # u ''/streams/'' @ dec_nat (nat i) @ u ''/events''"
    and "route_text ''v1'' ''orders'' i = u ''POST:/v'' @ 49 # u ''/orders/'' @ dec_nat (nat i) @ u ''/events''"
  using assms by (simp_all add: route_text_def py_str_int_def u_def)

lemma orders_not_streams: "strip_prefix (u ''/streams/'') (u ''/orders/'' @ s) = None"
  by (simp add: strip_prefix_def starts_with_def u_def)

lemma parse_routes:
  assumes "0 < i"
  shows "parse_route (route_text ''v1'' ''streams'' i) = Some (1, Streams, nat i)"
    and "parse_route (route_text ''v2'' ''streams'' i) = Some (2, Streams, nat i)"
    and "parse_route (route_text ''v1'' ''orders'' i) = Some (1, Orders, nat i)"
  using assms unfolding route_shape [OF assms] parse_route_def
  by (simp_all add: parse_tail orders_not_streams)

lemma routes_generic:
  assumes "0 < i"
  shows "\<not> starts_with (u ''POST:/v2/'') (route_text ''v1'' ''streams'' i)"
    and "starts_with (u ''POST:/v2/'') (route_text ''v2'' ''streams'' i)"
    and "\<not> starts_with (u ''POST:/v2/'') (route_text ''v1'' ''orders'' i)"
  by (simp_all add: route_text_def starts_with_def u_def)

lemma route_bounded:
  assumes "0 < i" "i \<le> max_postgres_bigint" "v \<in> {''v1'', ''v2''}" "k \<in> {''streams'', ''orders''}"
  shows "bounded_text 500 (JStr (route_text v k i))" "good_text (route_text v k i)"
proof -
  have digits: "\<forall>c\<in>set (dec_nat (nat i)). 48 \<le> c \<and> c \<le> 57"
    using dec_nat_digits by (force simp: is_digit_def)
  have "length (dec_nat (nat i)) \<le> 19"
    using assms by (intro length_dec_nat_le) (auto simp: max_postgres_bigint_def nat_less_iff)
  moreover have range: "\<forall>c\<in>set (route_text v k i). 45 \<le> c \<and> c \<le> 122"
    using assms digits by (auto simp: route_text_def py_str_int_def u_def)
  then have "\<not> has_nul (route_text v k i)" by (force simp: has_nul_def)
  ultimately show "bounded_text 500 (JStr (route_text v k i))"
    using assms by (auto simp: route_text_def py_str_int_def)
  show "good_text (route_text v k i)"
    using range by (force simp: good_text_def has_nul_def contains_utf16_surrogate_def list_ex_iff)
qed

subsection \<open>Sizes\<close>

lemma utf8_len_append: "utf8_len (a @ b) = utf8_len a + utf8_len b"
  by (simp add: utf8_len_def)

lemma utf8_dumps_text: "utf8_len (dumps_text s) \<le> 6 * length s + 2"
proof -
  have "utf8_len (dumps_char c) \<le> 6" for c by (auto simp: utf8_len_def hex_digit_def)
  then have "utf8_len (concat (map dumps_char s)) \<le> 6 * length s"
    by (induction s) (auto simp: utf8_len_append utf8_len_def [of "[]"] simp del: dumps_char.simps intro: add_le_mono)
  then show ?thesis by (simp add: dumps_text_def utf8_len_append) (simp add: utf8_len_def)
qed

lemma utf8_dumps_u: "utf8_len (dumps_text (u s)) \<le> 6 * length s + 2"
  using utf8_dumps_text [of "u s"] by simp

lemma text_payload_bytes: "length s \<le> 1000 \<Longrightarrow> json_bytes L (JObj [(u ''text'', JStr s)]) \<le> 65536"
  using utf8_dumps_text [of s] utf8_dumps_u [of "''text''"]
  by (simp add: json_bytes_def utf8_len_append) (simp add: utf8_len_def)

lemma category_short: "length (classify_order_event et) \<le> 40 \<and> good_text (classify_order_event et)"
proof (cases "map_of order_event_category_map et")
  case None
  then show ?thesis by (simp add: classify_order_event_def)
next
  case (Some c)
  then have "c \<in> snd ` set order_event_category_map" by (auto dest: map_of_SomeD intro: image_eqI [rotated])
  then have "length c \<le> 40 \<and> good_text c" by (auto simp: order_event_category_map_def)
  with Some show ?thesis by (simp add: classify_order_event_def)
qed

subsection \<open>The jobs\<close>

text \<open>What the environment delivers: an identifier like a UUID and an ISO time, both plain text.\<close>

definition intake_env_ok :: "pylib \<Rightarrow> intake_env \<Rightarrow> bool" where
  "intake_env_ok L e \<longleftrightarrow>
     bounded_text 80 (JStr (in_request_id e)) \<and> good_text (in_request_id e)
     \<and> iso_timestamp L (JStr (in_queued_at e)) \<and> good_text (in_queued_at e)"

definition intake_job ::
    "pylib \<Rightarrow> intake_env \<Rightarrow> ustr \<Rightarrow> int \<Rightarrow> int \<Rightarrow> int \<Rightarrow> ustr \<Rightarrow> obj \<Rightarrow> obj \<Rightarrow> ustr option \<Rightarrow> ustr option \<Rightarrow> job" where
  "intake_job L e route stream actor version et p m key payment =
     \<lparr>j_request_id = in_request_id e, j_route = route, j_room_id = stream, j_user_id = actor, j_room_seq = None,
      j_schema_version = version, j_event_type = et, j_payload = p, j_metadata = m,
      j_body = legacy_body_preview L p, j_idem_key = key, j_retry_count = 0, j_replay_count = 0,
      j_next_retry_at = None, j_queued_at = Some (in_queued_at e), j_replayed_at = None, j_payment_id = payment\<rparr>"

lemma idempotency_text: "idempotency_header_ok k \<Longrightarrow> optional (bounded_text 128) (json_opt JStr k)"
  by (auto simp: idempotency_header_ok_def optional_def has_nul_def split: option.splits)

lemma scalar_textD: "scalar_text lo hi s \<Longrightarrow> lo \<le> length s \<and> length s \<le> hi \<and> good_text s"
  by (simp add: scalar_text_def)

lemma good_text_bounded: "good_text s \<Longrightarrow> 1 \<le> length s \<Longrightarrow> length s \<le> n \<Longrightarrow> bounded_text n (JStr s)"
  by (auto simp: good_text_def)

lemma intake_rest_ok:
  assumes "intake_env_ok L e" "idempotency_header_ok key" "payment = None \<or> (\<exists>p. payment = Some p \<and> scalar_text 0 80 p)"
  shows "job_rest_ok L (intake_job L e route stream actor version et p m key payment)"
proof -
  have "optional payment_text (json_opt JStr payment)"
    using assms(3) by (auto simp: optional_def scalar_text_def good_text_def)
  then show ?thesis
    using assms(1) idempotency_text [OF assms(2)]
    by (simp add: job_rest_ok_def intake_job_def intake_env_ok_def optional_def max_postgres_bigint_def)
qed

lemma event_job_presents:
  assumes "intake_env_ok L e" "idempotency_header_ok key" "stream_id_ok stream" "stream_id_ok actor" "event_create_ok body"
  defines "j \<equiv> intake_job L e (route_text ''v1'' ''streams'' stream) stream actor 1 (u ''legacy.message'')
      [(u ''text'', JStr body)] [] key None"
  shows "job_wf L j" "presents L (event_job e stream actor key body) j"
proof -
  let ?d = "event_job e stream actor key body"
  from assms have pos: "0 < stream" "stream \<le> max_postgres_bigint" "0 < actor" "actor \<le> max_postgres_bigint"
    by (simp_all add: stream_id_ok_def)
  from assms(5) have body: "1 \<le> length body" "length body \<le> 1000" "good_text body"
    by (auto simp: event_create_ok_def dest: scalar_textD)
  have env: "envelope_ok L False (u ''legacy.message'') [(u ''text'', JStr body)] []"
    using body(3) text_payload_bytes [OF body(2), of L]
    by (simp add: envelope_ok_def max_json_nesting_depth_def good_text_u) (simp add: json_bytes_def utf8_len_def)
  have generic: "job_generic j = False"
    using routes_generic(1) [OF pos(1)] by (simp add: job_generic_def j_def intake_job_def)
  have "job_identity_ok j"
    using assms(1) pos route_bounded(1) [OF pos(1,2), of "''v1''" "''streams''"]
    by (simp add: job_identity_ok_def j_def intake_job_def intake_env_ok_def job_route_ok_def parse_routes)
  then show "job_wf L j"
    using env generic intake_rest_ok [OF assms(1,2), of None] by (simp add: job_wf_def j_def intake_job_def)
  let ?d1 = "set_key ?d ''schema_version'' (JInt 1)"
  have "\<not> is_generic_envelope ?d1"
    using routes_generic(1) [OF pos(1)] by (simp add: is_generic_envelope_def event_job_def text_simps)
  then have "event_envelope L ?d1 = Inr (u ''legacy.message'', [(u ''text'', JStr body)], [])"
    using env envelope_ok_structure [OF env]
    by (simp add: event_envelope_def envelope_event_type_def envelope_payload_def legacy_metadata_def
        event_job_def text_simps envelope_ok_def Let_def del: json_ok.simps validate_json_structure_ok)
  then show "presents L ?d j"
    by (simp add: presents_def j_def intake_job_def) (simp add: event_job_def text_simps)
qed

lemma generic_type_plain: "is_generic_event_type s \<Longrightarrow> good_text s"
  by (cases s) (fastforce simp: good_text_def has_nul_def contains_utf16_surrogate_def list_ex_iff
      list_all_iff is_alnum_def event_type_tail_char_def)+

lemma generic_job_presents:
  assumes "intake_env_ok L e" "idempotency_header_ok key" "stream_id_ok stream" "stream_id_ok actor"
    and "generic_event_ok L x"
  defines "j \<equiv> intake_job L e (route_text ''v2'' ''streams'' stream) stream actor 2 (g_event_type x)
      (g_payload x) (g_metadata x) key None"
  shows "job_wf L j" "presents L (generic_job L e stream actor key x) j"
proof -
  let ?d = "generic_job L e stream actor key x"
  from assms have pos: "0 < stream" "stream \<le> max_postgres_bigint" "0 < actor" "actor \<le> max_postgres_bigint"
    by (simp_all add: stream_id_ok_def)
  have et: "bounded_text 50 (JStr (g_event_type x))"
    using assms(5) generic_type_plain by (intro good_text_bounded) (auto simp: generic_event_ok_def)
  have env: "envelope_ok L True (g_event_type x) (g_payload x) (g_metadata x)"
    using assms(5) et by (simp add: envelope_ok_def generic_event_ok_def del: json_ok.simps)
  have "job_identity_ok j"
    using assms(1) pos route_bounded(1) [OF pos(1,2), of "''v2''" "''streams''"]
    by (simp add: job_identity_ok_def j_def intake_job_def intake_env_ok_def job_route_ok_def parse_routes)
  then show "job_wf L j"
    using env intake_rest_ok [OF assms(1,2), of None]
    by (simp add: job_wf_def j_def intake_job_def job_generic_def)
  let ?d1 = "set_key ?d ''schema_version'' (JInt 2)"
  have "event_envelope L ?d1 = Inr (g_event_type x, g_payload x, g_metadata x)"
  proof (rule event_envelope_full)
    show "envelope_ok L (is_generic_envelope ?d1) (g_event_type x) (g_payload x) (g_metadata x)"
      using env by (simp add: is_generic_envelope_def)
  qed (simp_all add: generic_job_def generic_accepted_def text_simps)
  then show "presents L ?d j"
    by (simp add: presents_def j_def intake_job_def) (simp add: generic_job_def generic_accepted_def text_simps)
qed

lemma order_metadata_ok:
  assumes "order_event_ok x"
  shows "json_ok max_json_nesting_depth (JObj (order_metadata x))" "json_bytes L (JObj (order_metadata x)) \<le> 16384"
proof -
  let ?c = "classify_order_event (oe_event_type x)"
  have pay: "length p \<le> 80 \<and> good_text p" if "oe_payment_id x = Some p" for p
    using assms that by (simp add: order_event_ok_def scalar_text_def)
  show "json_ok max_json_nesting_depth (JObj (order_metadata x))"
    using pay category_short [of "oe_event_type x"]
    by (auto simp: order_metadata_def max_json_nesting_depth_def split: option.splits list.splits)
  have "utf8_len (dumps_compact L (JObj (case oe_payment_id x of
                 Some (p # ps) \<Rightarrow> [(u ''payment'', JStr (p # ps))] | _ \<Rightarrow> []))) \<le> 1000"
  proof (cases "oe_payment_id x")
    case None
    then show ?thesis by (simp add: utf8_len_def)
  next
    case (Some p)
    then show ?thesis
      using pay [OF Some] utf8_dumps_text [of p] utf8_dumps_u [of "''payment''"]
      by (cases p) (simp_all add: utf8_len_append, simp_all add: utf8_len_def)
  qed
  moreover have "utf8_len (dumps_text ?c) \<le> 242"
    using utf8_dumps_text [of ?c] category_short [of "oe_event_type x"] by simp
  ultimately show "json_bytes L (JObj (order_metadata x)) \<le> 16384"
    using utf8_dumps_u [of "''reference_scenario''"] utf8_dumps_u [of "''order-lifecycle''"]
      utf8_dumps_u [of "''classification''"] utf8_dumps_u [of "''external_references''"]
    by (simp add: json_bytes_def order_metadata_def utf8_len_append) (simp add: utf8_len_def)
qed

lemma order_job_presents:
  assumes "intake_env_ok L e" "idempotency_header_ok key" "stream_id_ok order_id" "stream_id_ok actor"
    and "order_event_ok x"
  defines "j \<equiv> intake_job L e (route_text ''v1'' ''orders'' order_id) order_id actor 1 (oe_event_type x)
      [(u ''text'', JStr (oe_body x))] (order_metadata x) key (oe_payment_id x)"
  shows "job_wf L j" "presents L (order_job e order_id actor key x) j"
proof -
  let ?d = "order_job e order_id actor key x"
  from assms have pos: "0 < order_id" "order_id \<le> max_postgres_bigint" "0 < actor" "actor \<le> max_postgres_bigint"
    by (simp_all add: stream_id_ok_def)
  from assms(5) have texts: "1 \<le> length (oe_body x)" "length (oe_body x) \<le> 1000" "good_text (oe_body x)"
      "good_text (oe_event_type x)" "1 \<le> length (oe_event_type x)" "length (oe_event_type x) \<le> 50"
    by (auto simp: order_event_ok_def dest: scalar_textD)
  have pay: "oe_payment_id x = None \<or> (\<exists>p. oe_payment_id x = Some p \<and> scalar_text 0 80 p)"
    using assms(5) by (auto simp: order_event_ok_def split: option.splits)
  have "bounded_text 50 (JStr (oe_event_type x))" by (rule good_text_bounded [OF texts(4-6)])
  then have env: "envelope_ok L False (oe_event_type x) [(u ''text'', JStr (oe_body x))] (order_metadata x)"
    using texts text_payload_bytes [OF texts(2), of L] order_metadata_ok [OF assms(5)]
    by (simp add: envelope_ok_def max_json_nesting_depth_def)
  have generic: "\<not> job_generic j"
    using routes_generic(3) [OF pos(1)] by (simp add: job_generic_def j_def intake_job_def)
  have "job_identity_ok j"
    using assms(1) pos route_bounded(1) [OF pos(1,2), of "''v1''" "''orders''"]
    by (simp add: job_identity_ok_def j_def intake_job_def intake_env_ok_def job_route_ok_def parse_routes)
  then show "job_wf L j"
    using env generic intake_rest_ok [OF assms(1,2) pay] by (simp add: job_wf_def j_def intake_job_def)
  let ?d1 = "set_key ?d ''schema_version'' (JInt 1)"
  have "event_envelope L ?d1 = Inr (oe_event_type x, [(u ''text'', JStr (oe_body x))], order_metadata x)"
  proof (rule event_envelope_full)
    have "\<not> is_generic_envelope ?d1"
      using routes_generic(3) [OF pos(1)] by (simp add: is_generic_envelope_def order_job_def text_simps)
    with env show "envelope_ok L (is_generic_envelope ?d1) (oe_event_type x)
        [(u ''text'', JStr (oe_body x))] (order_metadata x)" by simp
  qed (simp_all add: order_job_def text_simps)
  then show "presents L ?d j"
    by (simp add: presents_def j_def intake_job_def) (simp add: order_job_def text_simps)
qed

subsection \<open>One contract for the three intakes\<close>

datatype intake_request = Plain_event ustr | Generic_event generic_event | Order_event order_event

fun request_ok :: "pylib \<Rightarrow> intake_request \<Rightarrow> bool" where
  "request_ok L (Plain_event body) = event_create_ok body"
| "request_ok L (Generic_event x) = generic_event_ok L x"
| "request_ok L (Order_event x) = order_event_ok x"

fun intake :: "pylib \<Rightarrow> intake_env \<Rightarrow> int \<Rightarrow> ustr option \<Rightarrow> caller \<Rightarrow> intake_request \<Rightarrow> topic \<Rightarrow> topic \<times> (exn + obj)" where
  "intake L e stream key c (Plain_event body) = create_event e stream body key c"
| "intake L e stream key c (Generic_event x) = create_generic_event L True e stream x key c"
| "intake L e stream key c (Order_event x) = create_order_event e stream x key c"

fun intake_payload :: "pylib \<Rightarrow> intake_env \<Rightarrow> int \<Rightarrow> ustr option \<Rightarrow> caller \<Rightarrow> intake_request \<Rightarrow> obj" where
  "intake_payload L e stream key c (Plain_event body) = event_job e stream (c_id c) key body"
| "intake_payload L e stream key c (Generic_event x) = generic_job L e stream (c_id c) key x"
| "intake_payload L e stream key c (Order_event x) = order_job e stream (c_id c) key x"

text \<open>The event type, payload and metadata a request asks to be stored.\<close>

fun requested :: "intake_request \<Rightarrow> ustr \<times> obj \<times> obj" where
  "requested (Plain_event body) = (u ''legacy.message'', [(u ''text'', JStr body)], [])"
| "requested (Generic_event x) = (g_event_type x, g_payload x, g_metadata x)"
| "requested (Order_event x) = (oe_event_type x, [(u ''text'', JStr (oe_body x))], order_metadata x)"

definition carries :: "intake_env \<Rightarrow> int \<Rightarrow> ustr option \<Rightarrow> caller \<Rightarrow> intake_request \<Rightarrow> job \<Rightarrow> bool" where
  "carries e stream key c req j \<longleftrightarrow>
     j_request_id j = in_request_id e \<and> j_room_id j = stream \<and> j_user_id j = c_id c \<and> j_idem_key j = key
     \<and> (j_event_type j, j_payload j, j_metadata j) = requested req \<and> j_retry_count j = 0 \<and> j_room_seq j = None"

lemma intake_validates:
  assumes "intake_env_ok L e" "idempotency_header_ok key" "stream_id_ok stream" "stream_id_ok (c_id c)"
    and "request_ok L req"
  shows "\<exists>j. snd (validate_ingress_payload L (JObj (intake_payload L e stream key c req))) = Inr j
    \<and> carries e stream key c req j \<and> job_wf L j"
proof (cases req)
  case (Plain_event body)
  with assms(5) have "event_create_ok body" by simp
  note job = event_job_presents [OF assms(1-4) this]
  show ?thesis using validate_presents [OF job] job(1) Plain_event by (auto simp: carries_def intake_job_def)
next
  case (Generic_event x)
  with assms(5) have "generic_event_ok L x" by simp
  note job = generic_job_presents [OF assms(1-4) this]
  show ?thesis using validate_presents [OF job] job(1) Generic_event by (auto simp: carries_def intake_job_def)
next
  case (Order_event x)
  with assms(5) have "order_event_ok x" by simp
  note job = order_job_presents [OF assms(1-4) this]
  show ?thesis using validate_presents [OF job] job(1) Order_event by (auto simp: carries_def intake_job_def)
qed

subsection \<open>The jobs can be published\<close>

lemma good_text_append [simp]: "good_text (a @ b) \<longleftrightarrow> good_text a \<and> good_text b"
  by (auto simp: good_text_def has_nul_def contains_utf16_surrogate_def)

lemma good_text_Cons [simp]:
  "good_text (c # s) \<longleftrightarrow> c \<noteq> 0 \<and> \<not> (55296 \<le> c \<and> c \<le> 57343) \<and> good_text s"
  by (auto simp: good_text_def has_nul_def contains_utf16_surrogate_def)

lemma good_text_Nil [simp]: "good_text []"
  by (simp add: good_text_def has_nul_def contains_utf16_surrogate_def)

lemma good_text_take: "good_text s \<Longrightarrow> good_text (take n s)"
  using good_text_append [of "take n s" "drop n s"] by simp

lemma dumps_char_good: "\<not> (55296 \<le> c \<and> c \<le> 57343) \<Longrightarrow> good_text (dumps_char c)"
  by (auto simp: hex_digit_def)

lemma dumps_text_good: "good_text s \<Longrightarrow> good_text (dumps_text s)"
proof -
  assume "good_text s"
  then have "good_text (concat (map dumps_char s))"
    by (induction s) (simp_all add: dumps_char_good del: dumps_char.simps)
  then show ?thesis by (simp add: dumps_text_def)
qed

lemma join_good: "good_text sep \<Longrightarrow> \<forall>x\<in>set xs. good_text x \<Longrightarrow> good_text (join sep xs)"
  by (induction sep xs rule: join.induct) auto

lemma py_str_int_good: "good_text (py_str_int i)"
proof -
  have "45 \<le> c \<and> c \<le> 57" if "c \<in> set (py_str_int i)" for c
    using that dec_nat_digits [of c "nat i"] dec_nat_digits [of c "nat (- i)"]
    by (auto simp: py_str_int_def is_digit_def split: if_splits)
  then show ?thesis by (force simp: good_text_def has_nul_def contains_utf16_surrogate_def list_ex_iff)
qed

lemma dumps_good:
  assumes "\<And>f. good_text (float_repr L f)"
  shows "json_ok k v \<Longrightarrow> good_text (dumps_compact L v)"
proof (induction k v rule: json_ok.induct)
  case (1 n s)
  then show ?case using dumps_text_good by simp
next
  case (2 n f)
  then show ?case using assms by (cases f) simp_all
next
  case (3 n xs)
  then have "\<forall>x\<in>set xs. good_text (dumps_compact L x)" by (auto simp: list_all_iff)
  then have "good_text (join [44] (map (dumps_compact L) xs))" by (intro join_good) auto
  then show ?case by simp
next
  case (4 n d)
  then have "\<forall>kv\<in>set d. good_text (dumps_text (fst kv)) \<and> good_text (dumps_compact L (snd kv))"
    by (fastforce simp: list_all_iff intro: dumps_text_good)
  then have "good_text (join [44] (map (\<lambda>kv. dumps_text (fst kv) @ [58] @ dumps_compact L (snd kv)) d))"
    by (intro join_good) auto
  then show ?case by simp
qed (simp_all add: py_str_int_good good_text_u)

lemma legacy_body_preview_good:
  assumes "json_ok max_json_nesting_depth (JObj p)" "\<And>f. good_text (float_repr L f)"
  shows "good_text (legacy_body_preview L p)"
proof -
  have "good_text (text_of_json (get_none p k'))" for k'
    using assms(1) by (cases "get_none p k'")
      (auto simp: dict_defs list_all_iff split: option.splits dest!: map_of_SomeD)
  then show ?thesis
    using good_text_take [OF dumps_good [OF assms(2,1)]]
    by (auto simp: legacy_body_preview_def Let_def good_text_u split: option.splits intro!: good_text_take
        simp del: dumps_compact.simps)
qed

lemma intake_publishable:
  assumes "intake_env_ok L e" "stream_id_ok stream" "request_ok L req" "\<And>f. good_text (float_repr L f)"
    and "case key of None \<Rightarrow> True | Some k \<Rightarrow> good_text k"
  shows "json_ok max_json_wire_nesting_depth (JObj (intake_payload L e stream key c req))"
proof -
  have pos: "0 < stream" "stream \<le> max_postgres_bigint" using assms(2) by (auto simp: stream_id_ok_def)
  have routes: "good_text (route_text ''v1'' ''streams'' stream)" "good_text (route_text ''v2'' ''streams'' stream)"
    "good_text (route_text ''v1'' ''orders'' stream)"
    using route_bounded(2) [OF pos] by simp_all
  have env: "good_text (in_request_id e)" "good_text (in_queued_at e)"
    using assms(1) by (simp_all add: intake_env_ok_def)
  have key: "json_ok n (json_opt JStr key)" for n using assms(5) by (cases key) auto
  show ?thesis
  proof (cases req)
    case (Plain_event body)
    with assms(3) have "good_text body" by (auto simp: event_create_ok_def dest: scalar_textD)
    with Plain_event routes env key show ?thesis
      by (simp add: event_job_def max_json_wire_nesting_depth_def max_json_nesting_depth_def good_text_u)
  next
    case (Generic_event x)
    with assms(3) have x: "json_ok max_json_nesting_depth (JObj (g_payload x))"
      "json_ok max_json_nesting_depth (JObj (g_metadata x))" "good_text (g_event_type x)"
      by (auto simp: generic_event_ok_def generic_type_plain simp del: json_ok.simps)
    note body = legacy_body_preview_good [OF x(1) assms(4)]
    with Generic_event routes env key x show ?thesis
      by (simp add: generic_job_def generic_accepted_def max_json_wire_nesting_depth_def good_text_u)
  next
    case (Order_event x)
    with assms(3) have x: "order_event_ok x" by simp
    then have texts: "good_text (oe_event_type x)" "good_text (oe_body x)"
      "json_ok n (json_opt JStr (oe_payment_id x))" for n
      by (auto simp: order_event_ok_def scalar_text_def split: option.splits)
    with Order_event routes env key order_metadata_ok(1) [OF x] category_short [of "oe_event_type x"] show ?thesis
      by (simp add: order_job_def max_json_wire_nesting_depth_def max_json_nesting_depth_def good_text_u)
  qed
qed

text \<open>
  C4: Every event the API accepts is one the worker takes up. For a valid request of any of the
  three intakes (plain, generic, order), an acknowledged send answers with the request identifier
  and appends exactly one record, under the stream's key, whose payload passes the ingress
  validation as a well-formed job for this stream, this caller, this idempotency key and exactly
  the event type, payload and metadata that were requested.
\<close>

theorem accepted_event_is_valid_job:
  assumes "intake_env_ok L e" "idempotency_header_ok key" "stream_id_ok stream" "stream_id_ok (c_id c)"
    and "request_ok L req" "\<forall>f. good_text (float_repr L f)"
    and "case key of None \<Rightarrow> True | Some k \<Rightarrow> good_text k" "in_send e = Sent"
  shows "\<exists>accepted payload j. intake L e stream key c req t = (t @ [(stream, JObj payload)], Inr accepted)
    \<and> get_none accepted ''request_id'' = JStr (in_request_id e)
    \<and> snd (validate_ingress_payload L (JObj payload)) = Inr j \<and> carries e stream key c req j \<and> job_wf L j"
proof -
  let ?p = "intake_payload L e stream key c req"
  obtain j where j: "snd (validate_ingress_payload L (JObj ?p)) = Inr j" "carries e stream key c req j" "job_wf L j"
    using intake_validates [OF assms(1-5)] by blast
  have "json_ok max_json_wire_nesting_depth (JObj ?p)"
    using assms by (intro intake_publishable) auto
  note pub = publish_valid(1) [OF this, of stream t]
  have "\<exists>accepted. intake L e stream key c req t = (t @ [(stream, JObj ?p)], Inr accepted)
      \<and> get_none accepted ''request_id'' = JStr (in_request_id e)"
    using pub assms(8)
    by (cases req) (simp_all add: create_event_def create_generic_event_def create_order_event_def queue_job_def
        event_accepted_def generic_accepted_def order_accepted_def text_simps)
  with j show ?thesis by blast
qed

text \<open>A send that fails answers 503, and leaves at most one record behind.\<close>

lemma refused_event_unqueued:
  assumes "intake L e stream key c req t = (t', Inl x)"
  shows "x = HTTPException 503 (u ''Kafka unavailable'') \<and> (t' = t \<or> (\<exists>r. t' = t @ [r]))"
proof -
  have "\<exists>p a. intake L e stream key c req t = queue_job e stream p a t"
    by (cases req) (auto simp: create_event_def create_generic_event_def create_order_event_def)
  then obtain p a where "queue_job e stream p a t = (t', Inl x)" using assms by metis
  then have "x = HTTPException 503 (u ''Kafka unavailable'')"
    "\<exists>r. publish_job (in_send e) stream (JObj p) t = (t', r)"
    by (auto simp: queue_job_def split: prod.splits sum.splits)
  then show ?thesis by (auto elim: publish_job_cases)
qed

section \<open>Reading a stream\<close>

definition ensure_room_member :: "int \<Rightarrow> int \<Rightarrow> db \<Rightarrow> exn + unit" where
  "ensure_room_member room user db =
     (if room_exists db room \<and> is_member db room user then Inr ()
      else Inl (HTTPException 404 (u ''Stream not found'')))"

definition message_room_id_for_member :: "int \<Rightarrow> int \<Rightarrow> db \<Rightarrow> exn + int" where
  "message_room_id_for_member event user db =
     (case find (\<lambda>m. m_id m = event \<and> is_member db (m_room_id m) user) (messages db) of
        None \<Rightarrow> Inl (HTTPException 404 (u ''Event not found''))
      | Some m \<Rightarrow> Inr (m_room_id m))"

text \<open>The columns of the query as the cursor returns them.\<close>

definition event_row :: "message \<Rightarrow> obj" where
  "event_row m =
     [(u ''id'', JInt (m_id m)), (u ''request_id'', JStr (m_request_id m)), (u ''room_id'', JInt (m_room_id m)),
      (u ''room_seq'', JInt (m_room_seq m)), (u ''user_id'', JInt (m_user_id m)),
      (u ''event_type'', json_opt JStr (m_event_type m)), (u ''category'', json_opt JStr (m_category m)),
      (u ''payment_id'', json_opt JStr (m_payment_id m)), (u ''schema_version'', JInt (m_schema_version m)),
      (u ''payload'', json_opt JObj (m_payload m)), (u ''metadata'', JObj (m_metadata m)),
      (u ''body'', JStr (m_body m)), (u ''created_at'', JStr (m_created_at m))]"

definition or_else :: "json \<Rightarrow> json \<Rightarrow> json" where
  "or_else v w = (if truthy v then v else w)"

definition event_row_to_response :: "obj \<Rightarrow> obj" where
  "event_row_to_response row =
     (let stream_id = get_or row ''stream_id'' (get_none row ''room_id'');
          stream_seq = get_or row ''stream_seq'' (get_none row ''room_seq'');
          user_id = get_or row ''user_id'' (get_none row ''actor_id'');
          actor_id = get_or row ''actor_id'' user_id;
          p0 = get_none row ''payload'';
          payload = (if p0 = JNull then JObj [(u ''text'', get_or row ''body'' (JStr []))] else p0) in
      [(u ''id'', get_none row ''id''), (u ''request_id'', get_none row ''request_id''),
       (u ''stream_id'', stream_id), (u ''stream_seq'', stream_seq), (u ''user_id'', user_id),
       (u ''actor_id'', actor_id),
       (u ''event_type'', or_else (get_none row ''event_type'') (JStr (u ''legacy.message''))),
       (u ''category'', get_none row ''category''), (u ''payment_id'', get_none row ''payment_id''),
       (u ''body'', get_or row ''body'' (JStr [])),
       (u ''schema_version'', or_else (get_none row ''schema_version'') (JInt 1)),
       (u ''payload'', payload), (u ''metadata'', or_else (get_none row ''metadata'') (JObj [])),
       (u ''created_at'', get_none row ''created_at'')])"

text \<open>\<open>ORDER BY id DESC LIMIT n\<close>, below \<open>before_id\<close>.\<close>

definition newest_events :: "db \<Rightarrow> int \<Rightarrow> int option \<Rightarrow> message list" where
  "newest_events db stream before =
     rev (sort_key m_id (filter (\<lambda>m. case before of None \<Rightarrow> True | Some b \<Rightarrow> m_id m < b)
       (room_messages db stream)))"

definition list_events ::
    "exn option \<Rightarrow> int \<Rightarrow> nat \<Rightarrow> int option \<Rightarrow> caller \<Rightarrow> db \<Rightarrow> exn + obj list" where
  "list_events fault stream limit before c db =
     unavailable ''Stream read unavailable'' (read_tx fault (
       rbind (ensure_room_member stream (c_id c) db) (\<lambda>_.
       Inr (map (event_row_to_response \<circ> event_row) (take limit (newest_events db stream before))))))"

record stream_summary =
  ss_stream_id :: int
  ss_persisted_count :: nat
  ss_latest :: "(int \<times> ustr \<times> int \<times> ustr) option"

definition get_stream_persistence_summary ::
    "exn option \<Rightarrow> int \<Rightarrow> caller \<Rightarrow> db \<Rightarrow> exn + stream_summary" where
  "get_stream_persistence_summary fault stream c db =
     unavailable ''Stream summary unavailable'' (read_tx fault (
       rbind (ensure_room_member stream (c_id c) db) (\<lambda>_.
       Inr \<lparr>ss_stream_id = stream, ss_persisted_count = length (room_messages db stream),
            ss_latest = (case newest_events db stream None of
                           [] \<Rightarrow> None
                         | m # _ \<Rightarrow> Some (m_id m, m_request_id m, m_room_seq m, m_created_at m))\<rparr>)))"

definition add_receipt :: "int \<Rightarrow> int \<Rightarrow> db \<Rightarrow> db" where
  "add_receipt event user db =
     (if (event, user) \<in> set (read_receipts db) then db
      else db\<lparr>read_receipts := read_receipts db @ [(event, user)]\<rparr>)"

definition mark_as_read :: "tx_fault \<Rightarrow> int \<Rightarrow> caller \<Rightarrow> db \<Rightarrow> db \<times> (exn + int \<times> int)" where
  "mark_as_read f event c db =
     (case run_tx f (\<lambda>db.
             case message_room_id_for_member event (c_id c) db of
               Inl e \<Rightarrow> (db, Inl e)
             | Inr _ \<Rightarrow> (add_receipt event (c_id c) db, Inr (event, c_id c))) db of
        (db', r) \<Rightarrow> (db', unavailable ''Read receipt store unavailable'' r))"

definition unread_count :: "exn option \<Rightarrow> int \<Rightarrow> int \<Rightarrow> caller \<Rightarrow> db \<Rightarrow> exn + nat" where
  "unread_count fault stream user c db =
     (if c_id c \<noteq> user then Inl (HTTPException 403 (u ''Unread count access denied''))
      else
        unavailable ''Unread count unavailable'' (read_tx fault (
          rbind (ensure_room_member stream user db) (\<lambda>_.
          Inr (length (filter (\<lambda>m. (m_id m, user) \<notin> set (read_receipts db)) (room_messages db stream)))))))"

section \<open>Request statuses\<close>

definition status_field_ok :: "json \<Rightarrow> bool" where
  "status_field_ok v \<longleftrightarrow> v = JNull \<or> pos_bigint v"

definition request_status_actor_id :: "json \<Rightarrow> exn + int" where
  "request_status_actor_id v =
     (case v of
        JObj d \<Rightarrow>
          (let a = get_none d ''actor_id''; w = get_none d ''user_id'' in
           require (status_field_ok a) ''Invalid request status actor_id'' (
           require (status_field_ok w) ''Invalid request status user_id'' (
           require (\<not> (a \<noteq> JNull \<and> w \<noteq> JNull \<and> a \<noteq> w)) ''Conflicting request status actor_id/user_id'' (
           let owner = (if a \<noteq> JNull then a else w) in
           require (owner \<noteq> JNull) ''Request status owner is missing'' (Inr (int_of_json owner))))))
      | _ \<Rightarrow> Inl (value_error ''Request status must be an object''))"

definition rename_key :: "string \<Rightarrow> string \<Rightarrow> obj \<Rightarrow> obj" where
  "rename_key old new d =
     (if has_key d old then set_key (del_key d old) new (get_none d old) else d)"

definition externalize_request_status :: "obj \<Rightarrow> obj" where
  "externalize_request_status d =
     (let d1 = (if has_key d ''failed_reason'' then d else rename_key ''reason'' ''failed_reason'' d);
          d2 = rename_key ''room_seq'' ''stream_seq'' (rename_key ''room_id'' ''stream_id''
                 (rename_key ''message_id'' ''event_id'' d1)) in
      if \<not> has_key d2 ''actor_id'' \<and> has_key d2 ''user_id''
      then set_key d2 ''actor_id'' (get_none d2 ''user_id'') else d2)"

definition access_denied :: exn where
  "access_denied = HTTPException 403 (u ''Request access denied'')"

definition get_event_request_status ::
    "pylib \<Rightarrow> exn option \<Rightarrow> ustr \<Rightarrow> caller \<Rightarrow> db \<Rightarrow> exn + obj" where
  "get_event_request_status L fault rid c db =
     (case unavailable ''Request status unavailable'' (load_request_status L fault rid db) of
        Inl e \<Rightarrow> Inl e
      | Inr None \<Rightarrow> Inl (HTTPException 404 (u ''Request not found''))
      | Inr (Some v) \<Rightarrow>
          (case request_status_actor_id v of
             Inl _ \<Rightarrow> Inl access_denied
           | Inr owner \<Rightarrow>
               if owner \<noteq> c_id c then Inl access_denied
               else Inr (externalize_request_status (obj_of_json v))))"

section \<open>The demo reset\<close>

text \<open>
  \<open>TRUNCATE TABLE rooms CASCADE\<close> empties every table that refers to rooms, directly or through
  messages; sequences are not restarted. The answer counts the events and the streams that were
  removed (the count of the request statuses it also reports is left out).
\<close>

definition reset_demo_event_data :: "db \<Rightarrow> db \<times> (nat \<times> nat)" where
  "reset_demo_event_data db =
     (db\<lparr>attempts := [], idempotency_keys := Map.empty, intake_keys := Map.empty,
         request_statuses := Map.empty, rooms := [], room_members := [], room_sequences := Map.empty,
         messages := [], outbox := [], read_receipts := []\<rparr>,
      (length (messages db), length (rooms db)))"

definition reset_demo_events ::
    "bool \<Rightarrow> tx_fault \<Rightarrow> exn + nat \<Rightarrow> ustr \<Rightarrow> db \<Rightarrow> db \<times> (exn + nat \<times> nat)" where
  "reset_demo_events enabled f topic_reset confirmation db =
     (if \<not> enabled then (db, Inl (HTTPException 403 (u ''Demo reset is disabled in this environment'')))
      else if confirmation \<noteq> u ''RESET DEMO DB''
      then (db, Inl (HTTPException 400 (u ''Confirmation must be RESET DEMO DB'')))
      else
        (case run_tx f (\<lambda>db. case reset_demo_event_data db of (db', n) \<Rightarrow> (db', Inr n)) db of
           (db', Inl e) \<Rightarrow> (db', unavailable ''Demo event store unavailable'' (Inl e))
         | (db', Inr n) \<Rightarrow>
             (case topic_reset of
                Inl _ \<Rightarrow>
                  (db', Inl (HTTPException 503 (u ''Demo DB reset completed, but Kafka DLQ reset failed'')))
              | Inr _ \<Rightarrow> (db', Inr n))))"

section \<open>What a caller can see\<close>

lemma ensure_room_member_Inr [simp]:
  "ensure_room_member r i db = Inr x \<longleftrightarrow> room_exists db r \<and> is_member db r i"
  by (simp add: ensure_room_member_def)

lemma empty_db_tables [simp]:
  "users empty_db = []" "rooms empty_db = []" "room_members empty_db = []" "messages empty_db = []"
  "read_receipts empty_db = []" "request_statuses empty_db = Map.empty"
  by (simp_all add: empty_db_def)

lemma no_member_empty [simp]: "\<not> is_member empty_db r i"
  by (simp add: is_member_def)

lemma ensure_outsider: "\<not> is_member db r i \<Longrightarrow> ensure_room_member r i db = ensure_room_member r i empty_db"
  by (simp add: ensure_room_member_def)

lemma unavailable_simps [simp]:
  "unavailable s (Inr x) = Inr x"
  "unavailable s (Inl (HTTPException n t)) = Inl (HTTPException n t)"
  by (simp_all add: unavailable_def)

lemma message_outsider:
  "\<forall>m\<in>set (messages db). m_id m = event \<longrightarrow> \<not> is_member db (m_room_id m) i \<Longrightarrow>
     message_room_id_for_member event i db = Inl (HTTPException 404 (u ''Event not found''))"
  by (auto simp: message_room_id_for_member_def find_None_iff find_Some_iff split: option.splits)

text \<open>
  No endpoint tells an outsider whether a stream or an event exists. A caller who is not a
  member of a stream gets from its event list, its summary and its unread count, under every
  fault of the store, exactly the answer an empty database gives; and for an event of streams
  the caller is not a member of, a read receipt is answered as on an empty database and changes
  nothing.
\<close>

theorem outsiders_learn_nothing:
  "(\<not> is_member db stream (c_id c) \<longrightarrow>
      list_events fault stream limit before c db = list_events fault stream limit before c empty_db
      \<and> get_stream_persistence_summary fault stream c db = get_stream_persistence_summary fault stream c empty_db
      \<and> unread_count fault stream user c db = unread_count fault stream user c empty_db)
   \<and> ((\<forall>m\<in>set (messages db). m_id m = event \<longrightarrow> \<not> is_member db (m_room_id m) (c_id c)) \<longrightarrow>
      mark_as_read f event c db = (db, snd (mark_as_read f event c empty_db)))"
proof (intro conjI impI)
  assume "\<not> is_member db stream (c_id c)"
  note out = ensure_outsider [OF this]
  have gone: "ensure_room_member stream (c_id c) empty_db = Inl (HTTPException 404 (u ''Stream not found''))"
    by (simp add: ensure_room_member_def)
  show "list_events fault stream limit before c db = list_events fault stream limit before c empty_db"
    "get_stream_persistence_summary fault stream c db = get_stream_persistence_summary fault stream c empty_db"
    by (simp_all add: list_events_def get_stream_persistence_summary_def out gone)
  show "unread_count fault stream user c db = unread_count fault stream user c empty_db"
    using out gone by (auto simp: unread_count_def)
next
  assume "\<forall>m\<in>set (messages db). m_id m = event \<longrightarrow> \<not> is_member db (m_room_id m) (c_id c)"
  note out = message_outsider [OF this]
  have "message_room_id_for_member event (c_id c) empty_db = Inl (HTTPException 404 (u ''Event not found''))"
    by (rule message_outsider) simp
  with out show "mark_as_read f event c db = (db, snd (mark_as_read f event c empty_db))"
    by (cases f) (simp_all add: mark_as_read_def run_tx_def rollback_def)
qed

section \<open>Paging through a stream\<close>

lemma room_messages_ids: "messages_ok db \<Longrightarrow> sorted_wrt (<) (map m_id (room_messages db r))"
  by (simp add: messages_ok_def room_messages_def sorted_wrt_map sorted_wrt_filter)

lemma newest_events_rev:
  assumes "messages_ok db"
  shows "newest_events db r before =
    rev (filter (\<lambda>m. case before of None \<Rightarrow> True | Some b \<Rightarrow> m_id m < b) (room_messages db r))"
proof -
  have "sorted_wrt (\<lambda>x y. m_id x \<le> m_id y) (room_messages db r)"
    using room_messages_ids [OF assms, of r, unfolded sorted_wrt_map]
    by (rule sorted_wrt_mono_rel [rotated]) simp
  then have "sorted (map m_id (filter P (room_messages db r)))" for P
    by (simp add: sorted_wrt_map sorted_wrt_filter)
  then show ?thesis by (simp add: newest_events_def sort_key_id_if_sorted)
qed

lemma below_last:
  assumes "sorted_wrt (<) (map g (xs @ y # ys))"
  shows "filter (\<lambda>m. g m < (g y :: int)) (xs @ y # ys) = xs"
  using assms by (auto simp: sorted_wrt_append filter_empty_conv intro!: filter_True)

lemma next_page:
  assumes "messages_ok db" "newest_events db r before = page @ m # rest"
  shows "newest_events db r (Some (m_id m)) = rest"
proof -
  let ?P = "\<lambda>m. case before of None \<Rightarrow> True | Some b \<Rightarrow> m_id m < b"
  let ?ms = "room_messages db r"
  from assms have split: "filter ?P ?ms = rev rest @ m # rev page"
    by (simp add: newest_events_rev rev_swap)
  have "m \<in> set (filter ?P ?ms)" unfolding split by simp
  then have "filter (\<lambda>x. m_id x < m_id m) ?ms = filter (\<lambda>x. m_id x < m_id m) (filter ?P ?ms)"
    by (auto split: option.splits intro!: filter_cong)
  also have "\<dots> = rev rest"
    unfolding split
  proof (rule below_last)
    show "sorted_wrt (<) (map m_id (rev rest @ m # rev page))"
      using room_messages_ids [OF assms(1), of r]
      unfolding split [symmetric] sorted_wrt_map by (rule sorted_wrt_filter)
  qed
  finally show ?thesis using assms(1) by (simp add: newest_events_rev)
qed

text \<open>A client that reads a stream backwards, page after page, until a page is empty.\<close>

fun read_back :: "nat \<Rightarrow> int \<Rightarrow> nat \<Rightarrow> int option \<Rightarrow> caller \<Rightarrow> db \<Rightarrow> exn + obj list" where
  "read_back 0 stream limit before c db = Inr []"
| "read_back (Suc n) stream limit before c db =
     rbind (list_events None stream limit before c db) (\<lambda>page.
       if page = [] then Inr []
       else rbind (read_back n stream limit (Some (int_of_json (get_none (last page) ''id''))) c db)
              (\<lambda>rest. Inr (page @ rest)))"

abbreviation event_response :: "message \<Rightarrow> obj" where
  "event_response m \<equiv> event_row_to_response (event_row m)"

lemma event_response_gets:
  "get_none (event_response m) ''id'' = JInt (m_id m)"
  "get_none (event_response m) ''stream_seq'' = JInt (m_room_seq m)"
  by (simp_all add: event_row_to_response_def event_row_def Let_def text_simps)

lemma read_back_all:
  assumes "messages_ok db" "room_exists db stream" "is_member db stream (c_id c)" "0 < limit"
    and "length (newest_events db stream before) < n"
  shows "read_back n stream limit before c db = Inr (map event_response (newest_events db stream before))"
  using assms(5)
proof (induction n arbitrary: before)
  case (Suc n)
  let ?ms = "newest_events db stream before"
  have page: "list_events None stream limit before c db = Inr (map event_response (take limit ?ms))"
    using assms(2,3) by (simp add: list_events_def read_tx_def comp_def ensure_room_member_def)
  show ?case
  proof (cases "?ms = []")
    case True
    with page show ?thesis by simp
  next
    case False
    with assms(4) have ne: "take limit ?ms \<noteq> []" by simp
    let ?m = "last (take limit ?ms)"
    have split: "?ms = butlast (take limit ?ms) @ ?m # drop limit ?ms"
      using ne by (metis append_butlast_last_id append_take_drop_id append.assoc append_Cons append_Nil)
    note follow = next_page [OF assms(1) split]
    have "length (drop limit ?ms) < n" using Suc.prems False assms(4) by (cases ?ms) auto
    with Suc.IH [of "Some (m_id ?m)"] follow
    have "read_back n stream limit (Some (m_id ?m)) c db = Inr (map event_response (drop limit ?ms))" by simp
    with page ne show ?thesis
      by (simp add: last_map event_response_gets flip: map_append)
  qed
qed simp

text \<open>
  C27: Paging backwards with \<open>before_id\<close> reads every event of a stream exactly once, newest first,
  whatever the page size: in a well-formed store a member who follows the last identifier of each
  page gets all the stream's events, in the order of their sequence numbers from the last
  down to 1 without a gap, and the summary's count and latest event agree with them.
\<close>

theorem paging_reads_every_event_once:
  assumes "store_ok db" "room_exists db stream" "is_member db stream (c_id c)" "0 < limit"
  shows "\<exists>items. read_back (length (room_messages db stream) + 1) stream limit None c db = Inr items
    \<and> items = map event_response (rev (room_messages db stream))
    \<and> map (\<lambda>d. get_none d ''stream_seq'') items = map JInt (rev [1..last_seq db stream])
    \<and> (\<exists>s. get_stream_persistence_summary None stream c db = Inr s
        \<and> int (ss_persisted_count s) = last_seq db stream
        \<and> map_option (\<lambda>x. JInt (fst x)) (ss_latest s)
            = (if items = [] then None else Some (get_none (hd items) ''id'')))"
proof -
  have ok: "messages_ok db" using assms(1) by (simp add: store_ok_def db_ok_def)
  have all: "newest_events db stream None = rev (room_messages db stream)"
    using ok by (simp add: newest_events_rev)
  have seqs: "map m_room_seq (room_messages db stream) = [1..last_seq db stream]" "0 \<le> last_seq db stream"
    using ok by (simp_all add: messages_ok_def)
  then have len: "length (room_messages db stream) = nat (last_seq db stream)"
    by (metis length_map length_upto diff_add_cancel)
  have "map (\<lambda>d. get_none d ''stream_seq'') (map event_response (rev (room_messages db stream)))
      = map JInt (rev [1..last_seq db stream])"
    by (simp add: event_response_gets flip: seqs(1)) (simp add: rev_map event_response_gets)
  moreover have "read_back (length (room_messages db stream) + 1) stream limit None c db
      = Inr (map event_response (rev (room_messages db stream)))"
    using read_back_all [OF ok assms(2-4), of None "length (room_messages db stream) + 1"] by (simp add: all)
  ultimately show ?thesis
    using assms(2,3) seqs(2) len
    by (simp add: get_stream_persistence_summary_def read_tx_def ensure_room_member_def all)
      (auto simp: event_response_gets split: list.splits)
qed

section \<open>The tables of users and streams\<close>

text \<open>
  User names and identifiers are unique, memberships join existing streams and users, and a read
  receipt names an event of a stream its user is a member of.
\<close>

definition accounts_ok :: "db \<Rightarrow> bool" where
  "accounts_ok db \<longleftrightarrow>
     distinct (map usr_id (users db)) \<and> distinct (map usr_name (users db))
     \<and> (\<forall>x\<in>set (users db). usr_id x < user_ids db)
     \<and> distinct (map fst (rooms db)) \<and> (\<forall>x\<in>set (rooms db). fst x < room_ids db)
     \<and> distinct (room_members db)
     \<and> (\<forall>(r, i)\<in>set (room_members db). room_exists db r \<and> user_exists db i)
     \<and> distinct (read_receipts db)
     \<and> (\<forall>(e, i)\<in>set (read_receipts db). \<exists>m\<in>set (messages db). m_id m = e \<and> is_member db (m_room_id m) i)"

lemma accounts_ok_rollback:
  assumes "accounts_ok db" "user_ids db \<le> user_ids mid" "room_ids db \<le> room_ids mid"
  shows "accounts_ok (rollback db mid)"
  using assms by (fastforce simp: accounts_ok_def room_exists_def user_exists_def is_member_def)

lemma run_tx_tables:
  assumes "store_ok db \<and> accounts_ok db" "run_tx f body db = (db', r)"
    and "\<And>mid r. body db = (mid, r) \<Longrightarrow>
      user_ids db \<le> user_ids mid \<and> room_ids db \<le> room_ids mid \<and> message_ids mid = message_ids db"
    and "\<And>mid x. body db = (mid, Inr x) \<Longrightarrow> store_ok mid \<and> accounts_ok mid"
  shows "store_ok db' \<and> accounts_ok db'"
proof -
  have "store_ok (rollback db mid) \<and> accounts_ok (rollback db mid)" if "body db = (mid, q)" for mid q
    using assms(1) assms(3) [OF that] accounts_ok_rollback [of db mid] store_ok_cong [of "rollback db mid" db]
    by simp
  note undone = this
  from assms(2) show ?thesis
  proof (cases rule: run_tx_cases)
    case (unchanged e)
    with assms(1) show ?thesis by simp
  next
    case (rolled_back mid e)
    with undone show ?thesis by simp
  next
    case (not_committed mid x e)
    with undone show ?thesis by simp
  next
    case (ack_lost x e)
    with assms(4) show ?thesis by simp
  next
    case (committed x)
    with assms(4) show ?thesis by simp
  qed
qed

lemma insert_user_tables:
  assumes "store_ok db \<and> accounts_ok db" "insert_user n h db = (db', Inr c)"
  shows "store_ok db' \<and> accounts_ok db'"
proof -
  from assms(2) have db': "db' = db\<lparr>user_ids := user_ids db + 1, users := users db @
      [\<lparr>usr_id = user_ids db, usr_name = n, usr_password_hash = Some h\<rparr>]\<rparr>" and new: "n \<notin> usr_name ` set (users db)"
    by (auto simp: insert_user_def Let_def split: if_splits)
  have "store_ok db'" using assms(1) store_ok_cong [of db' db] by (simp add: db')
  moreover have "accounts_ok db'"
    using assms(1) new
    by (fastforce simp: accounts_ok_def db' room_exists_def user_exists_def is_member_def)
  ultimately show ?thesis ..
qed

lemma store_ok_more_rooms:
  assumes "store_ok db" "set (rooms db) \<subseteq> set (rooms db')" "set (room_members db) \<subseteq> set (room_members db')"
    "messages db' = messages db" "message_ids db' = message_ids db" "room_sequences db' = room_sequences db"
    "outbox db' = outbox db" "attempts db' = attempts db"
  shows "store_ok db'"
proof -
  have "messages_ok db'"
    using assms unfolding store_ok_def db_ok_def messages_ok_def room_messages_def last_seq_def room_exists_def
      is_member_def by (auto 0 3)
  then show ?thesis
    using assms(1) notifications_ok_cong [of db' db] assms(4-)
    by (simp add: store_ok_def db_ok_def outbox_complete_def)
qed

lemma insert_stream_Inr:
  assumes "insert_stream n ids i db = (db', Inr r)"
  shows "sr_id r = room_ids db \<and> sr_name r = n \<and> set (sr_member_ids r) = insert i (set ids)
    \<and> (\<forall>k\<in>insert i (set ids). user_exists db k) \<and> distinct (sr_member_ids r)
    \<and> db' = db\<lparr>rooms := rooms db @ [(room_ids db, n)], room_ids := room_ids db + 1,
        room_members := room_members db @
          filter (\<lambda>p. p \<notin> set (room_members db)) (map (Pair (room_ids db)) (sr_member_ids r))\<rparr>"
proof -
  let ?c = "sorted_list_of_set (insert i (set ids))"
  let ?db = "db\<lparr>rooms := rooms db @ [(room_ids db, n)], room_ids := room_ids db + 1\<rparr>"
  have ex: "user_exists ?db = user_exists db" by (simp add: user_exists_def fun_eq_iff)
  from assms have none: "filter (\<lambda>i. \<not> user_exists db i) ?c = []" and r: "sr_member_ids r = filter (user_exists db) ?c"
    and rest: "sr_id r = room_ids db" "sr_name r = n"
      "db' = ?db\<lparr>room_members := room_members db @
          filter (\<lambda>p. p \<notin> set (room_members db)) (map (Pair (room_ids db)) (sr_member_ids r))\<rparr>"
    by (auto simp: insert_stream_def Let_def ex simp del: sorted_list_of_set_insert_remove split: if_splits)
  have c: "set ?c = insert i (set ids)" "distinct ?c" by (simp_all del: sorted_list_of_set_insert_remove)
  from none have all: "\<forall>k\<in>set ?c. user_exists db k" unfolding filter_empty_conv by simp
  then have "sr_member_ids r = ?c" using r by (simp only: filter_True)
  with rest c all show ?thesis by (simp del: sorted_list_of_set_insert_remove)
qed

lemma insert_stream_tables:
  assumes "store_ok db \<and> accounts_ok db" "insert_stream n ids i db = (db', Inr r)"
  shows "store_ok db' \<and> accounts_ok db'"
proof -
  note new = insert_stream_Inr [OF assms(2)]
  let ?r = "room_ids db"
  have fresh: "\<not> room_exists db ?r" using assms(1) by (auto simp: accounts_ok_def room_exists_def)
  from new have db': "db' = db\<lparr>rooms := rooms db @ [(?r, n)], room_ids := ?r + 1,
        room_members := room_members db @
          filter (\<lambda>p. p \<notin> set (room_members db)) (map (Pair ?r) (sr_member_ids r))\<rparr>"
    and exist: "\<forall>k\<in>set (sr_member_ids r). user_exists db k" and dist: "distinct (sr_member_ids r)" by blast+
  have store: "store_ok db'" by (rule store_ok_more_rooms [of db]) (simp_all add: assms(1) db' subset_insertI)
  have members: "set (room_members db') = set (room_members db) \<union> Pair ?r ` set (sr_member_ids r)"
    by (auto simp: db')
  have same: "users db' = users db" "user_ids db' = user_ids db" "messages db' = messages db"
    "read_receipts db' = read_receipts db" "rooms db' = rooms db @ [(?r, n)]" "room_ids db' = ?r + 1"
    by (simp_all add: db')
  have old: "distinct (room_members db)" "\<forall>(r, i)\<in>set (room_members db). room_exists db r \<and> user_exists db i"
    "\<forall>(e, i)\<in>set (read_receipts db). \<exists>m\<in>set (messages db). m_id m = e \<and> is_member db (m_room_id m) i"
    "distinct (map fst (rooms db))" "\<forall>x\<in>set (rooms db). fst x < ?r"
    using assms(1) by (simp_all add: accounts_ok_def)
  have "distinct (map (Pair ?r) (sr_member_ids r))" using dist by (simp add: distinct_map inj_on_def)
  moreover have "room_members db' = room_members db @
      filter (\<lambda>p. p \<notin> set (room_members db)) (map (Pair ?r) (sr_member_ids r))" by (simp add: db')
  ultimately have "distinct (room_members db')" using old(1) by (simp add: distinct_filter) auto
  moreover have "room_exists db' q \<and> user_exists db' k" if "(q, k) \<in> set (room_members db')" for q k
    using that old(2) exist unfolding members room_exists_def user_exists_def same by auto
  moreover have "\<exists>m\<in>set (messages db'). m_id m = e \<and> is_member db' (m_room_id m) k"
    if "(e, k) \<in> set (read_receipts db')" for e k
    using that old(3) unfolding is_member_def members same by blast
  moreover have "distinct (map fst (rooms db'))" "\<forall>x\<in>set (rooms db'). fst x < room_ids db'"
    using old(4,5) by (auto simp: same)
  ultimately have "accounts_ok db'"
    using assms(1) unfolding accounts_ok_def same by auto
  with store show ?thesis ..
qed

lemma add_receipt_tables:
  assumes "store_ok db \<and> accounts_ok db" "message_room_id_for_member e i db = Inr r"
  shows "store_ok (add_receipt e i db) \<and> accounts_ok (add_receipt e i db)"
proof -
  from assms(2) obtain m where "m \<in> set (messages db)" "m_id m = e" "is_member db (m_room_id m) i"
    by (auto simp: message_room_id_for_member_def dest: find_SomeD split: option.splits)
  then show ?thesis
    using assms(1) store_ok_cong [of "add_receipt e i db" db]
    by (auto simp: add_receipt_def accounts_ok_def room_exists_def user_exists_def is_member_def)
qed

lemma reset_tables:
  assumes "store_ok db \<and> accounts_ok db"
  shows "store_ok (fst (reset_demo_event_data db)) \<and> accounts_ok (fst (reset_demo_event_data db))"
  using assms
  by (simp add: reset_demo_event_data_def store_ok_def db_ok_def messages_ok_def notifications_ok_def
      outbox_complete_def room_messages_def last_seq_def accounts_ok_def)

text \<open>The operations of the API that write these tables.\<close>

inductive api_step :: "authlib \<Rightarrow> auth_config \<Rightarrow> db \<Rightarrow> db \<Rightarrow> bool" for A C where
  signed_up: "create_user A C salt f n pw db = (db', r) \<Longrightarrow> api_step A C db db'"
| stream_created: "create_stream f n ids c db = (db', r) \<Longrightarrow> api_step A C db db'"
| read_marked: "mark_as_read f e c db = (db', r) \<Longrightarrow> api_step A C db db'"
| demo_reset: "reset_demo_events enabled f tr conf db = (db', r) \<Longrightarrow> api_step A C db db'"

inductive_cases api_stepE: "api_step A C db db'"

lemma insert_user_ids:
  "insert_user n h db = (mid, r) \<Longrightarrow> user_ids db \<le> user_ids mid \<and> room_ids db \<le> room_ids mid \<and> message_ids mid = message_ids db"
  by (auto simp: insert_user_def Let_def split: if_splits)

lemma insert_stream_ids:
  "insert_stream n ids i db = (mid, r) \<Longrightarrow> user_ids db \<le> user_ids mid \<and> room_ids db \<le> room_ids mid \<and> message_ids mid = message_ids db"
  by (auto simp: insert_stream_def Let_def split: if_splits)

lemma api_step_tables:
  assumes "api_step A C db db'" "store_ok db \<and> accounts_ok db"
  shows "store_ok db' \<and> accounts_ok db'"
  using assms(1)
proof cases
  case (signed_up salt f n pw r)
  then show ?thesis
  proof (cases "hash_password A C salt pw")
    case (Inr h)
    then obtain q where "run_tx f (insert_user n h) db = (db', q)"
      using signed_up by (auto simp: create_user_def split: prod.splits sum.splits)
    from run_tx_tables [OF assms(2) this] show ?thesis
      using insert_user_ids insert_user_tables [OF assms(2)] by blast
  qed (use assms(2) in \<open>auto simp: create_user_def\<close>)
next
  case (stream_created f n ids c r)
  then obtain q where "run_tx f (insert_stream n ids (c_id c)) db = (db', q)"
    by (auto simp: create_stream_def split: prod.splits)
  from run_tx_tables [OF assms(2) this] show ?thesis
    using insert_stream_ids insert_stream_tables [OF assms(2)] by blast
next
  case (read_marked f e c r)
  let ?body = "\<lambda>db. case message_room_id_for_member e (c_id c) db of
               Inl x \<Rightarrow> (db, Inl x) | Inr _ \<Rightarrow> (add_receipt e (c_id c) db, Inr (e, c_id c))"
  from read_marked obtain q where run: "run_tx f ?body db = (db', q)"
    by (auto simp: mark_as_read_def split: prod.splits)
  have "message_ids (add_receipt e (c_id c) db) = message_ids db" "user_ids (add_receipt e (c_id c) db) = user_ids db"
    "room_ids (add_receipt e (c_id c) db) = room_ids db" by (simp_all add: add_receipt_def)
  then show ?thesis
    using add_receipt_tables [OF assms(2)]
    by (intro run_tx_tables [OF assms(2) run]) (auto split: sum.splits)
next
  case (demo_reset enabled f tr conf r)
  let ?body = "\<lambda>db. case reset_demo_event_data db of (db', n) \<Rightarrow> (db', Inr n :: exn + nat \<times> nat)"
  from demo_reset consider "db' = db" | q where "run_tx f ?body db = (db', q)"
    by (auto simp: reset_demo_events_def split: prod.splits sum.splits if_splits)
  then show ?thesis
  proof cases
    case (2 q)
    then show ?thesis
      using reset_tables [OF assms(2)]
      by (intro run_tx_tables [OF assms(2) 2]) (auto simp: reset_demo_event_data_def)
  qed (use assms(2) in simp)
qed

text \<open>
  C26: The API keeps the tables consistent. Any sequence of sign-ups, stream creations, read
  receipts and demo resets, with any inputs and any loss of the connection, of the commit or of
  its acknowledgement, leaves the event tables well formed, user names and identifiers unique,
  every membership between an existing stream and an existing user, and every read receipt on an
  event its reader may see.
\<close>

theorem api_keeps_tables:
  assumes "(api_step A C)\<^sup>*\<^sup>* db db'" "store_ok db \<and> accounts_ok db"
  shows "store_ok db' \<and> accounts_ok db'"
  using assms by (induction rule: rtranclp_induct) (auto dest: api_step_tables)

text \<open>
  A created stream has the members that were asked for. When the store is well formed and
  \<open>create_stream\<close> succeeds, the new identifier was unused, the members of the new stream are
  exactly the caller and the requested users, all of them existing, and no other stream gains or
  loses a member; a request naming an unknown user creates nothing.
\<close>

theorem created_stream_members:
  assumes "accounts_ok db" "create_stream f n ids c db = (db', r)"
  shows "(\<forall>s. r = Inr s \<longrightarrow> \<not> room_exists db (sr_id s) \<and> room_exists db' (sr_id s)
      \<and> (\<forall>i. is_member db' (sr_id s) i \<longleftrightarrow> i = c_id c \<or> i \<in> set ids) \<and> user_exists db (c_id c)
      \<and> (\<forall>i\<in>set ids. user_exists db i) \<and> (\<forall>q i. q \<noteq> sr_id s \<longrightarrow> is_member db' q i = is_member db q i))
    \<and> ((\<exists>i\<in>insert (c_id c) (set ids). \<not> user_exists db i) \<longrightarrow>
        isl r \<and> rooms db' = rooms db \<and> room_members db' = room_members db)"
proof -
  from assms(2) obtain q where run: "run_tx f (insert_stream n ids (c_id c)) db = (db', q)"
    and r: "r = unavailable ''Stream store unavailable'' q"
    by (auto simp: create_stream_def split: prod.splits)
  have "\<not> room_exists db (room_ids db)" using assms(1) by (auto simp: accounts_ok_def room_exists_def)
  moreover from this assms(1) have "(room_ids db, i) \<notin> set (room_members db)" for i
    by (auto simp: accounts_ok_def)
  ultimately have made: "\<not> room_exists db (sr_id s) \<and> room_exists db' (sr_id s)
      \<and> (\<forall>i. is_member db' (sr_id s) i \<longleftrightarrow> i = c_id c \<or> i \<in> set ids) \<and> user_exists db (c_id c)
      \<and> (\<forall>i\<in>set ids. user_exists db i) \<and> (\<forall>q i. q \<noteq> sr_id s \<longrightarrow> is_member db' q i = is_member db q i)"
    if "insert_stream n ids (c_id c) db = (db', Inr s)" for s
    using insert_stream_Inr [OF that] by (auto simp: is_member_def room_exists_def)
  have "q = Inr s" if "r = Inr s" for s
    using that r by (auto simp: unavailable_def split: sum.splits if_splits)
  then have good: "r = Inr s \<Longrightarrow> insert_stream n ids (c_id c) db = (db', Inr s)" for s
    using run by (auto simp: run_tx_Inr)
  have bad: "isl r \<and> rooms db' = rooms db \<and> room_members db' = room_members db"
    if "\<exists>i\<in>insert (c_id c) (set ids). \<not> user_exists db i"
  proof -
    have "insert_stream n ids (c_id c) db \<noteq> (mid, Inr s)" for mid s
      using insert_stream_Inr [of n ids "c_id c" db mid s] that by blast
    with run show ?thesis
      by (cases rule: run_tx_cases) (auto simp: r unavailable_def)
  qed
  from made good bad show ?thesis by blast
qed

text \<open>
  The status of a request is shown to its owner only. \<open>get_event_request_status\<close> answers with
  a status only when the stored object names the caller as its one owner, and then with that
  object under its external names; a caller who is not its owner, or a status whose owner is
  missing, malformed or contradictory, is denied, and only an absent row is not found.
\<close>

theorem status_shown_to_owner_only:
  "get_event_request_status L fault rid c db = r \<Longrightarrow>
     (\<forall>d. r = Inr d \<longrightarrow> fault = None \<and> (\<exists>v. load_request_status L None rid db = Inr (Some v)
          \<and> request_status_actor_id v = Inr (c_id c) \<and> d = externalize_request_status (obj_of_json v)))
   \<and> (\<forall>v. load_request_status L fault rid db = Inr (Some v) \<and> request_status_actor_id v \<noteq> Inr (c_id c)
        \<longrightarrow> r = Inl (HTTPException 403 (u ''Request access denied'')))
   \<and> (r = Inl (HTTPException 404 (u ''Request not found'')) \<longrightarrow>
        load_request_status L fault rid db = Inr None
        \<or> load_request_status L fault rid db = Inl (HTTPException 404 (u ''Request not found'')))"
  by (cases fault)
    (auto simp: get_event_request_status_def load_request_status_def unavailable_def access_denied_def
      split: sum.splits option.splits if_splits)

section \<open>Concrete instances\<close>

definition ann :: caller where
  "ann = \<lparr>c_id = 3, c_username = u ''ann''\<rparr>"

definition eve :: caller where
  "eve = \<lparr>c_id = 4, c_username = u ''eve''\<rparr>"

definition sample_intake :: intake_env where
  "sample_intake = \<lparr>in_request_id = u ''r1'', in_queued_at = u ''now'', in_send = Sent\<rparr>"

lemma sample_accounts_ok: "accounts_ok sample_db"
  by (simp add: accounts_ok_def sample_db_def empty_db_def room_exists_def user_exists_def)

theorem accepted_event_is_valid_job_witness:
  "\<exists>accepted payload j. intake sample_lib sample_intake 7 None ann (Plain_event (u ''hi'')) []
        = ([] @ [(7, JObj payload)], Inr accepted)
    \<and> get_none accepted ''request_id'' = JStr (in_request_id sample_intake)
    \<and> snd (validate_ingress_payload sample_lib (JObj payload)) = Inr j
    \<and> carries sample_intake 7 None ann (Plain_event (u ''hi'')) j \<and> job_wf sample_lib j"
  by (rule accepted_event_is_valid_job)
    (simp_all add: intake_env_ok_def sample_intake_def idempotency_header_ok_def stream_id_ok_def ann_def
      event_create_ok_def scalar_text_def max_postgres_bigint_def iso_timestamp_def sample_lib_def)

theorem outsiders_learn_nothing_witness:
  "list_events None 7 20 None eve sample_db = Inl (HTTPException 404 (u ''Stream not found''))"
proof -
  have "\<not> is_member sample_db 7 (c_id eve)" by (simp add: is_member_def sample_db_def eve_def)
  with outsiders_learn_nothing [of sample_db 7 eve None 20 None 4 1 Commit_ok]
  have "list_events None 7 20 None eve sample_db = list_events None 7 20 None eve empty_db" by blast
  then show ?thesis by (simp add: list_events_def read_tx_def ensure_room_member_def)
qed

lemma sample_members: "room_exists sample_db 7" "is_member sample_db 7 (c_id ann)"
  by (simp_all add: room_exists_def is_member_def sample_db_def ann_def)

theorem paging_reads_every_event_once_witness:
  "\<exists>items. read_back (length (room_messages sample_db 7) + 1) 7 1 None ann sample_db = Inr items
    \<and> map (\<lambda>d. get_none d ''stream_seq'') items = map JInt (rev [1..last_seq sample_db 7])"
  using paging_reads_every_event_once [OF sample_db_ok(1) sample_members, of 1] by auto

definition sample_team :: "db \<times> (exn + stream_response)" where
  "sample_team = create_stream Commit_ok (u ''team'') [3] ann sample_db"

theorem api_keeps_tables_witness:
  "store_ok (fst (mark_as_read Commit_ok 1 ann (fst sample_team)))
   \<and> accounts_ok (fst (mark_as_read Commit_ok 1 ann (fst sample_team)))"
proof (rule api_keeps_tables)
  have "api_step sample_authlib sample_auth_config sample_db (fst sample_team)"
    unfolding sample_team_def by (rule stream_created) (rule prod.collapse [symmetric])
  moreover have "api_step sample_authlib sample_auth_config (fst sample_team)
      (fst (mark_as_read Commit_ok 1 ann (fst sample_team)))"
    by (rule read_marked) (rule prod.collapse [symmetric])
  ultimately show "(api_step sample_authlib sample_auth_config)\<^sup>*\<^sup>* sample_db
      (fst (mark_as_read Commit_ok 1 ann (fst sample_team)))"
    by auto
qed (simp add: sample_db_ok sample_accounts_ok)

theorem created_stream_members_witness:
  "is_member (fst sample_team) 8 3 \<and> \<not> is_member (fst sample_team) 8 4"
proof -
  have run: "create_stream Commit_ok (u ''team'') [3] ann sample_db = (fst sample_team, Inr
      \<lparr>sr_id = 8, sr_name = u ''team'', sr_member_ids = [3]\<rparr>)"
    by (simp add: sample_team_def create_stream_def run_tx_def insert_stream_def ann_def sample_db_def
        user_exists_def empty_db_def)
  from created_stream_members [OF sample_accounts_ok run] show ?thesis by (simp add: ann_def)
qed

theorem status_shown_to_owner_only_witness:
  "get_event_request_status sample_lib None (u ''r1'') eve
     (sample_db\<lparr>request_statuses := [u ''r1'' \<mapsto> \<lparr>s_user_id = Some 3,
        s_status = JObj [(u ''user_id'', JInt 3)]\<rparr>]\<rparr>)
   = Inl (HTTPException 403 (u ''Request access denied''))"
  (is "?r = _")
proof -
  let ?db = "sample_db\<lparr>request_statuses := [u ''r1'' \<mapsto> \<lparr>s_user_id = Some 3,
        s_status = JObj [(u ''user_id'', JInt 3)]\<rparr>]\<rparr>"
  have "load_request_status sample_lib None (u ''r1'') ?db = Inr (Some (JObj [(u ''user_id'', JInt 3)]))"
    by (simp add: load_request_status_def)
  moreover have "request_status_actor_id (JObj [(u ''user_id'', JInt 3)]) \<noteq> Inr (c_id eve)"
    by (simp add: request_status_actor_id_def status_field_ok_def text_simps require_def Let_def
        max_postgres_bigint_def eve_def)
  ultimately show ?thesis
    using status_shown_to_owner_only [of sample_lib None "u ''r1''" eve ?db ?r] by blast
qed

end
