(* ===== verification/Api_Dlq.thy ===== *)
theory Api_Dlq
  imports Api Dlq_Replayer "HOL-Library.List_Lexorder"
begin

text \<open>
  The dead-letter endpoints of \<open>portfolio/api.py\<close>: how a raw record is summarised, the caller's
  view of the topic with its statistics, and the replay a user asks for by hand, which publishes
  under the same claims as the automatic replayer of \<open>worker/dlq_replayer.py\<close>.
\<close>

section \<open>Reading untrusted fields\<close>

definition safe_int :: "int \<Rightarrow> int option \<Rightarrow> json \<Rightarrow> int" where
  "safe_int fallback minimum v =
     (case v of
        JInt i \<Rightarrow>
          (if (case minimum of None \<Rightarrow> False | Some m \<Rightarrow> i < m) then fallback
           else if max_postgres_bigint < i then fallback else i)
      | _ \<Rightarrow> fallback)"

definition safe_optional_positive_int :: "json \<Rightarrow> int option" where
  "safe_optional_positive_int v =
     (let i = safe_int 0 (Some 1) v in if 0 < i \<and> i \<le> max_postgres_bigint then Some i else None)"

definition safe_optional_nonnegative_int :: "json \<Rightarrow> int option" where
  "safe_optional_nonnegative_int v =
     (case v of JInt i \<Rightarrow> if 0 \<le> i \<and> i \<le> max_postgres_bigint then Some i else None | _ \<Rightarrow> None)"

text \<open>\<open>repr\<close> of a value that is not a text is the interpreter's business (\<open>None\<close>: it raised).\<close>

type_synonym py_repr = "json \<Rightarrow> ustr option"

definition checked_text :: "nat \<Rightarrow> ustr \<Rightarrow> ustr option" where
  "checked_text n s = (if validate_json_structure (JStr (take n s)) = Inr () then Some (take n s) else None)"

definition safe_optional_text :: "py_repr \<Rightarrow> nat \<Rightarrow> json \<Rightarrow> ustr option" where
  "safe_optional_text R n v =
     (case v of
        JNull \<Rightarrow> None
      | JStr s \<Rightarrow> checked_text n s
      | _ \<Rightarrow> Option.bind (R v) (checked_text n))"

text \<open>\<open>a or b\<close> on optional texts.\<close>

definition text_or :: "ustr option \<Rightarrow> ustr option \<Rightarrow> ustr option" where
  "text_or a b = (case a of Some (c # s) \<Rightarrow> a | _ \<Rightarrow> b)"

definition selected_event_field :: "obj \<Rightarrow> string \<Rightarrow> string \<Rightarrow> json" where
  "selected_event_field d canonical legacy =
     (if has_key d canonical then get_none d canonical else get_none d legacy)"

section \<open>The summary of a record\<close>

record dlq_item =
  di_topic :: "ustr option"
  di_partition :: "int option"
  di_offset :: "int option"
  di_timestamp :: "int option"
  di_key :: "ustr option"
  di_request_id :: "ustr option"
  di_stream_id :: "int option"
  di_user_id :: "int option"
  di_failed_reason :: "ustr option"
  di_retry_count :: int
  di_replay_count :: int
  di_replayable :: bool
  di_max_replay_count :: int
  di_failed_at :: "ustr option"
  di_replayed_at :: "ustr option"
  di_payload :: obj

definition unreadable_value :: "py_repr \<Rightarrow> json \<Rightarrow> obj" where
  "unreadable_value R v =
     [(u invalid_kafka_payload_marker, JBool True),
      (u ''raw_preview'', json_opt JStr (text_or (safe_optional_text R 500 v) (Some (u ''unrepresentable payload''))))]"

definition structure_invalid :: "obj \<Rightarrow> bool" where
  "structure_invalid d \<longleftrightarrow> isl (validate_json_wire (JObj d))"

definition dlq_value :: "py_repr \<Rightarrow> raw \<Rightarrow> bool \<times> obj" where
  "dlq_value R r =
     (let v = raw_json r; d = (case v of JObj d \<Rightarrow> d | _ \<Rightarrow> unreadable_value R v) in
      if structure_invalid d then (True, unreadable_value R v) else (False, d))"

definition invalid_counters :: "obj \<Rightarrow> bool" where
  "invalid_counters d \<longleftrightarrow>
     \<not> nonneg_bigint (get_or d ''retry_count'' (JInt 0)) \<or> \<not> nonneg_bigint (get_or d ''replay_count'' (JInt 0))"

definition summarize_dlq_item :: "py_repr \<Rightarrow> int \<Rightarrow> kafka_message \<Rightarrow> dlq_item" where
  "summarize_dlq_item R M m =
     (let (bad_structure, value) = dlq_value R (k_value m);
          rid = get_none value ''request_id'';
          request_id = (if bounded_text 80 rid then Some (text_of_json rid) else None);
          stream_id = safe_optional_positive_int (selected_event_field value ''stream_id'' ''room_id'');
          user_id = safe_optional_positive_int (selected_event_field value ''actor_id'' ''user_id'');
          retry_count = safe_int 0 (Some 0) (get_or value ''retry_count'' (JInt 0));
          replay_count = safe_int 0 (Some 0) (get_or value ''replay_count'' (JInt 0));
          invalid = bad_structure \<or> is_invalid_kafka_payload (JObj value) \<or> has_conflicting_event_aliases value
            \<or> request_id = None \<or> stream_id = None \<or> user_id = None \<or> invalid_counters value in
      \<lparr>di_topic = safe_optional_text R 200 (JStr (k_topic m)),
       di_partition = safe_optional_nonnegative_int (JInt (k_partition m)),
       di_offset = safe_optional_nonnegative_int (JInt (k_offset m)),
       di_timestamp = safe_optional_nonnegative_int (json_opt JInt (k_timestamp m)),
       di_key = safe_optional_text R 500 (json_opt JStr (k_key m)),
       di_request_id = request_id, di_stream_id = stream_id, di_user_id = user_id,
       di_failed_reason = text_or (safe_optional_text R 500 (get_none value ''failed_reason''))
         (if invalid then Some (u ''invalid_dlq_payload'') else None),
       di_retry_count = retry_count, di_replay_count = replay_count,
       di_replayable = (\<not> invalid \<and> replay_count < M), di_max_replay_count = M,
       di_failed_at = safe_optional_text R 100 (get_none value ''failed_at''),
       di_replayed_at = safe_optional_text R 100 (get_none value ''replayed_at''),
       di_payload = value\<rparr>)"

section \<open>The caller's view of the topic\<close>

text \<open>What the broker answers to a scan of at most so many records.\<close>

type_synonym topic_scan = "nat \<Rightarrow> exn + kafka_message list"

definition list_recent_dlq_messages :: "topic_scan \<Rightarrow> nat \<Rightarrow> exn + kafka_message list" where
  "list_recent_dlq_messages S limit =
     (case S limit of Inl _ \<Rightarrow> Inl (HTTPException 503 (u ''Kafka DLQ unavailable'')) | Inr ms \<Rightarrow> Inr ms)"

definition find_dlq_item :: "py_repr \<Rightarrow> int \<Rightarrow> topic_scan \<Rightarrow> ustr \<Rightarrow> int \<Rightarrow> exn + dlq_item option" where
  "find_dlq_item R M S rid user =
     rbind (list_recent_dlq_messages S 5000) (\<lambda>ms.
       Inr (find (\<lambda>x. di_request_id x = Some rid \<and> di_user_id x = Some user) (map (summarize_dlq_item R M) ms)))"

definition own_items :: "py_repr \<Rightarrow> int \<Rightarrow> topic_scan \<Rightarrow> nat \<Rightarrow> caller \<Rightarrow> exn + dlq_item list" where
  "own_items R M S limit c =
     rbind (list_recent_dlq_messages S (min 5000 (max limit (limit * 10)))) (\<lambda>ms.
       Inr (take limit (filter (\<lambda>x. di_user_id x = Some (c_id c)) (map (summarize_dlq_item R M) ms))))"

definition get_ingress_dlq :: "py_repr \<Rightarrow> int \<Rightarrow> topic_scan \<Rightarrow> nat \<Rightarrow> caller \<Rightarrow> exn + nat \<times> dlq_item list" where
  "get_ingress_dlq R M S limit c = rbind (own_items R M S limit c) (\<lambda>xs. Inr (length xs, xs))"

section \<open>Statistics\<close>

text \<open>\<open>str(failed_at).replace('Z', '+00:00')\<close>.\<close>

definition replace_z :: "ustr \<Rightarrow> ustr" where
  "replace_z s = concat (map (\<lambda>c. if c = 90 then u ''+00:00'' else [c]) s)"

text \<open>\<open>T s\<close> is \<open>datetime.fromisoformat(s).timestamp()\<close>, \<open>None\<close> when that raises \<open>ValueError\<close>.\<close>

definition parse_dlq_timestamp_seconds :: "(ustr \<Rightarrow> rat option) \<Rightarrow> dlq_item \<Rightarrow> rat option" where
  "parse_dlq_timestamp_seconds T x =
     (let fallback = map_option (\<lambda>ms. of_int ms / 1000) (di_timestamp x) in
      case di_failed_at x of
        Some (c # s) \<Rightarrow> (case T (replace_z (c # s)) of Some t \<Rightarrow> Some t | None \<Rightarrow> fallback)
      | _ \<Rightarrow> fallback)"

text \<open>A \<open>Counter\<close>: keys in the order they were first seen.\<close>

fun tick :: "'a \<Rightarrow> ('a \<times> nat) list \<Rightarrow> ('a \<times> nat) list" where
  "tick k [] = [(k, 1)]"
| "tick k ((j, n) # xs) = (if j = k then (j, n + 1) # xs else (j, n) # tick k xs)"

definition tally :: "'a list \<Rightarrow> ('a \<times> nat) list" where
  "tally xs = fold tick xs []"

definition older :: "rat \<Rightarrow> rat option \<Rightarrow> int option \<Rightarrow> int option" where
  "older now ts oldest =
     (case ts of
        None \<Rightarrow> oldest
      | Some t \<Rightarrow>
          (let age = max 0 \<lfloor>now - t\<rfloor> in
           case oldest of
             None \<Rightarrow> Some age
           | Some a \<Rightarrow> if a < age then Some age else Some a))"

record dlq_summary =
  ds_total :: nat
  ds_replayable :: nat
  ds_blocked :: nat
  ds_oldest :: "int option"
  ds_by_reason :: "(ustr \<times> nat) list"
  ds_by_stream :: "(int \<times> nat) list"
  ds_samples :: "dlq_item list"

definition reason_of :: "dlq_item \<Rightarrow> ustr" where
  "reason_of x = (case di_failed_reason x of Some (c # s) \<Rightarrow> c # s | _ \<Rightarrow> u ''unknown'')"

definition summarize_dlq_items ::
    "(ustr \<Rightarrow> rat option) \<Rightarrow> rat \<Rightarrow> nat \<Rightarrow> dlq_item list \<Rightarrow> dlq_summary" where
  "summarize_dlq_items T now sample_limit xs =
     \<lparr>ds_total = length xs,
      ds_replayable = length (filter di_replayable xs),
      ds_blocked = length (filter (\<lambda>x. \<not> di_replayable x) xs),
      ds_oldest = fold (\<lambda>x. older now (parse_dlq_timestamp_seconds T x)) xs None,
      ds_by_reason = sort_key fst (tally (map reason_of xs)),
      ds_by_stream = sort_key (\<lambda>(i, n). (- int n, i))
        (tally (List.map_filter (\<lambda>x. safe_optional_positive_int (json_opt JInt (di_stream_id x))) xs)),
      ds_samples = take sample_limit xs\<rparr>"

definition get_ingress_dlq_summary ::
    "py_repr \<Rightarrow> (ustr \<Rightarrow> rat option) \<Rightarrow> int \<Rightarrow> topic_scan \<Rightarrow> nat \<Rightarrow> nat \<Rightarrow> rat \<Rightarrow> caller \<Rightarrow> exn + dlq_summary" where
  "get_ingress_dlq_summary R T M S limit sample_limit now c =
     rbind (own_items R M S limit c) (\<lambda>xs. Inr (summarize_dlq_items T now sample_limit xs))"

section \<open>Replay by hand\<close>

definition conflict :: "string \<Rightarrow> exn + 'a" where
  "conflict detail = Inl (HTTPException 409 (u detail))"

definition claim_manual_replay ::
    "pylib \<Rightarrow> int \<Rightarrow> replay_env \<Rightarrow> dlq_item \<Rightarrow> db \<Rightarrow> db \<times> (exn + int \<times> ustr)" where
  "claim_manual_replay L M e x db =
     (if \<not> di_replayable x then (db, conflict ''DLQ event is blocked by replay guard'')
      else
        let rid = (case di_request_id x of Some r \<Rightarrow> r | None \<Rightarrow> u ''None''); gen = di_replay_count x in
        if gen < 0 \<or> min M max_postgres_bigint \<le> gen
        then (db, conflict ''DLQ event is blocked by replay guard'')
        else
          (case claim_dlq_replay L (r_claim e) rid gen (r_token e) (r_clock e) db of
             (db', Inl ex) \<Rightarrow> (db', Inl ex)
           | (db', Inr Already_persisted) \<Rightarrow> (db', conflict ''DLQ event is already persisted'')
           | (db', Inr Already_published) \<Rightarrow> (db', conflict ''DLQ replay was already requested'')
           | (db', Inr In_progress) \<Rightarrow> (db', conflict ''DLQ replay is already in progress'')
           | (db', Inr (Claimed t)) \<Rightarrow> (db', Inr (gen, t))))"

record replay_response =
  rr_request_id :: ustr
  rr_stream_id :: int
  rr_replay_count :: int
  rr_replayed_at :: ustr

definition replay_dlq_payload ::
    "int \<Rightarrow> replay_env \<Rightarrow> dlq_item \<Rightarrow> topic \<Rightarrow> topic \<times> (exn + replay_response)" where
  "replay_dlq_payload M e x t =
     (if \<not> di_replayable x then (t, conflict ''DLQ event is blocked by replay guard'')
      else
        let d = di_payload x in
        case safe_optional_positive_int (selected_event_field d ''stream_id'' ''room_id'') of
          None \<Rightarrow> (t, conflict ''DLQ event is missing stream id'')
        | Some stream \<Rightarrow>
            (case get_or d ''replay_count'' (JInt 0) of
               JInt n \<Rightarrow>
                 (if n < 0 \<or> min M max_postgres_bigint \<le> n
                  then (t, conflict ''DLQ event is blocked by replay guard'')
                  else
                    (case publish_job (r_send e) stream (JObj (replayed_payload d (r_now e))) t of
                       (t', Inl _) \<Rightarrow> (t', Inl (HTTPException 503 (u ''Kafka unavailable'')))
                     | (t', Inr _) \<Rightarrow>
                         (t', Inr \<lparr>rr_request_id = text_of_json (get_none d ''request_id''),
                            rr_stream_id = stream, rr_replay_count = n + 1, rr_replayed_at = r_now e\<rparr>)))
             | _ \<Rightarrow> (t, conflict ''DLQ event is blocked by replay guard'')))"

definition replay_ingress_dlq_event ::
    "pylib \<Rightarrow> py_repr \<Rightarrow> int \<Rightarrow> topic_scan \<Rightarrow> replay_env \<Rightarrow> ustr \<Rightarrow> caller \<Rightarrow> replay_state
      \<Rightarrow> replay_state \<times> (exn + replay_response)" where
  "replay_ingress_dlq_event L R M S e rid c s =
     (case find_dlq_item R M S rid (c_id c) of
        Inl ex \<Rightarrow> (s, Inl ex)
      | Inr None \<Rightarrow> (s, Inl (HTTPException 404 (u ''DLQ event not found'')))
      | Inr (Some x) \<Rightarrow>
          (case claim_manual_replay L M e x (r_db s) of
             (db', Inl ex) \<Rightarrow> (s\<lparr>r_db := db'\<rparr>, Inl ex)
           | (db', Inr (gen, token)) \<Rightarrow>
               (case replay_dlq_payload M e x (r_ingress s) of
                  (t', Inl ex) \<Rightarrow>
                    (s\<lparr>r_ingress := t', r_db := fst (release_dlq_replay_claim (r_release e) rid gen token db')\<rparr>, Inl ex)
                | (t', Inr resp) \<Rightarrow>
                    (s\<lparr>r_ingress := t',
                       r_db := fst (mark_dlq_replay_published (r_mark e) rid gen token (r_mark_clock e) db')\<rparr>,
                     Inr resp))))"

section \<open>The statistics count every record once\<close>

lemma tick_keys: "fst ` set (tick k xs) = insert k (fst ` set xs)"
  by (induction k xs rule: tick.induct) auto

lemma tick_distinct: "distinct (map fst xs) \<Longrightarrow> distinct (map fst (tick k xs))"
proof (induction k xs rule: tick.induct)
  case (2 k j n xs)
  have "fst ` set (tick k xs) = insert k (fst ` set xs)" by (rule tick_keys)
  with 2 show ?case by auto
qed simp

lemma tick_lookup:
  "map_of (tick k xs) i = (if i = k then Some (case map_of xs k of None \<Rightarrow> 1 | Some n \<Rightarrow> n + 1) else map_of xs i)"
  by (induction k xs rule: tick.induct) auto

lemma tick_total: "sum_list (map snd (tick k xs)) = Suc (sum_list (map snd xs))"
  by (induction k xs rule: tick.induct) auto

lemma tally_snoc: "tally (xs @ [x]) = tick x (tally xs)"
  by (simp add: tally_def)

lemma tally_counts:
  "distinct (map fst (tally xs)) \<and> sum_list (map snd (tally xs)) = length xs
   \<and> map_of (tally xs) k = (if k \<in> set xs then Some (count_list xs k) else None)"
proof (induction xs rule: rev_induct)
  case Nil
  then show ?case by (simp add: tally_def)
next
  case (snoc x xs)
  then show ?case by (auto simp: tally_snoc tick_distinct tick_total tick_lookup)
qed

lemma tally_entries: "(k, n) \<in> set (tally xs) \<longleftrightarrow> k \<in> set xs \<and> n = count_list xs k"
proof -
  have "(k, n) \<in> set (tally xs) \<longleftrightarrow> map_of (tally xs) k = Some n"
    using tally_counts [of xs k] by (metis map_of_is_SomeI map_of_SomeD)
  then show ?thesis using tally_counts [of xs k] by auto
qed

lemma insort_key_sum: "sum_list (map snd (insort_key f x xs)) = snd x + sum_list (map snd xs)"
    for xs :: "('a \<times> nat) list"
  by (induction xs) auto

lemma sort_key_sum: "sum_list (map snd (sort_key f xs)) = sum_list (map snd xs)" for xs :: "('a \<times> nat) list"
  by (induction xs) (simp_all add: insort_key_sum)

lemma sort_key_distinct: "distinct (map fst (sort_key f (tally ys)))"
  using tally_counts [of ys] by (metis distinct_map distinct_sort set_sort)

lemma oldest_spec:
  "(\<forall>x\<in>set xs. \<forall>t. g x = Some t \<longrightarrow>
        (\<exists>i. fold (\<lambda>x. older now (g x)) xs a = Some i \<and> max 0 \<lfloor>now - t\<rfloor> \<le> i))
   \<and> (\<forall>i. a = Some i \<longrightarrow> (\<exists>j. fold (\<lambda>x. older now (g x)) xs a = Some j \<and> i \<le> j))
   \<and> (\<forall>i. fold (\<lambda>x. older now (g x)) xs a = Some i \<longrightarrow>
        a = Some i \<or> (\<exists>x\<in>set xs. \<exists>t. g x = Some t \<and> i = max 0 \<lfloor>now - t\<rfloor>))"
proof (induction xs arbitrary: a)
  case (Cons x xs)
  let ?a = "older now (g x) a"
  note IH = Cons.IH [of ?a]
  have raised: "\<exists>j. ?a = Some j \<and> i \<le> j" if "a = Some i" for i
    using that by (auto simp: older_def Let_def split: option.splits)
  have counted: "\<exists>j. ?a = Some j \<and> max 0 \<lfloor>now - t\<rfloor> \<le> j" if "g x = Some t" for t
    using that by (auto simp: older_def Let_def split: option.splits)
  have origin: "a = Some i \<or> (\<exists>t. g x = Some t \<and> i = max 0 \<lfloor>now - t\<rfloor>)" if "?a = Some i" for i
    using that by (auto simp: older_def Let_def split: option.splits if_splits)
  let ?r = "fold (\<lambda>x. older now (g x)) xs ?a"
  have r: "fold (\<lambda>x. older now (g x)) (x # xs) a = ?r" by simp
  have up: "\<exists>j. ?r = Some j \<and> i \<le> j" if "?a = Some i" for i using IH that by blast
  have "\<exists>i. ?r = Some i \<and> max 0 \<lfloor>now - t\<rfloor> \<le> i" if "y \<in> set (x # xs)" "g y = Some t" for y t
  proof (cases "y = x")
    case True
    with counted that(2) up show ?thesis using order_trans by blast
  next
    case False
    with that have "y \<in> set xs" by simp
    with IH that(2) show ?thesis by blast
  qed
  moreover have "\<exists>j. ?r = Some j \<and> i \<le> j" if "a = Some i" for i
    using raised [OF that] up order_trans by blast
  moreover have "a = Some i \<or> (\<exists>y\<in>set (x # xs). \<exists>t. g y = Some t \<and> i = max 0 \<lfloor>now - t\<rfloor>)" if "?r = Some i" for i
    using IH that origin by fastforce
  ultimately show ?case unfolding r by blast
qed simp

text \<open>
  The dead-letter statistics account for every record once. Replayable and blocked records
  add up to the total, and so do the counts by reason; each reason and each stream is listed once
  with its exact number of records, reasons in order, streams by falling count; and the
  reported age is the age of a record of the list and of no younger one than its oldest.
\<close>

theorem dlq_summary_counts:
  "let d = summarize_dlq_items T now k xs in
     ds_total d = length xs \<and> ds_replayable d + ds_blocked d = ds_total d
     \<and> sum_list (map snd (ds_by_reason d)) = ds_total d
     \<and> sorted (map fst (ds_by_reason d)) \<and> distinct (map fst (ds_by_reason d))
     \<and> (\<forall>r n. (r, n) \<in> set (ds_by_reason d) \<longleftrightarrow> 0 < n \<and> n = length (filter (\<lambda>x. reason_of x = r) xs))
     \<and> sorted (map (\<lambda>(i, n). (- int n, i)) (ds_by_stream d)) \<and> distinct (map fst (ds_by_stream d))
     \<and> set (ds_samples d) \<subseteq> set xs
     \<and> (\<forall>x\<in>set xs. \<forall>t. parse_dlq_timestamp_seconds T x = Some t \<longrightarrow>
          (\<exists>i. ds_oldest d = Some i \<and> max 0 \<lfloor>now - t\<rfloor> \<le> i))
     \<and> (\<forall>i. ds_oldest d = Some i \<longrightarrow>
          (\<exists>x\<in>set xs. \<exists>t. parse_dlq_timestamp_seconds T x = Some t \<and> i = max 0 \<lfloor>now - t\<rfloor>))"
proof -
  let ?rs = "tally (map reason_of xs)"
  let ?ss = "tally (List.map_filter (\<lambda>x. safe_optional_positive_int (json_opt JInt (di_stream_id x))) xs)"
  have entry: "(r, n) \<in> set ?rs \<longleftrightarrow> 0 < n \<and> n = length (filter (\<lambda>x. reason_of x = r) xs)" for r n
  proof -
    have "count_list (map reason_of xs) r = length (filter (\<lambda>x. reason_of x = r) xs)"
      by (induction xs) auto
    then show ?thesis unfolding tally_entries
      by (metis (mono_tags, lifting) count_list_0_iff gr0I not_gr_zero)
  qed
  have "length (filter di_replayable xs) + length (filter (\<lambda>x. \<not> di_replayable x) xs) = length xs"
    by (rule sum_length_filter_compl)
  moreover have "sum_list (map snd (sort_key fst ?rs)) = length xs"
    using tally_counts [of "map reason_of xs"] by (simp add: sort_key_sum)
  ultimately show ?thesis
    using entry set_take_subset [of k xs]
      oldest_spec [where xs = xs and g = "parse_dlq_timestamp_seconds T" and now = now and a = None]
    by (simp add: summarize_dlq_items_def Let_def sort_key_distinct)
qed

section \<open>The caller's own records\<close>

lemma safe_positive [simp]: "safe_optional_positive_int v = Some i \<longleftrightarrow> v = JInt i \<and> 0 < i \<and> i \<le> max_postgres_bigint"
  by (cases v) (auto simp: safe_optional_positive_int_def safe_int_def Let_def)

lemma safe_positive_None: "safe_optional_positive_int v = None \<longleftrightarrow> \<not> pos_bigint v"
proof -
  have "safe_optional_positive_int v \<noteq> None \<longleftrightarrow> pos_bigint v"
    unfolding not_None_eq safe_positive pos_bigint_JInt by blast
  then show ?thesis by blast
qed

lemma summary_fields:
  "di_payload (summarize_dlq_item R M m) = snd (dlq_value R (k_value m))"
  "di_user_id (summarize_dlq_item R M m)
    = safe_optional_positive_int (selected_event_field (snd (dlq_value R (k_value m))) ''actor_id'' ''user_id'')"
  by (simp_all add: summarize_dlq_item_def Let_def split: prod.splits)

text \<open>
  The dead-letter list shows callers their own records only. Each listed item summarises a
  scanned record whose payload names the caller as its actor, there are at most \<open>limit\<close> of them,
  and a scanned record of the caller is left out only when the list is full.
\<close>

theorem dlq_list_is_callers_own:
  assumes "get_ingress_dlq R M S limit c = Inr (n, xs)"
  shows "\<exists>ms. S (min 5000 (max limit (limit * 10))) = Inr ms \<and> n = length xs \<and> n \<le> limit
    \<and> (\<forall>x\<in>set xs. x \<in> summarize_dlq_item R M ` set ms
        \<and> selected_event_field (di_payload x) ''actor_id'' ''user_id'' = JInt (c_id c))
    \<and> (\<forall>m\<in>set ms. di_user_id (summarize_dlq_item R M m) = Some (c_id c) \<longrightarrow>
        summarize_dlq_item R M m \<in> set xs \<or> n = limit)"
proof -
  from assms obtain ms where S: "S (min 5000 (max limit (limit * 10))) = Inr ms" and n: "n = length xs"
    and xs: "xs = take limit (filter (\<lambda>x. di_user_id x = Some (c_id c)) (map (summarize_dlq_item R M) ms))"
    by (auto simp: get_ingress_dlq_def own_items_def list_recent_dlq_messages_def rbind_eq_Inr split: sum.splits)
  let ?ys = "filter (\<lambda>x. di_user_id x = Some (c_id c)) (map (summarize_dlq_item R M) ms)"
  have mine: "x \<in> summarize_dlq_item R M ` set ms
      \<and> selected_event_field (di_payload x) ''actor_id'' ''user_id'' = JInt (c_id c)" if "x \<in> set xs" for x
  proof -
    have "x \<in> set ?ys" using that unfolding xs by (rule in_set_takeD)
    then obtain m where "m \<in> set ms" "x = summarize_dlq_item R M m" "di_user_id x = Some (c_id c)" by auto
    then show ?thesis by (simp add: summary_fields)
  qed
  have full: "summarize_dlq_item R M m \<in> set xs \<or> n = limit"
    if "m \<in> set ms" "di_user_id (summarize_dlq_item R M m) = Some (c_id c)" for m
  proof (cases "length ?ys \<le> limit")
    case True
    with that show ?thesis by (simp add: xs)
  next
    case False
    then show ?thesis by (simp add: n xs)
  qed
  have "length xs \<le> limit" by (simp add: xs)
  with S n mine full show ?thesis by blast
qed

section \<open>Manual and automatic replay agree\<close>

lemma unreadable_marked: "is_invalid_kafka_payload (JObj (unreadable_value R v))"
  by (simp add: is_invalid_kafka_payload_def unreadable_value_def invalid_kafka_payload_marker_def text_simps)

lemma dlq_value_obj:
  "raw_json r = JObj d \<Longrightarrow> dlq_value R r = (if structure_invalid d then (True, unreadable_value R (JObj d)) else (False, d))"
  by (simp add: dlq_value_def Let_def)

lemma safe_count: "nonneg_bigint v \<Longrightarrow> safe_int 0 (Some 0) v = int_of_json v"
  by (auto simp: nonneg_bigint_JInt safe_int_def)

lemma replayable_spec:
  "di_replayable (summarize_dlq_item R M m) \<longleftrightarrow>
     (\<exists>d. raw_json (k_value m) = JObj d \<and> \<not> structure_invalid d \<and> \<not> is_invalid_kafka_payload (JObj d)
        \<and> \<not> has_conflicting_event_aliases d \<and> bounded_text 80 (get_none d ''request_id'')
        \<and> pos_bigint (selected_event_field d ''stream_id'' ''room_id'')
        \<and> pos_bigint (selected_event_field d ''actor_id'' ''user_id'')
        \<and> nonneg_bigint (get_or d ''retry_count'' (JInt 0)) \<and> nonneg_bigint (get_or d ''replay_count'' (JInt 0))
        \<and> replay_generation d < M)"
proof (cases "\<exists>d. raw_json (k_value m) = JObj d \<and> \<not> structure_invalid d")
  case True
  then obtain d where d: "raw_json (k_value m) = JObj d" "\<not> structure_invalid d" by blast
  then have "dlq_value R (k_value m) = (False, d)" by (simp add: dlq_value_obj)
  with d show ?thesis
    using safe_count [of "get_or d ''replay_count'' (JInt 0)"]
    by (auto simp: summarize_dlq_item_def Let_def safe_positive_None invalid_counters_def replay_generation_def
        pos_bigint_JInt)
next
  case False
  then have "is_invalid_kafka_payload (JObj (snd (dlq_value R (k_value m))))"
    using unreadable_marked by (auto simp: dlq_value_def Let_def split: json.splits)
  with False show ?thesis by (auto simp: summarize_dlq_item_def Let_def split: prod.splits)
qed

lemma canonical_room:
  fixes d :: obj
  defines "d1 \<equiv> if \<not> has_key d ''room_id'' \<and> has_key d ''stream_id''
    then set_key d ''room_id'' (get_none d ''stream_id'') else d"
  shows "get_none d1 ''request_id'' = get_none d ''request_id''" "get_or d1 ''replay_count'' v = get_or d ''replay_count'' v"
    "replay_generation d1 = replay_generation d"
    "\<not> has_conflicting_event_aliases d \<Longrightarrow>
       pos_bigint (get_none d1 ''room_id'') \<longleftrightarrow> pos_bigint (selected_event_field d ''stream_id'' ''room_id'')"
    "\<not> has_conflicting_event_aliases d \<Longrightarrow> pos_bigint (selected_event_field d ''stream_id'' ''room_id'') \<Longrightarrow>
       get_none d1 ''room_id'' = selected_event_field d ''stream_id'' ''room_id''"
    "has_key d ''room_id'' \<Longrightarrow> d1 = d"
proof -
  show "get_none d1 ''request_id'' = get_none d ''request_id''" "get_or d1 ''replay_count'' v = get_or d ''replay_count'' v"
    "replay_generation d1 = replay_generation d" "has_key d ''room_id'' \<Longrightarrow> d1 = d"
    by (auto simp: d1_def replay_generation_def)
  have same: "pos_bigint v \<or> pos_bigint w \<Longrightarrow> py_type v = py_type w \<Longrightarrow> py_eq v w \<Longrightarrow> v = w" for v w
    by (cases v; cases w) (auto split: option.splits)
  assume "\<not> has_conflicting_event_aliases d"
  then have "\<not> conflicting_pair d ''stream_id'' ''room_id''" by (simp add: has_conflicting_event_aliases_def)
  then have eq: "pos_bigint (get_none d ''stream_id'') \<or> pos_bigint (get_none d ''room_id'') \<Longrightarrow>
      has_key d ''stream_id'' \<Longrightarrow> has_key d ''room_id'' \<Longrightarrow> get_none d ''stream_id'' = get_none d ''room_id''"
    using same by (auto simp: conflicting_pair_def)
  show "pos_bigint (get_none d1 ''room_id'') \<longleftrightarrow> pos_bigint (selected_event_field d ''stream_id'' ''room_id'')"
    using eq by (auto simp: d1_def selected_event_field_def)
  show "pos_bigint (selected_event_field d ''stream_id'' ''room_id'') \<Longrightarrow>
       get_none d1 ''room_id'' = selected_event_field d ''stream_id'' ''room_id''"
    using eq by (auto simp: d1_def selected_event_field_def)
qed

lemma replay_fields_ok:
  assumes "\<not> has_conflicting_event_aliases d" "M \<le> max_postgres_bigint"
  defines "d1 \<equiv> if \<not> has_key d ''room_id'' \<and> has_key d ''stream_id''
    then set_key d ''room_id'' (get_none d ''stream_id'') else d"
  shows "replay_fields M d = Inr e \<longleftrightarrow> e = d1 \<and> bounded_text 80 (get_none d ''request_id'')
    \<and> pos_bigint (selected_event_field d ''stream_id'' ''room_id'')
    \<and> nonneg_bigint (get_or d ''replay_count'' (JInt 0)) \<and> replay_generation d < M"
proof -
  note eqs = canonical_room [where d = d, folded d1_def]
  have "replay_fields M d = (if \<not> bounded_text 80 (get_none d1 ''request_id'') \<or> \<not> pos_bigint (get_none d1 ''room_id'')
      then Inl Skip_invalid
      else if \<not> nonneg_bigint (get_or d1 ''replay_count'' (JInt 0)) then Inl Skip_invalid
      else if M \<le> replay_generation d1 then Inl Skip_max_replay
      else if max_postgres_bigint \<le> replay_generation d1 then Inl Skip_max_replay
      else Inr d1)"
    by (simp add: replay_fields_def Let_def d1_def replay_generation_def)
  then show ?thesis
    unfolding eqs(1-3) eqs(4) [OF assms(1)] using assms(2) by auto
qed

lemma replay_candidate_obj:
  assumes "raw_json r = JObj d" "M \<le> max_postgres_bigint"
  shows "replay_candidate L M r = Inr e \<longleftrightarrow> \<not> structure_invalid d \<and> \<not> is_invalid_kafka_payload (JObj d)
    \<and> \<not> has_conflicting_event_aliases d \<and> replay_fields M d = Inr e"
proof -
  have "load_raw L r = Inr (JObj d)"
    using assms(1) by (cases r) (auto simp: load_raw_def)
  then show ?thesis
    by (auto simp: replay_candidate_def structure_invalid_def simp del: json_ok.simps validate_json_structure_ok
        split: sum.splits)
qed

text \<open>
  The replayable flag of the API and the automatic replayer agree. For a record with an
  object as its value and a limit within 64 bits, the API shows it as replayable exactly when
  the replayer would take it up and its actor and retry count are readable; and then a replay by
  hand publishes, under the same key, the payload the replayer would publish, the stream
  identifier apart when the record names it only by its external name.
\<close>

theorem manual_and_automatic_replay_agree:
  assumes "raw_json (k_value m) = JObj v" "M \<le> max_postgres_bigint"
  shows "(di_replayable (summarize_dlq_item R M m) \<longleftrightarrow>
      (\<exists>d. replay_candidate L M (k_value m) = Inr d)
      \<and> pos_bigint (selected_event_field v ''actor_id'' ''user_id'')
      \<and> nonneg_bigint (get_or v ''retry_count'' (JInt 0)))
    \<and> (\<forall>d. di_replayable (summarize_dlq_item R M m) \<and> replay_candidate L M (k_value m) = Inr d \<longrightarrow>
        di_payload (summarize_dlq_item R M m) = v
        \<and> (has_key v ''room_id'' \<longrightarrow> d = v)
        \<and> replay_dlq_payload M e (summarize_dlq_item R M m) t =
            (case publish_job (r_send e) (int_of_json (get_none d ''room_id'')) (JObj (replayed_payload v (r_now e))) t of
               (t', Inl _) \<Rightarrow> (t', Inl (HTTPException 503 (u ''Kafka unavailable'')))
             | (t', Inr _) \<Rightarrow> (t', Inr \<lparr>rr_request_id = text_of_json (get_none d ''request_id''),
                 rr_stream_id = int_of_json (get_none d ''room_id''), rr_replay_count = replay_generation d + 1,
                 rr_replayed_at = r_now e\<rparr>)))"
proof
  let ?x = "summarize_dlq_item R M m"
  show "di_replayable ?x \<longleftrightarrow> (\<exists>d. replay_candidate L M (k_value m) = Inr d)
      \<and> pos_bigint (selected_event_field v ''actor_id'' ''user_id'')
      \<and> nonneg_bigint (get_or v ''retry_count'' (JInt 0))"
    unfolding replayable_spec replay_candidate_obj [OF assms]
    using assms(1) replay_fields_ok [OF _ assms(2), of v] by auto
  show "\<forall>d. di_replayable ?x \<and> replay_candidate L M (k_value m) = Inr d \<longrightarrow> di_payload ?x = v
        \<and> (has_key v ''room_id'' \<longrightarrow> d = v)
        \<and> replay_dlq_payload M e ?x t =
            (case publish_job (r_send e) (int_of_json (get_none d ''room_id'')) (JObj (replayed_payload v (r_now e))) t of
               (t', Inl _) \<Rightarrow> (t', Inl (HTTPException 503 (u ''Kafka unavailable'')))
             | (t', Inr _) \<Rightarrow> (t', Inr \<lparr>rr_request_id = text_of_json (get_none d ''request_id''),
                 rr_stream_id = int_of_json (get_none d ''room_id''), rr_replay_count = replay_generation d + 1,
                 rr_replayed_at = r_now e\<rparr>))"
  proof (intro allI impI, elim conjE)
    fix d assume flag: "di_replayable ?x" and cand: "replay_candidate L M (k_value m) = Inr d"
    from cand have ok: "\<not> structure_invalid v" "\<not> has_conflicting_event_aliases v" "replay_fields M v = Inr d"
      unfolding replay_candidate_obj [OF assms] by auto
    note fields = ok(3) [unfolded replay_fields_ok [OF ok(2) assms(2)]]
    have d: "d = (if \<not> has_key v ''room_id'' \<and> has_key v ''stream_id''
        then set_key v ''room_id'' (get_none v ''stream_id'') else v)" using fields by blast
    note eqs = canonical_room [where d = v, folded d]
    have payload: "di_payload ?x = v" using assms(1) ok(1) by (simp add: summary_fields dlq_value_obj)
    from fields obtain i where i: "selected_event_field v ''stream_id'' ''room_id'' = JInt i" "0 < i" "i \<le> max_postgres_bigint"
      unfolding pos_bigint_JInt by blast
    then have pos: "safe_optional_positive_int (JInt i) = Some i" by simp
    from fields obtain n where n: "get_or v ''replay_count'' (JInt 0) = JInt n" "0 \<le> n" "n < M"
      by (auto simp: nonneg_bigint_JInt replay_generation_def)
    have room: "get_none d ''room_id'' = JInt i" using eqs(5) [OF ok(2)] fields i by simp
    have "replay_generation d = n" using n by (simp add: eqs(3)) (simp add: replay_generation_def)
    with room i n show "di_payload ?x = v \<and> (has_key v ''room_id'' \<longrightarrow> d = v)
        \<and> replay_dlq_payload M e ?x t =
            (case publish_job (r_send e) (int_of_json (get_none d ''room_id'')) (JObj (replayed_payload v (r_now e))) t of
               (t', Inl _) \<Rightarrow> (t', Inl (HTTPException 503 (u ''Kafka unavailable'')))
             | (t', Inr _) \<Rightarrow> (t', Inr \<lparr>rr_request_id = text_of_json (get_none d ''request_id''),
                 rr_stream_id = int_of_json (get_none d ''room_id''), rr_replay_count = replay_generation d + 1,
                 rr_replayed_at = r_now e\<rparr>))"
      using flag assms(2) eqs(1,6) pos
      by (simp add: replay_dlq_payload_def Let_def payload del: safe_positive split: prod.splits sum.splits)
  qed
qed

section \<open>A replay by hand\<close>

lemma find_dlq_item_Some:
  assumes "find_dlq_item R M S rid i = Inr (Some x)"
  shows "di_request_id x = Some rid \<and> di_user_id x = Some i
    \<and> (\<exists>ms. S 5000 = Inr ms \<and> (\<exists>m\<in>set ms. x = summarize_dlq_item R M m))"
  using assms
  by (auto simp: find_dlq_item_def list_recent_dlq_messages_def rbind_eq_Inr split: sum.splits dest!: find_SomeD)

lemma claim_manual_Inr:
  assumes "claim_manual_replay L M e x db = (db', Inr (gen, token))" "di_request_id x = Some rid"
  shows "gen = di_replay_count x \<and> di_replayable x \<and> 0 \<le> gen \<and> gen < M \<and> gen < max_postgres_bigint
    \<and> claim_dlq_replay L (r_claim e) rid gen (r_token e) (r_clock e) db = (db', Inr (Claimed token))"
  using assms
  by (auto simp: claim_manual_replay_def Let_def conflict_def split: if_splits prod.splits sum.splits claim_state.splits)

lemma replay_dlq_payload_cases:
  assumes "replay_dlq_payload M e x t = (t', q)"
  shows "(isl q \<and> (t' = t \<or> (\<exists>k. t' = t @ [(k, JObj (replayed_payload (di_payload x) (r_now e)))])))
    \<or> (\<exists>r. q = Inr r \<and> t' = t @ [(rr_stream_id r, JObj (replayed_payload (di_payload x) (r_now e)))]
        \<and> rr_replay_count r = replay_generation (di_payload x) + 1
        \<and> selected_event_field (di_payload x) ''stream_id'' ''room_id'' = JInt (rr_stream_id r))"
proof (cases "t' = t \<and> isl q")
  case False
  let ?v = "JObj (replayed_payload (di_payload x) (r_now e))"
  from assms False obtain stream n where
    stream: "safe_optional_positive_int (selected_event_field (di_payload x) ''stream_id'' ''room_id'') = Some stream"
    and n: "get_or (di_payload x) ''replay_count'' (JInt 0) = JInt n"
    and pub: "(case publish_job (r_send e) stream ?v t of
                 (t', Inl _) \<Rightarrow> (t', Inl (HTTPException 503 (u ''Kafka unavailable'')))
               | (t', Inr _) \<Rightarrow> (t', Inr \<lparr>rr_request_id = text_of_json (get_none (di_payload x) ''request_id''),
                   rr_stream_id = stream, rr_replay_count = n + 1, rr_replayed_at = r_now e\<rparr>)) = (t', q)"
    by (auto simp: replay_dlq_payload_def Let_def conflict_def split: if_splits option.splits json.splits
        simp del: safe_positive)
  obtain t2 p where run: "publish_job (r_send e) stream ?v t = (t2, p)" by fastforce
  from run show ?thesis
    by (cases rule: publish_job_cases) (use run pub stream n in \<open>auto simp: replay_generation_def\<close>)
qed auto

lemma manual_replay_cases:
  assumes "replay_ingress_dlq_event L R M S e rid c s = (s', q)"
  obtains (nothing) "r_ingress s' = r_ingress s" "isl q"
    | (claimed) x db1 gen token where "find_dlq_item R M S rid (c_id c) = Inr (Some x)"
        "claim_manual_replay L M e x (r_db s) = (db1, Inr (gen, token))"
        "replay_dlq_payload M e x (r_ingress s) = (r_ingress s', q)"
        "\<not> isl q \<longrightarrow> r_db s' = fst (mark_dlq_replay_published (r_mark e) rid gen token (r_mark_clock e) db1)"
  using assms
  by (auto simp: replay_ingress_dlq_event_def split: sum.splits option.splits prod.splits)

text \<open>
  A user can replay only their own dead letters, one generation at a time. A successful manual
  replay answers for a scanned record that names the caller as its actor and carries the requested
  identifier, appends exactly one record to the ingress topic, the payload with its replay count
  raised by one and within the limit; anything refused appends nothing, and a failed send at most
  that one record.
\<close>

theorem manual_replay_is_owners:
  assumes "replay_ingress_dlq_event L R M S e rid c s = (s', q)"
  shows "(\<forall>r. q = Inr r \<longrightarrow> (\<exists>ms. S 5000 = Inr ms \<and> (\<exists>m\<in>set ms. \<exists>v. raw_json (k_value m) = JObj v
          \<and> get_none v ''request_id'' = JStr rid
          \<and> selected_event_field v ''actor_id'' ''user_id'' = JInt (c_id c)
          \<and> r_ingress s' = r_ingress s @ [(rr_stream_id r, JObj (replayed_payload v (r_now e)))]
          \<and> rr_replay_count r = replay_generation v + 1 \<and> 0 < rr_replay_count r \<and> rr_replay_count r \<le> M)))
    \<and> (isl q \<longrightarrow> r_ingress s' = r_ingress s \<or> (\<exists>y. r_ingress s' = r_ingress s @ [y]))"
  using assms
proof (cases rule: manual_replay_cases)
  case nothing
  then show ?thesis by auto
next
  case (claimed x db1 gen token)
  note found = find_dlq_item_Some [OF claimed(1)]
  then obtain ms m where ms: "S 5000 = Inr ms" "m \<in> set ms" "x = summarize_dlq_item R M m" by blast
  have claim: "gen = di_replay_count x" "di_replayable x" "0 \<le> gen" "gen < M"
    using claim_manual_Inr [OF claimed(2)] found by auto
  from claim(2) obtain v where v: "raw_json (k_value m) = JObj v" "\<not> structure_invalid v"
    "bounded_text 80 (get_none v ''request_id'')" "nonneg_bigint (get_or v ''replay_count'' (JInt 0))"
    unfolding ms(3) replayable_spec by blast
  then have val: "dlq_value R (k_value m) = (False, v)" by (simp add: dlq_value_obj)
  have fields: "di_payload x = v" "di_replay_count x = replay_generation v"
    "di_request_id x = Some (text_of_json (get_none v ''request_id''))"
    "selected_event_field v ''actor_id'' ''user_id'' = JInt (c_id c)"
    using val v(3,4) found safe_count [OF v(4)]
    by (simp_all add: ms(3) summarize_dlq_item_def Let_def replay_generation_def)
  have rid: "get_none v ''request_id'' = JStr rid"
    using v(3) fields(3) found by (cases "get_none v ''request_id''") auto
  from replay_dlq_payload_cases [OF claimed(3)]
  show ?thesis
    unfolding fields(1)
    using ms(1,2) v(1) rid fields(4) claim fields(2) by fastforce
qed

text \<open>
  C25: Replays by hand and by the replayer exclude each other. After a manual replay answered with
  success and its mark was committed, and after any claims, marks and releases in between, neither
  the automatic replayer, with any limit, clock and faults, nor any further manual replay
  publishes the same request at the same generation again.
\<close>

theorem manual_replay_excludes_replays:
  assumes "replay_ingress_dlq_event L R M S e rid c s = (s1, Inr r)" "r_mark e = Commit_ok"
    and "r_db s2 = exec_claim_ops L ops (r_db s1)"
  shows "(\<forall>M' e' raw d s3 q. replay_candidate L M' raw = Inr d \<and> get_none d ''request_id'' = JStr rid
        \<and> replay_generation d + 1 = rr_replay_count r \<and> replay_one L M' e' raw s2 = (s3, q) \<longrightarrow>
          r_ingress s3 = r_ingress s2 \<and> q \<noteq> Inr True)
    \<and> (\<forall>R' M' S' e' c' x s3 q. find_dlq_item R' M' S' rid (c_id c') = Inr (Some x)
        \<and> di_replay_count x + 1 = rr_replay_count r
        \<and> replay_ingress_dlq_event L R' M' S' e' rid c' s2 = (s3, q) \<longrightarrow>
          r_ingress s3 = r_ingress s2 \<and> isl q)"
proof -
  from assms(1) obtain x db1 gen token where
    find: "find_dlq_item R M S rid (c_id c) = Inr (Some x)"
    and claim: "claim_manual_replay L M e x (r_db s) = (db1, Inr (gen, token))"
    and pub: "replay_dlq_payload M e x (r_ingress s) = (r_ingress s1, Inr r)"
    and db: "r_db s1 = fst (mark_dlq_replay_published (r_mark e) rid gen token (r_mark_clock e) db1)"
    by (cases rule: manual_replay_cases) auto
  note found = find_dlq_item_Some [OF find]
  then obtain m where m: "x = summarize_dlq_item R M m" by blast
  have own: "gen = di_replay_count x" "di_replayable x"
    "claim_dlq_replay L (r_claim e) rid gen (r_token e) (r_clock e) (r_db s) = (db1, Inr (Claimed token))"
    using claim_manual_Inr [OF claim] found by auto
  from own(2) obtain v where v: "raw_json (k_value m) = JObj v" "\<not> structure_invalid v"
    "nonneg_bigint (get_or v ''replay_count'' (JInt 0))" unfolding m replayable_spec by blast
  then have "dlq_value R (k_value m) = (False, v)" by (simp add: dlq_value_obj)
  then have gen: "replay_generation (di_payload x) = gen"
    using safe_count [OF v(3)] by (simp add: own(1) m summarize_dlq_item_def Let_def replay_generation_def)
  from replay_dlq_payload_cases [OF pub] have count: "rr_replay_count r = gen + 1" by (auto simp: gen)
  from own(3) have token: "token = r_token e" by (auto elim: claim_effect)
  from own(3) obtain row where "claim_args rid gen (r_token e) = Inr (rid @ [58] @ py_str_int gen,
      claimed_value rid (r_token e))" "claim_row_of db1 rid gen = Some row"
      "c_value row = claimed_value rid (r_token e)" by (rule claim_args_of_claimed)
  from mark_owned [OF this, of "r_mark_clock e"] obtain row' where
    "claim_row_of (r_db s1) rid gen = Some row'" "published_row row'"
    by (auto simp: db assms(2) token)
  from published_ops [OF this, of L ops] assms(3) this(2)
  have row: "claim_row_of (r_db s2) rid gen = Some row'" "published_row row'" by simp_all
  have blocked: "claim_dlq_replay L f rid gen t now (r_db s2) \<noteq> (db', Inr (Claimed t'))" for f t now db' t'
  proof
    assume "claim_dlq_replay L f rid gen t now (r_db s2) = (db', Inr (Claimed t'))"
    then have "may_claim now (claim_row_of (r_db s2) rid gen)" by (auto elim: claim_effect)
    with row show False by (simp add: may_claim_def published_row_def)
  qed
  have auto_blocked: "r_ingress s3 = r_ingress s2 \<and> q \<noteq> Inr True"
    if "replay_candidate L M' raw = Inr d" "get_none d ''request_id'' = JStr rid"
      "replay_generation d + 1 = rr_replay_count r" "replay_one L M' e' raw s2 = (s3, q)" for M' e' raw d s3 q
    using replay_one_cases [OF that(4)] that(1,2,3) blocked count by auto
  have manual_blocked: "r_ingress s3 = r_ingress s2 \<and> isl q"
    if "find_dlq_item R' M' S' rid (c_id c') = Inr (Some y)" "di_replay_count y + 1 = rr_replay_count r"
      "replay_ingress_dlq_event L R' M' S' e' rid c' s2 = (s3, q)" for R' M' S' e' c' y s3 q
    using that(3)
  proof (cases rule: manual_replay_cases)
    case (claimed x' db2 gen' token')
    with that(1) have "x' = y" by simp
    with claim_manual_Inr [OF claimed(2)] find_dlq_item_Some [OF claimed(1)] that(2) count blocked
    show ?thesis by auto
  qed simp
  from auto_blocked manual_blocked show ?thesis by blast
qed

section \<open>Concrete instances\<close>

definition sample_record :: kafka_message where
  "sample_record = \<lparr>k_topic = u ''dlq'', k_partition = 0, k_offset = 4, k_timestamp = Some 2000, k_key = None,
     k_value = Value (JObj sample_dead_letter)\<rparr>"

abbreviation no_repr :: py_repr where
  "no_repr \<equiv> \<lambda>_. None"

abbreviation sample_scan :: topic_scan where
  "sample_scan \<equiv> \<lambda>_. Inr [sample_record]"

abbreviation sample_item :: dlq_item where
  "sample_item \<equiv> summarize_dlq_item no_repr 5 sample_record"

lemma sample_letter_gets:
  "get_none sample_dead_letter ''user_id'' = JInt 3" "\<not> has_key sample_dead_letter ''actor_id''"
  "\<not> has_key sample_dead_letter ''stream_id''" "\<not> has_key sample_dead_letter ''stream_seq''"
  "has_key sample_dead_letter ''room_id''"
  "get_or sample_dead_letter ''retry_count'' (JInt 0) = JInt 0"
  "get_or sample_dead_letter ''replay_count'' (JInt 0) = JInt 0"
  by (simp_all add: sample_dead_letter_def failed_payload_gets)
    (simp_all add: failed_job_payload_def keyed_job_def sample_job_def job_obj_def text_simps get_append)

lemma sample_raw: "raw_json (k_value sample_record) = JObj sample_dead_letter"
  by (simp add: sample_record_def)

lemma sample_structure: "\<not> structure_invalid sample_dead_letter"
proof -
  have "validate_json_wire (JObj sample_dead_letter) = Inr ()"
    using sample_dead_letter_ok by (simp del: json_ok.simps)
  then show ?thesis unfolding structure_invalid_def by (simp only:) simp
qed

lemma sample_flag: "di_replayable sample_item"
proof -
  have "\<not> is_invalid_kafka_payload (JObj sample_dead_letter)"
    by (simp add: is_invalid_kafka_payload_def sample_dead_letter_def failed_payload_gets)
  then show ?thesis
    unfolding replayable_spec sample_raw
    using sample_structure sample_letter_gets sample_generation
    by (simp add: has_conflicting_event_aliases_def conflicting_pair_def selected_event_field_def
        max_postgres_bigint_def)
qed

lemma sample_item_fields: "di_user_id sample_item = Some 3" "di_request_id sample_item = Some (u ''r1'')"
    "di_replay_count sample_item = 0" "di_payload sample_item = sample_dead_letter"
proof -
  have "dlq_value no_repr (k_value sample_record) = (False, sample_dead_letter)"
    using sample_structure by (simp add: dlq_value_obj sample_raw)
  then show "di_user_id sample_item = Some 3" "di_request_id sample_item = Some (u ''r1'')"
    "di_replay_count sample_item = 0" "di_payload sample_item = sample_dead_letter"
    using sample_letter_gets sample_generation
    by (simp_all add: summarize_dlq_item_def Let_def selected_event_field_def safe_int_def max_postgres_bigint_def)
qed

lemma sample_find: "find_dlq_item no_repr 5 sample_scan (u ''r1'') (c_id ann) = Inr (Some sample_item)"
  by (simp add: find_dlq_item_def list_recent_dlq_messages_def sample_item_fields ann_def)

theorem dlq_list_is_callers_own_witness:
  "selected_event_field (di_payload sample_item) ''actor_id'' ''user_id'' = JInt (c_id ann)"
proof -
  have "get_ingress_dlq no_repr 5 sample_scan 20 ann = Inr (1, [sample_item])"
    by (simp add: get_ingress_dlq_def own_items_def list_recent_dlq_messages_def sample_item_fields ann_def)
  from dlq_list_is_callers_own [OF this] show ?thesis by auto
qed

theorem dlq_summary_counts_witness:
  "ds_replayable (summarize_dlq_items (\<lambda>_. None) 3 5 [sample_item])
     + ds_blocked (summarize_dlq_items (\<lambda>_. None) 3 5 [sample_item]) = 1"
  using dlq_summary_counts [of "\<lambda>_. None" 3 5 "[sample_item]"] by (simp add: Let_def)

theorem manual_and_automatic_replay_agree_witness:
  "\<exists>d. replay_candidate sample_lib 5 (k_value sample_record) = Inr d"
  using manual_and_automatic_replay_agree
    [OF sample_raw, of 5 no_repr sample_lib sample_replay "[]"] sample_flag
  by (simp add: max_postgres_bigint_def)

abbreviation sample_manual :: "replay_state \<times> (exn + replay_response)" where
  "sample_manual \<equiv> replay_ingress_dlq_event sample_lib no_repr 5 sample_scan sample_replay (u ''r1'') ann sample_replayer"

lemma sample_manual_run:
  "sample_manual = (fst sample_manual, Inr \<lparr>rr_request_id = u ''r1'', rr_stream_id = 7, rr_replay_count = 1,
     rr_replayed_at = u ''now''\<rparr>)"
proof -
  have claim: "claim_manual_replay sample_lib 5 sample_replay sample_item empty_db
      = (fst (claim_manual_replay sample_lib 5 sample_replay sample_item empty_db), Inr (0, u ''t1''))"
    using sample_flag
    by (simp add: claim_manual_replay_def Let_def sample_item_fields sample_claim sample_replay_def max_postgres_bigint_def)
  have "safe_optional_positive_int (JInt 7) = Some 7" by (simp add: max_postgres_bigint_def)
  then have "replay_dlq_payload 5 sample_replay sample_item []
      = ([(7, JObj (replayed_payload sample_dead_letter (u ''now'')))], Inr \<lparr>rr_request_id = u ''r1'',
          rr_stream_id = 7, rr_replay_count = 1, rr_replayed_at = u ''now''\<rparr>)"
    using sample_flag publish_valid(1) [OF sample_replayed_ok] sample_generation sample_letter_gets
    by (simp add: replay_dlq_payload_def Let_def sample_item_fields selected_event_field_def sample_replay_def
        max_postgres_bigint_def del: safe_positive)
  moreover obtain db1 where "claim_manual_replay sample_lib 5 sample_replay sample_item empty_db = (db1, Inr (0, u ''t1''))"
    using claim by blast
  ultimately show ?thesis
    by (simp add: replay_ingress_dlq_event_def sample_find sample_replayer_def)
qed

theorem manual_replay_is_owners_witness:
  "\<exists>y. r_ingress (fst sample_manual) = r_ingress sample_replayer @ [y]"
  using manual_replay_is_owners [OF sample_manual_run] by blast

theorem manual_replay_excludes_replays_witness:
  "r_ingress (fst (replay_one sample_lib 9 (sample_replay\<lparr>r_token := u ''t2'', r_clock := 100\<rparr>)
       (Value (JObj sample_dead_letter)) (fst sample_manual)))
   = r_ingress (fst sample_manual)"
proof -
  have mark: "r_mark sample_replay = Commit_ok" by (simp add: sample_replay_def)
  have db: "r_db (fst sample_manual) = exec_claim_ops sample_lib [] (r_db (fst sample_manual))"
    by (simp add: exec_claim_ops_def)
  obtain s3 q where run: "replay_one sample_lib 9 (sample_replay\<lparr>r_token := u ''t2'', r_clock := 100\<rparr>)
       (Value (JObj sample_dead_letter)) (fst sample_manual) = (s3, q)" by fastforce
  have "replay_candidate sample_lib 9 (Value (JObj sample_dead_letter)) = Inr sample_dead_letter"
    unfolding sample_dead_letter_def
    by (rule replay_failed_candidate [OF _ _ _ _ _ sample_dead_letter_ok [unfolded sample_dead_letter_def]])
      (simp_all add: keyed_job_counts keyed_job_id max_postgres_bigint_def)
  with manual_replay_excludes_replays [OF sample_manual_run mark db] run sample_generation show ?thesis by auto
qed

end
