(* ===== verification/Decimals.thy ===== *)
theory Decimals
  imports Auth "HOL-Library.List_Lexorder"
begin

text \<open>
  The numbers and instants of the evidence evaluators (\<open>src/ops_agent/\<close>): Python's
  \<open>decimal.Decimal\<close> in the default context (28 digits, ties to even), binary64 rounding of
  quotients, aware \<open>datetime\<close> values and the ordered sets \<open>sorted(set(..))\<close> of codes.
\<close>

section \<open>Rounding\<close>

text \<open>The integer nearest to \<open>a / b\<close>, ties to even, for \<open>b > 0\<close>.\<close>

definition div_even :: "int \<Rightarrow> int \<Rightarrow> int" where
  "div_even a b =
     (let q = a div b; r = a mod b
      in if 2 * r < b \<or> 2 * r = b \<and> even q then q else q + 1)"

lemma div_even_exact: "b > 0 \<Longrightarrow> b dvd a \<Longrightarrow> div_even a b = a div b"
  by (auto simp: div_even_def Let_def)

lemma div_even_one [simp]: "div_even a 1 = a"
  by (simp add: div_even_def Let_def)

lemma div_even_near:
  assumes "b > 0"
  shows "2 * \<bar>div_even a b * b - a\<bar> \<le> b"
proof -
  have a: "a = a div b * b + a mod b" by simp
  have r: "0 \<le> a mod b" "a mod b < b" using assms by simp_all
  show ?thesis
  proof (cases "2 * (a mod b) < b \<or> 2 * (a mod b) = b \<and> even (a div b)")
    case True
    then have "div_even a b = a div b" by (simp only: div_even_def Let_def if_True)
    moreover have "a div b * b - a = - (a mod b)" using a by linarith
    ultimately show ?thesis using True r by auto
  next
    case False
    then have "div_even a b = a div b + 1" by (simp only: div_even_def Let_def if_False)
    moreover have "(a div b + 1) * b - a = b - a mod b" using a by (simp add: algebra_simps)
    ultimately show ?thesis using False r by auto
  qed
qed

lemma div_even_pos:
  assumes "b > 0" "b \<le> a"
  shows "div_even a b > 0"
proof -
  have "a div b \<ge> 1" using assms by (simp add: pos_imp_zdiv_pos_iff int_one_le_iff_zero_less)
  then show ?thesis by (simp add: div_even_def Let_def)
qed

text \<open>Number of digits of a natural number in base \<open>b\<close> (one digit for zero).\<close>

fun digits_in :: "nat \<Rightarrow> nat \<Rightarrow> nat" where
  "digits_in b n = (if n < b \<or> b < 2 then 1 else Suc (digits_in b (n div b)))"

declare digits_in.simps [simp del]

lemma digits_in_bounds:
  assumes "b \<ge> 2"
  shows "n < b ^ digits_in b n" "n > 0 \<Longrightarrow> b ^ (digits_in b n - 1) \<le> n"
proof -
  have "n < b ^ digits_in b n \<and> (n > 0 \<longrightarrow> b ^ (digits_in b n - 1) \<le> n)"
    using assms
  proof (induction b n rule: digits_in.induct)
    case (1 b n)
    show ?case
    proof (cases "n < b")
      case True
      then show ?thesis by (simp add: digits_in.simps [of b n])
    next
      case False
      with "1" have IH: "n div b < b ^ digits_in b (n div b)"
        "n div b > 0 \<longrightarrow> b ^ (digits_in b (n div b) - 1) \<le> n div b" by auto
      have d: "digits_in b n = Suc (digits_in b (n div b))"
        using False "1.prems" by (simp add: digits_in.simps [of b n])
      have p: "n div b > 0" using False "1.prems" by (simp only: div_greater_zero_iff) simp
      have pos: "digits_in b (n div b) > 0" by (simp add: digits_in.simps [of b "n div b"])
      have "n < (n div b + 1) * b" using "1.prems" dividend_less_div_times [of b n] by simp
      also have "\<dots> \<le> b ^ digits_in b (n div b) * b" using IH(1) by (intro mult_right_mono) simp_all
      finally have "n < b ^ digits_in b n" by (simp add: d mult.commute)
      moreover have "b ^ (digits_in b n - 1) \<le> n"
      proof -
        have "b ^ digits_in b (n div b) = b ^ (digits_in b (n div b) - 1) * b"
          using pos by (cases "digits_in b (n div b)") simp_all
        also have "\<dots> \<le> n div b * b" using IH(2) p by (intro mult_right_mono) simp_all
        also have "\<dots> \<le> n" by (rule div_times_less_eq_dividend)
        finally show ?thesis by (simp add: d)
      qed
      ultimately show ?thesis by blast
    qed
  qed
  then show "n < b ^ digits_in b n" "n > 0 \<Longrightarrow> b ^ (digits_in b n - 1) \<le> n" by blast+
qed

lemma digits_in_le:
  assumes "b \<ge> 2" "n < b ^ k" "k > 0"
  shows "digits_in b n \<le> k"
proof (rule ccontr)
  assume less: "\<not> ?thesis"
  then have k: "k \<le> digits_in b n - 1" by simp
  show False
  proof (cases "n > 0")
    case True
    have "b ^ k \<le> b ^ (digits_in b n - 1)" using assms(1) k by (simp add: power_increasing)
    also have "\<dots> \<le> n" using digits_in_bounds(2) [OF assms(1) True] .
    finally show False using assms(2) by simp
  next
    case False
    then have "digits_in b n = 1" using assms(1) digits_in.simps [of b n] by simp
    then show False using less assms(3) by simp
  qed
qed

subsection \<open>Rounding a quotient to a number of significant digits\<close>

text \<open>
  \<open>scaled_round b p cap n d\<close> rounds \<open>n / d\<close> (with \<open>n, d > 0\<close>) to \<open>p\<close> significant digits in base
  \<open>b\<close>, keeping at most \<open>cap\<close> digits after the point: the result is \<open>(m, s)\<close> for \<open>m / b^s\<close>.
\<close>

definition magnitude :: "nat \<Rightarrow> int \<Rightarrow> int \<Rightarrow> int" where
  "magnitude b n d =
     (let k = int (digits_in b (nat n)) - int (digits_in b (nat d));
          below = (if k \<ge> 0 then n < d * int b ^ nat k else n * int b ^ nat (- k) < d)
      in if below then k else k + 1)"

definition scaled_round :: "nat \<Rightarrow> int \<Rightarrow> int \<Rightarrow> int \<Rightarrow> int \<Rightarrow> int \<times> int" where
  "scaled_round b p cap n d =
     (let s = min (p - magnitude b n d) cap
      in (if s \<ge> 0 then div_even (n * int b ^ nat s) d else div_even n (d * int b ^ nat (- s)), s))"

definition scaled_value :: "nat \<Rightarrow> int \<times> int \<Rightarrow> rat" where
  "scaled_value b ms =
     (case ms of (m, s) \<Rightarrow> if s \<ge> 0 then of_int m / of_nat b ^ nat s else of_int m * of_nat b ^ nat (- s))"

text \<open>
  The binary64 value of \<open>n / d\<close> for \<open>d > 0\<close>: 53 significant bits, subnormals below
  \<open>2^-1022\<close>, infinite from \<open>2^1024\<close> on.
\<close>

definition float64 :: "int \<Rightarrow> int \<Rightarrow> pyfloat" where
  "float64 n d =
     (if n = 0 then Fin 0
      else let r = scaled_value 2 (scaled_round 2 53 1074 \<bar>n\<bar> d)
           in if r \<ge> 2 ^ 1024 then (if n < 0 then NegInf else PosInf)
              else if r = 0 then (if n < 0 then NegZero else Fin 0)
              else Fin (if n < 0 then - r else r))"

definition float64_rat :: "rat \<Rightarrow> pyfloat" where
  "float64_rat q = (case quotient_of q of (n, d) \<Rightarrow> float64 n d)"

lemma magnitude_int:
  assumes "n > 0" "n < int b ^ k" "k > 0" "b \<ge> 2"
  shows "magnitude b n 1 \<le> int k"
proof -
  have d1: "digits_in b (nat 1) = 1" "digits_in b (Suc 0) = 1"
    using assms(4) by (simp_all add: digits_in.simps [of b "Suc 0"])
  have "nat n < b ^ k" using assms(1,2) by (metis nat_less_iff of_nat_power order_less_imp_le)
  then have "digits_in b (nat n) \<le> k" using assms(3,4) by (intro digits_in_le) simp_all
  moreover have "digits_in b (nat n) \<ge> 1" by (simp add: digits_in.simps [of b "nat n"])
  ultimately show ?thesis by (simp add: magnitude_def Let_def d1)
qed

text \<open>Integers of at most \<open>p\<close> digits are not changed.\<close>

lemma scaled_round_int:
  assumes "n > 0" "n < int b ^ p" "p > 0" "b \<ge> 2" "cap \<ge> 0"
  shows "scaled_value b (scaled_round b (int p) cap n 1) = of_int n"
proof -
  let ?s = "min (int p - magnitude b n 1) cap"
  have s: "?s \<ge> 0" using magnitude_int [OF assms(1-4)] assms(5) by simp
  have "scaled_round b (int p) cap n 1 = (n * int b ^ nat ?s, ?s)"
    using s by (simp add: scaled_round_def Let_def)
  then show ?thesis using s assms(4) by (simp add: scaled_value_def)
qed

lemma float64_int:
  assumes "\<bar>n\<bar> < 2 ^ 53"
  shows "float64 n 1 = Fin (of_int n)"
proof (cases "n = 0")
  case False
  have r: "scaled_value 2 (scaled_round 2 53 1074 \<bar>n\<bar> 1) = of_int \<bar>n\<bar>"
    using scaled_round_int [of "\<bar>n\<bar>" 2 53 1074] False assms by simp
  have "(of_int \<bar>n\<bar> :: rat) < of_int (2 ^ 53)" using assms by (simp only: of_int_less_iff)
  moreover have "(2 :: rat) ^ 53 \<le> 2 ^ 1024" by (intro power_increasing) simp_all
  ultimately have "\<not> (of_int \<bar>n\<bar> :: rat) \<ge> 2 ^ 1024" by simp
  then show ?thesis using False by (auto simp: float64_def Let_def r)
qed (simp add: float64_def)

section \<open>Decimal numbers\<close>

text \<open>
  \<open>Dec c e\<close> is the finite number \<open>c * 10^e\<close> as Python keeps it, coefficient and exponent; the
  sign of a zero is not kept. Signalling NaNs count as NaNs.
\<close>

datatype dec = Dec int int | DecInf bool | DecNaN

fun dec_finite :: "dec \<Rightarrow> bool" where
  "dec_finite (Dec _ _) = True"
| "dec_finite _ = False"

fun coeff :: "dec \<Rightarrow> int" where
  "coeff (Dec c e) = c"
| "coeff _ = 0"

fun expo :: "dec \<Rightarrow> int" where
  "expo (Dec c e) = e"
| "expo _ = 0"

text \<open>The rational value \<open>c * 10^e\<close>, and two coefficients over a common exponent.\<close>

definition dval :: "dec \<Rightarrow> rat" where
  "dval x = (if expo x \<ge> 0 then of_int (coeff x) * 10 ^ nat (expo x)
             else of_int (coeff x) / 10 ^ nat (- expo x))"

definition at_expo :: "int \<Rightarrow> dec \<Rightarrow> int" where
  "at_expo g x = coeff x * 10 ^ nat (expo x - g)"

definition dec_eq :: "dec \<Rightarrow> dec \<Rightarrow> bool" where
  "dec_eq x y = (let g = min (expo x) (expo y) in at_expo g x = at_expo g y)"

definition dec_less :: "dec \<Rightarrow> dec \<Rightarrow> bool" where
  "dec_less x y = (let g = min (expo x) (expo y) in at_expo g x < at_expo g y)"

lemma dval_at_expo: "g \<le> expo x \<Longrightarrow> dval x = (if g \<ge> 0 then of_int (at_expo g x) * 10 ^ nat g else of_int (at_expo g x) / 10 ^ nat (- g))"
proof -
  assume g: "g \<le> expo x"
  consider "g \<ge> 0" | "g < 0" "expo x \<ge> 0" | "g < 0" "expo x < 0" by linarith
  then show ?thesis
  proof cases
    case 1
    then have "nat (expo x) = nat (expo x - g) + nat g" using g by simp
    then show ?thesis using 1 g by (simp add: dval_def at_expo_def power_add)
  next
    case 2
    then have "nat (expo x - g) = nat (expo x) + nat (- g)" by simp
    then show ?thesis using 2 by (simp add: dval_def at_expo_def power_add)
  next
    case 3
    then have "nat (- g) = nat (expo x - g) + nat (- expo x)" using g by simp
    then show ?thesis using 3 by (simp add: dval_def at_expo_def power_add)
  qed
qed

lemma dec_eq_dval: "dec_eq x y \<longleftrightarrow> dval x = dval y"
proof -
  let ?g = "min (expo x) (expo y)"
  show ?thesis
    using dval_at_expo [of ?g x] dval_at_expo [of ?g y] by (simp add: dec_eq_def Let_def)
qed

lemma dec_less_dval: "dec_less x y \<longleftrightarrow> dval x < dval y"
proof -
  let ?g = "min (expo x) (expo y)"
  show ?thesis
    using dval_at_expo [of ?g x] dval_at_expo [of ?g y]
    by (simp add: dec_less_def Let_def divide_strict_right_mono divide_less_cancel)
qed

text \<open>\<open>value == value.to_integral_value()\<close> and \<open>int(value)\<close>, which truncates.\<close>

definition dec_integral :: "dec \<Rightarrow> bool" where
  "dec_integral x \<longleftrightarrow> expo x \<ge> 0 \<or> coeff x mod 10 ^ nat (- expo x) = 0"

definition dec_int :: "dec \<Rightarrow> int" where
  "dec_int x = (if expo x \<ge> 0 then coeff x * 10 ^ nat (expo x)
                else sgn (coeff x) * (\<bar>coeff x\<bar> div 10 ^ nat (- expo x)))"

lemma dec_int_integral:
  assumes "dec_integral x"
  shows "of_int (dec_int x) = dval x"
proof (cases "expo x \<ge> 0")
  case False
  let ?p = "(10 :: int) ^ nat (- expo x)"
  have "?p dvd coeff x" using assms False by (simp add: dec_integral_def mod_eq_0_iff_dvd)
  then have "?p dvd \<bar>coeff x\<bar>" by simp
  then obtain k where k: "\<bar>coeff x\<bar> = ?p * k" by (rule dvdE)
  have "(of_int (dec_int x) :: rat) = of_int (sgn (coeff x) * k)"
    using False k by (simp add: dec_int_def)
  also have "\<dots> = of_int (sgn (coeff x) * (?p * k)) / of_int ?p" by simp
  also have "sgn (coeff x) * (?p * k) = coeff x" using k by (metis mult_sgn_abs)
  finally show ?thesis using False by (simp add: dval_def)
qed (simp add: dec_int_def dval_def)

subsection \<open>Arithmetic in the default context\<close>

definition dec_digits :: "int \<Rightarrow> nat" where
  "dec_digits c = digits_in 10 (nat \<bar>c\<bar>)"

text \<open>A result of more than 28 digits is rounded, ties to even.\<close>

definition dec_fix :: "int \<Rightarrow> int \<Rightarrow> dec" where
  "dec_fix c e =
     (if dec_digits c \<le> 28 then Dec c e
      else let k = dec_digits c - 28; r = div_even c (10 ^ k)
           in if dec_digits r > 28 then Dec (r div 10) (e + int k + 1) else Dec r (e + int k))"

definition dec_add :: "dec \<Rightarrow> dec \<Rightarrow> dec" where
  "dec_add x y = (let g = min (expo x) (expo y) in dec_fix (at_expo g x + at_expo g y) g)"

definition dec_sub :: "dec \<Rightarrow> dec \<Rightarrow> dec" where
  "dec_sub x y = (let g = min (expo x) (expo y) in dec_fix (at_expo g x - at_expo g y) g)"

definition dec_mul :: "dec \<Rightarrow> dec \<Rightarrow> dec" where
  "dec_mul x y = dec_fix (coeff x * coeff y) (expo x + expo y)"

definition dec_abs :: "dec \<Rightarrow> dec" where
  "dec_abs x = dec_fix \<bar>coeff x\<bar> (expo x)"

definition dec_zero :: dec where "dec_zero = Dec 0 0"
definition dec_of_int :: "int \<Rightarrow> dec" where "dec_of_int n = Dec n 0"

definition dec_sum :: "dec list \<Rightarrow> dec" where
  "dec_sum xs = foldl dec_add dec_zero xs"

text \<open>
  \<open>x / y\<close> for a nonzero \<open>y\<close>: the value of the 28-digit quotient, as numerator and denominator.
\<close>

definition dec_ratio :: "dec \<Rightarrow> dec \<Rightarrow> int \<times> int" where
  "dec_ratio x y =
     (let g = min (expo x) (expo y); n = at_expo g x; d = at_expo g y
      in if n = 0 then (0, 1)
         else let (m, s) = scaled_round 10 28 1000000 \<bar>n\<bar> \<bar>d\<bar>; m' = sgn n * sgn d * m
              in if s \<ge> 0 then (m', 10 ^ nat s) else (m' * 10 ^ nat (- s), 1))"

text \<open>\<open>float(value)\<close> and \<open>float(x / y)\<close>.\<close>

definition dec_float :: "dec \<Rightarrow> pyfloat" where
  "dec_float x = (if expo x \<ge> 0 then float64 (coeff x * 10 ^ nat (expo x)) 1
                  else float64 (coeff x) (10 ^ nat (- expo x)))"

definition ratio_float :: "dec \<Rightarrow> dec \<Rightarrow> pyfloat" where
  "ratio_float x y = (case dec_ratio x y of (n, d) \<Rightarrow> float64 n d)"

lemma dec_fix_exact: "\<bar>c\<bar> < 10 ^ 28 \<Longrightarrow> dec_fix c e = Dec c e"
proof -
  assume "\<bar>c\<bar> < 10 ^ 28"
  then have "dec_digits c \<le> 28"
    unfolding dec_digits_def by (intro digits_in_le) simp_all
  then show ?thesis by (simp add: dec_fix_def)
qed

lemma dec_sub_int: "\<bar>a - b\<bar> < 10 ^ 28 \<Longrightarrow> dec_sub (Dec a 0) (Dec b 0) = Dec (a - b) 0"
  by (simp add: dec_sub_def at_expo_def dec_fix_exact)

lemma dec_add_int: "\<bar>a + b\<bar> < 10 ^ 28 \<Longrightarrow> dec_add (Dec a 0) (Dec b 0) = Dec (a + b) 0"
  by (simp add: dec_add_def at_expo_def dec_fix_exact)

subsection \<open>Text of a decimal\<close>

text \<open>\<open>str(value)\<close>: plain notation for exponents down to \<open>-6\<close>, scientific otherwise.\<close>

definition signed_int :: "int \<Rightarrow> ustr" where
  "signed_int e = (if e < 0 then 45 else 43) # dec_nat (nat \<bar>e\<bar>)"

definition dec_unsigned_text :: "ustr \<Rightarrow> int \<Rightarrow> ustr" where
  "dec_unsigned_text ds e =
     (let left = e + int (length ds);
          dot = (if e \<le> 0 \<and> left > -6 then left else 1);
          body = (if dot \<le> 0 then [48, 46] @ replicate (nat (- dot)) 48 @ ds
                  else if dot \<ge> int (length ds) then ds @ replicate (nat (dot - int (length ds))) 48
                  else take (nat dot) ds @ [46] @ drop (nat dot) ds)
      in body @ (if left = dot then [] else 69 # signed_int (left - dot)))"

fun dec_str :: "dec \<Rightarrow> ustr" where
  "dec_str (Dec c e) = (if c < 0 then [45] else []) @ dec_unsigned_text (dec_nat (nat \<bar>c\<bar>)) e"
| "dec_str (DecInf neg) = (if neg then u ''-Infinity'' else u ''Infinity'')"
| "dec_str DecNaN = u ''NaN''"

text \<open>
  \<open>Decimal(s)\<close> of a text: blanks around it and underscores are dropped; \<open>None\<close> is
  \<open>InvalidOperation\<close>. ASCII digits only.
\<close>

definition lower_char :: "nat \<Rightarrow> nat" where
  "lower_char c = (if 65 \<le> c \<and> c \<le> 90 then c + 32 else c)"

definition parse_exponent :: "ustr \<Rightarrow> int option" where
  "parse_exponent s =
     (case s of
        [] \<Rightarrow> Some 0
      | c # t \<Rightarrow>
          if c \<noteq> 69 \<and> c \<noteq> 101 then None
          else let neg = (take 1 t = [45]); ds = (if take 1 t = [45] \<or> take 1 t = [43] then tl t else t)
               in if ds = [] \<or> \<not> list_all is_digit ds then None
                  else Some (if neg then - int (dec_val ds) else int (dec_val ds)))"

definition parse_unsigned :: "ustr \<Rightarrow> dec option" where
  "parse_unsigned s =
     (let ip = takeWhile is_digit s; r = dropWhile is_digit s;
          fp = (if take 1 r = [46] then takeWhile is_digit (tl r) else []);
          r' = (if take 1 r = [46] then dropWhile is_digit (tl r) else r)
      in if ip @ fp = [] then None
         else case parse_exponent r' of
                None \<Rightarrow> None
              | Some e \<Rightarrow> Some (Dec (int (dec_val (ip @ fp))) (e - int (length fp))))"

definition parse_special :: "bool \<Rightarrow> ustr \<Rightarrow> dec option" where
  "parse_special neg s =
     (let w = map lower_char s; n = (if take 1 w = [115] then tl w else w)
      in if w = u ''inf'' \<or> w = u ''infinity'' then Some (DecInf neg)
         else if take 3 n = u ''nan'' \<and> list_all is_digit (drop 3 n) then Some DecNaN
         else None)"

definition parse_decimal :: "ustr \<Rightarrow> dec option" where
  "parse_decimal s =
     (let t = filter (\<lambda>c. c \<noteq> 95) (strip s); neg = (take 1 t = [45]);
          w = (if take 1 t = [45] \<or> take 1 t = [43] then tl t else t)
      in case parse_unsigned w of
           Some x \<Rightarrow> Some (Dec (if neg then - coeff x else coeff x) (expo x))
         | None \<Rightarrow> parse_special neg w)"

subsection \<open>Text and value\<close>

lemma digits_not_space: "list_all is_digit s \<Longrightarrow> filter is_space s = []"
  by (induction s) (auto simp: is_digit_def is_space_def)

lemma takeWhile_digits:
  assumes "list_all is_digit s" "x = [] \<or> \<not> is_digit (hd x)"
  shows "takeWhile is_digit (s @ x) = s" "dropWhile is_digit (s @ x) = x"
  using assms by (induction s) (cases x; simp)+

lemma dec_nat_list_all [simp]: "list_all is_digit (dec_nat n)"
  using dec_nat_digits by (auto simp: list_all_iff)

lemma dec_val_zeros: "dec_val (replicate n 48 @ s) = dec_val s"
  by (induction n) (simp_all add: dec_val_def)

lemma dec_val_zero_first: "dec_val (48 # s) = dec_val s"
  by (simp add: dec_val_def)

lemma parse_exponent_signed: "parse_exponent (69 # signed_int k) = Some k"
  by (auto simp: parse_exponent_def signed_int_def Let_def)

lemma parse_unsigned_parts:
  assumes "list_all is_digit ip" "list_all is_digit fp" "ip \<noteq> []"
    and "parse_exponent x = Some e" "x = [] \<or> hd x = 69"
  shows "parse_unsigned (ip @ (if fp = [] then [] else 46 # fp) @ x)
           = Some (Dec (int (dec_val (ip @ fp))) (e - int (length fp)))"
proof -
  have x: "x = [] \<or> \<not> is_digit (hd x)" "take 1 x \<noteq> [46]"
    using assms(5) by (cases x; auto simp: is_digit_def)+
  show ?thesis
  proof (cases "fp = []")
    case True
    then show ?thesis using assms x
      by (simp add: parse_unsigned_def Let_def takeWhile_digits)
  next
    case False
    have "46 # fp @ x = [] \<or> \<not> is_digit (hd (46 # fp @ x))" by (simp add: is_digit_def)
    then show ?thesis using assms False x(1)
      by (simp add: parse_unsigned_def Let_def takeWhile_digits)
  qed
qed

lemma dec_unsigned_text_parts:
  assumes "list_all is_digit ds" "ds \<noteq> []"
  obtains ip fp x e' where
    "dec_unsigned_text ds e = ip @ (if fp = [] then [] else 46 # fp) @ x"
    "list_all is_digit ip" "list_all is_digit fp" "ip \<noteq> []" "parse_exponent x = Some e'"
    "x = [] \<or> (\<exists>k. x = 69 # signed_int k)"
    "dec_val (ip @ fp) = dec_val ds" "e' - int (length fp) = e"
proof -
  let ?n = "int (length ds)"
  let ?left = "e + ?n"
  have n: "?n \<ge> 1" using assms(2) by (cases ds) simp_all
  show thesis
  proof (cases "e \<le> 0 \<and> ?left > -6")
    case True
    consider "?left \<le> 0" | "?left > 0" "e < 0" | "e = 0" using True by linarith
    then show thesis
    proof cases
      case 1
      let ?fp = "replicate (nat (- ?left)) 48 @ ds"
      have "dec_unsigned_text ds e = [48] @ (if ?fp = [] then [] else 46 # ?fp) @ []"
        using True 1 assms(2) by (simp add: dec_unsigned_text_def Let_def)
      moreover have "list_all is_digit ?fp" using assms(1) by (auto simp: list_all_iff is_digit_def)
      moreover have "dec_val ([48] @ ?fp) = dec_val ds" by (simp add: dec_val_zero_first dec_val_zeros)
      moreover have "0 - int (length ?fp) = e" using 1 by simp
      ultimately show thesis
        by (intro that [of "[48]" ?fp "[]" 0]) (simp_all add: is_digit_def parse_exponent_def)
    next
      case 2
      let ?k = "nat ?left"
      have k: "0 < ?k" "?k < length ds" using 2 by simp_all
      have ne: "drop ?k ds \<noteq> []" using k by simp
      have "dec_unsigned_text ds e = take ?k ds @ (if drop ?k ds = [] then [] else 46 # drop ?k ds) @ []"
        using True 2 ne by (simp add: dec_unsigned_text_def Let_def)
      moreover have "list_all is_digit (take ?k ds)" "list_all is_digit (drop ?k ds)"
        using assms(1) by (auto simp: list_all_iff dest: in_set_takeD in_set_dropD)
      moreover have "0 - int (length (drop ?k ds)) = e" using 2 k by simp
      moreover have "take ?k ds \<noteq> []" using k by (cases ds) simp_all
      ultimately show thesis
        by (intro that [of "take ?k ds" "drop ?k ds" "[]" 0]) (simp_all add: parse_exponent_def)
    next
      case 3
      have "dec_unsigned_text ds e = ds @ (if ([] :: ustr) = [] then [] else 46 # []) @ []"
        using 3 assms(2) by (simp add: dec_unsigned_text_def Let_def)
      then show thesis
        by (rule that [of ds "[]" "[]" 0]) (use 3 assms in \<open>simp_all add: parse_exponent_def\<close>)
    qed
  next
    case False
    then have left: "?left \<noteq> 1" using n by linarith
    have shape: "dec_unsigned_text ds e
        = take 1 ds @ (if drop 1 ds = [] then [] else 46 # drop 1 ds) @ 69 # signed_int (?left - 1)"
    proof (cases "length ds = 1")
      case True
      then show ?thesis using False left by (auto simp: dec_unsigned_text_def Let_def)
    next
      case len: False
      then have "\<not> length ds \<le> 1" using n by linarith
      then show ?thesis using False left by (auto simp: dec_unsigned_text_def Let_def)
    qed
    moreover have "list_all is_digit (take 1 ds)" "list_all is_digit (drop 1 ds)"
      using assms(1) by (auto simp: list_all_iff dest: in_set_takeD in_set_dropD)
    moreover have "?left - 1 - int (length (drop 1 ds)) = e" using n by simp
    moreover have "take 1 ds \<noteq> []" using assms(2) by (cases ds) simp_all
    ultimately show thesis
      by (intro that [of "take 1 ds" "drop 1 ds" "69 # signed_int (?left - 1)" "?left - 1"])
        (auto simp: parse_exponent_signed)
  qed
qed

definition dec_char :: "nat \<Rightarrow> bool" where
  "dec_char c \<longleftrightarrow> is_digit c \<or> c \<in> {43, 45, 46, 69}"

lemma dec_char_plain: "dec_char c \<Longrightarrow> \<not> is_space c \<and> c \<noteq> 95"
  by (auto simp: dec_char_def is_digit_def is_space_def)

lemma digit_dec_char: "list_all is_digit s \<Longrightarrow> list_all dec_char s"
  by (auto simp: list_all_iff dec_char_def)

lemma strip_plain: "list_all dec_char s \<Longrightarrow> strip s = s"
proof -
  have "dropWhile is_space t = t" if "list_all dec_char t" for t
    using that dec_char_plain by (cases t) auto
  moreover assume "list_all dec_char s"
  ultimately show ?thesis by (simp add: strip_def)
qed

lemma signed_int_dec_char: "list_all dec_char (signed_int k)"
  by (simp add: signed_int_def dec_char_def digit_dec_char)

text \<open>
  Reading back the text of a finite decimal gives the same coefficient and exponent, in
  plain and in scientific notation.
\<close>

theorem decimal_text_roundtrip: "parse_decimal (dec_str (Dec c e)) = Some (Dec c e)"
proof -
  let ?ds = "dec_nat (nat \<bar>c\<bar>)"
  obtain ip fp x e' where parts:
    "dec_unsigned_text ?ds e = ip @ (if fp = [] then [] else 46 # fp) @ x"
    "list_all is_digit ip" "list_all is_digit fp" "ip \<noteq> []" "parse_exponent x = Some e'"
    "x = [] \<or> (\<exists>k. x = 69 # signed_int k)"
    "dec_val (ip @ fp) = dec_val ?ds" "e' - int (length fp) = e"
    by (rule dec_unsigned_text_parts [of ?ds e]) simp_all
  let ?t = "dec_unsigned_text ?ds e"
  have "list_all dec_char x" using parts(6) signed_int_dec_char by (auto simp: dec_char_def)
  then have chars: "list_all dec_char ?t"
    using parts(2,3) by (simp add: parts(1) digit_dec_char dec_char_def)
  have "x = [] \<or> hd x = 69" using parts(6) by auto
  with parts have val: "parse_unsigned ?t = Some (Dec \<bar>c\<bar> e)"
    using parse_unsigned_parts [of ip fp x e'] by simp
  have first: "take 1 ?t \<noteq> [45]" "take 1 ?t \<noteq> [43]"
    using parts(2,4) by (cases ip; auto simp: parts(1) is_digit_def)+
  have clean: "strip s = s" "filter (\<lambda>c. c \<noteq> 95) s = s" if "list_all dec_char s" for s
    using that dec_char_plain by (auto simp: strip_plain list_all_iff intro!: filter_True)
  show ?thesis
  proof (cases "c < 0")
    case True
    have "list_all dec_char (45 # ?t)" using chars by (simp add: dec_char_def)
    with True val show ?thesis by (simp add: parse_decimal_def clean)
  next
    case False
    with val chars first show ?thesis by (simp add: parse_decimal_def clean Let_def)
  qed
qed

lemma parse_decimal_int: "parse_decimal (py_str_int n) = Some (Dec n 0)"
proof -
  have "dec_str (Dec n 0) = py_str_int n"
    by (simp add: py_str_int_def dec_unsigned_text_def Let_def)
  moreover have "parse_decimal (py_str_int n) = Some (Dec n 0)"
  proof -
    have clean: "strip s = s" "filter (\<lambda>c. c \<noteq> 95) s = s" if "list_all dec_char s" for s
      using that dec_char_plain by (auto simp: strip_plain list_all_iff intro!: filter_True)
    have u: "parse_unsigned (dec_nat m) = Some (Dec (int m) 0)" for m
      using parse_unsigned_parts [of "dec_nat m" "[]" "[]" 0] by (simp add: parse_exponent_def)
    have first: "take 1 (dec_nat m) \<noteq> [45]" "take 1 (dec_nat m) \<noteq> [43]" for m
      using dec_nat_list_all [of m] by (cases "dec_nat m"; auto simp: is_digit_def)+
    show ?thesis
      using u first digit_dec_char [OF dec_nat_list_all]
      by (simp add: py_str_int_def parse_decimal_def Let_def clean dec_char_def)
  qed
  ultimately show ?thesis by simp
qed

section \<open>Floats\<close>

text \<open>Order and difference of binary64 values; every comparison with a NaN is false.\<close>

definition f_val :: "pyfloat \<Rightarrow> rat option" where
  "f_val f = (case f of Fin q \<Rightarrow> Some q | NegZero \<Rightarrow> Some 0 | _ \<Rightarrow> None)"

definition f_less_eq :: "pyfloat \<Rightarrow> pyfloat \<Rightarrow> bool" where
  "f_less_eq a b =
     (if a = NaN \<or> b = NaN then False
      else if a = NegInf \<or> b = PosInf then True
      else if a = PosInf \<or> b = NegInf then False
      else the (f_val a) \<le> the (f_val b))"

definition f_less :: "pyfloat \<Rightarrow> pyfloat \<Rightarrow> bool" where
  "f_less a b \<longleftrightarrow> a \<noteq> NaN \<and> b \<noteq> NaN \<and> \<not> f_less_eq b a"

definition f_sub :: "pyfloat \<Rightarrow> pyfloat \<Rightarrow> pyfloat" where
  "f_sub a b =
     (if a = NaN \<or> b = NaN then NaN
      else if a = PosInf then (if b = PosInf then NaN else PosInf)
      else if a = NegInf then (if b = NegInf then NaN else NegInf)
      else if b = PosInf then NegInf
      else if b = NegInf then PosInf
      else float64_rat (the (f_val a) - the (f_val b)))"

definition f_add :: "pyfloat \<Rightarrow> pyfloat \<Rightarrow> pyfloat" where
  "f_add a b = (case b of Fin q \<Rightarrow> f_sub a (Fin (- q)) | NegZero \<Rightarrow> f_sub a (Fin 0) | PosInf \<Rightarrow> f_sub a NegInf
                 | NegInf \<Rightarrow> f_sub a PosInf | NaN \<Rightarrow> NaN)"

definition f_abs :: "pyfloat \<Rightarrow> pyfloat" where
  "f_abs a = (case a of Fin q \<Rightarrow> Fin \<bar>q\<bar> | NegZero \<Rightarrow> Fin 0 | NegInf \<Rightarrow> PosInf | _ \<Rightarrow> a)"

text \<open>\<open>a == b\<close>; \<open>float(v)\<close> of an int or a float, and the numbers that are not Booleans.\<close>

definition f_eq :: "pyfloat \<Rightarrow> pyfloat \<Rightarrow> bool" where
  "f_eq a b \<longleftrightarrow> f_less_eq a b \<and> f_less_eq b a"

fun num_float :: "json \<Rightarrow> pyfloat option" where
  "num_float (JInt i) = Some (float64 i 1)"
| "num_float (JFloat f) = Some f"
| "num_float _ = None"

lemma f_less_Fin [simp]: "f_less (Fin a) (Fin b) \<longleftrightarrow> a < b"
  by (auto simp: f_less_def f_less_eq_def f_val_def)

lemma f_less_eq_Fin [simp]: "f_less_eq (Fin a) (Fin b) \<longleftrightarrow> a \<le> b"
  by (simp add: f_less_eq_def f_val_def)

lemma f_less_irrefl [simp]: "\<not> f_less a a"
  by (auto simp: f_less_def f_less_eq_def)

lemma f_less_antisym: "f_less a b \<Longrightarrow> \<not> f_less_eq b a"
  by (simp add: f_less_def)

section \<open>Instants\<close>

text \<open>
  A \<open>datetime\<close> is its instant in microseconds since the epoch and its offset in seconds
  (\<open>None\<close> for a naive value). Aware values compare by their instants.
\<close>

record stamp =
  micros :: int
  utc_offset :: "int option"

definition aware :: "stamp \<Rightarrow> bool" where
  "aware t \<longleftrightarrow> utc_offset t \<noteq> None"

definition same_instant :: "stamp option \<Rightarrow> stamp option \<Rightarrow> bool" where
  "same_instant a b \<longleftrightarrow> map_option micros a = map_option micros b"

text \<open>\<open>t.timestamp()\<close> and \<open>(a - b).total_seconds()\<close>.\<close>

definition timestamp :: "stamp \<Rightarrow> pyfloat" where
  "timestamp t = float64 (micros t) 1000000"

definition total_seconds :: "stamp \<Rightarrow> stamp \<Rightarrow> pyfloat" where
  "total_seconds a b = float64 (micros a - micros b) 1000000"

text \<open>Civil date of a day number, and \<open>t.isoformat()\<close>.\<close>

definition civil :: "int \<Rightarrow> int \<times> int \<times> int" where
  "civil days =
     (let z = days + 719468; era = z div 146097; doe = z mod 146097;
          yoe = (doe - doe div 1460 + doe div 36524 - doe div 146096) div 365;
          doy = doe - (365 * yoe + yoe div 4 - yoe div 100);
          mp = (5 * doy + 2) div 153; d = doy - (153 * mp + 2) div 5 + 1;
          m = (if mp < 10 then mp + 3 else mp - 9)
      in (yoe + era * 400 + (if m \<le> 2 then 1 else 0), m, d))"

definition padded :: "nat \<Rightarrow> int \<Rightarrow> ustr" where
  "padded w n = (let s = dec_nat (nat n) in replicate (w - length s) 48 @ s)"

definition clock_text :: "bool \<Rightarrow> int \<Rightarrow> ustr" where
  "clock_text seconds s =
     padded 2 (s div 3600) @ [58] @ padded 2 (s div 60 mod 60) @ (if seconds then [58] @ padded 2 (s mod 60) else [])"

definition offset_text :: "int \<Rightarrow> ustr" where
  "offset_text off = (if off < 0 then [45] else [43]) @ clock_text (off mod 60 \<noteq> 0) \<bar>off\<bar>"

definition isoformat :: "stamp \<Rightarrow> ustr" where
  "isoformat t =
     (let local = micros t + 1000000 * (case utc_offset t of None \<Rightarrow> 0 | Some off \<Rightarrow> off);
          secs = local div 1000000; frac = local mod 1000000; (y, m, d) = civil (secs div 86400)
      in padded 4 y @ [45] @ padded 2 m @ [45] @ padded 2 d @ [84] @ clock_text True (secs mod 86400)
         @ (if frac = 0 then [] else [46] @ padded 6 frac)
         @ (case utc_offset t of None \<Rightarrow> [] | Some off \<Rightarrow> offset_text off))"

section \<open>Ordered sets\<close>

text \<open>\<open>sorted(set(xs))\<close>: texts are ordered by code points.\<close>

definition sorted_set :: "'a::linorder list \<Rightarrow> 'a list" where
  "sorted_set xs = sort (remdups xs)"

lemma sorted_set_simps [simp]:
  "set (sorted_set xs) = set xs" "sorted (sorted_set xs)" "distinct (sorted_set xs)"
  by (simp_all add: sorted_set_def)

lemma sorted_set_Nil [simp]: "sorted_set [] = []" "sorted_set xs = [] \<longleftrightarrow> xs = []"
proof -
  show "sorted_set [] = []" by (simp add: sorted_set_def)
  have "sorted_set xs = [] \<longleftrightarrow> set (sorted_set xs) = {}" by (simp only: set_empty)
  then show "sorted_set xs = [] \<longleftrightarrow> xs = []" by simp
qed

lemma sorted_set_cong: "set xs = set ys \<Longrightarrow> sorted_set xs = sorted_set ys"
  by (metis sorted_set_simps sorted_distinct_set_unique)

lemma sorted_set_id: "sorted xs \<Longrightarrow> distinct xs \<Longrightarrow> sorted_set xs = xs"
  by (simp add: sorted_set_def distinct_remdups_id sorted_sort_id)

end
