(* ===== verification/Evidence.thy ===== *)
theory Evidence
  imports Decimals
begin

text \<open>
  Evidence bundles (\<open>src/ops_agent/models.py\<close>), their canonical digest
  (\<open>src/ops_agent/evaluation_models.py\<close>) and the identities of configured endpoints
  (\<open>src/ops_agent/endpoint_provenance.py\<close>). Every model is a record of its fields; its
  validator is a Boolean function, and \<open>dump_..\<close> is \<open>model_dump(mode='json')\<close>.
\<close>

section \<open>Library functions\<close>

text \<open>
  \<open>repr_of\<close> is \<open>repr\<close>, \<open>lower_of\<close> and \<open>upper_of\<close> are \<open>str.lower\<close> and \<open>str.upper\<close>, \<open>split_url\<close> is
  \<open>urlsplit\<close> with the properties of its result (\<open>None\<close> when it raises; \<open>url_port = None\<close> when
  reading the port raises), \<open>stamp_text\<close> is the JSON text the model library writes for a
  datetime.
\<close>

record url =
  url_scheme :: ustr
  url_netloc :: ustr
  url_user :: "ustr option"
  url_password :: "ustr option"
  url_host :: "ustr option"
  url_port :: "int option option"
  url_path :: ustr
  url_query :: ustr
  url_fragment :: ustr

record opslib =
  py :: pylib
  repr_of :: "json \<Rightarrow> ustr"
  lower_of :: "ustr \<Rightarrow> ustr"
  upper_of :: "ustr \<Rightarrow> ustr"
  split_url :: "ustr \<Rightarrow> url option"
  stamp_text :: "stamp \<Rightarrow> ustr"

text \<open>\<open>str(v)\<close>.\<close>

fun py_str :: "opslib \<Rightarrow> json \<Rightarrow> ustr" where
  "py_str O' (JStr s) = s"
| "py_str O' (JInt i) = py_str_int i"
| "py_str O' (JFloat PosInf) = u ''inf''"
| "py_str O' (JFloat NegInf) = u ''-inf''"
| "py_str O' (JFloat NaN) = u ''nan''"
| "py_str O' (JFloat f) = float_repr (py O') f"
| "py_str O' v = repr_of O' v"

text \<open>\<open>Decimal(str(v))\<close>.\<close>

definition to_decimal :: "opslib \<Rightarrow> json \<Rightarrow> dec option" where
  "to_decimal O' v = parse_decimal (py_str O' v)"

lemma to_decimal_int [simp]: "to_decimal O' (JInt n) = Some (Dec n 0)"
  by (simp add: to_decimal_def parse_decimal_int)

section \<open>Canonical digest\<close>

text \<open>
  \<open>json.dumps(v, ensure_ascii=True, separators=(',', ':'), sort_keys=True)\<close>: members are
  printed in the order of their keys.
\<close>

definition member_texts :: "(ustr \<times> ustr) list \<Rightarrow> ustr list" where
  "member_texts ms = map (\<lambda>kt. ascii_text (fst kt) @ [58] @ snd kt) (sort_key fst ms)"

fun canonical :: "pylib \<Rightarrow> json \<Rightarrow> ustr" where
  "canonical L JNull = u ''null''"
| "canonical L (JBool b) = (if b then u ''true'' else u ''false'')"
| "canonical L (JInt i) = py_str_int i"
| "canonical L (JFloat f) = float_text L f"
| "canonical L (JStr s) = ascii_text s"
| "canonical L (JArr xs) = [91] @ join [44] (map (canonical L) xs) @ [93]"
| "canonical L (JObj d) =
     [123] @ join [44] (member_texts (map (\<lambda>kv. (fst kv, canonical L (snd kv))) d)) @ [125]"

definition canonical_sha256 :: "pylib \<Rightarrow> json \<Rightarrow> ustr" where
  "canonical_sha256 L v = hexdigest (sha256 L (ascii (canonical L v)))"

definition is_hex :: "ustr \<Rightarrow> bool" where
  "is_hex s \<longleftrightarrow> list_all (\<lambda>c. is_digit c \<or> 97 \<le> c \<and> c \<le> 102) s"

definition is_digest :: "ustr \<Rightarrow> bool" where
  "is_digest s \<longleftrightarrow> length s = 64 \<and> is_hex s"

lemma hex_digit_hex: "n < 16 \<Longrightarrow> is_hex [hex_digit n]"
  by (auto simp: is_hex_def hex_digit_def is_digit_def)

lemma hexdigest_hex: "is_hex (hexdigest bs)"
proof (induction bs)
  case (Cons b bs)
  have "unat b < 256" using unsigned_less [where w = b, where ?'a = nat] by simp
  then have "unat b div 16 < 16" "unat b mod 16 < 16" by (simp_all add: less_mult_imp_div_less)
  then have "is_hex [hex_digit (unat b div 16)]" "is_hex [hex_digit (unat b mod 16)]"
    by (simp_all only: hex_digit_hex)
  with Cons show ?case by (simp add: hexdigest_def is_hex_def)
qed (simp add: hexdigest_def is_hex_def)

lemma length_hexdigest: "length (hexdigest bs) = 2 * length bs"
  by (induction bs) (simp_all add: hexdigest_def)

lemma canonical_sha256_digest: "length (sha256 L (ascii (canonical L v))) = 32 \<Longrightarrow> is_digest (canonical_sha256 L v)"
  by (simp add: canonical_sha256_def is_digest_def hexdigest_hex length_hexdigest)

text \<open>The order of the members of an object does not change its digest.\<close>

lemma member_texts_perm:
  assumes "distinct (map fst xs)" "set xs = set ys" "distinct (map fst ys)"
  shows "member_texts xs = member_texts ys"
proof -
  have "sort_key fst xs = sort_key fst ys"
  proof (rule map_sorted_distinct_set_unique [of fst])
    have "inj_on fst (set ys)" using assms(3) by (simp add: distinct_map)
    then show "inj_on fst (set (sort_key fst xs) \<union> set (sort_key fst ys))" using assms(2) by simp
    show "distinct (map fst (sort_key fst xs))" "distinct (map fst (sort_key fst ys))"
      using assms(1,3) by (simp_all add: distinct_map)
  qed (use assms(2) in simp_all)
  then show ?thesis by (simp add: member_texts_def)
qed

lemma canonical_member_order:
  assumes "distinct (map fst d)" "distinct (map fst d')" "set d = set d'"
  shows "canonical L (JObj d) = canonical L (JObj d')"
proof -
  let ?f = "\<lambda>kv. (fst kv, canonical L (snd kv))"
  have "map fst (map ?f d) = map fst d" "map fst (map ?f d') = map fst d'" by simp_all
  then have "member_texts (map ?f d) = member_texts (map ?f d')"
    using assms by (intro member_texts_perm) (simp_all only: set_map)
  then show ?thesis by simp
qed

section \<open>The models of a bundle\<close>

datatype evidence_status = Ev_ok | Ev_missing | Ev_error | Ev_not_applicable | Ev_unavailable
datatype freshness_status = Fresh | Stale | Fresh_unknown | Fresh_not_applicable
datatype collection_status = Coll_complete | Coll_partial | Coll_failed

fun evidence_value :: "evidence_status \<Rightarrow> ustr" where
  "evidence_value Ev_ok = u ''OK''"
| "evidence_value Ev_missing = u ''MISSING''"
| "evidence_value Ev_error = u ''ERROR''"
| "evidence_value Ev_not_applicable = u ''NOT_APPLICABLE''"
| "evidence_value Ev_unavailable = u ''UNAVAILABLE''"

fun freshness_value :: "freshness_status \<Rightarrow> ustr" where
  "freshness_value Fresh = u ''FRESH''"
| "freshness_value Stale = u ''STALE''"
| "freshness_value Fresh_unknown = u ''UNKNOWN''"
| "freshness_value Fresh_not_applicable = u ''NOT_APPLICABLE''"

fun collection_value :: "collection_status \<Rightarrow> ustr" where
  "collection_value Coll_complete = u ''COMPLETE''"
| "collection_value Coll_partial = u ''PARTIAL''"
| "collection_value Coll_failed = u ''FAILED''"

record scope =
  sc_context :: "ustr option"
  sc_namespace :: ustr
  sc_topic :: ustr
  sc_group :: ustr

record bundle_context =
  bc_source_sha :: "ustr option"
  bc_source_dirty :: "bool option"
  bc_tree_sha :: "ustr option"
  bc_desired_image :: "ustr option"
  bc_pod_images :: "ustr list"
  bc_argocd_revision :: "ustr option"
  bc_collector_version :: ustr
  bc_registry_version :: ustr
  bc_policy_version :: ustr

record collection =
  co_started :: stamp
  co_completed :: stamp
  co_status :: collection_status

record freshness =
  fr_status :: freshness_status
  fr_age :: "pyfloat option"
  fr_max_age :: "pyfloat option"
  fr_basis :: ustr

record metric =
  me_name :: ustr
  me_value :: json
  me_unit :: "ustr option"
  me_window :: "ustr option"
  me_aggregation :: "ustr option"
  me_sample_count :: "int option"

record coverage =
  cv_expected_count :: "int option"
  cv_observed_count :: "int option"
  cv_complete :: "bool option"
  cv_expected :: "ustr list"
  cv_observed :: "ustr list"
  cv_missing :: "ustr list"
  cv_extra :: "ustr list"
  cv_notes :: "ustr option"

record semantic =
  se_type :: ustr
  se_notes :: ustr
  se_commit_rate :: "bool option"
  se_flags :: "ustr list"

record evidence_error =
  er_type :: ustr
  er_message :: ustr

record item =
  it_id :: ustr
  it_status :: evidence_status
  it_source :: ustr
  it_tool :: ustr
  it_source_ts :: "stamp option"
  it_collected :: stamp
  it_freshness :: freshness
  it_metric :: metric
  it_labels :: "(ustr \<times> ustr) list"
  it_coverage :: coverage
  it_semantic :: semantic
  it_raw_ref :: "ustr option"
  it_raw_sha :: "ustr option"
  it_error :: "evidence_error option"

record evidence_bundle =
  bu_id :: ustr
  bu_incident :: ustr
  bu_profile :: ustr
  bu_scope :: scope
  bu_context :: bundle_context
  bu_collection :: collection
  bu_evidence :: "item list"

definition label :: "item \<Rightarrow> string \<Rightarrow> ustr option" where
  "label i k = map_of (it_labels i) (u k)"

definition item_name :: "item \<Rightarrow> ustr" where
  "item_name i = me_name (it_metric i)"

section \<open>Validators\<close>

definition bounded_identifier :: "ustr \<Rightarrow> bool" where
  "bounded_identifier s \<longleftrightarrow> 1 \<le> length s \<and> length s \<le> 256"

definition bounded_text :: "ustr \<Rightarrow> bool" where
  "bounded_text s \<longleftrightarrow> 1 \<le> length s \<and> length s \<le> 2048"

definition opt_ok :: "('a \<Rightarrow> bool) \<Rightarrow> 'a option \<Rightarrow> bool" where
  "opt_ok P x = (case x of None \<Rightarrow> True | Some y \<Rightarrow> P y)"

definition bundle_context_ok :: "bundle_context \<Rightarrow> bool" where
  "bundle_context_ok c \<longleftrightarrow> opt_ok is_digest (bc_tree_sha c)"

definition collection_ok :: "collection \<Rightarrow> bool" where
  "collection_ok c \<longleftrightarrow>
     aware (co_started c) \<and> aware (co_completed c) \<and> micros (co_started c) \<le> micros (co_completed c)"

definition freshness_ok :: "freshness \<Rightarrow> bool" where
  "freshness_ok f \<longleftrightarrow>
     opt_ok (f_less_eq (Fin 0)) (fr_age f) \<and> opt_ok (f_less (Fin 0)) (fr_max_age f)
     \<and> bounded_identifier (fr_basis f)
     \<and> (case fr_status f of
          Fresh \<Rightarrow> (case (fr_age f, fr_max_age f) of (Some a, Some m) \<Rightarrow> \<not> f_less m a | _ \<Rightarrow> False)
        | Stale \<Rightarrow> (case (fr_age f, fr_max_age f) of (Some a, Some m) \<Rightarrow> \<not> f_less_eq a m | _ \<Rightarrow> False)
        | _ \<Rightarrow> True)"

definition metric_ok :: "metric \<Rightarrow> bool" where
  "metric_ok m \<longleftrightarrow>
     bounded_identifier (me_name m) \<and> opt_ok bounded_identifier (me_unit m)
     \<and> opt_ok bounded_identifier (me_window m) \<and> opt_ok bounded_identifier (me_aggregation m)
     \<and> opt_ok (\<lambda>n. n \<ge> 0) (me_sample_count m)"

definition coverage_ok :: "coverage \<Rightarrow> bool" where
  "coverage_ok c \<longleftrightarrow> opt_ok (\<lambda>n. n \<ge> 0) (cv_expected_count c) \<and> opt_ok (\<lambda>n. n \<ge> 0) (cv_observed_count c)"

definition semantic_ok :: "semantic \<Rightarrow> bool" where
  "semantic_ok s \<longleftrightarrow>
     bounded_identifier (se_type s) \<and> bounded_text (se_notes s)
     \<and> list_all bounded_identifier (se_flags s) \<and> length (se_flags s) \<le> 64"

definition evidence_error_ok :: "evidence_error \<Rightarrow> bool" where
  "evidence_error_ok e \<longleftrightarrow> bounded_identifier (er_type e) \<and> bounded_text (er_message e)"

definition item_ok :: "item \<Rightarrow> bool" where
  "item_ok i \<longleftrightarrow>
     bounded_identifier (it_id i) \<and> bounded_identifier (it_source i) \<and> bounded_identifier (it_tool i)
     \<and> freshness_ok (it_freshness i) \<and> metric_ok (it_metric i) \<and> coverage_ok (it_coverage i)
     \<and> semantic_ok (it_semantic i) \<and> opt_ok is_digest (it_raw_sha i) \<and> opt_ok evidence_error_ok (it_error i)
     \<and> length (it_labels i) \<le> 64 \<and> distinct (map fst (it_labels i))
     \<and> list_all (\<lambda>(k, v). bounded_identifier k \<and> bounded_text v) (it_labels i)
     \<and> (it_status i = Ev_error \<longrightarrow> it_error i \<noteq> None)
     \<and> (it_raw_ref i = None \<longleftrightarrow> it_raw_sha i = None)
     \<and> aware (it_collected i)
     \<and> opt_ok (\<lambda>t. aware t \<and> micros t \<le> micros (it_collected i)) (it_source_ts i)"

text \<open>The freshness of an item must not understate its age at the end of the collection.\<close>

definition age_not_understated :: "collection \<Rightarrow> item \<Rightarrow> bool" where
  "age_not_understated c i \<longleftrightarrow>
     fr_status (it_freshness i) \<notin> {Fresh, Stale}
     \<or> (case (it_source_ts i, fr_age (it_freshness i)) of
          (Some t, Some age) \<Rightarrow>
            (let expected = total_seconds (co_completed c) t
             in \<not> f_less expected (Fin 0) \<and> \<not> f_less (f_add age (float64 5 100)) expected)
        | _ \<Rightarrow> False)"

definition bundle_ok :: "evidence_bundle \<Rightarrow> bool" where
  "bundle_ok b \<longleftrightarrow>
     bundle_context_ok (bu_context b) \<and> collection_ok (bu_collection b)
     \<and> length (bu_evidence b) \<le> 2048 \<and> list_all item_ok (bu_evidence b)
     \<and> distinct (map it_id (bu_evidence b))
     \<and> list_all (\<lambda>i. micros (it_collected i) \<le> micros (co_completed (bu_collection b))) (bu_evidence b)
     \<and> list_all (age_not_understated (bu_collection b)) (bu_evidence b)"

text \<open>\<open>EvidenceBundle.model_validate\<close> of fields of the declared types.\<close>

definition validate_bundle :: "evidence_bundle \<Rightarrow> exn + evidence_bundle" where
  "validate_bundle b = (if bundle_ok b then Inr b else Inl (value_error ''ValidationError''))"

section \<open>Dumps\<close>

definition jopt :: "('a \<Rightarrow> json) \<Rightarrow> 'a option \<Rightarrow> json" where
  "jopt f x = (case x of None \<Rightarrow> JNull | Some y \<Rightarrow> f y)"

definition jstrs :: "ustr list \<Rightarrow> json" where
  "jstrs xs = JArr (map JStr xs)"

definition jstamp :: "opslib \<Rightarrow> stamp \<Rightarrow> json" where
  "jstamp O' t = JStr (stamp_text O' t)"

definition dump_scope :: "scope \<Rightarrow> json" where
  "dump_scope s = JObj
     [(u ''context'', jopt JStr (sc_context s)), (u ''namespace'', JStr (sc_namespace s)),
      (u ''topic'', JStr (sc_topic s)), (u ''consumer_group'', JStr (sc_group s))]"

definition dump_context :: "bundle_context \<Rightarrow> json" where
  "dump_context c = JObj
     [(u ''source_sha'', jopt JStr (bc_source_sha c)), (u ''source_dirty'', jopt JBool (bc_source_dirty c)),
      (u ''collector_tree_sha256'', jopt JStr (bc_tree_sha c)),
      (u ''desired_image'', jopt JStr (bc_desired_image c)), (u ''pod_image_ids'', jstrs (bc_pod_images c)),
      (u ''argocd_revision'', jopt JStr (bc_argocd_revision c)),
      (u ''collector_version'', JStr (bc_collector_version c)),
      (u ''tool_registry_version'', JStr (bc_registry_version c)),
      (u ''policy_version'', JStr (bc_policy_version c))]"

definition dump_collection :: "opslib \<Rightarrow> collection \<Rightarrow> json" where
  "dump_collection O' c = JObj
     [(u ''started_at'', jstamp O' (co_started c)), (u ''completed_at'', jstamp O' (co_completed c)),
      (u ''status'', JStr (collection_value (co_status c)))]"

definition dump_freshness :: "freshness \<Rightarrow> json" where
  "dump_freshness f = JObj
     [(u ''status'', JStr (freshness_value (fr_status f))), (u ''age_seconds'', jopt JFloat (fr_age f)),
      (u ''max_age_seconds'', jopt JFloat (fr_max_age f)), (u ''basis'', JStr (fr_basis f))]"

definition dump_metric :: "metric \<Rightarrow> json" where
  "dump_metric m = JObj
     [(u ''name'', JStr (me_name m)), (u ''value'', me_value m), (u ''unit'', jopt JStr (me_unit m)),
      (u ''window'', jopt JStr (me_window m)), (u ''aggregation'', jopt JStr (me_aggregation m)),
      (u ''sample_count'', jopt JInt (me_sample_count m))]"

definition dump_coverage :: "coverage \<Rightarrow> json" where
  "dump_coverage c = JObj
     [(u ''expected_count'', jopt JInt (cv_expected_count c)),
      (u ''observed_count'', jopt JInt (cv_observed_count c)), (u ''complete'', jopt JBool (cv_complete c)),
      (u ''expected_items'', jstrs (cv_expected c)), (u ''observed_items'', jstrs (cv_observed c)),
      (u ''missing_items'', jstrs (cv_missing c)), (u ''extra_items'', jstrs (cv_extra c)),
      (u ''notes'', jopt JStr (cv_notes c))]"

definition dump_semantic :: "semantic \<Rightarrow> json" where
  "dump_semantic s = JObj
     [(u ''type'', JStr (se_type s)), (u ''notes'', JStr (se_notes s)),
      (u ''is_db_commit_rate'', jopt JBool (se_commit_rate s)), (u ''flags'', jstrs (se_flags s))]"

definition dump_error :: "evidence_error \<Rightarrow> json" where
  "dump_error e = JObj [(u ''type'', JStr (er_type e)), (u ''message'', JStr (er_message e))]"

definition dump_item :: "opslib \<Rightarrow> item \<Rightarrow> json" where
  "dump_item O' i = JObj
     [(u ''evidence_id'', JStr (it_id i)), (u ''status'', JStr (evidence_value (it_status i))),
      (u ''source'', JStr (it_source i)), (u ''tool_id'', JStr (it_tool i)),
      (u ''source_timestamp'', jopt (jstamp O') (it_source_ts i)),
      (u ''collected_at'', jstamp O' (it_collected i)), (u ''freshness'', dump_freshness (it_freshness i)),
      (u ''metric'', dump_metric (it_metric i)),
      (u ''labels'', JObj (map (\<lambda>(k, v). (k, JStr v)) (it_labels i))),
      (u ''coverage'', dump_coverage (it_coverage i)), (u ''semantic'', dump_semantic (it_semantic i)),
      (u ''raw_ref'', jopt JStr (it_raw_ref i)), (u ''raw_sha256'', jopt JStr (it_raw_sha i)),
      (u ''error'', jopt dump_error (it_error i))]"

definition dump_bundle :: "opslib \<Rightarrow> evidence_bundle \<Rightarrow> json" where
  "dump_bundle O' b = JObj
     [(u ''schema_version'', JStr (u ''ops.evidence.v1'')), (u ''bundle_id'', JStr (bu_id b)),
      (u ''incident_id'', JStr (bu_incident b)), (u ''scenario'', JStr (u ''worker_backlog'')),
      (u ''cluster_profile'', JStr (bu_profile b)), (u ''scope'', dump_scope (bu_scope b)),
      (u ''context'', dump_context (bu_context b)),
      (u ''collection'', dump_collection O' (bu_collection b)),
      (u ''evidence'', JArr (map (dump_item O') (bu_evidence b)))]"

definition bundle_digest :: "opslib \<Rightarrow> evidence_bundle \<Rightarrow> ustr" where
  "bundle_digest O' b = canonical_sha256 (py O') (dump_bundle O' b)"

section \<open>Endpoint identities\<close>

definition rstrip_slash :: "ustr \<Rightarrow> ustr" where
  "rstrip_slash s = rev (dropWhile (\<lambda>c. c = 47) (rev s))"

text \<open>\<open>urlunsplit((scheme, authority, path, '', ''))\<close> for a nonempty authority.\<close>

definition unsplit_url :: "ustr \<Rightarrow> ustr \<Rightarrow> ustr \<Rightarrow> ustr" where
  "unsplit_url scheme authority path =
     scheme @ u ''://'' @ authority @ (if path \<noteq> [] \<and> take 1 path \<noteq> [47] then 47 # path else path)"

definition canonical_base_url :: "opslib \<Rightarrow> ustr \<Rightarrow> exn + ustr" where
  "canonical_base_url O' base_url =
     (case split_url O' base_url of
        None \<Rightarrow> Inl (value_error ''ValueError'')
      | Some p \<Rightarrow>
          guard (lower_of O' (url_scheme p) \<in> {u ''http'', u ''https''} \<and> url_netloc p \<noteq> [])
            (value_error ''endpoint must be an absolute HTTP(S) URL'')
          (guard (url_user p = None \<and> url_password p = None)
            (value_error ''endpoint must not contain credentials'')
          (guard (url_query p = [] \<and> url_fragment p = [])
            (value_error ''endpoint must not contain a query or fragment'')
          (case url_host p of
             None \<Rightarrow> Inl (value_error ''endpoint hostname is missing'')
           | Some hostname \<Rightarrow>
               (case url_port p of
                  None \<Rightarrow> Inl (value_error ''endpoint port is invalid'')
                | Some port \<Rightarrow>
                    (let scheme = lower_of O' (url_scheme p); host = lower_of O' hostname;
                         authority_host = (if 58 \<in> set host then [91] @ host @ [93] else host);
                         default_port = (if scheme = u ''http'' then 80 else 443);
                         authority = (case port of
                             None \<Rightarrow> authority_host
                           | Some n \<Rightarrow> if n = default_port then authority_host
                                      else authority_host @ [58] @ py_str_int n)
                     in Inr (unsplit_url scheme authority (rstrip_slash (url_path p)))))))))"

text \<open>\<open>[A-Za-z0-9.-]+(:[0-9]{1,5})?\<close> on the whole text.\<close>

definition host_char :: "nat \<Rightarrow> bool" where
  "host_char c \<longleftrightarrow> 65 \<le> c \<and> c \<le> 90 \<or> 97 \<le> c \<and> c \<le> 122 \<or> is_digit c \<or> c \<in> {45, 46}"

definition safe_host_header :: "ustr \<Rightarrow> bool" where
  "safe_host_header s =
     (let name = takeWhile host_char s; rest = dropWhile host_char s
      in name \<noteq> [] \<and> (rest = [] \<or> (hd rest = 58 \<and> list_all is_digit (tl rest)
                                      \<and> 1 \<le> length (tl rest) \<and> length (tl rest) \<le> 5)))"

record endpoint_identity =
  ei_base_url :: ustr
  ei_host_header :: "ustr option"
  ei_configuration :: ustr
  ei_sha256 :: ustr

definition endpoint_identity_version :: ustr where
  "endpoint_identity_version = u ''ops.endpoint.v1''"

definition endpoint_provenance :: "opslib \<Rightarrow> ustr \<Rightarrow> ustr option \<Rightarrow> ustr \<Rightarrow> exn + endpoint_identity" where
  "endpoint_provenance O' base_url host_header configuration_source =
     guard (configuration_source \<in> {u ''policy'', u ''operator_override''})
       (value_error ''unsupported endpoint configuration source'')
     (rbind (canonical_base_url O' base_url) (\<lambda>canonical_url.
      let canonical_host_header = map_option (lower_of O') host_header;
          identity_payload = JObj [(u ''base_url'', JStr canonical_url),
                                   (u ''host_header'', jopt JStr canonical_host_header)]
      in guard (opt_ok safe_host_header canonical_host_header)
           (value_error ''endpoint Host header is invalid'')
           (Inr \<lparr>ei_base_url = canonical_url, ei_host_header = canonical_host_header,
                 ei_configuration = configuration_source,
                 ei_sha256 = canonical_sha256 (py O') identity_payload\<rparr>)))"

datatype safe_provenance = Provenance_ok endpoint_identity | Provenance_error ustr

definition safe_endpoint_provenance :: "opslib \<Rightarrow> ustr \<Rightarrow> ustr option \<Rightarrow> ustr \<Rightarrow> safe_provenance" where
  "safe_endpoint_provenance O' base_url host_header configuration_source =
     (case endpoint_provenance O' base_url host_header configuration_source of
        Inr p \<Rightarrow> Provenance_ok p
      | Inl e \<Rightarrow> Provenance_error (exn_name e))"

text \<open>
  The recorded identity of an endpoint never rests on a URL with credentials, a query or a
  fragment: such a URL is refused, and the artifact keeps only the name of the error.
\<close>

theorem credentials_are_refused:
  "split_url O' base_url = Some p
     \<and> (url_user p \<noteq> None \<or> url_password p \<noteq> None \<or> url_query p \<noteq> [] \<or> url_fragment p \<noteq> [])
   \<Longrightarrow> safe_endpoint_provenance O' base_url host_header configuration_source
         = Provenance_error (u ''ValueError'')"
  by (auto simp: safe_endpoint_provenance_def endpoint_provenance_def canonical_base_url_def guard_def
      value_error_def)

section \<open>Selection of evidence\<close>

definition items_of :: "evidence_bundle \<Rightarrow> string \<Rightarrow> item list" where
  "items_of b name = filter (\<lambda>i. item_name i = u name) (bu_evidence b)"

text \<open>\<open>_evidence_index\<close>: the items of each metric, ordered by their ids.\<close>

definition evidence_index :: "evidence_bundle \<Rightarrow> ustr \<Rightarrow> item list" where
  "evidence_index b name = sort_key it_id (filter (\<lambda>i. item_name i = name) (bu_evidence b))"

lemma set_evidence_index [simp]: "set (evidence_index b name) = {i \<in> set (bu_evidence b). item_name i = name}"
  by (simp add: evidence_index_def)

section \<open>A concrete library\<close>

definition sample_url :: url where
  "sample_url = \<lparr>url_scheme = u ''http'', url_netloc = u ''ann:pw@host'', url_user = Some (u ''ann''),
     url_password = Some (u ''pw''), url_host = Some (u ''host''), url_port = Some None, url_path = [],
     url_query = [], url_fragment = []\<rparr>"

definition sample_opslib :: opslib where
  "sample_opslib = \<lparr>py = sample_lib, repr_of = (\<lambda>_. u ''?''), lower_of = map lower_char,
     upper_of = map (\<lambda>c. if 97 \<le> c \<and> c \<le> 122 then c - 32 else c), split_url = (\<lambda>_. Some sample_url),
     stamp_text = isoformat\<rparr>"

theorem credentials_are_refused_witness:
  "safe_endpoint_provenance sample_opslib (u ''http://ann:pw@host'') None (u ''policy'')
     = Provenance_error (u ''ValueError'')"
  by (rule credentials_are_refused [of _ _ sample_url]) (simp add: sample_opslib_def sample_url_def)

end
