(* ===== verification/Evidence_Checks.thy ===== *)
theory Evidence_Checks
  imports Evidence
begin

text \<open>
  The evidence dependencies of the conditions and the checks of \<open>src/ops_agent/evaluator.py\<close>:
  selectors of each dependency, the issues an item raises, the 60 s range samples of a
  partition and the family of partitions of one metric. The observed dependency is mutable in
  the source; here every check returns the issues it adds, in order.
\<close>

section \<open>Dependencies\<close>

datatype requirement = Required | Optional

fun requirement_value :: "requirement \<Rightarrow> ustr" where
  "requirement_value Required = u ''REQUIRED''"
| "requirement_value Optional = u ''OPTIONAL''"

record dependency_spec =
  ds_name :: ustr
  ds_metrics :: "ustr list"
  ds_requirement :: requirement
  ds_partitioned :: bool
  ds_source :: "ustr option"
  ds_tool :: "ustr option"
  ds_semantic :: "ustr option"
  ds_unit :: "ustr option"
  ds_window :: "ustr option"
  ds_aggregation :: "ustr option"
  ds_basis :: "ustr option"
  ds_max_age :: "pyfloat option"
  ds_labels :: "(ustr \<times> ustr) list"

definition optional_spec :: "string \<Rightarrow> string list \<Rightarrow> dependency_spec" where
  "optional_spec name metrics = \<lparr>ds_name = u name, ds_metrics = map u metrics, ds_requirement = Optional,
     ds_partitioned = False, ds_source = None, ds_tool = None, ds_semantic = None, ds_unit = None,
     ds_window = None, ds_aggregation = None, ds_basis = None, ds_max_age = None, ds_labels = []\<rparr>"

definition kafka_spec :: "string \<Rightarrow> string \<Rightarrow> string \<Rightarrow> string \<Rightarrow> dependency_spec" where
  "kafka_spec name metric tool semantic = \<lparr>ds_name = u name, ds_metrics = [u metric], ds_requirement = Required,
     ds_partitioned = True, ds_source = Some (u ''prometheus''), ds_tool = Some (u tool),
     ds_semantic = Some (u semantic), ds_unit = Some (u ''records''), ds_window = Some (u ''60s''),
     ds_aggregation = Some (u ''raw_range_samples''), ds_basis = Some (u ''prometheus_timestamp_function''),
     ds_max_age = Some (Fin 15), ds_labels = [(u ''job'', u ''kafka-exporter'')]\<rparr>"

definition END_OFFSET :: dependency_spec where
  "END_OFFSET = kafka_spec ''topic_end_offsets'' ''kafka_topic_partition_current_offset''
     ''prometheus.kafka_topic_partition_current_offset.range.v1'' ''kafka_partition_end_offset_gauge''"

definition COMMITTED_OFFSET :: dependency_spec where
  "COMMITTED_OFFSET = kafka_spec ''consumer_committed_offsets'' ''kafka_consumergroup_current_offset''
     ''prometheus.kafka_consumergroup_current_offset.range.v1'' ''kafka_consumer_committed_offset_gauge''"

definition PARTITION_LAG :: dependency_spec where
  "PARTITION_LAG = kafka_spec ''consumer_partition_lag'' ''kafka_consumergroup_lag''
     ''prometheus.kafka_consumergroup_lag.range.v1'' ''kafka_consumer_partition_lag_gauge''"

definition application_spec :: "string \<Rightarrow> string \<Rightarrow> string \<Rightarrow> dependency_spec" where
  "application_spec name metric semantic = \<lparr>ds_name = u name, ds_metrics = [u metric],
     ds_requirement = Required, ds_partitioned = False, ds_source = Some (u ''application''),
     ds_tool = Some (u ''application.readiness.get.v1''), ds_semantic = Some (u semantic), ds_unit = None,
     ds_window = None, ds_aggregation = None, ds_basis = Some (u ''collector_time_http_response''),
     ds_max_age = Some (Fin 10), ds_labels = [(u ''endpoint'', u ''/health/ready'')]\<rparr>"

definition APPLICATION_READINESS :: dependency_spec where
  "APPLICATION_READINESS = application_spec ''application_readiness'' ''application_readiness_observation''
     ''application_readiness''"

definition POSTGRES_RUNTIME :: dependency_spec where
  "POSTGRES_RUNTIME = application_spec ''postgres_runtime_readiness''
     ''application_postgres_runtime_observation'' ''application_postgres_runtime_observation''"

definition WORKER_DEPLOYMENT :: dependency_spec where
  "WORKER_DEPLOYMENT = \<lparr>ds_name = u ''worker_deployment'',
     ds_metrics = [u ''kubernetes_worker_deployment_observation''], ds_requirement = Required,
     ds_partitioned = False, ds_source = Some (u ''kubernetes''),
     ds_tool = Some (u ''k8s.worker_deployment.get.v1''),
     ds_semantic = Some (u ''worker_deployment_raw_observation''), ds_unit = None, ds_window = None,
     ds_aggregation = None, ds_basis = Some (u ''collector_time_kubernetes_api_observation''),
     ds_max_age = Some (Fin 30),
     ds_labels = [(u ''deployment'', u ''worker''), (u ''namespace'', u ''messaging-app'')]\<rparr>"

datatype condition_name = Core_backlog | Lag_concentration | Db_degraded | Worker_unavailable

fun required_specs :: "condition_name \<Rightarrow> dependency_spec list" where
  "required_specs Core_backlog = [END_OFFSET, COMMITTED_OFFSET, PARTITION_LAG]"
| "required_specs Lag_concentration = [PARTITION_LAG]"
| "required_specs Db_degraded = [APPLICATION_READINESS, POSTGRES_RUNTIME]"
| "required_specs Worker_unavailable = [WORKER_DEPLOYMENT]"

definition persist_stage_spec :: dependency_spec where
  "persist_stage_spec = optional_spec ''worker_db_persist_stage_samples''
     [''messaging_worker_stage_latency_seconds_count'', ''messaging_worker_stage_latency_seconds'']"

definition terminal_processing_spec :: dependency_spec where
  "terminal_processing_spec = optional_spec ''worker_terminal_processing'' [''messaging_worker_processed_total'']"

fun optional_specs :: "condition_name \<Rightarrow> dependency_spec list" where
  "optional_specs Core_backlog =
     [terminal_processing_spec,
      optional_spec ''queue_wait_samples''
        [''messaging_queue_wait_seconds_count'', ''messaging_queue_wait_seconds''],
      persist_stage_spec,
      optional_spec ''worker_deployment'' [''kubernetes_worker_deployment_observation'']]"
| "optional_specs Lag_concentration =
     [optional_spec ''partition_end_offset_slope'' [''kafka_topic_partition_current_offset''],
      terminal_processing_spec]"
| "optional_specs Db_degraded =
     [optional_spec ''event_persist_lag_samples''
        [''messaging_event_persist_lag_seconds_count'', ''messaging_event_persist_lag_seconds''],
      persist_stage_spec]"
| "optional_specs Worker_unavailable =
     [optional_spec ''application_worker_summary'' [''application_ops_summary_observation''],
      optional_spec ''worker_pods'' [''kubernetes_worker_pod_observations''],
      optional_spec ''worker_scaled_object'' [''kubernetes_worker_scaled_object_observation'']]"

definition blocking_semantic_flags :: "ustr list" where
  "blocking_semantic_flags = map u
     [''counter_reset_or_decrease'', ''negative_value_preserved_not_zero'', ''non_finite_or_non_numeric_value'',
      ''offset_decrease'', ''partial_partition_coverage'', ''partition_set_mismatch'',
      ''source_timestamp_coverage_mismatch'', ''source_timestamp_missing'', ''source_timestamp_query_error'']"

section \<open>Observed dependencies\<close>

record issue =
  is_code :: ustr
  is_id :: "ustr option"
  is_detail :: "ustr option"

record observed =
  ob_spec :: dependency_spec
  ob_items :: "item list"
  ob_issues :: "issue list"

definition issue :: "string \<Rightarrow> ustr option \<Rightarrow> ustr option \<Rightarrow> issue" where
  "issue code eid detail = \<lparr>is_code = u code, is_id = eid, is_detail = detail\<rparr>"

definition prefixed :: "dependency_spec \<Rightarrow> string \<Rightarrow> ustr option \<Rightarrow> ustr option \<Rightarrow> issue" where
  "prefixed spec code eid detail =
     \<lparr>is_code = requirement_value (ds_requirement spec) @ u code, is_id = eid, is_detail = detail\<rparr>"

definition add_issue :: "observed \<Rightarrow> issue \<Rightarrow> observed" where
  "add_issue ob i = (if i \<in> set (ob_issues ob) then ob else ob\<lparr>ob_issues := ob_issues ob @ [i]\<rparr>)"

definition add_issues :: "observed \<Rightarrow> issue list \<Rightarrow> observed" where
  "add_issues ob is = foldl add_issue ob is"

definition blocking :: "observed \<Rightarrow> bool" where
  "blocking ob \<longleftrightarrow> ds_requirement (ob_spec ob) = Required \<and> ob_issues ob \<noteq> []"

lemma add_issues_simps [simp]:
  "add_issues ob [] = ob" "add_issues ob (i # is) = add_issues (add_issue ob i) is"
  by (simp_all add: add_issues_def)

lemma add_issue_fields [simp]:
  "ob_spec (add_issue ob i) = ob_spec ob" "ob_items (add_issue ob i) = ob_items ob"
  "set (ob_issues (add_issue ob i)) = insert i (set (ob_issues ob))"
  by (auto simp: add_issue_def)

lemma add_issues_fields [simp]:
  "ob_spec (add_issues ob is) = ob_spec ob" "ob_items (add_issues ob is) = ob_items ob"
  "set (ob_issues (add_issues ob is)) = set (ob_issues ob) \<union> set is"
  by (induction "is" arbitrary: ob) simp_all

lemma add_issues_Nil_iff: "ob_issues (add_issues ob is) = [] \<longleftrightarrow> ob_issues ob = [] \<and> is = []"
  by (metis add_issues_fields(3) set_empty Un_empty)

lemma blocking_add_issues [simp]:
  "blocking (add_issues ob is) \<longleftrightarrow> ds_requirement (ob_spec ob) = Required \<and> (ob_issues ob \<noteq> [] \<or> is \<noteq> [])"
  by (simp add: blocking_def add_issues_Nil_iff)

text \<open>\<open>repr(v)\<close> in the details of issues.\<close>

definition py_repr :: "opslib \<Rightarrow> json \<Rightarrow> ustr" where
  "py_repr O' v = (case v of JStr _ \<Rightarrow> repr_of O' v | _ \<Rightarrow> py_str O' v)"

definition expected_actual :: "ustr \<Rightarrow> ustr \<Rightarrow> ustr option" where
  "expected_actual e a = Some (u ''expected='' @ e @ u '';actual='' @ a)"

definition emit :: "bool \<Rightarrow> 'a \<Rightarrow> 'a list" where
  "emit b x = (if b then [x] else [])"

lemma emit_bool [simp]: "emit True x = [x]" "emit False x = []"
  by (simp_all add: emit_def)

lemma emit_Nil_iff [simp]: "emit b x = [] \<longleftrightarrow> \<not> b"
  by (simp add: emit_def)

lemma set_emit [simp]: "set (emit b x) = (if b then {x} else {})"
  by (cases b) simp_all

text \<open>The issues one item raises, in the order of the checks.\<close>

definition selector_issues :: "opslib \<Rightarrow> dependency_spec \<Rightarrow> item \<Rightarrow> issue list" where
  "selector_issues O' spec i =
     concat (map (\<lambda>(name, actual, expected).
       case expected of
         None \<Rightarrow> []
       | Some e \<Rightarrow> emit (actual \<noteq> Some e)
           (prefixed spec (''_'' @ name @ ''_SELECTOR_MISMATCH'') (Some (it_id i))
              (expected_actual (py_repr O' (JStr e)) (py_repr O' (jopt JStr actual)))))
       [(''SOURCE'', Some (it_source i), ds_source spec), (''TOOL'', Some (it_tool i), ds_tool spec),
        (''SEMANTIC'', Some (se_type (it_semantic i)), ds_semantic spec),
        (''UNIT'', me_unit (it_metric i), ds_unit spec), (''WINDOW'', me_window (it_metric i), ds_window spec),
        (''AGGREGATION'', me_aggregation (it_metric i), ds_aggregation spec)])"

definition label_issues :: "opslib \<Rightarrow> dependency_spec \<Rightarrow> item \<Rightarrow> issue list" where
  "label_issues O' spec i =
     concat (map (\<lambda>(name, expected).
       let actual = map_of (it_labels i) name
       in emit (actual \<noteq> Some expected)
            (prefixed spec ''_LABEL_SELECTOR_MISMATCH'' (Some (it_id i))
              (Some (u ''label='' @ name @ u '';expected='' @ py_repr O' (JStr expected)
                     @ u '';actual='' @ py_repr O' (jopt JStr actual)))))
       (ds_labels spec))"

definition freshness_issues :: "opslib \<Rightarrow> dependency_spec \<Rightarrow> item \<Rightarrow> issue list" where
  "freshness_issues O' spec i =
     (let f = it_freshness i; eid = Some (it_id i)
      in (case fr_status f of
            Fresh \<Rightarrow> []
          | Stale \<Rightarrow> [prefixed spec ''_EVIDENCE_STALE'' eid None]
          | _ \<Rightarrow> [\<lparr>is_code = requirement_value (ds_requirement spec) @ u ''_EVIDENCE_FRESHNESS_''
                               @ freshness_value (fr_status f), is_id = eid, is_detail = None\<rparr>])
         @ (case ds_basis spec of
              None \<Rightarrow> []
            | Some b \<Rightarrow> emit (fr_basis f \<noteq> b) (prefixed spec ''_FRESHNESS_BASIS_MISMATCH'' eid
                (expected_actual (py_repr O' (JStr b)) (py_repr O' (JStr (fr_basis f))))))
         @ (case ds_max_age spec of
              None \<Rightarrow> []
            | Some m \<Rightarrow> emit (\<not> (case fr_max_age f of None \<Rightarrow> False | Some a \<Rightarrow> f_eq a m))
                (prefixed spec ''_FRESHNESS_BOUND_MISMATCH'' eid
                  (expected_actual (py_str O' (JFloat m)) (py_repr O' (jopt JFloat (fr_max_age f)))))))"

definition item_issues :: "opslib \<Rightarrow> dependency_spec \<Rightarrow> item \<Rightarrow> issue list" where
  "item_issues O' spec i =
     (let eid = Some (it_id i); flags = filter (\<lambda>f. f \<in> set blocking_semantic_flags) (se_flags (it_semantic i))
      in (if it_status i \<noteq> Ev_ok
          then [\<lparr>is_code = requirement_value (ds_requirement spec) @ u ''_EVIDENCE_STATUS_''
                             @ evidence_value (it_status i), is_id = eid, is_detail = None\<rparr>] else [])
         @ freshness_issues O' spec i
         @ emit (it_source_ts i = None) (prefixed spec ''_SOURCE_TIMESTAMP_MISSING'' eid None)
         @ emit (ds_requirement spec = Required \<and> (it_raw_ref i = None \<or> it_raw_sha i = None))
             (issue ''REQUIRED_RAW_REFERENCE_MISSING'' eid None)
         @ selector_issues O' spec i
         @ label_issues O' spec i
         @ emit (ds_partitioned spec \<and> cv_complete (it_coverage i) \<noteq> Some True)
             (prefixed spec ''_PARTITION_COVERAGE_INCOMPLETE'' eid None)
         @ emit (flags \<noteq> []) (prefixed spec ''_SEMANTIC_ANOMALY'' eid (Some (join [44] (sorted_set flags)))))"

definition unbound_selector :: "dependency_spec \<Rightarrow> bool" where
  "unbound_selector s \<longleftrightarrow>
     ds_source s = None \<and> ds_tool s = None \<and> ds_semantic s = None \<and> ds_unit s = None
     \<and> ds_window s = None \<and> ds_aggregation s = None \<and> ds_labels s = []"

definition dependency_items :: "(ustr \<Rightarrow> item list) \<Rightarrow> dependency_spec \<Rightarrow> item list" where
  "dependency_items index spec =
     sort_key it_id (map snd (foldl (\<lambda>d i. AList.update (it_id i) i d) [] (concat (map index (ds_metrics spec)))))"

definition observe_dependency :: "opslib \<Rightarrow> dependency_spec \<Rightarrow> (ustr \<Rightarrow> item list) \<Rightarrow> observed" where
  "observe_dependency O' spec index =
     (let items = dependency_items index spec; ob = \<lparr>ob_spec = spec, ob_items = items, ob_issues = []\<rparr>
      in if items = [] then add_issues ob [prefixed spec ''_EVIDENCE_MISSING'' None None]
         else add_issues ob
           (emit (ds_requirement spec = Optional \<and> unbound_selector spec)
              (issue ''OPTIONAL_SELECTOR_UNBOUND'' None None)
            @ concat (map (item_issues O' spec) items)))"

definition condition_observations ::
  "opslib \<Rightarrow> condition_name \<Rightarrow> (ustr \<Rightarrow> item list) \<Rightarrow> observed list \<times> observed list" where
  "condition_observations O' c index =
     (map (\<lambda>s. observe_dependency O' s index) (required_specs c),
      map (\<lambda>s. observe_dependency O' s index) (optional_specs c))"

lemma observe_dependency_fields [simp]:
  "ob_spec (observe_dependency O' spec index) = spec"
  "ob_items (observe_dependency O' spec index) = dependency_items index spec"
  by (simp_all add: observe_dependency_def Let_def)

section \<open>Range samples of a partition\<close>

text \<open>
  The fields of \<open>EvaluationPolicy\<close> the checks read; every field of the source is a literal, so
  the only valid policy is \<open>local_ha_policy\<close>.
\<close>

record evaluation_policy =
  ep_profile :: ustr
  ep_source_policy :: ustr
  ep_version :: ustr
  ep_context :: ustr
  ep_namespace :: ustr
  ep_topic :: ustr
  ep_group :: ustr
  ep_partition_count :: nat
  ep_window_seconds :: int
  ep_step_seconds :: int
  ep_sample_count :: nat
  ep_skew_seconds :: int
  ep_source_to_end_seconds :: int
  ep_age_tolerance :: pyfloat
  ep_worker :: ustr
  ep_grace_seconds :: int
  ep_min_ready :: int
  ep_min_sync :: int
  ep_max_delay :: int

definition local_ha_policy :: evaluation_policy where
  "local_ha_policy = \<lparr>ep_profile = u ''local-ha'', ep_source_policy = u ''local-ha.evidence.v1'',
     ep_version = u ''local-ha.conditions.v1'', ep_context = u ''kind-messaging-ha'',
     ep_namespace = u ''messaging-app'', ep_topic = u ''message-ingress'', ep_group = u ''message-worker'',
     ep_partition_count = 8, ep_window_seconds = 60, ep_step_seconds = 5, ep_sample_count = 13,
     ep_skew_seconds = 1, ep_source_to_end_seconds = 5, ep_age_tolerance = float64 1 100,
     ep_worker = u ''worker'', ep_grace_seconds = 120, ep_min_ready = 2, ep_min_sync = 1,
     ep_max_delay = 1048576\<rparr>"

record series =
  sr_item :: item
  sr_times :: "dec list"
  sr_values :: "dec list"

definition sample_detail :: "nat \<Rightarrow> ustr option" where
  "sample_detail k = Some (u ''sample_index='' @ dec_nat k)"

definition sample_value_detail :: "nat \<Rightarrow> dec \<Rightarrow> ustr option" where
  "sample_value_detail k v = Some (u ''sample_index='' @ dec_nat k @ u '';value='' @ dec_str v)"

text \<open>One sample: its issues and, unless the series is given up, its time and value.\<close>

definition parse_sample ::
  "opslib \<Rightarrow> ustr \<Rightarrow> bool \<Rightarrow> nat \<Rightarrow> json \<Rightarrow> issue list \<times> (dec \<times> dec) option" where
  "parse_sample O' eid committed k sample =
     (case sample of
        JObj d \<Rightarrow>
          if \<not> has_key d ''timestamp'' \<or> \<not> has_key d ''value''
          then ([issue ''REQUIRED_SAMPLE_INVALID'' (Some eid) (sample_detail k)], None)
          else (case (to_decimal O' (get_none d ''timestamp''), to_decimal O' (get_none d ''value'')) of
                  (Some t, Some v) \<Rightarrow>
                    if \<not> dec_finite t \<or> \<not> dec_finite v
                    then ([issue ''REQUIRED_SAMPLE_NON_FINITE'' (Some eid) (sample_detail k)], None)
                    else (emit (\<not> dec_integral v)
                            (issue ''REQUIRED_RECORD_VALUE_NON_INTEGRAL'' (Some eid) (sample_value_detail k v))
                          @ (if committed \<and> dec_eq v (dec_of_int (-1))
                             then [issue ''COMMITTED_OFFSET_UNINITIALIZED'' (Some eid) (sample_detail k)]
                             else emit (dec_less v dec_zero)
                               (issue ''REQUIRED_NEGATIVE_VALUE'' (Some eid) (sample_value_detail k v))),
                          Some (t, v))
                | _ \<Rightarrow> ([issue ''REQUIRED_SAMPLE_NON_NUMERIC'' (Some eid) (sample_detail k)], None))
      | _ \<Rightarrow> ([issue ''REQUIRED_SAMPLE_INVALID'' (Some eid) (sample_detail k)], None))"

fun parse_samples ::
  "opslib \<Rightarrow> ustr \<Rightarrow> bool \<Rightarrow> nat \<Rightarrow> json list \<Rightarrow> issue list \<times> (dec \<times> dec) list option" where
  "parse_samples O' eid committed k [] = ([], Some [])"
| "parse_samples O' eid committed k (s # ss) =
     (case parse_sample O' eid committed k s of
        (is, None) \<Rightarrow> (is, None)
      | (is, Some tv) \<Rightarrow>
          (case parse_samples O' eid committed (Suc k) ss of
             (is', r) \<Rightarrow> (is @ is', map_option ((#) tv) r)))"

text \<open>\<open>any(p(previous, current) for previous, current in zip(xs, xs[1:]))\<close>.\<close>

definition any_pair :: "('a \<Rightarrow> 'a \<Rightarrow> bool) \<Rightarrow> 'a list \<Rightarrow> bool" where
  "any_pair p xs \<longleftrightarrow> list_ex (\<lambda>(a, b). p a b) (zip xs (tl xs))"

lemma any_pair_simps [simp]:
  "\<not> any_pair p []" "\<not> any_pair p [x]" "any_pair p (x # y # xs) \<longleftrightarrow> p x y \<or> any_pair p (y # xs)"
  by (simp_all add: any_pair_def)

definition epoch_decimal :: "opslib \<Rightarrow> stamp \<Rightarrow> dec" where
  "epoch_decimal O' t = (case to_decimal O' (JFloat (timestamp t)) of Some x \<Rightarrow> x | None \<Rightarrow> DecNaN)"

text \<open>The checks of a parsed series against its grid, its collection and its source time.\<close>

definition series_issues ::
  "opslib \<Rightarrow> evaluation_policy \<Rightarrow> evidence_bundle \<Rightarrow> item \<Rightarrow> bool \<Rightarrow> dec list \<Rightarrow> dec list \<Rightarrow> issue list" where
  "series_issues O' p b i monotonic ts vs =
     (let eid = Some (it_id i); c = bu_collection b;
          range_end_delta = dec_abs (dec_sub (last ts) (epoch_decimal O' (it_collected i)))
      in emit (any_pair (\<lambda>prev cur. \<not> dec_eq (dec_sub cur prev) (dec_of_int (ep_step_seconds p))) ts)
           (issue ''REQUIRED_SAMPLE_GRID_INVALID'' eid None)
         @ emit (\<not> dec_eq (dec_sub (last ts) (hd ts)) (dec_of_int (ep_window_seconds p)))
             (issue ''REQUIRED_SAMPLE_WINDOW_INVALID'' eid None)
         @ emit (dec_less (dec_of_int (ep_skew_seconds p)) range_end_delta)
             (issue ''REQUIRED_RANGE_END_COLLECTION_TIME_MISMATCH'' eid
                (Some (u ''delta_seconds='' @ dec_str range_end_delta)))
         @ (case it_source_ts i of
              None \<Rightarrow> []
            | Some t \<Rightarrow>
                (let source_to_end = dec_sub (last ts) (epoch_decimal O' t);
                     expected_age = total_seconds (co_completed c) t;
                     actual_age = fr_age (it_freshness i)
                 in emit (dec_less source_to_end dec_zero
                          \<or> dec_less (dec_of_int (ep_source_to_end_seconds p)) source_to_end)
                      (issue ''REQUIRED_RANGE_END_SOURCE_TIME_MISMATCH'' eid
                         (Some (u ''delta_seconds='' @ dec_str source_to_end)))
                    @ emit (case actual_age of
                             None \<Rightarrow> True
                           | Some a \<Rightarrow> f_less (ep_age_tolerance p) (f_abs (f_sub a expected_age)))
                        (issue ''REQUIRED_FRESHNESS_AGE_MISMATCH'' eid
                           (expected_actual (py_str O' (JFloat expected_age))
                              (py_repr O' (jopt JFloat actual_age))))))
         @ emit (micros (it_collected i) < micros (co_started c) \<or> micros (it_collected i) > micros (co_completed c))
             (issue ''REQUIRED_COLLECTION_INTERVAL_MISMATCH'' eid None)
         @ emit (monotonic \<and> any_pair (\<lambda>prev cur. dec_less cur prev) vs)
             (issue ''REQUIRED_OFFSET_DECREASE_OBSERVED'' eid None))"

definition count_text :: "json \<Rightarrow> ustr" where
  "count_text v = (case v of JArr xs \<Rightarrow> dec_nat (length xs) | _ \<Rightarrow> u ''invalid'')"

definition parse_partition_series ::
  "opslib \<Rightarrow> evaluation_policy \<Rightarrow> evidence_bundle \<Rightarrow> item \<Rightarrow> bool \<Rightarrow> bool \<Rightarrow> issue list \<times> series option" where
  "parse_partition_series O' p b i committed monotonic =
     (let eid = it_id i; n = ep_sample_count p; declared = me_sample_count (it_metric i);
          bad_count = issue ''REQUIRED_SAMPLE_COUNT_MISMATCH'' (Some eid)
            (Some (u ''expected='' @ dec_nat n @ u '';value_count='' @ count_text (me_value (it_metric i))
                   @ u '';declared='' @ py_str O' (jopt JInt declared)))
      in case me_value (it_metric i) of
           JArr samples \<Rightarrow>
             if length samples \<noteq> n \<or> declared \<noteq> Some (int n) then ([bad_count], None)
             else (case parse_samples O' eid committed 0 samples of
                     (is, None) \<Rightarrow> (is, None)
                   | (is, Some tvs) \<Rightarrow>
                       (is @ series_issues O' p b i monotonic (map fst tvs) (map snd tvs),
                        Some \<lparr>sr_item = i, sr_times = map fst tvs, sr_values = map snd tvs\<rparr>))
         | _ \<Rightarrow> ([bad_count], None))"

section \<open>The partitions of one metric\<close>

definition partition_names :: "nat \<Rightarrow> ustr list" where
  "partition_names n = map dec_nat [0..<n]"

text \<open>\<open>item.labels.get('consumergroup') or item.labels.get('consumer_group')\<close>.\<close>

definition observed_group :: "item \<Rightarrow> ustr option" where
  "observed_group i =
     (case label i ''consumergroup'' of
        Some g \<Rightarrow> if g = [] then label i ''consumer_group'' else Some g
      | None \<Rightarrow> label i ''consumer_group'')"

definition coverage_mismatch :: "evaluation_policy \<Rightarrow> coverage \<Rightarrow> bool" where
  "coverage_mismatch p c \<longleftrightarrow>
     (let n = ep_partition_count p; names = set (partition_names n)
      in cv_expected_count c \<noteq> Some (int n) \<or> cv_observed_count c \<noteq> Some (int n)
         \<or> set (cv_expected c) \<noteq> names \<or> set (cv_observed c) \<noteq> names \<or> cv_missing c \<noteq> [] \<or> cv_extra c \<noteq> [])"

text \<open>The issues of one usable item that has a partition label.\<close>

definition partition_item_issues ::
  "opslib \<Rightarrow> evaluation_policy \<Rightarrow> evidence_bundle \<Rightarrow> bool \<Rightarrow> bool \<Rightarrow> bool \<Rightarrow> item \<Rightarrow> ustr \<Rightarrow> issue list" where
  "partition_item_issues O' p b grouped committed monotonic i part =
     (let eid = Some (it_id i)
      in emit (label i ''__name__'' \<noteq> Some (item_name i)) (issue ''REQUIRED_METRIC_LABEL_MISMATCH'' eid None)
         @ emit (label i ''topic'' \<noteq> Some (sc_topic (bu_scope b)))
             (issue ''REQUIRED_TOPIC_SCOPE_MISMATCH'' eid (Some part))
         @ emit (grouped \<and> observed_group i \<noteq> Some (sc_group (bu_scope b)))
             (issue ''REQUIRED_CONSUMER_GROUP_SCOPE_MISMATCH'' eid (Some part))
         @ emit (cv_expected (it_coverage i) = []) (issue ''REQUIRED_PARTITION_EXPECTATION_MISSING'' eid None)
         @ emit (coverage_mismatch p (it_coverage i))
             (issue ''REQUIRED_PARTITION_COVERAGE_CONTRACT_MISMATCH'' eid None)
         @ fst (parse_partition_series O' p b i committed monotonic))"

definition ok_items :: "observed \<Rightarrow> item list" where
  "ok_items ob = filter (\<lambda>i. it_status i = Ev_ok) (ob_items ob)"

definition labelled_items :: "observed \<Rightarrow> (item \<times> ustr) list" where
  "labelled_items ob =
     concat (map (\<lambda>i. case label i ''partition'' of None \<Rightarrow> [] | Some q \<Rightarrow> [(i, q)]) (ok_items ob))"

text \<open>The first parsed series of each partition.\<close>

definition collect_series ::
  "opslib \<Rightarrow> evaluation_policy \<Rightarrow> evidence_bundle \<Rightarrow> bool \<Rightarrow> bool \<Rightarrow> (item \<times> ustr) list \<Rightarrow> (ustr \<times> series) list" where
  "collect_series O' p b committed monotonic iqs =
     foldl (\<lambda>d (i, q). case snd (parse_partition_series O' p b i committed monotonic) of
                          None \<Rightarrow> d
                        | Some s \<Rightarrow> if q \<in> set (map fst d) then d else d @ [(q, s)]) [] iqs"

definition several :: "'a list \<Rightarrow> bool" where
  "several xs \<longleftrightarrow> length (remdups xs) \<noteq> 1"

definition family_issues :: "(item \<times> ustr) list \<Rightarrow> (ustr \<times> series) list \<Rightarrow> issue list" where
  "family_issues iqs d =
     (let is = map fst iqs; partitions = map snd iqs;
          duplicates = sorted_set (filter (\<lambda>q. count_list partitions q > 1) partitions);
          raws = map (\<lambda>i. (it_raw_ref i, it_raw_sha i)) is;
          expected_sets = remdups (filter (\<lambda>e. e \<noteq> []) (map (\<lambda>i. sort (cv_expected (it_coverage i))) is))
      in emit (duplicates \<noteq> []) (issue ''REQUIRED_DUPLICATE_PARTITION_SERIES'' None (Some (join [44] duplicates)))
         @ emit (several (map (\<lambda>i. (label i ''job'', label i ''instance'')) is))
             (issue ''REQUIRED_EXPORTER_IDENTITY_MIXED'' None None)
         @ emit (several (concat (map (\<lambda>i. case it_source_ts i of None \<Rightarrow> [] | Some t \<Rightarrow> [isoformat t]) is)))
             (issue ''REQUIRED_SOURCE_TIMESTAMP_MIXED'' None None)
         @ emit (several (map (\<lambda>i. isoformat (it_collected i)) is))
             (issue ''REQUIRED_COLLECTION_TIMESTAMP_MIXED'' None None)
         @ emit (several raws \<or> fst (hd (remdups raws)) = None) (issue ''REQUIRED_RAW_SOURCE_MIXED'' None None)
         @ emit (length expected_sets > 1) (issue ''REQUIRED_PARTITION_EXPECTATION_INCONSISTENT'' None None)
         @ (case expected_sets of
              [e] \<Rightarrow> emit (set e \<noteq> set partitions)
                (issue ''REQUIRED_PARTITION_COVERAGE_MISMATCH'' None
                  (Some (u ''missing='' @ join [44] (sorted_set (filter (\<lambda>q. q \<notin> set partitions) e))
                         @ u '';extra='' @ join [44] (sorted_set (filter (\<lambda>q. q \<notin> set e) partitions)))))
            | _ \<Rightarrow> [])
         @ emit (several (map (\<lambda>s. map dval (sr_times s)) (map snd d))) (issue ''REQUIRED_SAMPLE_GRID_MISMATCH'' None None))"

definition partition_values ::
  "opslib \<Rightarrow> evaluation_policy \<Rightarrow> evidence_bundle \<Rightarrow> observed \<Rightarrow> bool \<Rightarrow> bool \<Rightarrow> bool
     \<Rightarrow> issue list \<times> (ustr \<times> series) list" where
  "partition_values O' p b ob grouped committed monotonic =
     (let iqs = labelled_items ob; d = collect_series O' p b committed monotonic iqs
      in (concat (map (\<lambda>i. case label i ''partition'' of
                             None \<Rightarrow> [issue ''REQUIRED_PARTITION_LABEL_MISSING'' (Some (it_id i)) None]
                           | Some q \<Rightarrow> partition_item_issues O' p b grouped committed monotonic i q) (ok_items ob))
          @ family_issues iqs d, d))"

end
