(* ===== verification/Evaluator.thy ===== *)
theory Evaluator
  imports Evidence_Checks
begin

text \<open>
  The evaluation of one evidence bundle (\<open>src/ops_agent/evaluator.py\<close>): the four conditions,
  the assessment over them, and the result with its output contract
  (\<open>src/ops_agent/evaluation_models.py\<close>). A condition is decided only when none of its required
  dependencies raised an issue.
\<close>

section \<open>Results\<close>

datatype condition_state = Present | Absent | Unknown
datatype evaluation_status = Eval_complete | Eval_partial

fun state_value :: "condition_state \<Rightarrow> ustr" where
  "state_value Present = u ''PRESENT''"
| "state_value Absent = u ''ABSENT''"
| "state_value Unknown = u ''UNKNOWN''"

fun condition_value :: "condition_name \<Rightarrow> ustr" where
  "condition_value Core_backlog = u ''CORE_BACKLOG_PRESSURE''"
| "condition_value Lag_concentration = u ''PARTITION_LAG_CONCENTRATION_OBSERVED''"
| "condition_value Db_degraded = u ''DB_DEGRADED''"
| "condition_value Worker_unavailable = u ''WORKER_REPLICA_UNAVAILABLE''"

fun status_value :: "evaluation_status \<Rightarrow> ustr" where
  "status_value Eval_complete = u ''COMPLETE''"
| "status_value Eval_partial = u ''PARTIAL''"

record trace =
  tr_dependency :: ustr
  tr_requirement :: requirement
  tr_metrics :: "ustr list"
  tr_ids :: "ustr list"
  tr_usable :: "ustr list"
  tr_statuses :: "(ustr \<times> evidence_status) list"
  tr_freshness :: "(ustr \<times> freshness_status) list"
  tr_missing :: bool
  tr_missing_ids :: "ustr list"
  tr_stale_ids :: "ustr list"
  tr_unknown_ids :: "ustr list"
  tr_coverage_ids :: "ustr list"
  tr_anomaly_ids :: "ustr list"
  tr_issues :: "issue list"

record condition_result =
  cr_condition :: condition_name
  cr_state :: condition_state
  cr_reasons :: "ustr list"
  cr_ids :: "ustr list"
  cr_required :: "trace list"
  cr_optional :: "trace list"
  cr_missing :: "ustr list"
  cr_stale :: "ustr list"
  cr_unknown :: "ustr list"
  cr_facts :: obj

fun text_in :: "ustr \<Rightarrow> ustr \<Rightarrow> bool" where
  "text_in p [] = (p = [])"
| "text_in p (c # s) = (starts_with p (c # s) \<or> text_in p s)"

definition or_empty :: "ustr option \<Rightarrow> ustr" where
  "or_empty x = (case x of None \<Rightarrow> [] | Some s \<Rightarrow> s)"

definition issue_ids :: "(issue \<Rightarrow> bool) \<Rightarrow> observed \<Rightarrow> ustr list" where
  "issue_ids P ob = sorted_set (List.map_filter is_id (filter P (ob_issues ob)))"

definition trace_of :: "observed \<Rightarrow> trace" where
  "trace_of ob =
     (let items = sort_key it_id (ob_items ob); spec = ob_spec ob;
          global_issue = list_ex (\<lambda>i. is_id i = None) (ob_issues ob);
          ids = List.map_filter is_id (ob_issues ob);
          ids_with = (\<lambda>P. sort (map it_id (filter P items)));
          missing_ids = ids_with (\<lambda>i. it_status i = Ev_missing)
      in \<lparr>tr_dependency = ds_name spec, tr_requirement = ds_requirement spec, tr_metrics = ds_metrics spec,
          tr_ids = map it_id items,
          tr_usable = map it_id (filter (\<lambda>i. it_status i = Ev_ok \<and> fr_status (it_freshness i) = Fresh
                                             \<and> \<not> global_issue \<and> it_id i \<notin> set ids) items),
          tr_statuses = map (\<lambda>i. (it_id i, it_status i)) items,
          tr_freshness = map (\<lambda>i. (it_id i, fr_status (it_freshness i))) items,
          tr_missing = (items = [] \<or> missing_ids \<noteq> []), tr_missing_ids = missing_ids,
          tr_stale_ids = ids_with (\<lambda>i. fr_status (it_freshness i) = Stale),
          tr_unknown_ids = ids_with (\<lambda>i. fr_status (it_freshness i) = Fresh_unknown),
          tr_coverage_ids = issue_ids (\<lambda>i. text_in (u ''COVERAGE'') (is_code i)) ob,
          tr_anomaly_ids = issue_ids (\<lambda>i. is_code i = u ''REQUIRED_SEMANTIC_ANOMALY'') ob,
          tr_issues = sort_key (\<lambda>i. (is_code i, or_empty (is_id i), or_empty (is_detail i))) (ob_issues ob)\<rparr>)"

definition dedup :: "'a list \<Rightarrow> 'a list" where
  "dedup xs = rev (remdups (rev xs))"

definition make_result ::
  "condition_name \<Rightarrow> condition_state \<Rightarrow> ustr list \<Rightarrow> observed list \<Rightarrow> observed list \<Rightarrow> obj \<Rightarrow> condition_result" where
  "make_result c st reasons required extra facts =
     (let rt = map trace_of required
      in \<lparr>cr_condition = c, cr_state = st, cr_reasons = dedup reasons,
          cr_ids = sorted_set (map it_id (concat (map ob_items required))),
          cr_required = rt, cr_optional = map trace_of extra,
          cr_missing = sort (map tr_dependency (filter tr_missing rt)),
          cr_stale = sorted_set (concat (map tr_stale_ids rt)),
          cr_unknown = sorted_set (concat (map tr_unknown_ids rt)),
          cr_facts = facts\<rparr>)"

definition all_issue_codes :: "observed list \<Rightarrow> ustr list" where
  "all_issue_codes obs = sorted_set (map is_code (concat (map ob_issues obs)))"

definition unknown_result :: "condition_name \<Rightarrow> observed list \<Rightarrow> observed list \<Rightarrow> obj \<Rightarrow> condition_result" where
  "unknown_result c required extra facts =
     make_result c Unknown ((condition_value c @ u ''_REQUIRED_EVIDENCE_UNUSABLE'') # all_issue_codes required)
       required extra facts"

lemma make_result_fields [simp]:
  "cr_condition (make_result c st rs req opt facts) = c"
  "cr_state (make_result c st rs req opt facts) = st"
  "cr_reasons (make_result c st rs req opt facts) = dedup rs"
  "cr_required (make_result c st rs req opt facts) = map trace_of req"
  by (simp_all add: make_result_def Let_def)

lemma unknown_result_fields [simp]:
  "cr_condition (unknown_result c req opt facts) = c" "cr_state (unknown_result c req opt facts) = Unknown"
  "cr_required (unknown_result c req opt facts) = map trace_of req"
  by (simp_all add: unknown_result_def)

lemma set_dedup [simp]: "set (dedup xs) = set xs"
  by (simp add: dedup_def)

section \<open>Backlog pressure\<close>

definition json_number :: "dec \<Rightarrow> json" where
  "json_number x = (if dec_integral x then JInt (dec_int x) else JFloat (dec_float x))"

definition series_of :: "(ustr \<times> series) list \<Rightarrow> ustr \<Rightarrow> series" where
  "series_of d q = the (map_of d q)"

text \<open>\<open>{key: number of the last sample for key, series in sorted(d.items())}\<close>.\<close>

definition last_values :: "(ustr \<times> series) list \<Rightarrow> json" where
  "last_values d = JObj (map (\<lambda>(q, s). (q, json_number (last (sr_values s)))) (sort_key fst d))"

fun arithmetic_issues :: "ustr \<Rightarrow> ustr \<Rightarrow> nat \<Rightarrow> dec list \<Rightarrow> dec list \<Rightarrow> dec list \<Rightarrow> issue list" where
  "arithmetic_issues eid q k (e # es) (c # cs) (l # ls) =
     (if dec_eq c (dec_of_int (-1)) \<or> dec_eq (dec_sub e c) l then []
      else [issue ''KAFKA_OFFSET_LAG_ARITHMETIC_MISMATCH'' (Some eid)
             (Some (u ''partition='' @ q @ u '';sample_index='' @ dec_nat k @ u '';end='' @ dec_str e
                    @ u '';committed='' @ dec_str c @ u '';lag='' @ dec_str l
                    @ u '';expected_lag='' @ dec_str (dec_sub e c)))])
     @ arithmetic_issues eid q (Suc k) es cs ls"
| "arithmetic_issues eid q k _ _ _ = []"

definition partition_cross_issues :: "series \<Rightarrow> series \<Rightarrow> series \<Rightarrow> ustr \<Rightarrow> issue list" where
  "partition_cross_issues e c l q =
     (let eid = it_id (sr_item l)
      in if map dval (sr_times e) \<noteq> map dval (sr_times c) \<or> map dval (sr_times c) \<noteq> map dval (sr_times l)
         then [issue ''KAFKA_REQUIRED_SAMPLE_GRID_MISMATCH'' (Some eid) (Some (u ''partition='' @ q))]
         else arithmetic_issues eid q 0 (sr_values e) (sr_values c) (sr_values l))"

definition same_partitions :: "(ustr \<times> series) list \<Rightarrow> (ustr \<times> series) list \<Rightarrow> bool" where
  "same_partitions d d' \<longleftrightarrow> set (map fst d) = set (map fst d')"

text \<open>
  The issues over the three families: those of the end offsets (the first dependency) and
  those of the lag (the third).
\<close>

definition end_cross_issues ::
  "(ustr \<times> series) list \<Rightarrow> (ustr \<times> series) list \<Rightarrow> (ustr \<times> series) list \<Rightarrow> issue list" where
  "end_cross_issues ends comm lags =
     (let all_series = map snd (ends @ comm @ lags)
      in emit (ends \<noteq> [] \<and> comm \<noteq> [] \<and> lags \<noteq> []
               \<and> \<not> (same_partitions ends comm \<and> same_partitions comm lags))
           (issue ''KAFKA_REQUIRED_PARTITION_SET_MISMATCH'' None None)
         @ emit (several (map (\<lambda>s. (label (sr_item s) ''job'', label (sr_item s) ''instance'')) all_series))
             (issue ''KAFKA_REQUIRED_EXPORTER_IDENTITY_MISMATCH'' None None)
         @ emit (several (List.map_filter (\<lambda>s. map_option isoformat (it_source_ts (sr_item s))) all_series))
             (issue ''KAFKA_REQUIRED_SOURCE_TIMESTAMP_MISMATCH'' None None))"

definition lag_cross_issues ::
  "(ustr \<times> series) list \<Rightarrow> (ustr \<times> series) list \<Rightarrow> (ustr \<times> series) list \<Rightarrow> issue list" where
  "lag_cross_issues ends comm lags =
     (if same_partitions ends comm \<and> same_partitions comm lags
      then concat (map (\<lambda>q. partition_cross_issues (series_of ends q) (series_of comm q) (series_of lags q) q)
             (sorted_set (map fst ends)))
      else [])"

definition total_lag_series :: "evaluation_policy \<Rightarrow> (ustr \<times> series) list \<Rightarrow> dec list" where
  "total_lag_series p lags = map (\<lambda>k. dec_sum (map (\<lambda>s. sr_values s ! k) (map snd lags))) [0..<ep_sample_count p]"

definition dec_max :: "dec list \<Rightarrow> dec" where
  "dec_max xs = foldl (\<lambda>m x. if dec_less m x then x else m) (hd xs) (tl xs)"

definition evaluate_core_backlog ::
  "opslib \<Rightarrow> evaluation_policy \<Rightarrow> evidence_bundle \<Rightarrow> (ustr \<Rightarrow> item list) \<Rightarrow> condition_result" where
  "evaluate_core_backlog O' p b index =
     (let (required, extra) = condition_observations O' Core_backlog index;
          o0 = required ! 0; o1 = required ! 1; o2 = required ! 2;
          (i0, ends) = partition_values O' p b o0 False False True;
          (i1, comm) = partition_values O' p b o1 True True True;
          (i2, lags) = partition_values O' p b o2 True False False;
          required' = [add_issues o0 (i0 @ end_cross_issues ends comm lags), add_issues o1 i1,
                       add_issues o2 (i2 @ lag_cross_issues ends comm lags)];
          facts = [(u ''end_offsets'', last_values ends), (u ''committed_offsets'', last_values comm),
                   (u ''partition_lag'', last_values lags)]
      in if list_ex blocking required' then unknown_result Core_backlog required' extra facts
         else let totals = total_lag_series p lags; all_zero = list_all (\<lambda>x. dec_eq x dec_zero) totals;
                  facts' = facts @ [(u ''latest_total_lag_records'', json_number (last totals)),
                                    (u ''maximum_total_lag_records'', json_number (dec_max totals)),
                                    (u ''window_all_zero'', JBool all_zero)]
              in if \<not> all_zero
                 then make_result Core_backlog Unknown
                   [u ''BACKLOG_OBSERVED_IN_WINDOW'', u ''PRESSURE_POLICY_UNCALIBRATED''] required' extra facts'
                 else make_result Core_backlog Absent [u ''BACKLOG_ZERO_FOR_FULL_WINDOW''] required' extra facts')"

section \<open>Concentration of the lag\<close>

definition evaluate_partition_concentration ::
  "opslib \<Rightarrow> evaluation_policy \<Rightarrow> evidence_bundle \<Rightarrow> (ustr \<Rightarrow> item list) \<Rightarrow> condition_result" where
  "evaluate_partition_concentration O' p b index =
     (let (required, extra) = condition_observations O' Lag_concentration index;
          (i0, lags) = partition_values O' p b (required ! 0) True False False;
          required' = [add_issues (required ! 0) i0];
          facts = [(u ''partition_lag'', last_values lags)]
      in if list_ex blocking required' then unknown_result Lag_concentration required' extra facts
         else let totals = total_lag_series p lags; max_total = dec_max totals;
                  facts' = facts @ [(u ''latest_total_lag_records'', json_number (last totals)),
                                    (u ''maximum_total_lag_records'', json_number max_total)]
              in if dec_eq max_total dec_zero
                 then make_result Lag_concentration Absent [u ''NO_LAG_TO_CONCENTRATE_FOR_FULL_WINDOW'']
                   required' extra (facts' @ [(u ''maximum_partition_share'', JFloat (Fin 0))])
                 else let latest = map (\<lambda>(q, s). (q, last (sr_values s))) lags; latest_total = last totals;
                          max_lag = dec_max (map snd latest);
                          dominant = sort (map fst (filter (\<lambda>(q, v). dec_eq v max_lag) latest));
                          share = (if dec_less dec_zero latest_total then ratio_float max_lag latest_total
                                   else Fin 0)
                      in make_result Lag_concentration Unknown
                           [u ''PARTITION_LAG_OBSERVED_IN_WINDOW'', u ''CONCENTRATION_POLICY_UNCALIBRATED'']
                           required' extra
                           (facts' @ [(u ''maximum_partition_lag_records'', json_number max_lag),
                                      (u ''maximum_partition_share'', JFloat share),
                                      (u ''dominant_partitions'', jstrs dominant)]))"

section \<open>Degradation of the database\<close>

text \<open>\<open>_single_mapping_value\<close>: the issues and, when there is exactly one usable item, its mapping.\<close>

definition single_mapping_value :: "observed \<Rightarrow> issue list \<times> obj option" where
  "single_mapping_value ob =
     (case ok_items ob of
        [i] \<Rightarrow> (case me_value (it_metric i) of
                 JObj d \<Rightarrow> ([], Some d)
               | _ \<Rightarrow> ([issue ''REQUIRED_VALUE_INVALID'' (Some (it_id i)) None], None))
      | is \<Rightarrow> (emit (length is > 1) (issue ''REQUIRED_EVIDENCE_AMBIGUOUS'' None None), None))"

definition sole_id :: "observed \<Rightarrow> ustr option" where
  "sole_id ob = (case ob_items ob of [i] \<Rightarrow> Some (it_id i) | _ \<Rightarrow> None)"

definition field_issue :: "obj \<Rightarrow> string \<Rightarrow> observed \<Rightarrow> issue" where
  "field_issue d field ob =
     issue (if has_key d field then ''REQUIRED_FIELD_INVALID'' else ''REQUIRED_FIELD_MISSING'')
       (sole_id ob) (Some (u field))"

definition required_bool :: "obj \<Rightarrow> string \<Rightarrow> observed \<Rightarrow> issue list \<times> bool option" where
  "required_bool d field ob =
     (case get_none d field of JBool x \<Rightarrow> ([], Some x) | _ \<Rightarrow> ([field_issue d field ob], None))"

definition required_nonnegative_int :: "obj \<Rightarrow> string \<Rightarrow> observed \<Rightarrow> issue list \<times> int option" where
  "required_nonnegative_int d field ob =
     (case get_none d field of
        JInt n \<Rightarrow> if n \<ge> 0 then ([], Some n) else ([field_issue d field ob], None)
      | _ \<Rightarrow> ([field_issue d field ob], None))"

record postgres_view =
  pg_ha :: "bool option"
  pg_primary :: "bool option"
  pg_standby :: "int option"
  pg_sync :: "int option"
  pg_delay :: "int option"

definition read_postgres :: "obj \<Rightarrow> observed \<Rightarrow> issue list \<times> postgres_view" where
  "read_postgres d ob =
     (let (i1, ha) = required_bool d ''ha_mode'' ob; (i2, primary) = required_bool d ''primary_reachable'' ob;
          (i3, standby) = required_nonnegative_int d ''standby_count'' ob;
          (i4, sync) = required_nonnegative_int d ''sync_standby_count'' ob;
          (i5, delay) = required_nonnegative_int d ''max_replication_delay_bytes'' ob
      in (i1 @ i2 @ i3 @ i4 @ i5,
          \<lparr>pg_ha = ha, pg_primary = primary, pg_standby = standby, pg_sync = sync, pg_delay = delay\<rparr>))"

definition no_postgres :: postgres_view where
  "no_postgres = \<lparr>pg_ha = None, pg_primary = None, pg_standby = None, pg_sync = None, pg_delay = None\<rparr>"

definition dump_postgres :: "postgres_view \<Rightarrow> json" where
  "dump_postgres v = JObj
     [(u ''ha_mode'', jopt JBool (pg_ha v)), (u ''primary_reachable'', jopt JBool (pg_primary v)),
      (u ''standby_count'', jopt JInt (pg_standby v)), (u ''sync_standby_count'', jopt JInt (pg_sync v)),
      (u ''max_replication_delay_bytes'', jopt JInt (pg_delay v))]"

definition first_id :: "observed \<Rightarrow> ustr option" where
  "first_id ob = Some (it_id (hd (ob_items ob)))"

text \<open>The body, status and HTTP status of the readiness response.\<close>

definition read_readiness :: "opslib \<Rightarrow> obj \<Rightarrow> observed \<Rightarrow> issue list \<times> obj option \<times> ustr option" where
  "read_readiness O' d ob =
     (let eid = first_id ob;
          (i1, body) = (case get_none d ''body'' of
             JObj x \<Rightarrow> ([], Some x)
           | _ \<Rightarrow> ([issue ''REQUIRED_READINESS_BODY_INVALID'' eid None], None));
          (i2, status) = (case get_none d ''body_status'' of
             JStr x \<Rightarrow> if x \<in> {u ''ready'', u ''degraded'', u ''not_ready''} then ([], Some x)
                      else ([issue ''REQUIRED_READINESS_STATUS_INVALID'' eid None], None)
           | _ \<Rightarrow> ([issue ''REQUIRED_READINESS_STATUS_INVALID'' eid None], None));
          expected = (if status = Some (u ''not_ready'') then 503 else 200);
          http = get_none d ''http_status''
      in (i1 @ i2 @ emit (http \<noteq> JInt expected) (issue ''READINESS_HTTP_STATUS_MISMATCH'' eid
                      (expected_actual (py_str_int expected) (py_repr O' http))),
          body, status))"

definition texts_of :: "json list \<Rightarrow> ustr list option" where
  "texts_of xs = (if list_all (\<lambda>v. py_type v = TStr) xs
                  then Some (List.map_filter (\<lambda>v. case v of JStr s \<Rightarrow> Some s | _ \<Rightarrow> None) xs) else None)"

definition read_body :: "obj \<Rightarrow> ustr option \<Rightarrow> obj option \<Rightarrow> observed \<Rightarrow> issue list \<times> ustr list option" where
  "read_body body status postgres ob =
     (let eid = first_id ob;
          (i2, reasons) = (case get_none body ''reason'' of
             JArr xs \<Rightarrow> (case texts_of xs of
                          Some rs \<Rightarrow> ([], Some rs)
                        | None \<Rightarrow> ([issue ''REQUIRED_READINESS_REASONS_INVALID'' eid None], None))
           | _ \<Rightarrow> ([issue ''REQUIRED_READINESS_REASONS_INVALID'' eid None], None))
      in (emit (get_none body ''status'' \<noteq> jopt JStr status) (issue ''READINESS_STATUS_BODY_MISMATCH'' eid None)
          @ i2
          @ emit (case get_none body ''postgres'' of
                    JObj nested \<Rightarrow> (case postgres of None \<Rightarrow> False | Some d \<Rightarrow> \<not> py_eq (JObj nested) (JObj d))
                  | _ \<Rightarrow> True)
              (issue ''READINESS_POSTGRES_COMPONENT_MISMATCH'' eid None),
          reasons))"

text \<open>Both observations must come from one response.\<close>

definition same_response_issues :: "observed \<Rightarrow> observed \<Rightarrow> issue list" where
  "same_response_issues ro po =
     (case (ob_items ro, ob_items po) of
        ([r], [g]) \<Rightarrow>
          emit (it_raw_ref r = None \<or> (it_raw_ref r, it_raw_sha r) \<noteq> (it_raw_ref g, it_raw_sha g))
            (issue ''READINESS_POSTGRES_RAW_SOURCE_MISMATCH'' None None)
          @ emit (\<not> same_instant (it_source_ts r) (it_source_ts g))
              (issue ''READINESS_POSTGRES_TIMESTAMP_MISMATCH'' None None)
          @ emit (micros (it_collected r) \<noteq> micros (it_collected g))
              (issue ''READINESS_POSTGRES_COLLECTION_TIMESTAMP_MISMATCH'' None None)
      | _ \<Rightarrow> [])"

text \<open>The degradation each reason stands for, as measured.\<close>

definition degradations :: "evaluation_policy \<Rightarrow> postgres_view \<Rightarrow> (ustr \<times> bool) list" where
  "degradations p v =
     [(u ''postgres_primary_unreachable'', pg_primary v = Some False),
      (u ''postgres_ready_standbys_below_minimum'',
         (case pg_standby v of None \<Rightarrow> False | Some n \<Rightarrow> n < ep_min_ready p)),
      (u ''postgres_sync_standbys_below_minimum'',
         (case pg_sync v of None \<Rightarrow> False | Some n \<Rightarrow> n < ep_min_sync p)),
      (u ''postgres_replication_delay_high'',
         (case pg_delay v of None \<Rightarrow> False | Some n \<Rightarrow> n > ep_max_delay p))]"

definition postgres_reasons :: "ustr list \<Rightarrow> ustr list" where
  "postgres_reasons rs = filter (starts_with (u ''postgres_'')) rs"

definition conflicts :: "evaluation_policy \<Rightarrow> postgres_view \<Rightarrow> ustr list \<Rightarrow> ustr list" where
  "conflicts p v rs =
     sort (map fst (filter (\<lambda>(reason, seen). seen \<noteq> (reason \<in> set (postgres_reasons rs))) (degradations p v)))"

text \<open>
  The contradiction that makes usable evidence undecidable, if any: \<open>Inl\<close> an issue of the
  readiness dependency, \<open>Inr\<close> one of the PostgreSQL dependency.
\<close>

definition db_contradiction ::
  "opslib \<Rightarrow> evaluation_policy \<Rightarrow> observed \<Rightarrow> observed \<Rightarrow> postgres_view \<Rightarrow> ustr option \<Rightarrow> ustr list
     \<Rightarrow> (issue + issue) option" where
  "db_contradiction O' p ro po v status rs =
     (let unrecognized = sorted_set (filter (\<lambda>r. r \<notin> set (map fst (degradations p v))) (postgres_reasons rs))
      in if unrecognized \<noteq> []
         then Some (Inl (issue ''READINESS_POSTGRES_REASON_UNRECOGNIZED'' (sole_id ro)
                      (Some (join [44] unrecognized))))
         else if pg_ha v \<noteq> Some True
         then Some (Inr (issue ''LOCAL_HA_MODE_CONTRACT_MISMATCH'' (sole_id po)
                      (Some (u ''ha_mode='' @ py_repr O' (jopt JBool (pg_ha v))))))
         else if conflicts p v rs \<noteq> []
         then Some (Inl (issue ''READINESS_POSTGRES_REASON_COMPONENT_CONFLICT'' (sole_id ro)
                      (Some (join [44] (conflicts p v rs)))))
         else if status = Some (u ''ready'') \<and> rs \<noteq> []
         then Some (Inl (issue ''READINESS_READY_WITH_REASONS'' (sole_id ro) None))
         else if status \<in> {Some (u ''degraded''), Some (u ''not_ready'')} \<and> rs = []
         then Some (Inl (issue ''READINESS_NON_READY_WITHOUT_REASONS'' (sole_id ro) None))
         else None)"

definition db_facts :: "evaluation_policy \<Rightarrow> postgres_view option \<Rightarrow> ustr option \<Rightarrow> ustr list option \<Rightarrow> obj" where
  "db_facts p v status rs =
     (case v of None \<Rightarrow> [] | Some w \<Rightarrow> [(u ''observed'', dump_postgres w)])
     @ [(u ''readiness_status'', jopt JStr status), (u ''readiness_reasons'', jopt jstrs rs),
        (u ''local_ha_guardrails'', JObj
           [(u ''ha_mode_required'', JBool True), (u ''min_ready_standbys'', JInt (ep_min_ready p)),
            (u ''min_sync_standbys'', JInt (ep_min_sync p)),
            (u ''max_replication_delay_bytes'', JInt (ep_max_delay p))])]"

text \<open>
  What the two dependencies say: their issues, the PostgreSQL values, the readiness status and
  the reasons.
\<close>

definition db_readings ::
  "opslib \<Rightarrow> observed \<Rightarrow> observed
     \<Rightarrow> issue list \<times> issue list \<times> postgres_view option \<times> ustr option \<times> ustr list option" where
  "db_readings O' ro po =
     (let (ri, rv) = single_mapping_value ro; (gi, gv) = single_mapping_value po;
          (gi', view) = (case gv of None \<Rightarrow> ([], None) | Some d \<Rightarrow> (case read_postgres d po of (is, w) \<Rightarrow> (is, Some w)));
          (ri', body, status) = (case rv of None \<Rightarrow> ([], None, None) | Some d \<Rightarrow> read_readiness O' d ro);
          (ri'', reasons) = (case body of None \<Rightarrow> ([], None) | Some bd \<Rightarrow> read_body bd status gv ro)
      in (ri @ ri' @ ri'' @ same_response_issues ro po, gi @ gi', view, status, reasons))"

definition evaluate_db_degraded ::
  "opslib \<Rightarrow> evaluation_policy \<Rightarrow> (ustr \<Rightarrow> item list) \<Rightarrow> condition_result" where
  "evaluate_db_degraded O' p index =
     (let (required, extra) = condition_observations O' Db_degraded index;
          ro = required ! 0; po = required ! 1;
          (ri, gi, view, status, reasons) = db_readings O' ro po;
          ro' = add_issues ro ri; po' = add_issues po gi;
          facts = db_facts p view status reasons;
          v = (case view of None \<Rightarrow> no_postgres | Some w \<Rightarrow> w); rs = the reasons
      in if list_ex blocking [ro', po'] then unknown_result Db_degraded [ro', po'] extra facts
         else (case db_contradiction O' p ro po v status rs of
                 Some (Inl i) \<Rightarrow> unknown_result Db_degraded [add_issue ro' i, po'] extra facts
               | Some (Inr i) \<Rightarrow> unknown_result Db_degraded [ro', add_issue po' i] extra facts
               | None \<Rightarrow>
                   (let found = sorted_set (postgres_reasons rs)
                    in make_result Db_degraded (if found \<noteq> [] then Present else Absent)
                         (if found \<noteq> []
                          then map (\<lambda>r. u ''APPLICATION_READINESS_'' @ upper_of O' r) found
                          else [u ''NO_POSTGRES_DEGRADATION_REASON''])
                         [ro', po'] extra facts)))"

section \<open>Unavailable worker replicas\<close>

record deployment_view =
  dp_generation :: "int option"
  dp_observed :: "int option"
  dp_desired :: "int option"
  dp_current :: "int option"
  dp_available :: "int option"

definition no_deployment :: deployment_view where
  "no_deployment = \<lparr>dp_generation = None, dp_observed = None, dp_desired = None, dp_current = None,
     dp_available = None\<rparr>"

definition read_metadata :: "opslib \<Rightarrow> evaluation_policy \<Rightarrow> json \<Rightarrow> observed \<Rightarrow> issue list \<times> int option" where
  "read_metadata O' p metadata ob =
     (case metadata of
        JObj m \<Rightarrow>
          (let (i1, generation) = required_nonnegative_int m ''generation'' ob
           in (i1 @ emit (get_none m ''name'' \<noteq> JStr (ep_worker p))
                 (issue ''DEPLOYMENT_NAME_SCOPE_MISMATCH'' (first_id ob)
                   (expected_actual (py_repr O' (JStr (ep_worker p))) (py_repr O' (get_none m ''name''))))
               @ emit (get_none m ''namespace'' \<noteq> JStr (ep_namespace p))
                 (issue ''DEPLOYMENT_NAMESPACE_SCOPE_MISMATCH'' (first_id ob)
                   (expected_actual (py_repr O' (JStr (ep_namespace p))) (py_repr O' (get_none m ''namespace'')))),
               generation))
      | _ \<Rightarrow> ([issue ''REQUIRED_DEPLOYMENT_METADATA_INVALID'' (first_id ob) None], None))"

definition read_deployment :: "opslib \<Rightarrow> evaluation_policy \<Rightarrow> obj \<Rightarrow> observed \<Rightarrow> issue list \<times> deployment_view" where
  "read_deployment O' p d ob =
     (let (i1, generation) = read_metadata O' p (get_none d ''metadata'') ob;
          (i2, seen) = required_nonnegative_int d ''observed_generation'' ob;
          (i3, desired) = required_nonnegative_int d ''desired_replicas'' ob;
          (i4, current) = required_nonnegative_int d ''current_replicas'' ob;
          (i5, available) = required_nonnegative_int d ''available_replicas'' ob
      in (i1 @ i2 @ i3 @ i4 @ i5,
          \<lparr>dp_generation = generation, dp_observed = seen, dp_desired = desired, dp_current = current,
           dp_available = available\<rparr>))"

definition deployment_issues :: "observed \<Rightarrow> deployment_view \<Rightarrow> issue list" where
  "deployment_issues ob v =
     (case (dp_generation v, dp_observed v) of
        (Some g, Some n) \<Rightarrow> emit (g \<noteq> n) (issue ''DEPLOYMENT_GENERATION_NOT_OBSERVED'' (first_id ob)
           (Some (u ''generation='' @ py_str_int g @ u '';observed='' @ py_str_int n)))
      | _ \<Rightarrow> [])
     @ (case (dp_current v, dp_available v) of
          (Some c, Some a) \<Rightarrow> emit (a > c) (issue ''DEPLOYMENT_REPLICA_COUNTS_INCOHERENT'' (first_id ob)
             (Some (u ''current='' @ py_str_int c @ u '';available='' @ py_str_int a)))
        | _ \<Rightarrow> [])"

definition deployment_facts :: "evaluation_policy \<Rightarrow> deployment_view \<Rightarrow> obj" where
  "deployment_facts p v =
     [(u ''generation'', jopt JInt (dp_generation v)), (u ''observed_generation'', jopt JInt (dp_observed v)),
      (u ''desired_replicas'', jopt JInt (dp_desired v)), (u ''current_replicas'', jopt JInt (dp_current v)),
      (u ''available_replicas'', jopt JInt (dp_available v)),
      (u ''unavailable_grace_seconds'', JInt (ep_grace_seconds p))]"

definition shortfall_reasons :: "int \<Rightarrow> int \<Rightarrow> int \<Rightarrow> ustr list" where
  "shortfall_reasons desired current available =
     emit (current < desired) (u ''WORKER_CURRENT_REPLICA_SHORTFALL_OBSERVED'')
     @ emit (available < desired) (u ''WORKER_AVAILABLE_REPLICA_SHORTFALL_OBSERVED'')"

definition evaluate_worker_unavailable ::
  "opslib \<Rightarrow> evaluation_policy \<Rightarrow> (ustr \<Rightarrow> item list) \<Rightarrow> condition_result" where
  "evaluate_worker_unavailable O' p index =
     (let (required, extra) = condition_observations O' Worker_unavailable index;
          ob = required ! 0; (i1, value) = single_mapping_value ob;
          (i2, v) = (case value of None \<Rightarrow> ([], no_deployment) | Some d \<Rightarrow> read_deployment O' p d ob);
          ob' = add_issues ob (i1 @ i2 @ deployment_issues ob v);
          facts = deployment_facts p v
      in if blocking ob' then unknown_result Worker_unavailable [ob'] extra facts
         else (let short = shortfall_reasons (the (dp_desired v)) (the (dp_current v)) (the (dp_available v))
               in if short \<noteq> []
                  then make_result Worker_unavailable Unknown
                    (short @ [u ''UNAVAILABLE_GRACE_NOT_PROVEN_BY_SINGLE_SNAPSHOT'']) [ob'] extra facts
                  else make_result Worker_unavailable Absent [u ''ALL_DESIRED_WORKER_REPLICAS_AVAILABLE'']
                    [ob'] extra facts))"

section \<open>The assessment and the evaluation of a bundle\<close>

record dependency_trace =
  dt_condition :: condition_name
  dt_state :: condition_state
  dt_reasons :: "ustr list"

record assessment =
  as_state :: condition_state
  as_reasons :: "ustr list"
  as_dependencies :: "dependency_trace list"

type_synonym conditions = "(condition_name \<times> condition_result) list"

definition condition_of :: "conditions \<Rightarrow> condition_name \<Rightarrow> condition_result" where
  "condition_of cs c = the (map_of cs c)"

definition dependency_of :: "condition_result \<Rightarrow> dependency_trace" where
  "dependency_of r = \<lparr>dt_condition = cr_condition r, dt_state = cr_state r, dt_reasons = cr_reasons r\<rparr>"

definition no_backlog_assessment :: "conditions \<Rightarrow> assessment" where
  "no_backlog_assessment cs =
     (let deps = [condition_of cs Core_backlog, condition_of cs Lag_concentration]; states = map cr_state deps;
          (st, reasons) =
            (if set states = {Absent} then (Present, [u ''BACKLOG_CONDITIONS_ABSENT''])
             else if Present \<in> set states then (Absent, [u ''BACKLOG_PRESSURE_CONDITION_PRESENT''])
             else (Unknown, [u ''BACKLOG_CONDITION_UNKNOWN'']))
      in \<lparr>as_state = st, as_reasons = reasons, as_dependencies = map dependency_of deps\<rparr>)"

record source_reference =
  sf_bundle_id :: ustr
  sf_incident_id :: ustr
  sf_profile :: ustr
  sf_status :: collection_status
  sf_sha256 :: ustr

definition source_bundle_reference :: "opslib \<Rightarrow> evidence_bundle \<Rightarrow> source_reference" where
  "source_bundle_reference O' b = \<lparr>sf_bundle_id = bu_id b, sf_incident_id = bu_incident b,
     sf_profile = bu_profile b, sf_status = co_status (bu_collection b), sf_sha256 = bundle_digest O' b\<rparr>"

record condition_evaluation =
  ce_id :: ustr
  ce_status :: evaluation_status
  ce_policy :: evaluation_policy
  ce_source :: source_reference
  ce_conditions :: conditions
  ce_assessment :: assessment

definition dump_issue :: "issue \<Rightarrow> json" where
  "dump_issue i = JObj [(u ''code'', JStr (is_code i)), (u ''evidence_id'', jopt JStr (is_id i)),
     (u ''detail'', jopt JStr (is_detail i))]"

definition dump_trace :: "trace \<Rightarrow> json" where
  "dump_trace t = JObj
     [(u ''dependency'', JStr (tr_dependency t)),
      (u ''requirement'', JStr (requirement_value (tr_requirement t))),
      (u ''accepted_metric_names'', jstrs (tr_metrics t)), (u ''evidence_ids'', jstrs (tr_ids t)),
      (u ''usable_evidence_ids'', jstrs (tr_usable t)),
      (u ''evidence_statuses'', JObj (map (\<lambda>(k, v). (k, JStr (evidence_value v))) (tr_statuses t))),
      (u ''freshness_statuses'', JObj (map (\<lambda>(k, v). (k, JStr (freshness_value v))) (tr_freshness t))),
      (u ''missing'', JBool (tr_missing t)), (u ''missing_evidence_ids'', jstrs (tr_missing_ids t)),
      (u ''stale_evidence_ids'', jstrs (tr_stale_ids t)),
      (u ''unknown_freshness_evidence_ids'', jstrs (tr_unknown_ids t)),
      (u ''coverage_incomplete_evidence_ids'', jstrs (tr_coverage_ids t)),
      (u ''semantic_anomaly_evidence_ids'', jstrs (tr_anomaly_ids t)),
      (u ''issues'', JArr (map dump_issue (tr_issues t)))]"

definition dump_condition :: "condition_result \<Rightarrow> json" where
  "dump_condition r = JObj
     [(u ''condition'', JStr (condition_value (cr_condition r))), (u ''state'', JStr (state_value (cr_state r))),
      (u ''reason_codes'', jstrs (cr_reasons r)), (u ''evidence_ids'', jstrs (cr_ids r)),
      (u ''required_evidence'', JArr (map dump_trace (cr_required r))),
      (u ''optional_evidence'', JArr (map dump_trace (cr_optional r))),
      (u ''missing_required_dependencies'', jstrs (cr_missing r)),
      (u ''stale_required_evidence_ids'', jstrs (cr_stale r)),
      (u ''unknown_freshness_required_evidence_ids'', jstrs (cr_unknown r)),
      (u ''facts'', JObj (cr_facts r))]"

definition dump_dependency :: "dependency_trace \<Rightarrow> json" where
  "dump_dependency d = JObj
     [(u ''condition'', JStr (condition_value (dt_condition d))), (u ''state'', JStr (state_value (dt_state d))),
      (u ''reason_codes'', jstrs (dt_reasons d))]"

definition dump_assessment :: "assessment \<Rightarrow> json" where
  "dump_assessment a = JObj
     [(u ''assessment'', JStr (u ''NO_BACKLOG_PRESSURE_DETECTED'')), (u ''state'', JStr (state_value (as_state a))),
      (u ''reason_codes'', jstrs (as_reasons a)),
      (u ''condition_dependencies'', JArr (map dump_dependency (as_dependencies a)))]"

definition dump_conditions :: "conditions \<Rightarrow> json" where
  "dump_conditions cs = JObj (map (\<lambda>(c, r). (condition_value c, dump_condition r)) cs)"

definition dump_assessments :: "assessment \<Rightarrow> json" where
  "dump_assessments a = JObj [(u ''NO_BACKLOG_PRESSURE_DETECTED'', dump_assessment a)]"

definition policy_fields :: "evaluation_policy \<Rightarrow> obj" where
  "policy_fields p =
     [(u ''cluster_profile'', JStr (ep_profile p)), (u ''source_policy_version'', JStr (ep_source_policy p)),
      (u ''policy_version'', JStr (ep_version p)), (u ''context'', JStr (ep_context p)),
      (u ''namespace'', JStr (ep_namespace p)), (u ''topic'', JStr (ep_topic p)),
      (u ''consumer_group'', JStr (ep_group p)),
      (u ''expected_partition_count'', JInt (int (ep_partition_count p))),
      (u ''kafka_range_window_seconds'', JInt (ep_window_seconds p)),
      (u ''kafka_range_step_seconds'', JInt (ep_step_seconds p)),
      (u ''kafka_expected_sample_count'', JInt (int (ep_sample_count p))),
      (u ''kafka_range_collection_skew_seconds'', JInt (ep_skew_seconds p)),
      (u ''kafka_source_to_range_end_max_seconds'', JInt (ep_source_to_end_seconds p)),
      (u ''freshness_age_tolerance_seconds'', JFloat (ep_age_tolerance p)),
      (u ''worker_deployment_name'', JStr (ep_worker p)),
      (u ''worker_unavailable_grace_seconds'', JInt (ep_grace_seconds p)),
      (u ''local_ha_min_ready_standbys'', JInt (ep_min_ready p)),
      (u ''local_ha_min_sync_standbys'', JInt (ep_min_sync p)),
      (u ''local_ha_max_replication_delay_bytes'', JInt (ep_max_delay p))]"

definition dump_source_reference :: "source_reference \<Rightarrow> json" where
  "dump_source_reference r = JObj
     [(u ''schema_version'', JStr (u ''ops.evidence.v1'')), (u ''bundle_id'', JStr (sf_bundle_id r)),
      (u ''incident_id'', JStr (sf_incident_id r)), (u ''cluster_profile'', JStr (sf_profile r)),
      (u ''collection_status'', JStr (collection_value (sf_status r))),
      (u ''source_bundle_sha256'', JStr (sf_sha256 r))]"

definition condition_evaluation_id ::
  "opslib \<Rightarrow> evaluation_policy \<Rightarrow> source_reference \<Rightarrow> conditions \<Rightarrow> assessment \<Rightarrow> ustr" where
  "condition_evaluation_id O' p r cs a =
     canonical_sha256 (py O') (JObj
       [(u ''evaluator_version'', JStr (u ''ops.evaluator.v1'')),
        (u ''ruleset_version'', JStr (u ''ops.conditions.rules.v1'')), (u ''policy'', JObj (policy_fields p)),
        (u ''source_bundle'', dump_source_reference r), (u ''conditions'', dump_conditions cs),
        (u ''assessments'', dump_assessments a)])"

definition scope_mismatch :: "evaluation_policy \<Rightarrow> evidence_bundle \<Rightarrow> bool" where
  "scope_mismatch p b \<longleftrightarrow>
     sc_context (bu_scope b) \<noteq> Some (ep_context p) \<or> sc_namespace (bu_scope b) \<noteq> ep_namespace p
     \<or> sc_topic (bu_scope b) \<noteq> ep_topic p \<or> sc_group (bu_scope b) \<noteq> ep_group p
     \<or> bc_policy_version (bu_context b) \<noteq> ep_source_policy p"

definition evaluate_conditions :: "opslib \<Rightarrow> evaluation_policy \<Rightarrow> evidence_bundle \<Rightarrow> conditions" where
  "evaluate_conditions O' p b =
     (let index = evidence_index b
      in [(Core_backlog, evaluate_core_backlog O' p b index),
          (Lag_concentration, evaluate_partition_concentration O' p b index),
          (Db_degraded, evaluate_db_degraded O' p index),
          (Worker_unavailable, evaluate_worker_unavailable O' p index)])"

definition overall_status :: "conditions \<Rightarrow> assessment \<Rightarrow> evaluation_status" where
  "overall_status cs a =
     (if list_ex (\<lambda>(_, r). cr_state r = Unknown) cs \<or> as_state a = Unknown then Eval_partial else Eval_complete)"

text \<open>The output contract \<open>ConditionEvaluation.validate_output_contract\<close> with \<open>verify_integrity\<close>.\<close>

definition all_conditions :: "condition_name list" where
  "all_conditions = [Core_backlog, Lag_concentration, Db_degraded, Worker_unavailable]"

definition assessment_contract :: "conditions \<Rightarrow> assessment \<Rightarrow> bool" where
  "assessment_contract cs a \<longleftrightarrow>
     (let deps = as_dependencies a; states = set (map dt_state deps)
      in distinct (map dt_condition deps) \<and> set (map dt_condition deps) = {Core_backlog, Lag_concentration}
         \<and> list_all (\<lambda>d. dt_state d = cr_state (condition_of cs (dt_condition d))
                          \<and> dt_reasons d = cr_reasons (condition_of cs (dt_condition d))) deps
         \<and> as_state a = (if states = {Absent} then Present else if Present \<in> states then Absent else Unknown))"

definition conditions_contract :: "conditions \<Rightarrow> assessment \<Rightarrow> evaluation_status \<Rightarrow> bool" where
  "conditions_contract cs a st \<longleftrightarrow>
     distinct (map fst cs) \<and> set (map fst cs) = set all_conditions
     \<and> list_all (\<lambda>(c, r). cr_condition r = c) cs
     \<and> st = overall_status cs a \<and> assessment_contract cs a"

definition validate_output_contract :: "opslib \<Rightarrow> condition_evaluation \<Rightarrow> bool" where
  "validate_output_contract O' e \<longleftrightarrow>
     conditions_contract (ce_conditions e) (ce_assessment e) (ce_status e)
     \<and> ce_id e = condition_evaluation_id O' (ce_policy e) (ce_source e) (ce_conditions e) (ce_assessment e)"

text \<open>
  \<open>evaluate_bundle\<close> of a bundle that satisfies its model; the messages of the scope errors leave
  out the mismatching values.
\<close>

definition evaluate_bundle :: "opslib \<Rightarrow> evaluation_policy \<Rightarrow> evidence_bundle \<Rightarrow> exn + condition_evaluation" where
  "evaluate_bundle O' p b =
     (if bu_profile b \<noteq> ep_profile p then Inl (value_error ''evaluation policy cluster profile mismatch'')
      else if scope_mismatch p b then Inl (value_error ''evaluation policy scope mismatch'')
      else let cs = evaluate_conditions O' p b; a = no_backlog_assessment cs; r = source_bundle_reference O' b;
               e = \<lparr>ce_id = condition_evaluation_id O' p r cs a, ce_status = overall_status cs a, ce_policy = p,
                    ce_source = r, ce_conditions = cs, ce_assessment = a\<rparr>
           in if validate_output_contract O' e then Inr e else Inl (value_error ''ValidationError''))"

section \<open>Decisions rest on usable evidence\<close>

definition clean_trace :: "trace \<Rightarrow> bool" where
  "clean_trace t \<longleftrightarrow> tr_issues t = [] \<and> tr_ids t \<noteq> [] \<and> tr_usable t = tr_ids t"

lemma item_issues_Nil: "item_issues O' s i = [] \<Longrightarrow> it_status i = Ev_ok \<and> fr_status (it_freshness i) = Fresh"
  by (auto simp: item_issues_def Let_def freshness_issues_def split: if_splits freshness_status.splits)

lemma observe_dependency_clean:
  assumes "ob_issues (observe_dependency O' s index) = []"
  shows "dependency_items index s \<noteq> []"
    and "i \<in> set (dependency_items index s) \<Longrightarrow> it_status i = Ev_ok \<and> fr_status (it_freshness i) = Fresh"
proof -
  show "dependency_items index s \<noteq> []"
    using assms by (auto simp: observe_dependency_def Let_def add_issue_def)
  with assms have "\<forall>i \<in> set (dependency_items index s). item_issues O' s i = []"
    by (auto simp: observe_dependency_def Let_def add_issues_Nil_iff)
  then show "i \<in> set (dependency_items index s) \<Longrightarrow> it_status i = Ev_ok \<and> fr_status (it_freshness i) = Fresh"
    using item_issues_Nil by blast
qed

lemma clean_observed:
  assumes "ob_issues (add_issues (observe_dependency O' s index) is) = []"
  shows "clean_trace (trace_of (add_issues (observe_dependency O' s index) is))"
proof -
  have clean: "ob_issues (observe_dependency O' s index) = []" using assms by (simp add: add_issues_Nil_iff)
  have "filter (\<lambda>i. it_status i = Ev_ok \<and> fr_status (it_freshness i) = Fresh)
          (sort_key it_id (dependency_items index s)) = sort_key it_id (dependency_items index s)"
    using observe_dependency_clean(2) [OF clean] by (intro filter_True) simp
  moreover have "sort_key it_id (dependency_items index s) \<noteq> []"
    using observe_dependency_clean(1) [OF clean] by (metis set_empty set_sort)
  ultimately show ?thesis
    using assms by (simp add: clean_trace_def trace_of_def Let_def List.map_filter_def)
qed

lemma not_blocking_clean:
  assumes "\<not> blocking (add_issues (observe_dependency O' s index) is)" "ds_requirement s = Required"
  shows "clean_trace (trace_of (add_issues (observe_dependency O' s index) is))"
  using assms clean_observed by (simp add: blocking_def)

definition decided_clean :: "condition_result \<Rightarrow> bool" where
  "decided_clean r \<longleftrightarrow> cr_state r = Unknown \<or> list_all clean_trace (cr_required r)"

lemma decided_clean_unknown [simp]: "decided_clean (unknown_result c req opt facts)"
  by (simp add: decided_clean_def)

lemma decided_clean_make [simp]:
  "decided_clean (make_result c st rs req opt facts) \<longleftrightarrow> st = Unknown \<or> list_all clean_trace (map trace_of req)"
  by (simp add: decided_clean_def)

lemma required_spec_required:
  "ds_requirement END_OFFSET = Required" "ds_requirement COMMITTED_OFFSET = Required"
  "ds_requirement PARTITION_LAG = Required" "ds_requirement APPLICATION_READINESS = Required"
  "ds_requirement POSTGRES_RUNTIME = Required" "ds_requirement WORKER_DEPLOYMENT = Required"
  by (simp_all add: END_OFFSET_def COMMITTED_OFFSET_def PARTITION_LAG_def APPLICATION_READINESS_def
      POSTGRES_RUNTIME_def WORKER_DEPLOYMENT_def kafka_spec_def application_spec_def)

lemma core_clean: "decided_clean (evaluate_core_backlog O' p b index)"
  using not_blocking_clean required_spec_required
  by (simp add: evaluate_core_backlog_def condition_observations_def Let_def split: prod.splits
      del: blocking_add_issues)

lemma concentration_clean: "decided_clean (evaluate_partition_concentration O' p b index)"
  using not_blocking_clean required_spec_required
  by (simp add: evaluate_partition_concentration_def condition_observations_def Let_def split: prod.splits
      del: blocking_add_issues)

lemma db_clean: "decided_clean (evaluate_db_degraded O' p index)"
  using not_blocking_clean required_spec_required
  by (simp add: evaluate_db_degraded_def condition_observations_def Let_def
      split: prod.splits option.splits sum.splits del: blocking_add_issues)

lemma worker_clean: "decided_clean (evaluate_worker_unavailable O' p index)"
  using not_blocking_clean required_spec_required
  by (simp add: evaluate_worker_unavailable_def condition_observations_def Let_def split: prod.splits option.splits
      del: blocking_add_issues)

text \<open>
  C13: A condition is decided, present or absent, only when every required dependency has
  evidence, no check raised an issue about it and all of its items are usable and fresh.
\<close>

theorem conditions_decided_on_usable_evidence:
  "list_all (\<lambda>(c, r). cr_state r = Unknown \<or> list_all clean_trace (cr_required r)) (evaluate_conditions O' p b)"
  using core_clean concentration_clean db_clean worker_clean
  by (simp add: evaluate_conditions_def Let_def decided_clean_def)

section \<open>Every evaluation satisfies the output contract\<close>

lemma evaluator_conditions [simp]:
  "cr_condition (evaluate_core_backlog O' p b index) = Core_backlog"
  "cr_condition (evaluate_partition_concentration O' p b index) = Lag_concentration"
  "cr_condition (evaluate_db_degraded O' p index) = Db_degraded"
  "cr_condition (evaluate_worker_unavailable O' p index) = Worker_unavailable"
  by (simp_all add: evaluate_core_backlog_def evaluate_partition_concentration_def evaluate_db_degraded_def
      evaluate_worker_unavailable_def Let_def split: prod.splits option.splits sum.splits)

lemma assessment_contract_holds:
  assumes "list_all (\<lambda>(c, r). cr_condition r = c) cs" "Core_backlog \<in> fst ` set cs"
    "Lag_concentration \<in> fst ` set cs"
  shows "assessment_contract cs (no_backlog_assessment cs)"
proof -
  have "cr_condition (condition_of cs c) = c" if "c \<in> fst ` set cs" for c
  proof -
    from that obtain r where r: "map_of cs c = Some r" by (metis map_of_eq_None_iff not_None_eq)
    then show ?thesis using assms(1) map_of_SomeD [OF r] by (auto simp: condition_of_def list_all_iff)
  qed
  with assms(2,3) have
    "cr_condition (condition_of cs Core_backlog) = Core_backlog"
    "cr_condition (condition_of cs Lag_concentration) = Lag_concentration" by simp_all
  then show ?thesis
    by (auto simp: assessment_contract_def no_backlog_assessment_def Let_def dependency_of_def)
qed

lemma evaluate_bundle_result: "evaluate_bundle O' p b = Inr e \<Longrightarrow> ce_conditions e = evaluate_conditions O' p b"
  by (auto simp: evaluate_bundle_def Let_def split: if_splits)

text \<open>
  The evaluation of a bundle whose profile and scope match the policy never fails its own
  output model: the conditions are exactly the four, the assessment repeats the states and
  reasons of its dependencies, the status is partial exactly when a result is unknown, and the
  identifier is the digest of the payload. Every other bundle is refused.
\<close>

theorem evaluation_satisfies_output_contract:
  "evaluate_bundle O' p b = Inr e \<longleftrightarrow>
     bu_profile b = ep_profile p \<and> \<not> scope_mismatch p b
     \<and> ce_conditions e = evaluate_conditions O' p b \<and> ce_policy e = p
     \<and> ce_source e = source_bundle_reference O' b
     \<and> ce_assessment e = no_backlog_assessment (evaluate_conditions O' p b) \<and> validate_output_contract O' e"
proof -
  have names: "map fst (evaluate_conditions O' p b) = all_conditions"
    "list_all (\<lambda>(c, r). cr_condition r = c) (evaluate_conditions O' p b)"
    by (simp_all add: evaluate_conditions_def all_conditions_def Let_def)
  have a: "assessment_contract (evaluate_conditions O' p b) (no_backlog_assessment (evaluate_conditions O' p b))"
    by (rule assessment_contract_holds) (simp_all add: evaluate_conditions_def Let_def)
  have d: "distinct all_conditions" by (simp add: all_conditions_def)
  show ?thesis
    using names a d
    by (cases e) (auto simp: evaluate_bundle_def Let_def validate_output_contract_def conditions_contract_def)
qed

end
