(* ===== verification/Backlog_Facts.thy ===== *)
theory Backlog_Facts
  imports Evaluator "HOL-Library.Multiset"
begin

text \<open>
  What the decisions of \<open>evaluator.py\<close> mean: a backlog that is absent is eight drained
  partitions, a degraded database is a measured violation of its guardrails, and the order of
  the evidence in a bundle does not matter.
\<close>

section \<open>Sums of lag values\<close>

lemma dval_sign: "dval x \<ge> 0 \<longleftrightarrow> coeff x \<ge> 0" "dval x = 0 \<longleftrightarrow> coeff x = 0"
proof -
  have "\<not> (10 :: rat) ^ n \<le> 0" for n by (simp add: not_le)
  then show "dval x \<ge> 0 \<longleftrightarrow> coeff x \<ge> 0" "dval x = 0 \<longleftrightarrow> coeff x = 0"
    by (auto simp: dval_def zero_le_mult_iff zero_le_divide_iff)
qed

lemma dec_zero_dval [simp]: "dval dec_zero = 0"
  by (simp add: dec_zero_def dval_def)

lemma digits_in_small: "n < b \<Longrightarrow> digits_in b n = 1"
  by (simp add: digits_in.simps [of b n])

lemma dec_fix_sign:
  assumes "c \<ge> 0"
  shows "coeff (dec_fix c e) \<ge> 0" "coeff (dec_fix c e) = 0 \<longleftrightarrow> c = 0"
proof -
  have "coeff (dec_fix c e) \<ge> 0 \<and> (coeff (dec_fix c e) = 0 \<longleftrightarrow> c = 0)"
  proof (cases "dec_digits c \<le> 28")
    case False
    let ?k = "dec_digits c - 28"
    have pos: "c > 0"
    proof (rule ccontr)
      assume "\<not> c > 0"
      with assms have "c = 0" by simp
      then have "dec_digits c = 1" by (simp add: dec_digits_def digits_in.simps [of 10 0])
      with False show False by simp
    qed
    have "(10 :: nat) ^ ?k \<le> 10 ^ (digits_in 10 (nat c) - 1)"
      using False pos by (intro power_increasing) (simp_all add: dec_digits_def)
    also have "\<dots> \<le> nat c" using pos by (intro digits_in_bounds(2)) simp_all
    finally have "10 ^ ?k \<le> c" using pos by (simp add: le_nat_iff)
    then have r: "div_even c (10 ^ ?k) > 0" by (intro div_even_pos) simp_all
    have big: "div_even c (10 ^ ?k) div 10 > 0" if "dec_digits (div_even c (10 ^ ?k)) > 28"
    proof (rule ccontr)
      assume "\<not> ?thesis"
      then have "nat \<bar>div_even c (10 ^ ?k)\<bar> < 10" using r by (simp add: pos_imp_zdiv_pos_iff)
      then have "dec_digits (div_even c (10 ^ ?k)) = 1"
        unfolding dec_digits_def by (rule digits_in_small)
      with that show False by simp
    qed
    show ?thesis using False r big pos by (auto simp: dec_fix_def Let_def)
  qed (use assms in \<open>simp add: dec_fix_def\<close>)
  then show "coeff (dec_fix c e) \<ge> 0" "coeff (dec_fix c e) = 0 \<longleftrightarrow> c = 0" by blast+
qed

lemma dec_add_nonneg:
  assumes "dval x \<ge> 0" "dval y \<ge> 0"
  shows "dval (dec_add x y) \<ge> 0" "dval (dec_add x y) = 0 \<longleftrightarrow> dval x = 0 \<and> dval y = 0"
proof -
  let ?g = "min (expo x) (expo y)"
  have nonneg: "at_expo ?g x \<ge> 0" "at_expo ?g y \<ge> 0"
    using assms by (simp_all add: at_expo_def dval_sign)
  then have sum: "at_expo ?g x + at_expo ?g y \<ge> 0" by simp
  show "dval (dec_add x y) \<ge> 0"
    using dec_fix_sign(1) [OF sum] by (simp add: dec_add_def dval_sign Let_def)
  have "at_expo ?g x + at_expo ?g y = 0 \<longleftrightarrow> at_expo ?g x = 0 \<and> at_expo ?g y = 0"
    using nonneg by linarith
  also have "\<dots> \<longleftrightarrow> dval x = 0 \<and> dval y = 0" by (simp add: at_expo_def dval_sign)
  finally show "dval (dec_add x y) = 0 \<longleftrightarrow> dval x = 0 \<and> dval y = 0"
    using dec_fix_sign(2) [OF sum] by (simp add: dec_add_def dval_sign Let_def)
qed

lemma dec_sum_zero_acc:
  assumes "dval a \<ge> 0" "\<forall>x \<in> set xs. dval x \<ge> 0"
  shows "dval (foldl dec_add a xs) = 0 \<longleftrightarrow> dval a = 0 \<and> (\<forall>x \<in> set xs. dval x = 0)"
  using assms
proof (induction xs arbitrary: a)
  case (Cons x xs)
  then have "dval (dec_add a x) \<ge> 0" "dval (dec_add a x) = 0 \<longleftrightarrow> dval a = 0 \<and> dval x = 0"
    by (simp_all add: dec_add_nonneg)
  with Cons show ?case by simp
qed simp

lemma dec_sum_zero: "\<forall>x \<in> set xs. dval x \<ge> 0 \<Longrightarrow> dval (dec_sum xs) = 0 \<longleftrightarrow> (\<forall>x \<in> set xs. dval x = 0)"
  by (simp add: dec_sum_def dec_sum_zero_acc)

section \<open>Parsed samples\<close>

lemma parse_sample_clean:
  "parse_sample O' eid committed k s = ([], r) \<Longrightarrow> \<exists>t v. r = Some (t, v) \<and> dval v \<ge> 0"
  by (auto simp: parse_sample_def dec_less_dval not_less split: json.splits option.splits if_splits)

lemma parse_samples_length:
  "parse_samples O' eid committed k ss = (iss, Some tvs) \<Longrightarrow> length tvs = length ss"
  by (induction ss arbitrary: k iss tvs) (auto split: prod.splits option.splits)

lemma parse_samples_clean:
  "parse_samples O' eid committed k ss = ([], r) \<Longrightarrow> \<exists>tvs. r = Some tvs \<and> (\<forall>tv \<in> set tvs. dval (snd tv) \<ge> 0)"
proof (induction ss arbitrary: k r)
  case (Cons s ss)
  obtain i r1 where one: "parse_sample O' eid committed k s = (i, r1)" by force
  obtain iss r2 where rest: "parse_samples O' eid committed (Suc k) ss = (iss, r2)" by force
  from Cons.prems one rest have "i = []" by (auto split: option.splits)
  with one parse_sample_clean obtain t v where r1: "r1 = Some (t, v)" "dval v \<ge> 0" by metis
  from Cons.prems one rest r1 \<open>i = []\<close> have "iss = []" and r: "r = map_option ((#) (t, v)) r2" by auto
  with Cons.IH rest obtain tvs where "r2 = Some tvs" "\<forall>tv \<in> set tvs. dval (snd tv) \<ge> 0" by metis
  with r r1 show ?case by simp
qed simp

lemma parse_partition_series_length:
  "snd (parse_partition_series O' p b i committed monotonic) = Some s \<Longrightarrow> length (sr_values s) = ep_sample_count p"
  by (auto simp: parse_partition_series_def Let_def dest: parse_samples_length
      split: json.splits if_splits prod.splits option.splits)

lemma parse_partition_series_clean:
  assumes "fst (parse_partition_series O' p b i committed monotonic) = []"
  obtains s where "snd (parse_partition_series O' p b i committed monotonic) = Some s"
    "\<forall>v \<in> set (sr_values s). dval v \<ge> 0"
proof -
  from assms obtain samples where samples: "me_value (it_metric i) = JArr samples"
    "length samples = ep_sample_count p" "me_sample_count (it_metric i) = Some (int (ep_sample_count p))"
    by (auto simp: parse_partition_series_def Let_def split: json.splits if_splits)
  obtain iss r where parsed: "parse_samples O' (it_id i) committed 0 samples = (iss, r)" by force
  with assms samples have "iss = []"
    by (auto simp: parse_partition_series_def Let_def split: option.splits)
  with parsed parse_samples_clean obtain tvs where "r = Some tvs" "\<forall>tv \<in> set tvs. dval (snd tv) \<ge> 0" by metis
  with samples parsed show thesis
    by (intro that [of "\<lparr>sr_item = i, sr_times = map fst tvs, sr_values = map snd tvs\<rparr>"])
      (simp_all add: parse_partition_series_def Let_def)
qed

section \<open>A family of partitions without issues\<close>

lemma collect_series_sound:
  "(q, s) \<in> set (collect_series O' p b committed monotonic iqs)
   \<Longrightarrow> \<exists>i. (i, q) \<in> set iqs \<and> snd (parse_partition_series O' p b i committed monotonic) = Some s"
proof (induction iqs rule: rev_induct)
  case (snoc iq iqs)
  then show ?case
    by (cases iq) (auto simp: collect_series_def split: option.splits if_splits)
qed (simp add: collect_series_def)

lemma collect_series_complete:
  "(i, q) \<in> set iqs \<Longrightarrow> snd (parse_partition_series O' p b i committed monotonic) = Some s
   \<Longrightarrow> q \<in> set (map fst (collect_series O' p b committed monotonic iqs))"
proof (induction iqs rule: rev_induct)
  case (snoc iq iqs)
  then show ?case
    by (cases iq) (auto simp: collect_series_def split: option.splits if_splits)
qed simp

lemma set_labelled_items: "set (labelled_items ob) = {(i, q). i \<in> set (ok_items ob) \<and> label i ''partition'' = Some q}"
  by (auto simp: labelled_items_def split: option.splits)

lemma expected_sets_single:
  assumes "length (remdups (filter P (map f xs))) \<le> 1" "x \<in> set xs" "P (f x)"
  shows "remdups (filter P (map f xs)) = [f x]"
proof -
  have "f x \<in> set (remdups (filter P (map f xs)))" using assms(2,3) by auto
  with assms(1) show ?thesis by (cases "remdups (filter P (map f xs))") auto
qed

lemma partition_values_clean:
  assumes "fst (partition_values O' p b ob grouped committed monotonic) = []"
  defines "d \<equiv> snd (partition_values O' p b ob grouped committed monotonic)"
  shows "set (map fst d) = set (partition_names (ep_partition_count p))"
    and "(q, s) \<in> set d \<Longrightarrow> length (sr_values s) = ep_sample_count p \<and> (\<forall>v \<in> set (sr_values s). dval v \<ge> 0)"
proof -
  let ?iqs = "labelled_items ob"
  have d: "d = collect_series O' p b committed monotonic ?iqs"
    by (simp add: d_def partition_values_def Let_def)
  have items: "partition_item_issues O' p b grouped committed monotonic i q = []" if "(i, q) \<in> set ?iqs" for i q
    using assms(1) that by (auto simp: partition_values_def Let_def set_labelled_items)
  then have parse: "fst (parse_partition_series O' p b i committed monotonic) = []" if "(i, q) \<in> set ?iqs" for i q
    using that by (fastforce simp: partition_item_issues_def Let_def)
  have family: "family_issues ?iqs d = []"
    using assms(1) by (simp add: partition_values_def Let_def d)
  show "length (sr_values s) = ep_sample_count p \<and> (\<forall>v \<in> set (sr_values s). dval v \<ge> 0)" if "(q, s) \<in> set d"
  proof -
    from that d obtain i where i: "(i, q) \<in> set ?iqs"
      "snd (parse_partition_series O' p b i committed monotonic) = Some s"
      using collect_series_sound by metis
    with parse_partition_series_clean [OF parse [OF i(1)]] parse_partition_series_length show ?thesis
      by (metis option.inject)
  qed
  have keys: "set (map fst d) = set (map snd ?iqs)"
  proof
    show "set (map fst d) \<subseteq> set (map snd ?iqs)"
      using collect_series_sound unfolding d by force
    show "set (map snd ?iqs) \<subseteq> set (map fst d)"
    proof
      fix q assume "q \<in> set (map snd ?iqs)"
      then obtain i where iq: "(i, q) \<in> set ?iqs" by auto
      obtain s where "snd (parse_partition_series O' p b i committed monotonic) = Some s"
        using parse_partition_series_clean [OF parse [OF iq]] by blast
      with iq show "q \<in> set (map fst d)" unfolding d by (rule collect_series_complete)
    qed
  qed
  have "?iqs \<noteq> []" using family by (auto simp: family_issues_def Let_def several_def)
  then obtain i q where iq: "(i, q) \<in> set ?iqs" by (cases ?iqs) auto
  let ?f = "\<lambda>i. sort (cv_expected (it_coverage i))"
  have cover: "cv_expected (it_coverage i) \<noteq> []" "set (cv_expected (it_coverage i)) = set (partition_names (ep_partition_count p))"
    using items [OF iq] by (auto simp: partition_item_issues_def Let_def coverage_mismatch_def)
  have "?f i \<noteq> []" using cover(1) by (metis set_empty set_sort)
  moreover have "length (remdups (filter (\<lambda>e. e \<noteq> []) (map ?f (map fst ?iqs)))) \<le> 1"
    using family by (auto simp: family_issues_def Let_def not_less)
  moreover have "i \<in> set (map fst ?iqs)" using iq by force
  ultimately have single: "remdups (filter (\<lambda>e. e \<noteq> []) (map ?f (map fst ?iqs))) = [?f i]"
    using expected_sets_single [of "\<lambda>e. e \<noteq> []" ?f "map fst ?iqs" i] by simp
  then have "set (?f i) = set (map snd ?iqs)"
    using family by (simp add: family_issues_def Let_def)
  with keys cover(2) show "set (map fst d) = set (partition_names (ep_partition_count p))" by simp
qed

section \<open>An absent backlog\<close>

definition lag_series :: "opslib \<Rightarrow> evaluation_policy \<Rightarrow> evidence_bundle \<Rightarrow> (ustr \<times> series) list" where
  "lag_series O' p b =
     snd (partition_values O' p b (observe_dependency O' PARTITION_LAG (evidence_index b)) True False False)"

definition drained :: "evaluation_policy \<Rightarrow> (ustr \<times> series) list \<Rightarrow> bool" where
  "drained p d \<longleftrightarrow>
     set (map fst d) = set (partition_names (ep_partition_count p))
     \<and> list_all (\<lambda>(q, s). length (sr_values s) = ep_sample_count p \<and> list_all (\<lambda>v. dval v = 0) (sr_values s)) d"

lemma sort_key_Nil_iff [simp]: "sort_key f xs = [] \<longleftrightarrow> xs = []"
  by (metis length_0_conv length_sort)

lemma trace_issues_Nil [simp]: "tr_issues (trace_of ob) = [] \<longleftrightarrow> ob_issues ob = []"
  by (simp add: trace_of_def Let_def)

lemma totals_zero_iff:
  assumes "\<And>q s. (q, s) \<in> set d \<Longrightarrow> length (sr_values s) = ep_sample_count p \<and> (\<forall>v \<in> set (sr_values s). dval v \<ge> 0)"
  shows "list_all (\<lambda>x. dec_eq x dec_zero) (total_lag_series p d)
    \<longleftrightarrow> list_all (\<lambda>(q, s). length (sr_values s) = ep_sample_count p \<and> list_all (\<lambda>v. dval v = 0) (sr_values s)) d"
proof -
  have nonneg: "\<forall>x \<in> set (map (\<lambda>s. sr_values s ! k) (map snd d)). dval x \<ge> 0" if "k < ep_sample_count p" for k
  proof
    fix x assume "x \<in> set (map (\<lambda>s. sr_values s ! k) (map snd d))"
    then obtain q s where qs: "(q, s) \<in> set d" "x = sr_values s ! k" by auto
    with assms [OF qs(1)] that show "dval x \<ge> 0" by simp
  qed
  have "list_all (\<lambda>x. dec_eq x dec_zero) (total_lag_series p d)
      \<longleftrightarrow> (\<forall>k < ep_sample_count p. dval (dec_sum (map (\<lambda>s. sr_values s ! k) (map snd d))) = 0)"
    by (auto simp: total_lag_series_def list_all_iff dec_eq_dval)
  also have "\<dots> \<longleftrightarrow> (\<forall>k < ep_sample_count p. \<forall>x \<in> set (map (\<lambda>s. sr_values s ! k) (map snd d)). dval x = 0)"
    using dec_sum_zero [OF nonneg] by (simp only: cong: conj_cong imp_cong)
  also have "\<dots> \<longleftrightarrow> (\<forall>k < ep_sample_count p. \<forall>(q, s) \<in> set d. dval (sr_values s ! k) = 0)"
    by (force split: prod.splits)
  also have "\<dots> \<longleftrightarrow> (\<forall>(q, s) \<in> set d. \<forall>k < length (sr_values s). dval (sr_values s ! k) = 0)"
    using assms by fastforce
  also have "\<dots> \<longleftrightarrow> (\<forall>(q, s) \<in> set d. length (sr_values s) = ep_sample_count p \<and> list_all (\<lambda>v. dval v = 0) (sr_values s))"
    using assms by (fastforce simp: list_all_length)
  finally show ?thesis by (auto simp: list_all_iff)
qed

text \<open>
  C14: One bundle never shows backlog pressure; it shows its absence exactly when no check raised
  an issue about the required evidence and every one of the expected partitions has the full
  window of samples, all of them zero.
\<close>

theorem backlog_absent_iff_drained:
  "cr_state (evaluate_core_backlog O' p b (evidence_index b)) =
     (if list_all (\<lambda>t. tr_issues t = []) (cr_required (evaluate_core_backlog O' p b (evidence_index b)))
         \<and> drained p (lag_series O' p b)
      then Absent else Unknown)"
proof -
  let ?ob = "\<lambda>s. observe_dependency O' s (evidence_index b)"
  obtain i0 ends where e: "partition_values O' p b (?ob END_OFFSET) False False True = (i0, ends)" by force
  obtain i1 comm where c: "partition_values O' p b (?ob COMMITTED_OFFSET) True True True = (i1, comm)" by force
  obtain i2 lags where l: "partition_values O' p b (?ob PARTITION_LAG) True False False = (i2, lags)" by force
  have lags: "lag_series O' p b = lags" by (simp add: lag_series_def l)
  let ?req = "[add_issues (?ob END_OFFSET) (i0 @ end_cross_issues ends comm lags),
               add_issues (?ob COMMITTED_OFFSET) i1,
               add_issues (?ob PARTITION_LAG) (i2 @ lag_cross_issues ends comm lags)]"
  let ?clean = "list_all (\<lambda>ob. ob_issues ob = []) ?req"
  have result: "cr_state (evaluate_core_backlog O' p b (evidence_index b))
      = (if ?clean \<and> list_all (\<lambda>x. dec_eq x dec_zero) (total_lag_series p lags) then Absent else Unknown)"
    "map tr_issues (cr_required (evaluate_core_backlog O' p b (evidence_index b))) = map tr_issues (map trace_of ?req)"
    unfolding evaluate_core_backlog_def condition_observations_def Let_def
    by (auto simp: e c l required_spec_required add_issues_Nil_iff)
  have "list_all (\<lambda>t. tr_issues t = []) (cr_required (evaluate_core_backlog O' p b (evidence_index b)))
      \<longleftrightarrow> list_all (\<lambda>is. is = []) (map tr_issues (cr_required (evaluate_core_backlog O' p b (evidence_index b))))"
    by (simp add: list.pred_map comp_def)
  also have "\<dots> \<longleftrightarrow> ?clean" unfolding result(2) by simp
  finally have clean: "list_all (\<lambda>t. tr_issues t = []) (cr_required (evaluate_core_backlog O' p b (evidence_index b)))
      \<longleftrightarrow> ?clean" .
  have "list_all (\<lambda>x. dec_eq x dec_zero) (total_lag_series p lags) \<longleftrightarrow> drained p lags" if "?clean"
  proof -
    have "fst (partition_values O' p b (?ob PARTITION_LAG) True False False) = []"
      using that by (simp add: l add_issues_Nil_iff)
    from partition_values_clean [OF this] totals_zero_iff [of lags p]
    show ?thesis by (simp add: l drained_def)
  qed
  then show ?thesis unfolding clean result(1) lags by auto
qed

section \<open>A degraded database\<close>

definition measured_postgres :: "opslib \<Rightarrow> (ustr \<Rightarrow> item list) \<Rightarrow> postgres_view option" where
  "measured_postgres O' index =
     fst (snd (snd (db_readings O' (observe_dependency O' APPLICATION_READINESS index)
                                   (observe_dependency O' POSTGRES_RUNTIME index))))"

definition measured_degradations :: "evaluation_policy \<Rightarrow> postgres_view \<Rightarrow> ustr list" where
  "measured_degradations p v = map fst (filter snd (degradations p v))"

lemma no_contradiction_reasons:
  assumes "db_contradiction O' p ro po v status rs = None"
  shows "set (postgres_reasons rs) = set (measured_degradations p v)" "pg_ha v = Some True"
proof -
  have known: "set (postgres_reasons rs) \<subseteq> set (map fst (degradations p v))"
    and none: "conflicts p v rs = []" and ha: "pg_ha v = Some True"
    using assms by (auto simp: db_contradiction_def Let_def filter_empty_conv split: if_splits)
  from none have "\<forall>(reason, seen) \<in> set (degradations p v). seen = (reason \<in> set (postgres_reasons rs))"
    by (auto simp: conflicts_def filter_empty_conv)
  with known show "set (postgres_reasons rs) = set (measured_degradations p v)"
    by (force simp: measured_degradations_def)
  show "pg_ha v = Some True" by (rule ha)
qed

text \<open>
  A database counts as degraded, or as not degraded, only from measured values in HA mode:
  the reasons of a degraded result are exactly the guardrails the measurement violates, and an
  absent degradation means that none is violated.
\<close>

theorem database_degraded_iff_guardrail_violated:
  "case cr_state (evaluate_db_degraded O' p index) of
     Unknown \<Rightarrow> True
   | st \<Rightarrow> (\<exists>v. measured_postgres O' index = Some v \<and> pg_ha v = Some True
              \<and> (st = Present \<longleftrightarrow> measured_degradations p v \<noteq> [])
              \<and> set (cr_reasons (evaluate_db_degraded O' p index)) =
                  (if st = Present
                   then (\<lambda>r. u ''APPLICATION_READINESS_'' @ upper_of O' r) ` set (measured_degradations p v)
                   else {u ''NO_POSTGRES_DEGRADATION_REASON''}))"
proof -
  let ?ro = "observe_dependency O' APPLICATION_READINESS index"
  let ?po = "observe_dependency O' POSTGRES_RUNTIME index"
  obtain ri gi view status reasons where r: "db_readings O' ?ro ?po = (ri, gi, view, status, reasons)"
    by (metis prod_cases5)
  let ?v = "case view of None \<Rightarrow> no_postgres | Some w \<Rightarrow> w"
  let ?c = "db_contradiction O' p ?ro ?po ?v status (the reasons)"
  let ?r = "evaluate_db_degraded O' p index"
  show ?thesis
  proof (cases "list_ex blocking [add_issues ?ro ri, add_issues ?po gi] \<or> ?c \<noteq> None")
    case True
    then have "cr_state ?r = Unknown"
      unfolding evaluate_db_degraded_def condition_observations_def Let_def
      by (auto simp: r split: sum.splits)
    then show ?thesis by simp
  next
    case False
    then have none: "?c = None" by simp
    note same = no_contradiction_reasons [OF none]
    have "postgres_reasons (the reasons) = [] \<longleftrightarrow> measured_degradations p ?v = []"
      using same(1) by (metis set_empty)
    moreover obtain w where w: "view = Some w" using same(2) by (cases view) (simp_all add: no_postgres_def)
    moreover have "?r = make_result Db_degraded (if postgres_reasons (the reasons) \<noteq> [] then Present else Absent)
        (if postgres_reasons (the reasons) \<noteq> []
         then map (\<lambda>r. u ''APPLICATION_READINESS_'' @ upper_of O' r) (sorted_set (postgres_reasons (the reasons)))
         else [u ''NO_POSTGRES_DEGRADATION_REASON''])
        [add_issues ?ro ri, add_issues ?po gi] (map (\<lambda>s. observe_dependency O' s index) (optional_specs Db_degraded))
        (db_facts p view status reasons)"
      unfolding evaluate_db_degraded_def condition_observations_def Let_def
      using False by (simp add: r none del: blocking_add_issues optional_specs.simps)
    ultimately show ?thesis using same by (simp add: measured_postgres_def r w)
  qed
qed

section \<open>The order of the evidence\<close>

lemma sort_key_by_id:
  assumes "distinct (map it_id xs)" "mset xs = mset ys"
  shows "sort_key it_id xs = sort_key it_id ys"
proof (rule map_sorted_distinct_set_unique [of it_id])
  have "distinct (map it_id ys)" using assms by (metis mset_eq_imp_distinct_iff mset_map)
  then show "distinct (map it_id (sort_key it_id xs))" "distinct (map it_id (sort_key it_id ys))"
    using assms(1) by (simp_all add: distinct_map)
  show "inj_on it_id (set (sort_key it_id xs) \<union> set (sort_key it_id ys))"
    using assms mset_eq_setD by (fastforce simp: distinct_map)
qed (use assms mset_eq_setD in auto)

lemma evidence_index_order:
  assumes "distinct (map it_id (bu_evidence b))" "mset es = mset (bu_evidence b)"
  shows "evidence_index (b\<lparr>bu_evidence := es\<rparr>) = evidence_index b"
proof
  fix name
  have "distinct (map it_id (filter (\<lambda>i. item_name i = name) (bu_evidence b)))"
    using assms(1) by (simp add: distinct_map inj_on_def)
  with assms(2) show "evidence_index (b\<lparr>bu_evidence := es\<rparr>) name = evidence_index b name"
    by (simp add: evidence_index_def) (metis mset_filter sort_key_by_id)
qed

lemma partition_values_evidence:
  "partition_values O' p (b\<lparr>bu_evidence := es\<rparr>) = partition_values O' p b"
proof -
  let ?b = "b\<lparr>bu_evidence := es\<rparr>"
  have "series_issues O' p ?b = series_issues O' p b"
    by (intro ext) (simp add: series_issues_def Let_def)
  then have parse: "parse_partition_series O' p ?b = parse_partition_series O' p b"
    by (intro ext) (simp only: parse_partition_series_def)
  then have "partition_item_issues O' p ?b = partition_item_issues O' p b"
    "collect_series O' p ?b = collect_series O' p b"
    by (intro ext, simp add: partition_item_issues_def Let_def)
      (intro ext, simp only: collect_series_def parse)
  then show ?thesis by (intro ext) (simp only: partition_values_def)
qed

text \<open>
  C39: The conditions of a bundle do not depend on the order in which its evidence is listed.
\<close>

theorem conditions_ignore_evidence_order:
  assumes "distinct (map it_id (bu_evidence b))" "mset es = mset (bu_evidence b)"
  shows "evaluate_conditions O' p (b\<lparr>bu_evidence := es\<rparr>) = evaluate_conditions O' p b"
  unfolding evaluate_conditions_def Let_def evidence_index_order [OF assms]
  by (simp add: evaluate_core_backlog_def evaluate_partition_concentration_def partition_values_evidence)

section \<open>A concrete bundle\<close>

definition sample_stamp :: "int \<Rightarrow> stamp" where
  "sample_stamp s = \<lparr>micros = 1000000 * s, utc_offset = Some 0\<rparr>"

definition sample_item :: "string \<Rightarrow> string \<Rightarrow> json \<Rightarrow> item" where
  "sample_item eid name value = \<lparr>it_id = u eid, it_status = Ev_ok, it_source = u ''kubernetes'',
     it_tool = u ''tool'', it_source_ts = Some (sample_stamp 100), it_collected = sample_stamp 101,
     it_freshness = \<lparr>fr_status = Fresh, fr_age = Some (Fin 2), fr_max_age = Some (Fin 30), fr_basis = u ''basis''\<rparr>,
     it_metric = \<lparr>me_name = u name, me_value = value, me_unit = None, me_window = None, me_aggregation = None,
       me_sample_count = None\<rparr>,
     it_labels = [], it_coverage = \<lparr>cv_expected_count = None, cv_observed_count = None, cv_complete = None,
       cv_expected = [], cv_observed = [], cv_missing = [], cv_extra = [], cv_notes = None\<rparr>,
     it_semantic = \<lparr>se_type = u ''type'', se_notes = u ''notes'', se_commit_rate = None, se_flags = []\<rparr>,
     it_raw_ref = None, it_raw_sha = None, it_error = None\<rparr>"

definition sample_bundle :: evidence_bundle where
  "sample_bundle = \<lparr>bu_id = u ''b1'', bu_incident = u ''inc-1'', bu_profile = u ''local-ha'',
     bu_scope = \<lparr>sc_context = Some (u ''kind-messaging-ha''), sc_namespace = u ''messaging-app'',
       sc_topic = u ''message-ingress'', sc_group = u ''message-worker''\<rparr>,
     bu_context = \<lparr>bc_source_sha = None, bc_source_dirty = None, bc_tree_sha = None, bc_desired_image = None,
       bc_pod_images = [], bc_argocd_revision = None, bc_collector_version = u ''v1'',
       bc_registry_version = u ''v1'', bc_policy_version = u ''local-ha.evidence.v1''\<rparr>,
     bu_collection = \<lparr>co_started = sample_stamp 99, co_completed = sample_stamp 102, co_status = Coll_complete\<rparr>,
     bu_evidence = [sample_item ''e1'' ''kafka_consumergroup_lag'' (JInt 1),
                    sample_item ''e2'' ''kafka_consumergroup_lag'' (JInt 2)]\<rparr>"

theorem conditions_ignore_evidence_order_witness:
  "evaluate_conditions sample_opslib local_ha_policy
     (sample_bundle\<lparr>bu_evidence := [sample_item ''e2'' ''kafka_consumergroup_lag'' (JInt 2),
                                    sample_item ''e1'' ''kafka_consumergroup_lag'' (JInt 1)]\<rparr>)
   = evaluate_conditions sample_opslib local_ha_policy sample_bundle"
  by (rule conditions_ignore_evidence_order) (simp_all add: sample_bundle_def sample_item_def add_mset_commute)

end
