(* ===== verification/Calibration.thy ===== *)
theory Calibration
  imports Backlog_Facts
begin

text \<open>
  Measurements of one bundle (\<open>src/ops_agent/calibration.py\<close>): offset deltas, rates and lag over
  the range samples of each partition, the anomalies that make them unusable, the database
  stage histogram, and the context of the worker, the scaler and PostgreSQL.
\<close>

section \<open>Series of one item\<close>

fun read_samples :: "opslib \<Rightarrow> json list \<Rightarrow> (dec \<times> dec) list option" where
  "read_samples O' [] = Some []"
| "read_samples O' (s # ss) =
     (case s of
        JObj d \<Rightarrow>
          if \<not> has_key d ''timestamp'' \<or> \<not> has_key d ''value'' then None
          else (case (to_decimal O' (get_none d ''timestamp''), to_decimal O' (get_none d ''value'')) of
                  (Some t, Some v) \<Rightarrow> if dec_finite t \<and> dec_finite v then map_option ((#) (t, v)) (read_samples O' ss)
                                       else None
                | _ \<Rightarrow> None)
      | _ \<Rightarrow> None)"

definition item_series :: "opslib \<Rightarrow> item \<Rightarrow> (dec list \<times> dec list) option" where
  "item_series O' i =
     (if it_status i \<noteq> Ev_ok \<or> fr_status (it_freshness i) \<noteq> Fresh then None
      else case me_value (it_metric i) of
             JArr ss \<Rightarrow>
               (case read_samples O' ss of
                  None \<Rightarrow> None
                | Some tvs \<Rightarrow>
                    (let ts = map fst tvs
                     in if length ts < 2 \<or> \<not> dec_less (hd ts) (last ts) then None else Some (ts, map snd tvs)))
           | _ \<Rightarrow> None)"

type_synonym family = "(ustr \<times> dec list \<times> dec list) list"

definition partition_family :: "opslib \<Rightarrow> evidence_bundle \<Rightarrow> string \<Rightarrow> family" where
  "partition_family O' b name =
     foldl (\<lambda>d i. case (label i ''partition'', item_series O' i) of
                    (Some q, Some s) \<Rightarrow> if q \<in> set (map fst d) then d else d @ [(q, s)]
                  | _ \<Rightarrow> d) [] (items_of b name)"

definition opt_number :: "dec option \<Rightarrow> json" where
  "opt_number x = jopt json_number x"

section \<open>Histogram of the database stage\<close>

record histogram =
  hi_count_delta :: dec
  hi_sum_delta :: dec
  hi_buckets :: "(dec \<times> dec) list"
  hi_counts :: nat
  hi_sums :: nat
  hi_decrease :: bool
  hi_sources :: "ustr list"

definition empty_histogram :: histogram where
  "empty_histogram = \<lparr>hi_count_delta = dec_zero, hi_sum_delta = dec_zero, hi_buckets = [], hi_counts = 0,
     hi_sums = 0, hi_decrease = False, hi_sources = []\<rparr>"

definition ends_with :: "ustr \<Rightarrow> ustr \<Rightarrow> bool" where
  "ends_with p s = starts_with (rev p) (rev s)"

text \<open>A bound that is no finite decimal is skipped.\<close>

fun add_bucket :: "dec \<Rightarrow> dec \<Rightarrow> (dec \<times> dec) list \<Rightarrow> (dec \<times> dec) list" where
  "add_bucket le delta [] = [(le, dec_add dec_zero delta)]"
| "add_bucket le delta ((k, v) # bs) = (if dec_eq k le then (k, dec_add v delta) # bs else (k, v) # add_bucket le delta bs)"

definition stage_item :: "item \<Rightarrow> bool" where
  "stage_item i \<longleftrightarrow>
     item_name i = u ''messaging_worker_stage_latency_seconds''
     \<or> starts_with (u ''messaging_worker_stage_latency_seconds_'') (item_name i)
        \<and> label i ''stage'' = Some (u ''db_persist'')"

definition histogram_step :: "opslib \<Rightarrow> histogram \<Rightarrow> item \<Rightarrow> histogram" where
  "histogram_step O' h i =
     (case item_series O' i of
        None \<Rightarrow> h
      | Some (ts, vs) \<Rightarrow>
          (let delta = dec_sub (last vs) (hd vs)
           in if dec_less delta dec_zero then h\<lparr>hi_decrease := True\<rparr>
              else let h' = (case it_source_ts i of None \<Rightarrow> h | Some t \<Rightarrow> h\<lparr>hi_sources := hi_sources h @ [isoformat t]\<rparr>)
                   in if ends_with (u ''_count'') (item_name i)
                      then h'\<lparr>hi_count_delta := dec_add (hi_count_delta h') delta, hi_counts := Suc (hi_counts h')\<rparr>
                      else if ends_with (u ''_sum'') (item_name i)
                      then h'\<lparr>hi_sum_delta := dec_add (hi_sum_delta h') delta, hi_sums := Suc (hi_sums h')\<rparr>
                      else if ends_with (u ''_bucket'') (item_name i)
                      then (case label i ''le'' of
                              None \<Rightarrow> h'
                            | Some le \<Rightarrow>
                                if le = u ''+Inf'' then h'
                                else (case parse_decimal le of
                                        Some (Dec c e) \<Rightarrow> h'\<lparr>hi_buckets := add_bucket (Dec c e) delta (hi_buckets h')\<rparr>
                                      | _ \<Rightarrow> h'))
                      else h'))"

definition dec_sorted :: "(dec \<times> dec) list \<Rightarrow> (dec \<times> dec) list" where
  "dec_sorted bs = sort_key (\<lambda>kv. dval (fst kv)) bs"

definition p95_upper_bound :: "histogram \<Rightarrow> dec option" where
  "p95_upper_bound h =
     (if dec_less dec_zero (hi_count_delta h) \<and> hi_buckets h \<noteq> []
      then let target = dec_mul (hi_count_delta h) (Dec 95 (-2))
           in map_option fst (List.find (\<lambda>kv. \<not> dec_less (snd kv) target) (dec_sorted (hi_buckets h)))
      else None)"

definition status_counts :: "item list \<Rightarrow> obj" where
  "status_counts is =
     concat (map (\<lambda>s. let n = length (filter (\<lambda>i. it_status i = s) is)
                       in if n > 0 then [(evidence_value s, JInt (int n))] else [])
       [Ev_ok, Ev_missing, Ev_error, Ev_not_applicable, Ev_unavailable])"

definition freshness_counts :: "item list \<Rightarrow> obj" where
  "freshness_counts is =
     concat (map (\<lambda>s. let n = length (filter (\<lambda>i. fr_status (it_freshness i) = s) is)
                       in if n > 0 then [(freshness_value s, JInt (int n))] else [])
       [Fresh, Stale, Fresh_unknown, Fresh_not_applicable])"

definition histogram_status :: "item list \<Rightarrow> histogram \<Rightarrow> ustr" where
  "histogram_status is h =
     (if hi_counts h = 0 \<and> hi_sums h = 0
      then (if list_ex (\<lambda>i. it_status i = Ev_ok) is then u ''UNKNOWN''
            else if list_ex (\<lambda>i. it_status i = Ev_error) is then u ''ERROR'' else u ''MISSING'')
      else if hi_counts h > 0 \<and> hi_sums h > 0 \<and> \<not> hi_decrease h then u ''OK'' else u ''PARTIAL'')"

definition histogram_stage_summary :: "opslib \<Rightarrow> evidence_bundle \<Rightarrow> json" where
  "histogram_stage_summary O' b =
     (let is = filter stage_item (bu_evidence b); h = foldl (histogram_step O') empty_histogram is
      in JObj
        [(u ''status'', JStr (histogram_status is h)),
         (u ''semantic'', JStr (u ''_persist_message_with_cursor stage only; transaction commit excluded'')),
         (u ''observation_count_delta'', if hi_counts h > 0 then json_number (hi_count_delta h) else JNull),
         (u ''sum_seconds_delta'', if hi_sums h > 0 then json_number (hi_sum_delta h) else JNull),
         (u ''mean_seconds'', if dec_less dec_zero (hi_count_delta h)
            then JFloat (ratio_float (hi_sum_delta h) (hi_count_delta h)) else JNull),
         (u ''p95_finite_bucket_upper_bound_seconds'', opt_number (p95_upper_bound h)),
         (u ''count_series'', JInt (int (hi_counts h))), (u ''sum_series'', JInt (int (hi_sums h))),
         (u ''counter_decrease'', JBool (hi_decrease h)),
         (u ''source_timestamps'', jstrs (sorted_set (hi_sources h))),
         (u ''matching_evidence_items'', JInt (int (length is))),
         (u ''evidence_status_counts'', JObj (status_counts is)),
         (u ''freshness_status_counts'', JObj (freshness_counts is))])"

section \<open>Offsets, rates and lag\<close>

text \<open>\<open>int(s)\<close> of a text of ASCII digits; single underscores may separate digits.\<close>

definition py_int_text :: "ustr \<Rightarrow> int option" where
  "py_int_text s =
     (let t = strip s; neg = (take 1 t = [45]); ds = (if take 1 t = [45] \<or> take 1 t = [43] then tl t else t);
          groups = split_on 95 ds
      in if list_all (\<lambda>g. g \<noteq> [] \<and> list_all is_digit g) groups
         then Some (if neg then - int (dec_val (concat groups)) else int (dec_val (concat groups))) else None)"

definition sort_partitions :: "ustr list \<Rightarrow> ustr list" where
  "sort_partitions qs = sort_key (\<lambda>q. the (py_int_text q)) (sorted_set qs)"

record partition_summary =
  ps_end :: dec
  ps_committed :: dec
  ps_lag :: dec
  ps_end_delta :: dec
  ps_committed_delta :: dec
  ps_lag_delta :: dec
  ps_window :: dec
  ps_lag_first :: dec

definition same_values :: "dec list \<Rightarrow> dec list \<Rightarrow> bool" where
  "same_values xs ys \<longleftrightarrow> map dval xs = map dval ys"

definition partition_anomaly :: "ustr \<Rightarrow> string \<Rightarrow> ustr" where
  "partition_anomaly q what = u ''partition_'' @ q @ u what"

definition value_anomalies :: "ustr \<Rightarrow> dec list \<Rightarrow> dec list \<Rightarrow> dec list \<Rightarrow> ustr list" where
  "value_anomalies q es cs ls =
     (let decreases = any_pair (\<lambda>earlier later. dec_less later earlier); negative = list_ex (\<lambda>v. dec_less v dec_zero)
      in emit (decreases es) (partition_anomaly q ''_end_offset_decrease'')
         @ emit (decreases cs) (partition_anomaly q ''_committed_offset_decrease'')
         @ emit (list_ex (\<lambda>v. dec_eq v (dec_of_int (-1))) cs) (partition_anomaly q ''_committed_uninitialized'')
         @ emit (negative es) (partition_anomaly q ''_negative_end_offset'')
         @ emit (negative cs) (partition_anomaly q ''_negative_committed_offset'')
         @ emit (negative ls) (partition_anomaly q ''_negative_lag'')
         @ emit (list_ex (\<lambda>(e, c, l). \<not> dec_eq l (dec_sub e c)) (zip es (zip cs ls)))
             (partition_anomaly q ''_offset_lag_arithmetic_mismatch''))"

text \<open>One partition: its anomalies and, when its three series share a grid, its measurement.\<close>

definition summarize_partition ::
  "family \<Rightarrow> family \<Rightarrow> family \<Rightarrow> ustr \<Rightarrow> ustr list \<times> partition_summary option" where
  "summarize_partition ends comm lags q =
     (case (map_of ends q, map_of comm q, map_of lags q) of
        (Some (et, ev), Some (ct, cv), Some (lt, lv)) \<Rightarrow>
          if \<not> (same_values et ct \<and> same_values ct lt) then ([partition_anomaly q ''_grid_mismatch''], None)
          else (value_anomalies q ev cv lv,
                Some \<lparr>ps_end = last ev, ps_committed = last cv, ps_lag = last lv,
                      ps_end_delta = dec_sub (last ev) (hd ev), ps_committed_delta = dec_sub (last cv) (hd cv),
                      ps_lag_delta = dec_sub (last lv) (hd lv), ps_window = dec_sub (last et) (hd et),
                      ps_lag_first = hd lv\<rparr>)
      | _ \<Rightarrow> ([partition_anomaly q ''_family_missing''], None))"

record kafka_summary =
  ks_window :: "dec option"
  ks_produce :: "pyfloat option"
  ks_committed :: "pyfloat option"
  ks_total :: "dec option"
  ks_slope :: "pyfloat option"
  ks_partitions :: "(ustr \<times> partition_summary) list"
  ks_anomalies :: "ustr list"

definition summarize_kafka :: "opslib \<Rightarrow> evidence_bundle \<Rightarrow> exn + kafka_summary" where
  "summarize_kafka O' b =
     (let ends = partition_family O' b ''kafka_topic_partition_current_offset'';
          comm = partition_family O' b ''kafka_consumergroup_current_offset'';
          lags = partition_family O' b ''kafka_consumergroup_lag'';
          names = map fst ends @ map fst comm @ map fst lags
      in if list_ex (\<lambda>q. py_int_text q = None) names then Inl (value_error ''invalid literal for int()'')
         else let qs = sort_partitions names; parts = map (summarize_partition ends comm lags) qs;
                  per = concat (map (\<lambda>(q, _, r). case r of None \<Rightarrow> [] | Some s \<Rightarrow> [(q, s)]) (zip qs parts));
                  total = (\<lambda>f. dec_sum (map (\<lambda>(q, s). f s) per));
                  windows = remdups (map (\<lambda>(q, s). dval (ps_window s)) per);
                  window = (if length windows = 1 then Some (ps_window (snd (hd per))) else None);
                  anomalies = concat (map fst parts) @ emit (length windows \<noteq> 1) (u ''kafka_window_mismatch'')
                    @ emit (bc_policy_version (bu_context b) = u ''local-ha.evidence.v1'' \<and> length per \<noteq> 8)
                        (u ''partition_coverage_incomplete'');
                  rate = (\<lambda>x. case window of
                             Some w \<Rightarrow> if dec_less dec_zero w \<and> anomalies = [] then Some (ratio_float x w) else None
                           | None \<Rightarrow> None)
              in Inr \<lparr>ks_window = window, ks_produce = rate (total ps_end_delta),
                      ks_committed = rate (total ps_committed_delta),
                      ks_total = (if anomalies = [] then Some (total ps_lag) else None),
                      ks_slope = rate (dec_sub (total ps_lag) (total ps_lag_first)), ks_partitions = per,
                      ks_anomalies = sorted_set anomalies\<rparr>)"

section \<open>Context of the worker, the scaler and PostgreSQL\<close>

definition sole_mapping :: "evidence_bundle \<Rightarrow> string \<Rightarrow> obj option" where
  "sole_mapping b name =
     (case items_of b name of
        [i] \<Rightarrow> if it_status i = Ev_ok then (case me_value (it_metric i) of JObj d \<Rightarrow> Some d | _ \<Rightarrow> None) else None
      | _ \<Rightarrow> None)"

definition pick :: "obj \<Rightarrow> string list \<Rightarrow> obj" where
  "pick d ks = map (\<lambda>k. (u k, get_none d k)) ks"

definition keda_conditions :: "opslib \<Rightarrow> obj \<Rightarrow> exn + obj" where
  "keda_conditions O' scaled =
     (case get_or scaled ''conditions'' (JArr []) of
        JArr cs \<Rightarrow> Inr (foldl (\<lambda>d c. case c of
            JObj x \<Rightarrow> if get_none x ''type'' = JNull then d
                      else AList.update (py_str O' (get_none x ''type'')) (JStr (py_str O' (get_none x ''status''))) d
          | _ \<Rightarrow> d) [] cs)
      | JStr _ \<Rightarrow> Inr []
      | JObj _ \<Rightarrow> Inr []
      | _ \<Rightarrow> Inl TypeError)"

record bundle_summary =
  su_kafka :: kafka_summary
  su_worker :: json
  su_keda :: json
  su_readiness :: json
  su_postgres :: json
  su_stage :: json

definition summarize_bundle :: "opslib \<Rightarrow> evidence_bundle \<Rightarrow> exn + bundle_summary" where
  "summarize_bundle O' b =
     rbind (summarize_kafka O' b) (\<lambda>kafka.
      let deployment = (case sole_mapping b ''kubernetes_worker_deployment_observation'' of None \<Rightarrow> [] | Some d \<Rightarrow> d);
          scaled = (case sole_mapping b ''kubernetes_worker_scaled_object_observation'' of None \<Rightarrow> [] | Some d \<Rightarrow> d)
      in rbind (keda_conditions O' scaled) (\<lambda>conds.
           Inr \<lparr>su_kafka = kafka,
                su_worker = JObj (pick deployment [''desired_replicas'', ''current_replicas'', ''ready_replicas'',
                  ''available_replicas'', ''observed_generation'']),
                su_keda = JObj (pick scaled [''scale_target_name'', ''min_replicas'', ''max_replicas'',
                  ''polling_interval_seconds'', ''cooldown_period_seconds''] @ [(u ''conditions'', JObj conds)]),
                su_readiness = (case sole_mapping b ''application_readiness_observation'' of
                  None \<Rightarrow> JNull | Some d \<Rightarrow> get_none d ''body_status''),
                su_postgres = jopt JObj (sole_mapping b ''application_postgres_runtime_observation''),
                su_stage = histogram_stage_summary O' b\<rparr>))"

end
