(* ===== verification/Sequence.thy ===== *)
theory Sequence
  imports Calibration
begin

text \<open>
  Activation of backlog pressure over an ordered sequence of bundles
  (\<open>src/ops_agent/sequence_evaluator.py\<close>, \<open>src/ops_agent/sequence_models.py\<close>): every bundle is
  captured with its scope, source identity and measurement, and the core condition is present
  when three consecutive usable captures stay above the calibrated floors with growing lag.
\<close>

section \<open>Policy\<close>

record sequence_policy = evaluation_policy +
  sp_count :: nat
  sp_lag_floor :: int
  sp_slope_floor :: pyfloat

definition local_ha_sequence_policy :: sequence_policy where
  "local_ha_sequence_policy = \<lparr>ep_profile = u ''local-ha'', ep_source_policy = u ''local-ha.evidence.v1'',
     ep_version = u ''local-ha.conditions.v2'', ep_context = u ''kind-messaging-ha'',
     ep_namespace = u ''messaging-app'', ep_topic = u ''message-ingress'', ep_group = u ''message-worker'',
     ep_partition_count = 8, ep_window_seconds = 60, ep_step_seconds = 5, ep_sample_count = 13,
     ep_skew_seconds = 1, ep_source_to_end_seconds = 5, ep_age_tolerance = float64 1 100,
     ep_worker = u ''worker'', ep_grace_seconds = 120, ep_min_ready = 2, ep_min_sync = 1,
     ep_max_delay = 1048576, sp_count = 3, sp_lag_floor = 7000, sp_slope_floor = Fin 100\<rparr>"

definition single_bundle_policy :: "sequence_policy \<Rightarrow> evaluation_policy" where
  "single_bundle_policy p = (evaluation_policy.truncate p)\<lparr>ep_version := u ''local-ha.conditions.v1''\<rparr>"

definition scope_issue_codes :: "sequence_policy \<Rightarrow> evidence_bundle \<Rightarrow> ustr list" where
  "scope_issue_codes p b =
     emit (bu_profile b \<noteq> ep_profile p) (u ''SEQUENCE_CLUSTER_PROFILE_MISMATCH'')
     @ emit (sc_context (bu_scope b) \<noteq> Some (ep_context p)) (u ''SEQUENCE_CONTEXT_MISMATCH'')
     @ emit (sc_namespace (bu_scope b) \<noteq> ep_namespace p) (u ''SEQUENCE_NAMESPACE_MISMATCH'')
     @ emit (sc_topic (bu_scope b) \<noteq> ep_topic p) (u ''SEQUENCE_TOPIC_MISMATCH'')
     @ emit (sc_group (bu_scope b) \<noteq> ep_group p) (u ''SEQUENCE_CONSUMER_GROUP_MISMATCH'')
     @ emit (bc_policy_version (bu_context b) \<noteq> ep_source_policy p) (u ''SEQUENCE_SOURCE_POLICY_MISMATCH'')"

section \<open>Source identity\<close>

datatype endpoint_issue = Endpoint_missing | Endpoint_unusable | Endpoint_invalid

text \<open>The recorded endpoint identity of a collector source, recomputed from its configuration.\<close>

definition recorded_endpoint :: "opslib \<Rightarrow> obj \<Rightarrow> endpoint_issue + ustr" where
  "recorded_endpoint O' d =
     (if \<not> has_key d ''base_url'' \<or> \<not> has_key d ''configuration_source'' then Inl Endpoint_invalid
      else case endpoint_provenance O' (py_str O' (get_none d ''base_url''))
                  (if get_none d ''host_header'' = JNull then None else Some (py_str O' (get_none d ''host_header'')))
                  (py_str O' (get_none d ''configuration_source'')) of
             Inl _ \<Rightarrow> Inl Endpoint_invalid
           | Inr e \<Rightarrow>
               if get_none d ''identity_version'' = JStr endpoint_identity_version
                  \<and> get_none d ''identity_sha256'' = JStr (ei_sha256 e)
               then Inr (ei_sha256 e) else Inl Endpoint_invalid)"

definition endpoint_identity_of :: "opslib \<Rightarrow> evidence_bundle \<Rightarrow> string \<Rightarrow> endpoint_issue + ustr" where
  "endpoint_identity_of O' b source =
     (case filter (\<lambda>i. label i ''collector_source'' = Some (u source)) (items_of b ''source_endpoint_identity'') of
        [i] \<Rightarrow>
          if it_status i = Ev_ok \<and> fr_status (it_freshness i) = Fresh
             \<and> it_source i = u ''collector_configuration'' \<and> it_tool i = u ''collector.endpoint.identity.v1''
             \<and> se_type (it_semantic i) = u ''effective_source_endpoint_identity''
          then (case me_value (it_metric i) of JObj d \<Rightarrow> recorded_endpoint O' d | _ \<Rightarrow> Inl Endpoint_unusable)
          else Inl Endpoint_unusable
      | _ \<Rightarrow> Inl Endpoint_missing)"

definition kafka_metrics :: "string list" where
  "kafka_metrics = [''kafka_topic_partition_current_offset'', ''kafka_consumergroup_current_offset'',
     ''kafka_consumergroup_lag'']"

definition kafka_items :: "evidence_bundle \<Rightarrow> item list" where
  "kafka_items b = filter (\<lambda>i. it_status i = Ev_ok) (concat (map (items_of b) kafka_metrics))"

definition exporter_identities :: "evidence_bundle \<Rightarrow> (ustr option \<times> ustr option) list" where
  "exporter_identities b = remdups (map (\<lambda>i. (label i ''job'', label i ''instance'')) (kafka_items b))"

definition sole :: "'a list \<Rightarrow> 'a option" where
  "sole xs = (case xs of [x] \<Rightarrow> Some x | _ \<Rightarrow> None)"

definition partition_set_of :: "evidence_bundle \<Rightarrow> exn + ustr list" where
  "partition_set_of b =
     (let qs = List.map_filter (\<lambda>i. label i ''partition'') (kafka_items b)
      in if list_ex (\<lambda>q. py_int_text q = None) qs then Inl (value_error ''invalid literal for int()'')
         else Inr (sort_partitions qs))"

text \<open>The one instant the Kafka series were scraped at, if there is exactly one.\<close>

definition kafka_source_timestamp :: "evidence_bundle \<Rightarrow> stamp option" where
  "kafka_source_timestamp b =
     (let ts = List.map_filter it_source_ts (kafka_items b)
      in if length (remdups (map micros ts)) = 1 then Some (hd ts) else None)"

definition condition_identity :: "opslib \<Rightarrow> evidence_bundle \<Rightarrow> ustr \<Rightarrow> ustr option \<times> ustr option \<Rightarrow> ustr list \<Rightarrow> ustr" where
  "condition_identity O' b endpoint exporter partitions =
     canonical_sha256 (py O') (JObj
       [(u ''cluster_profile'', JStr (bu_profile b)), (u ''context'', jopt JStr (sc_context (bu_scope b))),
        (u ''namespace'', JStr (sc_namespace (bu_scope b))), (u ''topic'', JStr (sc_topic (bu_scope b))),
        (u ''consumer_group'', JStr (sc_group (bu_scope b))),
        (u ''source_sha'', jopt JStr (bc_source_sha (bu_context b))),
        (u ''collector_tree_sha256'', jopt JStr (bc_tree_sha (bu_context b))),
        (u ''collector_version'', JStr (bc_collector_version (bu_context b))),
        (u ''tool_registry_version'', JStr (bc_registry_version (bu_context b))),
        (u ''source_policy_version'', JStr (bc_policy_version (bu_context b))),
        (u ''prometheus_endpoint_identity_sha256'', JStr endpoint),
        (u ''kafka_exporter_identity'', JArr [jopt JStr (fst exporter), jopt JStr (snd exporter)]),
        (u ''partition_set'', jstrs partitions)])"

fun endpoint_issue_code :: "endpoint_issue \<Rightarrow> ustr" where
  "endpoint_issue_code Endpoint_missing = u ''_ENDPOINT_IDENTITY_MISSING''"
| "endpoint_issue_code Endpoint_unusable = u ''_ENDPOINT_IDENTITY_UNUSABLE''"
| "endpoint_issue_code Endpoint_invalid = u ''_ENDPOINT_IDENTITY_INVALID''"

record identity =
  id_sha256 :: "ustr option"
  id_issues :: "ustr list"
  id_partitions :: "ustr list"
  id_timestamp :: "stamp option"

definition sequence_source_identity :: "opslib \<Rightarrow> evidence_bundle \<Rightarrow> exn + identity" where
  "sequence_source_identity O' b =
     rbind (partition_set_of b) (\<lambda>partitions.
      let endpoint = endpoint_identity_of O' b ''prometheus''; exporter = sole (exporter_identities b);
          ts = kafka_source_timestamp b;
          issues = (case endpoint of Inl i \<Rightarrow> [u ''SEQUENCE_PROMETHEUS'' @ endpoint_issue_code i] | Inr _ \<Rightarrow> [])
            @ emit (exporter = None) (u ''SEQUENCE_KAFKA_EXPORTER_IDENTITY_UNUSABLE'')
            @ emit (ts = None) (u ''SEQUENCE_KAFKA_SOURCE_TIMESTAMP_UNUSABLE'')
      in Inr \<lparr>id_sha256 = (case (endpoint, exporter) of
                 (Inr e, Some x) \<Rightarrow> if issues = [] then Some (condition_identity O' b e x partitions) else None
               | _ \<Rightarrow> None),
              id_issues = sorted_set issues, id_partitions = partitions, id_timestamp = ts\<rparr>)"

section \<open>Measurement\<close>

text \<open>
  The last usable item of each partition. \<open>family_values\<close> reads the values of a series; a series
  without samples, which the checks of the required evidence exclude, counts as invalid.
\<close>

definition measured_family :: "evidence_bundle \<Rightarrow> string \<Rightarrow> (ustr \<times> item) list" where
  "measured_family b name =
     foldl (\<lambda>d i. case label i ''partition'' of
                    Some q \<Rightarrow> if it_status i = Ev_ok then AList.update q i d else d
                  | None \<Rightarrow> d) [] (items_of b name)"

definition field_values :: "opslib \<Rightarrow> string \<Rightarrow> item \<Rightarrow> dec list option" where
  "field_values O' field i =
     (case me_value (it_metric i) of
        JArr ss \<Rightarrow>
          (let vs = map (\<lambda>s. case s of
                   JObj d \<Rightarrow> (if has_key d field then to_decimal O' (get_none d field) else None)
                 | _ \<Rightarrow> None) ss
           in if ss = [] \<or> None \<in> set vs then None else Some (map the vs))
      | _ \<Rightarrow> None)"

record measurement =
  ms_total :: int
  ms_slope :: pyfloat
  ms_produce :: pyfloat
  ms_committed :: pyfloat
  ms_consistent :: bool

record deltas =
  de_window :: "dec option"
  de_end :: dec
  de_committed :: dec
  de_lag :: dec
  de_total :: dec
  de_mismatch :: bool

definition no_deltas :: deltas where
  "no_deltas = \<lparr>de_window = None, de_end = dec_zero, de_committed = dec_zero, de_lag = dec_zero,
     de_total = dec_zero, de_mismatch = False\<rparr>"

definition delta_of :: "dec list \<Rightarrow> dec" where
  "delta_of vs = dec_sub (last vs) (hd vs)"

definition add_partition :: "dec list \<Rightarrow> dec list \<Rightarrow> dec list \<Rightarrow> dec list \<Rightarrow> deltas \<Rightarrow> deltas" where
  "add_partition ts es cs ls d =
     (let observed = delta_of ts; window = (case de_window d of None \<Rightarrow> observed | Some w \<Rightarrow> w)
      in \<lparr>de_window = Some window, de_end = dec_add (de_end d) (delta_of es),
          de_committed = dec_add (de_committed d) (delta_of cs), de_lag = dec_add (de_lag d) (delta_of ls),
          de_total = dec_add (de_total d) (last ls), de_mismatch = (de_mismatch d \<or> \<not> dec_eq observed window)\<rparr>)"

fun sum_partitions ::
  "opslib \<Rightarrow> (ustr \<times> item) list \<Rightarrow> (ustr \<times> item) list \<Rightarrow> (ustr \<times> item) list \<Rightarrow> ustr list \<Rightarrow> deltas
     \<Rightarrow> deltas option" where
  "sum_partitions O' ends comm lags [] d = Some d"
| "sum_partitions O' ends comm lags (q # qs) d =
     (case (field_values O' ''timestamp'' (the (map_of ends q)), field_values O' ''value'' (the (map_of ends q)),
            field_values O' ''value'' (the (map_of comm q)), field_values O' ''value'' (the (map_of lags q))) of
        (Some ts, Some es, Some cs, Some ls) \<Rightarrow> sum_partitions O' ends comm lags qs (add_partition ts es cs ls d)
      | _ \<Rightarrow> None)"

definition measure :: "opslib \<Rightarrow> evidence_bundle \<Rightarrow> measurement option \<times> ustr list" where
  "measure O' b =
     (let ends = measured_family b ''kafka_topic_partition_current_offset'';
          comm = measured_family b ''kafka_consumergroup_current_offset'';
          lags = measured_family b ''kafka_consumergroup_lag''; keys = (\<lambda>d. set (map fst d))
      in if ends = [] \<or> comm = [] \<or> lags = [] then (None, [u ''SEQUENCE_KAFKA_MEASUREMENT_MISSING''])
         else if keys comm \<noteq> keys ends \<or> keys lags \<noteq> keys ends
         then (None, [u ''SEQUENCE_KAFKA_PARTITION_SET_MISMATCH''])
         else case sum_partitions O' ends comm lags (sort_partitions (map fst ends)) no_deltas of
                None \<Rightarrow> (None, [u ''SEQUENCE_KAFKA_MEASUREMENT_INVALID''])
              | Some d \<Rightarrow>
                  (if de_mismatch d then (None, [u ''SEQUENCE_KAFKA_WINDOW_MISMATCH''])
                   else case de_window d of
                     None \<Rightarrow> (None, [u ''SEQUENCE_KAFKA_WINDOW_INVALID''])
                   | Some w \<Rightarrow>
                       if \<not> dec_less dec_zero w then (None, [u ''SEQUENCE_KAFKA_WINDOW_INVALID''])
                       else let consistent = dec_eq (dec_sub (de_end d) (de_committed d)) (de_lag d)
                            in (Some \<lparr>ms_total = dec_int (de_total d), ms_slope = ratio_float (de_lag d) w,
                                      ms_produce = ratio_float (de_end d) w,
                                      ms_committed = ratio_float (de_committed d) w, ms_consistent = consistent\<rparr>,
                                emit (\<not> consistent) (u ''SEQUENCE_RATE_LAG_ARITHMETIC_MISMATCH''))))"

section \<open>Captures\<close>

record sequence_reference =
  sq_index :: nat
  sq_bundle :: ustr
  sq_incident :: ustr
  sq_profile :: ustr
  sq_status :: collection_status
  sq_started :: stamp
  sq_completed :: stamp
  sq_kafka :: "stamp option"
  sq_sha256 :: ustr

record sequence_observation =
  so_index :: nat
  so_bundle :: ustr
  so_sha256 :: ustr
  so_usable :: bool
  so_core_state :: "condition_state option"
  so_reasons :: "ustr list"
  so_identity :: "ustr option"
  so_kafka :: "stamp option"
  so_partitions :: "ustr list"
  so_total :: "int option"
  so_slope :: "pyfloat option"
  so_produce :: "pyfloat option"
  so_committed :: "pyfloat option"
  so_consistent :: "bool option"
  so_lag_floor :: "bool option"
  so_slope_floor :: "bool option"
  so_worker :: json
  so_keda :: json
  so_stage :: json

record capture =
  cp_reference :: sequence_reference
  cp_observation :: sequence_observation
  cp_single :: "condition_evaluation option"

text \<open>The validators of the two models; digests are digests by construction.\<close>

definition sequence_reference_ok :: "sequence_reference \<Rightarrow> bool" where
  "sequence_reference_ok r \<longleftrightarrow>
     aware (sq_started r) \<and> aware (sq_completed r) \<and> micros (sq_started r) \<le> micros (sq_completed r)
     \<and> opt_ok aware (sq_kafka r)"

definition sequence_observation_ok :: "sequence_observation \<Rightarrow> bool" where
  "sequence_observation_ok o' \<longleftrightarrow> opt_ok (\<lambda>n. n \<ge> 0) (so_total o')"

definition build_capture ::
  "opslib \<Rightarrow> sequence_policy \<Rightarrow> nat \<Rightarrow> evidence_bundle \<Rightarrow> identity \<Rightarrow> condition_evaluation option \<Rightarrow> bundle_summary
     \<Rightarrow> capture" where
  "build_capture O' p index b ident single summary =
     (let digest = bundle_digest O' b; scope_issues = scope_issue_codes p b;
          core = map_option (\<lambda>e. condition_of (ce_conditions e) Core_backlog) single;
          core_usable = (case core of None \<Rightarrow> False | Some r \<Rightarrow> list_all (\<lambda>t. tr_issues t = []) (cr_required r));
          core_reasons = (case core of None \<Rightarrow> [] | Some r \<Rightarrow> cr_reasons r);
          (m, m_issues) = (if core_usable then measure O' b else (None, []));
          reasons = sorted_set (scope_issues @ id_issues ident @ m_issues
                                @ (if core_usable then [] else core_reasons));
          usable = (core_usable \<and> m \<noteq> None \<and> scope_issues = [] \<and> id_issues ident = [] \<and> m_issues = [])
      in \<lparr>cp_reference =
            \<lparr>sq_index = index, sq_bundle = bu_id b, sq_incident = bu_incident b, sq_profile = bu_profile b,
             sq_status = co_status (bu_collection b), sq_started = co_started (bu_collection b),
             sq_completed = co_completed (bu_collection b), sq_kafka = id_timestamp ident, sq_sha256 = digest\<rparr>,
          cp_observation =
            \<lparr>so_index = index, so_bundle = bu_id b, so_sha256 = digest, so_usable = usable,
             so_core_state = map_option cr_state core, so_reasons = reasons, so_identity = id_sha256 ident,
             so_kafka = id_timestamp ident, so_partitions = id_partitions ident,
             so_total = map_option ms_total m, so_slope = map_option ms_slope m,
             so_produce = map_option ms_produce m, so_committed = map_option ms_committed m,
             so_consistent = map_option ms_consistent m,
             so_lag_floor = map_option (\<lambda>x. ms_total x \<ge> sp_lag_floor p) m,
             so_slope_floor = map_option (\<lambda>x. f_less_eq (sp_slope_floor p) (ms_slope x)) m,
             so_worker = su_worker summary, so_keda = su_keda summary, so_stage = su_stage summary\<rparr>,
          cp_single = single\<rparr>)"

text \<open>Only a bundle in scope is evaluated on its own.\<close>

definition single_evaluation :: "opslib \<Rightarrow> sequence_policy \<Rightarrow> evidence_bundle \<Rightarrow> exn + condition_evaluation option" where
  "single_evaluation O' p b =
     (if scope_issue_codes p b = []
      then rbind (evaluate_bundle O' (single_bundle_policy p) b) (\<lambda>e. Inr (Some e)) else Inr None)"

definition capture_of :: "opslib \<Rightarrow> sequence_policy \<Rightarrow> nat \<Rightarrow> evidence_bundle \<Rightarrow> exn + capture" where
  "capture_of O' p index b =
     rbind (sequence_source_identity O' b) (\<lambda>ident.
     rbind (single_evaluation O' p b) (\<lambda>single.
     rbind (summarize_bundle O' b) (\<lambda>summary.
      let c = build_capture O' p index b ident single summary
      in guard (sequence_observation_ok (cp_observation c) \<and> sequence_reference_ok (cp_reference c))
           (value_error ''ValidationError'') (Inr c))))"

fun captures_from :: "opslib \<Rightarrow> sequence_policy \<Rightarrow> nat \<Rightarrow> evidence_bundle list \<Rightarrow> exn + capture list" where
  "captures_from O' p k [] = Inr []"
| "captures_from O' p k (b # bs) =
     rbind (capture_of O' p k b) (\<lambda>c. rbind (captures_from O' p (Suc k) bs) (\<lambda>cs. Inr (c # cs)))"

section \<open>The activation rule\<close>

definition sequence_problems :: "sequence_policy \<Rightarrow> capture list \<Rightarrow> ustr list" where
  "sequence_problems p cs =
     (let obs = map cp_observation cs; kafka = map so_kafka obs; ids = map so_identity obs
      in emit (length obs < sp_count p) (u ''SEQUENCE_CAPTURE_COUNT_INSUFFICIENT'')
         @ emit (list_ex (\<lambda>o'. \<not> so_usable o') obs) (u ''SEQUENCE_REQUIRED_EVIDENCE_UNUSABLE'')
         @ emit (any_pair (\<lambda>prev cur. micros (sq_started (cp_reference cur)) \<le> micros (sq_started (cp_reference prev))
                                       \<or> micros (sq_completed (cp_reference cur)) \<le> micros (sq_completed (cp_reference prev))) cs)
             (u ''SEQUENCE_CAPTURE_TIMESTAMPS_NOT_STRICTLY_INCREASING'')
         @ emit (None \<in> set kafka \<or> any_pair (\<lambda>prev cur. case (prev, cur) of
                     (Some a, Some b) \<Rightarrow> micros b \<le> micros a | _ \<Rightarrow> False) kafka)
             (u ''SEQUENCE_KAFKA_SOURCE_TIMESTAMPS_NOT_STRICTLY_INCREASING'')
         @ emit (None \<in> set ids \<or> several ids) (u ''SEQUENCE_SOURCE_IDENTITY_MISMATCH'')
         @ emit (several (map so_partitions obs)) (u ''SEQUENCE_PARTITION_SET_MISMATCH'')
         @ emit (list_ex (\<lambda>o'. so_consistent o' \<noteq> Some True) obs) (u ''SEQUENCE_RATE_LAG_ARITHMETIC_MISMATCH''))"

definition growing :: "sequence_observation \<Rightarrow> sequence_observation \<Rightarrow> bool" where
  "growing prev cur \<longleftrightarrow> (case (so_total prev, so_total cur) of (Some a, Some b) \<Rightarrow> b > a | _ \<Rightarrow> True)"

definition qualifying_window :: "sequence_observation list \<Rightarrow> bool" where
  "qualifying_window w \<longleftrightarrow>
     list_all (\<lambda>o'. so_lag_floor o' = Some True \<and> so_slope_floor o' = Some True) w
     \<and> \<not> any_pair (\<lambda>prev cur. \<not> growing prev cur) w"

definition matched_windows :: "sequence_policy \<Rightarrow> capture list \<Rightarrow> nat list list" where
  "matched_windows p cs =
     (let obs = map cp_observation cs; n = sp_count p
      in if sequence_problems p cs \<noteq> [] then []
         else map (\<lambda>start. [start..<start + n])
                (filter (\<lambda>start. qualifying_window (take n (drop start obs))) [0..<length obs + 1 - n]))"

definition jbool_opt :: "bool option \<Rightarrow> json" where "jbool_opt x = jopt JBool x"

definition capture_measurement :: "sequence_observation \<Rightarrow> json" where
  "capture_measurement o' = JObj
     [(u ''sequence_index'', JInt (int (so_index o'))), (u ''total_lag_records'', jopt JInt (so_total o')),
      (u ''lag_slope_60s_records_per_second'', jopt JFloat (so_slope o')),
      (u ''produce_rate_60s_records_per_second'', jopt JFloat (so_produce o')),
      (u ''committed_offset_rate_60s_records_per_second'', jopt JFloat (so_committed o')),
      (u ''rate_arithmetic_consistent'', jbool_opt (so_consistent o')),
      (u ''meets_lag_floor'', jbool_opt (so_lag_floor o')), (u ''meets_slope_floor'', jbool_opt (so_slope_floor o'))]"

definition sequence_facts :: "sequence_policy \<Rightarrow> capture list \<Rightarrow> condition_result \<Rightarrow> obj" where
  "sequence_facts p cs base =
     (let obs = map cp_observation cs in
     [(u ''activation_policy'', JObj
        [(u ''consecutive_capture_count'', JInt (int (sp_count p))),
         (u ''total_lag_floor_records'', JInt (sp_lag_floor p)),
         (u ''lag_slope_floor_records_per_second'', JFloat (sp_slope_floor p)),
         (u ''require_increase_across_both_transitions'', JBool True),
         (u ''produce_minus_committed_role'', JStr (u ''arithmetic_consistency_only'')),
         (u ''keda_worker_stage_role'', JStr (u ''optional_context_only'')),
         (u ''recovery_or_clearing_evaluated'', JBool False)]),
      (u ''ordered_capture_bundle_ids'', jstrs (map so_bundle obs)),
      (u ''ordered_capture_digests'', jstrs (map so_sha256 obs)),
      (u ''capture_measurements'', JArr (map capture_measurement obs)),
      (u ''matched_activation_windows'', JArr (map (\<lambda>w. JArr (map (\<lambda>k. JInt (int k)) w)) (matched_windows p cs))),
      (u ''latest_single_bundle_facts'', JObj (cr_facts base))])"

definition core_sequence_result :: "sequence_policy \<Rightarrow> capture list \<Rightarrow> condition_result \<Rightarrow> condition_result" where
  "core_sequence_result p cs base =
     (let problems = sequence_problems p cs; windows = matched_windows p cs;
          (st, reasons) =
            (if problems \<noteq> [] then (Unknown, sorted_set problems)
             else if windows \<noteq> [] then (Present, [u ''CALIBRATED_THREE_CAPTURE_BACKLOG_ACTIVATION_OBSERVED'',
                                                   u ''LAG_RATE_ARITHMETIC_CONSISTENCY_CONFIRMED''])
             else if cr_state base = Absent
             then (Absent, [u ''LATEST_FULL_WINDOW_BACKLOG_ZERO_WITHOUT_SEQUENCE_ACTIVATION''])
             else (Unknown, [u ''CALIBRATED_BACKLOG_ACTIVATION_SEQUENCE_NOT_OBSERVED'']))
      in base\<lparr>cr_condition := Core_backlog, cr_state := st, cr_reasons := reasons,
              cr_ids := sorted_set (concat (map (\<lambda>c. case cp_single c of
                 None \<Rightarrow> [] | Some e \<Rightarrow> cr_ids (condition_of (ce_conditions e) Core_backlog)) cs)),
              cr_facts := sequence_facts p cs base\<rparr>)"

section \<open>The evaluation of a sequence\<close>

record sequence_evaluation =
  sv_id :: ustr
  sv_status :: evaluation_status
  sv_policy :: sequence_policy
  sv_sources :: "sequence_reference list"
  sv_observations :: "sequence_observation list"
  sv_conditions :: conditions
  sv_assessment :: assessment

definition dump_sequence_reference :: "opslib \<Rightarrow> sequence_reference \<Rightarrow> json" where
  "dump_sequence_reference O' r = JObj
     [(u ''sequence_index'', JInt (int (sq_index r))), (u ''schema_version'', JStr (u ''ops.evidence.v1'')),
      (u ''bundle_id'', JStr (sq_bundle r)), (u ''incident_id'', JStr (sq_incident r)),
      (u ''cluster_profile'', JStr (sq_profile r)), (u ''collection_status'', JStr (collection_value (sq_status r))),
      (u ''collection_started_at'', jstamp O' (sq_started r)),
      (u ''collection_completed_at'', jstamp O' (sq_completed r)),
      (u ''kafka_source_timestamp'', jopt (jstamp O') (sq_kafka r)),
      (u ''source_bundle_sha256'', JStr (sq_sha256 r))]"

definition dump_sequence_observation :: "opslib \<Rightarrow> sequence_observation \<Rightarrow> json" where
  "dump_sequence_observation O' o' = JObj
     [(u ''sequence_index'', JInt (int (so_index o'))), (u ''bundle_id'', JStr (so_bundle o')),
      (u ''source_bundle_sha256'', JStr (so_sha256 o')), (u ''required_evidence_usable'', JBool (so_usable o')),
      (u ''core_single_bundle_state'', jopt (\<lambda>s. JStr (state_value s)) (so_core_state o')),
      (u ''reason_codes'', jstrs (so_reasons o')), (u ''source_identity_sha256'', jopt JStr (so_identity o')),
      (u ''kafka_source_timestamp'', jopt (jstamp O') (so_kafka o')), (u ''partition_set'', jstrs (so_partitions o')),
      (u ''total_lag_records'', jopt JInt (so_total o')),
      (u ''lag_slope_60s_records_per_second'', jopt JFloat (so_slope o')),
      (u ''produce_rate_60s_records_per_second'', jopt JFloat (so_produce o')),
      (u ''committed_offset_rate_60s_records_per_second'', jopt JFloat (so_committed o')),
      (u ''rate_arithmetic_consistent'', jbool_opt (so_consistent o')),
      (u ''meets_lag_floor'', jbool_opt (so_lag_floor o')), (u ''meets_slope_floor'', jbool_opt (so_slope_floor o')),
      (u ''worker_context'', so_worker o'), (u ''keda_context'', so_keda o'),
      (u ''worker_stage_latency_context'', so_stage o')]"

definition dump_sequence_policy :: "sequence_policy \<Rightarrow> json" where
  "dump_sequence_policy p = JObj
     (policy_fields (evaluation_policy.truncate p)
      @ [(u ''activation_consecutive_capture_count'', JInt (int (sp_count p))),
         (u ''activation_total_lag_floor_records'', JInt (sp_lag_floor p)),
         (u ''activation_lag_slope_floor_records_per_second'', JFloat (sp_slope_floor p))])"

definition sequence_payload ::
  "opslib \<Rightarrow> sequence_policy \<Rightarrow> sequence_reference list \<Rightarrow> sequence_observation list \<Rightarrow> conditions \<Rightarrow> assessment \<Rightarrow> obj" where
  "sequence_payload O' p rs obs cs a =
       [(u ''evaluator_version'', JStr (u ''ops.evaluator.v2'')),
        (u ''ruleset_version'', JStr (u ''ops.conditions.rules.v2'')), (u ''policy'', dump_sequence_policy p),
        (u ''source_bundles'', JArr (map (dump_sequence_reference O') rs)),
        (u ''capture_observations'', JArr (map (dump_sequence_observation O') obs)),
        (u ''conditions'', dump_conditions cs), (u ''assessments'', dump_assessments a)]"

definition sequence_evaluation_id ::
  "opslib \<Rightarrow> sequence_policy \<Rightarrow> sequence_reference list \<Rightarrow> sequence_observation list \<Rightarrow> conditions \<Rightarrow> assessment \<Rightarrow> ustr" where
  "sequence_evaluation_id O' p rs obs cs a = canonical_sha256 (py O') (JObj (sequence_payload O' p rs obs cs a))"

text \<open>\<open>SequenceConditionEvaluation.validate_output_contract\<close> and \<open>verify_integrity\<close>.\<close>

definition sequence_contract :: "sequence_evaluation \<Rightarrow> bool" where
  "sequence_contract e \<longleftrightarrow>
     (let n = length (sv_sources e)
      in 1 \<le> n \<and> n \<le> 256 \<and> map sq_index (sv_sources e) = [0..<n] \<and> map so_index (sv_observations e) = [0..<n]
         \<and> list_all2 (\<lambda>r o'. sq_bundle r = so_bundle o' \<and> sq_sha256 r = so_sha256 o') (sv_sources e) (sv_observations e)
         \<and> conditions_contract (sv_conditions e) (sv_assessment e) (sv_status e))"

definition verify_sequence :: "opslib \<Rightarrow> sequence_evaluation \<Rightarrow> bool" where
  "verify_sequence O' e \<longleftrightarrow>
     sv_id e = sequence_evaluation_id O' (sv_policy e) (sv_sources e) (sv_observations e) (sv_conditions e) (sv_assessment e)"

definition sequence_of :: "opslib \<Rightarrow> sequence_policy \<Rightarrow> capture list \<Rightarrow> condition_evaluation \<Rightarrow> sequence_evaluation" where
  "sequence_of O' p cs latest =
     (let core = core_sequence_result p cs (condition_of (ce_conditions latest) Core_backlog);
          conds = AList.update Core_backlog core (ce_conditions latest);
          a = no_backlog_assessment conds; rs = map cp_reference cs; obs = map cp_observation cs
      in \<lparr>sv_id = sequence_evaluation_id O' p rs obs conds a, sv_status = overall_status conds a, sv_policy = p,
          sv_sources = rs, sv_observations = obs, sv_conditions = conds, sv_assessment = a\<rparr>)"

definition evaluate_bundle_sequence :: "opslib \<Rightarrow> sequence_policy \<Rightarrow> evidence_bundle list \<Rightarrow> exn + sequence_evaluation" where
  "evaluate_bundle_sequence O' p bs =
     guard (bs \<noteq> []) (value_error ''sequence evaluation requires at least one evidence bundle'')
     (guard (length bs \<le> 256) (value_error ''sequence evaluation accepts at most 256 evidence bundles'')
     (rbind (captures_from O' p 0 bs) (\<lambda>cs.
      let compatible = List.map_filter cp_single cs; e = sequence_of O' p cs (last compatible)
      in guard (compatible \<noteq> []) (value_error ''sequence contains no bundle compatible with local-ha v2'')
           (guard (sequence_contract e \<and> verify_sequence O' e) (value_error ''ValidationError'') (Inr e)))))"

section \<open>When a sequence activates\<close>

lemma any_pair_sorted:
  "transp P \<Longrightarrow> \<not> any_pair (\<lambda>a b. \<not> P a b) xs \<longleftrightarrow> sorted_wrt P xs"
  by (induction xs rule: induct_list012) (auto intro: transpD)

lemma any_pair_map: "any_pair P (map f xs) \<longleftrightarrow> any_pair (\<lambda>a b. P (f a) (f b)) xs"
  by (induction xs rule: induct_list012) simp_all

lemma any_pair_disj: "any_pair (\<lambda>a b. P a b \<or> Q a b) xs \<longleftrightarrow> any_pair P xs \<or> any_pair Q xs"
  by (induction xs rule: induct_list012) auto

lemma any_pair_cong: "(\<And>a b. a \<in> set xs \<Longrightarrow> b \<in> set xs \<Longrightarrow> P a b \<longleftrightarrow> Q a b) \<Longrightarrow> any_pair P xs \<longleftrightarrow> any_pair Q xs"
  by (induction xs rule: induct_list012) auto

lemma increasing_iff: "\<not> any_pair (\<lambda>a b. (f b :: 'a :: linorder) \<le> f a) xs \<longleftrightarrow> sorted_wrt (<) (map f xs)"
  using any_pair_sorted [of "(<)" "map f xs"] by (simp add: any_pair_map not_less)

lemma not_several: "\<not> several xs \<longleftrightarrow> xs \<noteq> [] \<and> (\<exists>x. \<forall>y \<in> set xs. y = x)"
proof (cases xs)
  case Nil
  then show ?thesis by (simp add: several_def)
next
  case (Cons a as)
  have "length (remdups xs) = card (set xs)" by (rule length_remdups_card_conv)
  moreover have "card (set xs) = 1 \<longleftrightarrow> (\<forall>y \<in> set xs. y = a)"
    using Cons by (auto simp: card_1_singleton_iff)
  ultimately show ?thesis using Cons by (auto simp: several_def)
qed

text \<open>
  The captures a decision may rest on: enough of them, all usable, in strictly increasing
  order of collection and of scrape, from one source, over one set of partitions, with rates
  that match the lag.
\<close>

definition coherent :: "sequence_policy \<Rightarrow> capture list \<Rightarrow> bool" where
  "coherent p cs \<longleftrightarrow>
     (let obs = map cp_observation cs; refs = map cp_reference cs
      in sp_count p \<le> length cs \<and> cs \<noteq> []
         \<and> (\<forall>o' \<in> set obs. so_usable o' \<and> so_kafka o' \<noteq> None \<and> so_consistent o' = Some True)
         \<and> sorted_wrt (<) (map (\<lambda>r. micros (sq_started r)) refs)
         \<and> sorted_wrt (<) (map (\<lambda>r. micros (sq_completed r)) refs)
         \<and> sorted_wrt (<) (map (\<lambda>o'. micros (the (so_kafka o'))) obs)
         \<and> (\<exists>ident. \<forall>o' \<in> set obs. so_identity o' = Some ident)
         \<and> (\<exists>partitions. \<forall>o' \<in> set obs. so_partitions o' = partitions))"

lemma problems_iff_coherent: "sequence_problems p cs = [] \<longleftrightarrow> coherent p cs"
proof -
  let ?obs = "map cp_observation cs"
  have times: "\<not> any_pair (\<lambda>prev cur. micros (sq_started (cp_reference cur)) \<le> micros (sq_started (cp_reference prev))
          \<or> micros (sq_completed (cp_reference cur)) \<le> micros (sq_completed (cp_reference prev))) cs
      \<longleftrightarrow> sorted_wrt (<) (map (\<lambda>r. micros (sq_started r)) (map cp_reference cs))
        \<and> sorted_wrt (<) (map (\<lambda>r. micros (sq_completed r)) (map cp_reference cs))"
    by (simp add: any_pair_disj increasing_iff comp_def)
  have kafka: "\<not> any_pair (\<lambda>prev cur. case (prev, cur) of (Some a, Some b) \<Rightarrow> micros b \<le> micros a | _ \<Rightarrow> False)
          (map so_kafka ?obs)
      \<longleftrightarrow> sorted_wrt (<) (map (\<lambda>o'. micros (the (so_kafka o'))) ?obs)" if "None \<notin> set (map so_kafka ?obs)"
  proof -
    have "any_pair (\<lambda>prev cur. case (prev, cur) of (Some a, Some b) \<Rightarrow> micros b \<le> micros a | _ \<Rightarrow> False)
          (map so_kafka ?obs)
        \<longleftrightarrow> any_pair (\<lambda>a b. micros (the (so_kafka b)) \<le> micros (the (so_kafka a))) ?obs"
      unfolding any_pair_map [of _ so_kafka]
      by (rule any_pair_cong) (use that in \<open>force split: option.splits\<close>)
    then show ?thesis using increasing_iff [of "\<lambda>o'. micros (the (so_kafka o'))" ?obs] by simp
  qed
  have idents: "(None \<notin> set (map so_identity ?obs) \<and> \<not> several (map so_identity ?obs))
      \<longleftrightarrow> cs \<noteq> [] \<and> (\<exists>ident. \<forall>o' \<in> set ?obs. so_identity o' = Some ident)"
    unfolding not_several by (cases cs) (auto simp: image_iff, metis not_None_eq)
  have parts: "\<not> several (map so_partitions ?obs) \<longleftrightarrow> cs \<noteq> [] \<and> (\<exists>qs. \<forall>o' \<in> set ?obs. so_partitions o' = qs)"
    unfolding not_several by auto
  have kafka': "(None \<notin> set (map so_kafka ?obs)
        \<and> \<not> any_pair (\<lambda>prev cur. case (prev, cur) of (Some a, Some b) \<Rightarrow> micros b \<le> micros a | _ \<Rightarrow> False) (map so_kafka ?obs))
      \<longleftrightarrow> (\<forall>o' \<in> set ?obs. so_kafka o' \<noteq> None) \<and> sorted_wrt (<) (map (\<lambda>o'. micros (the (so_kafka o'))) ?obs)"
    using kafka by (metis (no_types, lifting) image_iff list.set_map)
  have "sequence_problems p cs = [] \<longleftrightarrow>
      sp_count p \<le> length cs \<and> list_all so_usable ?obs
      \<and> \<not> any_pair (\<lambda>prev cur. micros (sq_started (cp_reference cur)) \<le> micros (sq_started (cp_reference prev))
          \<or> micros (sq_completed (cp_reference cur)) \<le> micros (sq_completed (cp_reference prev))) cs
      \<and> (None \<notin> set (map so_kafka ?obs)
        \<and> \<not> any_pair (\<lambda>prev cur. case (prev, cur) of (Some a, Some b) \<Rightarrow> micros b \<le> micros a | _ \<Rightarrow> False) (map so_kafka ?obs))
      \<and> (None \<notin> set (map so_identity ?obs) \<and> \<not> several (map so_identity ?obs))
      \<and> \<not> several (map so_partitions ?obs) \<and> list_all (\<lambda>o'. so_consistent o' = Some True) ?obs"
    by (simp add: sequence_problems_def Let_def not_less list_all_iff list_ex_iff image_image)
  also have "\<dots> \<longleftrightarrow> coherent p cs"
    unfolding times kafka' idents parts coherent_def Let_def list_all_iff by blast
  finally show ?thesis .
qed

definition sustained :: "sequence_policy \<Rightarrow> sequence_observation list \<Rightarrow> bool" where
  "sustained p w \<longleftrightarrow>
     (\<forall>o' \<in> set w. \<exists>lag slope. so_total o' = Some lag \<and> so_slope o' = Some slope
        \<and> sp_lag_floor p \<le> lag \<and> f_less_eq (sp_slope_floor p) slope)
     \<and> sorted_wrt (<) (map (\<lambda>o'. the (so_total o')) w)"

text \<open>The floors an observation meets follow from its measurement.\<close>

definition floors_follow :: "sequence_policy \<Rightarrow> sequence_observation \<Rightarrow> bool" where
  "floors_follow p o' \<longleftrightarrow>
     (so_total o' = None \<longleftrightarrow> so_slope o' = None)
     \<and> so_lag_floor o' = map_option (\<lambda>lag. sp_lag_floor p \<le> lag) (so_total o')
     \<and> so_slope_floor o' = map_option (f_less_eq (sp_slope_floor p)) (so_slope o')"

lemma build_capture_fields:
  "sq_index (cp_reference (build_capture O' p k b ident single summary)) = k"
  "so_index (cp_observation (build_capture O' p k b ident single summary)) = k"
  "sq_bundle (cp_reference (build_capture O' p k b ident single summary)) = bu_id b"
  "so_bundle (cp_observation (build_capture O' p k b ident single summary)) = bu_id b"
  "sq_sha256 (cp_reference (build_capture O' p k b ident single summary)) = bundle_digest O' b"
  "so_sha256 (cp_observation (build_capture O' p k b ident single summary)) = bundle_digest O' b"
  "cp_single (build_capture O' p k b ident single summary) = single"
  by (simp_all add: build_capture_def Let_def split: prod.splits)

lemma build_capture_floors: "floors_follow p (cp_observation (build_capture O' p k b ident single summary))"
  by (simp add: build_capture_def Let_def floors_follow_def option.map_comp comp_def split: prod.splits)

lemma capture_built:
  "capture_of O' p k b = Inr c \<Longrightarrow> \<exists>ident single summary. c = build_capture O' p k b ident single summary
     \<and> single_evaluation O' p b = Inr single"
  by (auto simp: capture_of_def rbind_eq_Inr guard_eq_Inr Let_def)

lemma capture_floors: "capture_of O' p k b = Inr c \<Longrightarrow> floors_follow p (cp_observation c)"
  using capture_built build_capture_floors by blast

lemma captures_each:
  "captures_from O' p k bs = Inr cs \<Longrightarrow> c \<in> set cs \<Longrightarrow> \<exists>j b. capture_of O' p j b = Inr c"
proof (induction bs arbitrary: k cs)
  case (Cons b bs)
  then obtain c' cs' where c: "capture_of O' p k b = Inr c'" "captures_from O' p (Suc k) bs = Inr cs'" "cs = c' # cs'"
    by (auto simp: rbind_eq_Inr)
  with Cons show ?case by (cases "c = c'") auto
qed simp

lemma captures_length: "captures_from O' p k bs = Inr cs \<Longrightarrow> length cs = length bs"
  by (induction bs arbitrary: k cs) (auto simp: rbind_eq_Inr)

lemma qualifying_sustained:
  assumes "\<forall>o' \<in> set w. floors_follow p o'"
  shows "qualifying_window w \<longleftrightarrow> sustained p w"
proof -
  have met: "list_all (\<lambda>o'. so_lag_floor o' = Some True \<and> so_slope_floor o' = Some True) w
      \<longleftrightarrow> (\<forall>o' \<in> set w. \<exists>lag slope. so_total o' = Some lag \<and> so_slope o' = Some slope
          \<and> sp_lag_floor p \<le> lag \<and> f_less_eq (sp_slope_floor p) slope)"
    using assms by (fastforce simp: list_all_iff floors_follow_def)
  have "\<not> any_pair (\<lambda>prev cur. \<not> growing prev cur) w \<longleftrightarrow> sorted_wrt (<) (map (\<lambda>o'. the (so_total o')) w)"
    if "\<forall>o' \<in> set w. so_total o' \<noteq> None"
  proof -
    have "any_pair (\<lambda>prev cur. \<not> growing prev cur) w \<longleftrightarrow> any_pair (\<lambda>a b. the (so_total b) \<le> the (so_total a)) w"
      by (rule any_pair_cong) (use that in \<open>auto simp: growing_def not_less split: option.splits\<close>)
    then show ?thesis using increasing_iff [of "\<lambda>o'. the (so_total o')" w] by simp
  qed
  then show ?thesis
    unfolding qualifying_window_def met sustained_def by (metis option.distinct(1))
qed

text \<open>
  C6: Backlog pressure is present in a sequence of captures exactly when all of them are coherent
  and some window of the calibrated number of consecutive captures stays at or above the lag
  floor and the slope floor while the total lag strictly grows from each capture to the next.
\<close>

theorem activation_iff_sustained_growth:
  "case captures_from O' p 0 bs of
     Inl _ \<Rightarrow> True
   | Inr cs \<Rightarrow>
       cr_state (core_sequence_result p cs base) = Present
       \<longleftrightarrow> coherent p cs
         \<and> (\<exists>k. k + sp_count p \<le> length bs \<and> sustained p (take (sp_count p) (drop k (map cp_observation cs))))"
proof (cases "captures_from O' p 0 bs")
  case (Inr cs)
  let ?w = "\<lambda>k. take (sp_count p) (drop k (map cp_observation cs))"
  have follow: "floors_follow p o'" if "o' \<in> set (map cp_observation cs)" for o'
    using that captures_each [OF Inr] capture_floors by fastforce
  have windows: "qualifying_window (?w k) \<longleftrightarrow> sustained p (?w k)" for k
    by (rule qualifying_sustained) (use follow in \<open>blast dest: in_set_takeD in_set_dropD\<close>)
  have "matched_windows p cs \<noteq> []
      \<longleftrightarrow> sequence_problems p cs = [] \<and> (\<exists>k. k + sp_count p \<le> length bs \<and> sustained p (?w k))"
    using captures_length [OF Inr]
    by (force simp: matched_windows_def Let_def windows filter_empty_conv)
  moreover have "cr_state (core_sequence_result p cs base) = Present
      \<longleftrightarrow> sequence_problems p cs = [] \<and> matched_windows p cs \<noteq> []"
    by (simp add: core_sequence_result_def Let_def)
  ultimately show ?thesis using Inr problems_iff_coherent by auto
qed simp

section \<open>Every sequence satisfies its output contract\<close>

lemma captures_index:
  "captures_from O' p k bs = Inr cs
   \<Longrightarrow> map (sq_index \<circ> cp_reference) cs = [k..<k + length cs] \<and> map (so_index \<circ> cp_observation) cs = [k..<k + length cs]"
proof (induction bs arbitrary: k cs)
  case (Cons b bs)
  then obtain c cs' where c: "capture_of O' p k b = Inr c" "captures_from O' p (Suc k) bs = Inr cs'" "cs = c # cs'"
    by (auto simp: rbind_eq_Inr)
  have "sq_index (cp_reference c) = k" "so_index (cp_observation c) = k"
    using capture_built [OF c(1)] build_capture_fields by auto
  with Cons.IH [OF c(2)] c(3) show ?case by (simp add: upt_conv_Cons del: upt_Suc)
qed simp

lemma capture_pairs:
  "capture_of O' p k b = Inr c \<Longrightarrow> sq_bundle (cp_reference c) = so_bundle (cp_observation c)
     \<and> sq_sha256 (cp_reference c) = so_sha256 (cp_observation c)"
  by (drule capture_built) (auto simp: build_capture_fields)

lemma capture_single:
  assumes "capture_of O' p k b = Inr c" "cp_single c = Some e"
  shows "evaluate_bundle O' (single_bundle_policy p) b = Inr e"
  using capture_built [OF assms(1)] assms(2)
  by (auto simp: build_capture_fields single_evaluation_def rbind_eq_Inr split: if_splits)

lemma captured_evaluation:
  assumes "captures_from O' p k bs = Inr cs" "List.map_filter cp_single cs \<noteq> []"
  obtains b where "evaluate_bundle O' (single_bundle_policy p) b = Inr (last (List.map_filter cp_single cs))"
proof -
  have "last (List.map_filter cp_single cs) \<in> set (List.map_filter cp_single cs)" using assms(2) by simp
  then obtain c where c: "c \<in> set cs" "cp_single c = Some (last (List.map_filter cp_single cs))"
    by (auto simp: List.map_filter_def)
  from captures_each [OF assms(1) c(1)] c(2) that show thesis using capture_single by blast
qed

lemma AList_update_keys_present: "k \<in> set (map fst d) \<Longrightarrow> map fst (AList.update k v d) = map fst d"
  by (induction d) auto

lemma AList_update_list_all: "list_all P d \<Longrightarrow> P (k, v) \<Longrightarrow> list_all P (AList.update k v d)"
  by (induction d) auto

lemma core_sequence_condition [simp]: "cr_condition (core_sequence_result p cs base) = Core_backlog"
  by (simp add: core_sequence_result_def Let_def split: prod.splits)

lemma sequence_of_contract:
  assumes "captures_from O' p 0 bs = Inr cs" "bs \<noteq> []" "length bs \<le> 256"
    and "evaluate_bundle O' q b = Inr latest"
  shows "sequence_contract (sequence_of O' p cs latest)" "verify_sequence O' (sequence_of O' p cs latest)"
proof -
  let ?e = "sequence_of O' p cs latest"
  let ?conds = "sv_conditions ?e"
  have len: "length cs = length bs" by (rule captures_length [OF assms(1)])
  have "list_all2 (\<lambda>r o'. sq_bundle r = so_bundle o' \<and> sq_sha256 r = so_sha256 o') (map cp_reference cs) (map cp_observation cs)"
    using captures_each [OF assms(1)] capture_pairs by (fastforce simp: list.rel_map list_all2_same)
  moreover have "conditions_contract ?conds (sv_assessment ?e) (sv_status ?e)"
  proof -
    have names: "map fst (ce_conditions latest) = all_conditions"
      "list_all (\<lambda>(c, r). cr_condition r = c) (ce_conditions latest)"
      using assms(4) by (auto dest!: evaluate_bundle_result simp: evaluate_conditions_def all_conditions_def Let_def)
    have conds: "?conds = AList.update Core_backlog
        (core_sequence_result p cs (condition_of (ce_conditions latest) Core_backlog)) (ce_conditions latest)"
      by (simp add: sequence_of_def Let_def)
    have keys: "map fst ?conds = all_conditions"
      unfolding conds by (subst AList_update_keys_present) (simp_all add: names(1) all_conditions_def)
    moreover have each: "list_all (\<lambda>(c, r). cr_condition r = c) ?conds"
      unfolding conds by (rule AList_update_list_all) (simp_all add: names(2))
    moreover have "distinct all_conditions" by (simp add: all_conditions_def)
    moreover have "assessment_contract ?conds (no_backlog_assessment ?conds)"
      using keys each by (intro assessment_contract_holds) (simp_all add: all_conditions_def flip: set_map)
    moreover have "sv_assessment ?e = no_backlog_assessment ?conds" "sv_status ?e = overall_status ?conds (sv_assessment ?e)"
      by (simp_all add: sequence_of_def Let_def)
    ultimately show ?thesis by (simp add: conditions_contract_def)
  qed
  ultimately show "sequence_contract ?e"
    using captures_index [OF assms(1)] len assms(2,3)
    by (cases bs) (simp_all add: sequence_contract_def Let_def sequence_of_def comp_def del: upt_Suc)
  show "verify_sequence O' ?e" by (simp add: verify_sequence_def sequence_of_def Let_def)
qed

text \<open>
  The evaluation of a sequence never fails its own output model: it returns a result exactly
  for 1 to 256 bundles that can all be captured and of which one is in scope, and then the
  result is the one computed from the captures.
\<close>

theorem sequence_satisfies_output_contract:
  "evaluate_bundle_sequence O' p bs = Inr e \<longleftrightarrow>
     bs \<noteq> [] \<and> length bs \<le> 256
     \<and> (\<exists>cs. captures_from O' p 0 bs = Inr cs \<and> List.map_filter cp_single cs \<noteq> []
          \<and> e = sequence_of O' p cs (last (List.map_filter cp_single cs)))"
proof -
  have "sequence_contract (sequence_of O' p cs (last (List.map_filter cp_single cs)))
      \<and> verify_sequence O' (sequence_of O' p cs (last (List.map_filter cp_single cs)))"
    if "bs \<noteq> []" "length bs \<le> 256" "captures_from O' p 0 bs = Inr cs" "List.map_filter cp_single cs \<noteq> []" for cs
  proof -
    note given = that
    obtain b where "evaluate_bundle O' (single_bundle_policy p) b = Inr (last (List.map_filter cp_single cs))"
      using captured_evaluation [OF given(3,4)] .
    from sequence_of_contract [OF given(3,1,2) this] show ?thesis by blast
  qed
  then show ?thesis
    by (auto simp: evaluate_bundle_sequence_def guard_eq_Inr rbind_eq_Inr Let_def)
qed

end
