(* ===== verification/Recovery.thy ===== *)
theory Recovery
  imports Sequence
begin

text \<open>
  Recovery from a worker backlog (\<open>src/ops_agent/recovery_evaluator.py\<close>,
  \<open>src/ops_agent/recovery_models.py\<close>): the captures after an activation are checked one by one,
  a broken integrity of the stream sticks, three consecutive draining captures are recovering,
  and with the promoted policy three captures inside the calibrated envelope after that are
  recovered.
\<close>

section \<open>Policy\<close>

datatype recovery_state = Backlog_active | Backlog_recovering | Backlog_unknown | Backlog_recovered
datatype recovered_status = Calibration_pending | Promoted
datatype completion_status = Completion_pending | In_progress | Completed

fun recovery_value :: "recovery_state \<Rightarrow> ustr" where
  "recovery_value Backlog_active = u ''WORKER_BACKLOG_ACTIVE''"
| "recovery_value Backlog_recovering = u ''WORKER_BACKLOG_RECOVERING''"
| "recovery_value Backlog_unknown = u ''WORKER_BACKLOG_UNKNOWN''"
| "recovery_value Backlog_recovered = u ''WORKER_BACKLOG_RECOVERED''"

fun recovered_status_value :: "recovered_status \<Rightarrow> ustr" where
  "recovered_status_value Calibration_pending = u ''CALIBRATION_PENDING''"
| "recovered_status_value Promoted = u ''PROMOTED''"

fun completion_value :: "completion_status \<Rightarrow> ustr" where
  "completion_value Completion_pending = u ''CALIBRATION_PENDING''"
| "completion_value In_progress = u ''IN_PROGRESS''"
| "completion_value Completed = u ''COMPLETE''"

record recovery_policy =
  rp_profile :: ustr
  rp_version :: ustr
  rp_source_policy :: ustr
  rp_schema :: ustr
  rp_activation_policy :: ustr
  rp_activation_evaluator :: ustr
  rp_activation_ruleset :: ustr
  rp_context :: ustr
  rp_namespace :: ustr
  rp_topic :: ustr
  rp_group :: ustr
  rp_partition_count :: nat
  rp_interval_min :: pyfloat
  rp_interval_max :: pyfloat
  rp_count :: nat
  rp_body_status :: ustr
  rp_ha :: bool
  rp_primary :: bool
  rp_status :: recovered_status
  rp_contract :: "ustr option"
  rp_workload :: "ustr option"
  rp_target :: "int option"
  rp_produce_min :: "pyfloat option"
  rp_produce_max :: "pyfloat option"
  rp_lag_max :: "int option"
  rp_slope_max :: "pyfloat option"
  rp_recovered_count :: "nat option"
  rp_experiment :: ustr
  rp_provenance :: ustr

definition recovery_v1 :: recovery_policy where
  "recovery_v1 = \<lparr>rp_profile = u ''local-ha'', rp_version = u ''worker-backlog-local-ha.recovery.v1'',
     rp_source_policy = u ''local-ha.evidence.v1'', rp_schema = u ''ops.conditions.v2'',
     rp_activation_policy = u ''local-ha.conditions.v2'', rp_activation_evaluator = u ''ops.evaluator.v2'',
     rp_activation_ruleset = u ''ops.conditions.rules.v2'', rp_context = u ''kind-messaging-ha'',
     rp_namespace = u ''messaging-app'', rp_topic = u ''message-ingress'', rp_group = u ''message-worker'',
     rp_partition_count = 8, rp_interval_min = Fin 9, rp_interval_max = Fin 21, rp_count = 3,
     rp_body_status = u ''ready'', rp_ha = True, rp_primary = True, rp_status = Calibration_pending,
     rp_contract = None, rp_workload = None, rp_target = None, rp_produce_min = None, rp_produce_max = None,
     rp_lag_max = None, rp_slope_max = None, rp_recovered_count = None, rp_experiment = u ''20260816T100600Z'',
     rp_provenance = u ''results/ops-agent/recovery-calibration/20260816T100600Z/analysis.json''\<rparr>"

definition recovery_v2 :: recovery_policy where
  "recovery_v2 = recovery_v1\<lparr>rp_version := u ''worker-backlog-local-ha.recovery.v2'', rp_status := Promoted,
     rp_contract := Some (u ''local-ha.medium-reentry-candidate.v1''), rp_workload := Some (u ''MEDIUM''),
     rp_target := Some 75, rp_produce_min := Some (float64 7498333333333333 100000000000000),
     rp_produce_max := Some (float64 7708333333333333 100000000000000), rp_lag_max := Some 22,
     rp_slope_max := Some (Fin 0), rp_recovered_count := Some 3,
     rp_experiment := u ''20260816T100600Z+20260816T194023Z'',
     rp_provenance := u ''results/ops-agent/recovered-calibration/20260816T194023Z/analysis.json''\<rparr>"

definition is_v2 :: "recovery_policy \<Rightarrow> bool" where
  "is_v2 p \<longleftrightarrow> ends_with (u ''.v2'') (rp_version p)"

text \<open>
  The literal fields of the model, and \<open>validate_versioned_recovered_policy\<close>; the literals of
  the recovered contract are absent or the promoted values.
\<close>

definition literal_or_none :: "'a option \<Rightarrow> 'a option \<Rightarrow> bool" where
  "literal_or_none x l \<longleftrightarrow> x = None \<or> x = l"

definition recovery_literals_ok :: "recovery_policy \<Rightarrow> bool" where
  "recovery_literals_ok p \<longleftrightarrow>
     rp_version p \<in> {rp_version recovery_v1, rp_version recovery_v2}
     \<and> rp_experiment p \<in> {rp_experiment recovery_v1, rp_experiment recovery_v2}
     \<and> literal_or_none (rp_contract p) (rp_contract recovery_v2)
     \<and> literal_or_none (rp_workload p) (rp_workload recovery_v2)
     \<and> literal_or_none (rp_target p) (rp_target recovery_v2)
     \<and> literal_or_none (rp_produce_min p) (rp_produce_min recovery_v2)
     \<and> literal_or_none (rp_produce_max p) (rp_produce_max recovery_v2)
     \<and> literal_or_none (rp_lag_max p) (rp_lag_max recovery_v2)
     \<and> literal_or_none (rp_slope_max p) (rp_slope_max recovery_v2)
     \<and> literal_or_none (rp_recovered_count p) (rp_recovered_count recovery_v2)
     \<and> rp_profile p = rp_profile recovery_v1 \<and> rp_source_policy p = rp_source_policy recovery_v1
     \<and> rp_schema p = rp_schema recovery_v1 \<and> rp_activation_policy p = rp_activation_policy recovery_v1
     \<and> rp_activation_evaluator p = rp_activation_evaluator recovery_v1
     \<and> rp_activation_ruleset p = rp_activation_ruleset recovery_v1 \<and> rp_context p = rp_context recovery_v1
     \<and> rp_namespace p = rp_namespace recovery_v1 \<and> rp_topic p = rp_topic recovery_v1
     \<and> rp_group p = rp_group recovery_v1 \<and> rp_partition_count p = 8 \<and> rp_interval_min p = Fin 9
     \<and> rp_interval_max p = Fin 21 \<and> rp_count p = 3 \<and> rp_body_status p = u ''ready'' \<and> rp_ha p \<and> rp_primary p"

definition recovered_values_none :: "recovery_policy \<Rightarrow> bool list" where
  "recovered_values_none p =
     [rp_contract p = None, rp_workload p = None, rp_target p = None, rp_produce_min p = None,
      rp_produce_max p = None, rp_lag_max p = None, rp_slope_max p = None, rp_recovered_count p = None]"

definition versioned_policy_ok :: "recovery_policy \<Rightarrow> bool" where
  "versioned_policy_ok p \<longleftrightarrow>
     (if ends_with (u ''.v1'') (rp_version p)
      then rp_status p = Calibration_pending \<and> list_all (\<lambda>none. none) (recovered_values_none p)
           \<and> rp_experiment p = rp_experiment recovery_v1 \<and> rp_provenance p = rp_provenance recovery_v1
      else rp_status p = Promoted \<and> list_all (\<lambda>none. \<not> none) (recovered_values_none p)
           \<and> rp_experiment p = rp_experiment recovery_v2 \<and> rp_provenance p = rp_provenance recovery_v2)"

definition recovery_policy_ok :: "recovery_policy \<Rightarrow> bool" where
  "recovery_policy_ok p \<longleftrightarrow> recovery_literals_ok p \<and> versioned_policy_ok p"

section \<open>Observations of one bundle\<close>

definition logical_incident_matches :: "ustr \<Rightarrow> ustr \<Rightarrow> bool" where
  "logical_incident_matches source incident \<longleftrightarrow>
     source = incident \<or> starts_with (incident @ [45]) source"

definition recovery_scope_issues :: "recovery_policy \<Rightarrow> evidence_bundle \<Rightarrow> ustr list" where
  "recovery_scope_issues p b =
     emit (\<not> (bu_profile b = rp_profile p \<and> sc_context (bu_scope b) = Some (rp_context p)
              \<and> sc_namespace (bu_scope b) = rp_namespace p \<and> sc_topic (bu_scope b) = rp_topic p
              \<and> sc_group (bu_scope b) = rp_group p \<and> bc_policy_version (bu_context b) = rp_source_policy p))
       (u ''RECOVERY_SCOPE_MISMATCH'')"

record recovery_identity =
  ri_condition :: "ustr option"
  ri_recovery :: "ustr option"
  ri_partitions :: "ustr list"
  ri_timestamp :: "stamp option"
  ri_issues :: "ustr list"

definition endpoint_issues :: "string \<Rightarrow> endpoint_issue + ustr \<Rightarrow> ustr list" where
  "endpoint_issues source e = (case e of Inl i \<Rightarrow> [u source @ endpoint_issue_code i] | Inr _ \<Rightarrow> [])"

definition recovery_source_identity :: "opslib \<Rightarrow> evidence_bundle \<Rightarrow> exn + recovery_identity" where
  "recovery_source_identity O' b =
     rbind (partition_set_of b) (\<lambda>partitions.
      let prom = endpoint_identity_of O' b ''prometheus''; app = endpoint_identity_of O' b ''application'';
          exporter = sole (exporter_identities b); ts = kafka_source_timestamp b;
          issues = endpoint_issues ''PROMETHEUS'' prom @ endpoint_issues ''APPLICATION'' app
            @ emit (exporter = None) (u ''KAFKA_EXPORTER_IDENTITY_UNUSABLE'')
            @ emit (ts = None) (u ''KAFKA_SOURCE_TIMESTAMP_UNUSABLE'');
          condition = (case (prom, exporter) of
              (Inr e, Some x) \<Rightarrow> if issues = [] then Some (condition_identity O' b e x partitions) else None
            | _ \<Rightarrow> None);
          recovery = (case (condition, app) of
              (Some c, Inr a) \<Rightarrow> Some (canonical_sha256 (py O') (JObj
                 [(u ''condition_source_identity_sha256'', JStr c), (u ''application_endpoint_identity_sha256'', JStr a)]))
            | _ \<Rightarrow> None)
      in Inr \<lparr>ri_condition = condition, ri_recovery = recovery, ri_partitions = partitions, ri_timestamp = ts,
              ri_issues = sorted_set issues\<rparr>)"

definition postgres_fields :: "string list" where
  "postgres_fields = [''ha_mode'', ''primary_reachable'', ''standby_count'', ''sync_standby_count'',
     ''max_replication_delay_bytes'']"

definition readiness_item_issues :: "item \<Rightarrow> string \<Rightarrow> ustr list" where
  "readiness_item_issues i semantic =
     emit (it_status i \<noteq> Ev_ok) (u ''POSTGRES_READINESS_STATUS_UNUSABLE'')
     @ emit (fr_status (it_freshness i) \<noteq> Fresh) (u ''POSTGRES_READINESS_NOT_FRESH'')
     @ emit (it_source i \<noteq> u ''application'' \<or> it_tool i \<noteq> u ''application.readiness.get.v1''
             \<or> se_type (it_semantic i) \<noteq> u semantic \<or> label i ''endpoint'' \<noteq> Some (u ''/health/ready''))
         (u ''POSTGRES_READINESS_SELECTOR_MISMATCH'')"

record postgres_observation =
  po_ready :: "bool option"
  po_context :: obj
  po_issues :: "ustr list"
  po_ids :: "ustr list"

definition mapping_or_empty :: "json \<Rightarrow> obj" where
  "mapping_or_empty v = (case v of JObj d \<Rightarrow> d | _ \<Rightarrow> [])"

definition is_mapping :: "json \<Rightarrow> bool" where
  "is_mapping v \<longleftrightarrow> py_type v = TDict"

definition read_recovery_postgres ::
  "recovery_policy \<Rightarrow> ustr list \<Rightarrow> ustr list \<Rightarrow> obj \<Rightarrow> obj \<Rightarrow> postgres_observation" where
  "read_recovery_postgres p ids issues readiness postgres =
     (let body = get_none readiness ''body''; bd = mapping_or_empty body;
          reason = get_none bd ''reason''; reasons = (case reason of JArr xs \<Rightarrow> xs | _ \<Rightarrow> []);
          nested = get_none bd ''postgres''; nd = mapping_or_empty nested;
          http = get_none readiness ''http_status''; status = get_none readiness ''body_status'';
          issues' = issues @ emit (\<not> is_mapping body) (u ''POSTGRES_READINESS_BODY_INVALID'')
            @ emit (py_type reason \<noteq> TList) (u ''POSTGRES_READINESS_REASON_INVALID'')
            @ emit (\<not> is_mapping nested) (u ''POSTGRES_READINESS_NESTED_COMPONENT_INVALID'')
            @ emit (list_ex (\<lambda>f. \<not> py_eq (get_none nd f) (get_none postgres f)) postgres_fields)
                (u ''POSTGRES_READINESS_COMPONENT_MISMATCH'');
          context = [(u ''http_status'', http), (u ''readiness_body_status'', status),
                     (u ''readiness_reasons'', JArr reasons)] @ pick postgres postgres_fields;
          ready = (issues' = [] \<and> py_eq http (JInt 200) \<and> status = JStr (rp_body_status p)
                   \<and> get_none bd ''status'' = JStr (rp_body_status p) \<and> reasons = []
                   \<and> get_none postgres ''ha_mode'' = JBool (rp_ha p)
                   \<and> get_none postgres ''primary_reachable'' = JBool (rp_primary p))
      in \<lparr>po_ready = Some ready, po_context = context,
          po_issues = sorted_set (issues' @ emit (\<not> ready) (u ''POSTGRES_REQUIRED_READINESS_NOT_ACCEPTABLE'')),
          po_ids = ids\<rparr>)"

definition postgres_observation_of :: "recovery_policy \<Rightarrow> evidence_bundle \<Rightarrow> postgres_observation" where
  "postgres_observation_of p b =
     (let rs = items_of b ''application_readiness_observation'';
          gs = items_of b ''application_postgres_runtime_observation''; ids = map it_id (rs @ gs)
      in case (rs, gs) of
           ([r], [g]) \<Rightarrow>
             (let issues = readiness_item_issues r ''application_readiness''
                    @ readiness_item_issues g ''application_postgres_runtime_observation''
                    @ emit (\<not> same_instant (it_source_ts r) (it_source_ts g)
                            \<or> micros (it_collected r) \<noteq> micros (it_collected g)
                            \<or> it_raw_sha r \<noteq> it_raw_sha g \<or> it_raw_sha r = None)
                        (u ''POSTGRES_READINESS_PROVENANCE_MISMATCH'')
              in case (me_value (it_metric r), me_value (it_metric g)) of
                   (JObj rd, JObj gd) \<Rightarrow> read_recovery_postgres p ids issues rd gd
                 | _ \<Rightarrow> \<lparr>po_ready = None, po_context = [],
                         po_issues = sorted_set (issues @ [u ''POSTGRES_READINESS_VALUE_INVALID'']), po_ids = ids\<rparr>)
         | _ \<Rightarrow> \<lparr>po_ready = None, po_context = [], po_issues = [u ''POSTGRES_READINESS_EVIDENCE_MISSING''],
                 po_ids = ids\<rparr>)"

section \<open>Kafka measurement of one bundle\<close>

record negative_point =
  np_id :: ustr
  np_partition :: ustr
  np_index :: nat
  np_timestamp :: pyfloat
  np_lag :: int
  np_end :: "int option"
  np_committed :: "int option"

text \<open>\<open>float(v)\<close>; \<open>None\<close> when it raises.\<close>

definition py_float :: "json \<Rightarrow> pyfloat option" where
  "py_float v =
     (case v of
        JInt i \<Rightarrow> Some (float64 i 1)
      | JFloat f \<Rightarrow> Some f
      | JBool x \<Rightarrow> Some (Fin (if x then 1 else 0))
      | JStr s \<Rightarrow> (case parse_decimal s of
                    Some (Dec c e) \<Rightarrow> Some (dec_float (Dec c e))
                  | Some (DecInf neg) \<Rightarrow> Some (if neg then NegInf else PosInf)
                  | Some DecNaN \<Rightarrow> Some NaN
                  | None \<Rightarrow> None)
      | _ \<Rightarrow> None)"

definition integral_decimal :: "opslib \<Rightarrow> json \<Rightarrow> int option" where
  "integral_decimal O' v =
     (case to_decimal O' v of
        Some x \<Rightarrow> if dec_finite x \<and> dec_integral x then Some (dec_int x) else None
      | None \<Rightarrow> None)"

definition sample_field :: "json \<Rightarrow> string \<Rightarrow> json option" where
  "sample_field s field = (case s of JObj d \<Rightarrow> get_key d field | _ \<Rightarrow> None)"

text \<open>\<open>offset_value\<close>: the integral value of the sample at the same index, if any.\<close>

definition offset_value :: "opslib \<Rightarrow> nat \<Rightarrow> item option \<Rightarrow> int option" where
  "offset_value O' k source =
     (case source of
        None \<Rightarrow> None
      | Some i \<Rightarrow>
          (case me_value (it_metric i) of
             JArr ss \<Rightarrow> if k < length ss then Option.bind (sample_field (ss ! k) ''value'') (integral_decimal O') else None
           | _ \<Rightarrow> None))"

definition negative_point_of ::
  "opslib \<Rightarrow> item option \<Rightarrow> item option \<Rightarrow> item \<Rightarrow> ustr \<Rightarrow> nat \<Rightarrow> json \<Rightarrow> negative_point list" where
  "negative_point_of O' ends comm lag q k s =
     (case (Option.bind (sample_field s ''value'') (integral_decimal O'), Option.bind (sample_field s ''timestamp'') py_float) of
        (Some v, Some t) \<Rightarrow>
          emit (v < 0) \<lparr>np_id = it_id lag, np_partition = q, np_index = k, np_timestamp = t, np_lag = v,
                        np_end = offset_value O' k ends, np_committed = offset_value O' k comm\<rparr>
      | _ \<Rightarrow> [])"

definition negative_lag_points :: "opslib \<Rightarrow> evidence_bundle \<Rightarrow> negative_point list" where
  "negative_lag_points O' b =
     (let ends = measured_family b ''kafka_topic_partition_current_offset'';
          comm = measured_family b ''kafka_consumergroup_current_offset'';
          lags = measured_family b ''kafka_consumergroup_lag'';
          of_partition = (\<lambda>(q, lag). case me_value (it_metric lag) of
             JArr ss \<Rightarrow> concat (map (\<lambda>(k, s). negative_point_of O' (map_of ends q) (map_of comm q) lag q k s)
                                (enumerate 0 ss))
           | _ \<Rightarrow> [])
      in sort_key (\<lambda>n. (the (py_int_text (np_partition n)), np_index n)) (concat (map of_partition lags)))"

record offsets =
  of_end :: int
  of_committed :: int

record kafka_observation =
  ko_total :: "dec option"
  ko_slope :: "pyfloat option"
  ko_produce :: "pyfloat option"
  ko_committed :: "pyfloat option"
  ko_consistent :: "bool option"
  ko_offsets :: "(ustr \<times> offsets) list"
  ko_issues :: "ustr list"
  ko_ids :: "ustr list"
  ko_negative :: "negative_point list"

definition core_issue_codes :: "condition_evaluation \<Rightarrow> ustr list" where
  "core_issue_codes e = sorted_set (map is_code (concat (map tr_issues (cr_required (condition_of (ce_conditions e) Core_backlog)))))"

definition core_evidence_ids :: "condition_evaluation \<Rightarrow> ustr list" where
  "core_evidence_ids e = sorted_set (concat (map tr_ids (cr_required (condition_of (ce_conditions e) Core_backlog))))"

definition rates_consistent :: "pyfloat \<Rightarrow> pyfloat \<Rightarrow> pyfloat \<Rightarrow> bool" where
  "rates_consistent produce committed slope \<longleftrightarrow>
     f_less_eq (f_abs (f_sub (f_sub produce committed) slope)) (float64 1 1000000000)"

definition kafka_observation_of :: "opslib \<Rightarrow> evidence_bundle \<Rightarrow> kafka_observation" where
  "kafka_observation_of O' b =
     (let (codes, ids) = (case evaluate_bundle O' local_ha_policy b of
             Inl _ \<Rightarrow> ([u ''KAFKA_EVALUATION_SCOPE_INCOMPATIBLE''],
                      sort (map it_id (concat (map (items_of b) kafka_metrics))))
           | Inr e \<Rightarrow> (core_issue_codes e, core_evidence_ids e));
          negative = negative_lag_points O' b;
          kafka = (case summarize_bundle O' b of Inl _ \<Rightarrow> None | Inr s \<Rightarrow> Some (su_kafka s));
          anomalies = (case kafka of None \<Rightarrow> [] | Some k \<Rightarrow> ks_anomalies k);
          produce = Option.bind kafka ks_produce; committed = Option.bind kafka ks_committed;
          slope = Option.bind kafka ks_slope;
          consistent = (case (produce, committed, slope) of
             (Some a, Some c, Some s) \<Rightarrow> Some (rates_consistent a c s) | _ \<Rightarrow> None);
          codes' = codes @ emit (negative \<noteq> []) (u ''NEGATIVE_EXPORTER_LAG_INVALID'')
            @ emit (kafka = None) (u ''KAFKA_MEASUREMENT_INVALID'')
            @ map (\<lambda>a. u ''KAFKA_'' @ upper_of O' a) anomalies
            @ (case consistent of None \<Rightarrow> [u ''RECOVERY_RATE_MEASUREMENT_UNAVAILABLE'']
                | Some c \<Rightarrow> emit (\<not> c) (u ''RECOVERY_RATE_LAG_ARITHMETIC_MISMATCH''))
      in \<lparr>ko_total = Option.bind kafka ks_total, ko_slope = slope, ko_produce = produce, ko_committed = committed,
          ko_consistent = consistent,
          ko_offsets = (case kafka of None \<Rightarrow> []
             | Some k \<Rightarrow> map (\<lambda>(q, s). (q, \<lparr>of_end = dec_int (ps_end s), of_committed = dec_int (ps_committed s)\<rparr>))
                 (filter (\<lambda>(q, s). dec_integral (ps_end s) \<and> dec_integral (ps_committed s)) (ks_partitions k))),
          ko_issues = sorted_set codes', ko_ids = ids, ko_negative = negative\<rparr>)"

section \<open>The activation\<close>

record activation_reference =
  ar_id :: ustr
  ar_state :: condition_state
  ar_digests :: "ustr list"
  ar_completed :: stamp
  ar_kafka :: "stamp option"
  ar_identity :: "ustr option"

definition source_identities :: "sequence_evaluation \<Rightarrow> ustr list" where
  "source_identities a = remdups (List.map_filter so_identity (sv_observations a))"

definition core_of :: "sequence_evaluation \<Rightarrow> condition_result" where
  "core_of a = condition_of (sv_conditions a) Core_backlog"

definition activation_reference :: "sequence_evaluation \<Rightarrow> activation_reference" where
  "activation_reference a =
     \<lparr>ar_id = sv_id a, ar_state = cr_state (core_of a), ar_digests = map sq_sha256 (sv_sources a),
      ar_completed = sq_completed (last (sv_sources a)), ar_kafka = sq_kafka (last (sv_sources a)),
      ar_identity = sole (source_identities a)\<rparr>"

definition activation_issues :: "recovery_policy \<Rightarrow> ustr \<Rightarrow> sequence_evaluation \<Rightarrow> ustr list" where
  "activation_issues p incident a =
     sorted_set
      (emit (cr_state (core_of a) \<noteq> Present) (u ''ACTIVATION_STATE_NOT_PRESENT'')
       @ emit (rp_schema p \<noteq> u ''ops.conditions.v2'' \<or> rp_activation_evaluator p \<noteq> u ''ops.evaluator.v2''
               \<or> rp_activation_ruleset p \<noteq> u ''ops.conditions.rules.v2''
               \<or> ep_version (sv_policy a) \<noteq> rp_activation_policy p \<or> ep_profile (sv_policy a) \<noteq> rp_profile p
               \<or> ep_context (sv_policy a) \<noteq> rp_context p \<or> ep_namespace (sv_policy a) \<noteq> rp_namespace p
               \<or> ep_topic (sv_policy a) \<noteq> rp_topic p \<or> ep_group (sv_policy a) \<noteq> rp_group p)
           (u ''ACTIVATION_POLICY_MISMATCH'')
       @ emit (\<not> list_all (\<lambda>r. logical_incident_matches (sq_incident r) incident) (sv_sources a))
           (u ''ACTIVATION_INCIDENT_IDENTITY_MISMATCH'')
       @ emit (length (source_identities a) \<noteq> 1) (u ''ACTIVATION_SOURCE_IDENTITY_UNUSABLE''))"

section \<open>The captures after the activation\<close>

record recovery_reference =
  rr_index :: nat
  rr_bundle :: ustr
  rr_incident :: ustr
  rr_expected :: ustr
  rr_actual :: ustr
  rr_started :: stamp
  rr_completed :: stamp
  rr_kafka :: "stamp option"

record raw_observation =
  ro_index :: nat
  ro_bundle :: ustr
  ro_sha256 :: ustr
  ro_usable :: bool
  ro_issues :: "ustr list"
  ro_condition :: "ustr option"
  ro_recovery :: "ustr option"
  ro_kafka :: "stamp option"
  ro_partitions :: "ustr list"
  ro_total :: "int option"
  ro_slope :: "pyfloat option"
  ro_produce :: "pyfloat option"
  ro_committed :: "pyfloat option"
  ro_consistent :: "bool option"
  ro_offsets :: "(ustr \<times> offsets) list"
  ro_ready :: "bool option"
  ro_postgres :: obj
  ro_worker :: json
  ro_keda :: json
  ro_stage :: json
  ro_evidence :: "ustr list"
  ro_negative :: "negative_point list"

definition global_integrity_issues :: "ustr list" where
  "global_integrity_issues = map u
     [''ACTIVATION_INCIDENT_IDENTITY_MISMATCH'', ''ACTIVATION_POLICY_MISMATCH'',
      ''ACTIVATION_SOURCE_IDENTITY_UNUSABLE'', ''ACTIVATION_STATE_NOT_PRESENT'',
      ''RECOVERY_BUNDLE_DIGEST_MISMATCH'', ''RECOVERY_CAPTURE_NOT_POST_ACTIVATION'',
      ''RECOVERY_COLLECTION_TIMESTAMPS_REORDERED'', ''RECOVERY_CONDITION_SOURCE_IDENTITY_MISMATCH'',
      ''RECOVERY_INCIDENT_IDENTITY_MISMATCH'', ''RECOVERY_OFFSET_DECREASE_OR_RESET'',
      ''RECOVERY_SCOPE_MISMATCH'', ''RECOVERY_SOURCE_IDENTITY_MISMATCH'']"

text \<open>What the loop over the captures carries along.\<close>

record stream =
  st_collection :: stamp
  st_kafka :: "stamp option"
  st_identity :: "ustr option"
  st_broken :: bool
  st_offsets :: "(ustr \<times> offsets) list option"

definition initial_stream :: "ustr list \<Rightarrow> activation_reference \<Rightarrow> stream" where
  "initial_stream problems a = \<lparr>st_collection = ar_completed a, st_kafka = ar_kafka a, st_identity = None,
     st_broken = (problems \<noteq> []), st_offsets = None\<rparr>"

definition interval_issues :: "recovery_policy \<Rightarrow> stamp option \<Rightarrow> stamp option \<Rightarrow> ustr list" where
  "interval_issues p source previous =
     (case (source, previous) of
        (Some s, Some q) \<Rightarrow>
          (let interval = total_seconds s q
           in if f_less_eq interval (Fin 0) then [u ''RECOVERY_KAFKA_SOURCE_TIMESTAMPS_REORDERED'']
              else emit (\<not> (f_less_eq (rp_interval_min p) interval \<and> f_less_eq interval (rp_interval_max p)))
                (u ''RECOVERY_CAPTURE_INTERVAL_OUTSIDE_TOLERANCE''))
      | _ \<Rightarrow> [u ''RECOVERY_KAFKA_SOURCE_TIMESTAMP_UNUSABLE''])"

definition offsets_decreased :: "(ustr \<times> offsets) list option \<Rightarrow> (ustr \<times> offsets) list \<Rightarrow> bool" where
  "offsets_decreased previous now =
     (case previous of
        None \<Rightarrow> False
      | Some d \<Rightarrow> list_ex (\<lambda>(q, v). case map_of d q of
                     None \<Rightarrow> True
                   | Some w \<Rightarrow> of_end v < of_end w \<or> of_committed v < of_committed w) now)"

text \<open>All readings of one bundle, before they are compared with the stream.\<close>

record readings =
  rd_identity :: recovery_identity
  rd_kafka :: kafka_observation
  rd_postgres :: postgres_observation
  rd_summary :: bundle_summary

definition readings_of :: "opslib \<Rightarrow> recovery_policy \<Rightarrow> evidence_bundle \<Rightarrow> exn + readings" where
  "readings_of O' p b =
     rbind (recovery_source_identity O' b) (\<lambda>ident.
     rbind (summarize_bundle O' b) (\<lambda>summary.
       Inr \<lparr>rd_identity = ident, rd_kafka = kafka_observation_of O' b, rd_postgres = postgres_observation_of p b,
            rd_summary = summary\<rparr>))"

definition capture_issues ::
  "opslib \<Rightarrow> recovery_policy \<Rightarrow> ustr \<Rightarrow> ustr list \<Rightarrow> activation_reference \<Rightarrow> stream \<Rightarrow> evidence_bundle \<Rightarrow> ustr
     \<Rightarrow> readings \<Rightarrow> ustr list" where
  "capture_issues O' p incident problems a st b expected r =
     (let ident = rd_identity r; c = bu_collection b
      in sorted_set
        (problems @ recovery_scope_issues p b @ ri_issues ident @ ko_issues (rd_kafka r) @ po_issues (rd_postgres r)
         @ emit (bundle_digest O' b \<noteq> expected) (u ''RECOVERY_BUNDLE_DIGEST_MISMATCH'')
         @ emit (\<not> logical_incident_matches (bu_incident b) incident) (u ''RECOVERY_INCIDENT_IDENTITY_MISMATCH'')
         @ emit (micros (co_started c) \<le> micros (ar_completed a)) (u ''RECOVERY_CAPTURE_NOT_POST_ACTIVATION'')
         @ emit (micros (co_completed c) \<le> micros (st_collection st)) (u ''RECOVERY_COLLECTION_TIMESTAMPS_REORDERED'')
         @ emit (ri_condition ident \<noteq> ar_identity a) (u ''RECOVERY_CONDITION_SOURCE_IDENTITY_MISMATCH'')
         @ emit (\<not> (st_identity st = None \<and> ri_recovery ident \<noteq> None) \<and> ri_recovery ident \<noteq> st_identity st)
             (u ''RECOVERY_SOURCE_IDENTITY_MISMATCH'')
         @ emit (ri_partitions ident \<noteq> partition_names (rp_partition_count p)) (u ''RECOVERY_PARTITION_IDENTITY_MISMATCH'')
         @ interval_issues p (ri_timestamp ident) (st_kafka st)
         @ emit (offsets_decreased (st_offsets st) (ko_offsets (rd_kafka r))) (u ''RECOVERY_OFFSET_DECREASE_OR_RESET'')))"

definition broken_after :: "stream \<Rightarrow> ustr list \<Rightarrow> bool" where
  "broken_after st issues \<longleftrightarrow> st_broken st \<or> list_ex (\<lambda>i. i \<in> set global_integrity_issues) issues"

definition final_issues :: "stream \<Rightarrow> ustr list \<Rightarrow> ustr list" where
  "final_issues st issues =
     (if broken_after st issues then sorted_set (issues @ [u ''RECOVERY_SEQUENCE_INTEGRITY_BROKEN'']) else issues)"

definition next_stream :: "stream \<Rightarrow> evidence_bundle \<Rightarrow> readings \<Rightarrow> ustr list \<Rightarrow> stream" where
  "next_stream st b r issues =
     \<lparr>st_collection = co_completed (bu_collection b), st_kafka = ri_timestamp (rd_identity r),
      st_identity = (if st_identity st = None then ri_recovery (rd_identity r) else st_identity st),
      st_broken = broken_after st issues,
      st_offsets = (if ko_offsets (rd_kafka r) \<noteq> [] then Some (ko_offsets (rd_kafka r)) else st_offsets st)\<rparr>"

definition raw_of ::
  "nat \<Rightarrow> ustr \<Rightarrow> evidence_bundle \<Rightarrow> readings \<Rightarrow> ustr list \<Rightarrow> raw_observation" where
  "raw_of index digest b r issues =
     (let k = rd_kafka r; ident = rd_identity r; pg = rd_postgres r; su = rd_summary r
      in \<lparr>ro_index = index, ro_bundle = bu_id b, ro_sha256 = digest, ro_usable = (issues = []), ro_issues = issues,
          ro_condition = ri_condition ident, ro_recovery = ri_recovery ident, ro_kafka = ri_timestamp ident,
          ro_partitions = ri_partitions ident, ro_total = map_option dec_int (ko_total k), ro_slope = ko_slope k,
          ro_produce = ko_produce k, ro_committed = ko_committed k, ro_consistent = ko_consistent k,
          ro_offsets = ko_offsets k, ro_ready = po_ready pg, ro_postgres = po_context pg, ro_worker = su_worker su,
          ro_keda = su_keda su, ro_stage = su_stage su, ro_evidence = sorted_set (ko_ids k @ po_ids pg),
          ro_negative = ko_negative k\<rparr>)"

definition reference_of :: "nat \<Rightarrow> ustr \<Rightarrow> ustr \<Rightarrow> evidence_bundle \<Rightarrow> readings \<Rightarrow> recovery_reference" where
  "reference_of index digest expected b r =
     \<lparr>rr_index = index, rr_bundle = bu_id b, rr_incident = bu_incident b, rr_expected = expected, rr_actual = digest,
      rr_started = co_started (bu_collection b), rr_completed = co_completed (bu_collection b),
      rr_kafka = ri_timestamp (rd_identity r)\<rparr>"

text \<open>The lag of an observation must be a nonnegative integer.\<close>

definition total_ok :: "readings \<Rightarrow> bool" where
  "total_ok r \<longleftrightarrow> opt_ok (\<lambda>x. dec_integral x \<and> dec_int x \<ge> 0) (ko_total (rd_kafka r))"

fun observe_stream ::
  "opslib \<Rightarrow> recovery_policy \<Rightarrow> ustr \<Rightarrow> ustr list \<Rightarrow> activation_reference \<Rightarrow> nat \<Rightarrow> stream
     \<Rightarrow> (evidence_bundle \<times> ustr) list \<Rightarrow> exn + (recovery_reference \<times> raw_observation) list" where
  "observe_stream O' p incident problems a k st [] = Inr []"
| "observe_stream O' p incident problems a k st ((b, expected) # bs) =
     rbind (readings_of O' p b) (\<lambda>r.
      let issues = capture_issues O' p incident problems a st b expected r; digest = bundle_digest O' b
      in guard (total_ok r) (value_error ''ValidationError'')
           (rbind (observe_stream O' p incident problems a (Suc k) (next_stream st b r issues) bs) (\<lambda>rest.
              Inr ((reference_of k digest expected b r, raw_of k digest b r (final_issues st issues)) # rest))))"

section \<open>The state after each capture\<close>

record recovery_observation = raw_observation +
  rv_state :: recovery_state
  rv_reasons :: "ustr list"

definition draining :: "raw_observation \<Rightarrow> bool" where
  "draining r \<longleftrightarrow>
     (case (ro_slope r, ro_produce r, ro_committed r) of
        (Some s, Some a, Some c) \<Rightarrow> f_less s (Fin 0) \<and> f_less_eq a c \<and> ro_consistent r = Some True
      | _ \<Rightarrow> False)"

definition with_state :: "raw_observation \<Rightarrow> recovery_state \<Rightarrow> ustr list \<Rightarrow> recovery_observation" where
  "with_state r st reasons = raw_observation.extend r \<lparr>rv_state = st, rv_reasons = reasons\<rparr>"

definition candidate_window :: "nat \<Rightarrow> raw_observation list \<Rightarrow> nat \<Rightarrow> raw_observation list" where
  "candidate_window n raws k = (let avail = min n (k + 1) in take avail (drop (k + 1 - avail) raws))"

definition window_state :: "nat \<Rightarrow> raw_observation list \<Rightarrow> nat \<Rightarrow> recovery_state" where
  "window_state n raws k =
     (let w = candidate_window n raws k
      in if list_ex (\<lambda>r. \<not> ro_usable r) w then Backlog_unknown
         else if k + 1 < n then Backlog_active
         else if list_all draining w then Backlog_recovering
         else Backlog_active)"

definition window_reasons :: "nat \<Rightarrow> raw_observation list \<Rightarrow> bool \<Rightarrow> nat \<Rightarrow> ustr list" where
  "window_reasons n raws seen k =
     (let w = candidate_window n raws k
      in if list_ex (\<lambda>r. \<not> ro_usable r) w
         then (let issues = sorted_set (concat (map ro_issues w))
               in if issues = [] then [u ''RECOVERY_REQUIRED_EVIDENCE_UNUSABLE''] else issues)
         else if k + 1 < n then [u ''RECOVERY_WINDOW_INCOMPLETE_ACTIVE_REMAINS'']
         else if list_all draining w
         then [if list_all (\<lambda>r. case ro_produce r of Some a \<Rightarrow> f_eq a (Fin 0) | None \<Rightarrow> False) w
               then u ''BACKLOG_DRAINING_WITH_ZERO_INGRESS'' else u ''BACKLOG_DRAINING_UNDER_ACTIVE_INGRESS'',
               u ''THREE_CONSECUTIVE_FRESH_DRAINING_CAPTURES'', u ''COMMITTED_RATE_GUARDS_LAG_SLOPE_DIRECTION'',
               u ''POSTGRES_READINESS_ACCEPTABLE'']
         else [if seen then u ''BACKLOG_REGROWTH_OR_DRAIN_STOPPED_ACTIVE_REMAINS''
               else u ''RECOVERING_SEQUENCE_NOT_OBSERVED_ACTIVE_REMAINS''])"

definition seen_before :: "nat \<Rightarrow> raw_observation list \<Rightarrow> nat \<Rightarrow> bool" where
  "seen_before n raws k \<longleftrightarrow> list_ex (\<lambda>j. window_state n raws j = Backlog_recovering) [0..<k]"

definition classify :: "nat \<Rightarrow> raw_observation list \<Rightarrow> recovery_observation list" where
  "classify n raws =
     map (\<lambda>k. with_state (raws ! k) (window_state n raws k) (window_reasons n raws (seen_before n raws k) k))
       [0..<length raws]"

definition matched_recovering_windows :: "nat \<Rightarrow> raw_observation list \<Rightarrow> nat list list" where
  "matched_recovering_windows n raws =
     map (\<lambda>k. map ro_index (candidate_window n raws k))
       (filter (\<lambda>k. window_state n raws k = Backlog_recovering) [0..<length raws])"

definition within_recovered_envelope :: "recovery_policy \<Rightarrow> recovery_observation \<Rightarrow> bool" where
  "within_recovered_envelope p r \<longleftrightarrow>
     rp_status p = Promoted \<and> ro_usable r \<and> ro_ready r = Some True \<and> ro_consistent r = Some True
     \<and> (case (ro_total r, rp_lag_max p) of (Some l, Some m) \<Rightarrow> l \<le> m | _ \<Rightarrow> False)
     \<and> (case (ro_slope r, rp_slope_max p) of (Some s, Some m) \<Rightarrow> f_less_eq s m | _ \<Rightarrow> False)
     \<and> (case (ro_produce r, rp_produce_min p, rp_produce_max p) of
          (Some a, Some lo, Some hi) \<Rightarrow> f_less_eq lo a \<and> f_less_eq a hi | _ \<Rightarrow> False)
     \<and> (case (ro_committed r, ro_produce r) of (Some c, Some a) \<Rightarrow> f_less_eq a c | _ \<Rightarrow> False)"

text \<open>The indexes of the current run inside the envelope, once recovering was seen.\<close>

fun reentry :: "recovery_policy \<Rightarrow> bool \<Rightarrow> nat list \<Rightarrow> recovery_observation list \<Rightarrow> nat list" where
  "reentry p seen run [] = run"
| "reentry p seen run (r # rs) =
     (let seen' = (seen \<or> rv_state r = Backlog_recovering)
      in reentry p seen' (if seen' \<and> within_recovered_envelope p r then run @ [ro_index r] else []) rs)"

definition recovered_window :: "recovery_policy \<Rightarrow> recovery_observation list \<Rightarrow> nat list" where
  "recovered_window p obs =
     (let run = reentry p False [] obs
      in case rp_recovered_count p of
           Some n \<Rightarrow> if is_v2 p \<and> n \<le> length run then drop (length run - n) run else []
         | None \<Rightarrow> [])"

definition recovered_reasons :: "ustr list" where
  "recovered_reasons = map u
     [''MEDIUM_ENVELOPE_REENTRY_STABLE_THREE_CAPTURES'', ''REQUIRED_EVIDENCE_USABLE_AND_FRESH'',
      ''POSTGRES_READINESS_ACCEPTABLE'', ''GLOBAL_SYSTEM_HEALTH_NOT_INFERRED'']"

definition finish_observations :: "recovery_policy \<Rightarrow> recovery_observation list \<Rightarrow> recovery_observation list" where
  "finish_observations p obs =
     (if recovered_window p obs = [] then obs
      else butlast obs @ [(last obs)\<lparr>rv_state := Backlog_recovered, rv_reasons := recovered_reasons\<rparr>])"

section \<open>The evaluation of a recovery\<close>

record recovery_window =
  rw_required :: nat
  rw_evaluated :: "nat list"
  rw_matched :: "nat list list"
  rw_first :: stamp
  rw_last :: stamp
  rw_captures :: nat

record recovery_completion =
  rc_status :: completion_status
  rc_reasons :: "ustr list"

record recovery_evaluation =
  re_id :: ustr
  re_status :: evaluation_status
  re_evaluator :: ustr
  re_ruleset :: ustr
  re_incident :: ustr
  re_activation :: activation_reference
  re_policy :: recovery_policy
  re_state :: recovery_state
  re_reasons :: "ustr list"
  re_sources :: "recovery_reference list"
  re_observations :: "recovery_observation list"
  re_window :: recovery_window
  re_evidence :: "ustr list"
  re_completion :: recovery_completion

definition dump_activation :: "opslib \<Rightarrow> activation_reference \<Rightarrow> json" where
  "dump_activation O' a = JObj
     [(u ''schema_version'', JStr (u ''ops.conditions.v2'')), (u ''evaluation_id'', JStr (ar_id a)),
      (u ''evaluator_version'', JStr (u ''ops.evaluator.v2'')),
      (u ''ruleset_version'', JStr (u ''ops.conditions.rules.v2'')),
      (u ''policy_version'', JStr (u ''local-ha.conditions.v2'')), (u ''condition'', JStr (u ''CORE_BACKLOG_PRESSURE'')),
      (u ''condition_state'', JStr (state_value (ar_state a))), (u ''source_bundle_digests'', jstrs (ar_digests a)),
      (u ''last_collection_completed_at'', jstamp O' (ar_completed a)),
      (u ''last_kafka_source_timestamp'', jopt (jstamp O') (ar_kafka a)),
      (u ''source_identity_sha256'', jopt JStr (ar_identity a))]"

definition dump_recovery_policy :: "recovery_policy \<Rightarrow> json" where
  "dump_recovery_policy p = JObj
     [(u ''profile'', JStr (rp_profile p)), (u ''policy_version'', JStr (rp_version p)),
      (u ''source_evidence_policy_version'', JStr (rp_source_policy p)),
      (u ''activation_schema_version'', JStr (rp_schema p)),
      (u ''activation_policy_version'', JStr (rp_activation_policy p)),
      (u ''activation_evaluator_version'', JStr (rp_activation_evaluator p)),
      (u ''activation_ruleset_version'', JStr (rp_activation_ruleset p)), (u ''context'', JStr (rp_context p)),
      (u ''namespace'', JStr (rp_namespace p)), (u ''topic'', JStr (rp_topic p)),
      (u ''consumer_group'', JStr (rp_group p)), (u ''expected_partition_count'', JInt (int (rp_partition_count p))),
      (u ''kafka_range_window_seconds'', JInt 60), (u ''kafka_range_step_seconds'', JInt 5),
      (u ''kafka_expected_sample_count'', JInt 13), (u ''kafka_range_collection_skew_seconds'', JInt 1),
      (u ''kafka_source_to_range_end_max_seconds'', JInt 5),
      (u ''freshness_age_tolerance_seconds'', JFloat (float64 1 100)),
      (u ''configured_capture_interval_seconds'', JInt 15),
      (u ''capture_interval_min_seconds'', JFloat (rp_interval_min p)),
      (u ''capture_interval_max_seconds'', JFloat (rp_interval_max p)),
      (u ''recovering_consecutive_capture_count'', JInt (int (rp_count p))),
      (u ''low_lag_evidence_policy'', JStr (u ''INVALID_ONLY'')), (u ''derived_lag_enabled'', JBool False),
      (u ''postgres_required_body_status'', JStr (rp_body_status p)), (u ''postgres_require_ha_mode'', JBool (rp_ha p)),
      (u ''postgres_require_primary_reachable'', JBool (rp_primary p)),
      (u ''recovered_policy_status'', JStr (recovered_status_value (rp_status p))),
      (u ''recovered_contract_version'', jopt JStr (rp_contract p)),
      (u ''recovered_workload_profile'', jopt JStr (rp_workload p)),
      (u ''recovered_target_arrival_rate_records_per_second'', jopt JInt (rp_target p)),
      (u ''recovered_actual_produce_rate_minimum'', jopt JFloat (rp_produce_min p)),
      (u ''recovered_actual_produce_rate_maximum'', jopt JFloat (rp_produce_max p)),
      (u ''recovered_total_lag_maximum'', jopt JInt (rp_lag_max p)),
      (u ''recovered_lag_slope_maximum'', jopt JFloat (rp_slope_max p)),
      (u ''recovered_consecutive_capture_count'', jopt (\<lambda>n. JInt (int n)) (rp_recovered_count p)),
      (u ''calibration_experiment_id'', JStr (rp_experiment p)), (u ''calibration_provenance'', JStr (rp_provenance p))]"

definition dump_recovery_reference :: "opslib \<Rightarrow> recovery_reference \<Rightarrow> json" where
  "dump_recovery_reference O' r = JObj
     [(u ''sequence_index'', JInt (int (rr_index r))), (u ''bundle_id'', JStr (rr_bundle r)),
      (u ''source_incident_id'', JStr (rr_incident r)),
      (u ''expected_source_bundle_sha256'', JStr (rr_expected r)),
      (u ''actual_source_bundle_sha256'', JStr (rr_actual r)),
      (u ''digest_matches'', JBool (rr_actual r = rr_expected r)),
      (u ''collection_started_at'', jstamp O' (rr_started r)),
      (u ''collection_completed_at'', jstamp O' (rr_completed r)),
      (u ''kafka_source_timestamp'', jopt (jstamp O') (rr_kafka r))]"

definition dump_negative :: "negative_point \<Rightarrow> json" where
  "dump_negative n = JObj
     [(u ''evidence_id'', JStr (np_id n)), (u ''partition'', JStr (np_partition n)),
      (u ''sample_index'', JInt (int (np_index n))), (u ''range_evaluation_timestamp'', JFloat (np_timestamp n)),
      (u ''exporter_lag_records'', JInt (np_lag n)), (u ''end_offset_records'', jopt JInt (np_end n)),
      (u ''committed_offset_records'', jopt JInt (np_committed n))]"

definition dump_recovery_observation :: "opslib \<Rightarrow> recovery_observation \<Rightarrow> json" where
  "dump_recovery_observation O' r = JObj
     [(u ''sequence_index'', JInt (int (ro_index r))), (u ''bundle_id'', JStr (ro_bundle r)),
      (u ''source_bundle_sha256'', JStr (ro_sha256 r)), (u ''usable'', JBool (ro_usable r)),
      (u ''issue_codes'', jstrs (ro_issues r)), (u ''condition_source_identity_sha256'', jopt JStr (ro_condition r)),
      (u ''recovery_source_identity_sha256'', jopt JStr (ro_recovery r)),
      (u ''kafka_source_timestamp'', jopt (jstamp O') (ro_kafka r)), (u ''partition_set'', jstrs (ro_partitions r)),
      (u ''total_lag_records'', jopt JInt (ro_total r)),
      (u ''lag_slope_60s_records_per_second'', jopt JFloat (ro_slope r)),
      (u ''produce_rate_60s_records_per_second'', jopt JFloat (ro_produce r)),
      (u ''committed_offset_rate_60s_records_per_second'', jopt JFloat (ro_committed r)),
      (u ''rate_arithmetic_consistent'', jopt JBool (ro_consistent r)),
      (u ''partition_offsets'', JObj (map (\<lambda>(q, v). (q, JObj [(u ''end_offset'', JInt (of_end v)),
          (u ''committed_offset'', JInt (of_committed v))])) (ro_offsets r))),
      (u ''postgres_ready'', jopt JBool (ro_ready r)), (u ''postgres_context'', JObj (ro_postgres r)),
      (u ''worker_context'', ro_worker r), (u ''keda_context'', ro_keda r),
      (u ''worker_stage_latency_context'', ro_stage r), (u ''required_evidence_ids'', jstrs (ro_evidence r)),
      (u ''negative_exporter_lag'', JArr (map dump_negative (ro_negative r))),
      (u ''derived_lag_evidence_ids'', JArr []), (u ''state_after_capture'', JStr (recovery_value (rv_state r))),
      (u ''state_reason_codes'', jstrs (rv_reasons r))]"

definition jnats :: "nat list \<Rightarrow> json" where
  "jnats ks = JArr (map (\<lambda>k. JInt (int k)) ks)"

definition dump_window :: "opslib \<Rightarrow> recovery_window \<Rightarrow> json" where
  "dump_window O' w = JObj
     [(u ''required_capture_count'', JInt (int (rw_required w))), (u ''evaluated_sequence_indexes'', jnats (rw_evaluated w)),
      (u ''matched_recovering_windows'', JArr (map jnats (rw_matched w))), (u ''first_observed_at'', jstamp O' (rw_first w)),
      (u ''last_observed_at'', jstamp O' (rw_last w)), (u ''capture_count'', JInt (int (rw_captures w)))]"

definition dump_quality :: "recovery_policy \<Rightarrow> json" where
  "dump_quality p = JObj
     [(u ''required_evidence_names'', jstrs (map u (kafka_metrics @
         [''application_readiness_observation'', ''application_postgres_runtime_observation'']))),
      (u ''expected_partition_count'', JInt (int (rp_partition_count p))),
      (u ''low_lag_evidence_policy'', JStr (u ''INVALID_ONLY'')), (u ''exporter_negative_lag_preserved'', JBool True),
      (u ''negative_lag_clamped_to_zero'', JBool False), (u ''derived_lag_created'', JBool False),
      (u ''timestamp_coherence_contract'', JStr (u (''All required Kafka series must share one fresh timestamp() source ''
         @ ''timestamp and aligned 60s/5s range evaluation grids. Query-range ''
         @ ''steps do not preserve raw scrape timestamps, so negative exporter ''
         @ ''lag is invalid and cannot be replaced by derived lag.''))),
      (u ''source_identity_required'', JBool True)]"

definition recovery_payload :: "opslib \<Rightarrow> recovery_evaluation \<Rightarrow> obj" where
  "recovery_payload O' e =
       [(u ''schema_version'', JStr (u ''ops.recovery.v1'')), (u ''evaluator_version'', JStr (re_evaluator e)),
        (u ''ruleset_version'', JStr (re_ruleset e)), (u ''evaluation_status'', JStr (status_value (re_status e))),
        (u ''incident_id'', JStr (re_incident e)), (u ''activation'', dump_activation O' (re_activation e)),
        (u ''policy'', dump_recovery_policy (re_policy e)), (u ''state'', JStr (recovery_value (re_state e))),
        (u ''reason_codes'', jstrs (re_reasons e)),
        (u ''source_bundles'', JArr (map (dump_recovery_reference O') (re_sources e))),
        (u ''observations'', JArr (map (dump_recovery_observation O') (re_observations e))),
        (u ''window'', dump_window O' (re_window e)), (u ''evidence_ids'', jstrs (re_evidence e)),
        (u ''quality'', dump_quality (re_policy e)),
        (u ''recovery_completion'', JObj
           [(u ''status'', JStr (completion_value (rc_status (re_completion e)))),
            (u ''reason_codes'', jstrs (rc_reasons (re_completion e)))])]"

definition recovery_evaluation_id :: "opslib \<Rightarrow> recovery_evaluation \<Rightarrow> ustr" where
  "recovery_evaluation_id O' e = canonical_sha256 (py O') (JObj (recovery_payload O' e))"

text \<open>\<open>RecoveryEvaluation.validate_output_contract\<close> and \<open>verify_integrity\<close>.\<close>

definition expected_completion :: "recovery_policy \<Rightarrow> recovery_state \<Rightarrow> completion_status" where
  "expected_completion p st =
     (if \<not> is_v2 p then Completion_pending else if st = Backlog_recovered then Completed else In_progress)"

definition recovery_contract :: "recovery_evaluation \<Rightarrow> bool" where
  "recovery_contract e \<longleftrightarrow>
     (let n = length (re_sources e); v2 = is_v2 (re_policy e)
      in 1 \<le> n \<and> n \<le> 256 \<and> map rr_index (re_sources e) = [0..<n] \<and> map ro_index (re_observations e) = [0..<n]
         \<and> list_all2 (\<lambda>r o'. rr_bundle r = ro_bundle o' \<and> rr_actual r = ro_sha256 o') (re_sources e) (re_observations e)
         \<and> re_evaluator e = (if v2 then u ''ops.recovery.evaluator.v2'' else u ''ops.recovery.evaluator.v1'')
         \<and> re_ruleset e = (if v2 then u ''ops.recovery.rules.v2'' else u ''ops.recovery.rules.v1'')
         \<and> (re_state e = Backlog_recovered \<longrightarrow> v2)
         \<and> re_status e = (if re_state e = Backlog_unknown then Eval_partial else Eval_complete)
         \<and> rc_status (re_completion e) = expected_completion (re_policy e) (re_state e)
         \<and> re_evidence e = sorted_set (re_evidence e))"

definition verify_recovery :: "opslib \<Rightarrow> recovery_evaluation \<Rightarrow> bool" where
  "verify_recovery O' e \<longleftrightarrow> re_id e = recovery_evaluation_id O' e"

definition completion_of :: "recovery_policy \<Rightarrow> recovery_state \<Rightarrow> recovery_completion" where
  "completion_of p st =
     (if ends_with (u ''.v1'') (rp_version p)
      then \<lparr>rc_status = Completion_pending, rc_reasons = [u ''INSUFFICIENT_VALID_REENTRY_WINDOWS'']\<rparr>
      else if st = Backlog_recovered
      then \<lparr>rc_status = Completed, rc_reasons = map u [''RECOVERING_PREVIOUSLY_OBSERVED'',
              ''MEDIUM_ENVELOPE_REENTRY_STABLE_THREE_CAPTURES'', ''POST_RECOVERY_REGRESSION_HANDLING_IS_FUTURE_WORK'']\<rparr>
      else \<lparr>rc_status = In_progress, rc_reasons = [u ''RECOVERED_STABLE_WINDOW_NOT_CURRENTLY_SATISFIED'']\<rparr>)"

definition build_recovery ::
  "opslib \<Rightarrow> recovery_policy \<Rightarrow> ustr \<Rightarrow> activation_reference \<Rightarrow> (recovery_reference \<times> raw_observation) list
     \<Rightarrow> recovery_evaluation" where
  "build_recovery O' p incident a rows =
     (let refs = map fst rows; raws = map snd rows; n = rp_count p; classified = classify n raws;
          obs = finish_observations p classified; st = rv_state (last obs); window = recovered_window p classified;
          v1 = ends_with (u ''.v1'') (rp_version p);
          e = \<lparr>re_id = [], re_status = (if st = Backlog_unknown then Eval_partial else Eval_complete),
               re_evaluator = (if v1 then u ''ops.recovery.evaluator.v1'' else u ''ops.recovery.evaluator.v2''),
               re_ruleset = (if v1 then u ''ops.recovery.rules.v1'' else u ''ops.recovery.rules.v2''),
               re_incident = incident, re_activation = a, re_policy = p, re_state = st,
               re_reasons = rv_reasons (last obs), re_sources = refs, re_observations = obs,
               re_window = \<lparr>rw_required = n,
                 rw_evaluated = (if window \<noteq> [] then window else [length obs - n..<length obs]),
                 rw_matched = matched_recovering_windows n raws, rw_first = rr_completed (hd refs),
                 rw_last = rr_completed (last refs), rw_captures = length refs\<rparr>,
               re_evidence = sorted_set (concat (map ro_evidence (drop (length obs - n) obs))),
               re_completion = completion_of p st\<rparr>
      in e\<lparr>re_id := recovery_evaluation_id O' e\<rparr>)"

definition evaluate_recovery ::
  "opslib \<Rightarrow> recovery_policy \<Rightarrow> ustr \<Rightarrow> sequence_evaluation \<Rightarrow> evidence_bundle list \<Rightarrow> ustr list
     \<Rightarrow> exn + recovery_evaluation" where
  "evaluate_recovery O' p incident activation bs digests =
     guard (incident \<noteq> [] \<and> length incident \<le> 256) (value_error ''incident_id must contain 1 to 256 characters'')
     (guard (verify_sequence O' activation) (value_error ''evaluation_id does not match the sequence payload'')
     (guard (bs \<noteq> []) (value_error ''recovery evaluation requires post-activation bundles'')
     (guard (length bs \<le> 256) (value_error ''recovery evaluation accepts at most 256 bundles'')
     (guard (length digests = length bs) (value_error ''one expected source bundle digest is required per bundle'')
     (guard (list_all is_digest digests) (value_error ''source bundle digests must be lowercase SHA-256 values'')
     (let a = activation_reference activation; problems = activation_issues p incident activation
      in rbind (observe_stream O' p incident problems a 0 (initial_stream problems a) (zip bs digests)) (\<lambda>rows.
           let e = build_recovery O' p incident a rows
           in guard (recovery_contract e \<and> verify_recovery O' e) (value_error ''ValidationError'') (Inr e))))))))"

end
