(* ===== verification/Recovery_Facts.thy ===== *)
theory Recovery_Facts
  imports Recovery
begin

text \<open>
  What the states of \<open>recovery_evaluator.py\<close> mean: exactly two policies are valid, recovered is
  a stable re-entry after recovering, a broken integrity of the stream is never forgotten, and
  every evaluation satisfies its output model.
\<close>

section \<open>Policies\<close>

lemma recovery_versions:
  "is_v2 recovery_v2" "\<not> is_v2 recovery_v1"
  "ends_with (u ''.v1'') (rp_version recovery_v1)" "\<not> ends_with (u ''.v1'') (rp_version recovery_v2)"
  by (simp_all add: is_v2_def recovery_v1_def recovery_v2_def ends_with_def starts_with_def u_def)

lemma policies_ok: "recovery_policy_ok recovery_v1" "recovery_policy_ok recovery_v2"
  using recovery_versions
  by (simp_all add: recovery_policy_ok_def versioned_policy_ok_def recovered_values_none_def
      recovery_literals_ok_def literal_or_none_def recovery_v1_def recovery_v2_def)

text \<open>
  There are exactly two valid recovery policies: version 1 without any recovered contract and
  version 2 with the promoted one; no field of either can be changed on its own.
\<close>

theorem recovery_policies: "recovery_policy_ok p \<longleftrightarrow> p = recovery_v1 \<or> p = recovery_v2"
proof
  assume ok: "recovery_policy_ok p"
  then have lits: "recovery_literals_ok p" and ver: "versioned_policy_ok p"
    by (simp_all add: recovery_policy_ok_def)
  from lits consider "rp_version p = rp_version recovery_v1" | "rp_version p = rp_version recovery_v2"
    by (auto simp: recovery_literals_ok_def)
  then show "p = recovery_v1 \<or> p = recovery_v2"
  proof cases
    case 1
    with ver recovery_versions have "p = recovery_v1"
      using lits by (cases p) (simp add: versioned_policy_ok_def recovered_values_none_def recovery_literals_ok_def
          recovery_v1_def)
    then show ?thesis ..
  next
    case 2
    with ver recovery_versions have "p = recovery_v2"
      using lits by (cases p) (auto simp: versioned_policy_ok_def recovered_values_none_def recovery_literals_ok_def
          literal_or_none_def recovery_v1_def recovery_v2_def)
    then show ?thesis ..
  qed
next
  assume "p = recovery_v1 \<or> p = recovery_v2"
  then show "recovery_policy_ok p" using policies_ok by blast
qed

lemma policy_count_pos: "recovery_policy_ok p \<Longrightarrow> rp_count p > 0"
  by (simp add: recovery_policy_ok_def recovery_literals_ok_def)


section \<open>The stream\<close>

lemma observe_stream_shape:
  "observe_stream O' p incident problems a k st bs = Inr rows \<Longrightarrow>
     length rows = length bs \<and> map (rr_index \<circ> fst) rows = [k..<k + length bs]
     \<and> map (ro_index \<circ> snd) rows = [k..<k + length bs]
     \<and> list_all (\<lambda>(r, o'). rr_bundle r = ro_bundle o' \<and> rr_actual r = ro_sha256 o') rows"
proof (induction bs arbitrary: k st rows)
  case (Cons b bs)
  obtain b1 d where b: "b = (b1, d)" by force
  with Cons.prems obtain r st' codes rest where
    rest: "observe_stream O' p incident problems a (Suc k) st' bs = Inr rest"
    and rows: "rows = (reference_of k (bundle_digest O' b1) d b1 r, raw_of k (bundle_digest O' b1) b1 r codes) # rest"
    by (auto simp: rbind_eq_Inr guard_eq_Inr Let_def)
  from Cons.IH [OF rest] show ?case
    by (simp add: rows reference_of_def raw_of_def Let_def upt_conv_Cons del: upt_Suc)
qed simp

definition integrity_issue :: "'a raw_observation_scheme \<Rightarrow> bool" where
  "integrity_issue r \<longleftrightarrow> list_ex (\<lambda>i. i \<in> set global_integrity_issues) (ro_issues r)"

lemma final_issues_Nil: "final_issues st issues = [] \<Longrightarrow> \<not> broken_after st issues"
  by (auto simp: final_issues_def split: if_splits)

lemma intact_issues:
  "\<not> broken_after st issues \<Longrightarrow> \<not> st_broken st \<and> \<not> integrity_issue (raw_of k d b r (final_issues st issues))"
  by (simp add: final_issues_def broken_after_def integrity_issue_def raw_of_def Let_def)

lemma usable_last_intact:
  "observe_stream O' p incident problems a k st bs = Inr rows \<Longrightarrow> rows \<noteq> [] \<Longrightarrow> ro_usable (snd (last rows))
   \<Longrightarrow> \<not> st_broken st \<and> list_all (\<lambda>row. \<not> integrity_issue (snd row)) rows"
proof (induction bs arbitrary: k st rows)
  case (Cons b bs)
  obtain b1 d where b: "b = (b1, d)" by force
  with Cons.prems(1) obtain r rest where
    rest: "observe_stream O' p incident problems a (Suc k)
             (next_stream st b1 r (capture_issues O' p incident problems a st b1 d r)) bs = Inr rest"
    and rows: "rows = (reference_of k (bundle_digest O' b1) d b1 r, raw_of k (bundle_digest O' b1) b1 r
             (final_issues st (capture_issues O' p incident problems a st b1 d r))) # rest"
    by (auto simp: rbind_eq_Inr guard_eq_Inr Let_def)
  let ?is = "capture_issues O' p incident problems a st b1 d r"
  have intact: "\<not> broken_after st ?is" "list_all (\<lambda>row. \<not> integrity_issue (snd row)) rest"
  proof -
    have "\<not> broken_after st ?is \<and> list_all (\<lambda>row. \<not> integrity_issue (snd row)) rest"
    proof (cases "rest = []")
      case True
      with Cons.prems(3) rows have "final_issues st ?is = []" by (simp add: raw_of_def Let_def)
      with True show ?thesis using final_issues_Nil by simp
    next
      case False
      with Cons.prems(3) rows have "ro_usable (snd (last rest))" by simp
      from Cons.IH [OF rest False this] show ?thesis by (simp add: next_stream_def)
    qed
    then show "\<not> broken_after st ?is" "list_all (\<lambda>row. \<not> integrity_issue (snd row)) rest" by blast+
  qed
  with intact_issues [OF intact(1)] show ?case by (simp add: rows)
qed simp

section \<open>States of the windows\<close>

lemma candidate_window_last:
  assumes "0 < n" "k < length raws"
  shows "candidate_window n raws k \<noteq> []" "last (candidate_window n raws k) = raws ! k"
proof -
  let ?a = "min n (k + 1)"
  have a: "0 < ?a" "?a \<le> k + 1" using assms(1) by simp_all
  have w: "candidate_window n raws k = take ?a (drop (k + 1 - ?a) raws)" by (simp add: candidate_window_def Let_def)
  have len: "length (candidate_window n raws k) = ?a" using assms(2) a by (simp add: w)
  then show ne: "candidate_window n raws k \<noteq> []" using a by auto
  have "last (candidate_window n raws k) = candidate_window n raws k ! (?a - 1)"
    using ne len by (simp add: last_conv_nth)
  also have "\<dots> = raws ! (k + 1 - ?a + (?a - 1))" unfolding w
    using assms(2) a by (subst nth_take, linarith, subst nth_drop) simp_all
  also have "k + 1 - ?a + (?a - 1) = k" using a by linarith
  finally show "last (candidate_window n raws k) = raws ! k" .
qed

lemma window_state_usable:
  assumes "0 < n" "k < length raws" "window_state n raws k \<noteq> Backlog_unknown"
  shows "ro_usable (raws ! k)"
proof -
  have "list_all ro_usable (candidate_window n raws k)"
    using assms(3) by (auto simp: window_state_def Let_def list_all_iff list_ex_iff split: if_splits)
  with candidate_window_last [OF assms(1,2)] show ?thesis by (metis last_in_set list_all_iff)
qed

lemma window_state_not_recovered: "window_state n raws k \<noteq> Backlog_recovered"
  by (simp add: window_state_def Let_def)

lemma with_state_fields [simp]:
  "rv_state (with_state r st reasons) = st" "rv_reasons (with_state r st reasons) = reasons"
  "raw_observation.truncate (with_state r st reasons) = r"
  "ro_index (with_state r st reasons) = ro_index r" "ro_bundle (with_state r st reasons) = ro_bundle r"
  "ro_sha256 (with_state r st reasons) = ro_sha256 r" "ro_usable (with_state r st reasons) = ro_usable r"
  "ro_issues (with_state r st reasons) = ro_issues r"
  by (simp_all add: with_state_def raw_observation.defs)

lemma length_classify [simp]: "length (classify n raws) = length raws"
  by (simp add: classify_def)

lemma map_classify: "(\<And>r st rs. f (with_state r st rs) = g r) \<Longrightarrow> map f (classify n raws) = map g raws"
  by (rule nth_equalityI) (simp_all add: classify_def)

section \<open>Re-entry into the envelope\<close>

lemma reentry_snoc:
  "reentry p seen run (rs @ [r]) =
     (if (seen \<or> (\<exists>x \<in> set (rs @ [r]). rv_state x = Backlog_recovering)) \<and> within_recovered_envelope p r
      then reentry p seen run rs @ [ro_index r] else [])"
  by (induction p seen run rs rule: reentry.induct) (auto simp: Let_def)

lemma reentry_length:
  assumes "0 < n"
  shows "n \<le> length (reentry p False [] obs) \<longleftrightarrow>
    n \<le> length obs \<and> list_all (within_recovered_envelope p) (drop (length obs - n) obs)
    \<and> (\<exists>j \<le> length obs - n. j < length obs \<and> rv_state (obs ! j) = Backlog_recovering)"
  using assms
proof (induction obs arbitrary: n rule: rev_induct)
  case (snoc r obs)
  let ?seen = "\<exists>x \<in> set (obs @ [r]). rv_state x = Backlog_recovering"
  have "n \<le> length (reentry p False [] (obs @ [r])) \<longleftrightarrow>
      ?seen \<and> within_recovered_envelope p r \<and> n - 1 \<le> length (reentry p False [] obs)"
    using snoc.prems by (auto simp: reentry_snoc)
  also have "\<dots> \<longleftrightarrow> n \<le> length (obs @ [r]) \<and> list_all (within_recovered_envelope p) (drop (length (obs @ [r]) - n) (obs @ [r]))
      \<and> (\<exists>j \<le> length (obs @ [r]) - n. j < length (obs @ [r]) \<and> rv_state ((obs @ [r]) ! j) = Backlog_recovering)"
  proof (cases "n = 1")
    case True
    have "?seen \<longleftrightarrow> (\<exists>j \<le> length obs. rv_state ((obs @ [r]) ! j) = Backlog_recovering)"
      by (metis in_set_conv_nth length_append_singleton less_Suc_eq_le)
    with True show ?thesis by (auto simp: less_Suc_eq_le)
  next
    case False
    with snoc.prems have n: "0 < n - 1" "n - 1 < n" by simp_all
    have seen: "?seen" if "j \<le> length obs - (n - 1)" "j < length obs" "rv_state (obs ! j) = Backlog_recovering" for j
      using that nth_mem by force
    have idx: "length (obs @ [r]) - n = length obs - (n - 1)" using n by simp
    have drop: "drop (length obs - (n - 1)) (obs @ [r]) = drop (length obs - (n - 1)) obs @ [r]" by simp
    have ex: "(\<exists>j \<le> length obs - (n - 1). j < length (obs @ [r]) \<and> rv_state ((obs @ [r]) ! j) = Backlog_recovering)
        \<longleftrightarrow> (\<exists>j \<le> length obs - (n - 1). j < length obs \<and> rv_state (obs ! j) = Backlog_recovering)"
      if "n - 1 \<le> length obs"
    proof -
      have "j < length obs" if "j \<le> length obs - (n - 1)" for j using that n \<open>n - 1 \<le> length obs\<close> by linarith
      then show ?thesis by (metis length_append_singleton less_SucI nth_append)
    qed
    have len: "n \<le> length (obs @ [r]) \<longleftrightarrow> n - 1 \<le> length obs" using n by auto
    show ?thesis
    proof (cases "n - 1 \<le> length obs")
      case True
      with ex seen show ?thesis unfolding snoc.IH [OF n(1)] idx drop len by auto
    next
      case False
      then show ?thesis unfolding snoc.IH [OF n(1)] len by simp
    qed
  qed
  finally show ?case .
qed simp


lemma within_state_update [simp]:
  "within_recovered_envelope p (r\<lparr>rv_state := st, rv_reasons := reasons\<rparr>) = within_recovered_envelope p r"
  by (simp add: within_recovered_envelope_def)

lemma finish_nonempty: "obs \<noteq> [] \<Longrightarrow> finish_observations p obs \<noteq> []"
  by (simp add: finish_observations_def)

lemma map_finish:
  assumes "obs \<noteq> []" "\<And>r st reasons. f (r\<lparr>rv_state := st, rv_reasons := reasons\<rparr>) = f r"
  shows "map f (finish_observations p obs) = map f obs"
proof (cases "recovered_window p obs = []")
  case False
  then have "map f (finish_observations p obs) = map f (butlast obs @ [last obs])"
    by (simp add: finish_observations_def assms(2))
  then show ?thesis using assms(1) by simp
qed (simp add: finish_observations_def)

lemma length_finish: "obs \<noteq> [] \<Longrightarrow> length (finish_observations p obs) = length obs"
  by (simp add: finish_observations_def)

lemma list_all_map_eq: "map f xs = map g ys \<Longrightarrow> list_all f xs = list_all g ys"
proof -
  have "list_all f xs = list_all (\<lambda>b. b) (map f xs)" "list_all g ys = list_all (\<lambda>b. b) (map g ys)"
    by (simp_all add: list.pred_map comp_def)
  then show "map f xs = map g ys \<Longrightarrow> list_all f xs = list_all g ys" by simp
qed

lemma list_all_drop_map:
  "map f xs = map f ys \<Longrightarrow> list_all f (drop k xs) = list_all f (drop k ys)"
  by (rule list_all_map_eq) (simp add: drop_map [symmetric])

lemma recovered_window_iff:
  "recovered_window p obs \<noteq> [] \<longleftrightarrow>
     is_v2 p \<and> (\<exists>n>0. rp_recovered_count p = Some n \<and> n \<le> length (reentry p False [] obs))"
  by (auto simp: recovered_window_def Let_def split: option.splits)

lemma finish_state:
  assumes "raws \<noteq> []"
  shows "rv_state (last (finish_observations p (classify n raws))) =
    (if recovered_window p (classify n raws) \<noteq> [] then Backlog_recovered else window_state n raws (length raws - 1))"
proof -
  have "last (classify n raws) = classify n raws ! (length raws - 1)"
    using assms by (subst last_conv_nth) (auto simp: classify_def)
  also have "rv_state \<dots> = window_state n raws (length raws - 1)" using assms by (simp add: classify_def)
  finally show ?thesis by (simp add: finish_observations_def)
qed

section \<open>Evaluations\<close>

lemma recovered_count: "rp_recovered_count recovery_v2 = Some 3" "rp_recovered_count recovery_v1 = None"
  "rp_count recovery_v2 = 3" "rp_count recovery_v1 = 3"
  by (simp_all add: recovery_v1_def recovery_v2_def)

lemma build_fields:
  "re_state (build_recovery O' p incident a rows) = rv_state (last (finish_observations p (classify (rp_count p) (map snd rows))))"
  "re_observations (build_recovery O' p incident a rows) = finish_observations p (classify (rp_count p) (map snd rows))"
  "rw_matched (re_window (build_recovery O' p incident a rows)) = matched_recovering_windows (rp_count p) (map snd rows)"
  "re_sources (build_recovery O' p incident a rows) = map fst rows"
  "re_policy (build_recovery O' p incident a rows) = p" "re_incident (build_recovery O' p incident a rows) = incident"
  "re_activation (build_recovery O' p incident a rows) = a"
  by (simp_all add: build_recovery_def Let_def)

lemma evaluate_recovery_Inr:
  assumes "evaluate_recovery O' p incident activation bs digests = Inr e"
  obtains rows where "observe_stream O' p incident (activation_issues p incident activation) (activation_reference activation) 0
      (initial_stream (activation_issues p incident activation) (activation_reference activation)) (zip bs digests) = Inr rows"
    "e = build_recovery O' p incident (activation_reference activation) rows" "rows \<noteq> []" "length rows = length bs"
    "map (ro_index \<circ> snd) rows = [0..<length bs]"
proof -
  from assms obtain rows where rows:
      "observe_stream O' p incident (activation_issues p incident activation) (activation_reference activation) 0
        (initial_stream (activation_issues p incident activation) (activation_reference activation)) (zip bs digests) = Inr rows"
    and e: "e = build_recovery O' p incident (activation_reference activation) rows"
    and bs: "bs \<noteq> []" "length digests = length bs"
    by (auto simp: evaluate_recovery_def guard_eq_Inr rbind_eq_Inr Let_def)
  from observe_stream_shape [OF rows] bs have "length rows = length bs" "map (ro_index \<circ> snd) rows = [0..<length bs]"
    by auto
  moreover from this bs have "rows \<noteq> []" by auto
  ultimately show ?thesis using that [OF rows e] by blast
qed

lemma matched_windows_before:
  assumes "0 < n" "map ro_index raws = [0..<length raws]"
  shows "(\<exists>w \<in> set (matched_recovering_windows n raws). last w \<le> m) \<longleftrightarrow>
    (\<exists>j \<le> m. j < length raws \<and> window_state n raws j = Backlog_recovering)"
proof -
  have "last (map ro_index (candidate_window n raws j)) = j" if "j < length raws" for j
    using candidate_window_last [OF assms(1) that] assms(2) that by (metis last_map nth_map nth_upt add_0)
  then show ?thesis by (auto simp: matched_recovering_windows_def)
qed

lemma recovered_states:
  assumes "map ro_index raws = [0..<length raws]" "raws \<noteq> []"
  defines "obs \<equiv> finish_observations recovery_v2 (classify 3 raws)"
  shows "rv_state (last obs) = Backlog_recovered \<longleftrightarrow>
    3 \<le> length raws \<and> list_all (within_recovered_envelope recovery_v2) (drop (length raws - 3) obs)
    \<and> (\<exists>w \<in> set (matched_recovering_windows 3 raws). last w \<le> length raws - 3)"
proof -
  have c: "classify 3 raws \<noteq> []" using assms(2) by (simp add: classify_def)
  have "map (within_recovered_envelope recovery_v2) obs = map (within_recovered_envelope recovery_v2) (classify 3 raws)"
    unfolding obs_def by (rule map_finish [OF c]) simp
  note envelope = list_all_drop_map [OF this]
  have states: "rv_state (classify 3 raws ! j) = window_state 3 raws j" if "j < length raws" for j
    using that by (simp add: classify_def)
  have "rv_state (last obs) = Backlog_recovered \<longleftrightarrow> recovered_window recovery_v2 (classify 3 raws) \<noteq> []"
    by (simp add: obs_def finish_state [OF assms(2)] window_state_not_recovered)
  also have "\<dots> \<longleftrightarrow> 3 \<le> length (reentry recovery_v2 False [] (classify 3 raws))"
    using recovery_versions by (auto simp: recovered_window_iff recovered_count)
  also have "\<dots> \<longleftrightarrow> 3 \<le> length raws \<and> list_all (within_recovered_envelope recovery_v2) (drop (length raws - 3) (classify 3 raws))
      \<and> (\<exists>j \<le> length raws - 3. j < length raws \<and> window_state 3 raws j = Backlog_recovering)"
    using states by (subst reentry_length) auto
  finally show ?thesis
    unfolding envelope using matched_windows_before [OF _ assms(1), of 3 "length raws - 3"] by simp
qed

text \<open>
  C5: A backlog is recovered exactly when, under the promoted policy, the last three captures all
  lie inside the calibrated envelope and a window of consecutive draining captures ended no later
  than the first of them; under version 1 of the policy nothing is ever recovered.
\<close>

theorem recovered_iff_stable_reentry:
  "(case evaluate_recovery O' recovery_v2 incident activation bs digests of
      Inl _ \<Rightarrow> True
    | Inr e \<Rightarrow> re_state e = Backlog_recovered \<longleftrightarrow>
        3 \<le> length bs \<and> list_all (within_recovered_envelope recovery_v2) (drop (length bs - 3) (re_observations e))
        \<and> (\<exists>w \<in> set (rw_matched (re_window e)). last w \<le> length bs - 3))
   \<and> (case evaluate_recovery O' recovery_v1 incident activation bs digests of
      Inl _ \<Rightarrow> True | Inr e \<Rightarrow> re_state e \<noteq> Backlog_recovered)"
proof (rule conjI)
  show "case evaluate_recovery O' recovery_v2 incident activation bs digests of
      Inl _ \<Rightarrow> True
    | Inr e \<Rightarrow> re_state e = Backlog_recovered \<longleftrightarrow>
        3 \<le> length bs \<and> list_all (within_recovered_envelope recovery_v2) (drop (length bs - 3) (re_observations e))
        \<and> (\<exists>w \<in> set (rw_matched (re_window e)). last w \<le> length bs - 3)"
  proof (cases "evaluate_recovery O' recovery_v2 incident activation bs digests")
    case (Inr e)
    from evaluate_recovery_Inr [OF Inr] obtain rows where rows: "rows \<noteq> []" "length rows = length bs"
        "map (ro_index \<circ> snd) rows = [0..<length bs]"
      and e: "e = build_recovery O' recovery_v2 incident (activation_reference activation) rows" .
    have "map ro_index (map snd rows) = [0..<length (map snd rows)]" "map snd rows \<noteq> []" using rows by simp_all
    from recovered_states [OF this] rows(2) show ?thesis by (simp add: Inr e build_fields recovered_count)
  qed simp
next
  show "case evaluate_recovery O' recovery_v1 incident activation bs digests of
      Inl _ \<Rightarrow> True | Inr e \<Rightarrow> re_state e \<noteq> Backlog_recovered"
  proof (cases "evaluate_recovery O' recovery_v1 incident activation bs digests")
    case (Inr e)
    from evaluate_recovery_Inr [OF Inr] obtain rows where "rows \<noteq> []"
      and e: "e = build_recovery O' recovery_v1 incident (activation_reference activation) rows" .
    then show ?thesis
      using recovered_window_iff recovery_versions by (simp add: Inr e build_fields finish_state window_state_not_recovered)
  qed simp
qed


text \<open>
  C12: A state other than unknown needs an intact stream: the activation itself had no issue, and
  no capture up to the last one broke the digests, the identities, the scope, the order of the
  collections or the growth of the offsets. A broken integrity is never forgotten, whatever the
  later captures show.
\<close>

theorem determinate_state_needs_intact_stream:
  "case evaluate_recovery O' (if promoted then recovery_v2 else recovery_v1) incident activation bs digests of
     Inl _ \<Rightarrow> True
   | Inr e \<Rightarrow> re_state e = Backlog_unknown
       \<or> activation_issues (re_policy e) incident activation = []
          \<and> list_all (\<lambda>r. \<not> integrity_issue r) (re_observations e)"
proof (cases "evaluate_recovery O' (if promoted then recovery_v2 else recovery_v1) incident activation bs digests")
  case (Inr e)
  let ?p = "if promoted then recovery_v2 else recovery_v1"
  let ?problems = "activation_issues ?p incident activation" and ?a = "activation_reference activation"
  from evaluate_recovery_Inr [OF Inr] obtain rows where
    stream: "observe_stream O' ?p incident ?problems ?a 0 (initial_stream ?problems ?a) (zip bs digests) = Inr rows"
    and rows: "rows \<noteq> []" and e: "e = build_recovery O' ?p incident ?a rows" .
  let ?raws = "map snd rows"
  have n: "rp_count ?p = 3" by (simp add: recovered_count)
  have raws: "?raws \<noteq> []" "last ?raws = snd (last rows)" using rows by (simp_all add: last_map)
  have c: "classify 3 ?raws \<noteq> []" using rows by (simp add: classify_def)
  have state: "re_state e = rv_state (last (finish_observations ?p (classify 3 ?raws)))"
    and obs: "re_observations e = finish_observations ?p (classify 3 ?raws)"
    and pol: "re_policy e = ?p" by (simp_all add: e build_fields n)
  have usable: "ro_usable (last ?raws)" if known: "re_state e \<noteq> Backlog_unknown"
  proof (cases "recovered_window ?p (classify 3 ?raws) = []")
    case True
    with known have "window_state 3 ?raws (length ?raws - 1) \<noteq> Backlog_unknown"
      by (simp add: state finish_state [OF raws(1)])
    from window_state_usable [OF _ _ this] rows show ?thesis by (simp add: last_conv_nth)
  next
    case False
    then obtain k where "k > 0" "k \<le> length (reentry ?p False [] (classify 3 ?raws))"
      by (auto simp: recovered_window_iff)
    then have "reentry ?p False [] (classify 3 ?raws) \<noteq> []" by auto
    then have "within_recovered_envelope ?p (last (classify 3 ?raws))"
      using c by (cases "classify 3 ?raws" rule: rev_cases) (auto simp: reentry_snoc split: if_splits)
    moreover have "last (classify 3 ?raws) = with_state (last ?raws) (window_state 3 ?raws (length ?raws - 1))
        (window_reasons 3 ?raws (seen_before 3 ?raws (length ?raws - 1)) (length ?raws - 1))"
      using rows by (simp add: last_conv_nth classify_def)
    ultimately show ?thesis by (simp add: within_recovered_envelope_def)
  qed
  have intact: "list_all (\<lambda>r. \<not> integrity_issue r) (re_observations e) = list_all (\<lambda>r. \<not> integrity_issue r) ?raws"
  proof -
    have "map (\<lambda>r. \<not> integrity_issue r) (re_observations e) = map (\<lambda>r. \<not> integrity_issue r) (classify 3 ?raws)"
      unfolding obs by (rule map_finish [OF c]) (simp add: integrity_issue_def)
    also have "\<dots> = map (\<lambda>r. \<not> integrity_issue r) ?raws" by (rule map_classify) (simp add: integrity_issue_def)
    finally show ?thesis by (rule list_all_map_eq)
  qed
  show ?thesis
  proof (cases "re_state e = Backlog_unknown")
    case False
    from usable_last_intact [OF stream rows] usable [OF False] raws(2)
    have "?problems = []" "list_all (\<lambda>r. \<not> integrity_issue r) ?raws"
      by (simp_all add: initial_stream_def list.pred_map comp_def)
    then show ?thesis unfolding Inr sum.case intact pol by blast
  qed (simp add: Inr)
qed simp



end
