(* ===== verification/Diagnosis.thy ===== *)
theory Diagnosis
  imports Recovery_Facts
begin

text \<open>
  The artifacts of a diagnosis (\<open>src/ops_agent/diagnosis_models.py\<close>): hypotheses, decisions of
  the model, evidence and steps of the tools, and the run with its identity. Every model is a
  record of its fields with its validator as a Boolean function.
\<close>

section \<open>Enumerations\<close>

datatype hypothesis_name =
  Hot_key | Worker_path | Poison_record | Sequence_contention | Consumer_rebalance | Insufficient_evidence

datatype support_status = Supported | Insufficient | Conflicted

datatype stop_reason =
  Stop_sufficient | Stop_insufficient | Stop_no_tool | Stop_budget | Stop_tool_error | Stop_validation

datatype dx_status = Dx_ok | Dx_partial | Dx_missing | Dx_error | Dx_unavailable

fun hypothesis_value :: "hypothesis_name \<Rightarrow> ustr" where
  "hypothesis_value Hot_key = u ''HOT_KEY_SUSPECTED''"
| "hypothesis_value Worker_path = u ''WORKER_PATH_PRESSURE_SUSPECTED''"
| "hypothesis_value Poison_record = u ''POISON_RECORD_RETRY_SUSPECTED''"
| "hypothesis_value Sequence_contention = u ''SEQUENCE_CONTENTION_SUSPECTED''"
| "hypothesis_value Consumer_rebalance = u ''CONSUMER_REBALANCE_SUSPECTED''"
| "hypothesis_value Insufficient_evidence = u ''INSUFFICIENT_EVIDENCE''"

fun support_value :: "support_status \<Rightarrow> ustr" where
  "support_value Supported = u ''SUPPORTED''"
| "support_value Insufficient = u ''INSUFFICIENT''"
| "support_value Conflicted = u ''CONFLICTED''"

fun stop_value :: "stop_reason \<Rightarrow> ustr" where
  "stop_value Stop_sufficient = u ''sufficient_evidence''"
| "stop_value Stop_insufficient = u ''insufficient_evidence''"
| "stop_value Stop_no_tool = u ''no_useful_tool_remaining''"
| "stop_value Stop_budget = u ''step_budget_exhausted''"
| "stop_value Stop_tool_error = u ''tool_error''"
| "stop_value Stop_validation = u ''validation_failure''"

fun dx_status_value :: "dx_status \<Rightarrow> ustr" where
  "dx_status_value Dx_ok = u ''OK''"
| "dx_status_value Dx_partial = u ''PARTIAL''"
| "dx_status_value Dx_missing = u ''MISSING''"
| "dx_status_value Dx_error = u ''ERROR''"
| "dx_status_value Dx_unavailable = u ''UNAVAILABLE''"

section \<open>Models\<close>

definition bounded :: "nat \<Rightarrow> ustr \<Rightarrow> bool" where
  "bounded n s \<longleftrightarrow> s \<noteq> [] \<and> length s \<le> n"

text \<open>The budgets of a policy; its versions and its reasoning effort are literals.\<close>

record dx_policy =
  dp_model :: ustr
  dp_max_steps :: nat
  dp_max_calls :: nat
  dp_max_tokens :: nat
  dp_timeout :: pyfloat
  dp_max_retries :: nat
  dp_max_repairs :: nat

definition dx_policy_ok :: "dx_policy \<Rightarrow> bool" where
  "dx_policy_ok p \<longleftrightarrow>
     bounded 128 (dp_model p) \<and> 1 \<le> dp_max_steps p \<and> dp_max_steps p \<le> 8
     \<and> 1 \<le> dp_max_calls p \<and> dp_max_calls p \<le> 8 \<and> 256 \<le> dp_max_tokens p \<and> dp_max_tokens p \<le> 4096
     \<and> f_less (Fin 0) (dp_timeout p) \<and> f_less_eq (dp_timeout p) (Fin 60) \<and> dp_max_retries p \<le> 2
     \<and> dp_max_repairs p \<le> 1 \<and> dp_max_calls p \<le> dp_max_steps p"

record dx_context =
  dc_profile :: ustr
  dc_cluster :: ustr
  dc_namespace :: ustr
  dc_topic :: ustr
  dc_group :: ustr
  dc_digests :: "ustr list"

definition dx_context_ok :: "dx_context \<Rightarrow> bool" where
  "dx_context_ok c \<longleftrightarrow>
     bounded 64 (dc_profile c) \<and> bounded 256 (dc_cluster c) \<and> bounded 256 (dc_namespace c)
     \<and> bounded 256 (dc_topic c) \<and> bounded 256 (dc_group c) \<and> dc_digests c \<noteq> [] \<and> length (dc_digests c) \<le> 256"

record dx_freshness =
  df_status :: freshness_status
  df_oldest :: "stamp option"
  df_newest :: "stamp option"
  df_max_age :: "pyfloat option"

record dx_evidence =
  de_id :: ustr
  de_tool :: ustr
  de_status :: dx_status
  de_observed :: stamp
  de_freshness :: dx_freshness
  de_sources :: "ustr list"
  de_digests :: "ustr list"
  de_semantic :: ustr
  de_summary :: obj
  de_error :: "ustr option"

definition dx_evidence_ok :: "dx_evidence \<Rightarrow> bool" where
  "dx_evidence_ok e \<longleftrightarrow>
     bounded 256 (de_id e) \<and> bounded 128 (de_tool e) \<and> opt_ok (f_less (Fin 0)) (df_max_age (de_freshness e))
     \<and> length (de_sources e) \<le> 512 \<and> de_digests e \<noteq> [] \<and> length (de_digests e) \<le> 256
     \<and> bounded 256 (de_semantic e) \<and> opt_ok (\<lambda>s. length s \<le> 128) (de_error e) \<and> aware (de_observed e)"

record dx_step =
  dt_step :: nat
  dt_tool :: ustr
  dt_reason :: ustr
  dt_requested :: stamp
  dt_returned :: "ustr list"

definition dx_step_ok :: "dx_step \<Rightarrow> bool" where
  "dx_step_ok s \<longleftrightarrow>
     1 \<le> dt_step s \<and> dt_step s \<le> 8 \<and> bounded 128 (dt_tool s) \<and> bounded 128 (dt_reason s)
     \<and> dt_returned s \<noteq> [] \<and> length (dt_returned s) \<le> 16"

record hypothesis =
  hy_name :: hypothesis_name
  hy_support :: support_status
  hy_reasons :: "ustr list"
  hy_supporting :: "ustr list"
  hy_conflicting :: "ustr list"
  hy_gaps :: "ustr list"

definition hypothesis_ok :: "hypothesis \<Rightarrow> bool" where
  "hypothesis_ok h \<longleftrightarrow>
     hy_reasons h \<noteq> [] \<and> length (hy_reasons h) \<le> 16 \<and> length (hy_supporting h) \<le> 128
     \<and> length (hy_conflicting h) \<le> 128 \<and> length (hy_gaps h) \<le> 32"

record decision =
  dn_hypotheses :: "hypothesis list"
  dn_stop :: stop_reason

definition decision_ok :: "decision \<Rightarrow> bool" where
  "decision_ok d \<longleftrightarrow>
     dn_hypotheses d \<noteq> [] \<and> length (dn_hypotheses d) \<le> 6 \<and> list_all hypothesis_ok (dn_hypotheses d)
     \<and> distinct (map hy_name (dn_hypotheses d))"

text \<open>
  Token counts are read from the response; a negative one fails the model. A validation holds
  the six flags in the order of the fields.
\<close>

record dx_usage =
  us_input :: int
  us_output :: int
  us_total :: int
  us_requests :: nat

definition dx_usage_ok :: "dx_usage \<Rightarrow> bool" where
  "dx_usage_ok x \<longleftrightarrow> us_input x \<ge> 0 \<and> us_output x \<ge> 0 \<and> us_total x \<ge> 0"

record dx_validation =
  dv_schema :: bool
  dv_citations :: bool
  dv_calls :: bool
  dv_budget :: bool
  dv_stop :: bool
  dv_claims :: bool

definition validation_flags :: "dx_validation \<Rightarrow> bool list" where
  "validation_flags v = [dv_schema v, dv_citations v, dv_calls v, dv_budget v, dv_stop v, dv_claims v]"

record attempt =
  at_attempt :: nat
  at_repair :: bool
  at_valid :: bool
  at_response :: ustr
  at_code :: "ustr option"
  at_message :: "ustr option"

definition attempt_ok :: "attempt \<Rightarrow> bool" where
  "attempt_ok a \<longleftrightarrow>
     1 \<le> at_attempt a \<and> at_attempt a \<le> 2 \<and> bounded 256 (at_response a)
     \<and> opt_ok (bounded 128) (at_code a) \<and> opt_ok (bounded 512) (at_message a)
     \<and> (if at_valid a then at_code a = None \<and> at_message a = None else at_code a \<noteq> None \<and> at_message a \<noteq> None)"

record diagnosis_run =
  dr_id :: ustr
  dr_incident :: ustr
  dr_evaluation :: ustr
  dr_context :: dx_context
  dr_policy :: dx_policy
  dr_conditions :: "(ustr \<times> condition_state) list"
  dr_initial :: "ustr list"
  dr_evidence :: "dx_evidence list"
  dr_steps :: "dx_step list"
  dr_hypotheses :: "hypothesis list"
  dr_stop :: stop_reason
  dr_steps_used :: nat
  dr_started :: stamp
  dr_completed :: stamp
  dr_responses :: "ustr list"
  dr_usage :: dx_usage
  dr_validation :: dx_validation
  dr_repairs :: nat
  dr_attempts :: "attempt list"

section \<open>Dumps\<close>

definition dump_dx_policy :: "dx_policy \<Rightarrow> json" where
  "dump_dx_policy p = JObj
     [(u ''policy_version'', JStr (u ''local-ha.diagnosis.v1'')),
      (u ''required_condition_schema'', JStr (u ''ops.conditions.v2'')),
      (u ''required_condition'', JStr (u ''CORE_BACKLOG_PRESSURE'')), (u ''required_state'', JStr (u ''PRESENT'')),
      (u ''tool_registry_version'', JStr (u ''ops.diagnosis.tools.v1'')),
      (u ''agent_version'', JStr (u ''ops.diagnosis.agent.v1'')), (u ''model'', JStr (dp_model p)),
      (u ''reasoning_effort'', JStr (u ''low'')), (u ''max_steps'', JInt (int (dp_max_steps p))),
      (u ''max_tool_calls'', JInt (int (dp_max_calls p))), (u ''max_output_tokens'', JInt (int (dp_max_tokens p))),
      (u ''request_timeout_seconds'', JFloat (dp_timeout p)), (u ''max_retries'', JInt (int (dp_max_retries p))),
      (u ''max_output_repairs'', JInt (int (dp_max_repairs p)))]"

definition dump_dx_context :: "dx_context \<Rightarrow> json" where
  "dump_dx_context c = JObj
     [(u ''profile'', JStr (dc_profile c)), (u ''cluster_context'', JStr (dc_cluster c)),
      (u ''namespace'', JStr (dc_namespace c)), (u ''topic'', JStr (dc_topic c)),
      (u ''consumer_group'', JStr (dc_group c)), (u ''source_bundle_digests'', jstrs (dc_digests c))]"

definition dump_dx_freshness :: "opslib \<Rightarrow> dx_freshness \<Rightarrow> json" where
  "dump_dx_freshness O' f = JObj
     [(u ''status'', JStr (freshness_value (df_status f))),
      (u ''oldest_source_timestamp'', jopt (jstamp O') (df_oldest f)),
      (u ''newest_source_timestamp'', jopt (jstamp O') (df_newest f)),
      (u ''max_age_seconds'', jopt JFloat (df_max_age f))]"

definition dump_dx_evidence :: "opslib \<Rightarrow> dx_evidence \<Rightarrow> json" where
  "dump_dx_evidence O' e = JObj
     [(u ''evidence_id'', JStr (de_id e)), (u ''tool_id'', JStr (de_tool e)),
      (u ''status'', JStr (dx_status_value (de_status e))), (u ''observed_at'', jstamp O' (de_observed e)),
      (u ''freshness'', dump_dx_freshness O' (de_freshness e)), (u ''source_evidence_ids'', jstrs (de_sources e)),
      (u ''source_bundle_digests'', jstrs (de_digests e)), (u ''semantic_type'', JStr (de_semantic e)),
      (u ''summary'', JObj (de_summary e)), (u ''error_code'', jopt JStr (de_error e))]"

definition dump_dx_step :: "opslib \<Rightarrow> dx_step \<Rightarrow> json" where
  "dump_dx_step O' s = JObj
     [(u ''step'', JInt (int (dt_step s))), (u ''tool_id'', JStr (dt_tool s)), (u ''reason_code'', JStr (dt_reason s)),
      (u ''requested_at'', jstamp O' (dt_requested s)), (u ''returned_evidence_ids'', jstrs (dt_returned s))]"

definition dump_hypothesis :: "hypothesis \<Rightarrow> json" where
  "dump_hypothesis h = JObj
     [(u ''hypothesis'', JStr (hypothesis_value (hy_name h))), (u ''support_status'', JStr (support_value (hy_support h))),
      (u ''reason_codes'', jstrs (hy_reasons h)), (u ''supporting_evidence_ids'', jstrs (hy_supporting h)),
      (u ''conflicting_evidence_ids'', jstrs (hy_conflicting h)), (u ''evidence_gaps'', jstrs (hy_gaps h))]"

definition dump_decision :: "decision \<Rightarrow> json" where
  "dump_decision d = JObj
     [(u ''hypotheses'', JArr (map dump_hypothesis (dn_hypotheses d))), (u ''stop_reason'', JStr (stop_value (dn_stop d)))]"

definition dump_usage :: "dx_usage \<Rightarrow> json" where
  "dump_usage x = JObj
     [(u ''input_tokens'', JInt (us_input x)), (u ''output_tokens'', JInt (us_output x)),
      (u ''total_tokens'', JInt (us_total x)), (u ''api_requests'', JInt (int (us_requests x)))]"

definition dump_validation :: "dx_validation \<Rightarrow> json" where
  "dump_validation v = JObj
     [(u ''schema_valid'', JBool (dv_schema v)), (u ''citations_valid'', JBool (dv_citations v)),
      (u ''tool_calls_valid'', JBool (dv_calls v)), (u ''step_budget_valid'', JBool (dv_budget v)),
      (u ''stop_valid'', JBool (dv_stop v)), (u ''forbidden_claims_absent'', JBool (dv_claims v))]"

definition dump_attempt :: "attempt \<Rightarrow> json" where
  "dump_attempt a = JObj
     [(u ''attempt'', JInt (int (at_attempt a))), (u ''phase'', JStr (if at_repair a then u ''repair'' else u ''initial'')),
      (u ''result'', JStr (if at_valid a then u ''VALID'' else u ''INVALID'')), (u ''response_id'', JStr (at_response a)),
      (u ''error_code'', jopt JStr (at_code a)), (u ''error_message'', jopt JStr (at_message a))]"

definition dump_run :: "opslib \<Rightarrow> diagnosis_run \<Rightarrow> json" where
  "dump_run O' r = JObj
     [(u ''schema_version'', JStr (u ''ops.diagnosis.v1'')), (u ''diagnosis_id'', JStr (dr_id r)),
      (u ''incident_id'', JStr (dr_incident r)), (u ''condition_evaluation_id'', JStr (dr_evaluation r)),
      (u ''context'', dump_dx_context (dr_context r)), (u ''policy'', dump_dx_policy (dr_policy r)),
      (u ''input_conditions'', JObj (map (\<lambda>(k, s). (k, JStr (state_value s))) (dr_conditions r))),
      (u ''initial_evidence_ids'', jstrs (dr_initial r)),
      (u ''additional_evidence'', JArr (map (dump_dx_evidence O') (dr_evidence r))),
      (u ''steps'', JArr (map (dump_dx_step O') (dr_steps r))),
      (u ''hypotheses'', JArr (map dump_hypothesis (dr_hypotheses r))), (u ''stop_reason'', JStr (stop_value (dr_stop r))),
      (u ''steps_used'', JInt (int (dr_steps_used r))), (u ''started_at'', jstamp O' (dr_started r)),
      (u ''completed_at'', jstamp O' (dr_completed r)), (u ''model_response_ids'', jstrs (dr_responses r)),
      (u ''usage'', dump_usage (dr_usage r)), (u ''validation'', dump_validation (dr_validation r)),
      (u ''output_repairs_used'', JInt (int (dr_repairs r))),
      (u ''validation_attempts'', JArr (map dump_attempt (dr_attempts r)))]"

section \<open>Identity and checks of a run\<close>

definition step_identity :: "dx_step \<Rightarrow> json" where
  "step_identity s = JObj
     [(u ''step'', JInt (int (dt_step s))), (u ''tool_id'', JStr (dt_tool s)), (u ''reason_code'', JStr (dt_reason s)),
      (u ''returned_evidence_ids'', jstrs (dt_returned s))]"

definition run_identity :: "opslib \<Rightarrow> diagnosis_run \<Rightarrow> ustr" where
  "run_identity O' r = canonical_sha256 (py O') (JObj
     [(u ''condition_evaluation_id'', JStr (dr_evaluation r)),
      (u ''source_bundle_digests'', jstrs (dc_digests (dr_context r))), (u ''policy'', dump_dx_policy (dr_policy r)),
      (u ''initial_evidence_ids'', jstrs (dr_initial r)),
      (u ''additional_evidence'', JArr (map (dump_dx_evidence O') (dr_evidence r))),
      (u ''steps'', JArr (map step_identity (dr_steps r))),
      (u ''hypotheses'', JArr (map dump_hypothesis (dr_hypotheses r))), (u ''stop_reason'', JStr (stop_value (dr_stop r)))])"

definition verify_run :: "opslib \<Rightarrow> diagnosis_run \<Rightarrow> bool" where
  "verify_run O' r \<longleftrightarrow> dr_id r = run_identity O' r"

definition run_fields_ok :: "diagnosis_run \<Rightarrow> bool" where
  "run_fields_ok r \<longleftrightarrow>
     is_digest (dr_id r) \<and> bounded 256 (dr_incident r) \<and> is_digest (dr_evaluation r) \<and> dx_context_ok (dr_context r)
     \<and> dx_policy_ok (dr_policy r) \<and> length (dr_initial r) \<le> 1024 \<and> length (dr_evidence r) \<le> 16
     \<and> list_all dx_evidence_ok (dr_evidence r) \<and> length (dr_steps r) \<le> 8 \<and> list_all dx_step_ok (dr_steps r)
     \<and> dr_hypotheses r \<noteq> [] \<and> length (dr_hypotheses r) \<le> 6 \<and> list_all hypothesis_ok (dr_hypotheses r)
     \<and> dr_steps_used r \<le> 8 \<and> length (dr_responses r) \<le> 10 \<and> dx_usage_ok (dr_usage r) \<and> dr_repairs r \<le> 1
     \<and> dr_attempts r \<noteq> [] \<and> length (dr_attempts r) \<le> 2 \<and> list_all attempt_ok (dr_attempts r)"

text \<open>\<open>DiagnosisRun.validate_run\<close>.\<close>

definition run_contract :: "diagnosis_run \<Rightarrow> bool" where
  "run_contract r \<longleftrightarrow>
     aware (dr_started r) \<and> aware (dr_completed r) \<and> micros (dr_started r) \<le> micros (dr_completed r)
     \<and> dr_steps_used r = length (dr_steps r) \<and> dr_steps_used r \<le> dp_max_steps (dr_policy r)
     \<and> length (dr_steps r) \<le> dp_max_calls (dr_policy r) \<and> dr_repairs r \<le> dp_max_repairs (dr_policy r)
     \<and> length (dr_attempts r) = dr_repairs r + 1
     \<and> map at_attempt (dr_attempts r) = [1..<length (dr_attempts r) + 1]
     \<and> map at_repair (dr_attempts r) = [False] @ emit (dr_repairs r \<noteq> 0) True
     \<and> at_valid (last (dr_attempts r)) \<and> (dr_repairs r = 0 \<or> \<not> at_valid (hd (dr_attempts r)))
     \<and> length (dr_responses r) = us_requests (dr_usage r)
     \<and> dr_conditions r = [(u ''CORE_BACKLOG_PRESSURE'', Present)]
     \<and> map dt_step (dr_steps r) = [1..<length (dr_steps r) + 1]
     \<and> concat (map dt_returned (dr_steps r)) = map de_id (dr_evidence r)"

text \<open>\<open>DiagnosisRun.model_validate\<close> of fields of the declared types.\<close>

definition validate_run :: "opslib \<Rightarrow> diagnosis_run \<Rightarrow> exn + diagnosis_run" where
  "validate_run O' r =
     (if run_fields_ok r \<and> run_contract r \<and> verify_run O' r then Inr r else Inl (value_error ''ValidationError''))"

definition evidence_status_summary :: "evidence_status list \<Rightarrow> dx_status" where
  "evidence_status_summary xs =
     (if xs = [] then Dx_missing
      else if list_all (\<lambda>x. x = Ev_unavailable) xs then Dx_unavailable
      else if list_all (\<lambda>x. x = Ev_error) xs then Dx_error
      else if list_all (\<lambda>x. x = Ev_missing) xs then Dx_missing
      else if list_all (\<lambda>x. x = Ev_ok) xs then Dx_ok
      else Dx_partial)"

text \<open>A run passes \<open>verify_integrity\<close> exactly when its identity matches, and only then is dumped.\<close>

lemma validate_run_Inr:
  "validate_run O' r = Inr r' \<longleftrightarrow> r' = r \<and> run_fields_ok r \<and> run_contract r \<and> verify_run O' r"
  by (auto simp: validate_run_def)

lemma validation_flags_all [simp]:
  "list_all (\<lambda>b. b) (validation_flags v) \<longleftrightarrow>
     dv_schema v \<and> dv_citations v \<and> dv_calls v \<and> dv_budget v \<and> dv_stop v \<and> dv_claims v"
  by (simp add: validation_flags_def)

end
