(* ===== verification/Diagnosis_Tools.thy ===== *)
theory Diagnosis_Tools
  imports Diagnosis "HOL-Library.AList"
begin

text \<open>
  The read-only tools of a diagnosis (\<open>src/ops_agent/diagnosis_tools.py\<close>): a registry over the
  bundles of an activation that answers each allowlisted tool at most once with evidence reduced
  from the bundles. \<open>None\<close> stands for any exception of a tool: their only caller catches them
  all.
\<close>

section \<open>The tools\<close>

record tool_spec =
  ts_id :: ustr
  ts_description :: ustr
  ts_reason :: ustr

definition tool :: "string \<Rightarrow> string \<Rightarrow> string \<Rightarrow> tool_spec" where
  "tool name description reason = \<lparr>ts_id = u name, ts_description = u description, ts_reason = u reason\<rparr>"

definition tool_specs :: "tool_spec list" where
  "tool_specs =
     [tool ''get_partition_lag''
        ''Return per-partition Kafka lag across the deterministic activation window.''
        ''CHECK_PARTITION_LAG_DISTRIBUTION'',
      tool ''get_worker_stage_latency''
        ''Return normalized Worker db_persist stage latency context; commit is excluded.''
        ''CHECK_WORKER_PERSIST_STAGE'',
      tool ''get_worker_replica_status''
        ''Return Worker desired/current/ready/available replica observations.'' ''CHECK_WORKER_REPLICA_PATH'',
      tool ''get_keda_status''
        ''Return the Worker KEDA ScaledObject observations and conditions.'' ''CHECK_KEDA_ACTIVITY'',
      tool ''get_postgres_health''
        ''Return normalized PostgreSQL HA readiness component observations.'' ''CHECK_POSTGRES_HEALTH'',
      tool ''get_application_readiness''
        ''Return normalized application readiness observations.'' ''CHECK_APPLICATION_READINESS'',
      tool ''get_runtime_image''
        ''Return desired Worker image and observed pod image identifiers.'' ''CHECK_RUNTIME_IMAGE_CONSISTENCY'',
      tool ''get_pod_restart_status''
        ''Return Worker pod phase, readiness, restart, and last termination observations.'' ''CHECK_WORKER_RESTARTS'',
      tool ''get_argocd_status''
        ''Return normalized Argo CD sync, health, revision, and reconciliation observations.'' ''CHECK_GITOPS_STATUS'']"

definition tool_ids :: "ustr list" where
  "tool_ids = map ts_id tool_specs"

definition tool_by_id :: "ustr \<Rightarrow> tool_spec option" where
  "tool_by_id name = map_of (map (\<lambda>t. (ts_id t, t)) tool_specs) name"

section \<open>Arithmetic with special values\<close>

text \<open>\<open>x - y\<close>, \<open>x + y\<close> and \<open>x > y\<close>; \<open>None\<close> is \<open>InvalidOperation\<close>.\<close>

fun x_add :: "dec \<Rightarrow> dec \<Rightarrow> dec option" where
  "x_add (Dec a b) (Dec c d) = Some (dec_add (Dec a b) (Dec c d))"
| "x_add DecNaN _ = Some DecNaN"
| "x_add _ DecNaN = Some DecNaN"
| "x_add (DecInf a) (DecInf b) = (if a = b then Some (DecInf a) else None)"
| "x_add (DecInf a) (Dec _ _) = Some (DecInf a)"
| "x_add (Dec _ _) (DecInf b) = Some (DecInf b)"

fun x_sub :: "dec \<Rightarrow> dec \<Rightarrow> dec option" where
  "x_sub (Dec a b) (Dec c d) = Some (dec_sub (Dec a b) (Dec c d))"
| "x_sub x (DecInf b) = x_add x (DecInf (\<not> b))"
| "x_sub x y = x_add x y"

fun x_greater :: "dec \<Rightarrow> dec \<Rightarrow> bool option" where
  "x_greater (Dec a b) (Dec c d) = Some (dec_less (Dec c d) (Dec a b))"
| "x_greater DecNaN _ = None"
| "x_greater _ DecNaN = None"
| "x_greater (DecInf a) (DecInf b) = Some (\<not> a \<and> b)"
| "x_greater (DecInf a) (Dec _ _) = Some (\<not> a)"
| "x_greater (Dec _ _) (DecInf b) = Some b"

fun x_max :: "dec \<Rightarrow> dec list \<Rightarrow> dec option" where
  "x_max m [] = Some m"
| "x_max m (x # xs) = Option.bind (x_greater x m) (\<lambda>g. x_max (if g then x else m) xs)"

fun x_sum :: "dec \<Rightarrow> dec list \<Rightarrow> dec option" where
  "x_sum s [] = Some s"
| "x_sum s (x # xs) = Option.bind (x_add s x) (\<lambda>s'. x_sum s' xs)"

text \<open>\<open>None if total == 0 else float(maximum / total)\<close>.\<close>

fun share_of :: "dec \<Rightarrow> dec \<Rightarrow> json option" where
  "share_of (Dec a b) (Dec c d) = Some (if c = 0 then JNull else JFloat (ratio_float (Dec a b) (Dec c d)))"
| "share_of x (Dec c d) = (if c = 0 then Some JNull else Some (JFloat (case x of
      DecInf neg \<Rightarrow> if neg = (c < 0) then PosInf else NegInf | _ \<Rightarrow> NaN)))"
| "share_of (Dec a b) (DecInf neg) = Some (JFloat (if (a < 0) = neg then Fin 0 else NegZero))"
| "share_of (DecInf a) (DecInf b) = None"
| "share_of _ _ = Some (JFloat NaN)"

section \<open>Summaries\<close>

definition sample_objects :: "json list \<Rightarrow> obj list" where
  "sample_objects xs = List.map_filter (\<lambda>x. case x of JObj d \<Rightarrow> if has_key d ''value'' then Some d else None | _ \<Rightarrow> None) xs"

definition series_summary :: "opslib \<Rightarrow> json \<Rightarrow> json option" where
  "series_summary O' v =
     (case v of
        JArr xs \<Rightarrow>
          (let samples = sample_objects xs in
           if samples = [] then Some (JArr (take 64 xs))
           else (let first = to_decimal O' (get_none (hd samples) ''value'');
                     latest = to_decimal O' (get_none (last samples) ''value'')
                 in map_option (\<lambda>delta. JObj
                     [(u ''sample_count'', JInt (int (length samples))),
                      (u ''first_timestamp'', get_none (hd samples) ''timestamp''),
                      (u ''latest_timestamp'', get_none (last samples) ''timestamp''),
                      (u ''first_value'', jopt (\<lambda>x. JStr (dec_str x)) first),
                      (u ''latest_value'', jopt (\<lambda>x. JStr (dec_str x)) latest), (u ''delta'', delta)])
                   (case (first, latest) of
                      (Some f, Some l) \<Rightarrow> map_option (\<lambda>x. JStr (dec_str x)) (x_sub l f)
                    | _ \<Rightarrow> Some JNull)))
      | _ \<Rightarrow> Some v)"

definition item_summary :: "opslib \<Rightarrow> item \<Rightarrow> json option" where
  "item_summary O' i = map_option (\<lambda>value. JObj
     [(u ''evidence_id'', JStr (it_id i)), (u ''status'', JStr (evidence_value (it_status i))),
      (u ''freshness'', JStr (freshness_value (fr_status (it_freshness i)))),
      (u ''source_timestamp'', jopt (\<lambda>t. JStr (isoformat t)) (it_source_ts i)),
      (u ''metric_name'', JStr (item_name i)), (u ''labels'', JObj (map (\<lambda>(k, v). (k, JStr v)) (it_labels i))),
      (u ''value'', value), (u ''semantic_type'', JStr (se_type (it_semantic i))),
      (u ''semantic_flags'', jstrs (se_flags (it_semantic i)))])
     (series_summary O' (me_value (it_metric i)))"

section \<open>The registry\<close>

record registry =
  rg_indexes :: "int list"
  rg_bundles :: "evidence_bundle list"
  rg_evaluation :: sequence_evaluation
  rg_called :: "ustr list"

text \<open>\<open>xs[i]\<close>: a negative index counts from the end.\<close>

definition py_nth :: "'a list \<Rightarrow> int \<Rightarrow> 'a option" where
  "py_nth xs i =
     (let j = (if i < 0 then i + int (length xs) else i)
      in if 0 \<le> j \<and> j < int (length xs) then Some (xs ! nat j) else None)"

text \<open>\<open>int(value)\<close> of a value of a window, which holds integers; \<open>None\<close> is an exception.\<close>

fun window_int :: "json \<Rightarrow> int option" where
  "window_int (JInt i) = Some i"
| "window_int (JBool b) = Some (if b then 1 else 0)"
| "window_int (JFloat (Fin r)) = Some (if r < 0 then - \<lfloor>- r\<rfloor> else \<lfloor>r\<rfloor>)"
| "window_int (JFloat NegZero) = Some 0"
| "window_int (JStr s) = py_int_text s"
| "window_int _ = None"

text \<open>The first window of the facts: a nonempty list whose first entry is a list.\<close>

definition first_window :: "obj \<Rightarrow> json list option" where
  "first_window facts =
     (case get_none facts ''matched_activation_windows'' of JArr (JArr w # ws) \<Rightarrow> Some w | _ \<Rightarrow> None)"

fun check_sources :: "opslib \<Rightarrow> (evidence_bundle \<times> sequence_reference) list \<Rightarrow> exn + unit" where
  "check_sources O' [] = Inr ()"
| "check_sources O' ((b, r) # rest) =
     guard (bu_id b = sq_bundle r) (value_error ''condition evaluation bundle order mismatch'')
     (guard (bundle_digest O' b = sq_sha256 r) (value_error ''condition evaluation source bundle digest mismatch'')
       (check_sources O' rest))"

definition make_registry :: "opslib \<Rightarrow> evidence_bundle list \<Rightarrow> sequence_evaluation \<Rightarrow> exn + registry" where
  "make_registry O' bs e =
     guard (verify_sequence O' e) (value_error ''evaluation_id does not match the sequence payload'')
     (guard (cr_state (core_of e) = Present) (value_error ''diagnosis requires CORE_BACKLOG_PRESSURE=PRESENT'')
     (guard (length bs = length (sv_sources e)) (value_error ''condition evaluation bundle count mismatch'')
     (rbind (check_sources O' (zip bs (sv_sources e))) (\<lambda>_.
      case first_window (cr_facts (core_of e)) of
        None \<Rightarrow> Inl (value_error ''PRESENT condition lacks a matched activation window'')
      | Some w \<Rightarrow>
          (case those (map window_int w) of
             None \<Rightarrow> Inl TypeError
           | Some ks \<Rightarrow> Inr \<lparr>rg_indexes = ks, rg_bundles = bs, rg_evaluation = e, rg_called = []\<rparr>)))))"

definition function_tools :: "registry \<Rightarrow> json list" where
  "function_tools r = map (\<lambda>t. JObj
       [(u ''type'', JStr (u ''function'')), (u ''name'', JStr (ts_id t)), (u ''description'', JStr (ts_description t)),
        (u ''strict'', JBool True),
        (u ''parameters'', JObj [(u ''type'', JStr (u ''object'')), (u ''properties'', JObj []),
           (u ''required'', JArr []), (u ''additionalProperties'', JBool False)])])
     (filter (\<lambda>t. ts_id t \<notin> set (rg_called r)) tool_specs)"

section \<open>Handlers\<close>

definition selected_bundles :: "registry \<Rightarrow> evidence_bundle list option" where
  "selected_bundles r = those (map (py_nth (rg_bundles r)) (rg_indexes r))"

definition selected_items :: "registry \<Rightarrow> (item \<Rightarrow> bool) \<Rightarrow> item list option" where
  "selected_items r P = map_option (\<lambda>bs. filter P (concat (map bu_evidence bs))) (selected_bundles r)"

definition metric_items :: "opslib \<Rightarrow> registry \<Rightarrow> string \<Rightarrow> (item list \<times> obj) option" where
  "metric_items O' r name =
     Option.bind (selected_items r (\<lambda>i. item_name i = u name)) (\<lambda>items.
       map_option (\<lambda>xs. (items, [(u ''observations'', JArr xs)])) (those (map (item_summary O') items)))"

text \<open>One capture entry per index of the window.\<close>

definition per_capture :: "registry \<Rightarrow> (int \<Rightarrow> sequence_observation \<Rightarrow> obj option) \<Rightarrow> json list option" where
  "per_capture r f = those (map (\<lambda>k.
     Option.bind (py_nth (sv_observations (rg_evaluation r)) k) (\<lambda>o'.
       map_option (\<lambda>d. JObj ((u ''sequence_index'', JInt k) # d)) (f k o'))) (rg_indexes r))"

definition context_items ::
  "registry \<Rightarrow> (item \<Rightarrow> bool) \<Rightarrow> obj \<Rightarrow> (sequence_observation \<Rightarrow> json) \<Rightarrow> (item list \<times> obj) option" where
  "context_items r P extra f =
     Option.bind (selected_items r P) (\<lambda>items.
       map_option (\<lambda>xs. (items, extra @ [(u ''captures'', JArr xs)]))
         (per_capture r (\<lambda>k o'. Some [(u ''context'', f o')])))"

definition partition_summaries :: "opslib \<Rightarrow> item list \<Rightarrow> (ustr \<times> json) list option" where
  "partition_summaries O' items =
     map_option (\<lambda>xs. foldl (\<lambda>d (k, v). AList.update k v d) [] xs)
       (those (map (\<lambda>i. map_option (Pair (case label i ''partition'' of None \<Rightarrow> u ''unknown'' | Some q \<Rightarrow> q))
          (series_summary O' (me_value (it_metric i)))) items))"

definition latest_lags :: "opslib \<Rightarrow> (ustr \<times> json) list \<Rightarrow> dec list" where
  "latest_lags O' d = List.map_filter (\<lambda>(k, v). case v of
       JObj s \<Rightarrow> to_decimal O' (get_none s ''latest_value'') | _ \<Rightarrow> None) d"

definition lag_items :: "item \<Rightarrow> bool" where
  "lag_items i \<longleftrightarrow> item_name i = u ''kafka_consumergroup_lag''"

definition lag_capture :: "opslib \<Rightarrow> registry \<Rightarrow> int \<Rightarrow> sequence_observation \<Rightarrow> obj option" where
  "lag_capture O' r k o' =
     Option.bind (py_nth (rg_bundles r) k) (\<lambda>b.
     Option.bind (partition_summaries O' (filter lag_items (bu_evidence b))) (\<lambda>d.
      let numeric = latest_lags O' d
      in Option.bind (x_sum dec_zero numeric) (\<lambda>total.
         Option.bind (case numeric of [] \<Rightarrow> Some dec_zero | x # xs \<Rightarrow> x_max x xs) (\<lambda>maximum.
         map_option (\<lambda>share.
           [(u ''total_lag_records'', jopt JInt (so_total o')),
            (u ''lag_slope_60s_records_per_second'', jopt JFloat (so_slope o')),
            (u ''maximum_partition_share'', share), (u ''per_partition'', JObj d)])
           (share_of maximum total)))))"

definition partition_lag :: "opslib \<Rightarrow> registry \<Rightarrow> (item list \<times> obj) option" where
  "partition_lag O' r =
     Option.bind (selected_items r lag_items) (\<lambda>items.
       map_option (\<lambda>xs. (items, [(u ''activation_window'', JArr (map JInt (rg_indexes r))), (u ''captures'', JArr xs)]))
         (per_capture r (lag_capture O' r)))"

definition worker_stage_latency :: "registry \<Rightarrow> (item list \<times> obj) option" where
  "worker_stage_latency r = context_items r
     (\<lambda>i. it_tool i = u ''prometheus.messaging_worker_db_persist_stage_latency_seconds.range.v1'')
     [(u ''commit_latency'', JStr (u ''UNAVAILABLE'')),
      (u ''stage_semantic'', JStr (u ''_persist_message_with_cursor stage; commit excluded''))] so_stage"

definition worker_replicas :: "registry \<Rightarrow> (item list \<times> obj) option" where
  "worker_replicas r = context_items r (\<lambda>i. item_name i = u ''kubernetes_worker_deployment_observation'') [] so_worker"

definition keda_status :: "registry \<Rightarrow> (item list \<times> obj) option" where
  "keda_status r = context_items r (\<lambda>i. item_name i = u ''kubernetes_worker_scaled_object_observation'') [] so_keda"

definition runtime_image :: "registry \<Rightarrow> (item list \<times> obj) option" where
  "runtime_image r =
     Option.bind (selected_items r (\<lambda>i. item_name i = u ''kubernetes_worker_pod_observations'')) (\<lambda>items.
       map_option (\<lambda>bs. (items, [(u ''captures'', JArr (map (\<lambda>(k, b). JObj
            [(u ''sequence_index'', JInt k), (u ''desired_image'', jopt JStr (bc_desired_image (bu_context b))),
             (u ''pod_image_ids'', jstrs (bc_pod_images (bu_context b)))]) (zip (rg_indexes r) bs)))]))
         (selected_bundles r))"

definition tool_result :: "opslib \<Rightarrow> registry \<Rightarrow> ustr \<Rightarrow> (item list \<times> obj) option" where
  "tool_result O' r name =
     (if name = u ''get_partition_lag'' then partition_lag O' r
      else if name = u ''get_worker_stage_latency'' then worker_stage_latency r
      else if name = u ''get_worker_replica_status'' then worker_replicas r
      else if name = u ''get_keda_status'' then keda_status r
      else if name = u ''get_postgres_health'' then metric_items O' r ''application_postgres_runtime_observation''
      else if name = u ''get_application_readiness'' then metric_items O' r ''application_readiness_observation''
      else if name = u ''get_runtime_image'' then runtime_image r
      else if name = u ''get_pod_restart_status'' then metric_items O' r ''kubernetes_worker_pod_observations''
      else if name = u ''get_argocd_status'' then metric_items O' r ''argocd_application_observation''
      else None)"

section \<open>Execution of a tool\<close>

definition max_stamp :: "stamp list \<Rightarrow> stamp" where
  "max_stamp ts = foldl (\<lambda>m t. if micros m < micros t then t else m) (hd ts) (tl ts)"

definition min_stamp :: "stamp list \<Rightarrow> stamp" where
  "min_stamp ts = foldl (\<lambda>m t. if micros t < micros m then t else m) (hd ts) (tl ts)"

definition max_float :: "pyfloat list \<Rightarrow> pyfloat" where
  "max_float xs = foldl (\<lambda>m x. if f_less m x then x else m) (hd xs) (tl xs)"

definition nonempty :: "('a list \<Rightarrow> 'b) \<Rightarrow> 'a list \<Rightarrow> 'b option" where
  "nonempty f xs = (if xs = [] then None else Some (f xs))"

definition combined_freshness :: "item list \<Rightarrow> dx_freshness" where
  "combined_freshness items =
     (let states = map (\<lambda>i. fr_status (it_freshness i)) items; ts = List.map_filter it_source_ts items
      in \<lparr>df_status = (if Stale \<in> set states then Stale
                       else if states \<noteq> [] \<and> list_all (\<lambda>x. x = Fresh) states then Fresh else Fresh_unknown),
          df_oldest = nonempty min_stamp ts, df_newest = nonempty max_stamp ts,
          df_max_age = nonempty max_float (List.map_filter (\<lambda>i. fr_max_age (it_freshness i)) items)\<rparr>)"

definition tool_evidence ::
  "opslib \<Rightarrow> sequence_evaluation \<Rightarrow> ustr \<Rightarrow> item list \<Rightarrow> obj \<Rightarrow> evidence_bundle list \<Rightarrow> ustr list \<Rightarrow> dx_evidence" where
  "tool_evidence O' e name items summary bs digests =
     (let sources = sorted_set (map it_id items);
          identity = JObj
            [(u ''tool_registry_version'', JStr (u ''ops.diagnosis.tools.v1'')), (u ''tool_id'', JStr name),
             (u ''condition_evaluation_id'', JStr (sv_id e)), (u ''source_bundle_digests'', jstrs digests),
             (u ''source_evidence_ids'', jstrs sources), (u ''summary'', JObj summary)]
      in \<lparr>de_id = u ''diagnosis.'' @ name @ [46] @ take 24 (canonical_sha256 (py O') identity), de_tool = name,
          de_status = evidence_status_summary (map it_status items),
          de_observed = max_stamp (map (\<lambda>b. co_completed (bu_collection b)) bs),
          de_freshness = combined_freshness items, de_sources = sources, de_digests = digests,
          de_semantic = u ''normalized_'' @ name @ u ''_observation'', de_summary = summary, de_error = None\<rparr>)"

definition execute :: "opslib \<Rightarrow> registry \<Rightarrow> ustr \<Rightarrow> (dx_evidence \<times> registry) option" where
  "execute O' r name =
     (if name \<notin> set tool_ids \<or> name \<in> set (rg_called r) then None
      else case (tool_result O' r name, selected_bundles r,
                 those (map (py_nth (sv_sources (rg_evaluation r))) (rg_indexes r))) of
             (Some (items, summary), Some bs, Some refs) \<Rightarrow>
               (if bs = [] then None
                else (let e = tool_evidence O' (rg_evaluation r) name items summary bs (map sq_sha256 refs)
                      in if dx_evidence_ok e then Some (e, r\<lparr>rg_called := name # rg_called r\<rparr>) else None))
           | _ \<Rightarrow> None)"

section \<open>What an execution guarantees\<close>

lemma length_tool_specs [simp]: "length tool_specs = 9"
  by (simp add: tool_specs_def)

lemma tool_ids_distinct: "distinct tool_ids"
  by (simp add: tool_ids_def tool_specs_def tool_def u_def)

lemma tool_by_id_iff: "tool_by_id name \<noteq> None \<longleftrightarrow> name \<in> set tool_ids"
  by (simp add: tool_by_id_def map_of_eq_None_iff image_image tool_ids_def)

lemma tool_known: "(\<exists>t. tool_by_id name = Some t) \<longleftrightarrow> name \<in> set tool_ids"
  using tool_by_id_iff by blast

lemma tool_by_id_fields: "tool_by_id name = Some t \<Longrightarrow> t \<in> set tool_specs \<and> ts_id t = name"
  by (auto simp: tool_by_id_def dest!: map_of_SomeD)

lemma tool_texts_bounded: "t \<in> set tool_specs \<Longrightarrow> bounded 128 (ts_id t) \<and> bounded 128 (ts_reason t)"
  by (auto simp: tool_specs_def tool_def bounded_def u_def)

lemma execute_Some:
  assumes "execute O' r name = Some (e, r')"
  shows "name \<in> set tool_ids" "name \<notin> set (rg_called r)" "r' = r\<lparr>rg_called := name # rg_called r\<rparr>"
    "de_tool e = name" "dx_evidence_ok e"
  using assms by (auto simp: execute_def tool_evidence_def Let_def split: if_splits option.splits prod.splits)

lemma function_tools_Nil: "function_tools r = [] \<longleftrightarrow> set tool_ids \<subseteq> set (rg_called r)"
  by (auto simp: function_tools_def filter_empty_conv tool_ids_def)

end
