(* ===== verification/Diagnosis_Validator.thy ===== *)
theory Diagnosis_Validator
  imports Diagnosis_Tools Db_Pool
begin

text \<open>
  The deterministic validation of a decision of the model
  (\<open>src/ops_agent/diagnosis_validator.py\<close>): budgets, allowlisted and unrepeated tools, the trace
  of the evidence, forbidden claims and citations.
\<close>

record dx_error =
  dx_code :: ustr
  dx_message :: ustr
  dx_details :: obj

definition dx_error :: "string \<Rightarrow> string \<Rightarrow> obj \<Rightarrow> dx_error" where
  "dx_error code message details = \<lparr>dx_code = u code, dx_message = u message, dx_details = details\<rparr>"

definition dump_dx_error :: "dx_error \<Rightarrow> json" where
  "dump_dx_error e = JObj
     [(u ''code'', JStr (dx_code e)), (u ''message'', JStr (dx_message e)), (u ''details'', JObj (dx_details e))]"

definition steps_ok :: "dx_policy \<Rightarrow> dx_evidence list \<Rightarrow> dx_step list \<Rightarrow> dx_error + unit" where
  "steps_ok p evidence steps =
     guard (length steps \<le> dp_max_steps p \<and> length steps \<le> dp_max_calls p)
       (dx_error ''STEP_OR_TOOL_BUDGET_EXCEEDED'' ''step or tool-call budget exceeded'' [])
     (guard (distinct (map dt_tool steps))
       (dx_error ''REPEATED_TOOL_CALL'' ''repeated tool calls are forbidden'' [])
     (guard (list_all (\<lambda>s. tool_by_id (dt_tool s) \<noteq> None) steps)
       (dx_error ''NON_ALLOWLISTED_TOOL_CALL'' ''non-allowlisted tool call'' [])
     (guard (map de_id evidence = concat (map dt_returned steps))
       (dx_error ''STEP_EVIDENCE_TRACE_MISMATCH'' ''step evidence trace does not match tool results'' [])
     (guard (distinct (map de_id evidence))
       (dx_error ''DUPLICATE_DIAGNOSIS_EVIDENCE_ID'' ''diagnosis evidence IDs must be unique'' [])
     (guard (list_all (\<lambda>(s, e). dt_tool s = de_tool e) (zip steps evidence))
       (dx_error ''TOOL_EVIDENCE_ID_MISMATCH'' ''tool step and evidence tool ID mismatch'' [])
       (Inr ()))))))"

section \<open>Hypotheses\<close>

definition forbidden_claims :: "string list" where
  "forbidden_claims =
     [''CORE_BACKLOG_PRESSURE_ABSENT'', ''CORE_BACKLOG_PRESSURE_UNKNOWN'', ''CONDITION_REEVALUAT'', ''RECOVERED'',
      ''RECOVERY_DECLAR'', ''REMEDIAT'', ''KUBECTL'', ''PROMQL'', ''SHELL'', ''SCALE_WORKER'', ''DELETE_POD'',
      ''ARGO_SYNC'', ''DLQ_REPLAY'', ''DB_RESTORE'']"

definition structured_text :: "opslib \<Rightarrow> hypothesis \<Rightarrow> ustr" where
  "structured_text O' h = upper_of O' (join [32] (hy_reasons h @ hy_gaps h))"

definition claims_forbidden :: "opslib \<Rightarrow> hypothesis \<Rightarrow> bool" where
  "claims_forbidden O' h \<longleftrightarrow> list_ex (contains (structured_text O' h)) forbidden_claims"

definition at_index :: "nat \<Rightarrow> obj \<Rightarrow> obj" where
  "at_index k d = (u ''hypothesis_index'', JInt (int k)) # d"

definition unknown_citations :: "ustr list \<Rightarrow> hypothesis \<Rightarrow> ustr list" where
  "unknown_citations known h = sorted_set (filter (\<lambda>i. i \<notin> set known) (hy_supporting h @ hy_conflicting h))"

definition rebalance_ok :: "nat \<Rightarrow> hypothesis \<Rightarrow> dx_error + unit" where
  "rebalance_ok k h =
     (if hy_name h \<noteq> Consumer_rebalance then Inr ()
      else guard (hy_support h = Insufficient)
        (dx_error ''REBALANCE_TELEMETRY_UNAVAILABLE''
          ''rebalance telemetry cannot support or exclude the hypothesis'' (at_index k []))
      (guard (hy_supporting h = [] \<and> hy_conflicting h = [])
        (dx_error ''REBALANCE_CITATIONS_FORBIDDEN''
          ''unavailable rebalance telemetry cannot be cited as supporting or conflicting evidence'' (at_index k []))
      (guard (u ''CONSUMER_REBALANCE_TELEMETRY_UNAVAILABLE'' \<in> set (hy_gaps h))
        (dx_error ''REBALANCE_GAP_REQUIRED''
          ''rebalance hypothesis must preserve unavailable telemetry gap'' (at_index k []))
        (Inr ()))))"

definition hypothesis_valid :: "opslib \<Rightarrow> ustr list \<Rightarrow> nat \<Rightarrow> hypothesis \<Rightarrow> dx_error + unit" where
  "hypothesis_valid O' known k h =
     guard (\<not> claims_forbidden O' h)
       (dx_error ''FORBIDDEN_DIAGNOSIS_CLAIM''
         ''model output contains a forbidden condition, recovery, or action claim'' (at_index k []))
     (guard (unknown_citations known h = [])
       \<lparr>dx_code = u ''UNKNOWN_EVIDENCE_CITATION'',
        dx_message = u ''hypothesis cites unknown evidence IDs: '' @ repr_of O' (jstrs (unknown_citations known h)),
        dx_details = at_index k [(u ''unknown_evidence_ids'', jstrs (unknown_citations known h))]\<rparr>
     (guard (hy_support h \<noteq> Supported \<or> hy_supporting h \<noteq> [])
       (dx_error ''SUPPORTED_REQUIRES_SUPPORTING_CITATION'' ''SUPPORTED hypothesis requires citations'' (at_index k []))
     (guard (hy_support h \<noteq> Conflicted \<or> (hy_supporting h \<noteq> [] \<and> hy_conflicting h \<noteq> []))
       (dx_error ''CONFLICTED_REQUIRES_BOTH_CITATION_SIDES''
         ''CONFLICTED hypothesis requires supporting and conflicting citations''
         (at_index k [(u ''missing_fields'', jstrs
            (emit (hy_supporting h = []) (u ''supporting_evidence_ids'')
             @ emit (hy_conflicting h = []) (u ''conflicting_evidence_ids'')))]))
     (guard (hy_support h \<noteq> Insufficient \<or> hy_gaps h \<noteq> [])
       (dx_error ''INSUFFICIENT_REQUIRES_EVIDENCE_GAP'' ''INSUFFICIENT hypothesis requires an evidence gap'' (at_index k []))
       (rebalance_ok k h)))))"

fun hypotheses_valid :: "opslib \<Rightarrow> ustr list \<Rightarrow> nat \<Rightarrow> hypothesis list \<Rightarrow> dx_error + unit" where
  "hypotheses_valid O' known k [] = Inr ()"
| "hypotheses_valid O' known k (h # hs) =
     rbind (hypothesis_valid O' known k h) (\<lambda>_. hypotheses_valid O' known (Suc k) hs)"

definition supported_cause :: "decision \<Rightarrow> bool" where
  "supported_cause d \<longleftrightarrow>
     list_ex (\<lambda>h. hy_name h \<noteq> Insufficient_evidence \<and> hy_support h = Supported) (dn_hypotheses d)"

definition all_valid :: dx_validation where
  "all_valid = \<lparr>dv_schema = True, dv_citations = True, dv_calls = True, dv_budget = True, dv_stop = True,
     dv_claims = True\<rparr>"

text \<open>\<open>DiagnosisOutputValidator.validate\<close>.\<close>

definition validate_decision ::
  "opslib \<Rightarrow> dx_policy \<Rightarrow> ustr list \<Rightarrow> dx_evidence list \<Rightarrow> dx_step list \<Rightarrow> decision \<Rightarrow> dx_error + dx_validation" where
  "validate_decision O' p initial evidence steps d =
     rbind (steps_ok p evidence steps) (\<lambda>_.
     rbind (hypotheses_valid O' (initial @ map de_id evidence) 0 (dn_hypotheses d)) (\<lambda>_.
     guard (dn_stop d \<noteq> Stop_sufficient \<or> supported_cause d)
       (dx_error ''SUFFICIENT_STOP_REQUIRES_SUPPORTED_CAUSE''
         ''sufficient_evidence requires a supported causal hypothesis'' [])
     (guard (dn_stop d \<noteq> Stop_insufficient \<or> \<not> supported_cause d)
       (dx_error ''INSUFFICIENT_STOP_CONFLICTS_WITH_SUPPORTED_CAUSE''
         ''insufficient_evidence conflicts with a supported causal hypothesis'' [])
     (guard (dn_stop d \<noteq> Stop_budget \<or> length steps = dp_max_steps p)
       (dx_error ''STEP_BUDGET_STOP_REQUIRES_FULL_BUDGET''
         ''step_budget_exhausted requires the complete step budget'' [])
       (Inr all_valid)))))"

section \<open>What a valid decision is\<close>

text \<open>
  A hypothesis the validator accepts, stated over sets: no forbidden claim, only known
  citations, and the citations or gaps its support status asks for.
\<close>

definition grounded :: "opslib \<Rightarrow> ustr set \<Rightarrow> hypothesis \<Rightarrow> bool" where
  "grounded O' known h \<longleftrightarrow>
     \<not> claims_forbidden O' h \<and> set (hy_supporting h) \<union> set (hy_conflicting h) \<subseteq> known
     \<and> (case hy_support h of
          Supported \<Rightarrow> hy_supporting h \<noteq> []
        | Conflicted \<Rightarrow> hy_supporting h \<noteq> [] \<and> hy_conflicting h \<noteq> []
        | Insufficient \<Rightarrow> hy_gaps h \<noteq> [])
     \<and> (hy_name h = Consumer_rebalance \<longrightarrow> hy_support h = Insufficient \<and> hy_supporting h = [] \<and> hy_conflicting h = []
          \<and> u ''CONSUMER_REBALANCE_TELEMETRY_UNAVAILABLE'' \<in> set (hy_gaps h))"

lemma unknown_citations_Nil:
  "unknown_citations known h = [] \<longleftrightarrow> set (hy_supporting h) \<union> set (hy_conflicting h) \<subseteq> set known"
  by (auto simp: unknown_citations_def filter_empty_conv)

lemma hypothesis_valid_iff: "hypothesis_valid O' known k h = Inr x \<longleftrightarrow> grounded O' (set known) h"
  by (cases "hy_support h")
    (auto simp: hypothesis_valid_def rebalance_ok_def guard_eq_Inr unknown_citations_Nil grounded_def)

lemma hypotheses_valid_iff: "hypotheses_valid O' known k hs = Inr x \<longleftrightarrow> list_all (grounded O' (set known)) hs"
  by (induction hs arbitrary: k) (auto simp: rbind_eq_Inr hypothesis_valid_iff)

text \<open>The stop reason agrees with what the hypotheses and the steps show.\<close>

definition stop_agrees :: "dx_policy \<Rightarrow> dx_step list \<Rightarrow> decision \<Rightarrow> bool" where
  "stop_agrees p steps d \<longleftrightarrow>
     (case dn_stop d of
        Stop_sufficient \<Rightarrow> supported_cause d
      | Stop_insufficient \<Rightarrow> \<not> supported_cause d
      | Stop_budget \<Rightarrow> length steps = dp_max_steps p
      | _ \<Rightarrow> True)"

lemma steps_ok_iff:
  "steps_ok p evidence steps = Inr x \<longleftrightarrow>
     length steps \<le> dp_max_steps p \<and> length steps \<le> dp_max_calls p \<and> distinct (map dt_tool steps)
     \<and> set (map dt_tool steps) \<subseteq> set tool_ids \<and> map de_id evidence = concat (map dt_returned steps)
     \<and> distinct (map de_id evidence) \<and> list_all (\<lambda>(s, e). dt_tool s = de_tool e) (zip steps evidence)"
  by (auto simp: steps_ok_def guard_eq_Inr list_all_iff tool_known)

lemma validate_decision_iff:
  "validate_decision O' p initial evidence steps d = Inr v \<longleftrightarrow>
     v = all_valid \<and> steps_ok p evidence steps = Inr ()
     \<and> list_all (grounded O' (set initial \<union> set (map de_id evidence))) (dn_hypotheses d)
     \<and> stop_agrees p steps d"
  by (cases "dn_stop d")
    (auto simp: validate_decision_def rbind_eq_Inr guard_eq_Inr hypotheses_valid_iff stop_agrees_def)

end
