(* ===== verification/Diagnosis_Agent.thy ===== *)
theory Diagnosis_Agent
  imports Diagnosis_Validator
begin

text \<open>
  The bounded diagnosis agent (\<open>src/ops_agent/diagnosis_agent.py\<close>): turns of the model with at
  most one read-only tool each, the validation of its decision, one repair of a decision that
  fails it, and the run. The HTTP client retries a bounded number of times.
\<close>

section \<open>The client of the model\<close>

text \<open>
  \<open>mr_text\<close> is the JSON value of the last output text, \<open>JNull\<close> when there is none. An exception
  that no handler catches is given as \<open>TypeError\<close> here, whatever its class.
\<close>

record model_response =
  mr_id :: ustr
  mr_output :: "obj list"
  mr_text :: json
  mr_input :: int
  mr_generated :: int
  mr_total :: int
  mr_status :: ustr
  mr_incomplete :: json

fun token_count :: "json \<Rightarrow> exn + int" where
  "token_count (JStr s) = (case py_int_text s of None \<Rightarrow> Inl (value_error ''invalid literal'') | Some i \<Rightarrow> Inr i)"
| "token_count (JFloat NaN) = Inl (value_error ''cannot convert float NaN to integer'')"
| "token_count v = (case window_int v of None \<Rightarrow> Inl TypeError | Some i \<Rightarrow> Inr i)"

definition usage_count :: "obj \<Rightarrow> string \<Rightarrow> exn + int" where
  "usage_count d k = (if truthy (get_or d k (JInt 0)) then token_count (get_or d k (JInt 0)) else Inr 0)"

text \<open>The parts of the content of a message; iterating over a text or a mapping meets no mapping.\<close>

fun content_objects :: "json \<Rightarrow> (obj list) option" where
  "content_objects (JArr xs) = Some (List.map_filter (\<lambda>x. case x of JObj d \<Rightarrow> Some d | _ \<Rightarrow> None) xs)"
| "content_objects (JStr _) = Some []"
| "content_objects (JObj _) = Some []"
| "content_objects _ = None"

definition output_objects :: "json list \<Rightarrow> obj list" where
  "output_objects xs = List.map_filter (\<lambda>x. case x of JObj d \<Rightarrow> Some d | _ \<Rightarrow> None) xs"

definition message_texts :: "obj list \<Rightarrow> (json list) option" where
  "message_texts items = map_option concat (those
     (map (\<lambda>d. map_option (\<lambda>cs. map (\<lambda>c. get_none c ''text'')
              (filter (\<lambda>c. get_none c ''type'' = JStr (u ''output_text'')) cs))
            (content_objects (get_or d ''content'' (JArr []))))
       (filter (\<lambda>d. get_none d ''type'' = JStr (u ''message'')) items)))"

definition parse_model_response :: "opslib \<Rightarrow> json \<Rightarrow> exn + model_response" where
  "parse_model_response O' value =
     (case value of
        JObj d \<Rightarrow>
          (case get_none d ''output'' of
             JArr xs \<Rightarrow>
               (case message_texts (output_objects xs) of
                  None \<Rightarrow> Inl TypeError
                | Some ts \<Rightarrow>
                    (let us = (case get_none d ''usage'' of JObj x \<Rightarrow> x | _ \<Rightarrow> [])
                     in rbind (usage_count us ''input_tokens'') (\<lambda>i.
                        rbind (usage_count us ''output_tokens'') (\<lambda>g.
                        rbind (usage_count us ''total_tokens'') (\<lambda>t.
                          Inr \<lparr>mr_id = py_str O' (get_or d ''id'' (JStr [])), mr_output = output_objects xs,
                               mr_text = (if ts = [] then JNull else last ts), mr_input = i, mr_generated = g,
                               mr_total = t, mr_status = py_str O' (get_or d ''status'' (JStr (u ''unknown''))),
                               mr_incomplete = get_none d ''incomplete_details''\<rparr>)))))
           | _ \<Rightarrow> Inl (value_error ''OpenAI response lacks output items''))
      | _ \<Rightarrow> Inl TypeError)"

text \<open>
  What one HTTP exchange gives: a body of a number of bytes, with its JSON value if it has one,
  an HTTP error with the code and type of its body when they are short texts, or a failure of
  the transport. The exchanges are those of an external state.
\<close>

datatype reply = Body nat "json option" | Http_error int "ustr option" "ustr option" | Transport ustr

definition max_response_bytes :: nat where
  "max_response_bytes = 4 * 1024 * 1024"

definition read_reply :: "opslib \<Rightarrow> nat \<Rightarrow> json option \<Rightarrow> exn + model_response" where
  "read_reply O' sz body =
     guard (sz \<le> max_response_bytes) (value_error ''OpenAI response exceeded the 4 MiB limit'')
       (case body of None \<Rightarrow> Inl (value_error ''JSONDecodeError'') | Some v \<Rightarrow> parse_model_response O' v)"

definition http_failure :: "int \<Rightarrow> ustr option \<Rightarrow> ustr option \<Rightarrow> exn" where
  "http_failure status code kind =
     (let suffix = join [47] (filter (\<lambda>s. s \<noteq> []) (List.map_filter (\<lambda>x. x) [code, kind]))
      in RuntimeError (u ''OpenAI Responses API HTTP '' @ py_str_int status
           @ (if suffix \<noteq> [] then u '' ('' @ suffix @ [41] else [])))"

definition retryable :: "int \<Rightarrow> ustr option \<Rightarrow> bool" where
  "retryable status code \<longleftrightarrow>
     code \<noteq> Some (u ''insufficient_quota'') \<and> status \<in> {408, 409, 429, 500, 502, 503, 504}"

text \<open>
  \<open>OpenAIResponsesClient.create\<close> with \<open>n\<close> attempts left after the current one; the sleeps
  between the attempts are not state.
\<close>

fun create_response ::
  "('h \<Rightarrow> json \<Rightarrow> reply \<times> 'h) \<Rightarrow> opslib \<Rightarrow> nat \<Rightarrow> 'h \<Rightarrow> json \<Rightarrow> (exn + model_response) \<times> 'h" where
  "create_response http O' n h payload =
     (case http h payload of (r, h') \<Rightarrow>
       (let again = (\<lambda>e. case n of 0 \<Rightarrow> (Inl e, h') | Suc m \<Rightarrow> create_response http O' m h' payload)
        in case r of
             Body sz body \<Rightarrow>
               (case read_reply O' sz body of
                  Inr resp \<Rightarrow> (Inr resp, h')
                | Inl e \<Rightarrow> if is_value_error e
                          then again (RuntimeError (u ''OpenAI Responses API failure: '' @ exn_name e)) else (Inl e, h'))
           | Http_error status code kind \<Rightarrow>
               if retryable status code then again (http_failure status code kind)
               else (Inl (http_failure status code kind), h')
           | Transport name \<Rightarrow> again (RuntimeError (u ''OpenAI Responses API failure: '' @ name))))"

declare create_response.simps [simp del]

section \<open>Requests\<close>

text \<open>\<open>json.dumps(v, ensure_ascii=True, separators=(',', ':'))\<close>: members in their order.\<close>

fun ascii_compact :: "pylib \<Rightarrow> json \<Rightarrow> ustr" where
  "ascii_compact L (JArr xs) = [91] @ join [44] (map (ascii_compact L) xs) @ [93]"
| "ascii_compact L (JObj d) =
     [123] @ join [44] (map (\<lambda>kv. ascii_text (fst kv) @ [58] @ ascii_compact L (snd kv)) d) @ [125]"
| "ascii_compact L v = canonical L v"

definition text_lines :: "string list \<Rightarrow> ustr" where
  "text_lines ls = concat (map (\<lambda>l. u l @ [10]) ls)"

definition system_instructions :: ustr where
  "system_instructions = text_lines
     [''You are the single Evidence-grounded Diagnosis Agent.'',
      ''The deterministic evaluator has already established CORE_BACKLOG_PRESSURE=PRESENT.'',
      ''Never re-evaluate that condition, declare recovery, recommend remediation, or request'',
      ''shell, kubectl, PromQL, URLs, filesystem access, writes, scaling, deletion, replay, sync,'',
      ''or restore. Select at most one allowlisted read-only tool per turn. Do not repeat tools.'',
      ''Use only evidence IDs present in the input or returned by tools. A hypothesis is'',
      ''SUPPORTED only when cited normalized evidence directly supports the suspicion.'',
      ''Preserve conflicting citations and explicit gaps. Consumer rebalance telemetry is'',
      ''UNAVAILABLE, so CONSUMER_REBALANCE_SUSPECTED must remain INSUFFICIENT with gap'',
      ''CONSUMER_REBALANCE_TELEMETRY_UNAVAILABLE. Output only the required JSON schema.'']"

definition repair_instructions :: ustr where
  "repair_instructions = text_lines
     [''Repair only the supplied structured diagnosis result so it'',
      ''passes the existing semantic output contract. Do not re-diagnose the incident. Do not'',
      ''request tools, add evidence, change the deterministic condition, declare recovery,'',
      ''recommend remediation, or introduce evidence IDs outside allowed_evidence_ids. A'',
      ''CONFLICTED hypothesis requires at least one real supporting citation and at least one'',
      ''real conflicting citation. If either side is not present in the allowed evidence, do'',
      ''not fabricate it: use SUPPORTED only when existing supporting evidence is sufficient'',
      ''and no conflict is claimed; otherwise use INSUFFICIENT and record the missing evidence'',
      ''in evidence_gaps. Return only the required JSON schema.'']"

definition text_array :: "int option \<Rightarrow> int \<Rightarrow> int \<Rightarrow> json" where
  "text_array least most width = JObj
     ([(u ''type'', JStr (u ''array''))] @ (case least of None \<Rightarrow> [] | Some n \<Rightarrow> [(u ''minItems'', JInt n)])
      @ [(u ''maxItems'', JInt most),
         (u ''items'', JObj [(u ''type'', JStr (u ''string'')), (u ''maxLength'', JInt width)])])"

definition enum_text :: "ustr list \<Rightarrow> json" where
  "enum_text xs = JObj [(u ''type'', JStr (u ''string'')), (u ''enum'', jstrs xs)]"

definition agent_decision_schema :: json where
  "agent_decision_schema = JObj
     [(u ''type'', JStr (u ''object'')),
      (u ''properties'', JObj
        [(u ''hypotheses'', JObj
           [(u ''type'', JStr (u ''array'')), (u ''minItems'', JInt 1), (u ''maxItems'', JInt 6),
            (u ''items'', JObj
              [(u ''type'', JStr (u ''object'')),
               (u ''properties'', JObj
                 [(u ''hypothesis'', enum_text (map hypothesis_value
                     [Hot_key, Worker_path, Poison_record, Sequence_contention, Consumer_rebalance, Insufficient_evidence])),
                  (u ''support_status'', enum_text (map support_value [Supported, Insufficient, Conflicted])),
                  (u ''reason_codes'', text_array (Some 1) 16 128),
                  (u ''supporting_evidence_ids'', text_array None 128 256),
                  (u ''conflicting_evidence_ids'', text_array None 128 256),
                  (u ''evidence_gaps'', text_array None 32 128)]),
               (u ''required'', jstrs (map u [''hypothesis'', ''support_status'', ''reason_codes'',
                  ''supporting_evidence_ids'', ''conflicting_evidence_ids'', ''evidence_gaps''])),
               (u ''additionalProperties'', JBool False)])]),
         (u ''stop_reason'', enum_text (map stop_value [Stop_sufficient, Stop_insufficient, Stop_no_tool, Stop_budget]))]),
      (u ''required'', jstrs [u ''hypotheses'', u ''stop_reason'']), (u ''additionalProperties'', JBool False)]"

definition request_payload :: "dx_policy \<Rightarrow> json list \<Rightarrow> json list \<Rightarrow> json" where
  "request_payload p history tools = JObj
     ([(u ''model'', JStr (dp_model p)), (u ''store'', JBool False), (u ''input'', JArr history),
       (u ''reasoning'', JObj [(u ''effort'', JStr (u ''low''))]),
       (u ''max_output_tokens'', JInt (int (dp_max_tokens p))),
       (u ''text'', JObj [(u ''format'', JObj
          [(u ''type'', JStr (u ''json_schema'')), (u ''name'', JStr (u ''ops_diagnosis_agent_decision_v1'')),
           (u ''strict'', JBool True), (u ''schema'', agent_decision_schema)])])]
      @ (if tools = [] then [] else
         [(u ''tools'', JArr tools), (u ''tool_choice'', JStr (u ''auto'')), (u ''parallel_tool_calls'', JBool False)]))"

section \<open>What the agent starts from\<close>

fun index_of :: "json \<Rightarrow> int option" where
  "index_of (JInt i) = Some i"
| "index_of (JBool b) = Some (if b then 1 else 0)"
| "index_of _ = None"

definition in_range :: "nat \<Rightarrow> json list \<Rightarrow> nat list" where
  "in_range n ks = map nat (filter (\<lambda>i. 0 \<le> i \<and> i < int n) (List.map_filter index_of ks))"

definition rebalance_items :: "sequence_evaluation \<Rightarrow> evidence_bundle list \<Rightarrow> item list" where
  "rebalance_items e bs =
     (let ks = (case first_window (cr_facts (core_of e)) of Some w \<Rightarrow> in_range (length bs) w | None \<Rightarrow> [0..<length bs])
      in filter (\<lambda>i. item_name i = u ''consumer_rebalance_event'') (concat (map (\<lambda>k. bu_evidence (bs ! k)) ks)))"

definition initial_evidence :: "sequence_evaluation \<Rightarrow> evidence_bundle list \<Rightarrow> ustr list \<times> json list" where
  "initial_evidence e bs =
     (dedup (dedup (cr_ids (core_of e)) @ map it_id (rebalance_items e bs)),
      map (\<lambda>i. JObj [(u ''evidence_id'', JStr (it_id i)), (u ''status'', JStr (evidence_value (it_status i))),
                     (u ''semantic_type'', JStr (se_type (it_semantic i))), (u ''notes'', JStr (se_notes (it_semantic i)))])
        (rebalance_items e bs))"

definition activation_facts :: "obj \<Rightarrow> json" where
  "activation_facts facts = JObj
     [(u ''activation_policy'', get_none facts ''activation_policy''),
      (u ''matched_activation_windows'', get_none facts ''matched_activation_windows''),
      (u ''matched_capture_measurements'',
         JArr (case (first_window facts, get_none facts ''capture_measurements'') of
                 (Some w, JArr ms) \<Rightarrow> map (\<lambda>k. ms ! k) (in_range (length ms) w)
               | _ \<Rightarrow> [])),
      (u ''recovery_or_clearing_evaluated'', JBool False)]"

definition message :: "string \<Rightarrow> ustr \<Rightarrow> json" where
  "message role content = JObj [(u ''role'', JStr (u role)), (u ''content'', JStr content)]"

definition first_history ::
  "opslib \<Rightarrow> dx_policy \<Rightarrow> sequence_evaluation \<Rightarrow> ustr list \<Rightarrow> json list \<Rightarrow> json list" where
  "first_history O' p e initial unavailable =
     [message ''system'' system_instructions,
      message ''user'' (ascii_compact (py O') (JObj
        [(u ''condition_evaluation_id'', JStr (sv_id e)),
         (u ''input_conditions'', JObj [(u ''CORE_BACKLOG_PRESSURE'', JStr (u ''PRESENT''))]),
         (u ''activation_facts'', activation_facts (cr_facts (core_of e))),
         (u ''initial_evidence_ids'', jstrs initial), (u ''unavailable_telemetry'', JArr unavailable),
         (u ''available_tools'', jstrs tool_ids),
         (u ''budgets'', JObj [(u ''max_steps'', JInt (int (dp_max_steps p))),
                              (u ''max_tool_calls'', JInt (int (dp_max_calls p)))])]))]"

section \<open>Decisions\<close>

definition find_by :: "('a \<Rightarrow> ustr) \<Rightarrow> 'a list \<Rightarrow> json \<Rightarrow> 'a option" where
  "find_by f xs v = (case v of JStr s \<Rightarrow> map_of (map (\<lambda>x. (f x, x)) xs) s | _ \<Rightarrow> None)"

definition texts_field :: "obj \<Rightarrow> string \<Rightarrow> bool \<Rightarrow> ustr list option" where
  "texts_field d k needed =
     (case get_key d k of
        Some (JArr xs) \<Rightarrow> texts_of xs
      | Some _ \<Rightarrow> None
      | None \<Rightarrow> if needed then None else Some [])"

definition keys_within :: "obj \<Rightarrow> string list \<Rightarrow> bool" where
  "keys_within d ks \<longleftrightarrow> list_all (\<lambda>kv. fst kv \<in> set (map u ks)) d"

definition hypothesis_of_json :: "json \<Rightarrow> hypothesis option" where
  "hypothesis_of_json v =
     (case v of
        JObj d \<Rightarrow>
          if \<not> keys_within d [''hypothesis'', ''support_status'', ''reason_codes'', ''supporting_evidence_ids'',
                             ''conflicting_evidence_ids'', ''evidence_gaps''] then None
          else (case (find_by hypothesis_value
                        [Hot_key, Worker_path, Poison_record, Sequence_contention, Consumer_rebalance, Insufficient_evidence]
                        (get_none d ''hypothesis''),
                      find_by support_value [Supported, Insufficient, Conflicted] (get_none d ''support_status''),
                      texts_field d ''reason_codes'' True, texts_field d ''supporting_evidence_ids'' False,
                      texts_field d ''conflicting_evidence_ids'' False, texts_field d ''evidence_gaps'' False) of
                  (Some n, Some s, Some rs, Some pro, Some con, Some gaps) \<Rightarrow>
                    Some \<lparr>hy_name = n, hy_support = s, hy_reasons = rs, hy_supporting = pro, hy_conflicting = con, hy_gaps = gaps\<rparr>
                | _ \<Rightarrow> None)
      | _ \<Rightarrow> None)"

definition decision_of_json :: "json \<Rightarrow> decision option" where
  "decision_of_json v =
     (case v of
        JObj d \<Rightarrow>
          if \<not> keys_within d [''hypotheses'', ''stop_reason''] then None
          else (case (get_none d ''hypotheses'',
                      find_by stop_value [Stop_sufficient, Stop_insufficient, Stop_no_tool, Stop_budget, Stop_tool_error, Stop_validation]
                        (get_none d ''stop_reason'')) of
                  (JArr hs, Some r) \<Rightarrow>
                    Option.bind (those (map hypothesis_of_json hs)) (\<lambda>xs.
                      let dn = \<lparr>dn_hypotheses = xs, dn_stop = r\<rparr> in if decision_ok dn then Some dn else None)
                | _ \<Rightarrow> None)
      | _ \<Rightarrow> None)"

definition fallback_decision :: "opslib \<Rightarrow> stop_reason \<Rightarrow> ustr \<Rightarrow> decision" where
  "fallback_decision O' reason gap =
     \<lparr>dn_hypotheses = [\<lparr>hy_name = Insufficient_evidence, hy_support = Insufficient,
         hy_reasons = [upper_of O' (stop_value reason)], hy_supporting = [], hy_conflicting = [], hy_gaps = [gap]\<rparr>],
      dn_stop = reason\<rparr>"

end
