(* ===== verification/Diagnosis_Run.thy ===== *)
theory Diagnosis_Run
  imports Diagnosis_Agent
begin

text \<open>
  The loop of the diagnosis agent and its run (\<open>run_diagnosis\<close> of
  \<open>src/ops_agent/diagnosis_agent.py\<close>). The model, the clock and the JSON parser of the model
  library are external: \<open>respond\<close> and \<open>clock\<close> act on an external state, so a model may answer
  anything. The loop is a partial function; that it always returns is a theorem.
\<close>

record 's world =
  respond :: "'s \<Rightarrow> json \<Rightarrow> (exn + model_response) \<times> 's"
  clock :: "'s \<Rightarrow> int \<times> 's"
  parse_json :: "ustr \<Rightarrow> json option"

definition utc :: "int \<Rightarrow> stamp" where
  "utc t = \<lparr>micros = t, utc_offset = Some 0\<rparr>"

record 's agent =
  ag_world :: 's
  ag_history :: "json list"
  ag_registry :: registry
  ag_steps :: "dx_step list"
  ag_evidence :: "dx_evidence list"
  ag_responses :: "ustr list"
  ag_usage :: dx_usage

datatype 's turn = Decided decision "'s agent" | Continue "'s agent"

section \<open>A turn\<close>

text \<open>A request, its response ID and its usage.\<close>

definition ask :: "'s world \<Rightarrow> json \<Rightarrow> 's agent \<Rightarrow> exn + model_response \<times> 's agent" where
  "ask W payload st =
     (case respond W (ag_world st) payload of (r, s) \<Rightarrow>
        rbind r (\<lambda>resp.
          let x = ag_usage st;
              x' = \<lparr>us_input = us_input x + mr_input resp, us_output = us_output x + mr_generated resp,
                    us_total = us_total x + mr_total resp, us_requests = Suc (length (ag_responses st))\<rparr>
          in guard (dx_usage_ok x') (value_error ''ValidationError'')
               (Inr (resp, st\<lparr>ag_world := s, ag_responses := ag_responses st @ [mr_id resp], ag_usage := x'\<rparr>))))"

definition is_call :: "obj \<Rightarrow> bool" where
  "is_call d \<longleftrightarrow> get_none d ''type'' = JStr (u ''function_call'')"

definition safe_output_items :: "obj list \<Rightarrow> obj list" where
  "safe_output_items xs = filter (\<lambda>d. get_none d ''type'' \<in> {JStr (u ''reasoning''), JStr (u ''function_call''), JStr (u ''message'')}) xs"

definition add_step ::
  "opslib \<Rightarrow> model_response \<Rightarrow> obj \<Rightarrow> tool_spec \<Rightarrow> stamp \<Rightarrow> dx_evidence \<Rightarrow> registry \<Rightarrow> 's agent \<Rightarrow> exn + 's turn" where
  "add_step O' resp call spec requested e r' st =
     (let s = \<lparr>dt_step = Suc (length (ag_steps st)), dt_tool = ts_id spec, dt_reason = ts_reason spec,
               dt_requested = requested, dt_returned = [de_id e]\<rparr>
      in guard (dx_step_ok s) (value_error ''ValidationError'')
           (Inr (Continue (st\<lparr>ag_registry := r', ag_evidence := ag_evidence st @ [e], ag_steps := ag_steps st @ [s],
              ag_history := ag_history st @ map JObj (safe_output_items (mr_output resp))
                @ [JObj [(u ''type'', JStr (u ''function_call_output'')), (u ''call_id'', get_none call ''call_id''),
                         (u ''output'', JStr (ascii_compact (py O') (dump_dx_evidence O' e)))]]\<rparr>))))"

definition call_tool :: "'s world \<Rightarrow> opslib \<Rightarrow> model_response \<Rightarrow> obj \<Rightarrow> 's agent \<Rightarrow> exn + 's turn" where
  "call_tool W O' resp call st =
     (let name = py_str O' (get_or call ''name'' (JStr []))
      in case loads (py O') (py_str O' (get_or call ''arguments'' (JStr (u ''{}'')))) of
           None \<Rightarrow> Inl (value_error ''tool arguments were not valid JSON'')
         | Some arguments \<Rightarrow>
             guard (arguments = JObj []) (value_error ''diagnosis tools do not accept model-controlled arguments'')
               (case clock W (ag_world st) of (now, s) \<Rightarrow>
                 (let st' = st\<lparr>ag_world := s\<rparr>
                  in case (execute O' (ag_registry st) name, tool_by_id name) of
                       (Some (e, r'), Some spec) \<Rightarrow> add_step O' resp call spec (utc now) e r' st'
                     | _ \<Rightarrow> Inr (Decided (fallback_decision O' Stop_tool_error (u ''TOOL_ERROR_'' @ upper_of O' name)) st'))))"

definition offered_tools :: "dx_policy \<Rightarrow> 's agent \<Rightarrow> json list" where
  "offered_tools p st = (if length (ag_steps st) < dp_max_calls p then function_tools (ag_registry st) else [])"

definition parse_decision :: "'s world \<Rightarrow> json \<Rightarrow> decision option" where
  "parse_decision W v = (case v of JStr s \<Rightarrow> Option.bind (parse_json W s) decision_of_json | _ \<Rightarrow> None)"

definition turn :: "'s world \<Rightarrow> opslib \<Rightarrow> dx_policy \<Rightarrow> 's agent \<Rightarrow> exn + 's turn" where
  "turn W O' p st =
     rbind (ask W (request_payload p (ag_history st) (offered_tools p st)) st) (\<lambda>(resp, st').
      let calls = filter is_call (mr_output resp)
      in if calls \<noteq> [] then
           guard (length calls = 1) (value_error ''Diagnosis Agent must request exactly one tool per step'')
             (if dp_max_steps p \<le> length (ag_steps st) \<or> offered_tools p st = []
              then Inr (Decided (fallback_decision O' Stop_budget
                     (u ''STEP_BUDGET_EXHAUSTED_BEFORE_SUFFICIENT_EVIDENCE'')) st')
              else call_tool W O' resp (hd calls) st')
         else guard (truthy (mr_text resp))
                (value_error ''Diagnosis Agent returned neither a tool call nor structured output'')
                (case parse_decision W (mr_text resp) of
                   None \<Rightarrow> Inl (value_error ''Diagnosis Agent structured output failed schema validation'')
                 | Some d \<Rightarrow> Inr (Decided d st')))"

text \<open>\<open>while decision is None\<close>: nothing in the loop itself bounds it.\<close>

partial_function (option) turns ::
  "'s world \<Rightarrow> opslib \<Rightarrow> dx_policy \<Rightarrow> 's agent \<Rightarrow> (exn + decision \<times> 's agent) option" where
  "turns W O' p st =
     (case turn W O' p st of
        Inl e \<Rightarrow> Some (Inl e)
      | Inr t \<Rightarrow> (case t of Decided d st' \<Rightarrow> Some (Inr (d, st')) | Continue st' \<Rightarrow> turns W O' p st'))"

section \<open>Validation and repair\<close>

datatype dx_failure = Raised exn | Contract_failure dx_error "dx_error option"

definition repairable_codes :: "ustr list" where
  "repairable_codes = map u
     [''FORBIDDEN_DIAGNOSIS_CLAIM'', ''UNKNOWN_EVIDENCE_CITATION'', ''SUPPORTED_REQUIRES_SUPPORTING_CITATION'',
      ''CONFLICTED_REQUIRES_BOTH_CITATION_SIDES'', ''INSUFFICIENT_REQUIRES_EVIDENCE_GAP'',
      ''REBALANCE_TELEMETRY_UNAVAILABLE'', ''REBALANCE_CITATIONS_FORBIDDEN'', ''REBALANCE_GAP_REQUIRED'',
      ''SUFFICIENT_STOP_REQUIRES_SUPPORTED_CAUSE'', ''INSUFFICIENT_STOP_CONFLICTS_WITH_SUPPORTED_CAUSE'',
      ''STEP_BUDGET_STOP_REQUIRES_FULL_BUDGET'']"

definition checked_attempt :: "attempt \<Rightarrow> dx_failure + attempt" where
  "checked_attempt a = (if attempt_ok a then Inr a else Inl (Raised (value_error ''ValidationError'')))"

definition valid_attempt :: "nat \<Rightarrow> bool \<Rightarrow> ustr \<Rightarrow> attempt" where
  "valid_attempt k repair response =
     \<lparr>at_attempt = k, at_repair = repair, at_valid = True, at_response = response, at_code = None, at_message = None\<rparr>"

definition invalid_attempt :: "ustr \<Rightarrow> dx_error \<Rightarrow> attempt" where
  "invalid_attempt response e =
     \<lparr>at_attempt = 1, at_repair = False, at_valid = False, at_response = response, at_code = Some (dx_code e),
      at_message = Some (dx_message e)\<rparr>"

definition repair_history ::
  "opslib \<Rightarrow> json list \<Rightarrow> decision \<Rightarrow> dx_error \<Rightarrow> ustr \<Rightarrow> ustr list \<Rightarrow> json list" where
  "repair_history O' history d e evaluation allowed =
     history @
     [message ''assistant'' (dumps_compact (py O') (dump_decision d)),
      message ''user'' (ascii_compact (py O') (JObj
        [(u ''task'', JStr (u ''repair_ops_diagnosis_output_contract_only'')),
         (u ''fixed_condition'', JObj [(u ''condition_evaluation_id'', JStr evaluation),
                                       (u ''CORE_BACKLOG_PRESSURE'', JStr (u ''PRESENT''))]),
         (u ''validation_error'', dump_dx_error e), (u ''existing_structured_result'', dump_decision d),
         (u ''allowed_evidence_ids'', jstrs (sorted_set allowed)),
         (u ''constraints'', jstrs (map u [''NO_TOOL_CALLS'', ''NO_NEW_EVIDENCE'', ''NO_CONDITION_REEVALUATION'',
            ''NO_RECOVERY_JUDGMENT'', ''NO_REMEDIATION'', ''NO_FABRICATED_EVIDENCE_IDS''])),
         (u ''instructions'', JStr repair_instructions)]))]"

text \<open>What a validated outcome holds: the decision, its validation, the attempts, the state.\<close>

record 's outcome =
  oc_decision :: decision
  oc_validation :: dx_validation
  oc_attempts :: "attempt list"
  oc_agent :: "'s agent"

definition raised :: "exn + 'a \<Rightarrow> dx_failure + 'a" where
  "raised r = (case r of Inl e \<Rightarrow> Inl (Raised e) | Inr x \<Rightarrow> Inr x)"

definition repair ::
  "'s world \<Rightarrow> opslib \<Rightarrow> dx_policy \<Rightarrow> ustr \<Rightarrow> ustr list \<Rightarrow> decision \<Rightarrow> dx_error \<Rightarrow> attempt \<Rightarrow> 's agent
     \<Rightarrow> dx_failure + 's outcome" where
  "repair W O' p evaluation initial d e first st =
     rbind (raised (ask W (request_payload p (repair_history O' (ag_history st) d e evaluation
                             (initial @ map de_id (ag_evidence st))) []) st)) (\<lambda>(resp, st').
      guard (filter is_call (mr_output resp) = [])
        (Contract_failure e (Some (dx_error ''REPAIR_TOOL_CALL_FORBIDDEN'' ''output repair returned a forbidden tool call'' [])))
      (guard (truthy (mr_text resp))
        (Contract_failure e (Some (dx_error ''REPAIR_STRUCTURED_OUTPUT_MISSING'' ''output repair returned no structured result'' [])))
      (case parse_decision W (mr_text resp) of
         None \<Rightarrow> Inl (Contract_failure e (Some (dx_error ''REPAIR_SCHEMA_INVALID''
                   ''output repair failed structured schema validation'' [])))
       | Some d' \<Rightarrow>
           (case validate_decision O' p initial (ag_evidence st') (ag_steps st') d' of
              Inl e' \<Rightarrow> Inl (Contract_failure e (Some e'))
            | Inr v \<Rightarrow> rbind (checked_attempt (valid_attempt 2 True (mr_id resp))) (\<lambda>a.
                Inr \<lparr>oc_decision = d', oc_validation = v, oc_attempts = [first, a], oc_agent = st'\<rparr>)))))"

definition settle ::
  "'s world \<Rightarrow> opslib \<Rightarrow> dx_policy \<Rightarrow> ustr \<Rightarrow> ustr list \<Rightarrow> decision \<Rightarrow> 's agent \<Rightarrow> dx_failure + 's outcome" where
  "settle W O' p evaluation initial d st =
     (case validate_decision O' p initial (ag_evidence st) (ag_steps st) d of
        Inr v \<Rightarrow> rbind (checked_attempt (valid_attempt 1 False (last (ag_responses st)))) (\<lambda>a.
          Inr \<lparr>oc_decision = d, oc_validation = v, oc_attempts = [a], oc_agent = st\<rparr>)
      | Inl e \<Rightarrow> rbind (checked_attempt (invalid_attempt (last (ag_responses st)) e)) (\<lambda>a.
          guard (1 \<le> dp_max_repairs p \<and> dx_code e \<in> set repairable_codes) (Contract_failure e None)
            (repair W O' p evaluation initial d e a st)))"

section \<open>The run\<close>

definition run_context :: "evidence_bundle list \<Rightarrow> sequence_evaluation \<Rightarrow> dx_context" where
  "run_context bs e =
     (let b = hd bs
      in \<lparr>dc_profile = bu_profile b,
          dc_cluster = (case sc_context (bu_scope b) of None \<Rightarrow> u ''unknown'' | Some c \<Rightarrow> if c = [] then u ''unknown'' else c),
          dc_namespace = sc_namespace (bu_scope b), dc_topic = sc_topic (bu_scope b), dc_group = sc_group (bu_scope b),
          dc_digests = map sq_sha256 (sv_sources e)\<rparr>)"

definition build_run ::
  "opslib \<Rightarrow> dx_policy \<Rightarrow> evidence_bundle list \<Rightarrow> sequence_evaluation \<Rightarrow> ustr list \<Rightarrow> int \<Rightarrow> int \<Rightarrow> 's outcome
     \<Rightarrow> diagnosis_run" where
  "build_run O' p bs e initial started completed out =
     (let st = oc_agent out;
          r = \<lparr>dr_id = [], dr_incident = bu_incident (hd bs), dr_evaluation = sv_id e, dr_context = run_context bs e,
               dr_policy = p, dr_conditions = [(u ''CORE_BACKLOG_PRESSURE'', Present)], dr_initial = initial,
               dr_evidence = ag_evidence st, dr_steps = ag_steps st, dr_hypotheses = dn_hypotheses (oc_decision out),
               dr_stop = dn_stop (oc_decision out), dr_steps_used = length (ag_steps st), dr_started = utc started,
               dr_completed = utc completed, dr_responses = ag_responses st, dr_usage = ag_usage st,
               dr_validation = oc_validation out, dr_repairs = length (oc_attempts out) - 1,
               dr_attempts = oc_attempts out\<rparr>
      in r\<lparr>dr_id := run_identity O' r\<rparr>)"

definition start_agent ::
  "opslib \<Rightarrow> dx_policy \<Rightarrow> evidence_bundle list \<Rightarrow> sequence_evaluation \<Rightarrow> registry \<Rightarrow> 's \<Rightarrow> 's agent" where
  "start_agent O' p bs e r s =
     (case initial_evidence e bs of (initial, unavailable) \<Rightarrow>
        \<lparr>ag_world = s, ag_history = first_history O' p e initial unavailable, ag_registry = r, ag_steps = [],
         ag_evidence = [], ag_responses = [],
         ag_usage = \<lparr>us_input = 0, us_output = 0, us_total = 0, us_requests = 0\<rparr>\<rparr>)"

definition admit :: "opslib \<Rightarrow> evidence_bundle list \<Rightarrow> sequence_evaluation \<Rightarrow> exn + registry" where
  "admit O' bs e =
     rbind (evaluate_bundle_sequence O' local_ha_sequence_policy bs) (\<lambda>again.
     guard (sv_id again = sv_id e) (value_error ''condition evaluation does not match the ordered bundles'')
     (guard (cr_state (core_of e) = Present) (value_error ''Diagnosis Agent entry requires CORE_BACKLOG_PRESSURE=PRESENT'')
     (make_registry O' bs e)))"

definition run_diagnosis ::
  "'s world \<Rightarrow> opslib \<Rightarrow> dx_policy \<Rightarrow> evidence_bundle list \<Rightarrow> sequence_evaluation \<Rightarrow> 's
     \<Rightarrow> (dx_failure + diagnosis_run) option" where
  "run_diagnosis W O' p bs e s0 =
     (case clock W s0 of (started, s) \<Rightarrow>
       (case admit O' bs e of
          Inl x \<Rightarrow> Some (Inl (Raised x))
        | Inr r \<Rightarrow> map_option (\<lambda>result.
            rbind (raised result) (\<lambda>(d, st).
            rbind (settle W O' p (sv_id e) (fst (initial_evidence e bs)) d st) (\<lambda>out.
              raised (validate_run O' (build_run O' p bs e (fst (initial_evidence e bs)) started
                (fst (clock W (ag_world (oc_agent out)))) out)))))
            (turns W O' p (start_agent O' p bs e r s))))"

section \<open>The loop returns\<close>

lemma raised_Inr [simp]: "raised r = Inr x \<longleftrightarrow> r = Inr x"
  by (cases r) (simp_all add: raised_def)

lemma ask_Inr:
  assumes "ask W payload st = Inr (resp, st')"
  shows "ag_steps st' = ag_steps st" "ag_evidence st' = ag_evidence st" "ag_registry st' = ag_registry st"
    "length (ag_responses st') = Suc (length (ag_responses st))" "us_requests (ag_usage st') = length (ag_responses st')"
    "ag_history st' = ag_history st" "last (ag_responses st') = mr_id resp"
  using assms by (auto simp: ask_def rbind_eq_Inr guard_eq_Inr Let_def split: prod.splits)

lemma call_tool_Continue:
  assumes "call_tool W O' resp call st = Inr (Continue st')"
  shows "\<exists>e spec requested. execute O' (ag_registry st) (ts_id spec) = Some (e, ag_registry st')
    \<and> spec \<in> set tool_specs \<and> ag_evidence st' = ag_evidence st @ [e]
    \<and> ag_steps st' = ag_steps st @ [\<lparr>dt_step = Suc (length (ag_steps st)), dt_tool = ts_id spec,
       dt_reason = ts_reason spec, dt_requested = requested, dt_returned = [de_id e]\<rparr>]
    \<and> ag_responses st' = ag_responses st \<and> ag_usage st' = ag_usage st"
proof -
  let ?name = "py_str O' (get_or call ''name'' (JStr []))"
  from assms obtain now s e r' spec where c: "clock W (ag_world st) = (now, s)"
    and ex: "execute O' (ag_registry st) ?name = Some (e, r')" and spec: "tool_by_id ?name = Some spec"
    and add: "add_step O' resp call spec (utc now) e r' (st\<lparr>ag_world := s\<rparr>) = Inr (Continue st')"
    by (auto simp: call_tool_def guard_eq_Inr Let_def split: option.splits prod.splits)
  from tool_by_id_fields [OF spec] have t: "spec \<in> set tool_specs" "ts_id spec = ?name" by auto
  from add have "ag_registry st' = r'" "ag_evidence st' = ag_evidence st @ [e]" "ag_responses st' = ag_responses st"
    "ag_usage st' = ag_usage st" "ag_steps st' = ag_steps st @ [\<lparr>dt_step = Suc (length (ag_steps st)), dt_tool = ts_id spec,
       dt_reason = ts_reason spec, dt_requested = utc now, dt_returned = [de_id e]\<rparr>]"
    by (auto simp: add_step_def guard_eq_Inr Let_def)
  with ex t show ?thesis by (intro exI [of _ e] exI [of _ spec] exI [of _ "utc now"]) simp
qed

lemma call_tool_Decided:
  "call_tool W O' resp call st = Inr (Decided d st') \<Longrightarrow>
     ag_steps st' = ag_steps st \<and> ag_evidence st' = ag_evidence st \<and> ag_responses st' = ag_responses st
     \<and> ag_usage st' = ag_usage st \<and> ag_registry st' = ag_registry st"
  by (auto simp: call_tool_def add_step_def guard_eq_Inr Let_def split: option.splits prod.splits)

lemma turn_Continue:
  assumes "turn W O' p st = Inr (Continue st')"
  shows "length (ag_steps st') = Suc (length (ag_steps st))" "length (ag_steps st) < dp_max_calls p"
proof -
  from assms obtain resp st1 where ask: "ask W (request_payload p (ag_history st) (offered_tools p st)) st = Inr (resp, st1)"
    and call: "call_tool W O' resp (hd (filter is_call (mr_output resp))) st1 = Inr (Continue st')"
    and tools: "offered_tools p st \<noteq> []"
    by (auto simp: turn_def rbind_eq_Inr guard_eq_Inr Let_def split: if_splits option.splits)
  from call_tool_Continue [OF call] show "length (ag_steps st') = Suc (length (ag_steps st))"
    using ask_Inr(1) [OF ask] by auto
  from tools show "length (ag_steps st) < dp_max_calls p" by (auto simp: offered_tools_def split: if_splits)
qed

lemma turns_return: "\<exists>y. turns W O' p st = Some y"
proof (induction "dp_max_calls p - length (ag_steps st)" arbitrary: st rule: less_induct)
  case less
  show ?case
  proof (cases "turn W O' p st")
    case (Inr t)
    show ?thesis
    proof (cases t)
      case (Continue st')
      with Inr turn_Continue [of W O' p st st'] have "dp_max_calls p - length (ag_steps st') < dp_max_calls p - length (ag_steps st)"
        by simp
      from less [OF this] show ?thesis by (simp add: turns.simps Inr Continue)
    qed (simp add: turns.simps Inr)
  qed (simp add: turns.simps)
qed

text \<open>
  C18: A diagnosis always comes to an end, whatever the model answers: the loop over its turns is
  bounded by the tool budget only, and returns a run, an exception or a contract failure.
\<close>

theorem diagnosis_terminates: "\<exists>result. run_diagnosis W O' p bs e s = Some result"
proof -
  obtain started s' where c: "clock W s = (started, s')" by force
  show ?thesis
  proof (cases "admit O' bs e")
    case (Inr r)
    obtain y where "turns W O' p (start_agent O' p bs e r s') = Some y" using turns_return by blast
    then show ?thesis by (simp add: run_diagnosis_def c Inr)
  qed (simp add: run_diagnosis_def c)
qed

section \<open>What a run holds\<close>

text \<open>
  Before a request: one response and one piece of evidence per step, steps numbered, tools
  allowlisted and called once.
\<close>

definition agent_inv :: "dx_policy \<Rightarrow> 's agent \<Rightarrow> bool" where
  "agent_inv p st \<longleftrightarrow>
     length (ag_responses st) = length (ag_steps st) \<and> length (ag_steps st) \<le> dp_max_calls p
     \<and> map dt_tool (ag_steps st) = rev (rg_called (ag_registry st)) \<and> distinct (rg_called (ag_registry st))
     \<and> set (rg_called (ag_registry st)) \<subseteq> set tool_ids"

lemma agent_inv_start: "rg_called r = [] \<Longrightarrow> agent_inv p (start_agent O' p bs e r s)"
  by (simp add: agent_inv_def start_agent_def split: prod.splits)

lemma agent_inv_Continue:
  assumes "turn W O' p st = Inr (Continue st')" "agent_inv p st"
  shows "agent_inv p st'"
proof -
  from assms(1) obtain resp st1 where ask: "ask W (request_payload p (ag_history st) (offered_tools p st)) st = Inr (resp, st1)"
    and call: "call_tool W O' resp (hd (filter is_call (mr_output resp))) st1 = Inr (Continue st')"
    by (auto simp: turn_def rbind_eq_Inr guard_eq_Inr Let_def split: if_splits option.splits)
  from call_tool_Continue [OF call] obtain e requested and spec :: tool_spec where
    ex: "execute O' (ag_registry st1) (ts_id spec) = Some (e, ag_registry st')"
    and fields: "ag_steps st' = ag_steps st1 @ [\<lparr>dt_step = Suc (length (ag_steps st1)), dt_tool = ts_id spec,
       dt_reason = ts_reason spec, dt_requested = requested, dt_returned = [de_id e]\<rparr>]"
      "ag_responses st' = ag_responses st1" by blast
  show ?thesis
    using assms(2) ask_Inr [OF ask] fields execute_Some [OF ex] turn_Continue [OF assms(1)]
    by (auto simp: agent_inv_def)
qed

lemma agent_inv_Decided:
  assumes "turn W O' p st = Inr (Decided d st')" "agent_inv p st"
  shows "ag_steps st' = ag_steps st" "ag_registry st' = ag_registry st"
    "length (ag_responses st') = Suc (length (ag_steps st))"
proof -
  from assms(1) obtain resp st1 where ask: "ask W (request_payload p (ag_history st) (offered_tools p st)) st = Inr (resp, st1)"
    and st': "st' = st1 \<or> call_tool W O' resp (hd (filter is_call (mr_output resp))) st1 = Inr (Decided d st')"
    by (auto simp: turn_def rbind_eq_Inr guard_eq_Inr Let_def split: if_splits option.splits)
  from st' have "ag_steps st' = ag_steps st1 \<and> ag_registry st' = ag_registry st1 \<and> ag_responses st' = ag_responses st1"
    using call_tool_Decided by blast
  with ask_Inr [OF ask] assms(2)
  show "ag_steps st' = ag_steps st" "ag_registry st' = ag_registry st"
    "length (ag_responses st') = Suc (length (ag_steps st))" by (simp_all add: agent_inv_def)
qed

lemma turns_inv:
  "turns W O' p st = Some (Inr (d, st')) \<Longrightarrow> agent_inv p st \<Longrightarrow>
     length (ag_steps st') \<le> dp_max_calls p \<and> length (ag_responses st') = Suc (length (ag_steps st'))
     \<and> distinct (map dt_tool (ag_steps st')) \<and> set (map dt_tool (ag_steps st')) \<subseteq> set tool_ids"
proof (induction "dp_max_calls p - length (ag_steps st)" arbitrary: st rule: less_induct)
  case less
  from less.prems(1) obtain t where t: "turn W O' p st = Inr t"
    by (cases "turn W O' p st") (simp_all add: turns.simps)
  show ?case
  proof (cases t)
    case (Decided d1 st1)
    with t less.prems(1) have "turn W O' p st = Inr (Decided d st')" by (simp add: turns.simps)
    from agent_inv_Decided [OF this less.prems(2)] less.prems(2) show ?thesis by (simp add: agent_inv_def)
  next
    case (Continue st1)
    with t have turn: "turn W O' p st = Inr (Continue st1)" by simp
    with less.prems(1) have rest: "turns W O' p st1 = Some (Inr (d, st'))" by (simp add: turns.simps)
    from turn_Continue [OF turn] have "dp_max_calls p - length (ag_steps st1) < dp_max_calls p - length (ag_steps st)" by simp
    from less.hyps [OF this rest agent_inv_Continue [OF turn less.prems(2)]] show ?thesis .
  qed
qed

lemma repair_Inr:
  assumes "repair W O' p evaluation initial d e a st = Inr out"
  shows "validate_decision O' p initial (ag_evidence (oc_agent out)) (ag_steps (oc_agent out)) (oc_decision out)
      = Inr (oc_validation out) \<and> ag_steps (oc_agent out) = ag_steps st
      \<and> length (ag_responses (oc_agent out)) \<le> Suc (length (ag_responses st))"
proof -
  from assms obtain payload resp st' where ask: "ask W payload st = Inr (resp, st')"
    and rest: "(case parse_decision W (mr_text resp) of
         None \<Rightarrow> Inl (Contract_failure e (Some (dx_error ''REPAIR_SCHEMA_INVALID''
                   ''output repair failed structured schema validation'' [])))
       | Some d' \<Rightarrow>
           (case validate_decision O' p initial (ag_evidence st') (ag_steps st') d' of
              Inl e' \<Rightarrow> Inl (Contract_failure e (Some e'))
            | Inr v \<Rightarrow> rbind (checked_attempt (valid_attempt 2 True (mr_id resp))) (\<lambda>b.
                Inr \<lparr>oc_decision = d', oc_validation = v, oc_attempts = [a, b], oc_agent = st'\<rparr>))) = Inr out"
    by (auto simp only: repair_def rbind_eq_Inr guard_eq_Inr raised_Inr prod.case)
  from rest obtain d' v where "validate_decision O' p initial (ag_evidence st') (ag_steps st') d' = Inr v"
      "oc_decision out = d'" "oc_validation out = v" "oc_agent out = st'"
    by (auto simp: rbind_eq_Inr split: option.splits sum.splits)
  with ask_Inr [OF ask] show ?thesis by simp
qed

lemma settle_Inr:
  assumes "settle W O' p evaluation initial d st = Inr out"
  shows "validate_decision O' p initial (ag_evidence (oc_agent out)) (ag_steps (oc_agent out)) (oc_decision out)
      = Inr (oc_validation out)"
    "ag_steps (oc_agent out) = ag_steps st" "length (ag_responses (oc_agent out)) \<le> Suc (length (ag_responses st))"
proof -
  have "validate_decision O' p initial (ag_evidence (oc_agent out)) (ag_steps (oc_agent out)) (oc_decision out)
      = Inr (oc_validation out) \<and> ag_steps (oc_agent out) = ag_steps st
      \<and> length (ag_responses (oc_agent out)) \<le> Suc (length (ag_responses st))"
  proof (cases "validate_decision O' p initial (ag_evidence st) (ag_steps st) d")
    case (Inl e)
    with assms obtain a where "repair W O' p evaluation initial d e a st = Inr out"
      by (auto simp: settle_def rbind_eq_Inr guard_eq_Inr)
    then show ?thesis by (rule repair_Inr)
  next
    case (Inr v)
    with assms show ?thesis by (auto simp: settle_def rbind_eq_Inr)
  qed
  then show "validate_decision O' p initial (ag_evidence (oc_agent out)) (ag_steps (oc_agent out)) (oc_decision out)
      = Inr (oc_validation out)"
    "ag_steps (oc_agent out) = ag_steps st" "length (ag_responses (oc_agent out)) \<le> Suc (length (ag_responses st))"
    by blast+
qed

lemma admit_Inr:
  assumes "admit O' bs e = Inr r"
  shows "rg_called r = []" "cr_state (core_of e) = Present"
  using assms by (auto simp: admit_def make_registry_def rbind_eq_Inr guard_eq_Inr split: option.splits)

text \<open>
  C17: Whatever the model answers, a run that is returned kept its budgets (at most the allowed
  tool calls, every tool allowlisted and called once, at most two requests more than the calls
  allowed), diagnoses a present condition, and every hypothesis in it is grounded: it cites only
  evidence given to the model or returned by a tool, makes no forbidden claim, and has the
  citations or the gaps its status asks for.
\<close>

theorem diagnosis_run_is_grounded:
  "case run_diagnosis W O' p bs e s of
     Some (Inr r) \<Rightarrow>
       length (dr_steps r) \<le> dp_max_calls p \<and> length (dr_responses r) \<le> dp_max_calls p + 2
       \<and> distinct (map dt_tool (dr_steps r)) \<and> set (map dt_tool (dr_steps r)) \<subseteq> set tool_ids
       \<and> dr_evaluation r = sv_id e \<and> cr_state (core_of e) = Present
       \<and> list_all (grounded O' (set (dr_initial r) \<union> set (map de_id (dr_evidence r)))) (dr_hypotheses r)
       \<and> list_all (\<lambda>b. b) (validation_flags (dr_validation r)) \<and> verify_run O' r
   | _ \<Rightarrow> True"
proof -
  have "length (dr_steps r) \<le> dp_max_calls p \<and> length (dr_responses r) \<le> dp_max_calls p + 2
       \<and> distinct (map dt_tool (dr_steps r)) \<and> set (map dt_tool (dr_steps r)) \<subseteq> set tool_ids
       \<and> dr_evaluation r = sv_id e \<and> cr_state (core_of e) = Present
       \<and> list_all (grounded O' (set (dr_initial r) \<union> set (map de_id (dr_evidence r)))) (dr_hypotheses r)
       \<and> list_all (\<lambda>b. b) (validation_flags (dr_validation r)) \<and> verify_run O' r"
    if "run_diagnosis W O' p bs e s = Some (Inr r)" for r
  proof -
    obtain started s' where c: "clock W s = (started, s')" by force
    from that c obtain reg d st out where reg: "admit O' bs e = Inr reg"
      and turns: "turns W O' p (start_agent O' p bs e reg s') = Some (Inr (d, st))"
      and out: "settle W O' p (sv_id e) (fst (initial_evidence e bs)) d st = Inr out"
      and run: "validate_run O' (build_run O' p bs e (fst (initial_evidence e bs)) started
                (fst (clock W (ag_world (oc_agent out)))) out) = Inr r"
      by (auto simp: run_diagnosis_def rbind_eq_Inr split: sum.splits)
    note inv = turns_inv [OF turns agent_inv_start [OF admit_Inr(1) [OF reg]]]
    note settled = settle_Inr [OF out]
    from run have fields: "dr_steps r = ag_steps (oc_agent out)" "dr_responses r = ag_responses (oc_agent out)"
      "dr_evidence r = ag_evidence (oc_agent out)" "dr_hypotheses r = dn_hypotheses (oc_decision out)"
      "dr_initial r = fst (initial_evidence e bs)" "dr_evaluation r = sv_id e" "dr_validation r = oc_validation out"
      and verified: "verify_run O' r"
      by (auto simp: validate_run_Inr build_run_def Let_def)
    from settled(1) have valid: "oc_validation out = all_valid"
      "list_all (grounded O' (set (dr_initial r) \<union> set (map de_id (dr_evidence r)))) (dr_hypotheses r)"
      by (simp_all add: validate_decision_iff fields)
    show ?thesis
      using inv settled(2,3) valid fields verified admit_Inr(2) [OF reg] by (simp add: all_valid_def)
  qed
  then show ?thesis by (auto split: option.splits sum.splits)
qed

text \<open>
  The decision the agent falls back to when its tool budget is used up is one its validator
  refuses, unless the budgets for tools and steps are equal.
\<close>

lemma budget_fallback_refused:
  assumes "length steps < dp_max_steps p"
  shows "validate_decision O' p initial evidence steps (fallback_decision O' Stop_budget gap) \<noteq> Inr v"
  using assms by (simp add: validate_decision_iff stop_agrees_def fallback_decision_def)

end
