(* ===== verification/Incident.thy ===== *)
theory Incident
  imports Diagnosis Auth
begin

text \<open>
  The record of an incident (\<open>src/ops_agent/incident_models.py\<close>): its detection, diagnosis and
  recovery history, the timeline whose events carry their own digest, the identity derived from
  the detection, and the validator of the whole record. A value that went through JSON is the
  value itself: the model library reads back the datetimes it writes.
\<close>

section \<open>Enumerations\<close>

datatype lifecycle = Detected | Active | Recovering | Recovered | Closed
datatype incident_outcome = Outcome_recovered
datatype quality = Usable | Unknown_quality

datatype event_type =
  Event_detected | Event_active | Event_diagnosis | Event_observed | Event_recovering | Event_recovered
  | Event_closed | Event_updated

fun lifecycle_value :: "lifecycle \<Rightarrow> ustr" where
  "lifecycle_value Detected = u ''DETECTED''"
| "lifecycle_value Active = u ''ACTIVE''"
| "lifecycle_value Recovering = u ''RECOVERING''"
| "lifecycle_value Recovered = u ''RECOVERED''"
| "lifecycle_value Closed = u ''CLOSED''"

fun outcome_value :: "incident_outcome \<Rightarrow> ustr" where
  "outcome_value Outcome_recovered = u ''RECOVERED''"

fun quality_value :: "quality \<Rightarrow> ustr" where
  "quality_value Usable = u ''USABLE''"
| "quality_value Unknown_quality = u ''UNKNOWN''"

fun event_value :: "event_type \<Rightarrow> ustr" where
  "event_value Event_detected = u ''DETECTED''"
| "event_value Event_active = u ''ACTIVE''"
| "event_value Event_diagnosis = u ''DIAGNOSIS_ATTACHED''"
| "event_value Event_observed = u ''RECOVERY_OBSERVED''"
| "event_value Event_recovering = u ''RECOVERING''"
| "event_value Event_recovered = u ''RECOVERED''"
| "event_value Event_closed = u ''CLOSED''"
| "event_value Event_updated = u ''OBSERVATION_UPDATED''"

section \<open>References to artifacts\<close>

text \<open>\<open>PurePosixPath(s).parts\<close> of a relative path: empty and \<open>.\<close> components are dropped.\<close>

definition path_parts :: "ustr \<Rightarrow> ustr list" where
  "path_parts s = filter (\<lambda>p. p \<noteq> [] \<and> p \<noteq> [46]) (split_on 47 s)"

definition slashes :: "ustr \<Rightarrow> ustr" where
  "slashes s = map (\<lambda>c. if c = 92 then 47 else c) s"

definition validate_reference :: "ustr option \<Rightarrow> exn + ustr option" where
  "validate_reference r =
     (case r of
        None \<Rightarrow> Inr None
      | Some s \<Rightarrow>
          (let n = slashes s
           in if starts_with [47] n then Inl (value_error ''ValidationError'')
              else case path_parts n of
                     [] \<Rightarrow> Inl IndexError
                   | p # ps \<Rightarrow>
                       if 58 \<in> set p \<or> u ''..'' \<in> set (p # ps) then Inl (value_error ''ValidationError'')
                       else Inr (Some n)))"

section \<open>Models\<close>

text \<open>The literal fields of a model are constants of its dump.\<close>

record detection =
  det_evaluation :: ustr
  det_digests :: "ustr list"
  det_identity :: ustr
  det_source :: "ustr option"
  det_sha256 :: ustr
  det_ref :: "ustr option"

definition detection_ok :: "detection \<Rightarrow> bool" where
  "detection_ok d \<longleftrightarrow>
     is_digest (det_evaluation d) \<and> det_digests d \<noteq> [] \<and> length (det_digests d) \<le> 256
     \<and> is_digest (det_identity d) \<and> opt_ok (bounded 256) (det_source d) \<and> is_digest (det_sha256 d)"

record diagnosis_ref =
  dg_id :: ustr
  dg_model :: ustr
  dg_stop :: ustr
  dg_tools :: "ustr list"
  dg_repairs :: nat
  dg_completed :: stamp
  dg_sha256 :: ustr
  dg_ref :: "ustr option"

definition diagnosis_ref_ok :: "diagnosis_ref \<Rightarrow> bool" where
  "diagnosis_ref_ok d \<longleftrightarrow>
     is_digest (dg_id d) \<and> bounded 128 (dg_model d) \<and> bounded 128 (dg_stop d) \<and> length (dg_tools d) \<le> 8
     \<and> dg_repairs d \<le> 1 \<and> is_digest (dg_sha256 d) \<and> aware (dg_completed d)"

record recovery_ref =
  rf_id :: ustr
  rf_state :: recovery_state
  rf_observed :: stamp
  rf_policy :: ustr
  rf_evaluator :: ustr
  rf_ruleset :: ustr
  rf_digests :: "ustr list"
  rf_sha256 :: ustr
  rf_ref :: "ustr option"

definition recovery_ref_ok :: "recovery_ref \<Rightarrow> bool" where
  "recovery_ref_ok r \<longleftrightarrow>
     is_digest (rf_id r) \<and> bounded 128 (rf_policy r) \<and> bounded 128 (rf_evaluator r) \<and> bounded 128 (rf_ruleset r)
     \<and> rf_digests r \<noteq> [] \<and> length (rf_digests r) \<le> 256 \<and> is_digest (rf_sha256 r) \<and> aware (rf_observed r)"

record current =
  cu_state :: recovery_state
  cu_quality :: quality
  cu_reasons :: "ustr list"
  cu_digest :: ustr
  cu_observed :: stamp

definition quality_of :: "recovery_state \<Rightarrow> quality" where
  "quality_of st = (if st = Backlog_unknown then Unknown_quality else Usable)"

definition current_ok :: "current \<Rightarrow> bool" where
  "current_ok c \<longleftrightarrow>
     length (cu_reasons c) \<le> 64 \<and> is_digest (cu_digest c) \<and> aware (cu_observed c)
     \<and> cu_quality c = quality_of (cu_state c)"

record event =
  te_id :: ustr
  te_type :: event_type
  te_observed :: stamp
  te_artifact :: ustr
  te_state :: lifecycle
  te_reasons :: "ustr list"

text \<open>The digest of the payload of an event.\<close>

definition event_identity :: "opslib \<Rightarrow> event \<Rightarrow> ustr" where
  "event_identity O' e = canonical_sha256 (py O') (JObj
     [(u ''event_type'', JStr (event_value (te_type e))), (u ''observed_at'', JStr (isoformat (te_observed e))),
      (u ''artifact_id'', JStr (te_artifact e)), (u ''lifecycle_state'', JStr (lifecycle_value (te_state e))),
      (u ''reason_codes'', jstrs (te_reasons e))])"

definition event_ok :: "opslib \<Rightarrow> event \<Rightarrow> bool" where
  "event_ok O' e \<longleftrightarrow>
     is_digest (te_id e) \<and> bounded 256 (te_artifact e) \<and> te_reasons e \<noteq> [] \<and> length (te_reasons e) \<le> 32
     \<and> aware (te_observed e) \<and> te_id e = event_identity O' e"

record provenance =
  pv_source_sha :: ustr
  pv_tree_sha256 :: ustr
  pv_image :: ustr
  pv_revision :: ustr

definition is_revision :: "ustr \<Rightarrow> bool" where
  "is_revision s \<longleftrightarrow> 7 \<le> length s \<and> length s \<le> 64 \<and> is_hex s"

definition provenance_ok :: "provenance \<Rightarrow> bool" where
  "provenance_ok p \<longleftrightarrow>
     is_revision (pv_source_sha p) \<and> is_digest (pv_tree_sha256 p) \<and> bounded 512 (pv_image p)
     \<and> is_revision (pv_revision p)"

record incident =
  in_id :: ustr
  in_identity :: ustr
  in_sha256 :: ustr
  in_created :: stamp
  in_detected :: stamp
  in_closed :: "stamp option"
  in_state :: lifecycle
  in_outcome :: "incident_outcome option"
  in_detection :: detection
  in_diagnosis :: "diagnosis_ref option"
  in_policy :: "ustr option"
  in_recoveries :: "recovery_ref list"
  in_current :: "current option"
  in_timeline :: "event list"
  in_provenance :: provenance

section \<open>Identity and dumps\<close>

definition incident_identity :: "opslib \<Rightarrow> detection \<Rightarrow> ustr" where
  "incident_identity O' d = canonical_sha256 (py O') (JObj
     ([(u ''incident_type'', JStr (u ''WORKER_BACKLOG_PRESSURE'')), (u ''profile'', JStr (u ''local-ha'')),
       (u ''condition_evaluation_id'', JStr (det_evaluation d)),
       (u ''source_bundle_digests'', jstrs (det_digests d)), (u ''source_identity_sha256'', JStr (det_identity d))]
      @ (case det_source d of None \<Rightarrow> [] | Some s \<Rightarrow> [(u ''source_incident_id'', JStr s)])))"

definition incident_id_of :: "ustr \<Rightarrow> ustr" where
  "incident_id_of identity = u ''inc-'' @ take 24 identity"

text \<open>\<open>source_incident_id\<close> is left out when it is absent, as the payload of the record does.\<close>

definition dump_detection :: "detection \<Rightarrow> json" where
  "dump_detection d = JObj
     ([(u ''condition_evaluation_id'', JStr (det_evaluation d)),
       (u ''condition_name'', JStr (u ''CORE_BACKLOG_PRESSURE'')), (u ''condition_state'', JStr (u ''PRESENT'')),
       (u ''policy_version'', JStr (u ''local-ha.conditions.v2'')), (u ''evaluator_version'', JStr (u ''ops.evaluator.v2'')),
       (u ''ruleset_version'', JStr (u ''ops.conditions.rules.v2'')), (u ''source_bundle_digests'', jstrs (det_digests d)),
       (u ''source_identity_sha256'', JStr (det_identity d))]
      @ (case det_source d of None \<Rightarrow> [] | Some s \<Rightarrow> [(u ''source_incident_id'', JStr s)])
      @ [(u ''artifact_sha256'', JStr (det_sha256 d)), (u ''artifact_ref'', jopt JStr (det_ref d))])"

definition dump_diagnosis_ref :: "opslib \<Rightarrow> diagnosis_ref \<Rightarrow> json" where
  "dump_diagnosis_ref O' d = JObj
     [(u ''diagnosis_id'', JStr (dg_id d)), (u ''model'', JStr (dg_model d)), (u ''status'', JStr (u ''COMPLETED'')),
      (u ''validation_status'', JStr (u ''VALID'')), (u ''stop_reason'', JStr (dg_stop d)),
      (u ''tool_names'', jstrs (dg_tools d)), (u ''output_repairs_used'', JInt (int (dg_repairs d))),
      (u ''completed_at'', jstamp O' (dg_completed d)), (u ''artifact_sha256'', JStr (dg_sha256 d)),
      (u ''artifact_ref'', jopt JStr (dg_ref d))]"

definition dump_recovery_ref :: "opslib \<Rightarrow> recovery_ref \<Rightarrow> json" where
  "dump_recovery_ref O' r = JObj
     [(u ''evaluation_id'', JStr (rf_id r)), (u ''state'', JStr (recovery_value (rf_state r))),
      (u ''observed_at'', jstamp O' (rf_observed r)), (u ''policy_version'', JStr (rf_policy r)),
      (u ''evaluator_version'', JStr (rf_evaluator r)), (u ''ruleset_version'', JStr (rf_ruleset r)),
      (u ''source_bundle_digests'', jstrs (rf_digests r)), (u ''artifact_sha256'', JStr (rf_sha256 r)),
      (u ''artifact_ref'', jopt JStr (rf_ref r))]"

definition dump_current :: "opslib \<Rightarrow> current \<Rightarrow> json" where
  "dump_current O' c = JObj
     [(u ''evaluation_state'', JStr (recovery_value (cu_state c))),
      (u ''evidence_quality'', JStr (quality_value (cu_quality c))), (u ''reason_codes'', jstrs (cu_reasons c)),
      (u ''source_bundle_digest'', JStr (cu_digest c)), (u ''observed_at'', jstamp O' (cu_observed c))]"

definition dump_event :: "opslib \<Rightarrow> event \<Rightarrow> json" where
  "dump_event O' e = JObj
     [(u ''event_id'', JStr (te_id e)), (u ''event_type'', JStr (event_value (te_type e))),
      (u ''observed_at'', jstamp O' (te_observed e)), (u ''artifact_id'', JStr (te_artifact e)),
      (u ''lifecycle_state'', JStr (lifecycle_value (te_state e))), (u ''reason_codes'', jstrs (te_reasons e))]"

definition dump_provenance :: "provenance \<Rightarrow> json" where
  "dump_provenance p = JObj
     [(u ''source_sha'', JStr (pv_source_sha p)), (u ''source_tree_sha256'', JStr (pv_tree_sha256 p)),
      (u ''runtime_image'', JStr (pv_image p)), (u ''argocd_revision'', JStr (pv_revision p)),
      (u ''builder_version'', JStr (u ''ops.incident.builder.v1''))]"

definition record_payload :: "opslib \<Rightarrow> incident \<Rightarrow> json" where
  "record_payload O' i = JObj
     [(u ''schema_version'', JStr (u ''ops.incident.v1'')), (u ''incident_id'', JStr (in_id i)),
      (u ''incident_identity_sha256'', JStr (in_identity i)),
      (u ''incident_type'', JStr (u ''WORKER_BACKLOG_PRESSURE'')), (u ''profile'', JStr (u ''local-ha'')),
      (u ''created_at'', jstamp O' (in_created i)), (u ''detected_at'', jstamp O' (in_detected i)),
      (u ''closed_at'', jopt (jstamp O') (in_closed i)), (u ''lifecycle_state'', JStr (lifecycle_value (in_state i))),
      (u ''outcome'', jopt (\<lambda>x. JStr (outcome_value x)) (in_outcome i)), (u ''detection'', dump_detection (in_detection i)),
      (u ''diagnosis'', jopt (dump_diagnosis_ref O') (in_diagnosis i)),
      (u ''recovery'', JObj [(u ''policy_version'', jopt JStr (in_policy i)),
         (u ''evaluations'', JArr (map (dump_recovery_ref O') (in_recoveries i)))]),
      (u ''current_observation'', jopt (dump_current O') (in_current i)),
      (u ''timeline'', JArr (map (dump_event O') (in_timeline i))),
      (u ''provenance'', dump_provenance (in_provenance i))]"

definition record_sha256 :: "opslib \<Rightarrow> incident \<Rightarrow> ustr" where
  "record_sha256 O' i = canonical_sha256 (py O') (record_payload O' i)"

text \<open>\<open>IncidentRecord.verify_integrity\<close>.\<close>

definition identity_ok :: "opslib \<Rightarrow> incident \<Rightarrow> bool" where
  "identity_ok O' i \<longleftrightarrow>
     in_identity i = incident_identity O' (in_detection i) \<and> in_id i = incident_id_of (in_identity i)"

definition verify_incident :: "opslib \<Rightarrow> incident \<Rightarrow> bool" where
  "verify_incident O' i \<longleftrightarrow> identity_ok O' i \<and> in_sha256 i = record_sha256 O' i"

section \<open>Validation\<close>

definition is_incident_id :: "ustr \<Rightarrow> bool" where
  "is_incident_id s \<longleftrightarrow> take 4 s = u ''inc-'' \<and> length s = 28 \<and> is_hex (drop 4 s)"

definition incident_fields_ok :: "opslib \<Rightarrow> incident \<Rightarrow> bool" where
  "incident_fields_ok O' i \<longleftrightarrow>
     is_incident_id (in_id i) \<and> is_digest (in_identity i) \<and> is_digest (in_sha256 i) \<and> detection_ok (in_detection i)
     \<and> opt_ok diagnosis_ref_ok (in_diagnosis i) \<and> length (in_recoveries i) \<le> 256
     \<and> list_all recovery_ref_ok (in_recoveries i) \<and> opt_ok current_ok (in_current i)
     \<and> 2 \<le> length (in_timeline i) \<and> length (in_timeline i) \<le> 1024 \<and> list_all (event_ok O') (in_timeline i)
     \<and> provenance_ok (in_provenance i)"

text \<open>The closing of a record: outcome, instant and events agree with its state.\<close>

definition closing_ok :: "incident \<Rightarrow> bool" where
  "closing_ok i \<longleftrightarrow>
     (if in_state i = Closed
      then in_outcome i = Some Outcome_recovered
           \<and> (case in_closed i of
                None \<Rightarrow> False
              | Some t \<Rightarrow> aware t \<and> Event_recovered \<in> set (map te_type (in_timeline i))
                  \<and> map (\<lambda>e. micros (te_observed e)) (filter (\<lambda>e. te_type e = Event_closed) (in_timeline i)) = [micros t])
      else in_outcome i = None \<and> in_closed i = None)"

definition incident_contract :: "opslib \<Rightarrow> incident \<Rightarrow> bool" where
  "incident_contract O' i \<longleftrightarrow>
     aware (in_created i) \<and> aware (in_detected i) \<and> micros (in_created i) \<le> micros (in_detected i)
     \<and> sorted (map (\<lambda>e. micros (te_observed e)) (in_timeline i)) \<and> distinct (map te_id (in_timeline i))
     \<and> map te_type (take 2 (in_timeline i)) = [Event_detected, Event_active]
     \<and> distinct (map rf_id (in_recoveries i)) \<and> sorted (map (\<lambda>r. micros (rf_observed r)) (in_recoveries i))
     \<and> closing_ok i \<and> identity_ok O' i"

text \<open>
  \<open>IncidentRecord.model_validate\<close> of a record whose integrity is checked; \<open>materialize\<close> validates a
  draft without its digest, seals it and validates it again.
\<close>

definition incident_valid :: "opslib \<Rightarrow> incident \<Rightarrow> bool" where
  "incident_valid O' i \<longleftrightarrow> incident_fields_ok O' i \<and> incident_contract O' i \<and> verify_incident O' i"

definition materialize :: "opslib \<Rightarrow> incident \<Rightarrow> exn + incident" where
  "materialize O' i =
     (let draft = i\<lparr>in_sha256 := replicate 64 48\<rparr>; sealed = draft\<lparr>in_sha256 := record_sha256 O' draft\<rparr>
      in guard (incident_fields_ok O' draft \<and> incident_contract O' draft) (value_error ''ValidationError'')
           (guard (incident_valid O' sealed) (value_error ''ValidationError'') (Inr sealed)))"

end
