(* ===== verification/Incident_Lifecycle.thy ===== *)
theory Incident_Lifecycle
  imports Incident "HOL-Library.Sublist"
begin

text \<open>
  The transitions of an incident (\<open>src/ops_agent/incident_lifecycle.py\<close>): creation from an
  activation, the attachment of a diagnosis and of recovery evaluations, as a step relation with
  its invariants. Arguments are artifacts already parsed; parsing JSON is left to the library.
\<close>

section \<open>Checks\<close>

text \<open>A row of checks raises the message of the first that fails.\<close>

fun checks :: "(bool \<times> string) list \<Rightarrow> exn + 'a \<Rightarrow> exn + 'a" where
  "checks [] k = k"
| "checks ((ok, msg) # cs) k = (if ok then checks cs k else Inl (value_error msg))"

lemma checks_Inr [simp]: "checks cs k = Inr x \<longleftrightarrow> list_all fst cs \<and> k = Inr x"
  by (induction cs k rule: checks.induct) auto

lemma checks_ok: "list_all fst cs \<Longrightarrow> checks cs k = k"
  by (induction cs k rule: checks.induct) auto

declare checks.simps [simp del]

text \<open>\<open>IncidentRecord.verify_integrity\<close> with its messages.\<close>

definition integrity_checks :: "opslib \<Rightarrow> incident \<Rightarrow> (bool \<times> string) list" where
  "integrity_checks O' i =
     [(in_identity i = incident_identity O' (in_detection i), ''incident identity digest does not match detection''),
      (in_id i = incident_id_of (in_identity i), ''incident ID does not match deterministic identity''),
      (in_sha256 i = record_sha256 O' i, ''incident record digest does not match payload'')]"

lemma integrity_checks_ok [simp]: "list_all fst (integrity_checks O' i) \<longleftrightarrow> verify_incident O' i"
  by (auto simp: integrity_checks_def verify_incident_def identity_ok_def)

section \<open>Creation\<close>

text \<open>\<open>value.rsplit('-', 1)\<close>.\<close>

definition rsplit_dash :: "ustr \<Rightarrow> ustr list" where
  "rsplit_dash s =
     (case dropWhile (\<lambda>c. c \<noteq> 45) (rev s) of
        [] \<Rightarrow> [s]
      | _ # front \<Rightarrow> [rev front, rev (takeWhile (\<lambda>c. c \<noteq> 45) (rev s))])"

text \<open>
  \<open>D\<close> holds of the characters that count as digits in \<open>str.isdigit\<close>. Captures of one incident may
  be numbered: then their common parent is the incident.
\<close>

definition parent_of :: "(nat \<Rightarrow> bool) \<Rightarrow> ustr \<Rightarrow> ustr option" where
  "parent_of D s = (case rsplit_dash s of [a, b] \<Rightarrow> if b \<noteq> [] \<and> list_all D b then Some a else None | _ \<Rightarrow> None)"

definition source_incident_id :: "(nat \<Rightarrow> bool) \<Rightarrow> sequence_evaluation \<Rightarrow> exn + ustr" where
  "source_incident_id D e =
     (let values = map sq_incident (sv_sources e); parents = map (parent_of D) values
      in if length (remdups values) = 1 then Inr (hd values)
         else if None \<notin> set parents \<and> length (remdups parents) = 1 then Inr (the (hd parents))
         else Inl (value_error ''incident activation requires one logical source incident ID''))"

definition sequence_digest :: "opslib \<Rightarrow> sequence_evaluation \<Rightarrow> ustr" where
  "sequence_digest O' e = canonical_sha256 (py O') (JObj
     ([(u ''schema_version'', JStr (u ''ops.conditions.v2'')), (u ''evaluation_id'', JStr (sv_id e)),
       (u ''evaluation_status'', JStr (status_value (sv_status e)))]
      @ sequence_payload O' (sv_policy e) (sv_sources e) (sv_observations e) (sv_conditions e) (sv_assessment e)))"

definition run_digest :: "opslib \<Rightarrow> diagnosis_run \<Rightarrow> ustr" where
  "run_digest O' r = canonical_sha256 (py O') (dump_run O' r)"

definition recovery_digest :: "opslib \<Rightarrow> recovery_evaluation \<Rightarrow> ustr" where
  "recovery_digest O' e =
     canonical_sha256 (py O') (JObj ((u ''recovery_evaluation_id'', JStr (re_id e)) # recovery_payload O' e))"

definition make_event :: "opslib \<Rightarrow> event_type \<Rightarrow> stamp \<Rightarrow> ustr \<Rightarrow> lifecycle \<Rightarrow> ustr list \<Rightarrow> event" where
  "make_event O' k t artifact st reasons =
     (let e = \<lparr>te_id = [], te_type = k, te_observed = t, te_artifact = artifact, te_state = st, te_reasons = reasons\<rparr>
      in e\<lparr>te_id := event_identity O' e\<rparr>)"

definition detection_of ::
  "opslib \<Rightarrow> sequence_evaluation \<Rightarrow> ustr \<Rightarrow> ustr \<Rightarrow> ustr option \<Rightarrow> detection" where
  "detection_of O' e identity source ref =
     \<lparr>det_evaluation = sv_id e, det_digests = map sq_sha256 (sv_sources e), det_identity = identity,
      det_source = Some source, det_sha256 = sequence_digest O' e, det_ref = ref\<rparr>"

definition opened_incident ::
  "opslib \<Rightarrow> provenance \<Rightarrow> sequence_evaluation \<Rightarrow> detection \<Rightarrow> stamp \<Rightarrow> incident" where
  "opened_incident O' pv e d t =
     (let identity = incident_identity O' d
      in \<lparr>in_id = incident_id_of identity, in_identity = identity, in_sha256 = [], in_created = t, in_detected = t,
          in_closed = None, in_state = Active, in_outcome = None, in_detection = d, in_diagnosis = None,
          in_policy = None, in_recoveries = [], in_current = None,
          in_timeline =
            [make_event O' Event_detected t (sv_id e) Detected [u ''DETERMINISTIC_CONDITION_PRESENT''],
             make_event O' Event_active t (sv_id e) Active [u ''WORKER_BACKLOG_INCIDENT_ACTIVATED'']],
          in_provenance = pv\<rparr>)"

definition create_incident ::
  "(nat \<Rightarrow> bool) \<Rightarrow> opslib \<Rightarrow> sequence_evaluation \<Rightarrow> provenance \<Rightarrow> ustr option \<Rightarrow> exn + incident" where
  "create_incident D O' e pv ref =
     checks [(verify_sequence O' e, ''evaluation_id does not match the sequence payload''),
             (cr_state (core_of e) = Present, ''incident creation requires CORE_BACKLOG_PRESSURE=PRESENT''),
             (sole (source_identities e) \<noteq> None, ''incident activation requires one complete source identity'')]
     (rbind (source_incident_id D e) (\<lambda>source.
       let d = detection_of O' e (the (sole (source_identities e))) source
       in guard (ep_version (sv_policy e) = u ''local-ha.conditions.v2'' \<and> detection_ok (d ref))
            (value_error ''ValidationError'')
          (rbind (validate_reference ref) (\<lambda>ref'.
            guard (ep_profile (sv_policy e) = u ''local-ha'' \<and> provenance_ok pv) (value_error ''ValidationError'')
              (materialize O' (opened_incident O' pv e (d ref') (sq_completed (last (sv_sources e)))))))))"

section \<open>Diagnosis\<close>

definition diagnosis_ref_of :: "opslib \<Rightarrow> diagnosis_run \<Rightarrow> ustr option \<Rightarrow> diagnosis_ref" where
  "diagnosis_ref_of O' r ref =
     \<lparr>dg_id = dr_id r, dg_model = dp_model (dr_policy r), dg_stop = stop_value (dr_stop r),
      dg_tools = map dt_tool (dr_steps r), dg_repairs = dr_repairs r, dg_completed = dr_completed r,
      dg_sha256 = run_digest O' r, dg_ref = ref\<rparr>"

definition last_observed :: "incident \<Rightarrow> int" where
  "last_observed i = micros (te_observed (last (in_timeline i)))"

definition with_diagnosis :: "opslib \<Rightarrow> incident \<Rightarrow> diagnosis_run \<Rightarrow> ustr option \<Rightarrow> incident" where
  "with_diagnosis O' i r ref =
     i\<lparr>in_diagnosis := Some (diagnosis_ref_of O' r ref),
       in_timeline := in_timeline i @ [make_event O' Event_diagnosis (dr_completed r) (dr_id r) (in_state i)
         [u ''READ_ONLY_DIAGNOSIS_VALIDATED'']]\<rparr>"

definition diagnosis_checks :: "incident \<Rightarrow> diagnosis_run \<Rightarrow> (bool \<times> string) list" where
  "diagnosis_checks i r =
     [(in_state i \<noteq> Closed, ''new diagnosis cannot be attached after incident closure''),
      (dr_evaluation r = det_evaluation (in_detection i), ''diagnosis condition evaluation does not match incident''),
      (dc_profile (dr_context r) = u ''local-ha'', ''diagnosis profile does not match incident''),
      (dc_cluster (dr_context r) = u ''kind-messaging-ha'', ''diagnosis cluster context does not match local-ha incident''),
      (dc_digests (dr_context r) = det_digests (in_detection i), ''diagnosis source bundle digests do not match detection''),
      (list_all (\<lambda>b. b) (validation_flags (dr_validation r)), ''diagnosis validator result must be fully valid''),
      (last_observed i \<le> micros (dr_completed r), ''diagnosis would reorder the incident timeline'')]"

definition attach_diagnosis :: "opslib \<Rightarrow> incident \<Rightarrow> diagnosis_run \<Rightarrow> ustr option \<Rightarrow> exn + incident" where
  "attach_diagnosis O' i r ref =
     checks (integrity_checks O' i @ [(verify_run O' r, ''diagnosis_id does not match the diagnosis payload'')])
     (case in_diagnosis i of
        Some d \<Rightarrow>
          checks [(dg_id d = dr_id r, ''incident already has a different diagnosis''),
                  (dg_sha256 d = run_digest O' r, ''duplicate diagnosis ID has a different digest'')] (Inr i)
      | None \<Rightarrow>
          checks (diagnosis_checks i r)
          (guard (diagnosis_ref_ok (diagnosis_ref_of O' r ref)) (value_error ''ValidationError'')
            (rbind (validate_reference ref) (\<lambda>ref'. materialize O' (with_diagnosis O' i r ref')))))"

section \<open>Recovery evaluations\<close>

definition recovery_ref_of :: "opslib \<Rightarrow> recovery_evaluation \<Rightarrow> ustr option \<Rightarrow> recovery_ref" where
  "recovery_ref_of O' e ref =
     \<lparr>rf_id = re_id e, rf_state = re_state e, rf_observed = rr_completed (last (re_sources e)),
      rf_policy = rp_version (re_policy e), rf_evaluator = re_evaluator e, rf_ruleset = re_ruleset e,
      rf_digests = map rr_actual (re_sources e), rf_sha256 = recovery_digest O' e, rf_ref = ref\<rparr>"

definition current_of :: "recovery_evaluation \<Rightarrow> current" where
  "current_of e =
     \<lparr>cu_state = re_state e, cu_quality = quality_of (re_state e), cu_reasons = re_reasons e,
      cu_digest = rr_actual (last (re_sources e)), cu_observed = rr_completed (last (re_sources e))\<rparr>"

definition recovery_checks :: "incident \<Rightarrow> recovery_evaluation \<Rightarrow> (bool \<times> string) list" where
  "recovery_checks i e =
     [(det_source (in_detection i) = Some (re_incident e), ''recovery incident identity does not match''),
      (rp_profile (re_policy e) = u ''local-ha'', ''recovery profile does not match incident''),
      (rp_context (re_policy e) = u ''kind-messaging-ha'', ''recovery context does not match local-ha incident''),
      (ar_id (re_activation e) = det_evaluation (in_detection i), ''recovery activation does not match incident detection''),
      (ar_digests (re_activation e) = det_digests (in_detection i),
       ''recovery activation digests do not match incident detection'')]"

text \<open>Neither the recovery history nor the timeline is reordered.\<close>

definition order_checks :: "incident \<Rightarrow> stamp \<Rightarrow> (bool \<times> string) list" where
  "order_checks i t =
     [(in_recoveries i = [] \<or> micros (rf_observed (last (in_recoveries i))) \<le> micros t,
       ''recovery evaluation would reorder recovery history''),
      (last_observed i \<le> micros t, ''recovery evaluation would reorder the incident timeline'')]"

text \<open>The event of an evaluation, the state it leads to and its reasons.\<close>

definition transition ::
  "lifecycle \<Rightarrow> recovery_evaluation \<Rightarrow> exn + event_type \<times> lifecycle \<times> ustr list" where
  "transition st e =
     (if st = Closed then Inr (Event_updated, Closed, u ''CLOSED_LIFECYCLE_PRESERVED'' # re_reasons e)
      else case re_state e of
             Backlog_active \<Rightarrow> Inr (Event_observed, Active, re_reasons e)
           | Backlog_recovering \<Rightarrow> Inr (Event_recovering, Recovering, re_reasons e)
           | Backlog_unknown \<Rightarrow> Inr (Event_updated, st, u ''OBSERVATION_QUALITY_UNKNOWN'' # re_reasons e)
           | Backlog_recovered \<Rightarrow>
               guard (is_v2 (re_policy e)) (value_error ''only recovery v2 can close an incident'')
                 (Inr (Event_recovered, Recovered, re_reasons e)))"

definition with_recovery ::
  "opslib \<Rightarrow> incident \<Rightarrow> recovery_evaluation \<Rightarrow> ustr option \<Rightarrow> event_type \<times> lifecycle \<times> ustr list \<Rightarrow> incident" where
  "with_recovery O' i e ref = (\<lambda>(k, st, reasons).
     let t = rr_completed (last (re_sources e));
         j = i\<lparr>in_recoveries := in_recoveries i @ [recovery_ref_of O' e ref], in_policy := Some (rp_version (re_policy e)),
               in_current := Some (current_of e), in_state := st,
               in_timeline := in_timeline i @ [make_event O' k t (re_id e) st reasons]\<rparr>
     in if st = Recovered
        then j\<lparr>in_timeline := in_timeline j @ [make_event O' Event_closed t (re_id e) Closed
                  [u ''DETERMINISTIC_RECOVERY_V2_COMPLETE'']],
               in_state := Closed, in_outcome := Some Outcome_recovered, in_closed := Some t\<rparr>
        else j)"

definition known_recovery :: "incident \<Rightarrow> ustr \<Rightarrow> recovery_ref option" where
  "known_recovery i k = map_of (map (\<lambda>r. (rf_id r, r)) (rev (in_recoveries i))) k"

definition attach_recovery_evaluation ::
  "opslib \<Rightarrow> incident \<Rightarrow> recovery_evaluation \<Rightarrow> ustr option \<Rightarrow> exn + incident" where
  "attach_recovery_evaluation O' i e ref =
     checks (integrity_checks O' i @ [(verify_recovery O' e, ''recovery_evaluation_id does not match the payload'')])
     (case known_recovery i (re_id e) of
        Some r \<Rightarrow> checks [(rf_sha256 r = recovery_digest O' e, ''duplicate recovery ID has a different digest'')] (Inr i)
      | None \<Rightarrow>
          checks (recovery_checks i e)
          (guard (re_sources e \<noteq> []) IndexError
          (checks (order_checks i (rr_completed (last (re_sources e))))
          (guard (recovery_ref_ok (recovery_ref_of O' e ref)) (value_error ''ValidationError'')
          (rbind (validate_reference ref) (\<lambda>ref'.
            guard (current_ok (current_of e)) (value_error ''ValidationError'')
            (rbind (transition (in_state i) e) (\<lambda>t. materialize O' (with_recovery O' i e ref' t)))))))))"

end
