(* ===== verification/Incident_Facts.thy ===== *)
theory Incident_Facts
  imports Incident_Lifecycle
begin

text \<open>
  What the lifecycle of an incident guarantees: sealed records are valid, the lifecycle refines an
  abstract machine in which a closed incident stays closed, the history only grows, an incident is
  closed exactly when an evaluation of its history says so, and attachments are idempotent.
\<close>

section \<open>Sealing\<close>

lemma record_sha256_update [simp]: "record_sha256 O' (i\<lparr>in_sha256 := s\<rparr>) = record_sha256 O' i"
  by (simp add: record_sha256_def record_payload_def)

lemma materialize_Inr:
  "materialize O' i = Inr j \<longleftrightarrow>
     incident_fields_ok O' (i\<lparr>in_sha256 := replicate 64 48\<rparr>)
     \<and> incident_contract O' (i\<lparr>in_sha256 := replicate 64 48\<rparr>)
     \<and> incident_valid O' (i\<lparr>in_sha256 := record_sha256 O' i\<rparr>) \<and> j = i\<lparr>in_sha256 := record_sha256 O' i\<rparr>"
  by (simp add: materialize_def guard_eq_Inr Let_def eq_commute [of _ j])

lemma materialize_fields:
  assumes "materialize O' i = Inr j"
  shows "in_id j = in_id i" "in_identity j = in_identity i" "in_created j = in_created i"
    "in_detected j = in_detected i" "in_closed j = in_closed i" "in_state j = in_state i"
    "in_outcome j = in_outcome i" "in_detection j = in_detection i" "in_diagnosis j = in_diagnosis i"
    "in_policy j = in_policy i" "in_recoveries j = in_recoveries i" "in_current j = in_current i"
    "in_timeline j = in_timeline i" "in_provenance j = in_provenance i"
proof -
  from assms have "j = i\<lparr>in_sha256 := record_sha256 O' i\<rparr>" unfolding materialize_Inr by (elim conjE)
  then show "in_id j = in_id i" "in_identity j = in_identity i" "in_created j = in_created i"
    "in_detected j = in_detected i" "in_closed j = in_closed i" "in_state j = in_state i"
    "in_outcome j = in_outcome i" "in_detection j = in_detection i" "in_diagnosis j = in_diagnosis i"
    "in_policy j = in_policy i" "in_recoveries j = in_recoveries i" "in_current j = in_current i"
    "in_timeline j = in_timeline i" "in_provenance j = in_provenance i"
    by simp_all
qed

lemma materialize_valid: "materialize O' i = Inr j \<Longrightarrow> incident_valid O' j"
  unfolding materialize_Inr by (elim conjE) (erule ssubst)

lemma valid_verified: "incident_valid O' i \<Longrightarrow> verify_incident O' i"
  by (simp add: incident_valid_def)

lemma make_event_fields [simp]:
  "te_type (make_event O' k t a st rs) = k" "te_observed (make_event O' k t a st rs) = t"
  "te_artifact (make_event O' k t a st rs) = a" "te_state (make_event O' k t a st rs) = st"
  "te_reasons (make_event O' k t a st rs) = rs"
  by (simp_all add: make_event_def Let_def)

lemma recovery_ref_fields [simp]:
  "rf_id (recovery_ref_of O' e ref) = re_id e" "rf_state (recovery_ref_of O' e ref) = re_state e"
  "rf_observed (recovery_ref_of O' e ref) = rr_completed (last (re_sources e))"
  "rf_policy (recovery_ref_of O' e ref) = rp_version (re_policy e)"
  "rf_sha256 (recovery_ref_of O' e ref) = recovery_digest O' e"
  by (simp_all add: recovery_ref_of_def)

section \<open>Steps\<close>

text \<open>An attachment is either a repetition, which returns the record, or a sealed extension.\<close>

lemma attach_diagnosis_cases:
  assumes "attach_diagnosis O' i r ref = Inr j"
  obtains (repeated) d where "j = i" "in_diagnosis i = Some d" "dg_id d = dr_id r" "dg_sha256 d = run_digest O' r"
        "verify_incident O' i" "verify_run O' r"
    | (attached) ref' where "in_diagnosis i = None" "in_state i \<noteq> Closed" "verify_run O' r" "verify_incident O' i"
        "materialize O' (with_diagnosis O' i r ref') = Inr j"
proof (cases "in_diagnosis i")
  case None
  with assms attached show thesis
    by (auto simp: attach_diagnosis_def diagnosis_checks_def guard_eq_Inr rbind_eq_Inr)
next
  case (Some d)
  with assms repeated show thesis by (auto simp: attach_diagnosis_def)
qed

lemma attach_recovery_cases:
  assumes "attach_recovery_evaluation O' i e ref = Inr j"
  obtains (repeated) r where "j = i" "known_recovery i (re_id e) = Some r" "rf_sha256 r = recovery_digest O' e"
        "verify_incident O' i" "verify_recovery O' e"
    | (attached) ref' t where "known_recovery i (re_id e) = None" "verify_recovery O' e" "verify_incident O' i"
        "transition (in_state i) e = Inr t" "materialize O' (with_recovery O' i e ref' t) = Inr j"
proof (cases "known_recovery i (re_id e)")
  case None
  with assms attached show thesis
    by (auto simp: attach_recovery_evaluation_def guard_eq_Inr rbind_eq_Inr)
next
  case (Some r)
  with assms repeated show thesis by (auto simp: attach_recovery_evaluation_def)
qed

text \<open>The transitions, one per kind of evaluation.\<close>

inductive evaluation_step :: "lifecycle \<Rightarrow> recovery_state \<Rightarrow> bool \<Rightarrow> event_type \<Rightarrow> lifecycle \<Rightarrow> bool" where
  preserved: "evaluation_step Closed st v2 Event_updated Closed"
| active: "s \<noteq> Closed \<Longrightarrow> evaluation_step s Backlog_active v2 Event_observed Active"
| recovering: "s \<noteq> Closed \<Longrightarrow> evaluation_step s Backlog_recovering v2 Event_recovering Recovering"
| unknown: "s \<noteq> Closed \<Longrightarrow> evaluation_step s Backlog_unknown v2 Event_updated s"
| recovered: "s \<noteq> Closed \<Longrightarrow> evaluation_step s Backlog_recovered True Event_recovered Recovered"

inductive_cases from_closed: "evaluation_step Closed st v2 k s"
inductive_simps into_recovered [simp]: "evaluation_step s st v2 k Recovered"
inductive_simps into_closed [simp]: "evaluation_step s st v2 k Closed"

lemma transition_step:
  "transition s e = Inr (k, s', rs) \<Longrightarrow> evaluation_step s (re_state e) (is_v2 (re_policy e)) k s'"
  by (auto simp: transition_def guard_eq_Inr intro: evaluation_step.intros split: if_splits recovery_state.splits)

section \<open>The abstract lifecycle\<close>

text \<open>
  The lifecycle a reader of the records relies on: \<open>DETECTED\<close> and \<open>RECOVERED\<close> are events on the
  way, and a closed incident stays closed.
\<close>

inductive lifecycle_step :: "lifecycle \<Rightarrow> lifecycle \<Rightarrow> bool" where
  stays: "lifecycle_step s s"
| resumes: "s \<noteq> Closed \<Longrightarrow> lifecycle_step s Active"
| recovers: "s \<noteq> Closed \<Longrightarrow> lifecycle_step s Recovering"
| closes: "s \<noteq> Closed \<Longrightarrow> lifecycle_step s Closed"

inductive_cases closed_stepE [elim!]: "lifecycle_step Closed s"

datatype attachment = Diagnose diagnosis_run "ustr option" | Observe recovery_evaluation "ustr option"

fun attach :: "opslib \<Rightarrow> incident \<Rightarrow> attachment \<Rightarrow> exn + incident" where
  "attach O' i (Diagnose r ref) = attach_diagnosis O' i r ref"
| "attach O' i (Observe e ref) = attach_recovery_evaluation O' i e ref"

fun attach_all :: "opslib \<Rightarrow> incident \<Rightarrow> attachment list \<Rightarrow> exn + incident" where
  "attach_all O' i [] = Inr i"
| "attach_all O' i (a # as) = rbind (attach O' i a) (\<lambda>j. attach_all O' j as)"



section \<open>The history only grows\<close>

definition extends :: "incident \<Rightarrow> incident \<Rightarrow> bool" where
  "extends i j \<longleftrightarrow>
     in_id j = in_id i \<and> in_identity j = in_identity i \<and> in_created j = in_created i \<and> in_detected j = in_detected i
     \<and> in_detection j = in_detection i \<and> in_provenance j = in_provenance i
     \<and> prefix (in_timeline i) (in_timeline j) \<and> prefix (in_recoveries i) (in_recoveries j)
     \<and> (in_diagnosis i = None \<or> in_diagnosis j = in_diagnosis i)
     \<and> (if in_state i = Closed then in_state j = Closed \<and> in_closed j = in_closed i \<and> in_outcome j = in_outcome i else True)"

lemma extends_refl [simp]: "extends i i"
  by (simp add: extends_def)

lemma extends_trans: "extends i j \<Longrightarrow> extends j k \<Longrightarrow> extends i k"
  by (auto simp: extends_def split: if_splits intro: prefix_order.trans)

lemma extends_materialize: "materialize O' i' = Inr j \<Longrightarrow> extends i i' \<Longrightarrow> extends i j"
  by (simp add: extends_def materialize_fields)

lemma extends_diagnosis: "in_diagnosis i = None \<Longrightarrow> extends i (with_diagnosis O' i r ref)"
  by (simp add: extends_def with_diagnosis_def)

lemma extends_recovery: "transition (in_state i) e = Inr t \<Longrightarrow> extends i (with_recovery O' i e ref t)"
  by (auto simp: extends_def with_recovery_def transition_def Let_def split: prod.splits)

lemma attach_extends: "attach O' i a = Inr j \<Longrightarrow> extends i j"
proof (cases a)
  case (Diagnose r ref)
  assume "attach O' i a = Inr j"
  with Diagnose have "attach_diagnosis O' i r ref = Inr j" by simp
  then show ?thesis
    by (cases rule: attach_diagnosis_cases) (auto intro: extends_materialize extends_diagnosis)
next
  case (Observe e ref)
  assume "attach O' i a = Inr j"
  with Observe have "attach_recovery_evaluation O' i e ref = Inr j" by simp
  then show ?thesis
    by (cases rule: attach_recovery_cases) (auto intro: extends_materialize extends_recovery)
qed

lemma attach_all_extends: "attach_all O' i as = Inr j \<Longrightarrow> extends i j"
  by (induction as arbitrary: i) (auto simp: rbind_eq_Inr dest: attach_extends intro: extends_trans)

text \<open>
  C16: Attaching diagnoses and recovery evaluations only extends a record: identity, detection and
  provenance stay, the timeline and the recovery history are prefixes of the new ones, a diagnosis
  is never replaced, and a closed incident keeps its state, outcome and closing instant.
\<close>

theorem incident_history_is_append_only:
  "case attach_all O' i as of
     Inl e \<Rightarrow> True
   | Inr j \<Rightarrow>
       in_id j = in_id i \<and> in_detection j = in_detection i \<and> in_provenance j = in_provenance i
       \<and> prefix (in_timeline i) (in_timeline j) \<and> prefix (in_recoveries i) (in_recoveries j)
       \<and> (in_diagnosis i = None \<or> in_diagnosis j = in_diagnosis i)
       \<and> (if in_state i = Closed
          then in_state j = Closed \<and> in_closed j = in_closed i \<and> in_outcome j = in_outcome i else True)"
proof (cases "attach_all O' i as")
  case (Inr j)
  from attach_all_extends [OF Inr] show ?thesis unfolding Inr sum.case extends_def by blast
qed simp

section \<open>When an incident is closed\<close>

definition closing_evaluation :: "incident \<Rightarrow> recovery_ref option" where
  "closing_evaluation i = find (\<lambda>r. rf_state r = Backlog_recovered) (in_recoveries i)"

definition incident_inv :: "opslib \<Rightarrow> incident \<Rightarrow> bool" where
  "incident_inv O' i \<longleftrightarrow>
     incident_valid O' i \<and> in_state i = te_state (last (in_timeline i)) \<and> in_state i \<in> {Active, Recovering, Closed}
     \<and> (in_state i = Closed \<longleftrightarrow> closing_evaluation i \<noteq> None)
     \<and> in_closed i = map_option rf_observed (closing_evaluation i)
     \<and> opt_ok (\<lambda>r. ends_with (u ''.v2'') (rf_policy r)) (closing_evaluation i)
     \<and> map_option cu_state (in_current i) = (if in_recoveries i = [] then None else Some (rf_state (last (in_recoveries i))))"

lemma find_snoc: "find P (xs @ [x]) = (case find P xs of None \<Rightarrow> if P x then Some x else None | Some y \<Rightarrow> Some y)"
  by (induction xs) auto

lemma incident_inv_opened: "create_incident D O' e pv ref = Inr i \<Longrightarrow> incident_inv O' i"
  by (auto simp: create_incident_def rbind_eq_Inr guard_eq_Inr Let_def incident_inv_def materialize_fields
      materialize_valid opened_incident_def closing_evaluation_def opt_ok_def)

lemma incident_inv_diagnosis:
  assumes "materialize O' (with_diagnosis O' i r ref) = Inr j" "incident_inv O' i"
  shows "incident_inv O' j"
proof -
  have same: "in_state j = in_state i" "in_closed j = in_closed i" "in_recoveries j = in_recoveries i"
    "in_current j = in_current i" "te_state (last (in_timeline j)) = in_state i"
    by (simp_all add: materialize_fields [OF assms(1)] with_diagnosis_def)
  from materialize_valid [OF assms(1)] assms(2) show ?thesis
    unfolding incident_inv_def closing_evaluation_def same by blast
qed

lemma incident_inv_recovery:
  assumes "materialize O' (with_recovery O' i e ref (k, s, rs)) = Inr j" "incident_inv O' i"
    and "transition (in_state i) e = Inr (k, s, rs)"
  shows "incident_inv O' j"
proof -
  let ?i = "with_recovery O' i e ref (k, s, rs)"
  from transition_step [OF assms(3)]
  have step: "evaluation_step (in_state i) (re_state e) (is_v2 (re_policy e)) k s" .
  have recs: "in_recoveries ?i = in_recoveries i @ [recovery_ref_of O' e ref]"
    and state: "in_state ?i = (if s = Recovered then Closed else s)"
    and last: "te_state (last (in_timeline ?i)) = in_state ?i"
    and closed: "in_closed ?i = (if s = Recovered then Some (rr_completed (last (re_sources e))) else in_closed i)"
    and cur: "map_option cu_state (in_current ?i) = Some (re_state e)"
    by (simp_all add: with_recovery_def Let_def current_of_def)
  have new: "closing_evaluation ?i = (case closing_evaluation i of
      None \<Rightarrow> if re_state e = Backlog_recovered then Some (recovery_ref_of O' e ref) else None | Some r \<Rightarrow> Some r)"
    by (simp add: closing_evaluation_def recs find_snoc)
  have "closing_evaluation j = closing_evaluation ?i"
    by (simp add: closing_evaluation_def materialize_fields [OF assms(1)])
  with step assms(2) materialize_valid [OF assms(1)] show ?thesis
    unfolding incident_inv_def materialize_fields [OF assms(1)] recs state last closed cur new
    by (cases rule: evaluation_step.cases)
      (auto simp: opt_ok_def is_v2_def split: option.splits)
qed

lemma incident_inv_attach:
  assumes "attach O' i a = Inr j" "incident_inv O' i"
  shows "incident_inv O' j"
proof (cases a)
  case (Diagnose r ref)
  with assms(1) have "attach_diagnosis O' i r ref = Inr j" by simp
  then show ?thesis using assms(2)
    by (cases rule: attach_diagnosis_cases) (auto intro: incident_inv_diagnosis)
next
  case (Observe e ref)
  with assms(1) have "attach_recovery_evaluation O' i e ref = Inr j" by simp
  then show ?thesis using assms(2)
    by (cases rule: attach_recovery_cases) (auto intro: incident_inv_recovery)
qed

inductive reachable :: "(nat \<Rightarrow> bool) \<Rightarrow> opslib \<Rightarrow> incident \<Rightarrow> bool" for D O' where
  opened: "create_incident D O' e pv ref = Inr i \<Longrightarrow> reachable D O' i"
| attached: "reachable D O' i \<Longrightarrow> attach O' i a = Inr j \<Longrightarrow> reachable D O' j"

lemma reachable_inv: "reachable D O' i \<Longrightarrow> incident_inv O' i"
  by (induction rule: reachable.induct) (auto intro: incident_inv_opened incident_inv_attach)

lemma attach_all_reachable: "attach_all O' i as = Inr j \<Longrightarrow> reachable D O' i \<Longrightarrow> reachable D O' j"
  by (induction as arbitrary: i) (auto simp: rbind_eq_Inr intro: reachable.attached)

definition incident_after ::
  "(nat \<Rightarrow> bool) \<Rightarrow> opslib \<Rightarrow> sequence_evaluation \<Rightarrow> provenance \<Rightarrow> ustr option \<Rightarrow> attachment list \<Rightarrow> exn + incident" where
  "incident_after D O' e pv ref as = rbind (create_incident D O' e pv ref) (\<lambda>i. attach_all O' i as)"

lemma incident_after_inv: "incident_after D O' e pv ref as = Inr j \<Longrightarrow> incident_inv O' j"
  using reachable_inv [of D O' j] attach_all_reachable [of O' _ as j D]
  by (auto simp: incident_after_def rbind_eq_Inr dest: reachable.opened)

text \<open>
  C15: A record grown from an activation by any attachments is valid, its state is the one of its
  last event, and it is closed exactly when an evaluation of its history is recovered: the first
  such evaluation, one of a second-generation policy, gives the closing instant.
\<close>

theorem incident_closed_iff_recovered:
  "case incident_after D O' e pv ref as of
     Inl x \<Rightarrow> True
   | Inr i \<Rightarrow>
       incident_valid O' i \<and> in_state i = te_state (last (in_timeline i)) \<and> in_state i \<in> {Active, Recovering, Closed}
       \<and> (in_state i = Closed \<longleftrightarrow> Backlog_recovered \<in> set (map rf_state (in_recoveries i)))
       \<and> in_closed i = map_option rf_observed (find (\<lambda>r. rf_state r = Backlog_recovered) (in_recoveries i))
       \<and> (case find (\<lambda>r. rf_state r = Backlog_recovered) (in_recoveries i) of
            None \<Rightarrow> True | Some r \<Rightarrow> ends_with (u ''.v2'') (rf_policy r))"
proof -
  have found: "find P xs \<noteq> None \<longleftrightarrow> list_ex P xs" for P and xs :: "recovery_ref list"
    by (induction xs) auto
  have recovered: "list_ex (\<lambda>r. rf_state r = Backlog_recovered) xs \<longleftrightarrow> Backlog_recovered \<in> set (map rf_state xs)"
    for xs :: "recovery_ref list" by (induction xs) auto
  show ?thesis
  proof (cases "incident_after D O' e pv ref as")
    case (Inr i)
    from incident_after_inv [OF Inr] show ?thesis
      unfolding Inr sum.case incident_inv_def closing_evaluation_def opt_ok_def found recovered by blast
  qed simp
qed


section \<open>Attachments are idempotent\<close>

lemma diagnosis_repeats:
  assumes "attach_diagnosis O' i r ref = Inr j"
  shows "attach_diagnosis O' j r ref' = Inr j"
  using assms
proof (cases rule: attach_diagnosis_cases)
  case (attached ref1)
  then have "in_diagnosis j = Some (diagnosis_ref_of O' r ref1)" "verify_incident O' j"
    by (simp_all add: materialize_fields with_diagnosis_def valid_verified materialize_valid)
  with attached(3) show ?thesis by (simp add: attach_diagnosis_def diagnosis_ref_of_def checks_ok)
qed (simp_all add: attach_diagnosis_def checks_ok)

lemma known_recovery_added: "known_recovery (with_recovery O' i e ref t) (re_id e) = Some (recovery_ref_of O' e ref)"
  by (simp add: known_recovery_def with_recovery_def Let_def split: prod.split)

lemma recovery_repeats:
  assumes "attach_recovery_evaluation O' i e ref = Inr j"
  shows "attach_recovery_evaluation O' j e ref' = Inr j"
  using assms
proof (cases rule: attach_recovery_cases)
  case (attached ref1 t)
  have "known_recovery j (re_id e) = Some (recovery_ref_of O' e ref1)"
    using known_recovery_added [of O' i e ref1 t] by (simp add: known_recovery_def materialize_fields [OF attached(5)])
  with attached materialize_valid [OF attached(5)] show ?thesis
    by (simp add: attach_recovery_evaluation_def checks_ok valid_verified)
qed (simp_all add: attach_recovery_evaluation_def checks_ok)

text \<open>
  An artifact that was attached may be attached again, under any reference: the record is
  returned unchanged, so a retried attachment adds no event.
\<close>

theorem reattachment_is_idempotent:
  "(case attach_diagnosis O' i r ref of Inl x \<Rightarrow> True | Inr j \<Rightarrow> attach_diagnosis O' j r ref' = Inr j)
   \<and> (case attach_recovery_evaluation O' i e ref of
        Inl x \<Rightarrow> True | Inr j \<Rightarrow> attach_recovery_evaluation O' j e ref' = Inr j)"
  by (auto split: sum.split intro: diagnosis_repeats recovery_repeats)

section \<open>References\<close>

lemma slashes_idem [simp]: "slashes (slashes s) = slashes s"
  by (simp add: slashes_def)

text \<open>
  C33: An accepted reference is a relative path without backslashes, without a parent component
  and without a drive, and validating it again gives it back. A path of empty and \<open>.\<close> components
  only, the empty text among them, is not refused as invalid: an \<open>IndexError\<close> escapes.
\<close>

theorem reference_is_relative:
  "case validate_reference (Some s) of
     Inr n \<Rightarrow>
       n = Some (slashes s) \<and> 92 \<notin> set (slashes s) \<and> \<not> starts_with [47] (slashes s)
       \<and> u ''..'' \<notin> set (split_on 47 (slashes s)) \<and> path_parts (slashes s) \<noteq> []
       \<and> 58 \<notin> set (hd (path_parts (slashes s))) \<and> validate_reference n = Inr n
   | Inl x \<Rightarrow>
       x = (if \<not> starts_with [47] (slashes s) \<and> list_all (\<lambda>p. p = [] \<or> p = u ''.'') (split_on 47 (slashes s))
            then IndexError else value_error ''ValidationError'')"
proof -
  have dots: "u ''.'' = [46]" "u ''..'' = [46, 46]" by (simp_all add: u_def)
  have parts: "u ''..'' \<in> set (path_parts n) \<longleftrightarrow> u ''..'' \<in> set (split_on 47 n)" for n
    by (simp add: path_parts_def dots)
  have empty: "path_parts n = [] \<longleftrightarrow> list_all (\<lambda>p. p = [] \<or> p = u ''.'') (split_on 47 n)" for n
    by (simp add: path_parts_def filter_empty_conv list_all_iff dots)
  have noback: "92 \<notin> set (slashes s)" by (auto simp: slashes_def)
  show ?thesis
  proof (cases "path_parts (slashes s)")
    case Nil
    then show ?thesis using empty [of "slashes s"] by (simp add: validate_reference_def Let_def)
  next
    case (Cons p ps)
    with empty [of "slashes s"] have "\<not> list_all (\<lambda>p. p = [] \<or> p = u ''.'') (split_on 47 (slashes s))" by simp
    with Cons parts [of "slashes s"] noback show ?thesis
      by (auto simp: validate_reference_def Let_def)
  qed
qed

end
