(* ===== verification/Redaction.thy ===== *)
theory Redaction
  imports Evidence Db_Pool
begin

text \<open>
  The redaction of artifacts (\<open>src/ops_agent/artifacts.py\<close>): the patterns of secrets in texts and
  their substitution, the keys whose values are hidden, and the raw artifact of a collector.
\<close>

section \<open>Patterns\<close>

text \<open>
  The regular expressions of the module. A state is the character before the position and the rest
  of the text; \<open>results\<close> lists the states an expression can end in, in the order in which a
  backtracking matcher tries them. \<open>W\<close> is \<open>str.isalnum\<close> outside ASCII.
\<close>

datatype rx =
    One "nat \<Rightarrow> bool"
  | Rep nat "nat option" "nat \<Rightarrow> bool"
  | Cat rx rx
  | Or rx rx
  | Maybe rx
  | Edge

type_synonym position = "nat option \<times> ustr"

definition word_char :: "(nat \<Rightarrow> bool) \<Rightarrow> nat \<Rightarrow> bool" where
  "word_char W c \<longleftrightarrow> is_alnum c \<or> c = 95 \<or> 128 \<le> c \<and> W c"

definition in_word :: "(nat \<Rightarrow> bool) \<Rightarrow> nat option \<Rightarrow> bool" where
  "in_word W c = (case c of None \<Rightarrow> False | Some x \<Rightarrow> word_char W x)"

definition first_char :: "ustr \<Rightarrow> nat option" where
  "first_char s = (case s of [] \<Rightarrow> None | c # _ \<Rightarrow> Some c)"

definition after :: "position \<Rightarrow> nat \<Rightarrow> position" where
  "after st n = (case st of (p, s) \<Rightarrow> (if n = 0 then p else Some (s ! (n - 1)), drop n s))"

fun results :: "(nat \<Rightarrow> bool) \<Rightarrow> rx \<Rightarrow> position \<Rightarrow> position list" where
  "results W (One P) (p, s) = (case s of [] \<Rightarrow> [] | c # t \<Rightarrow> if P c then [(Some c, t)] else [])"
| "results W (Rep lo hi P) (p, s) =
     (let k = length (takeWhile P s); m = (case hi of None \<Rightarrow> k | Some h \<Rightarrow> min h k)
      in map (after (p, s)) (rev [lo..<Suc m]))"
| "results W (Cat a b) st = concat (map (results W b) (results W a st))"
| "results W (Or a b) st = results W a st @ results W b st"
| "results W (Maybe a) st = results W a st @ [st]"
| "results W Edge (p, s) = (if in_word W p \<noteq> in_word W (first_char s) then [(p, s)] else [])"

text \<open>A pattern is a list of expressions, so that the texts of its groups can be told apart.\<close>

fun groups :: "(nat \<Rightarrow> bool) \<Rightarrow> rx list \<Rightarrow> position \<Rightarrow> (ustr list \<times> position) list" where
  "groups W [] st = [([], st)]"
| "groups W (r # rs) st =
     concat (map (\<lambda>st'. map (\<lambda>(ts, e). (take (length (snd st) - length (snd st')) (snd st) # ts, e)) (groups W rs st'))
       (results W r st))"

text \<open>\<open>re.sub\<close>, from left to right; no pattern of the module matches the empty text.\<close>

function substitute :: "(nat \<Rightarrow> bool) \<Rightarrow> rx list \<Rightarrow> (ustr list \<Rightarrow> ustr) \<Rightarrow> nat option \<Rightarrow> ustr \<Rightarrow> ustr" where
  "substitute W ps f p [] = []"
| "substitute W ps f p (c # t) =
     (case groups W ps (p, c # t) of
        (ts, (p', s')) # _ \<Rightarrow>
          if length s' < length (c # t) then f ts @ substitute W ps f p' s' else c # substitute W ps f (Some c) t
      | [] \<Rightarrow> c # substitute W ps f (Some c) t)"
  by pat_completeness auto
termination
  by (relation "measure (\<lambda>(W, ps, f, p, s). length s)") auto

text \<open>
  Case-insensitive characters: beside its other case, \<open>i\<close> matches the dotted and the dotless i,
  \<open>s\<close> the long s and \<open>k\<close> the Kelvin sign.
\<close>

definition fold_char :: "nat \<Rightarrow> nat" where
  "fold_char c = (if c \<in> {304, 305} then 105 else if c = 383 then 115 else if c = 8490 then 107 else lower_char c)"

definition ci :: "(nat \<Rightarrow> bool) \<Rightarrow> nat \<Rightarrow> bool" where
  "ci P c = P (fold_char c)"

definition lit :: "string \<Rightarrow> rx" where
  "lit s = (case map (\<lambda>x. One (\<lambda>c. c = x)) (u s) of [] \<Rightarrow> Rep 0 (Some 0) (\<lambda>_. False) | r # rs \<Rightarrow> foldl Cat r rs)"

definition lit_ci :: "string \<Rightarrow> rx" where
  "lit_ci s = (case map (\<lambda>x. One (ci (\<lambda>c. c = x))) (u s) of [] \<Rightarrow> Rep 0 (Some 0) (\<lambda>_. False) | r # rs \<Rightarrow> foldl Cat r rs)"

definition one_of :: "string \<Rightarrow> nat \<Rightarrow> bool" where
  "one_of cs c \<longleftrightarrow> c \<in> set (u cs)"

definition alternatives :: "rx list \<Rightarrow> rx" where
  "alternatives rs = foldr Or (butlast rs) (last rs)"

definition in_order :: "rx list \<Rightarrow> rx" where
  "in_order rs = foldr Cat (butlast rs) (last rs)"

definition many :: "(nat \<Rightarrow> bool) \<Rightarrow> rx" where
  "many P = Rep 1 None P"

definition redacted :: ustr where
  "redacted = u ''[REDACTED]''"

definition bearer_pattern :: "rx list" where
  "bearer_pattern = [Edge, alternatives [lit_ci ''bearer'', lit_ci ''basic''],
     Cat (many is_space) (many (\<lambda>c. \<not> (is_space c \<or> one_of '',;'' c)))]"

definition query_pattern :: "rx list" where
  "query_pattern =
     [in_order [One (one_of ''?&''), alternatives (map lit_ci [''access_token'', ''api_key'', ''password'', ''secret'', ''token'']),
        lit ''=''],
      many (\<lambda>c. \<not> (is_space c \<or> one_of ''&#'' c))]"

definition scheme_char :: "nat \<Rightarrow> bool" where
  "scheme_char c \<longleftrightarrow> is_alnum c \<or> one_of ''+.-'' c"

definition url_credential_pattern :: "rx list" where
  "url_credential_pattern =
     [in_order [One (ci (\<lambda>c. 97 \<le> c \<and> c \<le> 122)), Rep 0 None (ci scheme_char), lit ''://'',
        many (\<lambda>c. \<not> (is_space c \<or> one_of '':/'' c)), lit '':''],
      many (\<lambda>c. \<not> (is_space c \<or> one_of ''@/'' c)), lit ''@'']"

definition token_char :: "nat \<Rightarrow> bool" where
  "token_char c \<longleftrightarrow> is_alnum c \<or> one_of ''_-'' c"

definition opaque_pattern :: "rx list" where
  "opaque_pattern =
     [Edge,
      alternatives
        [in_order [lit_ci ''gh'', One (ci (one_of ''pousr'')), lit ''_'', Rep 20 None (ci is_alnum)],
         Cat (lit_ci ''github_pat_'') (Rep 20 None (ci (\<lambda>c. is_alnum c \<or> c = 95))),
         Cat (lit_ci ''sk-'') (Rep 20 None (ci token_char)),
         Cat (lit_ci ''akia'') (Rep 16 (Some 16) (ci is_alnum)),
         in_order [lit_ci ''xox'', One (ci (one_of ''baprs'')), lit ''-'', Rep 10 None (ci (\<lambda>c. is_alnum c \<or> c = 45))]],
      Edge]"

definition jwt_pattern :: "rx list" where
  "jwt_pattern = [Edge, lit ''eyJ'', Rep 8 None token_char, lit ''.'', Rep 8 None token_char, lit ''.'',
     Rep 8 None token_char, Edge]"

definition slack_pattern :: "rx list" where
  "slack_pattern = [lit_ci ''https://hooks.slack.com/services/'', many (ci (\<lambda>c. token_char c \<or> c = 47))]"

definition dash :: rx where
  "dash = Maybe (One (one_of ''-_''))"

definition inline_pattern :: "rx list" where
  "inline_pattern =
     [Edge,
      alternatives
        [in_order [Maybe (Cat (lit_ci ''x'') dash), lit_ci ''api'', dash, lit_ci ''key''],
         in_order [Maybe (Cat (lit_ci ''aws'') dash), lit_ci ''access'', dash, lit_ci ''key'', Maybe (Cat dash (lit_ci ''id''))],
         in_order [lit_ci ''secret'', dash, lit_ci ''access'', dash, lit_ci ''key''],
         lit_ci ''password'', lit_ci ''secret'', lit_ci ''token''],
      Rep 0 None is_space, One (one_of ''=:''), Rep 0 None is_space,
      alternatives
        [in_order [One (\<lambda>c. c = 34), Rep 0 None (\<lambda>c. c \<notin> {34, 13, 10}), One (\<lambda>c. c = 34)],
         in_order [One (\<lambda>c. c = 39), Rep 0 None (\<lambda>c. c \<notin> {39, 13, 10}), One (\<lambda>c. c = 39)],
         many (\<lambda>c. \<not> (is_space c \<or> one_of '',;'' c))]]"

definition sub_all :: "(nat \<Rightarrow> bool) \<Rightarrow> rx list \<Rightarrow> (ustr list \<Rightarrow> ustr) \<Rightarrow> ustr \<Rightarrow> ustr" where
  "sub_all W ps f s = substitute W ps f None s"

definition sanitize_text :: "(nat \<Rightarrow> bool) \<Rightarrow> ustr \<Rightarrow> ustr" where
  "sanitize_text W s =
     (let s = sub_all W bearer_pattern (\<lambda>g. g ! 1 @ u '' '' @ redacted) s;
          s = sub_all W query_pattern (\<lambda>g. g ! 0 @ redacted) s;
          s = sub_all W url_credential_pattern (\<lambda>g. g ! 0 @ redacted @ g ! 2) s;
          s = sub_all W opaque_pattern (\<lambda>_. redacted) s;
          s = sub_all W jwt_pattern (\<lambda>_. redacted) s;
          s = sub_all W slack_pattern (\<lambda>_. redacted) s
      in sub_all W inline_pattern (\<lambda>g. g ! 1 @ g ! 3 @ redacted) s)"

section \<open>Values\<close>

definition sensitive_markers :: "string list" where
  "sensitive_markers =
     [''apikey'', ''authorization'', ''clientcertificatedata'', ''clientkeydata'', ''cookie'', ''credential'',
      ''kubeconfig'', ''password'', ''privatekey'', ''secret'', ''token'', ''accesskeyid'', ''secretaccesskey'']"

definition canonical_key :: "opslib \<Rightarrow> ustr \<Rightarrow> ustr" where
  "canonical_key O' k = filter (\<lambda>c. 97 \<le> c \<and> c \<le> 122 \<or> is_digit c) (lower_of O' k)"

definition sensitive_key :: "opslib \<Rightarrow> ustr \<Rightarrow> bool" where
  "sensitive_key O' k \<longleftrightarrow> list_ex (contains (canonical_key O' k)) sensitive_markers"

fun redact :: "opslib \<Rightarrow> (nat \<Rightarrow> bool) \<Rightarrow> json \<Rightarrow> json" where
  "redact O' W (JObj d) =
     JObj (map (\<lambda>kv. (fst kv, if sensitive_key O' (fst kv) then JStr redacted else redact O' W (snd kv))) d)"
| "redact O' W (JArr xs) = JArr (map (redact O' W) xs)"
| "redact O' W (JStr s) = JStr (sanitize_text W s)"
| "redact O' W v = v"

section \<open>Artifacts\<close>

text \<open>\<open>json.dumps(v, ensure_ascii=True, indent=2, sort_keys=True)\<close> at a level of nesting.\<close>

definition new_line :: "nat \<Rightarrow> ustr" where
  "new_line n = 10 # replicate (2 * n) 32"

fun pretty :: "pylib \<Rightarrow> nat \<Rightarrow> json \<Rightarrow> ustr" where
  "pretty L n (JArr xs) =
     (if xs = [] then u ''[]''
      else [91] @ new_line (Suc n) @ join (44 # new_line (Suc n)) (map (pretty L (Suc n)) xs) @ new_line n @ [93])"
| "pretty L n (JObj d) =
     (if d = [] then u ''{}''
      else [123] @ new_line (Suc n)
        @ join (44 # new_line (Suc n))
            (map (\<lambda>kt. ascii_text (fst kt) @ u '': '' @ snd kt)
              (sort_key fst (map (\<lambda>kv. (fst kv, pretty L (Suc n) (snd kv))) d)))
        @ new_line n @ [125])"
| "pretty L n v = canonical L v"

record artifact =
  af_path :: ustr
  af_sha256 :: ustr
  af_content :: ustr

text \<open>\<open>write_raw_artifact\<close> where the file system takes the file; the root is in POSIX form.\<close>

definition write_raw_artifact :: "opslib \<Rightarrow> (nat \<Rightarrow> bool) \<Rightarrow> ustr \<Rightarrow> ustr \<Rightarrow> ustr \<Rightarrow> json \<Rightarrow> artifact" where
  "write_raw_artifact O' W dir bundle_id source payload =
     (let encoded = pretty (py O') 0 (redact O' W payload) @ [10]
      in \<lparr>af_path = dir @ [47] @ bundle_id @ [47] @ source @ u ''.json'',
          af_sha256 = hexdigest (sha256 (py O') (ascii encoded)), af_content = encoded\<rparr>)"

section \<open>What redaction guarantees\<close>

text \<open>No member of a sensitive name keeps its value, at any depth, and every other text is sanitized.\<close>

fun hidden :: "opslib \<Rightarrow> (ustr \<Rightarrow> bool) \<Rightarrow> json \<Rightarrow> bool" where
  "hidden O' P (JObj d) \<longleftrightarrow>
     list_all (\<lambda>kv. if sensitive_key O' (fst kv) then snd kv = JStr redacted else hidden O' P (snd kv)) d"
| "hidden O' P (JArr xs) \<longleftrightarrow> list_all (hidden O' P) xs"
| "hidden O' P (JStr s) \<longleftrightarrow> P s"
| "hidden O' P v \<longleftrightarrow> True"

fun same_shape :: "opslib \<Rightarrow> json \<Rightarrow> json \<Rightarrow> bool" where
  "same_shape O' (JObj d) w =
     (case w of JObj e \<Rightarrow>
        map fst d = map fst e
        \<and> list_all2 (\<lambda>kv lw. sensitive_key O' (fst kv) \<or> same_shape O' (snd kv) (snd lw)) d e
      | _ \<Rightarrow> False)"
| "same_shape O' (JArr xs) w = (case w of JArr ys \<Rightarrow> list_all2 (same_shape O') xs ys | _ \<Rightarrow> False)"
| "same_shape O' (JStr s) w = (case w of JStr _ \<Rightarrow> True | _ \<Rightarrow> False)"
| "same_shape O' v w \<longleftrightarrow> w = v"

lemma redact_hidden: "hidden O' (\<lambda>s. \<exists>t. s = sanitize_text W t) (redact O' W v)"
  by (induction O' W v rule: redact.induct) (auto simp: list_all_iff)

lemma redact_shape: "same_shape O' v (redact O' W v)"
  by (induction O' W v rule: redact.induct) (auto simp: list_all2_conv_all_nth)

end
