(* ===== verification/Prometheus.thy ===== *)
theory Prometheus
  imports Diagnosis_Validator
begin

text \<open>
  The Prometheus collector (\<open>src/ops_agent/collectors/prometheus.py\<close>): the fixed queries, the
  normalisation of range and timestamp responses, coverage of partitions, anomalies of samples and
  the result of a collection. What a request brings back is an argument.
\<close>

section \<open>Failures and instants\<close>

text \<open>
  \<open>Caught\<close> are the exceptions the collector turns into a result of its own (its collection error
  and \<open>OSError\<close> with its subclasses), with their text; any other exception escapes.
\<close>

datatype failure = Caught ustr | Escapes

definition failed :: "string \<Rightarrow> failure" where
  "failed s = Caught (u s)"

text \<open>
  \<open>datetime.fromtimestamp(x, tz=utc)\<close> in microseconds: the fraction times a million, as a double, to
  the nearest integer; \<open>None\<close> where it raises.
\<close>

definition whole :: "rat \<Rightarrow> int" where
  "whole r = (if r < 0 then - \<lfloor>- r\<rfloor> else \<lfloor>r\<rfloor>)"

definition round_even :: "pyfloat \<Rightarrow> int" where
  "round_even f = (case f of Fin q \<Rightarrow> (case quotient_of q of (n, d) \<Rightarrow> div_even n d) | _ \<Rightarrow> 0)"

definition from_epoch :: "pyfloat \<Rightarrow> int option" where
  "from_epoch x =
     (case f_val x of
        None \<Rightarrow> None
      | Some r \<Rightarrow>
          (let m = whole r * 1000000 + round_even (float64_rat ((r - of_int (whole r)) * 1000000))
           in if - 62135596800000000 \<le> m \<and> m < 253402300800000000 then Some m else None))"

definition rfc3339 :: "pyfloat \<Rightarrow> failure + ustr" where
  "rfc3339 x =
     (case from_epoch x of
        None \<Rightarrow> Inl Escapes
      | Some m \<Rightarrow> Inr (isoformat \<lparr>micros = m, utc_offset = None\<rparr> @ u ''Z''))"

definition rfc3339_opt :: "pyfloat option \<Rightarrow> failure + ustr option" where
  "rfc3339_opt x = (case x of None \<Rightarrow> Inr None | Some t \<Rightarrow> rbind (rfc3339 t) (\<lambda>s. Inr (Some s)))"

section \<open>Configuration\<close>

definition safe_label_value :: "ustr \<Rightarrow> bool" where
  "safe_label_value s \<longleftrightarrow>
     s \<noteq> [] \<and> list_all (\<lambda>c. is_digit c \<or> 65 \<le> c \<and> c \<le> 90 \<or> 97 \<le> c \<and> c \<le> 122 \<or> c \<in> {45, 46, 95}) s"

text \<open>
  Partitions in the order of their numbers, then the labels that are no number. The order of two
  labels of the same number, which the code leaves to its sets, is that of the argument.
\<close>

definition sort_labels :: "ustr list \<Rightarrow> ustr list" where
  "sort_labels qs =
     sort_key (\<lambda>q. the (py_int_text q)) (filter (\<lambda>q. py_int_text q \<noteq> None) qs)
     @ sort (filter (\<lambda>q. py_int_text q = None) qs)"

definition normalise_expected :: "ustr list option \<Rightarrow> exn + ustr list option" where
  "normalise_expected vs =
     (case vs of
        None \<Rightarrow> Inr None
      | Some qs \<Rightarrow> guard (distinct qs) (value_error ''expected_partition_ids must be unique'') (Inr (Some (sort_labels qs))))"

definition label_matcher :: "ustr \<Rightarrow> ustr" where
  "label_matcher s = concat (map (\<lambda>c. if c = 92 then [92, 92] else if c = 34 then [92, 34] else [c]) s)"

record fixed_query =
  fq_id :: ustr
  fq_metric :: ustr
  fq_promql :: ustr
  fq_unit :: ustr
  fq_type :: ustr
  fq_notes :: ustr
  fq_partitioned :: bool
  fq_decrease :: "ustr option"
  fq_flags :: "(ustr \<times> bool) list"
  fq_selectors :: "(ustr \<times> ustr) list"

definition quoted :: "ustr \<Rightarrow> ustr" where
  "quoted s = [34] @ s @ [34]"

text \<open>A histogram is read through its three components.\<close>

definition histogram_components :: "string list" where
  "histogram_components = [''bucket'', ''count'', ''sum'']"

definition histogram_query ::
  "string \<Rightarrow> string \<Rightarrow> ustr \<Rightarrow> string \<Rightarrow> string \<Rightarrow> (ustr \<times> bool) list \<Rightarrow> fixed_query" where
  "histogram_query qid metric labels kind notes flags =
     \<lparr>fq_id = u qid, fq_metric = u metric,
      fq_promql = u ''{__name__=~'' @ quoted (u metric @ u ''_(bucket|count|sum)'') @ u '','' @ labels @ u ''}'',
      fq_unit = u ''seconds'', fq_type = u kind, fq_notes = u notes, fq_partitioned = False, fq_decrease = None,
      fq_flags = flags,
      fq_selectors = map (\<lambda>c. (u metric @ u ''_'' @ u c @ u ''{'' @ labels @ u ''}'', u metric @ u ''_'' @ u c))
        histogram_components\<rparr>"

definition kafka_query :: "string \<Rightarrow> ustr \<Rightarrow> string \<Rightarrow> string \<Rightarrow> ustr option \<Rightarrow> fixed_query" where
  "kafka_query metric matcher kind notes decrease =
     \<lparr>fq_id = u metric, fq_metric = u metric, fq_promql = u metric @ u ''{'' @ matcher @ u ''}'',
      fq_unit = u ''records'', fq_type = u kind, fq_notes = u notes, fq_partitioned = True, fq_decrease = decrease,
      fq_flags = [], fq_selectors = []\<rparr>"

definition worker_job :: ustr where
  "worker_job = u ''job='' @ quoted (u ''worker'')"

definition fixed_queries :: "ustr \<Rightarrow> ustr \<Rightarrow> fixed_query list" where
  "fixed_queries topic consumers =
     (let t = u ''topic='' @ quoted (label_matcher topic);
          g = u ''consumergroup='' @ quoted (label_matcher consumers) @ u '','' @ t
      in [kafka_query ''kafka_topic_partition_current_offset'' t ''kafka_partition_end_offset_gauge''
            (''Raw topic end offsets. Values cover every producer that appends ''
             @ ''to the ingress topic; they are not API-only accepted counts.'') (Some (u ''offset_decrease'')),
          kafka_query ''kafka_consumergroup_current_offset'' g ''kafka_consumer_committed_offset_gauge''
            (''Raw committed offsets. A commit can follow persistence, an ''
             @ ''idempotency hit, rejection, or terminal DLQ handling.'') (Some (u ''offset_decrease'')),
          kafka_query ''kafka_consumergroup_lag'' g ''kafka_consumer_partition_lag_gauge''
            (''Raw per-partition lag. Negative exporter sentinels are retained ''
             @ ''and must not be included as zero by this collector.'') None,
          \<lparr>fq_id = u ''messaging_worker_processed_total'', fq_metric = u ''messaging_worker_processed_total'',
           fq_promql = u ''messaging_worker_processed_total{'' @ worker_job @ u '',result=~''
             @ quoted (u ''success|rejected|dlq'') @ u ''}'',
           fq_unit = u ''records'', fq_type = u ''worker_terminal_processing_counter'',
           fq_notes = u (''Counts success, rejected, and DLQ outcomes after Kafka offset ''
             @ ''commit. The failure outcome is excluded because it is rewound ''
             @ ''without offset commit. This is not PostgreSQL commit or insert rate.''),
           fq_partitioned = False, fq_decrease = Some (u ''counter_reset_or_decrease''),
           fq_flags = [(u ''is_db_commit_rate'', False)], fq_selectors = []\<rparr>,
          histogram_query ''messaging_queue_wait_seconds'' ''messaging_queue_wait_seconds'' worker_job
            ''queued_at_to_worker_handler_start_lag_histogram''
            (''Measures API queued_at before Kafka append to Worker handler ''
             @ ''start and includes Kafka publish time.'') [],
          histogram_query ''messaging_event_persist_lag_seconds'' ''messaging_event_persist_lag_seconds'' worker_job
            ''api_queued_at_to_post_commit_observed_lag_histogram''
            (''Measures payload queued_at to the timestamp refreshed after ''
             @ ''PostgreSQL commit returns. It includes queueing and processing ''
             @ ''and is not isolated PostgreSQL commit latency.'')
            [(u ''is_isolated_postgresql_commit_latency'', False)],
          histogram_query ''messaging_worker_db_persist_stage_latency_seconds'' ''messaging_worker_stage_latency_seconds''
            (worker_job @ u '',stage='' @ quoted (u ''db_persist'')) ''persist_stage_latency_histogram''
            (''Measures _persist_message_with_cursor only. It excludes request ''
             @ ''status work and the enclosing transaction commit.'') [(u ''includes_transaction_commit'', False)]])"

text \<open>The query of the source times of a family: each selector carries the name of its component.\<close>

definition component_label :: ustr where
  "component_label = u ''ops_metric_component''"

definition timestamp_query :: "fixed_query \<Rightarrow> ustr" where
  "timestamp_query q =
     (let selectors = (if fq_selectors q = [] then [(fq_promql q, fq_metric q)] else fq_selectors q)
      in join (u '' or '') (map (\<lambda>(selector, component).
           u ''label_replace(timestamp('' @ selector @ u ''), '' @ quoted component_label @ u '', '' @ quoted component
           @ u '', '' @ quoted [] @ u '', '' @ quoted (u ''.*'') @ u '')'') selectors))"

record collector =
  pc_url :: ustr
  pc_topic :: ustr
  pc_group :: ustr
  pc_expected :: "ustr list option"
  pc_range :: int
  pc_step :: int
  pc_max_age :: pyfloat
  pc_timeout :: pyfloat
  pc_host :: "ustr option"

definition make_collector ::
  "opslib \<Rightarrow> ustr \<Rightarrow> ustr \<Rightarrow> ustr \<Rightarrow> ustr list option \<Rightarrow> int \<Rightarrow> int \<Rightarrow> pyfloat \<Rightarrow> pyfloat \<Rightarrow> ustr option \<Rightarrow> exn + collector" where
  "make_collector O' base topic consumers expected duration step max_age timeout host =
     (case split_url O' base of
        None \<Rightarrow> Inl (value_error ''Invalid URL'')
      | Some x \<Rightarrow>
          guard (url_scheme x \<in> {u ''http'', u ''https''} \<and> url_netloc x \<noteq> [])
            (value_error ''Prometheus base_url must be an HTTP(S) URL'')
          (guard (url_user x = None \<and> url_password x = None) (value_error ''Prometheus base_url must not contain credentials'')
          (guard (url_query x = [] \<and> url_fragment x = [])
            (value_error ''Prometheus base_url must not contain a query or fragment'')
          (guard (duration > 0 \<and> step > 0 \<and> \<not> f_less_eq max_age (Fin 0))
            (value_error ''range_seconds, step_seconds, and sample_max_age_seconds must be positive'')
          (guard (\<not> f_less_eq timeout (Fin 0)) (value_error ''timeout_seconds must be positive'')
          (guard (case host of None \<Rightarrow> True | Some h \<Rightarrow> safe_host_header h)
            (value_error ''Prometheus Host header is invalid'')
          (guard (safe_label_value topic) (value_error ''topic contains unsupported characters'')
          (guard (safe_label_value consumers) (value_error ''consumer_group contains unsupported characters'')
          (rbind (normalise_expected expected) (\<lambda>qs.
            Inr \<lparr>pc_url = unsplit_url (url_scheme x) (url_netloc x) (rstrip_slash (url_path x)), pc_topic = topic,
                 pc_group = consumers, pc_expected = qs, pc_range = duration, pc_step = step, pc_max_age = max_age,
                 pc_timeout = timeout, pc_host = host\<rparr>))))))))))"

section \<open>Responses\<close>

text \<open>
  What a request brings back: no answer within the time limit, an exception of the transport (with
  its text when it is caught), or a body with its size and its JSON value if it has one.
\<close>

datatype response = Timed_out | No_result | Transport failure | Body nat "json option"

definition max_body_bytes :: nat where
  "max_body_bytes = 8 * 1024 * 1024"

definition read_json :: "response \<Rightarrow> failure + obj" where
  "read_json r =
     (case r of
        Timed_out \<Rightarrow> Inl (failed ''Prometheus request exceeded the total time limit'')
      | No_result \<Rightarrow> Inl (failed ''Prometheus request returned no result'')
      | Transport f \<Rightarrow> Inl f
      | Body n v \<Rightarrow>
          guard (n \<le> max_body_bytes) (failed ''Prometheus response exceeded size limit'')
            (case v of
               None \<Rightarrow> Inl (failed ''Prometheus returned invalid JSON'')
             | Some (JObj d) \<Rightarrow> Inr d
             | Some _ \<Rightarrow> Inl (failed ''Prometheus response must be an object'')))"

text \<open>The result list of a successful response of the expected type.\<close>

definition response_error :: "opslib \<Rightarrow> obj \<Rightarrow> failure" where
  "response_error O' d =
     (let text = (\<lambda>k dflt. if truthy (get_none d k) then py_str O' (get_none d k) else u dflt)
      in Caught (text ''errorType'' ''query_error'' @ u '': '' @ take 500 (text ''error'' ''Prometheus query failed'')))"

definition response_rows :: "opslib \<Rightarrow> string \<Rightarrow> string \<Rightarrow> string \<Rightarrow> obj \<Rightarrow> failure + json list" where
  "response_rows O' kind wrong_kind no_list d =
     guard (get_none d ''status'' = JStr (u ''success'')) (response_error O' d)
       (case get_none d ''data'' of
          JObj data \<Rightarrow>
            guard (get_none data ''resultType'' = JStr (u kind)) (failed wrong_kind)
              (case get_none data ''result'' of JArr xs \<Rightarrow> Inr xs | _ \<Rightarrow> Inl (failed no_list))
        | _ \<Rightarrow> Inl (failed wrong_kind))"

type_synonym labels = "(ustr \<times> ustr) list"

definition sensitive_fragments :: "string list" where
  "sensitive_fragments =
     [''authorization'', ''cookie'', ''credential'', ''kubeconfig'', ''password'', ''secret'', ''token'']"

definition redact_labels :: "opslib \<Rightarrow> obj \<Rightarrow> labels" where
  "redact_labels O' d = map (\<lambda>(k, v).
     (k, if list_ex (contains (lower_of O' k)) sensitive_fragments then u ''[REDACTED]'' else py_str O' v)) d"

record sample =
  sm_time :: pyfloat
  sm_value :: ustr

record metric_series =
  mx_labels :: labels
  mx_samples :: "sample list"

text \<open>\<open>float(v)\<close>: an integer beyond the range of doubles raises an \<open>OverflowError\<close>.\<close>

definition sample_time :: "json \<Rightarrow> failure + pyfloat" where
  "sample_time v =
     (case py_float v of
        None \<Rightarrow> Inl (failed ''Prometheus sample timestamp is invalid'')
      | Some f \<Rightarrow> if py_type v = TInt \<and> \<not> isfinite f then Inl Escapes else Inr f)"

definition normalise_sample :: "opslib \<Rightarrow> json \<Rightarrow> failure + sample" where
  "normalise_sample O' v =
     (case v of
        JArr (t # x # _) \<Rightarrow>
          rbind (sample_time t) (\<lambda>f.
            guard (x \<noteq> JNull) (failed ''Prometheus sample value is missing'')
              (Inr \<lparr>sm_time = f, sm_value = py_str O' x\<rparr>))
      | _ \<Rightarrow> Inl (failed ''Prometheus sample is malformed''))"

fun each :: "('a \<Rightarrow> failure + 'b) \<Rightarrow> 'a list \<Rightarrow> failure + 'b list" where
  "each f [] = Inr []"
| "each f (x # xs) = rbind (f x) (\<lambda>y. rbind (each f xs) (\<lambda>ys. Inr (y # ys)))"

definition normalise_series :: "opslib \<Rightarrow> json \<Rightarrow> failure + metric_series" where
  "normalise_series O' v =
     (case v of
        JObj d \<Rightarrow>
          (case (get_none d ''metric'', get_none d ''values'') of
             (JObj ls, JArr xs) \<Rightarrow>
               rbind (each (normalise_sample O') xs) (\<lambda>ss. Inr \<lparr>mx_labels = redact_labels O' ls, mx_samples = ss\<rparr>)
           | _ \<Rightarrow> Inl (failed ''Prometheus series labels or samples are malformed''))
      | _ \<Rightarrow> Inl (failed ''Prometheus series must be an object''))"

section \<open>Anomalies\<close>

record anomaly =
  an_type :: ustr
  an_labels :: labels
  an_time :: pyfloat
  an_value :: ustr
  an_previous :: "(pyfloat \<times> ustr) option"

text \<open>
  \<open>sorted(samples, key=timestamp)\<close>, which is stable; a NaN among the timestamps, which no order
  places, stays where insertion leaves it.
\<close>

fun insert_sample :: "sample \<Rightarrow> sample list \<Rightarrow> sample list" where
  "insert_sample x [] = [x]"
| "insert_sample x (y # ys) = (if f_less (sm_time y) (sm_time x) then y # insert_sample x ys else x # y # ys)"

definition by_time :: "sample list \<Rightarrow> sample list" where
  "by_time ss = foldr insert_sample ss []"

definition finite_value :: "ustr \<Rightarrow> dec option" where
  "finite_value s = (case parse_decimal s of Some x \<Rightarrow> if dec_finite x then Some x else None | None \<Rightarrow> None)"

fun scan_samples :: "ustr option \<Rightarrow> labels \<Rightarrow> (sample \<times> dec) option \<Rightarrow> sample list \<Rightarrow> anomaly list" where
  "scan_samples decrease ls previous [] = []"
| "scan_samples decrease ls previous (s # ss) =
     (let mk = (\<lambda>k p. \<lparr>an_type = k, an_labels = ls, an_time = sm_time s, an_value = sm_value s, an_previous = p\<rparr>)
      in case finite_value (sm_value s) of
           None \<Rightarrow> mk (u ''non_finite_or_non_numeric_value'') None # scan_samples decrease ls None ss
         | Some x \<Rightarrow>
             emit (dec_less x dec_zero) (mk (u ''negative_value'') None)
             @ (case (decrease, previous) of
                  (Some k, Some (p, y)) \<Rightarrow> emit (dec_less x y) (mk k (Some (sm_time p, sm_value p)))
                | _ \<Rightarrow> [])
             @ scan_samples decrease ls (Some (s, x)) ss)"

definition sample_anomalies :: "ustr option \<Rightarrow> metric_series list \<Rightarrow> anomaly list" where
  "sample_anomalies decrease xs =
     concat (map (\<lambda>x. scan_samples decrease (mx_labels x) None (by_time (mx_samples x))) xs)"

section \<open>Coverage\<close>

record partition_coverage =
  pk_expected :: "ustr list option"
  pk_observed :: "ustr list"
  pk_missing :: "ustr list option"
  pk_unexpected :: "ustr list option"
  pk_duplicates :: "ustr list"
  pk_unlabelled :: nat
  pk_complete :: "bool option"

record family_coverage =
  fc_series :: nat
  fc_partitions :: "partition_coverage option"

definition partition_labels :: "metric_series list \<Rightarrow> ustr list" where
  "partition_labels xs = List.map_filter (\<lambda>x. map_of (mx_labels x) (u ''partition'')) xs"

definition partition_coverage :: "ustr list option \<Rightarrow> metric_series list \<Rightarrow> partition_coverage" where
  "partition_coverage expected xs =
     (let qs = partition_labels xs; observed = sort_labels (remdups qs);
          duplicates = sort_labels (filter (\<lambda>q. count_list qs q > 1) (remdups qs));
          unlabelled = length xs - length qs;
          missing = map_option (filter (\<lambda>q. q \<notin> set observed)) expected;
          unexpected = map_option (\<lambda>es. filter (\<lambda>q. q \<notin> set es) observed) expected
      in \<lparr>pk_expected = expected, pk_observed = observed, pk_missing = missing, pk_unexpected = unexpected,
          pk_duplicates = duplicates, pk_unlabelled = unlabelled,
          pk_complete = map_option (\<lambda>_. missing = Some [] \<and> unexpected = Some [] \<and> duplicates = [] \<and> unlabelled = 0)
            expected\<rparr>)"

definition coverage_of :: "collector \<Rightarrow> bool \<Rightarrow> metric_series list \<Rightarrow> family_coverage" where
  "coverage_of C partitioned xs =
     \<lparr>fc_series = length xs, fc_partitions = (if partitioned then Some (partition_coverage (pc_expected C) xs) else None)\<rparr>"

section \<open>Freshness\<close>

record source_series =
  ss_labels :: labels
  ss_evaluation :: pyfloat
  ss_value :: ustr
  ss_time :: ustr

record source_freshness =
  tf_query :: evidence_status
  tf_status :: freshness_status
  tf_source :: "ustr option"
  tf_newest :: "ustr option"
  tf_age :: "pyfloat option"
  tf_series :: "source_series list"
  tf_range_count :: nat
  tf_source_count :: nat
  tf_match :: "bool option"
  tf_error :: "ustr option"

text \<open>The identity of a series: its labels with the component in place of the name.\<close>

definition series_identity :: "labels \<Rightarrow> labels" where
  "series_identity ls =
     (let component = (case map_of ls component_label of
            Some (c # cs) \<Rightarrow> Some (c # cs) | _ \<Rightarrow> map_of ls (u ''__name__''))
      in sort (filter (\<lambda>(k, v). k \<noteq> u ''__name__'' \<and> k \<noteq> component_label) ls
               @ (case component of None \<Rightarrow> [] | Some c \<Rightarrow> [(component_label, c)])))"

text \<open>Equality of two \<open>Counter\<close>s.\<close>

definition same_counts :: "'a list \<Rightarrow> 'a list \<Rightarrow> bool" where
  "same_counts xs ys \<longleftrightarrow> list_all (\<lambda>x. count_list xs x = count_list ys x) (xs @ ys)"

text \<open>The source time of a series of the timestamp query, as an epoch and as a row of the result.\<close>

definition source_row :: "opslib \<Rightarrow> json \<Rightarrow> failure + pyfloat \<times> source_series" where
  "source_row O' v =
     (case v of
        JObj d \<Rightarrow>
          (case get_none d ''metric'' of
             JObj ls \<Rightarrow>
               rbind (normalise_sample O' (get_none d ''value'')) (\<lambda>s.
                 case finite_value (sm_value s) of
                   None \<Rightarrow> Inl (failed ''Prometheus timestamp() value is invalid'')
                 | Some x \<Rightarrow>
                     rbind (rfc3339 (dec_float x)) (\<lambda>t.
                       Inr (dec_float x, \<lparr>ss_labels = redact_labels O' ls, ss_evaluation = sm_time s,
                                          ss_value = sm_value s, ss_time = t\<rparr>)))
           | _ \<Rightarrow> Inl (failed ''Prometheus timestamp labels are malformed''))
      | _ \<Rightarrow> Inl (failed ''Prometheus timestamp series must be an object''))"

definition min_float :: "pyfloat list \<Rightarrow> pyfloat" where
  "min_float xs = foldl (\<lambda>m x. if f_less x m then x else m) (hd xs) (tl xs)"

definition future_tolerance :: pyfloat where
  "future_tolerance = float64 1 1000"

definition f_neg :: "pyfloat \<Rightarrow> pyfloat" where
  "f_neg x = f_sub (Fin 0) x"

definition freshness_result ::
  "collector \<Rightarrow> pyfloat \<Rightarrow> metric_series list \<Rightarrow> (pyfloat \<times> source_series) list \<Rightarrow> failure + source_freshness" where
  "freshness_result C now xs rows =
     (let range_ids = map (\<lambda>x. series_identity (mx_labels x)) xs;
          ids = map (\<lambda>r. series_identity (ss_labels (snd r))) rows;
          match = (if range_ids = [] then None else Some (same_counts range_ids ids));
          base = \<lparr>tf_query = Ev_ok, tf_status = Fresh_unknown, tf_source = None, tf_newest = None, tf_age = None,
                  tf_series = map snd rows, tf_range_count = length range_ids, tf_source_count = length ids,
                  tf_match = match, tf_error = None\<rparr>
      in if rows = [] then Inr (base\<lparr>tf_query := Ev_missing\<rparr>)
         else if match = Some False
         then Inr (base\<lparr>tf_error := Some (u ''timestamp series labels do not cover the range series'')\<rparr>)
         else (let oldest = min_float (map fst rows); newest = max_float (map fst rows); age = f_sub now oldest
               in rbind (rfc3339 oldest) (\<lambda>o'. rbind (rfc3339 newest) (\<lambda>n.
                    let dated = base\<lparr>tf_source := Some o', tf_newest := Some n\<rparr>
                    in if f_less age (f_neg future_tolerance)
                       then Inr (dated\<lparr>tf_error := Some (u ''source timestamp is later than collector time'')\<rparr>)
                       else (let age' = (if f_less (Fin 0) age then age else Fin 0)
                             in Inr (dated\<lparr>tf_status := (if f_less_eq age' (pc_max_age C) then Fresh else Stale),
                                           tf_age := Some age'\<rparr>))))))"

definition normalise_freshness ::
  "opslib \<Rightarrow> collector \<Rightarrow> pyfloat \<Rightarrow> metric_series list \<Rightarrow> obj \<Rightarrow> failure + source_freshness" where
  "normalise_freshness O' C now ms d =
     rbind (response_rows O' ''vector'' ''Prometheus timestamp query returned a non-vector result''
              ''Prometheus timestamp result must be a list'' d) (\<lambda>xs.
     rbind (each (source_row O') xs) (\<lambda>rows. freshness_result C now ms rows))"

definition freshness_error :: "metric_series list \<Rightarrow> ustr \<Rightarrow> source_freshness" where
  "freshness_error ms msg =
     \<lparr>tf_query = Ev_error, tf_status = Fresh_unknown, tf_source = None, tf_newest = None, tf_age = None,
      tf_series = [], tf_range_count = length ms, tf_source_count = 0, tf_match = None,
      tf_error = Some (take 500 msg)\<rparr>"

section \<open>The result of a query\<close>

record query_window =
  qw_start :: ustr
  qw_end :: ustr

record query_result =
  qr_query :: fixed_query
  qr_status :: evidence_status
  qr_window :: query_window
  qr_latest :: "ustr option"
  qr_series :: "metric_series list"
  qr_count :: nat
  qr_coverage :: family_coverage
  qr_anomalies :: "anomaly list"
  qr_error :: "ustr option"
  qr_warnings :: "ustr list option"
  qr_freshness :: "source_freshness option"

definition window_texts :: "pyfloat \<Rightarrow> pyfloat \<Rightarrow> failure + query_window" where
  "window_texts start stop =
     rbind (rfc3339 start) (\<lambda>a. rbind (rfc3339 stop) (\<lambda>b. Inr \<lparr>qw_start = a, qw_end = b\<rparr>))"

definition sample_count :: "metric_series list \<Rightarrow> nat" where
  "sample_count xs = sum_list (map (\<lambda>x. length (mx_samples x)) xs)"

definition sample_times :: "metric_series list \<Rightarrow> pyfloat list" where
  "sample_times xs = concat (map (\<lambda>x. map sm_time (mx_samples x)) xs)"

definition warnings_of :: "opslib \<Rightarrow> obj \<Rightarrow> ustr list option" where
  "warnings_of O' d =
     (case get_none d ''warnings'' of JArr ws \<Rightarrow> Some (map (\<lambda>w. take 500 (py_str O' w)) ws) | _ \<Rightarrow> None)"

definition normalise_query ::
  "opslib \<Rightarrow> collector \<Rightarrow> fixed_query \<Rightarrow> pyfloat \<Rightarrow> pyfloat \<Rightarrow> obj \<Rightarrow> failure + query_result" where
  "normalise_query O' C q start stop d =
     rbind (response_rows O' ''matrix'' ''Prometheus range query returned a non-matrix result''
              ''Prometheus result must be a list'' d) (\<lambda>rows.
     rbind (each (normalise_series O') rows) (\<lambda>xs.
     rbind (window_texts start stop) (\<lambda>w.
     rbind (rfc3339_opt (nonempty max_float (sample_times xs))) (\<lambda>latest.
       Inr \<lparr>qr_query = q, qr_status = (if sample_count xs = 0 then Ev_missing else Ev_ok), qr_window = w,
            qr_latest = latest, qr_series = xs, qr_count = sample_count xs,
            qr_coverage = coverage_of C (fq_partitioned q) xs, qr_anomalies = sample_anomalies (fq_decrease q) xs,
            qr_error = None, qr_warnings = warnings_of O' d, qr_freshness = None\<rparr>))))"

definition error_result ::
  "collector \<Rightarrow> fixed_query \<Rightarrow> pyfloat \<Rightarrow> pyfloat \<Rightarrow> ustr \<Rightarrow> failure + query_result" where
  "error_result C q start stop msg =
     rbind (window_texts start stop) (\<lambda>w.
       Inr \<lparr>qr_query = q, qr_status = Ev_error, qr_window = w, qr_latest = None, qr_series = [], qr_count = 0,
            qr_coverage = coverage_of C (fq_partitioned q) [], qr_anomalies = [], qr_error = Some (take 500 msg),
            qr_warnings = None, qr_freshness = None\<rparr>)"

text \<open>A caught failure is turned into a result; one that escapes ends the collection.\<close>

definition recover :: "failure + 'a \<Rightarrow> (ustr \<Rightarrow> failure + 'a) \<Rightarrow> failure + 'a" where
  "recover r h = (case r of Inl (Caught msg) \<Rightarrow> h msg | _ \<Rightarrow> r)"

definition collect_query ::
  "opslib \<Rightarrow> collector \<Rightarrow> pyfloat \<Rightarrow> pyfloat \<Rightarrow> pyfloat \<Rightarrow> fixed_query \<Rightarrow> response \<Rightarrow> response \<Rightarrow> failure + query_result" where
  "collect_query O' C now start stop q range_response time_response =
     rbind (recover (rbind (read_json range_response) (normalise_query O' C q start stop)) (error_result C q start stop)) (\<lambda>r.
     rbind (recover (rbind (read_json time_response) (normalise_freshness O' C now (qr_series r)))
              (\<lambda>msg. Inr (freshness_error (qr_series r) msg))) (\<lambda>f.
       Inr (r\<lparr>qr_freshness := Some f\<rparr>)))"

section \<open>A collection\<close>

record prometheus_result =
  pr_status :: evidence_status
  pr_partial :: bool
  pr_collected :: ustr
  pr_window :: query_window
  pr_queries :: "query_result list"
  pr_mismatch :: "bool option"

definition kafka_query_ids :: "ustr list" where
  "kafka_query_ids = map u kafka_metrics"

definition kafka_results :: "query_result list \<Rightarrow> query_result list" where
  "kafka_results rs = filter (\<lambda>r. fq_id (qr_query r) \<in> set kafka_query_ids) rs"

definition observed_partitions :: "query_result \<Rightarrow> ustr list option" where
  "observed_partitions r =
     (if qr_status r = Ev_ok then map_option pk_observed (fc_partitions (qr_coverage r)) else None)"

text \<open>\<open>_cross_query_partition_coverage\<close>: undecided unless all three families were observed.\<close>

definition partition_mismatch :: "query_result list \<Rightarrow> bool option" where
  "partition_mismatch rs =
     (let observed = map observed_partitions (kafka_results rs); sets = map set (List.map_filter (\<lambda>x. x) observed)
      in if None \<in> set observed \<or> length sets \<noteq> 3 then None
         else Some (list_ex (\<lambda>a. list_ex (\<lambda>b. a \<noteq> b) sets) sets))"

definition overall :: "query_result list \<Rightarrow> evidence_status" where
  "overall rs =
     (if Ev_ok \<in> set (map qr_status rs) then Ev_ok
      else if Ev_error \<in> set (map qr_status rs) then Ev_error else Ev_missing)"

definition query_impaired :: "query_result \<Rightarrow> bool" where
  "query_impaired r \<longleftrightarrow>
     qr_status r \<noteq> Ev_ok
     \<or> (case qr_freshness r of None \<Rightarrow> True | Some f \<Rightarrow> tf_query f \<noteq> Ev_ok \<or> tf_status f = Fresh_unknown)"

definition summarise ::
  "pyfloat \<Rightarrow> pyfloat \<Rightarrow> pyfloat \<Rightarrow> query_result list \<Rightarrow> failure + prometheus_result" where
  "summarise now start stop rs =
     rbind (rfc3339 now) (\<lambda>c. rbind (window_texts start stop) (\<lambda>w.
       Inr \<lparr>pr_status = overall rs, pr_partial = (overall rs = Ev_ok \<and> list_ex query_impaired rs), pr_collected = c,
            pr_window = w, pr_queries = rs, pr_mismatch = partition_mismatch rs\<rparr>))"

text \<open>
  \<open>collect\<close> at the instant \<open>now\<close>: the queries are independent, so their answers are given as a
  function of the query (its range answer and its timestamp answer). The coverage by query that the
  result repeats is that of the three Kafka families of \<open>pr_queries\<close>.
\<close>

definition collect ::
  "opslib \<Rightarrow> collector \<Rightarrow> pyfloat \<Rightarrow> pyfloat option \<Rightarrow> (fixed_query \<Rightarrow> response \<times> response) \<Rightarrow> failure + prometheus_result" where
  "collect O' C now end_time answers =
     (let stop = (case end_time of None \<Rightarrow> now | Some t \<Rightarrow> t); start = f_sub stop (float64 (pc_range C) 1)
      in rbind (each (\<lambda>q. case answers q of (a, b) \<Rightarrow> collect_query O' C now start stop q a b)
                 (fixed_queries (pc_topic C) (pc_group C))) (summarise now start stop))"

end
