(* ===== verification/Controller.thy ===== *)
theory Controller
  imports Redaction Prometheus
begin

text \<open>
  The collection controller (\<open>src/ops_agent/controller.py\<close>): what the collectors return becomes
  normalised evidence with its freshness, and the evidence becomes a bundle. The answers of the
  collectors, of git and of the file system are arguments. An exception that reaches the caller is
  \<open>Escapes\<close>, of whatever class it is.
\<close>

section \<open>Values\<close>

text \<open>
  \<open>alnum\<close> is \<open>str.isalnum\<close> outside ASCII and \<open>iso\<close> is \<open>datetime.fromisoformat\<close>.
\<close>

record ctllib =
  ops :: opslib
  alnum :: "nat \<Rightarrow> bool"
  iso :: "ustr \<Rightarrow> stamp option"

definition sanitize :: "ctllib \<Rightarrow> ustr \<Rightarrow> ustr" where
  "sanitize L = sanitize_text (alnum L)"

definition or_else :: "json \<Rightarrow> json \<Rightarrow> json" where
  "or_else v w = (if truthy v then v else w)"

definition list_or_empty :: "json \<Rightarrow> json list" where
  "list_or_empty v = (case v of JArr xs \<Rightarrow> xs | _ \<Rightarrow> [])"

text \<open>\<open>for x in v\<close>.\<close>

definition iterate :: "json \<Rightarrow> failure + json list" where
  "iterate v =
     (case v of JArr xs \<Rightarrow> Inr xs | JObj d \<Rightarrow> Inr (map (\<lambda>kv. JStr (fst kv)) d)
      | JStr s \<Rightarrow> Inr (map (\<lambda>c. JStr [c]) s) | _ \<Rightarrow> Inl Escapes)"

text \<open>\<open>int(v)\<close>.\<close>

definition py_int :: "json \<Rightarrow> failure + int" where
  "py_int v =
     (case v of
        JInt i \<Rightarrow> Inr i
      | JBool b \<Rightarrow> Inr (if b then 1 else 0)
      | JFloat f \<Rightarrow> (case f_val f of Some q \<Rightarrow> Inr (whole q) | None \<Rightarrow> Inl Escapes)
      | JStr s \<Rightarrow> (case py_int_text s of Some i \<Rightarrow> Inr i | None \<Rightarrow> Inl Escapes)
      | _ \<Rightarrow> Inl Escapes)"

definition zulu :: "ustr \<Rightarrow> ustr" where
  "zulu s = concat (map (\<lambda>c. if c = 90 then u ''+00:00'' else [c]) s)"

definition in_calendar :: "int \<Rightarrow> bool" where
  "in_calendar m \<longleftrightarrow> - 62135596800000000 \<le> m \<and> m < 253402300800000000"

definition parse_timestamp :: "ctllib \<Rightarrow> json \<Rightarrow> failure + stamp option" where
  "parse_timestamp L v =
     (case v of
        JInt i \<Rightarrow> (case from_epoch (float64 i 1) of Some m \<Rightarrow> Inr (Some \<lparr>micros = m, utc_offset = Some 0\<rparr>) | None \<Rightarrow> Inl Escapes)
      | JFloat f \<Rightarrow> (case from_epoch f of Some m \<Rightarrow> Inr (Some \<lparr>micros = m, utc_offset = Some 0\<rparr>) | None \<Rightarrow> Inl Escapes)
      | JStr s \<Rightarrow>
          (case iso L (zulu s) of
             None \<Rightarrow> Inr None
           | Some t \<Rightarrow> guard (in_calendar (micros t)) Escapes (Inr (Some \<lparr>micros = micros t, utc_offset = Some 0\<rparr>)))
      | _ \<Rightarrow> Inr None)"

definition timestamp_or :: "ctllib \<Rightarrow> json \<Rightarrow> stamp \<Rightarrow> failure + stamp" where
  "timestamp_or L v t = rbind (parse_timestamp L v) (\<lambda>x. Inr (case x of None \<Rightarrow> t | Some y \<Rightarrow> y))"

definition all_statuses :: "evidence_status list" where
  "all_statuses = [Ev_ok, Ev_missing, Ev_error, Ev_not_applicable, Ev_unavailable]"

definition status_of :: "ctllib \<Rightarrow> json \<Rightarrow> evidence_status" where
  "status_of L v =
     (case find (\<lambda>s. evidence_value s = py_str (ops L) v) all_statuses of Some s \<Rightarrow> s | None \<Rightarrow> Ev_error)"

definition collection_error :: ustr where
  "collection_error = u ''CollectionError''"

definition make_error :: "ustr \<Rightarrow> ustr \<Rightarrow> failure + evidence_error" where
  "make_error k msg =
     (let e = \<lparr>er_type = k, er_message = msg\<rparr> in guard (evidence_error_ok e) Escapes (Inr e))"

definition error_of :: "ctllib \<Rightarrow> json \<Rightarrow> ustr \<Rightarrow> failure + evidence_error option" where
  "error_of L v fallback =
     (case v of
        JStr s \<Rightarrow>
          if s = [] then Inr None
          else rbind (make_error collection_error (take 1000 (sanitize L s))) (\<lambda>e. Inr (Some e))
      | JObj d \<Rightarrow>
          rbind (make_error (py_str (ops L) (or_else (get_none d ''type'') (JStr collection_error)))
                  (take 1000 (sanitize L (py_str (ops L) (or_else (get_none d ''message'') (JStr fallback))))))
            (\<lambda>e. Inr (Some e))
      | _ \<Rightarrow> Inr None)"

section \<open>Items\<close>

definition id_char :: "ctllib \<Rightarrow> nat \<Rightarrow> bool" where
  "id_char L c \<longleftrightarrow> is_alnum c \<or> 128 \<le> c \<and> alnum L c \<or> c \<in> {46, 95, 45}"

definition evidence_id :: "ctllib \<Rightarrow> ustr \<Rightarrow> ustr \<Rightarrow> (ustr \<times> ustr) list \<Rightarrow> ustr" where
  "evidence_id L source name ls =
     (let identity = JObj [(u ''source'', JStr source), (u ''metric'', JStr name),
            (u ''labels'', JObj (map (\<lambda>(k, v). (k, JStr v)) ls)), (u ''discriminator'', JStr [])];
          suffix = take 12 (canonical_sha256 (py (ops L)) identity);
          prefix = map (\<lambda>c. if id_char L c then c else 95) (lower_of (ops L) (source @ [46] @ name))
      in prefix @ [46] @ suffix)"

definition at_least_zero :: "pyfloat \<Rightarrow> pyfloat" where
  "at_least_zero f = (if f_less (Fin 0) f then f else Fin 0)"

text \<open>\<open>round(x, 6)\<close>.\<close>

definition round6 :: "pyfloat \<Rightarrow> pyfloat" where
  "round6 f = (case f of Fin q \<Rightarrow> float64 (round_even (Fin (q * 1000000))) 1000000 | _ \<Rightarrow> f)"

definition no_freshness :: "freshness_status \<Rightarrow> pyfloat option \<Rightarrow> ustr \<Rightarrow> freshness" where
  "no_freshness s m basis = \<lparr>fr_status = s, fr_age = None, fr_max_age = m, fr_basis = basis\<rparr>"

definition freshness_of ::
  "evidence_status \<Rightarrow> stamp option \<Rightarrow> stamp \<Rightarrow> pyfloat \<Rightarrow> ustr \<Rightarrow> stamp \<Rightarrow> pyfloat \<Rightarrow> freshness" where
  "freshness_of status source collected max_age basis as_of bound =
     (if status = Ev_not_applicable then no_freshness Fresh_not_applicable None basis
      else
        (case source of
           Some t \<Rightarrow>
             if status \<noteq> Ev_ok then no_freshness Fresh_unknown (Some max_age) basis
             else
               (let age = at_least_zero (total_seconds as_of t);
                    age = (if starts_with (u ''collector_time'') basis
                           then (let other = at_least_zero (total_seconds as_of collected)
                                 in if f_less age other then other else age)
                           else age);
                    age = f_add age bound
                in \<lparr>fr_status = (if f_less_eq age max_age then Fresh else Stale), fr_age = Some (round6 age),
                    fr_max_age = Some max_age, fr_basis = basis\<rparr>)
         | None \<Rightarrow> no_freshness Fresh_unknown (Some max_age) basis))"

text \<open>The arguments of \<open>_item\<close>.\<close>

record draft =
  dr_source :: ustr
  dr_tool :: ustr
  dr_name :: ustr
  dr_value :: json
  dr_status :: evidence_status
  dr_collected :: stamp
  dr_source_ts :: "stamp option"
  dr_max_age :: pyfloat
  dr_basis :: ustr
  dr_type :: ustr
  dr_notes :: ustr
  dr_labels :: "(ustr \<times> ustr) list"
  dr_unit :: "ustr option"
  dr_window :: "ustr option"
  dr_aggregation :: "ustr option"
  dr_count :: "int option"
  dr_coverage :: coverage
  dr_flags :: "ustr list"
  dr_commit_rate :: "bool option"
  dr_raw :: "(ustr \<times> ustr) option"
  dr_error :: json
  dr_bound :: pyfloat

definition no_coverage :: coverage where
  "no_coverage = \<lparr>cv_expected_count = None, cv_observed_count = None, cv_complete = None, cv_expected = [],
     cv_observed = [], cv_missing = [], cv_extra = [], cv_notes = None\<rparr>"

definition draft_of ::
  "ustr \<Rightarrow> ustr \<Rightarrow> ustr \<Rightarrow> json \<Rightarrow> evidence_status \<Rightarrow> stamp \<Rightarrow> stamp option \<Rightarrow> pyfloat \<Rightarrow> ustr \<Rightarrow> ustr \<Rightarrow> ustr \<Rightarrow> draft" where
  "draft_of source tid name v status collected t max_age basis kind notes =
     \<lparr>dr_source = source, dr_tool = tid, dr_name = name, dr_value = v, dr_status = status, dr_collected = collected,
      dr_source_ts = t, dr_max_age = max_age, dr_basis = basis, dr_type = kind, dr_notes = notes, dr_labels = [],
      dr_unit = None, dr_window = None, dr_aggregation = None, dr_count = None, dr_coverage = no_coverage,
      dr_flags = [], dr_commit_rate = None, dr_raw = None, dr_error = JNull, dr_bound = Fin 0\<rparr>"

definition safe_labels :: "ctllib \<Rightarrow> (ustr \<times> ustr) list \<Rightarrow> (ustr \<times> ustr) list" where
  "safe_labels L ls = map (\<lambda>(k, v). (k, if sensitive_key (ops L) k then redacted else sanitize L v)) ls"

definition error_detail :: "draft \<Rightarrow> evidence_error option \<Rightarrow> failure + evidence_error option" where
  "error_detail d e =
     (if dr_status d = Ev_error \<and> e = None
      then rbind (make_error collection_error (dr_source d @ u '' collector returned ERROR without detail'')) (\<lambda>x. Inr (Some x))
      else Inr e)"

definition item_of :: "ctllib \<Rightarrow> stamp \<Rightarrow> draft \<Rightarrow> evidence_error option \<Rightarrow> item" where
  "item_of L as_of d e =
     (let ls = safe_labels L (dr_labels d)
      in \<lparr>it_id = evidence_id L (dr_source d) (dr_name d) ls, it_status = dr_status d, it_source = dr_source d,
          it_tool = dr_tool d, it_source_ts = dr_source_ts d, it_collected = dr_collected d,
          it_freshness = freshness_of (dr_status d) (dr_source_ts d) (dr_collected d) (dr_max_age d) (dr_basis d) as_of (dr_bound d),
          it_metric = \<lparr>me_name = dr_name d, me_value = redact (ops L) (alnum L) (dr_value d), me_unit = dr_unit d,
                       me_window = dr_window d, me_aggregation = dr_aggregation d, me_sample_count = dr_count d\<rparr>,
          it_labels = ls, it_coverage = dr_coverage d,
          it_semantic = \<lparr>se_type = dr_type d, se_notes = sanitize L (dr_notes d), se_commit_rate = dr_commit_rate d,
                         se_flags = dr_flags d\<rparr>,
          it_raw_ref = map_option fst (dr_raw d), it_raw_sha = map_option snd (dr_raw d),
          it_error = (if dr_status d = Ev_error then e else None)\<rparr>)"

definition make_item :: "ctllib \<Rightarrow> stamp \<Rightarrow> draft \<Rightarrow> failure + item" where
  "make_item L as_of d =
     rbind (error_of L (dr_error d) (dr_source d @ u '' collection failed'')) (\<lambda>e.
     rbind (error_detail d e) (\<lambda>e.
       let i = item_of L as_of d e in guard (item_ok i) Escapes (Inr i)))"

section \<open>The evidence of each collector\<close>

text \<open>The part of a collection policy the controller reads.\<close>

record coll_policy =
  po_profile :: ustr
  po_version :: ustr
  po_namespace :: ustr
  po_topic :: ustr
  po_group :: ustr
  po_application_url :: ustr
  po_application_host :: "ustr option"
  po_readiness_age :: pyfloat
  po_summary_age :: pyfloat
  po_summary_cache :: pyfloat
  po_prometheus_url :: ustr
  po_prometheus_host :: "ustr option"
  po_range_window :: int
  po_sample_age :: pyfloat
  po_observation_age :: pyfloat
  po_deployment :: ustr
  po_selector :: ustr
  po_scaled_object :: ustr
  po_argocd_enabled :: bool
  po_argocd_namespace :: ustr
  po_argocd_application :: ustr
  po_reconciliation_age :: pyfloat

text \<open>A builder of items stops at the first exception; \<open>gather\<close> joins what several builders give.\<close>

fun gather :: "(failure + 'a list) list \<Rightarrow> failure + 'a list" where
  "gather [] = Inr []"
| "gather (x # xs) = rbind x (\<lambda>ys. rbind (gather xs) (\<lambda>zs. Inr (ys @ zs)))"

definition the_item :: "failure + 'a \<Rightarrow> failure + 'a list" where
  "the_item x = rbind x (\<lambda>i. Inr [i])"

definition runtime_components :: "(string \<times> string \<times> string) list" where
  "runtime_components =
     [(''kafka'', ''application_kafka_readiness_observation'',
       ''Kafka bootstrap reachability from the application readiness response; no condition evaluation.''),
      (''postgres'', ''application_postgres_runtime_observation'',
       ''PostgreSQL HA mode, primary, standby, sync standby, and replication-delay values; no degradation evaluation.'')]"

definition endpoint_item ::
  "ctllib \<Rightarrow> coll_policy \<Rightarrow> (ustr \<times> ustr) option \<Rightarrow> stamp \<Rightarrow> obj \<Rightarrow> bool \<Rightarrow> obj \<Rightarrow> stamp \<Rightarrow> stamp \<Rightarrow> failure + item" where
  "endpoint_item L P raw as_of result summary e collected source =
     (let name = (if summary then u ''ops_summary'' else u ''readiness'');
          status = status_of L (or_else (get_none e ''status'') (get_none result ''status''))
      in make_item L as_of
        ((draft_of (u ''application'') (u ''application.'' @ name @ u ''.get.v1'') (u ''application_'' @ name @ u ''_observation'')
            (JObj [(u ''http_status'', get_none e ''http_status''), (u ''body_status'', get_none e ''body_status''),
                   (u ''body'', get_none e ''body'')])
            status collected (Some source) (if summary then po_summary_age P else po_readiness_age P)
            (if summary then u ''collector_time_with_upstream_cache_bound'' else u ''collector_time_http_response'')
            (if summary then u ''application_ops_summary_advisory'' else u ''application_readiness'')
            (if summary then u ''Advisory Worker summary backed by a 15 second in-process cache.''
             else u ''HTTP status and body state are preserved independently; no readiness condition is evaluated.''))
          \<lparr>dr_labels := [(u ''endpoint'', py_str (ops L) (or_else (get_none e ''path'') (JStr name)))],
           dr_flags := (if summary then [u ''advisory_source'', u ''upstream_cache_15s''] else []),
           dr_raw := raw, dr_error := or_else (get_none e ''error'') (get_none result ''error''),
           dr_bound := (if summary \<and> status = Ev_ok then po_summary_cache P else Fin 0)\<rparr>))"

definition component_item ::
  "ctllib \<Rightarrow> coll_policy \<Rightarrow> (ustr \<times> ustr) option \<Rightarrow> stamp \<Rightarrow> obj \<Rightarrow> obj \<Rightarrow> stamp \<Rightarrow> stamp \<Rightarrow>
   string \<times> string \<times> string \<Rightarrow> failure + item" where
  "component_item L P raw as_of e body collected source spec =
     (case spec of (component, kind, notes) \<Rightarrow>
        let v = get_none body component; present = (case v of JObj _ \<Rightarrow> True | _ \<Rightarrow> False)
        in make_item L as_of
          ((draft_of (u ''application'') (u ''application.readiness.get.v1'')
              (u ''application_'' @ u component @ u ''_runtime_observation'') (if present then v else JNull)
              (if present then Ev_ok else Ev_missing) collected (Some source) (po_readiness_age P)
              (u ''collector_time_http_response'') (u kind) (u notes))
            \<lparr>dr_labels := [(u ''endpoint'', py_str (ops L) (or_else (get_none e ''path'') (JStr (u ''readiness''))))],
             dr_raw := raw\<rparr>))"

definition component_evidence ::
  "ctllib \<Rightarrow> coll_policy \<Rightarrow> (ustr \<times> ustr) option \<Rightarrow> stamp \<Rightarrow> bool \<Rightarrow> obj \<Rightarrow> stamp \<Rightarrow> stamp \<Rightarrow> item \<Rightarrow> failure + item list" where
  "component_evidence L P raw as_of summary e collected source i =
     (case get_none e ''body'' of
        JObj body \<Rightarrow>
          if \<not> summary \<and> it_status i = Ev_ok
          then each (component_item L P raw as_of e body collected source) runtime_components else Inr []
      | _ \<Rightarrow> Inr [])"

definition endpoint_evidence ::
  "ctllib \<Rightarrow> coll_policy \<Rightarrow> (ustr \<times> ustr) option \<Rightarrow> stamp \<Rightarrow> obj \<Rightarrow> bool \<Rightarrow> failure + item list" where
  "endpoint_evidence L P raw as_of result summary =
     (let e = mapping_or_empty (get_none (mapping_or_empty (get_none result ''data''))
                (if summary then ''ops_summary'' else ''readiness''))
      in rbind (timestamp_or L (get_none e ''collected_at'') as_of) (\<lambda>collected.
         rbind (timestamp_or L (get_none e ''source_timestamp'') collected) (\<lambda>source.
         rbind (endpoint_item L P raw as_of result summary e collected source) (\<lambda>i.
         rbind (component_evidence L P raw as_of summary e collected source i) (\<lambda>is. Inr (i # is))))))"

definition application_evidence ::
  "ctllib \<Rightarrow> coll_policy \<Rightarrow> (ustr \<times> ustr) option \<Rightarrow> stamp \<Rightarrow> obj \<Rightarrow> failure + item list" where
  "application_evidence L P raw as_of result =
     gather [endpoint_evidence L P raw as_of result False, endpoint_evidence L P raw as_of result True]"

definition resource_evidence ::
  "ctllib \<Rightarrow> coll_policy \<Rightarrow> (ustr \<times> ustr) option \<Rightarrow> stamp \<Rightarrow> string \<Rightarrow> string \<Rightarrow> obj \<Rightarrow> string \<Rightarrow> string \<Rightarrow>
   (ustr \<times> ustr) list \<Rightarrow> coverage \<Rightarrow> failure + item" where
  "resource_evidence L P raw as_of tid name resource kind notes ls cov =
     rbind (timestamp_or L (get_none resource ''collected_at'') as_of) (\<lambda>collected.
       make_item L as_of
         ((draft_of (u ''kubernetes'') (u tid) (u name) (get_none resource ''data'')
             (status_of L (get_none resource ''status'')) collected (Some collected) (po_observation_age P)
             (u ''collector_time_kubernetes_api_observation'') (u kind) (u notes))
           \<lparr>dr_labels := ls, dr_coverage := cov, dr_raw := raw, dr_error := get_none resource ''error''\<rparr>))"

definition resource_of :: "obj \<Rightarrow> string \<Rightarrow> obj" where
  "resource_of result k =
     (case get_none (mapping_or_empty (get_none result ''data'')) k of
        JObj d \<Rightarrow> d | _ \<Rightarrow> [(u ''status'', get_none result ''status'')])"

definition json_count :: "json \<Rightarrow> int option" where
  "json_count v = (case v of JInt i \<Rightarrow> Some i | JBool b \<Rightarrow> Some (if b then 1 else 0) | _ \<Rightarrow> None)"

text \<open>The names of the pods that have one; a pod whose metadata is no mapping raises.\<close>

fun pod_names :: "ctllib \<Rightarrow> json list \<Rightarrow> failure + ustr list" where
  "pod_names L [] = Inr []"
| "pod_names L (JObj p # ps) =
     (case get_or p ''metadata'' (JObj []) of
        JObj d \<Rightarrow>
          rbind (pod_names L ps) (\<lambda>ns.
            Inr (if truthy (get_none d ''name'') then py_str (ops L) (get_none d ''name'') # ns else ns))
      | _ \<Rightarrow> Inl Escapes)"
| "pod_names L (v # ps) = pod_names L ps"

definition pod_coverage :: "json \<Rightarrow> ustr list \<Rightarrow> coverage" where
  "pod_coverage desired names =
     no_coverage\<lparr>cv_expected_count := json_count desired, cv_observed_count := Some (int (length names)),
       cv_complete := map_option (\<lambda>n. int (length names) = n) (json_count desired), cv_observed := names,
       cv_notes := Some (u ''Observed Worker pods compared with Deployment spec replicas; no grace evaluation.'')\<rparr>"

definition kubernetes_evidence ::
  "ctllib \<Rightarrow> coll_policy \<Rightarrow> (ustr \<times> ustr) option \<Rightarrow> stamp \<Rightarrow> obj \<Rightarrow> failure + item list" where
  "kubernetes_evidence L P raw as_of result =
     (let deployment = resource_of result ''deployment''; pods = resource_of result ''pods'';
          desired = get_none (mapping_or_empty (get_none deployment ''data'')) ''desired_replicas'';
          mk = resource_evidence L P raw as_of; namespace = (u ''namespace'', po_namespace P)
      in rbind (pod_names L (list_or_empty (get_none pods ''data''))) (\<lambda>names.
         gather
           [the_item (mk ''k8s.worker_deployment.get.v1'' ''kubernetes_worker_deployment_observation'' deployment
              ''worker_deployment_raw_observation''
              ''Desired, current, ready, available, and unavailable replicas are preserved without incident evaluation.''
              [namespace, (u ''deployment'', po_deployment P)] no_coverage),
            the_item (mk ''k8s.worker_pods.list.v1'' ''kubernetes_worker_pod_observations'' pods
              ''worker_pod_runtime_observation''
              ''Pod phase, readiness, restart count, termination, image, and imageID observations.''
              [namespace, (u ''selector'', po_selector P)] (pod_coverage desired names)),
            the_item (mk ''k8s.worker_scaled_object.get.v1'' ''kubernetes_worker_scaled_object_observation''
              (resource_of result ''scaled_object'') ''keda_scaled_object_raw_observation''
              ''KEDA conditions and bounds are collected without interpreting scale-out as an incident.''
              [namespace, (u ''scaled_object'', po_scaled_object P)] no_coverage)]))"

definition argocd_evidence ::
  "ctllib \<Rightarrow> coll_policy \<Rightarrow> (ustr \<times> ustr) option \<Rightarrow> stamp \<Rightarrow> obj \<Rightarrow> failure + item list" where
  "argocd_evidence L P raw as_of result =
     (let status = status_of L (get_none result ''status'')
      in rbind (timestamp_or L (get_none result ''collected_at'') as_of) (\<lambda>collected.
         rbind (if status = Ev_ok then parse_timestamp L (get_none result ''source_timestamp'') else Inr None) (\<lambda>source.
           the_item (make_item L as_of
             ((draft_of (u ''argocd'') (u ''argocd.application.get.v1'') (u ''argocd_application_observation'')
                 (get_none result ''data'') status collected source (po_reconciliation_age P)
                 (u ''argocd_application_reconciled_at'') (u ''gitops_reconciliation_observation'')
                 (u ''Sync, health, and revision freshness uses the Application reconciledAt source timestamp.''))
               \<lparr>dr_labels := [(u ''namespace'', po_argocd_namespace P), (u ''application'', po_argocd_application P)],
                dr_raw := raw, dr_error := get_none result ''error''\<rparr>)))))"

definition unavailable_signals :: "(string \<times> string \<times> string) list" where
  "unavailable_signals =
     [(''exact_postgres_commit_insert_rate'', ''exact_db_persistence_rate'',
       ''No post-commit inserted/deduplicated counter is currently instrumented.''),
      (''postgres_transaction_commit_latency'', ''postgres_commit_latency'',
       ''The db_persist stage excludes request-status update and conn.commit().''),
      (''consumer_rebalance_event'', ''consumer_rebalance_observation'',
       ''The Worker has no rebalance listener metric or event source.''),
      (''cpu_throttling'', ''container_cpu_throttling'',
       ''Prometheus does not currently scrape kubelet/cAdvisor throttling metrics.'')]"

definition unavailable_evidence :: "ctllib \<Rightarrow> stamp \<Rightarrow> failure + item list" where
  "unavailable_evidence L as_of =
     each (\<lambda>(name, kind, notes). make_item L as_of
       (draft_of (u ''instrumentation'') (u ''unsupported.'' @ u name @ u ''.v1'') (u name) JNull Ev_unavailable as_of None
          (Fin 1) (u ''instrumentation_not_present'') (u kind) (u notes))) unavailable_signals"

end
