(* ===== verification/Bundle_Assembly.thy ===== *)
theory Bundle_Assembly
  imports Controller
begin

text \<open>
  The second half of \<open>src/ops_agent/controller.py\<close>: the evidence of a Prometheus collection, the
  runtime context, the status of a collection, and how the bundle is put together and validated.
\<close>

section \<open>Prometheus\<close>

definition text_items :: "ctllib \<Rightarrow> json \<Rightarrow> ustr list" where
  "text_items L v = map (py_str (ops L)) (list_or_empty v)"

definition is_list :: "json \<Rightarrow> bool" where
  "is_list v = (case v of JArr _ \<Rightarrow> True | _ \<Rightarrow> False)"

text \<open>\<open>observed_series\<close>, where it stands for the count of partitions, is an integer or absent.\<close>

definition coverage_from :: "ctllib \<Rightarrow> json \<Rightarrow> coverage" where
  "coverage_from L v =
     (case v of
        JObj d \<Rightarrow>
          (let expected = get_none d ''expected_partition_ids''; observed = get_none d ''observed_partition_ids'';
               notes = (if truthy (get_none d ''duplicate_partition_ids'') then [u ''duplicate_partition_series''] else [])
                 @ (if truthy (get_none d ''series_without_partition_label'') then [u ''series_without_partition_label''] else [])
           in \<lparr>cv_expected_count = (if is_list expected then Some (int (length (text_items L expected))) else None),
               cv_observed_count = (if is_list observed then Some (int (length (text_items L observed)))
                                    else json_count (get_none d ''observed_series'')),
               cv_complete = (case get_none d ''complete'' of JBool b \<Rightarrow> Some b | _ \<Rightarrow> None),
               cv_expected = text_items L expected, cv_observed = text_items L observed,
               cv_missing = text_items L (get_none d ''missing_partition_ids''),
               cv_extra = text_items L (get_none d ''unexpected_partition_ids''),
               cv_notes = (if notes = [] then None else Some (join (u '', '') notes))\<rparr>)
      | _ \<Rightarrow> no_coverage)"

text \<open>The flag of an anomaly, unless it belongs to other labels than those asked for.\<close>

definition anomaly_flags :: "ctllib \<Rightarrow> obj option \<Rightarrow> json \<Rightarrow> ustr list" where
  "anomaly_flags L ls v =
     (case v of
        JObj a \<Rightarrow>
          (let other = (case (ls, get_none a ''labels'') of (Some d, JObj e) \<Rightarrow> \<not> py_eq (JObj e) (JObj d) | _ \<Rightarrow> False);
               kind = py_str (ops L) (or_else (get_none a ''type'') (JStr (u ''metric_anomaly'')))
           in if other then []
              else [if kind = u ''negative_value'' then u ''negative_value_preserved_not_zero'' else kind])
      | _ \<Rightarrow> [])"

definition coverage_flags :: "obj \<Rightarrow> ustr list" where
  "coverage_flags q =
     (case get_none q ''coverage'' of
        JObj c \<Rightarrow> emit (get_none c ''complete'' = JBool False) (u ''partial_partition_coverage'') | _ \<Rightarrow> [])"

definition semantic_flags :: "obj \<Rightarrow> ustr list" where
  "semantic_flags q =
     (case get_none q ''semantic'' of
        JObj s \<Rightarrow>
          emit (get_none s ''includes_transaction_commit'' = JBool False) (u ''excludes_transaction_commit'')
          @ emit (get_none s ''is_isolated_postgresql_commit_latency'' = JBool False)
              (u ''not_isolated_postgresql_commit_latency'')
      | _ \<Rightarrow> [])"

definition timestamp_flags :: "obj \<Rightarrow> ustr list" where
  "timestamp_flags q =
     (case get_none q ''freshness'' of
        JObj f \<Rightarrow>
          emit (get_none f ''query_status'' = JStr (u ''ERROR'')) (u ''source_timestamp_query_error'')
          @ emit (get_none f ''query_status'' = JStr (u ''MISSING'')) (u ''source_timestamp_missing'')
          @ (case get_none f ''coverage'' of
               JObj c \<Rightarrow> emit (get_none c ''labels_match_range'' = JBool False) (u ''source_timestamp_coverage_mismatch'')
             | _ \<Rightarrow> [])
      | _ \<Rightarrow> [])"

definition prometheus_flags :: "ctllib \<Rightarrow> obj \<Rightarrow> obj option \<Rightarrow> json \<Rightarrow> failure + ustr list" where
  "prometheus_flags L q ls mismatch =
     rbind (iterate (get_or q ''anomalies'' (JArr []))) (\<lambda>anomalies.
       Inr (sorted_set (coverage_flags q @ emit (mismatch = JBool True) (u ''partition_set_mismatch'')
              @ concat (map (anomaly_flags L ls) anomalies) @ semantic_flags q @ timestamp_flags q)))"

definition prometheus_source_timestamp :: "ctllib \<Rightarrow> obj \<Rightarrow> failure + stamp option" where
  "prometheus_source_timestamp L q =
     (case get_none q ''freshness'' of
        JObj f \<Rightarrow>
          (case get_none f ''coverage'' of
             JObj c \<Rightarrow>
               if get_none c ''labels_match_range'' \<noteq> JBool True then Inr None
               else if get_none f ''query_status'' \<noteq> JStr (u ''OK'')
                       \<or> get_none f ''status'' \<notin> {JStr (u ''FRESH''), JStr (u ''STALE'')} then Inr None
               else parse_timestamp L (get_none f ''source_timestamp'')
           | _ \<Rightarrow> Inr None)
      | _ \<Rightarrow> Inr None)"

text \<open>What the items of a query share: the tool, the times, the semantics, the window and the coverage.\<close>

definition query_item ::
  "ctllib \<Rightarrow> coll_policy \<Rightarrow> (ustr \<times> ustr) option \<Rightarrow> stamp \<Rightarrow> stamp \<Rightarrow> json \<Rightarrow> obj \<Rightarrow> stamp option \<Rightarrow> int \<Rightarrow> ustr \<Rightarrow> json \<Rightarrow>
   (ustr \<times> ustr) list \<Rightarrow> int \<Rightarrow> obj option \<Rightarrow> failure + item" where
  "query_item L P raw as_of collected mismatch q source window name v ls n flag_labels =
     (let semantic = mapping_or_empty (get_none q ''semantic'')
      in rbind (prometheus_flags L q flag_labels mismatch) (\<lambda>flags.
         make_item L as_of
           ((draft_of (u ''prometheus'') (u ''prometheus.'' @ py_str (ops L) (get_none q ''query_id'') @ u ''.range.v1'') name v
               (status_of L (get_none q ''status'')) collected source (po_sample_age P) (u ''prometheus_timestamp_function'')
               (py_str (ops L) (or_else (get_none semantic ''type'') (JStr (u ''prometheus_metric_range''))))
               (py_str (ops L) (or_else (get_none semantic ''notes'') (JStr (u ''Fixed Prometheus range query.'')))))
             \<lparr>dr_labels := ls,
              dr_unit := (if truthy (get_none q ''unit'') then Some (py_str (ops L) (get_none q ''unit'')) else None),
              dr_window := Some (py_str_int window @ u ''s''), dr_aggregation := Some (u ''raw_range_samples''),
              dr_count := Some n, dr_coverage := coverage_from L (get_none q ''coverage''), dr_flags := flags,
              dr_commit_rate := map_option truthy (get_key semantic ''is_db_commit_rate''), dr_raw := raw,
              dr_error := get_none q ''error''\<rparr>)))"

definition series_item ::
  "ctllib \<Rightarrow> coll_policy \<Rightarrow> (ustr \<times> ustr) option \<Rightarrow> stamp \<Rightarrow> stamp \<Rightarrow> json \<Rightarrow> obj \<Rightarrow> stamp option \<Rightarrow> int \<Rightarrow> json \<Rightarrow>
   failure + item list" where
  "series_item L P raw as_of collected mismatch q source window v =
     (case v of
        JObj s \<Rightarrow>
          (let ls = mapping_or_empty (get_none s ''labels''); samples = list_or_empty (get_none s ''samples'');
               name = py_str (ops L) (or_else (get_none ls ''__name__'') (or_else (get_none q ''metric_name'') (get_none q ''query_id'')))
           in the_item (query_item L P raw as_of collected mismatch q source window name (JArr samples)
                (map (\<lambda>(k, x). (k, py_str (ops L) x)) ls) (int (length samples)) (Some ls)))
      | _ \<Rightarrow> Inr [])"

definition empty_query_item ::
  "ctllib \<Rightarrow> coll_policy \<Rightarrow> (ustr \<times> ustr) option \<Rightarrow> stamp \<Rightarrow> stamp \<Rightarrow> json \<Rightarrow> obj \<Rightarrow> stamp option \<Rightarrow> int \<Rightarrow>
   failure + item list" where
  "empty_query_item L P raw as_of collected mismatch q source window =
     rbind (py_int (or_else (get_none q ''sample_count'') (JInt 0))) (\<lambda>n.
       the_item (query_item L P raw as_of collected mismatch q source window
         (py_str (ops L) (or_else (or_else (get_none q ''metric_name'') (get_none q ''query_id'')) (JStr (u ''unknown_metric''))))
         (JArr []) [(u ''topic'', po_topic P), (u ''consumer_group'', po_group P)] n None))"

definition query_evidence ::
  "ctllib \<Rightarrow> coll_policy \<Rightarrow> (ustr \<times> ustr) option \<Rightarrow> stamp \<Rightarrow> json \<Rightarrow> json \<Rightarrow> json \<Rightarrow> failure + item list" where
  "query_evidence L P raw as_of collected_at mismatch v =
     (case v of
        JObj q \<Rightarrow>
          (let series = list_or_empty (get_none q ''series'')
           in rbind (py_int (or_else (get_none (mapping_or_empty (get_none q ''window'')) ''duration_seconds'')
                       (JInt (po_range_window P)))) (\<lambda>window.
              rbind (prometheus_source_timestamp L q) (\<lambda>source.
              if series = []
              then rbind (timestamp_or L collected_at as_of) (\<lambda>collected.
                     empty_query_item L P raw as_of collected mismatch q source window)
              else gather (map (\<lambda>s. rbind (timestamp_or L collected_at as_of) (\<lambda>collected.
                     series_item L P raw as_of collected mismatch q source window s)) series))))
      | _ \<Rightarrow> Inr [])"

definition prometheus_evidence ::
  "ctllib \<Rightarrow> coll_policy \<Rightarrow> (ustr \<times> ustr) option \<Rightarrow> stamp \<Rightarrow> obj \<Rightarrow> failure + item list" where
  "prometheus_evidence L P raw as_of result =
     (let mismatch = get_none (mapping_or_empty (get_none result ''partition_coverage'')) ''partition_mismatch'';
          collected_at = get_none result ''collected_at''
      in rbind (gather (map (query_evidence L P raw as_of collected_at mismatch) (list_or_empty (get_none result ''queries''))))
        (\<lambda>items.
          if items \<noteq> [] then Inr items
          else rbind (timestamp_or L collected_at as_of) (\<lambda>collected.
            the_item (make_item L as_of
              ((draft_of (u ''prometheus'') (u ''prometheus.fixed_registry.collect.v1'') (u ''prometheus_collection'') JNull
                  (status_of L (get_none result ''status'')) collected None (po_sample_age P)
                  (u ''prometheus_timestamp_function'') (u ''prometheus_fixed_registry_collection'')
                  (u ''No fixed query result was returned.''))
                \<lparr>dr_raw := raw,
                 dr_error := or_else (get_none result ''error'')
                   (JStr (u ''Prometheus collector returned no query results''))\<rparr>)))))"

section \<open>The runtime context\<close>

definition identifier_char :: "nat \<Rightarrow> bool" where
  "identifier_char c \<longleftrightarrow> is_alnum c \<or> one_of ''._:/@+=-'' c"

definition safe_runtime_identifier :: "ctllib \<Rightarrow> json \<Rightarrow> ustr option" where
  "safe_runtime_identifier L v =
     (case v of
        JStr s \<Rightarrow>
          if \<not> (1 \<le> length s \<and> length s \<le> 1024 \<and> list_all identifier_char s) then None
          else if sanitize L s \<noteq> s \<or> contains (sanitize L s) ''[REDACTED]'' then None else Some s
      | _ \<Rightarrow> None)"

definition safe_git_revision :: "json \<Rightarrow> ustr option" where
  "safe_git_revision v =
     (case v of
        JStr s \<Rightarrow> if 6 \<le> length s \<and> length s \<le> 64 \<and> list_all (\<lambda>c. is_hex [lower_char c]) s then Some s else None
      | _ \<Rightarrow> None)"

definition container_values :: "ctllib \<Rightarrow> string \<Rightarrow> json list \<Rightarrow> ustr list" where
  "container_values L k cs =
     List.map_filter (\<lambda>c. case c of JObj d \<Rightarrow> safe_runtime_identifier L (get_none d k) | _ \<Rightarrow> None) cs"

type_synonym results = "(ustr \<times> obj) list"

definition result_of :: "results \<Rightarrow> string \<Rightarrow> obj" where
  "result_of rs k = (case map_of rs (u k) of Some r \<Rightarrow> r | None \<Rightarrow> [])"

definition pod_containers :: "json \<Rightarrow> failure + json list" where
  "pod_containers v = (case v of JObj p \<Rightarrow> iterate (get_or p ''containers'' (JArr [])) | _ \<Rightarrow> Inr [])"

definition runtime_context :: "ctllib \<Rightarrow> results \<Rightarrow> failure + ustr option \<times> ustr list \<times> ustr option" where
  "runtime_context L rs =
     (let k8s = mapping_or_empty (get_none (result_of rs ''kubernetes'') ''data'');
          deployment = mapping_or_empty (get_none (mapping_or_empty (get_none k8s ''deployment'')) ''data'');
          pods = list_or_empty (get_none (mapping_or_empty (get_none k8s ''pods'')) ''data'');
          argo = mapping_or_empty (get_none (result_of rs ''argocd'') ''data'');
          revision = (case get_none argo ''application'' of JObj a \<Rightarrow> safe_git_revision (get_none a ''revision'') | _ \<Rightarrow> None)
      in rbind (iterate (get_or deployment ''desired_containers'' (JArr []))) (\<lambda>cs.
         rbind (gather (map pod_containers pods)) (\<lambda>pcs.
           let images = container_values L ''image'' cs
           in Inr (if length images = 1 then Some (hd images) else None,
                   sorted_set (container_values L ''image_id'' pcs), revision))))"

section \<open>The status of a collection\<close>

definition is_status :: "string \<Rightarrow> json \<Rightarrow> bool" where
  "is_status s v = (case v of JObj d \<Rightarrow> get_none d ''status'' = JStr (u s) | _ \<Rightarrow> False)"

definition applicable :: "results \<Rightarrow> results" where
  "applicable rs = filter (\<lambda>(k, r). get_none r ''status'' \<noteq> JStr (u ''NOT_APPLICABLE'')) rs"

definition unsound :: "obj \<Rightarrow> bool" where
  "unsound r \<longleftrightarrow> get_none r ''status'' \<noteq> JStr (u ''OK'') \<or> truthy (get_none r ''partial'')"

definition some_member_ok :: "json \<Rightarrow> bool" where
  "some_member_ok v = (case v of JObj d \<Rightarrow> list_ex (\<lambda>kv. is_status ''OK'' (snd kv)) d | _ \<Rightarrow> False)"

definition observed_anything :: "results \<Rightarrow> bool" where
  "observed_anything rs \<longleftrightarrow>
     some_member_ok (get_none (result_of rs ''application'') ''data'')
     \<or> list_ex (is_status ''OK'') (list_or_empty (get_none (result_of rs ''prometheus'') ''queries''))
     \<or> some_member_ok (get_none (result_of rs ''kubernetes'') ''data'')
     \<or> get_none (result_of rs ''argocd'') ''status'' = JStr (u ''OK'')"

definition collection_status_of :: "results \<Rightarrow> collection_status" where
  "collection_status_of rs =
     (if \<not> list_ex (\<lambda>(k, r). unsound r) (applicable rs) then Coll_complete
      else if observed_anything (applicable rs) then Coll_partial else Coll_failed)"

section \<open>The bundle\<close>

text \<open>
  What git and the file system say about the source tree, where artifacts go, and which of them
  could not be written, with the class of the error.
\<close>

record surroundings =
  su_revision :: "ustr option"
  su_dirty :: "bool option"
  su_tree :: "ustr option"
  su_root :: ustr
  su_fault :: "ustr \<Rightarrow> ustr option"

definition raw_ref :: "ctllib \<Rightarrow> surroundings \<Rightarrow> ustr \<Rightarrow> results \<Rightarrow> string \<Rightarrow> (ustr \<times> ustr) option" where
  "raw_ref L S bundle_id rs k =
     (case map_of rs (u k) of
        None \<Rightarrow> None
      | Some r \<Rightarrow>
          if su_fault S (u k) \<noteq> None then None
          else (let a = write_raw_artifact (ops L) (alnum L) (su_root S) bundle_id (u k) (JObj r)
                in Some (af_path a, af_sha256 a)))"

definition endpoint_identity_item :: "ctllib \<Rightarrow> stamp \<Rightarrow> ustr \<times> obj \<Rightarrow> failure + item" where
  "endpoint_identity_item L completed x =
     (let status = status_of L (get_none (snd x) ''status'')
      in make_item L completed
        ((draft_of (u ''collector_configuration'') (u ''collector.endpoint.identity.v1'') (u ''source_endpoint_identity'')
            (if status = Ev_ok then get_none (snd x) ''value'' else JNull) status completed
            (if status = Ev_ok then Some completed else None) (Fin 1) (u ''collector_time_endpoint_configuration'')
            (u ''effective_source_endpoint_identity'')
            (u (''Canonical transport URL and Host routing used by the collector; ''
                @ ''this records configuration provenance, not remote server identity.'')))
          \<lparr>dr_labels := [(u ''collector_source'', fst x)],
           dr_flags := [u ''configuration_provenance'', u ''credentials_excluded''],
           dr_error := get_none (snd x) ''error''\<rparr>))"

definition artifact_error_item :: "ctllib \<Rightarrow> stamp \<Rightarrow> ustr \<times> ustr \<Rightarrow> failure + item" where
  "artifact_error_item L completed x =
     make_item L completed
       ((draft_of (u ''artifact_store'') (u ''artifact.raw.write.v1'') (u ''raw_artifact_write'') JNull Ev_error completed
           None (Fin 1) (u ''artifact_write_failed'') (u ''raw_artifact_persistence_error'')
           (u ''Normalized evidence remains available; the redacted raw artifact was not persisted.''))
         \<lparr>dr_labels := [(u ''collector_source'', fst x)],
          dr_error := JObj [(u ''type'', JStr (snd x)),
                            (u ''message'', JStr (u ''redacted raw artifact could not be written''))]\<rparr>)"

definition artifact_errors :: "surroundings \<Rightarrow> results \<Rightarrow> (ustr \<times> ustr) list" where
  "artifact_errors S rs = List.map_filter (\<lambda>(k, r). map_option (\<lambda>e. (k, e)) (su_fault S k)) rs"

definition assembled_evidence ::
  "ctllib \<Rightarrow> coll_policy \<Rightarrow> surroundings \<Rightarrow> results \<Rightarrow> ustr \<Rightarrow> stamp \<Rightarrow> (ustr \<times> obj) list \<Rightarrow> failure + item list" where
  "assembled_evidence L P S rs bundle_id completed endpoints =
     (let raw = raw_ref L S bundle_id rs
      in gather
        [application_evidence L P (raw ''application'') completed (result_of rs ''application''),
         prometheus_evidence L P (raw ''prometheus'') completed (result_of rs ''prometheus''),
         kubernetes_evidence L P (raw ''kubernetes'') completed (result_of rs ''kubernetes''),
         argocd_evidence L P (raw ''argocd'') completed (result_of rs ''argocd''),
         unavailable_evidence L completed,
         each (endpoint_identity_item L completed) (sort_key fst endpoints),
         each (artifact_error_item L completed) (artifact_errors S rs)])"

definition final_status :: "surroundings \<Rightarrow> results \<Rightarrow> collection_status" where
  "final_status S rs =
     (if artifact_errors S rs \<noteq> [] \<and> collection_status_of rs = Coll_complete then Coll_partial
      else collection_status_of rs)"

definition build_bundle_from_results ::
  "ctllib \<Rightarrow> coll_policy \<Rightarrow> surroundings \<Rightarrow> results \<Rightarrow> ustr \<Rightarrow> ustr option \<Rightarrow> ustr \<Rightarrow> stamp \<Rightarrow> stamp \<Rightarrow> (ustr \<times> obj) list \<Rightarrow>
   failure + evidence_bundle" where
  "build_bundle_from_results L P S rs incident_id context bundle_id started completed endpoints =
     rbind (assembled_evidence L P S rs bundle_id completed endpoints) (\<lambda>items.
     rbind (runtime_context L rs) (\<lambda>(image, images, revision).
       let b = \<lparr>bu_id = bundle_id, bu_incident = incident_id, bu_profile = po_profile P,
                bu_scope = \<lparr>sc_context = context, sc_namespace = po_namespace P, sc_topic = po_topic P, sc_group = po_group P\<rparr>,
                bu_context = \<lparr>bc_source_sha = su_revision S, bc_source_dirty = su_dirty S, bc_tree_sha = su_tree S,
                  bc_desired_image = image, bc_pod_images = images, bc_argocd_revision = revision,
                  bc_collector_version = u ''0.7.0'', bc_registry_version = u ''ops.readonly.v1'',
                  bc_policy_version = po_version P\<rparr>,
                bu_collection = \<lparr>co_started = started, co_completed = completed, co_status = final_status S rs\<rparr>,
                bu_evidence = items\<rparr>
       in case validate_bundle b of Inl _ \<Rightarrow> Inl Escapes | Inr b \<Rightarrow> Inr b))"

section \<open>A collection\<close>

text \<open>What a collector does: it returns its result or raises an exception of some class, with its text.\<close>

datatype outcome = Returned obj | Raised ustr ustr

fun raised :: "outcome \<Rightarrow> bool" where
  "raised (Raised _ _) = True"
| "raised (Returned _) = False"

text \<open>
  The context of the cluster: known, not to be had (with the result that says so), or refused as
  invalid.
\<close>

datatype kube_context = Known ustr | Unknown obj | Invalid ustr

text \<open>
  The collectors as functions of what they are asked: URL and Host header, or the context. The
  instants at which the collection starts, ends and gives up on a source are those of the clock.
\<close>

record collectors =
  cl_application :: "ustr \<Rightarrow> ustr option \<Rightarrow> outcome"
  cl_prometheus :: "ustr \<Rightarrow> ustr option \<Rightarrow> outcome"
  cl_context :: kube_context
  cl_kubernetes :: "ustr \<Rightarrow> outcome"
  cl_argocd :: "ustr option \<Rightarrow> outcome"
  cl_started :: stamp
  cl_completed :: stamp
  cl_gave_up :: "ustr \<Rightarrow> stamp"

definition utc_text :: "stamp \<Rightarrow> ustr" where
  "utc_text t = isoformat \<lparr>micros = micros t, utc_offset = None\<rparr> @ u ''Z''"

definition failure_obj :: "ustr \<Rightarrow> ustr \<Rightarrow> json" where
  "failure_obj k msg = JObj [(u ''type'', JStr k), (u ''message'', JStr msg)]"

definition collector_error :: "ctllib \<Rightarrow> string \<Rightarrow> ustr \<Rightarrow> ustr \<Rightarrow> stamp \<Rightarrow> obj" where
  "collector_error L source k msg t =
     [(u ''source'', JStr (u source)), (u ''status'', JStr (u ''ERROR'')), (u ''partial'', JBool False),
      (u ''collected_at'', JStr (utc_text t)), (u ''data'', JObj []),
      (u ''error'', failure_obj k
         (take 500 (sanitize L (if msg = [] then u source @ u '' collection failed'' else msg))))]"

definition context_result :: "kube_context \<Rightarrow> obj" where
  "context_result c =
     (case c of
        Known k \<Rightarrow> [(u ''status'', JStr (u ''OK'')), (u ''context'', JStr k), (u ''error'', JNull)]
      | Unknown d \<Rightarrow> d
      | Invalid msg \<Rightarrow> [(u ''status'', JStr (u ''ERROR'')), (u ''context'', JNull),
                         (u ''error'', failure_obj (u ''ValueError'') msg)])"

definition kubernetes_skipped :: "kube_context \<Rightarrow> stamp \<Rightarrow> obj" where
  "kubernetes_skipped c t =
     (let e = failure_obj (u ''ContextUnavailable'') (u ''Kubernetes GET skipped because the context is unavailable'');
          resource = JObj [(u ''status'', JStr (u ''ERROR'')), (u ''collected_at'', JStr (utc_text t)),
                           (u ''data'', JNull), (u ''error'', e)]
      in [(u ''source'', JStr (u ''kubernetes_api_via_kubectl'')), (u ''status'', JStr (u ''ERROR'')),
          (u ''partial'', JBool False), (u ''collected_at'', JStr (utc_text t)), (u ''context'', JObj (context_result c)),
          (u ''data'', JObj (map (\<lambda>k. (u k, resource)) [''deployment'', ''pods'', ''scaled_object''])), (u ''error'', e)])"

definition argocd_skipped :: "stamp \<Rightarrow> obj" where
  "argocd_skipped t =
     [(u ''source'', JStr (u ''argocd_application_cr'')), (u ''status'', JStr (u ''ERROR'')), (u ''partial'', JBool False),
      (u ''collected_at'', JStr (utc_text t)),
      (u ''data'', JObj [(u ''applicability'', JStr (u ''APPLICABLE'')), (u ''application'', JNull)]),
      (u ''error'', failure_obj (u ''ContextUnavailable'')
         (u ''Argo CD GET skipped because the Kubernetes context is unavailable''))]"

definition effective_context :: "kube_context \<Rightarrow> ustr option" where
  "effective_context c = (case c of Known k \<Rightarrow> Some k | _ \<Rightarrow> None)"

text \<open>
  The effective endpoint of a source: an operator's URL replaces the policy's and drops its Host
  header.
\<close>

definition effective_endpoint :: "ustr option \<Rightarrow> ustr \<Rightarrow> ustr option \<Rightarrow> ustr \<times> ustr option \<times> ustr" where
  "effective_endpoint override url host =
     (case override of
        Some x \<Rightarrow> if x = [] then (url, None, u ''operator_override'') else (x, None, u ''operator_override'')
      | None \<Rightarrow> (url, host, u ''policy''))"

definition outcomes :: "coll_policy \<Rightarrow> collectors \<Rightarrow> ustr option \<Rightarrow> ustr option \<Rightarrow> (string \<times> outcome) list" where
  "outcomes P A app prom =
     (let (app_url, app_host, _) = effective_endpoint app (po_application_url P) (po_application_host P);
          (prom_url, prom_host, _) = effective_endpoint prom (po_prometheus_url P) (po_prometheus_host P);
          c = effective_context (cl_context A)
      in [(''application'', cl_application A app_url app_host),
          (''prometheus'', cl_prometheus A prom_url prom_host),
          (''kubernetes'', case c of None \<Rightarrow> Returned (kubernetes_skipped (cl_context A) (cl_gave_up A (u ''kubernetes'')))
                             | Some k \<Rightarrow> cl_kubernetes A k),
          (''argocd'', if po_argocd_enabled P \<and> c = None then Returned (argocd_skipped (cl_gave_up A (u ''argocd'')))
                        else cl_argocd A c)])"

text \<open>The name under which a collector reports an error of its own.\<close>

definition reported_source :: "string \<Rightarrow> string" where
  "reported_source s =
     (if s = ''application'' then ''application_http''
      else if s = ''kubernetes'' then ''kubernetes_api_via_kubectl''
      else if s = ''argocd'' then ''argocd_application_cr'' else s)"

definition settle :: "ctllib \<Rightarrow> collectors \<Rightarrow> string \<times> outcome \<Rightarrow> ustr \<times> obj" where
  "settle L A x =
     (case x of
        (s, Returned r) \<Rightarrow> (u s, r)
      | (s, Raised k msg) \<Rightarrow> (u s, collector_error L (reported_source s) k msg (cl_gave_up A (u s))))"

definition provenance_obj :: "safe_provenance \<Rightarrow> obj" where
  "provenance_obj p =
     (case p of
        Provenance_ok e \<Rightarrow>
          [(u ''status'', JStr (u ''OK'')),
           (u ''value'', JObj [(u ''identity_version'', JStr endpoint_identity_version), (u ''base_url'', JStr (ei_base_url e)),
              (u ''host_header'', jopt JStr (ei_host_header e)), (u ''configuration_source'', JStr (ei_configuration e)),
              (u ''identity_sha256'', JStr (ei_sha256 e))]),
           (u ''error'', JNull)]
      | Provenance_error k \<Rightarrow>
          [(u ''status'', JStr (u ''ERROR'')), (u ''value'', JNull),
           (u ''error'', failure_obj k (u ''effective endpoint identity could not be recorded safely''))])"

definition endpoint_identities :: "ctllib \<Rightarrow> coll_policy \<Rightarrow> ustr option \<Rightarrow> ustr option \<Rightarrow> (ustr \<times> obj) list" where
  "endpoint_identities L P app prom =
     (let identity = (\<lambda>e. case e of (url, host, from) \<Rightarrow> provenance_obj (safe_endpoint_provenance (ops L) url host from))
      in [(u ''application'', identity (effective_endpoint app (po_application_url P) (po_application_host P))),
          (u ''prometheus'', identity (effective_endpoint prom (po_prometheus_url P) (po_prometheus_host P)))])"

definition observed_context :: "ctllib \<Rightarrow> kube_context \<Rightarrow> results \<Rightarrow> ustr option" where
  "observed_context L c rs =
     (case get_none (result_of rs ''kubernetes'') ''context'' of
        JObj d \<Rightarrow>
          if get_none d ''status'' = JStr (u ''OK'') then Some (py_str (ops L) (get_none d ''context''))
          else (case effective_context c of Some [] \<Rightarrow> None | k \<Rightarrow> k)
      | _ \<Rightarrow> (case effective_context c of Some [] \<Rightarrow> None | k \<Rightarrow> k))"

definition collect_bundle ::
  "ctllib \<Rightarrow> coll_policy \<Rightarrow> surroundings \<Rightarrow> collectors \<Rightarrow> ustr \<Rightarrow> ustr option \<Rightarrow> ustr option \<Rightarrow> ustr \<Rightarrow>
   failure + evidence_bundle" where
  "collect_bundle L P S A incident_id app prom bundle_id =
     (let rs = map (settle L A) (outcomes P A app prom)
      in build_bundle_from_results L P S rs incident_id (observed_context L (cl_context A) rs) bundle_id
           (cl_started A) (cl_completed A) (endpoint_identities L P app prom))"

end
