(* ===== verification/Prometheus_Facts.thy ===== *)
theory Prometheus_Facts
  imports Prometheus
begin

text \<open>
  What a Prometheus collection guarantees: complete coverage is a bijection with the expected
  partitions, a family is fresh only by its oldest source time, a caught failure never ends a
  collection, and a result that is neither partial nor failed rests on seven usable queries.
\<close>

section \<open>Coverage\<close>

lemma set_sort_labels [simp]: "set (sort_labels qs) = set qs"
  by (auto simp: sort_labels_def)

lemma distinct_sort_labels [simp]: "distinct (sort_labels qs) \<longleftrightarrow> distinct qs"
proof -
  have "mset (filter P qs) + mset (filter (\<lambda>q. \<not> P q) qs) = mset qs" for P :: "ustr \<Rightarrow> bool"
    by (induction qs) auto
  from this [of "\<lambda>q. py_int_text q \<noteq> None"] have "mset (sort_labels qs) = mset qs"
    by (simp add: sort_labels_def)
  then show ?thesis by (metis mset_eq_imp_distinct_iff)
qed

lemma sort_labels_Nil [simp]: "sort_labels qs = [] \<longleftrightarrow> qs = []"
  by (metis set_empty set_sort_labels)

lemma length_map_filter_le: "length (List.map_filter f xs) \<le> length xs"
  by (induction xs) (simp_all add: List.map_filter_simps le_SucI split: option.split)

lemma repeated_labels: "filter (\<lambda>q. count_list qs q > 1) (remdups qs) = [] \<longleftrightarrow> distinct qs"
proof
  assume *: "filter (\<lambda>q. count_list qs q > 1) (remdups qs) = []"
  have "count (mset qs) q \<le> 1" for q
    using * by (cases "q \<in> set qs") (auto simp: filter_empty_conv count_mset not_less count_list_0_iff)
  then show "distinct qs"
    by (metis distinct_count_atmost_1 count_mset_0_iff le_0_eq le_Suc_eq One_nat_def in_multiset_in_set not_in_iff)
next
  assume "distinct qs"
  then show "filter (\<lambda>q. count_list qs q > 1) (remdups qs) = []"
    by (simp add: filter_empty_conv distinct_count_atmost_1 count_mset not_less)
qed

lemma complete_iff:
  assumes "distinct es"
  shows "pk_complete (partition_coverage (Some es) xs) =
           Some (mset (partition_labels xs) = mset es \<and> length (partition_labels xs) = length xs)"
proof -
  have "length (partition_labels xs) \<le> length xs"
    by (simp add: partition_labels_def length_map_filter_le)
  moreover have "mset qs = mset es \<longleftrightarrow> distinct qs \<and> set qs = set es" for qs
    using assms by (metis mset_eq_imp_distinct_iff mset_eq_setD set_eq_iff_mset_eq_distinct)
  ultimately show ?thesis
    using repeated_labels [of "partition_labels xs"]
    by (auto simp: partition_coverage_def Let_def filter_empty_conv)
qed

lemma normalise_expected_distinct: "normalise_expected vs = Inr (Some es) \<Longrightarrow> distinct es"
  by (auto simp: normalise_expected_def guard_eq_Inr split: option.splits)

text \<open>
  C31: with expected partitions as the configuration accepts them, a family's coverage is complete
  exactly when every series names its partition and the partitions named are the expected ones, each
  once: a duplicate, a missing, an unexpected or an unlabelled series each make it incomplete.
\<close>

theorem coverage_complete_iff_partitions_match:
  "case normalise_expected vs of
     Inr (Some es) \<Rightarrow>
       pk_complete (partition_coverage (Some es) xs) =
         Some (mset (partition_labels xs) = mset es \<and> length (partition_labels xs) = length xs)
   | _ \<Rightarrow> True"
  by (auto simp: complete_iff dest: normalise_expected_distinct split: sum.split option.split)

section \<open>Freshness\<close>

text \<open>Every epoch of a source row is a finite double with an instant of its own.\<close>

lemma each_Inr_set: "each f xs = Inr ys \<Longrightarrow> y \<in> set ys \<Longrightarrow> \<exists>x\<in>set xs. f x = Inr y"
  by (induction xs arbitrary: ys) (auto simp: rbind_eq_Inr)

lemma length_each: "each f xs = Inr ys \<Longrightarrow> length ys = length xs"
  by (induction xs arbitrary: ys) (auto simp: rbind_eq_Inr)

lemma source_row_epoch: "source_row O' v = Inr (x, s) \<Longrightarrow> from_epoch x \<noteq> None"
  by (auto simp: source_row_def rbind_eq_Inr rfc3339_def split: json.splits option.splits)

lemma from_epoch_finite: "from_epoch x \<noteq> None \<Longrightarrow> f_val x \<noteq> None"
  by (auto simp: from_epoch_def split: option.splits)

lemma f_less_val: "f_val a = Some p \<Longrightarrow> f_val b = Some q \<Longrightarrow> f_less a b \<longleftrightarrow> p < q"
  by (cases a; cases b) (auto simp: f_less_def f_less_eq_def f_val_def)

lemma f_less_eq_val: "f_val a = Some p \<Longrightarrow> f_val b = Some q \<Longrightarrow> f_less_eq a b \<longleftrightarrow> p \<le> q"
  by (cases a; cases b) (auto simp: f_less_eq_def f_val_def)

lemma f_sub_val: "f_val b = f_val c \<Longrightarrow> f_val b \<noteq> None \<Longrightarrow> f_sub a b = f_sub a c"
  by (cases b; cases c) (auto simp: f_sub_def f_val_def)

lemma fold_pick_in: "foldl (\<lambda>m x. if P x m then x else m) a xs \<in> insert a (set xs)"
  by (induction xs arbitrary: a) (simp_all, blast)

lemma foldl_min_le:
  assumes "f_val a \<noteq> None" "\<forall>x\<in>set xs. f_val x \<noteq> None" "x \<in> insert a (set xs)"
  shows "f_less_eq (foldl (\<lambda>m x. if f_less x m then x else m) a xs) x"
  using assms
proof (induction xs arbitrary: a x)
  case Nil
  then show ?case by (auto simp: f_less_eq_val)
next
  case (Cons y ys)
  let ?b = "if f_less y a then y else a" and ?f = "foldl (\<lambda>m x. if f_less x m then x else m)"
  from Cons.prems(1,2) obtain p q where v: "f_val a = Some p" "f_val y = Some q" by auto
  have fin: "f_val ?b \<noteq> None" "\<forall>x\<in>set ys. f_val x \<noteq> None" using Cons.prems by auto
  then have all: "z \<in> insert ?b (set ys) \<Longrightarrow> f_less_eq (?f ?b ys) z" for z by (rule Cons.IH)
  have "?f ?b ys \<in> insert ?b (set ys)" by (rule fold_pick_in)
  with fin obtain r where r: "f_val (?f ?b ys) = Some r" by fastforce
  from all [of ?b] r v have "r \<le> min p q" by (auto simp: f_less_val f_less_eq_val split: if_splits)
  with r v all Cons.prems(3) show ?case by (auto simp: f_less_eq_val simp del: foldl_Cons) (auto simp: f_less_eq_val)
qed

lemma min_float_oldest:
  assumes "xs \<noteq> []" "\<forall>x\<in>set xs. f_val x \<noteq> None"
  shows "min_float xs \<in> set xs" "x \<in> set xs \<Longrightarrow> f_less_eq (min_float xs) x"
  using assms fold_pick_in [of "f_less" "hd xs" "tl xs"] foldl_min_le [of "hd xs" "tl xs" x]
  by (cases xs; simp add: min_float_def)+

lemma max_float_in: "xs \<noteq> [] \<Longrightarrow> max_float xs \<in> set xs"
  using fold_pick_in [of "\<lambda>x m. f_less m x" "hd xs" "tl xs"] by (cases xs) (simp_all add: max_float_def)

lemma same_counts_iff: "same_counts xs ys \<longleftrightarrow> mset xs = mset ys"
proof -
  have "count_list xs a = count_list ys a" if "same_counts xs ys" for a
    using that by (cases "a \<in> set xs \<union> set ys") (auto simp: same_counts_def list_all_iff count_list_0_iff)
  then show ?thesis by (auto simp: same_counts_def list_all_iff multiset_eq_iff count_mset)
qed

definition usable_age :: "collector \<Rightarrow> pyfloat \<Rightarrow> bool" where
  "usable_age C age \<longleftrightarrow>
     \<not> f_less age (f_neg future_tolerance) \<and> f_less_eq (if f_less (Fin 0) age then age else Fin 0) (pc_max_age C)"

definition same_identities :: "metric_series list \<Rightarrow> (pyfloat \<times> source_series) list \<Rightarrow> bool" where
  "same_identities xs rows \<longleftrightarrow>
     xs = [] \<or> mset (map (\<lambda>x. series_identity (mx_labels x)) xs) = mset (map (\<lambda>r. series_identity (ss_labels (snd r))) rows)"

lemma rows_finite: "\<forall>r\<in>set rows. from_epoch (fst r) \<noteq> None \<Longrightarrow> \<forall>x\<in>set (map fst rows). f_val x \<noteq> None"
  using from_epoch_finite by (metis image_iff list.set_map)

lemma freshness_result_dated:
  assumes "\<forall>r\<in>set rows. from_epoch (fst r) \<noteq> None"
  shows "\<exists>f. freshness_result C now xs rows = Inr f
    \<and> (tf_status f = Fresh \<longleftrightarrow>
         rows \<noteq> [] \<and> same_identities xs rows \<and> usable_age C (f_sub now (min_float (map fst rows))))"
proof (cases "rows = []")
  case True
  then show ?thesis by (simp add: freshness_result_def Let_def)
next
  case False
  have dated: "\<exists>t. rfc3339 x = Inr t" if "x \<in> set (map fst rows)" for x
    using that assms by (auto simp: rfc3339_def)
  have fin: "\<forall>x\<in>set (map fst rows). f_val x \<noteq> None" using assms by (rule rows_finite)
  obtain a b where "rfc3339 (min_float (map fst rows)) = Inr a" "rfc3339 (max_float (map fst rows)) = Inr b"
    using False dated min_float_oldest(1) [OF _ fin] max_float_in [of "map fst rows"] by fastforce
  with False show ?thesis
    by (simp add: freshness_result_def Let_def same_counts_iff same_identities_def usable_age_def)
qed

lemma usable_min:
  assumes "rows \<noteq> []" "\<forall>x\<in>set rows. f_val x \<noteq> None"
  shows "P (f_sub now (min_float rows)) \<longleftrightarrow> list_ex (\<lambda>t. list_all (f_less_eq t) rows \<and> P (f_sub now t)) rows"
proof -
  have m: "min_float rows \<in> set rows" "\<forall>x\<in>set rows. f_less_eq (min_float rows) x"
    using min_float_oldest [OF assms] by blast+
  have "f_sub now t = f_sub now (min_float rows)" if "t \<in> set rows" "list_all (f_less_eq t) rows" for t
  proof (rule f_sub_val)
    from that m assms obtain p q where v: "f_val t = Some p" "f_val (min_float rows) = Some q" by fastforce
    moreover from that m have "f_less_eq t (min_float rows)" "f_less_eq (min_float rows) t" by (auto simp: list_all_iff)
    ultimately show "f_val t = f_val (min_float rows)" by (simp add: f_less_eq_val)
    from v show "f_val t \<noteq> None" by simp
  qed
  then have "(\<exists>t\<in>set rows. list_all (f_less_eq t) rows \<and> P (f_sub now t)) \<longleftrightarrow> P (f_sub now (min_float rows))"
    using m by (metis list_all_iff)
  then show ?thesis by (simp only: list_ex_iff)
qed

text \<open>
  C30: whatever the rows of a timestamp answer are, once they are accepted the freshness of the family
  is decided, and it is fresh exactly when there are rows, they carry the same series as the range
  answer (if that has any), and the oldest of the source times is neither later than the collector's
  clock beyond the tolerance nor older than the configured age. A single stale series is enough to
  keep a family from being fresh.
\<close>

theorem fresh_iff_oldest_source_recent:
  "case each (source_row O') js of
     Inl _ \<Rightarrow> True
   | Inr rows \<Rightarrow>
       (case freshness_result C now xs rows of
          Inl _ \<Rightarrow> False
        | Inr f \<Rightarrow>
            tf_status f = Fresh \<longleftrightarrow>
              rows \<noteq> [] \<and> same_identities xs rows
              \<and> list_ex (\<lambda>t. list_all (f_less_eq t) (map fst rows) \<and> usable_age C (f_sub now t)) (map fst rows))"
proof (cases "each (source_row O') js")
  case (Inr rows)
  then have dated: "\<forall>r\<in>set rows. from_epoch (fst r) \<noteq> None"
    by (metis each_Inr_set prod.collapse source_row_epoch)
  obtain f where f: "freshness_result C now xs rows = Inr f"
    "tf_status f = Fresh \<longleftrightarrow>
       rows \<noteq> [] \<and> same_identities xs rows \<and> usable_age C (f_sub now (min_float (map fst rows)))"
    using freshness_result_dated [OF dated] by blast
  have "\<forall>x\<in>set (map fst rows). f_val x \<noteq> None" using dated by (rule rows_finite)
  then have "rows \<noteq> [] \<Longrightarrow> usable_age C (f_sub now (min_float (map fst rows))) \<longleftrightarrow>
      list_ex (\<lambda>t. list_all (f_less_eq t) (map fst rows) \<and> usable_age C (f_sub now t)) (map fst rows)"
    by (intro usable_min) simp_all
  with f show ?thesis unfolding Inr by (simp only: sum.case f(1)) blast
qed simp

section \<open>Collections\<close>

lemma rfc3339_Inl: "rfc3339 x = Inl f \<Longrightarrow> f = Escapes"
  by (auto simp: rfc3339_def split: option.splits)

lemma rbind_eq_Inl: "rbind r k = Inl f \<longleftrightarrow> r = Inl f \<or> (\<exists>x. r = Inr x \<and> k x = Inl f)"
  by (cases r) simp_all

lemma window_texts_Inl: "window_texts a b = Inl f \<Longrightarrow> f = Escapes"
  by (auto simp: window_texts_def rbind_eq_Inl dest: rfc3339_Inl)

lemma recover_Inl: "recover r h = Inl f \<Longrightarrow> f = Escapes \<or> (\<exists>msg. h msg = Inl f)"
  by (auto simp: recover_def split: sum.splits failure.splits)

lemma collect_query_Inl: "collect_query O' C now a b q x y = Inl f \<Longrightarrow> f = Escapes"
  by (auto simp: collect_query_def rbind_eq_Inl error_result_def dest!: recover_Inl dest: window_texts_Inl)

lemma normalise_query_query: "normalise_query O' C q a b d = Inr r \<Longrightarrow> qr_query r = q"
  by (auto simp: normalise_query_def rbind_eq_Inr)

lemma error_result_query: "error_result C q a b msg = Inr r \<Longrightarrow> qr_query r = q"
  by (auto simp: error_result_def rbind_eq_Inr)

lemma collect_query_query: "collect_query O' C now a b q x y = Inr r \<Longrightarrow> qr_query r = q"
proof -
  assume "collect_query O' C now a b q x y = Inr r"
  then obtain r' f where r': "recover (rbind (read_json x) (normalise_query O' C q a b)) (error_result C q a b) = Inr r'"
    and "r = r'\<lparr>qr_freshness := Some f\<rparr>"
    unfolding collect_query_def rbind_eq_Inr by blast
  moreover from r' have "qr_query r' = q"
    by (auto simp: recover_def rbind_eq_Inr split: sum.splits failure.splits
        dest: normalise_query_query error_result_query)
  ultimately show ?thesis by simp
qed

lemma each_Inl: "each f xs = Inl e \<Longrightarrow> \<exists>x\<in>set xs. f x = Inl e"
  by (induction xs) (auto simp: rbind_eq_Inl)

lemma each_keeps: "each f xs = Inr ys \<Longrightarrow> (\<And>x y. f x = Inr y \<Longrightarrow> g y = x) \<Longrightarrow> map g ys = xs"
  by (induction xs arbitrary: ys) (auto simp: rbind_eq_Inr)

definition usable_query :: "query_result \<Rightarrow> bool" where
  "usable_query r \<longleftrightarrow>
     qr_status r = Ev_ok
     \<and> (case qr_freshness r of None \<Rightarrow> False | Some f \<Rightarrow> tf_query f = Ev_ok \<and> tf_status f \<noteq> Fresh_unknown)"

lemma query_impaired_iff: "query_impaired r \<longleftrightarrow> \<not> usable_query r"
  by (auto simp: query_impaired_def usable_query_def split: option.splits)

lemma overall_complete:
  "rs \<noteq> [] \<Longrightarrow> overall rs = Ev_ok \<and> \<not> list_ex query_impaired rs \<longleftrightarrow> list_all usable_query rs"
  by (cases rs) (auto simp: overall_def query_impaired_iff list_ex_iff list_all_iff usable_query_def)

text \<open>
  No failure the collector knows of ends a collection: only an exception of another kind does.
  Otherwise the result answers every fixed query in their order, and it is OK and not partial exactly
  when each query was answered with samples and its source times are known.
\<close>

theorem collection_survives_failed_queries:
  "case collect O' C now stop answers of
     Inl f \<Rightarrow> f = Escapes
   | Inr r \<Rightarrow>
       map qr_query (pr_queries r) = fixed_queries (pc_topic C) (pc_group C)
       \<and> (pr_status r = Ev_ok \<and> \<not> pr_partial r \<longleftrightarrow> list_all usable_query (pr_queries r))"
proof (cases "collect O' C now stop answers")
  case (Inl f)
  then have "f = Escapes"
    by (auto simp: collect_def Let_def rbind_eq_Inl summarise_def dest!: each_Inl dest: rfc3339_Inl window_texts_Inl
        collect_query_Inl split: prod.splits)
  then show ?thesis by (simp add: Inl)
next
  case (Inr r)
  then obtain a b rs where
    rs: "each (\<lambda>q. case answers q of (x, y) \<Rightarrow> collect_query O' C now a b q x y) (fixed_queries (pc_topic C) (pc_group C)) = Inr rs"
    and r: "pr_queries r = rs" "pr_status r = overall rs" "pr_partial r \<longleftrightarrow> overall rs = Ev_ok \<and> list_ex query_impaired rs"
    by (auto simp: collect_def Let_def rbind_eq_Inr summarise_def)
  from rs have q: "map qr_query rs = fixed_queries (pc_topic C) (pc_group C)"
    by (rule each_keeps) (auto split: prod.splits dest: collect_query_query)
  then have "rs \<noteq> []" by (auto simp: fixed_queries_def Let_def)
  with overall_complete [of rs] r q show ?thesis by (auto simp: Inr)
qed

end
