(* ===== verification/Bundle_Facts.thy ===== *)
theory Bundle_Facts
  imports Bundle_Assembly Prometheus_Facts
begin

text \<open>
  What the controller guarantees of a bundle: every item is redacted, carries an error exactly when
  its status is one and is dated only by its own evidence; every source leaves evidence whatever its
  collector does; and a collection is complete only when nothing failed.
\<close>

section \<open>Items\<close>

definition sanitized :: "ctllib \<Rightarrow> ustr \<Rightarrow> bool" where
  "sanitized L s \<longleftrightarrow> (\<exists>t. s = sanitize L t)"

definition clean_item :: "ctllib \<Rightarrow> item \<Rightarrow> bool" where
  "clean_item L i \<longleftrightarrow>
     hidden (ops L) (sanitized L) (me_value (it_metric i))
     \<and> list_all (\<lambda>(k, v). if sensitive_key (ops L) k then v = redacted else sanitized L v) (it_labels i)
     \<and> sanitized L (se_notes (it_semantic i))
     \<and> (it_error i \<noteq> None \<longleftrightarrow> it_status i = Ev_error)
     \<and> (fr_status (it_freshness i) \<in> {Fresh, Stale} \<longrightarrow> it_status i = Ev_ok \<and> it_source_ts i \<noteq> None)"

definition from_source :: "ctllib \<Rightarrow> string \<Rightarrow> item \<Rightarrow> bool" where
  "from_source L s i \<longleftrightarrow> clean_item L i \<and> it_source i = u s"

lemma draft_of_fields [simp]:
  "dr_source (draft_of s k n v st c t m b ty no) = s" "dr_status (draft_of s k n v st c t m b ty no) = st"
  by (simp_all add: draft_of_def)

lemma freshness_of_status:
  "fr_status (freshness_of st t c m b a z) \<in> {Fresh, Stale} \<Longrightarrow> st = Ev_ok \<and> t \<noteq> None"
  by (auto simp: freshness_of_def no_freshness_def split: if_splits option.splits)

lemma hidden_redact: "hidden (ops L) (sanitized L) (redact (ops L) (alnum L) v)"
  using redact_hidden [of "ops L" "alnum L" v] by (simp add: sanitized_def [abs_def] sanitize_def [abs_def])

lemma error_detail_present: "error_detail d e = Inr e' \<Longrightarrow> dr_status d = Ev_error \<Longrightarrow> e' \<noteq> None"
  by (auto simp: error_detail_def rbind_eq_Inr split: if_splits)

lemma make_item_Inr:
  "make_item L as_of d = Inr i \<Longrightarrow> \<exists>e. i = item_of L as_of d e \<and> item_ok i \<and> (dr_status d = Ev_error \<longrightarrow> e \<noteq> None)"
  unfolding make_item_def Let_def rbind_eq_Inr guard_eq_Inr using error_detail_present by blast

lemma make_item_clean:
  assumes "make_item L as_of d = Inr i"
  shows "clean_item L i" "it_source i = dr_source d" "it_status i = dr_status d" "item_ok i"
proof -
  from assms obtain e where i: "i = item_of L as_of d e" "item_ok i" and e: "dr_status d = Ev_error \<longrightarrow> e \<noteq> None"
    using make_item_Inr by blast
  then show "it_source i = dr_source d" "it_status i = dr_status d" "item_ok i" by (simp_all add: item_of_def Let_def)
  show "clean_item L i"
    using e freshness_of_status [of "dr_status d" "dr_source_ts d" "dr_collected d" "dr_max_age d" "dr_basis d" as_of "dr_bound d"]
    unfolding clean_item_def i(1)
    by (auto simp: item_of_def Let_def hidden_redact safe_labels_def list_all_iff sanitized_def)
qed

lemma make_item_from: "make_item L as_of d = Inr i \<Longrightarrow> dr_source d = u s \<Longrightarrow> from_source L s i"
  by (simp add: from_source_def make_item_clean)

section \<open>Builders\<close>

lemma gather_members:
  "gather (map f xs) = Inr ys \<Longrightarrow> y \<in> set ys \<Longrightarrow> \<exists>x\<in>set xs. \<exists>zs. f x = Inr zs \<and> y \<in> set zs"
  by (induction xs arbitrary: ys) (auto simp: rbind_eq_Inr)

lemma gather_map_all:
  "gather (map f xs) = Inr ys \<Longrightarrow> (\<And>x zs. x \<in> set xs \<Longrightarrow> f x = Inr zs \<Longrightarrow> list_all Q zs) \<Longrightarrow> list_all Q ys"
  unfolding list_all_iff using gather_members by metis

lemma gather_Nil: "gather xs = Inr [] \<Longrightarrow> x \<in> set xs \<Longrightarrow> x = Inr []"
  by (induction xs) (auto simp: rbind_eq_Inr)

lemma gather_part: "gather xs = Inr ys \<Longrightarrow> x \<in> set xs \<Longrightarrow> \<exists>zs. x = Inr zs \<and> set zs \<subseteq> set ys"
  by (induction xs arbitrary: ys) (fastforce simp: rbind_eq_Inr)+

lemma the_item_Inr: "the_item x = Inr is \<longleftrightarrow> (\<exists>i. x = Inr i \<and> is = [i])"
  by (auto simp: the_item_def rbind_eq_Inr)

lemma each_all: "each f xs = Inr ys \<Longrightarrow> (\<And>x y. x \<in> set xs \<Longrightarrow> f x = Inr y \<Longrightarrow> Q y) \<Longrightarrow> list_all Q ys"
  unfolding list_all_iff using each_Inr_set by metis

lemma endpoint_item_from: "endpoint_item L P raw as_of r b e c t = Inr i \<Longrightarrow> from_source L ''application'' i"
  unfolding endpoint_item_def Let_def by (erule make_item_from) simp

lemma component_item_from: "component_item L P raw as_of e body c t x = Inr i \<Longrightarrow> from_source L ''application'' i"
  unfolding component_item_def Let_def by (cases x; simp; erule make_item_from) simp

lemma component_evidence_from:
  "component_evidence L P raw as_of b e c t i = Inr is \<Longrightarrow> list_all (from_source L ''application'') is"
  by (auto simp: component_evidence_def split: json.splits if_splits elim!: each_all component_item_from)

lemma application_evidence_from:
  assumes "application_evidence L P raw as_of r = Inr is"
  shows "list_all (from_source L ''application'') is" "is \<noteq> []"
proof -
  have *: "list_all (from_source L ''application'') js \<and> js \<noteq> []" if "endpoint_evidence L P raw as_of r b = Inr js" for b js
    using that unfolding endpoint_evidence_def Let_def rbind_eq_Inr
    by (elim exE conjE) (auto dest: endpoint_item_from component_evidence_from)
  with assms show "list_all (from_source L ''application'') is" "is \<noteq> []"
    by (auto simp: application_evidence_def rbind_eq_Inr)
qed

lemma query_item_from:
  "query_item L P raw as_of c m q t w name v ls n fl = Inr i \<Longrightarrow> from_source L ''prometheus'' i"
  unfolding query_item_def Let_def rbind_eq_Inr by (elim exE conjE) (erule make_item_from, simp)

lemma prometheus_evidence_from:
  assumes "prometheus_evidence L P raw as_of r = Inr is"
  shows "list_all (from_source L ''prometheus'') is" "is \<noteq> []"
proof -
  have series: "list_all (from_source L ''prometheus'') js" if "series_item L P raw as_of c m q t w s = Inr js" for c m q t w s js
    using that by (auto simp: series_item_def Let_def the_item_Inr split: json.splits dest: query_item_from)
  have empty: "list_all (from_source L ''prometheus'') js" if "empty_query_item L P raw as_of c m q t w = Inr js" for c m q t w js
    using that by (auto simp: empty_query_item_def rbind_eq_Inr the_item_Inr dest: query_item_from)
  have query: "list_all (from_source L ''prometheus'') js" if q: "query_evidence L P raw as_of c m q = Inr js" for c m q js
  proof (cases "\<exists>d. q = JObj d \<and> list_or_empty (get_none d ''series'') \<noteq> []")
    case True
    then obtain d w t where "gather (map (\<lambda>s. rbind (timestamp_or L c as_of) (\<lambda>collected.
        series_item L P raw as_of collected m d t w s)) (list_or_empty (get_none d ''series''))) = Inr js"
      using q by (auto simp: query_evidence_def Let_def rbind_eq_Inr)
    then show ?thesis by (rule gather_map_all) (auto simp: rbind_eq_Inr dest: series)
  next
    case False
    then show ?thesis
      using q by (auto simp: query_evidence_def Let_def rbind_eq_Inr split: json.splits dest: empty)
  qed
  from assms obtain js where js: "gather (map (query_evidence L P raw as_of (get_none r ''collected_at'')
        (get_none (mapping_or_empty (get_none r ''partition_coverage'')) ''partition_mismatch''))
        (list_or_empty (get_none r ''queries''))) = Inr js"
    and "js \<noteq> [] \<and> is = js \<or> (\<exists>c. the_item (make_item L as_of
              ((draft_of (u ''prometheus'') (u ''prometheus.fixed_registry.collect.v1'') (u ''prometheus_collection'') JNull
                  (status_of L (get_none r ''status'')) c None (po_sample_age P)
                  (u ''prometheus_timestamp_function'') (u ''prometheus_fixed_registry_collection'')
                  (u ''No fixed query result was returned.''))
                \<lparr>dr_raw := raw,
                 dr_error := or_else (get_none r ''error'')
                   (JStr (u ''Prometheus collector returned no query results''))\<rparr>)) = Inr is)"
    unfolding prometheus_evidence_def Let_def rbind_eq_Inr
    by (elim exE conjE) (auto simp: rbind_eq_Inr split: if_splits)
  moreover have "list_all (from_source L ''prometheus'') js" using js by (rule gather_map_all) (rule query)
  ultimately show "list_all (from_source L ''prometheus'') is" "is \<noteq> []"
    by (auto simp: the_item_Inr elim!: make_item_from)
qed

lemma resource_evidence_from: "resource_evidence L P raw as_of k n r t no ls c = Inr i \<Longrightarrow> from_source L ''kubernetes'' i"
  unfolding resource_evidence_def rbind_eq_Inr by (elim exE conjE) (erule make_item_from, simp)

lemma kubernetes_evidence_from:
  assumes "kubernetes_evidence L P raw as_of r = Inr is"
  shows "list_all (from_source L ''kubernetes'') is" "is \<noteq> []"
  using assms unfolding kubernetes_evidence_def Let_def rbind_eq_Inr
  by (auto simp: rbind_eq_Inr the_item_Inr dest!: resource_evidence_from)

lemma argocd_evidence_from:
  assumes "argocd_evidence L P raw as_of r = Inr is"
  shows "list_all (from_source L ''argocd'') is" "is \<noteq> []"
proof -
  show "list_all (from_source L ''argocd'') is"
    using assms unfolding argocd_evidence_def Let_def rbind_eq_Inr the_item_Inr
    by (elim exE conjE) (simp, erule make_item_from, simp)
  show "is \<noteq> []" using assms unfolding argocd_evidence_def Let_def rbind_eq_Inr the_item_Inr by blast
qed

lemma unavailable_evidence_from:
  assumes "unavailable_evidence L as_of = Inr is"
  shows "list_all (from_source L ''instrumentation'') is" "is \<noteq> []"
proof -
  show "list_all (from_source L ''instrumentation'') is"
    using assms unfolding unavailable_evidence_def by (rule each_all) (auto intro: make_item_from)
  have "length is = length unavailable_signals"
    using assms unfolding unavailable_evidence_def by (rule length_each)
  then show "is \<noteq> []" by (auto simp: unavailable_signals_def)
qed

lemma endpoint_identities_from:
  "each (endpoint_identity_item L t) es = Inr is \<Longrightarrow> list_all (from_source L ''collector_configuration'') is"
  by (erule each_all) (auto simp: endpoint_identity_item_def Let_def elim!: make_item_from)

lemma artifact_errors_from:
  "each (artifact_error_item L t) es = Inr is \<Longrightarrow>
     list_all (from_source L ''artifact_store'') is \<and> length is = length es"
  by (auto simp: artifact_error_item_def length_each elim!: make_item_from each_all)

section \<open>Bundles\<close>

text \<open>The evidence of a bundle, source by source.\<close>

definition evidence_from :: "evidence_bundle \<Rightarrow> string \<Rightarrow> item list" where
  "evidence_from b s = filter (\<lambda>i. it_source i = u s) (bu_evidence b)"

lemma only_source:
  "list_all (from_source L s) is \<Longrightarrow> filter (\<lambda>i. it_source i = u t) is = (if s = t then is else [])"
  by (auto simp: list_all_iff from_source_def filter_id_conv filter_empty_conv)

lemma from_source_clean: "list_all (from_source L s) is \<Longrightarrow> list_all (clean_item L) is"
  by (auto simp: list_all_iff from_source_def)

lemma gather_seven:
  "gather [a, b, c, d, e, f, g] = Inr is \<Longrightarrow>
     \<exists>a' b' c' d' e' f' g'. a = Inr a' \<and> b = Inr b' \<and> c = Inr c' \<and> d = Inr d' \<and> e = Inr e' \<and> f = Inr f' \<and> g = Inr g'
       \<and> is = a' @ b' @ c' @ d' @ e' @ f' @ g'"
  by (auto simp: rbind_eq_Inr)

lemma build_bundle_Inr:
  assumes "build_bundle_from_results L P S rs incident_id c bundle_id started completed es = Inr b"
  shows "assembled_evidence L P S rs bundle_id completed es = Inr (bu_evidence b)" "bundle_ok b"
    "co_status (bu_collection b) = final_status S rs"
  using assms
  by (auto simp: build_bundle_from_results_def validate_bundle_def Let_def rbind_eq_Inr split: if_splits prod.splits)

lemma evidence_of_sources:
  assumes "build_bundle_from_results L P S rs incident_id c bundle_id started completed es = Inr b"
  shows "application_evidence L P (raw_ref L S bundle_id rs ''application'') completed (result_of rs ''application'')
           = Inr (evidence_from b ''application'')" (is "?A")
    "prometheus_evidence L P (raw_ref L S bundle_id rs ''prometheus'') completed (result_of rs ''prometheus'')
           = Inr (evidence_from b ''prometheus'')" (is "?P")
    "kubernetes_evidence L P (raw_ref L S bundle_id rs ''kubernetes'') completed (result_of rs ''kubernetes'')
           = Inr (evidence_from b ''kubernetes'')" (is "?K")
    "argocd_evidence L P (raw_ref L S bundle_id rs ''argocd'') completed (result_of rs ''argocd'')
           = Inr (evidence_from b ''argocd'')" (is "?G")
    "evidence_from b ''instrumentation'' \<noteq> []" (is "?I")
    "length (evidence_from b ''artifact_store'') = length (artifact_errors S rs)" (is "?F")
    "list_all (clean_item L) (bu_evidence b)" (is "?C")
proof -
  obtain a p k g n e x where parts:
    "application_evidence L P (raw_ref L S bundle_id rs ''application'') completed (result_of rs ''application'') = Inr a"
    "prometheus_evidence L P (raw_ref L S bundle_id rs ''prometheus'') completed (result_of rs ''prometheus'') = Inr p"
    "kubernetes_evidence L P (raw_ref L S bundle_id rs ''kubernetes'') completed (result_of rs ''kubernetes'') = Inr k"
    "argocd_evidence L P (raw_ref L S bundle_id rs ''argocd'') completed (result_of rs ''argocd'') = Inr g"
    "unavailable_evidence L completed = Inr n"
    "each (endpoint_identity_item L completed) (sort_key fst es) = Inr e"
    "each (artifact_error_item L completed) (artifact_errors S rs) = Inr x"
    "bu_evidence b = a @ p @ k @ g @ n @ e @ x"
    using gather_seven [OF build_bundle_Inr(1) [OF assms, unfolded assembled_evidence_def Let_def]] by blast
  note from_parts = application_evidence_from(1) [OF parts(1)] prometheus_evidence_from(1) [OF parts(2)]
    kubernetes_evidence_from(1) [OF parts(3)] argocd_evidence_from(1) [OF parts(4)]
    unavailable_evidence_from(1) [OF parts(5)] endpoint_identities_from [OF parts(6)]
    artifact_errors_from [OF parts(7), THEN conjunct1]
  note select = from_parts [THEN only_source]
  show ?A ?P ?K ?G unfolding evidence_from_def parts filter_append select by simp_all
  show ?I using unavailable_evidence_from(2) [OF parts(5)] unfolding evidence_from_def parts filter_append select by simp
  show ?F using artifact_errors_from [OF parts(7)] unfolding evidence_from_def parts filter_append select by simp
  show ?C using from_parts [THEN from_source_clean] unfolding parts list_all_append by blast
qed

section \<open>Collectors that raise\<close>

lemma reported_failure [simp]:
  "get_none (collector_error L s k m t) ''data'' = JObj []"
  "get_none (collector_error L s k m t) ''status'' = JStr (u ''ERROR'')"
  by (simp_all add: collector_error_def text_simps)

lemma no_queries [simp]: "get_none (collector_error L s k m t) ''queries'' = JNull"
  by (simp add: collector_error_def text_simps)

lemma status_of_error [simp]: "status_of L (JStr (u ''ERROR'')) = Ev_error"
  by (simp add: status_of_def all_statuses_def)

lemma empty_mapping [simp]: "mapping_or_empty (JObj d) = d" "mapping_or_empty JNull = []" "get_none [] k = JNull" "list_or_empty JNull = []"
  "or_else JNull v = v"
  by (simp_all add: mapping_or_empty_def text_simps list_or_empty_def or_else_def)

lemma application_raised:
  assumes "application_evidence L P raw as_of (collector_error L s k m t) = Inr is"
  shows "list_all (\<lambda>i. it_status i = Ev_error) is"
proof -
  have "list_all (\<lambda>i. it_status i = Ev_error) js" if "endpoint_evidence L P raw as_of (collector_error L s k m t) b = Inr js" for b js
    using that
    by (auto simp: endpoint_evidence_def Let_def rbind_eq_Inr component_evidence_def endpoint_item_def dest!: make_item_clean(3))
  with assms show ?thesis by (auto simp: application_evidence_def rbind_eq_Inr)
qed

lemma prometheus_raised:
  "prometheus_evidence L P raw as_of (collector_error L s k m t) = Inr is \<Longrightarrow> list_all (\<lambda>i. it_status i = Ev_error) is"
  by (auto simp: prometheus_evidence_def Let_def rbind_eq_Inr the_item_Inr dest!: make_item_clean(3))

lemma kubernetes_raised:
  "kubernetes_evidence L P raw as_of (collector_error L s k m t) = Inr is \<Longrightarrow> list_all (\<lambda>i. it_status i = Ev_error) is"
  unfolding kubernetes_evidence_def Let_def rbind_eq_Inr
  by (auto simp: rbind_eq_Inr the_item_Inr resource_evidence_def resource_of_def text_simps dest!: make_item_clean(3))

lemma argocd_raised:
  "argocd_evidence L P raw as_of (collector_error L s k m t) = Inr is \<Longrightarrow> list_all (\<lambda>i. it_status i = Ev_error) is"
  by (auto simp: argocd_evidence_def Let_def rbind_eq_Inr the_item_Inr dest!: make_item_clean(3))

definition raised_sources :: "coll_policy \<Rightarrow> collectors \<Rightarrow> ustr option \<Rightarrow> ustr option \<Rightarrow> string list" where
  "raised_sources P A app prom = map fst (filter (\<lambda>x. raised (snd x)) (outcomes P A app prom))"

lemma outcome_names: "map fst (outcomes P A app prom) = [''application'', ''prometheus'', ''kubernetes'', ''argocd'']"
  by (simp add: outcomes_def Let_def split: prod.split)

lemma fst_settle [simp]: "fst (settle L A x) = u (fst x)"
  by (simp add: settle_def split: prod.split outcome.split)

lemma settled_results:
  assumes "(s, x) \<in> set (outcomes P A app prom)"
  shows "result_of (map (settle L A) (outcomes P A app prom)) s = snd (settle L A (s, x))"
proof -
  let ?rs = "map (settle L A) (outcomes P A app prom)"
  have "map fst ?rs = map u (map fst (outcomes P A app prom))" by simp
  then have "distinct (map fst ?rs)" by (simp only: outcome_names) simp
  moreover have "settle L A (s, x) \<in> set ?rs" using assms by simp
  then have "(u s, snd (settle L A (s, x))) \<in> set ?rs" by (metis fst_conv fst_settle prod.collapse)
  ultimately have "map_of ?rs (u s) = Some (snd (settle L A (s, x)))" by (rule map_of_is_SomeI)
  then show ?thesis by (simp add: result_of_def)
qed

lemma raised_cases:
  assumes "s \<in> set (raised_sources P A app prom)"
  shows "\<exists>k msg. (s, Raised k msg) \<in> set (outcomes P A app prom)
    \<and> s \<in> {''application'', ''prometheus'', ''kubernetes'', ''argocd''}"
proof -
  from assms obtain x where x: "(s, x) \<in> set (outcomes P A app prom)" "raised x" by (auto simp: raised_sources_def)
  then have "s \<in> set (map fst (outcomes P A app prom))" by force
  then have "s \<in> {''application'', ''prometheus'', ''kubernetes'', ''argocd''}" by (simp only: outcome_names) simp
  with x show ?thesis by (auto elim!: raised.elims)
qed

lemma raised_unsound:
  assumes "rs = map (settle L A) (outcomes P A app prom)" "(s, Raised k msg) \<in> set (outcomes P A app prom)"
  shows "collection_status_of rs \<noteq> Coll_complete"
proof -
  have "settle L A (s, Raised k msg) \<in> set rs" using assms by force
  then have "settle L A (s, Raised k msg) \<in> set (applicable rs)" by (auto simp: applicable_def settle_def)
  moreover have "unsound (snd (settle L A (s, Raised k msg)))" by (simp add: unsound_def settle_def)
  ultimately have "list_ex (\<lambda>(k, r). unsound r) (applicable rs)" by (auto simp: list_ex_iff split_beta)
  then show ?thesis by (simp add: collection_status_of_def)
qed

lemma final_status_complete:
  "final_status S rs = Coll_complete \<longleftrightarrow> artifact_errors S rs = [] \<and> collection_status_of rs = Coll_complete"
  by (auto simp: final_status_def)

lemma raised_evidence:
  assumes built: "build_bundle_from_results L P S rs incident_id c bundle_id started completed es = Inr b"
    and r: "result_of rs s = collector_error L q k msg t" and "s \<in> {''application'', ''prometheus'', ''kubernetes'', ''argocd''}"
  shows "evidence_from b s \<noteq> [] \<and> list_all (\<lambda>i. it_status i = Ev_error) (evidence_from b s)"
proof -
  note sources = evidence_of_sources [OF built]
  from assms(3) consider "s = ''application''" | "s = ''prometheus''" | "s = ''kubernetes''" | "s = ''argocd''" by blast
  then show ?thesis
  proof cases
    case 1
    with sources(1) r have "application_evidence L P (raw_ref L S bundle_id rs s) completed (collector_error L q k msg t)
        = Inr (evidence_from b s)" by simp
    then show ?thesis using application_evidence_from(2) application_raised by blast
  next
    case 2
    with sources(2) r have "prometheus_evidence L P (raw_ref L S bundle_id rs s) completed (collector_error L q k msg t)
        = Inr (evidence_from b s)" by simp
    then show ?thesis using prometheus_evidence_from(2) prometheus_raised by blast
  next
    case 3
    with sources(3) r have "kubernetes_evidence L P (raw_ref L S bundle_id rs s) completed (collector_error L q k msg t)
        = Inr (evidence_from b s)" by simp
    then show ?thesis using kubernetes_evidence_from(2) kubernetes_raised by blast
  next
    case 4
    with sources(4) r have "argocd_evidence L P (raw_ref L S bundle_id rs s) completed (collector_error L q k msg t)
        = Inr (evidence_from b s)" by simp
    then show ?thesis using argocd_evidence_from(2) argocd_raised by blast
  qed
qed

text \<open>
  C19: a collector that raises does not disappear from the bundle. Whatever its exception, when a
  bundle is built its source has evidence, each item of it is an ERROR with a detail, and the
  collection is not COMPLETE; the other sources are collected all the same.
\<close>

theorem raised_collectors_leave_errors:
  "case collect_bundle L P S A incident_id app prom bundle_id of
     Inl _ \<Rightarrow> True
   | Inr b \<Rightarrow>
       list_all (\<lambda>s. evidence_from b s \<noteq> []
           \<and> list_all (\<lambda>i. it_status i = Ev_error \<and> it_error i \<noteq> None) (evidence_from b s)
           \<and> co_status (bu_collection b) \<noteq> Coll_complete)
         (raised_sources P A app prom)"
proof (cases "collect_bundle L P S A incident_id app prom bundle_id")
  case (Inr b)
  define rs where "rs = map (settle L A) (outcomes P A app prom)"
  have built: "build_bundle_from_results L P S rs incident_id (observed_context L (cl_context A) rs) bundle_id (cl_started A)
      (cl_completed A) (endpoint_identities L P app prom) = Inr b"
    using Inr by (simp add: collect_bundle_def rs_def Let_def)
  have "evidence_from b s \<noteq> [] \<and> list_all (\<lambda>i. it_status i = Ev_error) (evidence_from b s)
      \<and> co_status (bu_collection b) \<noteq> Coll_complete" if "s \<in> set (raised_sources P A app prom)" for s
  proof -
    from raised_cases [OF that] obtain k msg where s: "(s, Raised k msg) \<in> set (outcomes P A app prom)"
      "s \<in> {''application'', ''prometheus'', ''kubernetes'', ''argocd''}" by blast
    have r: "result_of rs s = collector_error L (reported_source s) k msg (cl_gave_up A (u s))"
      using settled_results [OF s(1), of L] by (simp add: settle_def rs_def)
    show ?thesis
      using raised_evidence [OF built r s(2)] raised_unsound [OF rs_def s(1)] build_bundle_Inr(3) [OF built] by (simp add: final_status_complete)
  qed
  moreover have "it_error i \<noteq> None" if "i \<in> set (evidence_from b s)" "it_status i = Ev_error" for i s
    using that evidence_of_sources(7) [OF built] by (auto simp: evidence_from_def list_all_iff clean_item_def)
  ultimately show ?thesis by (auto simp: Inr list_all_iff)
qed simp

text \<open>
  C20: a bundle the controller builds satisfies the contract of its model; all its evidence is clean:
  values, labels and notes are redacted, an item has an error exactly when its status is ERROR, and
  only an OK item with a source time is called fresh or stale. Each of the four collectors and the
  signals without instrumentation leave evidence, whatever the results, and every artifact that could
  not be written leaves an item.
\<close>

theorem built_bundle_is_clean_and_accounts_for_sources:
  "case build_bundle_from_results L P S rs incident_id c bundle_id started completed es of
     Inl _ \<Rightarrow> True
   | Inr b \<Rightarrow>
       bundle_ok b \<and> list_all (clean_item L) (bu_evidence b)
       \<and> list_all (\<lambda>s. evidence_from b s \<noteq> []) [''application'', ''prometheus'', ''kubernetes'', ''argocd'', ''instrumentation'']
       \<and> length (evidence_from b ''artifact_store'') = length (artifact_errors S rs)"
proof (cases "build_bundle_from_results L P S rs incident_id c bundle_id started completed es")
  case (Inr b)
  note sources = evidence_of_sources [OF Inr]
  show ?thesis
    using build_bundle_Inr(2) [OF Inr] sources(5-7) application_evidence_from(2) [OF sources(1)]
      prometheus_evidence_from(2) [OF sources(2)] kubernetes_evidence_from(2) [OF sources(3)]
      argocd_evidence_from(2) [OF sources(4)]
    by (simp add: Inr)
qed simp

text \<open>
  A collection is COMPLETE exactly when every result is either not applicable or OK and not
  partial, and every raw artifact was written.
\<close>

theorem complete_iff_nothing_failed:
  "case build_bundle_from_results L P S rs incident_id c bundle_id started completed es of
     Inl _ \<Rightarrow> True
   | Inr b \<Rightarrow>
       co_status (bu_collection b) = Coll_complete \<longleftrightarrow>
         artifact_errors S rs = []
         \<and> list_all (\<lambda>(k, r). get_none r ''status'' = JStr (u ''NOT_APPLICABLE'')
             \<or> get_none r ''status'' = JStr (u ''OK'') \<and> \<not> truthy (get_none r ''partial'')) rs"
proof (cases "build_bundle_from_results L P S rs incident_id c bundle_id started completed es")
  case (Inr b)
  have "\<not> list_ex (\<lambda>(k, r). unsound r) (applicable rs) \<longleftrightarrow>
      list_all (\<lambda>(k, r). get_none r ''status'' = JStr (u ''NOT_APPLICABLE'')
        \<or> get_none r ''status'' = JStr (u ''OK'') \<and> \<not> truthy (get_none r ''partial'')) rs"
    by (induction rs) (auto simp: applicable_def unsound_def)
  then show ?thesis
    using build_bundle_Inr(3) [OF Inr] by (simp add: Inr final_status_complete collection_status_of_def)
qed simp

text \<open>
  The raw artifact of a collector is the redacted payload: the same object, with every value of a
  sensitive name hidden at any depth and every text sanitized, under the digest of what is written.
\<close>

theorem raw_artifact_is_redacted:
  "\<exists>v. same_shape O' payload v \<and> hidden O' (\<lambda>s. \<exists>t. s = sanitize_text W t) v
     \<and> af_content (write_raw_artifact O' W dir bundle_id source payload) = pretty (py O') 0 v @ [10]
     \<and> af_sha256 (write_raw_artifact O' W dir bundle_id source payload)
         = hexdigest (sha256 (py O') (ascii (pretty (py O') 0 v @ [10])))"
proof (intro exI conjI)
  show "same_shape O' payload (redact O' W payload)" by (rule redact_shape)
  show "hidden O' (\<lambda>s. \<exists>t. s = sanitize_text W t) (redact O' W payload)" by (rule redact_hidden)
qed (simp_all add: write_raw_artifact_def Let_def)

end
