(* ===== verification/Prometheus_Evidence.thy ===== *)
theory Prometheus_Evidence
  imports Bundle_Facts
begin

text \<open>
  The collection of Prometheus and the controller together: the result of a collection as the
  dictionary the controller reads, and by what the evidence of a metric is dated.
\<close>

section \<open>The dictionaries of a collection\<close>












section \<open>By what evidence is dated\<close>


lemma draft_of_dates [simp]:
  "dr_tool (draft_of s k n v st c t m b ty no) = k" "dr_source_ts (draft_of s k n v st c t m b ty no) = t"
  by (simp_all add: draft_of_def)











end
