(* ===== verification/Kubernetes_Collector.thy ===== *)
theory Kubernetes_Collector
  imports Bundle_Assembly
begin

text \<open>
  The Kubernetes and Argo CD collectors (\<open>src/ops_agent/collectors/kubernetes.py\<close> and
  \<open>argocd.py\<close>): validation of names, the executable, the command lines, the normalisation of the
  resources and the result of a collection. Running a command is an argument.
\<close>

section \<open>Names and the executable\<close>

definition name_char :: "nat \<Rightarrow> bool" where
  "name_char c \<longleftrightarrow> 97 \<le> c \<and> c \<le> 122 \<or> is_digit c"

definition is_kubernetes_name :: "ustr \<Rightarrow> bool" where
  "is_kubernetes_name s \<longleftrightarrow>
     s \<noteq> [] \<and> name_char (hd s) \<and> name_char (last s) \<and> list_all (\<lambda>c. name_char c \<or> c \<in> {45, 46}) s"

definition validate_name :: "ustr \<Rightarrow> string \<Rightarrow> exn + ustr" where
  "validate_name s field =
     guard (length s \<le> 253 \<and> is_kubernetes_name s) (value_error (''invalid Kubernetes '' @ field)) (Inr s)"

definition context_char :: "nat \<Rightarrow> bool" where
  "context_char c \<longleftrightarrow> is_alnum c \<or> one_of ''._/@:-'' c"

definition validate_context :: "ustr \<Rightarrow> exn + ustr" where
  "validate_context s =
     guard (s \<noteq> [] \<and> is_alnum (hd s) \<and> length s \<le> 253 \<and> list_all context_char s)
       (value_error ''invalid Kubernetes context'') (Inr s)"

text \<open>
  The platform: whether it is Windows, \<open>shutil.which\<close>, the pinned executable of the repository if
  it is there, and the suffix of a path.
\<close>

record platform =
  pf_windows :: bool
  pf_which :: "ustr \<Rightarrow> ustr option"
  pf_pinned :: "ustr option"
  pf_suffix :: "ustr \<Rightarrow> ustr"

definition validate_executable :: "opslib \<Rightarrow> platform \<Rightarrow> ustr \<Rightarrow> exn + ustr" where
  "validate_executable O' F s =
     guard (\<not> (pf_windows F \<and> lower_of O' (pf_suffix F s) \<noteq> u ''.exe''))
       (value_error ''Windows kubectl executable must be an .exe file'')
     (guard (lower_of O' (pf_suffix F s) \<notin> {u ''.bat'', u ''.cmd''})
       (value_error ''batch-file kubectl launchers are not allowed'') (Inr s))"

definition nonempty_text :: "ustr option \<Rightarrow> ustr option" where
  "nonempty_text s = (case s of Some (c # cs) \<Rightarrow> Some (c # cs) | _ \<Rightarrow> None)"

definition text_or :: "ustr option \<Rightarrow> ustr \<Rightarrow> ustr" where
  "text_or s t = (case nonempty_text s of Some x \<Rightarrow> x | None \<Rightarrow> t)"

definition resolve_kubectl_path :: "opslib \<Rightarrow> platform \<Rightarrow> ustr option \<Rightarrow> exn + ustr" where
  "resolve_kubectl_path O' F explicit =
     (case nonempty_text explicit of
        Some e \<Rightarrow>
          validate_executable O' F (if pf_windows F \<and> pf_suffix F e = [] then text_or (pf_which F e) e else e)
      | None \<Rightarrow>
          if pf_windows F
          then (case pf_pinned F of
                  Some p \<Rightarrow> Inr p
                | None \<Rightarrow> (case nonempty_text (pf_which F (u ''kubectl'')) of
                             Some d \<Rightarrow> validate_executable O' F d | None \<Rightarrow> Inr (u ''kubectl.exe'')))
          else validate_executable O' F (text_or (pf_which F (u ''kubectl'')) (u ''kubectl'')))"

section \<open>Commands\<close>

text \<open>What running a command line gives: its exit code with both outputs, or why it did not run.\<close>

datatype run = Not_found | Timeout_expired | Os_error | Completed int ustr ustr

type_synonym runner = "ustr list \<Rightarrow> run"

text \<open>The text of a \<open>ValueError\<close>.\<close>

definition message_of :: "exn \<Rightarrow> ustr" where
  "message_of e = (case e of ValueError s \<Rightarrow> s | _ \<Rightarrow> [])"

definition value_error_obj :: "exn \<Rightarrow> json" where
  "value_error_obj e = failure_obj (exn_name e) (message_of e)"

definition context_obj :: "string \<Rightarrow> json \<Rightarrow> json \<Rightarrow> obj" where
  "context_obj status c e = [(u ''status'', JStr (u status)), (u ''context'', c), (u ''error'', e)]"

definition context_failed :: "string \<Rightarrow> string \<Rightarrow> string \<Rightarrow> obj" where
  "context_failed status k msg = context_obj status JNull (failure_obj (u k) (u msg))"

definition context_command :: "ustr \<Rightarrow> ustr list" where
  "context_command kubectl = [kubectl, u ''config'', u ''current-context'']"

definition get_current_context :: "opslib \<Rightarrow> platform \<Rightarrow> runner \<Rightarrow> ustr option \<Rightarrow> obj" where
  "get_current_context O' F R explicit =
     (case resolve_kubectl_path O' F explicit of
        Inl e \<Rightarrow> context_obj ''ERROR'' JNull (value_error_obj e)
      | Inr kubectl \<Rightarrow>
          (case R (context_command kubectl) of
             Not_found \<Rightarrow> context_failed ''ERROR'' ''CommandNotFound'' ''kubectl executable was not found''
           | Timeout_expired \<Rightarrow> context_failed ''ERROR'' ''CommandTimeout'' ''kubectl current-context timed out''
           | Os_error \<Rightarrow> context_failed ''ERROR'' ''CommandError'' ''kubectl current-context could not be executed''
           | Completed code out err \<Rightarrow>
               if code \<noteq> 0 then context_failed ''ERROR'' ''KubectlContextFailed'' ''kubectl current-context failed''
               else if strip out = [] then context_failed ''MISSING'' ''ContextMissing'' ''kubectl has no current context''
               else (case validate_context (strip out) of
                       Inl e \<Rightarrow> context_obj ''ERROR'' JNull (value_error_obj e)
                     | Inr c \<Rightarrow> context_obj ''OK'' (JStr c) JNull)))"

definition allowed_resources :: "string list" where
  "allowed_resources = [''deployment'', ''pods'', ''scaledobject.keda.sh'', ''applications.argoproj.io'']"

definition option_text :: "string \<Rightarrow> ustr option \<Rightarrow> ustr list" where
  "option_text p s = (case s of None \<Rightarrow> [] | Some x \<Rightarrow> [u p @ x])"

definition get_command ::
  "ustr \<Rightarrow> string \<Rightarrow> ustr \<Rightarrow> ustr option \<Rightarrow> ustr option \<Rightarrow> ustr option \<Rightarrow> ustr list" where
  "get_command kubectl resource namespace name selector context =
     [kubectl] @ option_text ''--context='' context @ [u ''--namespace='' @ namespace, u ''get'', u resource]
     @ option_text '''' name @ option_text ''--selector='' selector @ [u ''--output=json'']"

definition response_obj :: "string \<Rightarrow> json \<Rightarrow> json \<Rightarrow> obj" where
  "response_obj status d e = [(u ''status'', JStr (u status)), (u ''document'', d), (u ''error'', e)]"

definition response_failed :: "string \<Rightarrow> string \<Rightarrow> ustr \<Rightarrow> obj" where
  "response_failed status k msg = response_obj status JNull (failure_obj (u k) msg)"

definition get_response :: "opslib \<Rightarrow> string \<Rightarrow> run \<Rightarrow> obj" where
  "get_response O' resource r =
     (case r of
        Not_found \<Rightarrow> response_failed ''ERROR'' ''CommandNotFound'' (u ''kubectl executable was not found'')
      | Timeout_expired \<Rightarrow> response_failed ''ERROR'' ''CommandTimeout'' (u ''kubectl GET timed out'')
      | Os_error \<Rightarrow> response_failed ''ERROR'' ''CommandError'' (u ''kubectl GET could not be executed'')
      | Completed code out err \<Rightarrow>
          if code \<noteq> 0
          then (if contains (lower_of O' err) ''notfound'' \<or> contains (lower_of O' err) ''not found''
                then response_failed ''MISSING'' ''ResourceNotFound'' (u ''kubectl GET for '' @ u resource @ u '' failed'')
                else response_failed ''ERROR'' ''KubectlGetFailed'' (u ''kubectl GET for '' @ u resource @ u '' failed''))
          else (case loads (py O') out of
                  None \<Rightarrow> response_failed ''ERROR'' ''InvalidJson'' (u ''kubectl GET for '' @ u resource @ u '' returned invalid JSON'')
                | Some (JObj d) \<Rightarrow> response_obj ''OK'' (JObj d) JNull
                | Some _ \<Rightarrow> response_failed ''ERROR'' ''InvalidJsonShape'' (u ''kubectl JSON root must be an object'')))"

definition validate_optional :: "('a \<Rightarrow> exn + 'b) \<Rightarrow> 'a option \<Rightarrow> exn + unit" where
  "validate_optional f x = (case x of None \<Rightarrow> Inr () | Some y \<Rightarrow> rbind (f y) (\<lambda>_. Inr ()))"

definition run_kubectl_get_json ::
  "opslib \<Rightarrow> platform \<Rightarrow> runner \<Rightarrow> string \<Rightarrow> ustr \<Rightarrow> ustr option \<Rightarrow> ustr option \<Rightarrow> ustr option \<Rightarrow> ustr option \<Rightarrow> exn + obj" where
  "run_kubectl_get_json O' F R resource namespace name selector context explicit =
     guard (resource \<in> set allowed_resources) (value_error ''Kubernetes resource is not allowlisted for collection'')
     (rbind (validate_name namespace ''namespace'') (\<lambda>_.
      rbind (validate_optional (\<lambda>n. validate_name n ''resource name'') name) (\<lambda>_.
      guard (resource = ''pods'' \<or> name \<noteq> None) (value_error ''a resource name is required for this Kubernetes GET'')
     (guard (selector = None \<or> resource = ''pods'') (value_error ''selectors are only supported for the fixed pod-list query'')
     (rbind (validate_optional validate_context context) (\<lambda>_.
        Inr (case resolve_kubectl_path O' F explicit of
               Inl e \<Rightarrow> response_obj ''ERROR'' JNull (value_error_obj e)
             | Inr kubectl \<Rightarrow> get_response O' resource (R (get_command kubectl resource namespace name selector context)))))))))"

section \<open>Normalisation\<close>

text \<open>A dictionary of chosen members under new names.\<close>

definition pick :: "obj \<Rightarrow> (string \<times> string) list \<Rightarrow> obj" where
  "pick d ks = map (\<lambda>(new, old). (u new, get_none d old)) ks"

definition mapping_at :: "obj \<Rightarrow> string \<Rightarrow> obj" where
  "mapping_at d k = mapping_or_empty (get_none d k)"

definition mappings_at :: "obj \<Rightarrow> string \<Rightarrow> obj list" where
  "mappings_at d k = List.map_filter (\<lambda>v. case v of JObj e \<Rightarrow> Some e | _ \<Rightarrow> None) (list_or_empty (get_none d k))"

definition metadata_of :: "obj \<Rightarrow> json" where
  "metadata_of d = JObj (pick (mapping_at d ''metadata'')
     [(''name'', ''name''), (''namespace'', ''namespace''), (''uid'', ''uid''), (''resource_version'', ''resourceVersion''),
      (''generation'', ''generation''), (''creation_timestamp'', ''creationTimestamp''),
      (''deletion_timestamp'', ''deletionTimestamp'')])"

definition conditions_of :: "obj \<Rightarrow> obj list" where
  "conditions_of status = map (\<lambda>c. pick c
     [(''type'', ''type''), (''status'', ''status''), (''reason'', ''reason''),
      (''last_transition_time'', ''lastTransitionTime''), (''last_update_time'', ''lastUpdateTime'')])
     (mappings_at status ''conditions'')"

definition normalize_deployment :: "obj \<Rightarrow> json" where
  "normalize_deployment d =
     (let spec = mapping_at d ''spec''; status = mapping_at d ''status'';
          containers = mappings_at (mapping_at (mapping_at spec ''template'') ''spec'') ''containers''
      in JObj ([(u ''metadata'', metadata_of d)]
        @ pick status [(''observed_generation'', ''observedGeneration'')]
        @ pick spec [(''desired_replicas'', ''replicas'')]
        @ pick status [(''current_replicas'', ''replicas''), (''updated_replicas'', ''updatedReplicas''),
            (''ready_replicas'', ''readyReplicas''), (''available_replicas'', ''availableReplicas''),
            (''unavailable_replicas'', ''unavailableReplicas'')]
        @ [(u ''desired_containers'', JArr (map (\<lambda>c. JObj (pick c [(''name'', ''name''), (''image'', ''image'')])) containers)),
           (u ''conditions'', JArr (map JObj (conditions_of status)))]))"

definition terminated_fields :: "obj \<Rightarrow> obj" where
  "terminated_fields d = pick d
     [(''reason'', ''reason''), (''exit_code'', ''exitCode''), (''signal'', ''signal''),
      (''started_at'', ''startedAt''), (''finished_at'', ''finishedAt'')]"

definition normalize_terminated :: "json \<Rightarrow> json" where
  "normalize_terminated v = (case v of JObj d \<Rightarrow> JObj (terminated_fields d) | _ \<Rightarrow> JNull)"

definition normalize_container_state :: "json \<Rightarrow> json" where
  "normalize_container_state v =
     (case v of
        JObj d \<Rightarrow>
          (case get_none d ''waiting'' of
             JObj w \<Rightarrow> JObj ((u ''type'', JStr (u ''waiting'')) # pick w [(''reason'', ''reason'')])
           | _ \<Rightarrow>
               (case get_none d ''running'' of
                  JObj r \<Rightarrow> JObj ((u ''type'', JStr (u ''running'')) # pick r [(''started_at'', ''startedAt'')])
                | _ \<Rightarrow>
                    (case get_none d ''terminated'' of
                       JObj t \<Rightarrow> JObj ((u ''type'', JStr (u ''terminated'')) # terminated_fields t)
                     | _ \<Rightarrow> JNull)))
      | _ \<Rightarrow> JNull)"

definition normalize_container_status :: "obj \<Rightarrow> json" where
  "normalize_container_status d = JObj (pick d
       [(''name'', ''name''), (''ready'', ''ready''), (''started'', ''started''), (''restart_count'', ''restartCount''),
        (''image'', ''image''), (''image_id'', ''imageID'')]
     @ [(u ''state'', normalize_container_state (get_none d ''state'')),
        (u ''last_termination'', normalize_terminated (get_none (mapping_at d ''lastState'') ''terminated''))])"

definition normalize_pod :: "obj \<Rightarrow> json" where
  "normalize_pod d =
     (let status = mapping_at d ''status''; conditions = conditions_of status;
          ready = (case find (\<lambda>c. get_none c ''type'' = JStr (u ''Ready'')) conditions of
                     Some c \<Rightarrow> get_none c ''status'' | None \<Rightarrow> JNull)
      in JObj ([(u ''metadata'', metadata_of d)]
        @ pick status [(''phase'', ''phase''), (''reason'', ''reason''), (''start_time'', ''startTime'')]
        @ [(u ''ready_condition_status'', ready), (u ''conditions'', JArr (map JObj conditions)),
           (u ''containers'', JArr (map normalize_container_status (mappings_at status ''containerStatuses'')))]))"

definition normalize_pods :: "obj \<Rightarrow> json" where
  "normalize_pods d = JArr (map normalize_pod (mappings_at d ''items''))"

definition normalize_scaled_object :: "obj \<Rightarrow> json" where
  "normalize_scaled_object d =
     (let spec = mapping_at d ''spec''; status = mapping_at d ''status'';
          health = List.map_filter (\<lambda>(k, v). case v of
              JObj h \<Rightarrow> Some (k, JObj (pick h [(''status'', ''status''), (''number_of_failures'', ''numberOfFailures'')]))
            | _ \<Rightarrow> None) (mapping_at status ''health'')
      in JObj ([(u ''metadata'', metadata_of d)]
        @ pick (mapping_at spec ''scaleTargetRef'') [(''scale_target_name'', ''name'')]
        @ pick spec [(''polling_interval_seconds'', ''pollingInterval''), (''cooldown_period_seconds'', ''cooldownPeriod''),
            (''min_replicas'', ''minReplicaCount''), (''max_replicas'', ''maxReplicaCount'')]
        @ [(u ''trigger_types'', JArr (map (\<lambda>t. get_none t ''type'') (mappings_at spec ''triggers''))),
           (u ''conditions'', JArr (map JObj (conditions_of status)))]
        @ pick status [(''hpa_name'', ''hpaName''), (''last_active_time'', ''lastActiveTime''),
            (''original_replica_count'', ''originalReplicaCount'')]
        @ [(u ''health'', JObj health)]))"

section \<open>Collections\<close>

definition resource_item :: "obj \<Rightarrow> ustr \<Rightarrow> (obj \<Rightarrow> json) \<Rightarrow> obj" where
  "resource_item response t normalizer =
     (case (get_none response ''status'' = JStr (u ''OK''), get_none response ''document'') of
        (True, JObj d) \<Rightarrow> [(u ''status'', JStr (u ''OK'')), (u ''collected_at'', JStr t), (u ''data'', normalizer d), (u ''error'', JNull)]
      | _ \<Rightarrow> [(u ''status'', get_none response ''status''), (u ''collected_at'', JStr t), (u ''data'', JNull),
              (u ''error'', get_none response ''error'')])"

definition configured_context :: "ustr \<Rightarrow> obj" where
  "configured_context c =
     (case validate_context c of
        Inr k \<Rightarrow> [(u ''status'', JStr (u ''OK'')), (u ''context'', JStr k), (u ''source'', JStr (u ''configured'')), (u ''error'', JNull)]
      | Inl e \<Rightarrow> [(u ''status'', JStr (u ''ERROR'')), (u ''context'', JNull), (u ''source'', JStr (u ''configured'')),
                   (u ''error'', value_error_obj e)])"

definition text_of :: "json \<Rightarrow> ustr option" where
  "text_of v = (case v of JStr s \<Rightarrow> Some s | _ \<Rightarrow> None)"

text \<open>The three fixed queries: key, resource, name, selector and normalizer.\<close>

definition worker_queries :: "ustr \<Rightarrow> ustr \<Rightarrow> ustr \<Rightarrow> (string \<times> string \<times> ustr option \<times> ustr option \<times> (obj \<Rightarrow> json)) list" where
  "worker_queries deployment selector scaled =
     [(''deployment'', ''deployment'', Some deployment, None, normalize_deployment),
      (''pods'', ''pods'', None, Some selector, normalize_pods),
      (''scaled_object'', ''scaledobject.keda.sh'', Some scaled, None, normalize_scaled_object)]"

definition query_response ::
  "opslib \<Rightarrow> platform \<Rightarrow> runner \<Rightarrow> obj \<Rightarrow> ustr \<Rightarrow> ustr \<Rightarrow> string \<Rightarrow> ustr option \<Rightarrow> ustr option \<Rightarrow> obj" where
  "query_response O' F R ctx namespace kubectl resource name selector =
     (if get_none ctx ''status'' \<noteq> JStr (u ''OK'')
      then response_failed ''ERROR'' ''ContextUnavailable'' (u ''Kubernetes GET skipped because the context is unavailable'')
      else (case run_kubectl_get_json O' F R resource namespace name selector (text_of (get_none ctx ''context'')) (Some kubectl) of
              Inl e \<Rightarrow> response_obj ''ERROR'' JNull (value_error_obj e) | Inr r \<Rightarrow> r))"

definition item_status :: "obj \<Rightarrow> json" where
  "item_status d = get_none d ''status''"

definition aggregate_status :: "obj \<Rightarrow> (string \<times> obj) list \<Rightarrow> string" where
  "aggregate_status ctx items =
     (let statuses = item_status ctx # map (\<lambda>x. item_status (snd x)) items
      in if list_all (\<lambda>s. s = JStr (u ''OK'')) statuses then ''OK''
         else if list_all (\<lambda>s. s = JStr (u ''MISSING'')) statuses then ''MISSING'' else ''ERROR'')"

definition failed_names :: "obj \<Rightarrow> (string \<times> obj) list \<Rightarrow> string list" where
  "failed_names ctx items =
     (if item_status ctx \<noteq> JStr (u ''OK'') then [''context''] else [])
     @ map fst (filter (\<lambda>x. item_status (snd x) \<noteq> JStr (u ''OK'')) items)"

definition kubernetes_result :: "ustr \<Rightarrow> obj \<Rightarrow> (string \<times> obj) list \<Rightarrow> obj" where
  "kubernetes_result t ctx items =
     (let failed = failed_names ctx items
      in [(u ''status'', JStr (u (aggregate_status ctx items))), (u ''source'', JStr (u ''kubernetes_api_via_kubectl'')),
          (u ''collected_at'', JStr t),
          (u ''partial'', JBool (failed \<noteq> [] \<and> (item_status ctx = JStr (u ''OK'')
              \<or> list_ex (\<lambda>x. item_status (snd x) = JStr (u ''OK'')) items))),
          (u ''context'', JObj ctx), (u ''data'', JObj (map (\<lambda>(k, d). (u k, JObj d)) items)),
          (u ''semantic'', JObj [(u ''type'', JStr (u ''worker_runtime_observation'')),
             (u ''notes'', JStr (u ''raw replica availability and KEDA state; no incident or grace-period evaluation''))]),
          (u ''error'', if failed = [] then JNull
             else failure_obj (u ''PartialCollectionError'') (u ''failed resources: '' @ join (u '', '') (map u failed)))])"

definition collect_kubernetes ::
  "opslib \<Rightarrow> platform \<Rightarrow> runner \<Rightarrow> ustr \<Rightarrow> ustr \<Rightarrow> ustr option \<Rightarrow> ustr \<Rightarrow> ustr \<Rightarrow> ustr \<Rightarrow> ustr option \<Rightarrow> exn + obj" where
  "collect_kubernetes O' F R t namespace context deployment selector scaled explicit =
     rbind (resolve_kubectl_path O' F explicit) (\<lambda>kubectl.
       let ctx = (case context of None \<Rightarrow> get_current_context O' F R (Some kubectl) | Some c \<Rightarrow> configured_context c)
       in Inr (kubernetes_result t ctx
            (map (\<lambda>(k, resource, name, sel, normalizer).
                (k, resource_item (query_response O' F R ctx namespace kubectl resource name sel) t normalizer))
              (worker_queries deployment selector scaled))))"

section \<open>Argo CD\<close>

definition normalize_application :: "obj \<Rightarrow> obj" where
  "normalize_application d =
     (let spec = mapping_at d ''spec''; status = mapping_at d ''status''; sync = mapping_at status ''sync''
      in [(u ''metadata'', JObj (pick (mapping_at d ''metadata'')
            [(''name'', ''name''), (''namespace'', ''namespace''), (''uid'', ''uid''),
             (''resource_version'', ''resourceVersion''), (''generation'', ''generation'')]))]
        @ pick sync [(''sync_status'', ''status'')] @ pick (mapping_at status ''health'') [(''health_status'', ''status'')]
        @ pick sync [(''revision'', ''revision'')]
        @ [(u ''revisions'', JArr (list_or_empty (get_none sync ''revisions'')))]
        @ pick status [(''reconciled_at'', ''reconciledAt'')]
        @ pick (mapping_at spec ''source'') [(''target_revision'', ''targetRevision''), (''source_path'', ''path'')]
        @ pick (mapping_at spec ''destination'') [(''destination_namespace'', ''namespace'')])"

definition argocd_result :: "json \<Rightarrow> ustr \<Rightarrow> string \<Rightarrow> json \<Rightarrow> string \<Rightarrow> obj \<Rightarrow> json \<Rightarrow> obj" where
  "argocd_result status t applicability app notes source_ts e =
     [(u ''status'', status), (u ''source'', JStr (u ''argocd_application_cr'')), (u ''collected_at'', JStr t),
      (u ''partial'', JBool False),
      (u ''data'', JObj [(u ''applicability'', JStr (u applicability)), (u ''application'', app)]),
      (u ''semantic'', JObj [(u ''type'', JStr (u ''gitops_reconciliation_observation'')), (u ''notes'', JStr (u notes))])]
     @ source_ts @ [(u ''error'', e)]"

definition collect_argocd ::
  "opslib \<Rightarrow> platform \<Rightarrow> runner \<Rightarrow> ustr \<Rightarrow> bool \<Rightarrow> ustr \<Rightarrow> ustr \<Rightarrow> ustr option \<Rightarrow> ustr option \<Rightarrow> obj" where
  "collect_argocd O' F R t is_applicable namespace application context explicit =
     (if \<not> is_applicable
      then argocd_result (JStr (u ''NOT_APPLICABLE'')) t ''NOT_APPLICABLE'' JNull
             ''Argo CD is not part of this cluster profile'' [] JNull
      else
        (let response = (case run_kubectl_get_json O' F R ''applications.argoproj.io'' namespace (Some application) None context explicit of
               Inl e \<Rightarrow> response_obj ''ERROR'' JNull (value_error_obj e) | Inr r \<Rightarrow> r);
             notes = ''collection only; sync and health are not evaluated''
         in case (get_none response ''status'' = JStr (u ''OK''), get_none response ''document'') of
              (True, JObj d) \<Rightarrow>
                (let a = normalize_application d
                 in argocd_result (JStr (u ''OK'')) t ''APPLICABLE'' (JObj a) notes
                      [(u ''source_timestamp'', get_none a ''reconciled_at'')] JNull)
            | _ \<Rightarrow> argocd_result (get_none response ''status'') t ''APPLICABLE'' JNull notes [] (get_none response ''error'')))"

end
