(* ===== verification/Application_Collector.thy ===== *)
theory Application_Collector
  imports Bundle_Assembly
begin

text \<open>
  The application collector (\<open>src/ops_agent/collectors/application.py\<close>): the checks of the URL, the
  projection of the two operational endpoints to known fields, and the result of a collection. What a
  request brings back is an argument.
\<close>

section \<open>Configuration\<close>

definition validated_base_url :: "opslib \<Rightarrow> ustr \<Rightarrow> exn + ustr" where
  "validated_base_url O' base =
     (case split_url O' base of
        None \<Rightarrow> Inl (value_error ''Invalid URL'')
      | Some x \<Rightarrow>
          guard (url_scheme x \<in> {u ''http'', u ''https''} \<and> url_netloc x \<noteq> [])
            (value_error ''application base URL must be an absolute HTTP(S) URL'')
          (guard (url_user x = None \<and> url_password x = None)
            (value_error ''application base URL must not contain credentials'')
          (guard (url_query x = [] \<and> url_fragment x = [])
            (value_error ''application base URL must not contain a query or fragment'')
          (guard (url_path x \<in> {[], [47]}) (value_error ''application base URL path must be empty'')
            (Inr (rstrip_slash base))))))"

definition validated_host_header :: "ustr option \<Rightarrow> exn + ustr option" where
  "validated_host_header h =
     guard (opt_ok safe_host_header h) (value_error ''application Host header is invalid'') (Inr h)"

section \<open>Projection\<close>

definition integer_or_none :: "json \<Rightarrow> json" where
  "integer_or_none v = (case v of JInt i \<Rightarrow> JInt i | _ \<Rightarrow> JNull)"

definition boolean_or_none :: "json \<Rightarrow> json" where
  "boolean_or_none v = (case v of JBool b \<Rightarrow> JBool b | _ \<Rightarrow> JNull)"

text \<open>\<open>re.fullmatch\<close> of the ASCII patterns of the module.\<close>

definition full_match :: "rx \<Rightarrow> ustr \<Rightarrow> bool" where
  "full_match r s \<longleftrightarrow> list_ex (\<lambda>st. snd st = []) (results (\<lambda>_. False) r (None, s))"

definition app_version :: rx where
  "app_version = in_order [many is_digit, lit ''.'', many is_digit, lit ''.'', many is_digit,
     Rep 0 None (\<lambda>c. is_alnum c \<or> one_of ''.+-'' c)]"

definition small_char :: "nat \<Rightarrow> bool" where
  "small_char c \<longleftrightarrow> 97 \<le> c \<and> c \<le> 122 \<or> is_digit c"

definition deployment_name :: rx where
  "deployment_name = Cat (One small_char)
     (Maybe (Cat (Rep 0 None (\<lambda>c. small_char c \<or> one_of ''.-'' c)) (One small_char)))"

definition error_type :: rx where
  "error_type = Cat (One (\<lambda>c. 65 \<le> c \<and> c \<le> 90)) (Rep 0 (Some 127) (\<lambda>c. is_alnum c \<or> c = 46))"

definition readiness_reasons :: "ustr list" where
  "readiness_reasons = map u
     [''schema_not_ready'', ''kafka_unreachable'', ''postgres_primary_unreachable'',
      ''postgres_ready_standbys_below_minimum'', ''postgres_sync_standbys_below_minimum'',
      ''postgres_replication_delay_high'', ''unsafe_auth_secret'']"

text \<open>The member kept when its text is admitted.\<close>

definition kept_text :: "string \<Rightarrow> (ustr \<Rightarrow> bool) \<Rightarrow> json \<Rightarrow> obj" where
  "kept_text k P v = (case v of JStr s \<Rightarrow> if P s then [(u k, JStr s)] else [] | _ \<Rightarrow> [])"

definition text_or_none :: "(ustr \<Rightarrow> bool) \<Rightarrow> json \<Rightarrow> json" where
  "text_or_none P v = (case v of JStr s \<Rightarrow> if P s then JStr s else JNull | _ \<Rightarrow> JNull)"

definition project_reasons :: "json \<Rightarrow> json" where
  "project_reasons v =
     (case v of
        JArr xs \<Rightarrow> JArr (filter (\<lambda>x. case x of JStr s \<Rightarrow> s \<in> set readiness_reasons | _ \<Rightarrow> False) xs)
      | _ \<Rightarrow> JNull)"

definition project_readiness :: "obj \<Rightarrow> obj" where
  "project_readiness body =
     kept_text ''status'' (\<lambda>s. s \<in> {u ''ready'', u ''degraded'', u ''not_ready''}) (get_none body ''status'')
     @ [(u ''reason'', project_reasons (get_none body ''reason'')),
        (u ''grace_remaining_seconds'', integer_or_none (get_none body ''grace_remaining_seconds''))]
     @ kept_text ''queue_backend'' (\<lambda>s. s = u ''kafka'') (get_none body ''queue_backend'')
     @ (case get_none body ''kafka'' of
          JObj k \<Rightarrow> [(u ''kafka'', JObj [(u ''bootstrap_reachable'', boolean_or_none (get_none k ''bootstrap_reachable''))])]
        | _ \<Rightarrow> [])
     @ (case get_none body ''postgres'' of
          JObj p \<Rightarrow> [(u ''postgres'', JObj
            [(u ''ha_mode'', boolean_or_none (get_none p ''ha_mode'')),
             (u ''primary_reachable'', boolean_or_none (get_none p ''primary_reachable'')),
             (u ''standby_count'', integer_or_none (get_none p ''standby_count'')),
             (u ''sync_standby_count'', integer_or_none (get_none p ''sync_standby_count'')),
             (u ''max_replication_delay_bytes'', integer_or_none (get_none p ''max_replication_delay_bytes''))])]
        | _ \<Rightarrow> [])"

definition worker_counts :: "string list" where
  "worker_counts = [''desired_replicas'', ''available_replicas'', ''hpa_desired_replicas'', ''max_replicas'']"

definition project_worker :: "obj \<Rightarrow> obj" where
  "project_worker w =
     kept_text ''deployment'' (full_match deployment_name) (get_none w ''deployment'')
     @ map (\<lambda>k. (u k, integer_or_none (get_none w k))) worker_counts
     @ kept_text ''source'' (\<lambda>s. s \<in> {u ''prometheus'', u ''unavailable''}) (get_none w ''source'')
     @ [(u ''error'', text_or_none (full_match error_type) (get_none w ''error''))]"

definition project_application_body :: "bool \<Rightarrow> obj \<Rightarrow> obj" where
  "project_application_body readiness body =
     kept_text ''app_version'' (full_match app_version) (get_none body ''app_version'')
     @ (if readiness then project_readiness body
        else (case get_none body ''worker'' of JObj w \<Rightarrow> [(u ''worker'', JObj (project_worker w))] | _ \<Rightarrow> []))"

section \<open>Requests\<close>

text \<open>
  What a request brings back: an exception of the transport (\<open>OSError\<close> with its subclasses), one of
  the collector's own, any other, or a status with the JSON value of the body or the class of the
  exception that reading it raises.
\<close>

datatype http_answer =
    Unreachable ustr
  | Refused ustr
  | Other_error
  | Answered int "ustr + json"

definition endpoint_semantic :: "bool \<Rightarrow> json" where
  "endpoint_semantic readiness =
     JObj (if readiness
           then [(u ''type'', JStr (u ''application_readiness'')), (u ''advisory'', JBool False)]
           else [(u ''type'', JStr (u ''application_ops_summary'')), (u ''advisory'', JBool True),
                 (u ''cache_max_age_seconds'', JInt 15),
                 (u ''notes'', JStr (u ''advisory application summary with an in-process 15 second cache''))])"

definition endpoint_result ::
  "bool \<Rightarrow> ustr \<Rightarrow> string \<Rightarrow> json \<Rightarrow> json \<Rightarrow> json \<Rightarrow> json \<Rightarrow> obj" where
  "endpoint_result readiness t status code body body_status e =
     [(u ''status'', JStr (u status)), (u ''path'', JStr (if readiness then u ''/health/ready'' else u ''/ops/summary'')),
      (u ''http_status'', code), (u ''body'', body), (u ''body_status'', body_status), (u ''source_timestamp'', JNull),
      (u ''collected_at'', JStr t), (u ''semantic'', endpoint_semantic readiness), (u ''error'', e)]"

definition collect_endpoint :: "ustr \<Rightarrow> bool \<Rightarrow> http_answer \<Rightarrow> failure + obj" where
  "collect_endpoint t readiness r =
     (case r of
        Unreachable k \<Rightarrow>
          Inr (endpoint_result readiness t ''ERROR'' JNull JNull JNull (failure_obj k (u ''application endpoint unreachable'')))
      | Refused msg \<Rightarrow>
          Inr (endpoint_result readiness t ''ERROR'' JNull JNull JNull (failure_obj (u ''ApplicationCollectionError'') msg))
      | Other_error \<Rightarrow> Inl Escapes
      | Answered code (Inl k) \<Rightarrow>
          Inr (endpoint_result readiness t ''ERROR'' (JInt code) JNull JNull
            (failure_obj k (u ''application endpoint returned invalid JSON'')))
      | Answered code (Inr (JObj body)) \<Rightarrow>
          (let projected = project_application_body readiness body
           in Inr (endpoint_result readiness t ''OK'' (JInt code) (JObj projected) (get_none projected ''status'') JNull))
      | Answered code (Inr _) \<Rightarrow>
          Inr (endpoint_result readiness t ''ERROR'' (JInt code) JNull JNull
            (failure_obj (u ''ValueError'') (u ''application endpoint returned invalid JSON''))))"

section \<open>A collection\<close>

definition application_result :: "ustr \<Rightarrow> string \<Rightarrow> bool \<Rightarrow> obj \<Rightarrow> json \<Rightarrow> obj" where
  "application_result t status partial data e =
     [(u ''status'', JStr (u status)), (u ''source'', JStr (u ''application_http'')), (u ''collected_at'', JStr t),
      (u ''partial'', JBool partial), (u ''data'', JObj data), (u ''error'', e)]"

definition collect_application ::
  "opslib \<Rightarrow> ustr \<Rightarrow> ustr \<Rightarrow> pyfloat \<Rightarrow> ustr option \<Rightarrow> (ustr \<Rightarrow> http_answer) \<Rightarrow> failure + obj" where
  "collect_application O' t base timeout host get =
     (case guard (\<not> f_less_eq timeout (Fin 0)) (value_error ''application timeout_seconds must be positive'')
             (rbind (validated_base_url O' base) (\<lambda>b. rbind (validated_host_header host) (\<lambda>_. Inr b))) of
        Inl e \<Rightarrow>
          Inr (application_result t ''ERROR'' False []
            (failure_obj (exn_name e) (case e of ValueError s \<Rightarrow> s | _ \<Rightarrow> [])))
      | Inr b \<Rightarrow>
          rbind (collect_endpoint t True (get (b @ u ''/health/ready''))) (\<lambda>readiness.
          rbind (collect_endpoint t False (get (b @ u ''/ops/summary''))) (\<lambda>summary.
            let failed = (if get_none readiness ''status'' \<noteq> JStr (u ''OK'') then [''readiness''] else [])
                  @ (if get_none summary ''status'' \<noteq> JStr (u ''OK'') then [''ops_summary''] else [])
            in Inr (application_result t (if failed = [] then ''OK'' else ''ERROR'') (length failed = 1)
                 [(u ''readiness'', JObj readiness), (u ''ops_summary'', JObj summary)]
                 (if failed = [] then JNull
                  else failure_obj (u ''PartialCollectionError'')
                    (u ''failed endpoints: '' @ join (u '', '') (map u failed))))))) "

end
