(* ===== verification/Collector_Facts.thy ===== *)
theory Collector_Facts
  imports Kubernetes_Collector Application_Collector
begin

text \<open>
  What the collectors guarantee: kubectl is only asked to read, the status of a Kubernetes
  collection is OK or ERROR, and nothing but known names and texts of the application's answers is
  kept.
\<close>

section \<open>Commands\<close>

definition is_flag :: "ustr \<Rightarrow> bool" where
  "is_flag a \<longleftrightarrow> take 1 a = [45]"

definition read_flag :: "ustr \<Rightarrow> bool" where
  "read_flag a \<longleftrightarrow> a = u ''--output=json''
     \<or> list_ex (\<lambda>p. starts_with (u p) a) [''--context='', ''--namespace='', ''--selector='']"

text \<open>
  A command that only reads: the current context, or \<open>get\<close> of an allowed resource, by name or not;
  no argument that is not one of the known flags starts with a dash.
\<close>

definition read_only :: "ustr list \<Rightarrow> bool" where
  "read_only argv =
     (case argv of
        [] \<Rightarrow> False
      | k # rest \<Rightarrow>
          rest = [u ''config'', u ''current-context'']
          \<or> (let ps = filter (\<lambda>a. \<not> is_flag a) rest
             in take 1 ps = [u ''get''] \<and> length ps \<in> {2, 3} \<and> ps ! 1 \<in> u ` set allowed_resources
                \<and> list_all read_flag (filter is_flag rest)))"

definition guarded :: "runner \<Rightarrow> runner" where
  "guarded R argv = (if read_only argv then R argv else Os_error)"

lemma context_command_read_only [simp]: "read_only (context_command k)"
  by (simp add: read_only_def context_command_def)

lemma guarded_read_only [simp]: "read_only argv \<Longrightarrow> guarded R argv = R argv"
  by (simp add: guarded_def)

lemma get_current_context_guarded: "get_current_context O' F (guarded R) e = get_current_context O' F R e"
proof -
  have "guarded R (context_command k) = R (context_command k)" for k by simp
  then show ?thesis unfolding get_current_context_def by presburger
qed

lemma name_no_flag: "is_kubernetes_name n \<Longrightarrow> \<not> is_flag n"
  by (cases n) (auto simp: is_kubernetes_name_def is_flag_def name_char_def is_digit_def)

lemma flag_texts [simp]:
  "is_flag (u ''--context='' @ s)" "is_flag (u ''--namespace='' @ s)" "is_flag (u ''--selector='' @ s)"
  "is_flag (u ''--output=json'')" "\<not> is_flag (u ''get'')"
  "read_flag (u ''--context='' @ s)" "read_flag (u ''--namespace='' @ s)" "read_flag (u ''--selector='' @ s)"
  "read_flag (u ''--output=json'')"
  by (simp_all add: is_flag_def read_flag_def starts_with_def u_def)

lemma resource_no_flag: "r \<in> set allowed_resources \<Longrightarrow> \<not> is_flag (u r)"
  by (auto simp: allowed_resources_def is_flag_def u_def)

lemma get_command_read_only:
  assumes "r \<in> set allowed_resources" "\<forall>n. name = Some n \<longrightarrow> is_kubernetes_name n"
  shows "read_only (get_command k r ns name sel ctx)"
  using assms resource_no_flag [OF assms(1)]
  by (cases name; cases sel; cases ctx) (auto simp: read_only_def get_command_def option_text_def name_no_flag)

lemma validate_name_ok: "validate_name n f = Inr x \<Longrightarrow> is_kubernetes_name n"
  by (auto simp: validate_name_def guard_eq_Inr)

lemma run_guarded: "run_kubectl_get_json O' F (guarded R) r ns name sel ctx e = run_kubectl_get_json O' F R r ns name sel ctx e"
proof (cases "r \<in> set allowed_resources \<and> (\<exists>x. validate_optional (\<lambda>n. validate_name n ''resource name'') name = Inr x)")
  case True
  then have "\<forall>n. name = Some n \<longrightarrow> is_kubernetes_name n"
    by (auto simp: validate_optional_def rbind_eq_Inr dest: validate_name_ok)
  with True have "guarded R (get_command k r ns name sel ctx) = R (get_command k r ns name sel ctx)" for k
    by (simp add: get_command_read_only)
  then show ?thesis unfolding run_kubectl_get_json_def by presburger
next
  case False
  then show ?thesis
    by (cases "validate_optional (\<lambda>n. validate_name n ''resource name'') name")
      (auto simp: run_kubectl_get_json_def guard_def)
qed

text \<open>
  C38: the collectors never make kubectl do anything but read. Whatever the configuration, running
  them with every command refused that does not read gives the same results: each command line is
  the current context or a GET of an allowed resource, and no configured text becomes an option.
\<close>

theorem collectors_only_read:
  "collect_kubernetes O' F (guarded R) t namespace context deployment selector scaled explicit
     = collect_kubernetes O' F R t namespace context deployment selector scaled explicit
   \<and> collect_argocd O' F (guarded R) t is_applicable namespace application context explicit
     = collect_argocd O' F R t is_applicable namespace application context explicit"
  unfolding collect_kubernetes_def collect_argocd_def query_response_def run_guarded get_current_context_guarded
  by simp

section \<open>The status of a Kubernetes collection\<close>

lemma skipped_status:
  "item_status ctx \<noteq> JStr (u ''OK'') \<Longrightarrow>
     item_status (resource_item (query_response O' F R ctx ns k r n s) t f) = JStr (u ''ERROR'')"
  by (simp add: query_response_def item_status_def resource_item_def response_failed_def response_obj_def text_simps)

text \<open>
  The status of a Kubernetes collection is OK or ERROR and never MISSING: either the context is
  OK, or no resource is asked for and each is an ERROR. The case of the code that reports MISSING
  cannot arise.
\<close>

theorem kubernetes_status_is_ok_or_error:
  "case collect_kubernetes O' F R t namespace context deployment selector scaled explicit of
     Inl _ \<Rightarrow> True
   | Inr r \<Rightarrow> get_none r ''status'' \<in> {JStr (u ''OK''), JStr (u ''ERROR'')}"
  by (auto simp: collect_kubernetes_def Let_def rbind_def kubernetes_result_def aggregate_status_def worker_queries_def
      text_simps skipped_status split: sum.split)

section \<open>Projection\<close>

text \<open>The texts a projected body may hold: the names of its fields and admitted values.\<close>

definition field_names :: "ustr list" where
  "field_names = map u
     ([''app_version'', ''status'', ''reason'', ''grace_remaining_seconds'', ''queue_backend'', ''kafka'',
       ''bootstrap_reachable'', ''postgres'', ''ha_mode'', ''primary_reachable'', ''standby_count'',
       ''sync_standby_count'', ''max_replication_delay_bytes'', ''worker'', ''deployment'', ''source'', ''error'']
      @ worker_counts)"

definition admitted :: "ustr \<Rightarrow> bool" where
  "admitted s \<longleftrightarrow>
     s \<in> set field_names \<or> s \<in> set readiness_reasons
     \<or> s \<in> {u ''ready'', u ''degraded'', u ''not_ready'', u ''kafka'', u ''prometheus'', u ''unavailable''}
     \<or> full_match app_version s \<or> full_match deployment_name s \<or> full_match error_type s"

lemma field_names_admitted: "x \<in> set field_names \<Longrightarrow> admitted x"
  by (simp add: admitted_def)

abbreviation foreign :: "json \<Rightarrow> bool" where
  "foreign \<equiv> some_text (\<lambda>s. \<not> admitted s)"

lemma projected_scalars [simp]: "\<not> foreign (integer_or_none v)" "\<not> foreign (boolean_or_none v)"
  by (auto simp: integer_or_none_def boolean_or_none_def split: json.split)

lemma projected_reasons [simp]: "\<not> foreign (project_reasons v)"
  by (auto simp: project_reasons_def list_ex_iff admitted_def split: json.splits)

lemma kept_text_admitted:
  "admitted (u k) \<Longrightarrow> (\<And>s. P s \<Longrightarrow> admitted s) \<Longrightarrow> \<not> foreign (JObj (kept_text k P v @ d)) \<longleftrightarrow> \<not> foreign (JObj d)"
  by (auto simp: kept_text_def split: json.split)

lemma some_text_append: "foreign (JObj (d @ e)) \<longleftrightarrow> foreign (JObj d) \<or> foreign (JObj e)"
  by simp

lemma kept_foreign: "admitted (u k) \<Longrightarrow> (\<And>s. P s \<Longrightarrow> admitted s) \<Longrightarrow> \<not> foreign (JObj (kept_text k P v))"
  by (auto simp: kept_text_def split: json.split)

lemma field_admitted [simp]:
  "admitted (u ''app_version'')" "admitted (u ''status'')" "admitted (u ''reason'')" "admitted (u ''grace_remaining_seconds'')"
  "admitted (u ''queue_backend'')" "admitted (u ''kafka'')" "admitted (u ''bootstrap_reachable'')" "admitted (u ''postgres'')"
  "admitted (u ''ha_mode'')" "admitted (u ''primary_reachable'')" "admitted (u ''standby_count'')"
  "admitted (u ''sync_standby_count'')" "admitted (u ''max_replication_delay_bytes'')" "admitted (u ''worker'')"
  "admitted (u ''deployment'')" "admitted (u ''source'')" "admitted (u ''error'')"
  "admitted (u ''desired_replicas'')" "admitted (u ''available_replicas'')" "admitted (u ''hpa_desired_replicas'')"
  "admitted (u ''max_replicas'')"
  by (rule field_names_admitted; simp add: field_names_def worker_counts_def)+

lemma admitted_words [simp]:
  "admitted (u ''ready'')" "admitted (u ''degraded'')" "admitted (u ''not_ready'')" "admitted (u ''prometheus'')"
  "admitted (u ''unavailable'')"
  by (simp_all add: admitted_def)

lemma admitted_patterns:
  "full_match app_version s \<Longrightarrow> admitted s" "full_match deployment_name s \<Longrightarrow> admitted s" "full_match error_type s \<Longrightarrow> admitted s"
  by (simp_all add: admitted_def)

lemma readiness_projection: "\<not> foreign (JObj (project_readiness body))"
  unfolding project_readiness_def some_text_append de_Morgan_disj
  by (intro conjI kept_foreign) (auto split: json.split)

lemma worker_projection: "\<not> foreign (JObj (project_worker w))"
  unfolding project_worker_def some_text_append de_Morgan_disj
  by (intro conjI kept_foreign) (auto simp: worker_counts_def text_or_none_def admitted_patterns split: json.split)

text \<open>
  What is kept of an answer of the application holds no text of the application's choosing:
  every name and every text of the projected body is a field name, a known word, a version, a
  deployment name or the name of an error class, at any depth.
\<close>

theorem projection_admits_known_texts:
  "\<not> some_text (\<lambda>s. \<not> admitted s) (JObj (project_application_body readiness body))"
  unfolding project_application_body_def some_text_append de_Morgan_disj
  using readiness_projection [of body] worker_projection
  by (intro conjI kept_foreign) (auto simp: admitted_patterns split: json.split)

end
