(* ===== verification/Spec2Isabelle.thy ===== *)
theory Spec2Isabelle
  imports Outbox Worker_Loops Gateway Api_Dlq Backlog_Facts Diagnosis_Run Incident_Facts
    Prometheus_Evidence Collector_Facts
begin

text \<open>
  A model of the event pipeline and of its operations agent, translated from the Python sources.

  \<^bold>\<open>The program.\<close> An HTTP API (\<open>portfolio/api.py\<close>) accepts events and appends them to a Kafka topic.
  Ingress workers (\<open>worker/main.py\<close>) validate each record and store it in one PostgreSQL
  transaction with its room sequence number, its idempotency answer, its request status and an
  outbox row. The outbox relay (\<open>worker/outbox.py\<close>) publishes the rows as notifications, which the
  notification worker stores as attempts. What cannot be handled goes to a dead-letter topic, from
  which the replayer (\<open>worker/dlq_replayer.py\<close>) or a caller of the API puts it back under a claim
  kept in the database (\<open>portfolio/state_store.py\<close>). The operations agent (\<open>ops_agent/\<close>) reads the
  pipeline from outside: bundles of evidence are evaluated to conditions, sequences of bundles to
  an activation and to a recovery, a language model may add a diagnosis under a fixed contract, and
  an incident record ties these artifacts together.

  \<^bold>\<open>Representation.\<close> Text is a list of code points (\<open>ustr\<close>), bytes are 8-bit words, JSON a datatype,
  a Python exception the left value of a sum (\<open>exn\<close>), and a function that may raise returns such a
  sum. Tables and topics are records and lists passed from operation to operation; a transaction is
  a function on the database with a rollback. Integers are unbounded as in Python and are checked
  against the limits of PostgreSQL where the code checks them. Doubles are exact rationals rounded
  to the nearest double by every operation, with the infinities, NaN and the negative zero;
  \<open>Decimal\<close> is a coefficient and an exponent with the context's 28 digits. Library code is an
  argument: \<open>pylib\<close> (JSON reading, \<open>repr\<close> of floats, SHA-256), \<open>kafka_lib\<close>, \<open>authlib\<close> (HMAC,
  PBKDF2) and \<open>opslib\<close> (\<open>repr\<close>, case mapping, URL splitting); what a lemma needs of one is a named
  hypothesis. Brokers, connections, clocks and models are streams of outcomes, so that every
  failure the code can meet is an argument of a run.

  \<^bold>\<open>The pipeline.\<close>
  \<^item> \<open>Prelude\<close>, \<open>Py_Json\<close>, \<open>Codec\<close>: text, JSON, exceptions, base64, UTF-8, and shared lemmas.
  \<^item> \<open>Event_Envelope\<close>, \<open>Ingress_Validation\<close>: the structural rules of a payload and the normal form of
    an ingress job; validation accepts exactly the normal form.
  \<^item> \<open>Store\<close>, \<open>State_Store\<close>, \<open>Persistence\<close>: the tables with their invariant, request statuses, replay
    claims, and the transaction that stores an event. Every operation keeps the tables consistent,
    a redelivered request stores nothing, a scoped idempotency key names one event for ever, and a
    replay claim has one holder.
  \<^item> \<open>Kafka_Client\<close>, \<open>Ingress_Handler\<close>, \<open>Notifications\<close>, \<open>Outbox\<close>: one record of each kind from its
    bytes to its outcome: stored, rejected, retried or in the dead-letter topic.
  \<^item> \<open>Consumer_Batch\<close>, \<open>Worker_Loops\<close>, \<open>Dlq_Replayer\<close>: the polling loops. Two locales state what a loop
    may assume of the handling of a record (\<open>record_handler\<close>) and of a batch (\<open>batch_processor\<close>), the
    first giving the second; both are interpreted on the ingress worker, the notification worker
    and the replayer. An offset is committed only past records that are accounted for.
  \<^item> \<open>Auth\<close>, \<open>Db_Pool\<close>, \<open>Gateway\<close>, \<open>Api\<close>, \<open>Api_Dlq\<close>: passwords and signed tokens, the replaceable
    connection pool, settings and body limit, the endpoints and the dead-letter endpoints.

  \<^bold>\<open>The operations agent.\<close>
  \<^item> \<open>Decimals\<close>, \<open>Evidence\<close>: numbers, instants, the models of a bundle, canonical digests and endpoint
    identities (\<open>models.py\<close>, \<open>evaluation_models.py\<close>, \<open>endpoint_provenance.py\<close>).
  \<^item> \<open>Prometheus\<close>, \<open>Prometheus_Facts\<close>: the collection of the fixed Prometheus queries, with their
    coverage, anomalies and freshness (\<open>collectors/prometheus.py\<close>); answers are arguments.
  \<^item> \<open>Redaction\<close>, \<open>Controller\<close>, \<open>Bundle_Assembly\<close>, \<open>Bundle_Facts\<close>, \<open>Prometheus_Evidence\<close>: the
    redaction of secrets (\<open>artifacts.py\<close>) with a backtracking matcher for its patterns, the
    controller that turns what collectors return into a validated bundle (\<open>controller.py\<close>), and the
    two together with the Prometheus collector.
  \<^item> \<open>Kubernetes_Collector\<close>, \<open>Application_Collector\<close>, \<open>Collector_Facts\<close>: the collectors that read the
    cluster through kubectl and the two operational endpoints (\<open>collectors/kubernetes.py\<close>,
    \<open>collectors/argocd.py\<close>, \<open>collectors/application.py\<close>); what a command or a request returns is an
    argument. No command does anything but read, and only known texts of an answer are kept.
  \<^item> \<open>Evidence_Checks\<close>, \<open>Evaluator\<close>, \<open>Backlog_Facts\<close>: the evidence each condition depends on, the four
    conditions and their assessment (\<open>evaluator.py\<close>). A condition is decided only on clean evidence,
    and the decisions are characterised by what was measured.
  \<^item> \<open>Calibration\<close>, \<open>Sequence\<close>: the measurements of a bundle and the activation over consecutive
    captures (\<open>calibration.py\<close>, \<open>sequence_evaluator.py\<close>, \<open>sequence_models.py\<close>).
  \<^item> \<open>Recovery\<close>, \<open>Recovery_Facts\<close>: the checks of the captures after an activation with their sticky
    integrity, and what is recovering and recovered (\<open>recovery_evaluator.py\<close>, \<open>recovery_models.py\<close>).
  \<^item> \<open>Diagnosis\<close>, \<open>Diagnosis_Tools\<close>, \<open>Diagnosis_Validator\<close>, \<open>Diagnosis_Agent\<close>, \<open>Diagnosis_Run\<close>: the
    artifacts, tools and output contract of a diagnosis, the client and the loop over its turns.
  \<^item> \<open>Incident\<close>, \<open>Incident_Lifecycle\<close>, \<open>Incident_Facts\<close>: the sealed record of an incident and its
    transitions, as a refinement of an abstract lifecycle (\<open>incident_models.py\<close>,
    \<open>incident_lifecycle.py\<close>).

  \<^bold>\<open>Bounds and termination.\<close> Recursion over payloads is structural, with the depth limit of the code.
  The inline retries of an ingress record are a recursion on the attempts left, and the loops of the
  workers run over a finite list of polls, so a property of a loop holds after any number of
  iterations. The retries of the model client are bounded by the policy. The loop of a diagnosis is
  a partial function: nothing in the loop itself bounds it, and that it returns is a theorem, by
  the budget for tool calls. No definition is run with fuel that could run out.

  \<^bold>\<open>Idealisations.\<close> Text that went through JSON and the model library is the value itself. Fields
  that a model fixes to one literal are constants of its dump. Logging, metrics and sleeping have
  no effect on the state except where a delay is a result.

  \<^bold>\<open>Not modelled.\<close> The command line, artifact files, the offline
  calibration and evaluation of experiments, the later experimental diagnosis contracts and the
  assistants, the scripts and drills, migrations, infrastructure, dashboards and tests: they are
  I/O around the modelled core, data, or analyses of recorded runs. The metrics registry and the
  operational summaries that only read counters are left out as well.
\<close>

end
